(* ===== verification/Prelude.thy ===== *)
theory Prelude
  imports Main "HOL-Library.Word"
begin

unbundle bit_operations_syntax

text \<open>
  Shared vocabulary of the development: the machine types of the C code, its little-endian
  word layout, the byte-level files the tools read and write, and the few functions of the C
  library the sources call on strings (\<^verbatim>\<open>isspace\<close>, \<^verbatim>\<open>strtol\<close>, \<^verbatim>\<open>atoi\<close>, \<^verbatim>\<open>strtok\<close>, \<^verbatim>\<open>fgets\<close>).
  Strings are lists of characters without the terminating NUL.
\<close>

type_synonym byte = "8 word"
type_synonym u32 = "32 word"

named_theorems codec \<open>layout of the structures that are written to files and devices\<close>
named_theorems cstr \<open>characteristic equations of the C string functions\<close>
named_theorems frame \<open>what an operation leaves unchanged\<close>

section \<open>Little-endian words\<close>

definition le32 :: "byte \<Rightarrow> byte \<Rightarrow> byte \<Rightarrow> byte \<Rightarrow> u32" where
  "le32 a b c d = (ucast a OR push_bit 8 (ucast b)) OR (push_bit 16 (ucast c) OR push_bit 24 (ucast d))"

definition le32_bytes :: "u32 \<Rightarrow> byte list" where
  "le32_bytes w = [ucast w, ucast (drop_bit 8 w), ucast (drop_bit 16 w), ucast (drop_bit 24 w)]"

lemma length_le32_bytes [simp, codec]: "length (le32_bytes w) = 4"
  by (simp add: le32_bytes_def)

lemma le32_le32_bytes [simp, codec]:
  "le32 (ucast w) (ucast (drop_bit 8 w)) (ucast (drop_bit 16 w)) (ucast (drop_bit 24 w)) = w"
proof (rule bit_word_eqI)
  fix n assume n: "n < LENGTH(32)"
  have "n < 8 \<or> (8 \<le> n \<and> n < 16) \<or> (16 \<le> n \<and> n < 24) \<or> (24 \<le> n \<and> n < 32)"
    using n by auto
  then show "bit (le32 (ucast w) (ucast (drop_bit 8 w)) (ucast (drop_bit 16 w)) (ucast (drop_bit 24 w))) n
      = bit w n"
    by (elim disjE) (auto simp: le32_def bit_simps)
qed

text \<open>The 32-bit word stored at a byte offset of a buffer.\<close>

definition u32_at :: "byte list \<Rightarrow> nat \<Rightarrow> u32" where
  "u32_at bs k = le32 (bs ! k) (bs ! (k + 1)) (bs ! (k + 2)) (bs ! (k + 3))"

lemma u32_at_le32_bytes [codec]:
  "length xs = k \<Longrightarrow> u32_at (xs @ le32_bytes w @ ys) k = w"
proof -
  assume k: "length xs = k"
  have nth: "(xs @ le32_bytes w @ ys) ! (k + j) = le32_bytes w ! j" if "j < 4" for j
    using that k by (simp add: nth_append)
  show ?thesis
    using nth [of 0] nth [of 1] nth [of 2] nth [of 3]
    by (simp add: u32_at_def) (simp add: le32_bytes_def)
qed

section \<open>Byte-level files\<close>

text \<open>Writing at a position overwrites, and extends the file (with zeros in a gap).\<close>

definition write_at :: "byte list \<Rightarrow> nat \<Rightarrow> byte list \<Rightarrow> byte list" where
  "write_at bs pos d = take pos (bs @ replicate (pos - length bs) 0) @ d @ drop (pos + length d) bs"

lemma write_at_end [simp]: "write_at bs (length bs) d = bs @ d"
  by (simp add: write_at_def)

lemma write_at_empty_data: "pos \<le> length bs \<Longrightarrow> write_at bs pos [] = bs"
  by (simp add: write_at_def)

lemma write_at_start: "write_at bs 0 d = d @ drop (length d) bs"
  by (simp add: write_at_def)

lemma write_at_append:
  "write_at (write_at bs pos d) (pos + length d) e = write_at bs pos (d @ e)"
  by (simp add: write_at_def ac_simps min_def diff_le_mono)

section \<open>Strings of the C library\<close>

definition c_isspace :: "char \<Rightarrow> bool" where
  "c_isspace c \<longleftrightarrow> c \<in> {CHR '' '', CHR 0x09, CHR 0x0A, CHR 0x0B, CHR 0x0C, CHR 0x0D}"

definition c_isdigit :: "char \<Rightarrow> bool" where
  "c_isdigit c \<longleftrightarrow> 48 \<le> (of_char c :: nat) \<and> (of_char c :: nat) \<le> 57"

definition c_digit :: "char \<Rightarrow> int" where
  "c_digit c = int (of_char c) - 48"

fun digits_val :: "int \<Rightarrow> string \<Rightarrow> int \<times> string" where
  "digits_val acc [] = (acc, [])"
| "digits_val acc (c # s) = (if c_isdigit c then digits_val (10 * acc + c_digit c) s else (acc, c # s))"

text \<open>\<^verbatim>\<open>strtol(s, &end, 10)\<close> with a 32-bit \<^verbatim>\<open>long\<close>: the value, clamped, and the rest of
  the string; without a digit the rest is the whole string (\<^verbatim>\<open>end == s\<close>).\<close>

definition clamp_long :: "int \<Rightarrow> int" where
  "clamp_long v = max (- (2 ^ 31)) (min (2 ^ 31 - 1) v)"

definition strip_sign :: "string \<Rightarrow> bool \<times> string" where
  "strip_sign t = (case t of [] \<Rightarrow> (False, [])
     | c # u \<Rightarrow> if c = CHR ''-'' then (True, u) else if c = CHR ''+'' then (False, u) else (False, t))"

definition c_strtol10 :: "string \<Rightarrow> int \<times> string" where
  "c_strtol10 s = (case strip_sign (dropWhile c_isspace s) of (neg, u) \<Rightarrow>
     (if u = [] \<or> \<not> c_isdigit (hd u) then (0, s)
      else (case digits_val 0 u of (v, r) \<Rightarrow> (clamp_long (if neg then - v else v), r))))"

definition c_atoi :: "string \<Rightarrow> int" where
  "c_atoi s = fst (c_strtol10 s)"

lemma c_atoi_range [cstr]: "- (2 ^ 31) \<le> c_atoi s \<and> c_atoi s < 2 ^ 31"
  by (auto simp: c_atoi_def c_strtol10_def clamp_long_def min_def split: prod.split)

text \<open>\<^verbatim>\<open>strtok\<close>: skip leading delimiters, take up to the next one; the rest follows it.\<close>

definition c_strtok :: "(char \<Rightarrow> bool) \<Rightarrow> string \<Rightarrow> (string \<times> string) option" where
  "c_strtok d s = (let t = dropWhile d s in
     if t = [] then None
     else Some (takeWhile (\<lambda>c. \<not> d c) t, drop 1 (dropWhile (\<lambda>c. \<not> d c) t)))"

lemma c_strtok_token [cstr]:
  "c_strtok d s = Some (tok, r) \<Longrightarrow> tok \<noteq> [] \<and> (\<forall>c \<in> set tok. \<not> d c)"
proof -
  assume a: "c_strtok d s = Some (tok, r)"
  then have t: "tok = takeWhile (\<lambda>c. \<not> d c) (dropWhile d s)" and ne: "dropWhile d s \<noteq> []"
    by (auto simp: c_strtok_def Let_def split: if_splits)
  from ne have "\<not> d (hd (dropWhile d s))" by (rule hd_dropWhile)
  with t ne have "tok \<noteq> []" by (cases "dropWhile d s") auto
  with t show ?thesis by (auto dest: set_takeWhileD)
qed

text \<open>\<^verbatim>\<open>fgets\<close> with room for \<open>k\<close> characters: a line keeps its newline, a longer one is cut.\<close>

fun take_line :: "nat \<Rightarrow> string \<Rightarrow> string \<times> string" where
  "take_line 0 s = ([], s)"
| "take_line (Suc k) [] = ([], [])"
| "take_line (Suc k) (c # s) =
     (if c = CHR 0x0A then ([c], s) else (case take_line k s of (l, r) \<Rightarrow> (c # l, r)))"

lemma take_line_append: "take_line k s = (l, r) \<Longrightarrow> s = l @ r"
  by (induction k s arbitrary: l r rule: take_line.induct) (auto split: if_splits prod.splits)

lemma take_line_shrinks: "take_line k s = (l, r) \<Longrightarrow> k \<noteq> 0 \<Longrightarrow> s \<noteq> [] \<Longrightarrow> length r < length s"
  by (cases k; cases s) (auto dest!: take_line_append split: if_splits prod.splits)

function fgets_lines :: "nat \<Rightarrow> string \<Rightarrow> string list" where
  "fgets_lines k s = (if k = 0 \<or> s = [] then []
     else (case take_line k s of (l, r) \<Rightarrow> l # fgets_lines k r))"
  by pat_completeness auto
termination
  by (relation "measure (\<lambda>(k, s). length s)") (auto dest: take_line_shrinks [OF sym])

declare fgets_lines.simps [simp del]

lemma concat_fgets_lines: "0 < k \<Longrightarrow> concat (fgets_lines k s) = s"
proof (induction k s rule: fgets_lines.induct)
  case (1 k s)
  show ?case
  proof (cases "s = []")
    case True then show ?thesis by (simp add: fgets_lines.simps)
  next
    case False
    obtain l r where lr: "take_line k s = (l, r)" by fastforce
    with 1 False have "concat (fgets_lines k r) = r" by simp
    with lr False 1(2) have "concat (fgets_lines k s) = l @ r"
      by (simp add: fgets_lines.simps [of k s])
    then show ?thesis using take_line_append [OF lr] by simp
  qed
qed

text \<open>Text that is made of lines is read line by line.\<close>

definition is_line :: "nat \<Rightarrow> string \<Rightarrow> bool" where
  "is_line k l \<longleftrightarrow> l \<noteq> [] \<and> last l = CHR 0x0A \<and> CHR 0x0A \<notin> set (butlast l) \<and> length l \<le> k"

lemma take_line_is_line: "is_line k l \<Longrightarrow> take_line k (l @ t) = (l, t)"
proof (induction l arbitrary: k)
  case Nil
  then show ?case by (simp add: is_line_def)
next
  case (Cons c l)
  then obtain k' where k: "k = Suc k'" by (cases k) (auto simp: is_line_def)
  show ?case
  proof (cases "l = []")
    case True
    with Cons.prems k show ?thesis by (simp add: is_line_def)
  next
    case False
    with Cons.prems k have "is_line k' l" "c \<noteq> CHR 0x0A" by (auto simp: is_line_def)
    with Cons.IH [of k'] k show ?thesis by simp
  qed
qed

lemma fgets_lines_concat: "\<forall>l \<in> set ls. is_line k l \<Longrightarrow> fgets_lines k (concat ls) = ls"
proof (induction ls)
  case Nil
  then show ?case by (simp add: fgets_lines.simps)
next
  case (Cons l ls)
  then have l: "is_line k l" "l \<noteq> []" "0 < k" by (auto simp: is_line_def intro: gr0I)
  have "fgets_lines k (l @ concat ls) = l # fgets_lines k (concat ls)"
    using l take_line_is_line [OF l(1)] by (subst fgets_lines.simps) simp
  with Cons show ?case by simp
qed

end
