(* ===== verification/FwFormat.thy ===== *)
theory FwFormat
  imports Prelude
begin

text \<open>
  The vendor firmware container of \<^verbatim>\<open>dns323-fw.c\<close>: the two control headers (64 and 128 bytes),
  the tool's own header that abstracts from both, the table of signatures, and the functions
  that fill a header (\<^verbatim>\<open>set_header64\<close>, \<^verbatim>\<open>set_header128\<close>), read one (\<^verbatim>\<open>get_info64\<close>,
  \<^verbatim>\<open>get_info128\<close>) and recognise one (\<^verbatim>\<open>cmp_sig\<close>, \<^verbatim>\<open>check_sig\<close>). The C code reads and writes the
  structures as memory images on a little-endian machine; \<open>enc_header64\<close> and \<open>dec_header64\<close>
  (and their 128-byte versions) are these images. The locale \<open>header_codec\<close> is what the rest
  of the tool relies on: an image has the header's size and reads back as the header.
\<close>

section \<open>Data\<close>

record CONTROL_HEADER_64 =
  h64_kernel_off :: u32
  h64_kernel_len :: u32
  h64_initramfs_off :: u32
  h64_initramfs_len :: u32
  h64_defaults_off :: u32
  h64_defaults_len :: u32
  h64_kernel_checksum :: u32
  h64_initramfs_checksum :: u32
  h64_defaults_checksum :: u32
  h64_magic_num :: "byte list"
  h64_product_id :: byte
  h64_custom_id :: byte
  h64_model_id :: byte
  h64_sub_id :: byte
  h64_NewVersion :: byte
  h64_reserved :: "byte list"
  h64_Next_offset :: u32

record CONTROL_HEADER_128 =
  h128_kernel_off :: u32
  h128_kernel_len :: u32
  h128_initramfs_off :: u32
  h128_initramfs_len :: u32
  h128_sqimage_off :: u32
  h128_sqimage_len :: u32
  h128_defaults_off :: u32
  h128_defaults_len :: u32
  h128_kernel_checksum :: u32
  h128_initramfs_checksum :: u32
  h128_sqimage_checksum :: u32
  h128_defaults_checksum :: u32
  h128_magic_num :: "byte list"
  h128_product_id :: byte
  h128_custom_id :: byte
  h128_model_id :: byte
  h128_sub_id :: byte
  h128_NewVersion :: byte
  h128_reserved :: "byte list"
  h128_Next_offset :: u32

record MY_CONTROL_HEADER =
  kernel_off :: u32
  kernel_len :: u32
  kernel_checksum :: u32
  initramfs_off :: u32
  initramfs_len :: u32
  initramfs_checksum :: u32
  sqimage_off :: u32
  sqimage_len :: u32
  sqimage_checksum :: u32
  defaults_off :: u32
  defaults_len :: u32
  defaults_checksum :: u32
  Next_offset :: u32
  product_id :: byte
  custom_id :: byte
  model_id :: byte
  sub_id :: byte
  NewVersion :: byte
  hd_type :: int
  sig_num :: int

definition SIG_LEN :: nat where "SIG_LEN = 12"
definition RESERVED64 :: nat where "RESERVED64 = 7"
definition RESERVED128 :: nat where "RESERVED128 = 59"

record sig_t =
  sig_idx :: int
  sig_size :: int
  kernel_max :: nat
  initramfs_max :: nat
  sqimage_max :: nat
  defaults_max :: nat
  signature :: "byte list"

definition ascii :: "string \<Rightarrow> byte list" where
  "ascii s = map of_char s"

definition signatures :: "sig_t list" where
  "signatures =
    [\<lparr>sig_idx = 0, sig_size = 64, kernel_max = 1572864, initramfs_max = 6488064, sqimage_max = 0,
       defaults_max = 65536, signature = [0x55, 0xAA] @ ascii ''FrodoII'' @ [0x00, 0x55, 0xAA]\<rparr>,
     \<lparr>sig_idx = 1, sig_size = 64, kernel_max = 1572864, initramfs_max = 10485760, sqimage_max = 0,
       defaults_max = 131072, signature = [0x55, 0xAA] @ ascii ''Chopper'' @ [0x00, 0x55, 0xAA]\<rparr>,
     \<lparr>sig_idx = 2, sig_size = 64, kernel_max = 1572864, initramfs_max = 14417920, sqimage_max = 0,
       defaults_max = 131072, signature = [0x55, 0xAA] @ ascii ''Gandolf'' @ [0x00, 0x55, 0xAA]\<rparr>,
     \<lparr>sig_idx = 3, sig_size = 128, kernel_max = 5242880, initramfs_max = 5242880, sqimage_max = 106954752,
       defaults_max = 5242880, signature = [0x55, 0xAA] @ ascii ''DNS-325'' @ [0x00, 0x55, 0xAA]\<rparr>,
     \<lparr>sig_idx = 4, sig_size = 128, kernel_max = 5242880, initramfs_max = 5242880, sqimage_max = 106954752,
       defaults_max = 5242880, signature = [0x55, 0xAA] @ ascii ''DNS323D1'' @ [0x55, 0xAA]\<rparr>,
     \<lparr>sig_idx = 5, sig_size = 128, kernel_max = 5242880, initramfs_max = 5242880, sqimage_max = 104857600,
       defaults_max = 5242880, signature = [0x55, 0xAA] @ ascii ''DNS320B'' @ [0x00, 0x55, 0xAA]\<rparr>,
     \<lparr>sig_idx = 6, sig_size = 128, kernel_max = 5242880, initramfs_max = 5242880, sqimage_max = 104857600,
       defaults_max = 5242880, signature = [0x55, 0xAA] @ ascii ''DNS320L'' @ [0x00, 0x55, 0xAA]\<rparr>,
     \<lparr>sig_idx = 7, sig_size = 128, kernel_max = 5242880, initramfs_max = 5242880, sqimage_max = 81788928,
       defaults_max = 10485760, signature = [0x55, 0xAA] @ ascii ''DNS327L'' @ [0x00, 0x55, 0xAA]\<rparr>,
     \<lparr>sig_idx = 8, sig_size = 128, kernel_max = 5242880, initramfs_max = 5242880, sqimage_max = 73400320,
       defaults_max = 5242880, signature = [0x55, 0xAA] @ ascii ''DNR-322'' @ [0x00, 0x55, 0xAA]\<rparr>]"

definition nsig :: nat where "nsig = length signatures"

lemma nsig_eq [simp]: "nsig = 9"
  by (simp add: nsig_def signatures_def)

section \<open>Memory images of the headers\<close>

definition enc_header64 :: "CONTROL_HEADER_64 \<Rightarrow> byte list" where
  "enc_header64 h =
     concat (map le32_bytes [h64_kernel_off h, h64_kernel_len h, h64_initramfs_off h, h64_initramfs_len h,
       h64_defaults_off h, h64_defaults_len h, h64_kernel_checksum h, h64_initramfs_checksum h,
       h64_defaults_checksum h])
     @ h64_magic_num h
     @ [h64_product_id h, h64_custom_id h, h64_model_id h, h64_sub_id h, h64_NewVersion h]
     @ h64_reserved h @ le32_bytes (h64_Next_offset h)"

definition dec_header64 :: "byte list \<Rightarrow> CONTROL_HEADER_64" where
  "dec_header64 b =
     \<lparr>h64_kernel_off = u32_at b 0, h64_kernel_len = u32_at b 4, h64_initramfs_off = u32_at b 8,
      h64_initramfs_len = u32_at b 12, h64_defaults_off = u32_at b 16, h64_defaults_len = u32_at b 20,
      h64_kernel_checksum = u32_at b 24, h64_initramfs_checksum = u32_at b 28,
      h64_defaults_checksum = u32_at b 32, h64_magic_num = take SIG_LEN (drop 36 b),
      h64_product_id = b ! 48, h64_custom_id = b ! 49, h64_model_id = b ! 50, h64_sub_id = b ! 51,
      h64_NewVersion = b ! 52, h64_reserved = take RESERVED64 (drop 53 b), h64_Next_offset = u32_at b 60\<rparr>"

definition enc_header128 :: "CONTROL_HEADER_128 \<Rightarrow> byte list" where
  "enc_header128 h =
     concat (map le32_bytes [h128_kernel_off h, h128_kernel_len h, h128_initramfs_off h, h128_initramfs_len h,
       h128_sqimage_off h, h128_sqimage_len h, h128_defaults_off h, h128_defaults_len h,
       h128_kernel_checksum h, h128_initramfs_checksum h, h128_sqimage_checksum h, h128_defaults_checksum h])
     @ h128_magic_num h
     @ [h128_product_id h, h128_custom_id h, h128_model_id h, h128_sub_id h, h128_NewVersion h]
     @ h128_reserved h @ le32_bytes (h128_Next_offset h)"

definition dec_header128 :: "byte list \<Rightarrow> CONTROL_HEADER_128" where
  "dec_header128 b =
     \<lparr>h128_kernel_off = u32_at b 0, h128_kernel_len = u32_at b 4, h128_initramfs_off = u32_at b 8,
      h128_initramfs_len = u32_at b 12, h128_sqimage_off = u32_at b 16, h128_sqimage_len = u32_at b 20,
      h128_defaults_off = u32_at b 24, h128_defaults_len = u32_at b 28, h128_kernel_checksum = u32_at b 32,
      h128_initramfs_checksum = u32_at b 36, h128_sqimage_checksum = u32_at b 40,
      h128_defaults_checksum = u32_at b 44, h128_magic_num = take SIG_LEN (drop 48 b),
      h128_product_id = b ! 60, h128_custom_id = b ! 61, h128_model_id = b ! 62, h128_sub_id = b ! 63,
      h128_NewVersion = b ! 64, h128_reserved = take RESERVED128 (drop 65 b), h128_Next_offset = u32_at b 124\<rparr>"

definition wf_header64 :: "CONTROL_HEADER_64 \<Rightarrow> bool" where
  "wf_header64 h \<longleftrightarrow> length (h64_magic_num h) = SIG_LEN \<and> length (h64_reserved h) = RESERVED64"

definition wf_header128 :: "CONTROL_HEADER_128 \<Rightarrow> bool" where
  "wf_header128 h \<longleftrightarrow> length (h128_magic_num h) = SIG_LEN \<and> length (h128_reserved h) = RESERVED128"

locale header_codec =
  fixes enc :: "'h \<Rightarrow> byte list"
    and dec :: "byte list \<Rightarrow> 'h"
    and wf :: "'h \<Rightarrow> bool"
    and hsize :: nat
  assumes length_enc: "wf h \<Longrightarrow> length (enc h) = hsize"
    and dec_enc: "wf h \<Longrightarrow> dec (enc h @ rest) = h"
begin

lemma enc_inject: "wf h \<Longrightarrow> wf h' \<Longrightarrow> enc h @ r = enc h' @ r' \<Longrightarrow> h = h' \<and> r = r'"
proof -
  assume wf: "wf h" "wf h'" and eq: "enc h @ r = enc h' @ r'"
  from eq wf have "h = h'" using dec_enc [of h r] dec_enc [of h' r'] by simp
  with eq show ?thesis by simp
qed

lemma enc_overwrites:
  assumes "wf h" and "length old = hsize"
  shows "write_at (old @ body) 0 (enc h) = enc h @ body"
  using assms by (simp add: write_at_start length_enc)

lemma dec_overwritten:
  assumes "wf h" and "length old = hsize"
  shows "dec (write_at (old @ body) 0 (enc h)) = h"
  using assms by (simp add: enc_overwrites dec_enc)

end

lemma u32_at_skip [codec]: "length xs \<le> k \<Longrightarrow> u32_at (xs @ ys) k = u32_at ys (k - length xs)"
  by (simp add: u32_at_def nth_append Suc_diff_le)

lemma u32_at_Cons [codec]: "0 < k \<Longrightarrow> u32_at (x # ys) k = u32_at ys (k - 1)"
  using u32_at_skip [of "[x]" k ys] by simp

lemma u32_at_0 [codec]: "u32_at (le32_bytes w @ ys) 0 = w"
  using u32_at_le32_bytes [of "[]" 0 w ys] by simp

interpretation h64: header_codec enc_header64 dec_header64 wf_header64 64
proof unfold_locales
  fix h assume "wf_header64 h"
  then show "length (enc_header64 h) = 64"
    by (simp add: enc_header64_def wf_header64_def SIG_LEN_def RESERVED64_def)
next
  fix h :: CONTROL_HEADER_64 and rest
  assume "wf_header64 h"
  then have m: "length (h64_magic_num h) = 12" and r: "length (h64_reserved h) = 7"
    by (simp_all add: wf_header64_def SIG_LEN_def RESERVED64_def)
  show "dec_header64 (enc_header64 h @ rest) = h"
    by (simp add: dec_header64_def enc_header64_def u32_at_skip u32_at_Cons u32_at_0 m r nth_append
        SIG_LEN_def RESERVED64_def)
qed

interpretation h128: header_codec enc_header128 dec_header128 wf_header128 128
proof unfold_locales
  fix h assume "wf_header128 h"
  then show "length (enc_header128 h) = 128"
    by (simp add: enc_header128_def wf_header128_def SIG_LEN_def RESERVED128_def)
next
  fix h :: CONTROL_HEADER_128 and rest
  assume "wf_header128 h"
  then have m: "length (h128_magic_num h) = 12" and r: "length (h128_reserved h) = 59"
    by (simp_all add: wf_header128_def SIG_LEN_def RESERVED128_def)
  show "dec_header128 (enc_header128 h @ rest) = h"
    by (simp add: dec_header128_def enc_header128_def u32_at_skip u32_at_Cons u32_at_0 m r nth_append
        SIG_LEN_def RESERVED128_def)
qed

section \<open>Filling and reading a header\<close>

definition set_header64 :: "MY_CONTROL_HEADER \<Rightarrow> CONTROL_HEADER_64" where
  "set_header64 m =
     \<lparr>h64_kernel_off = kernel_off m, h64_kernel_len = kernel_len m,
      h64_initramfs_off = initramfs_off m, h64_initramfs_len = initramfs_len m,
      h64_defaults_off = defaults_off m, h64_defaults_len = defaults_len m,
      h64_kernel_checksum = kernel_checksum m, h64_initramfs_checksum = initramfs_checksum m,
      h64_defaults_checksum = defaults_checksum m,
      h64_magic_num = signature (signatures ! nat (sig_num m)),
      h64_product_id = product_id m, h64_custom_id = custom_id m, h64_model_id = model_id m,
      h64_sub_id = sub_id m, h64_NewVersion = NewVersion m,
      h64_reserved = replicate RESERVED64 0, h64_Next_offset = Next_offset m\<rparr>"

definition set_header128 :: "MY_CONTROL_HEADER \<Rightarrow> CONTROL_HEADER_128" where
  "set_header128 m =
     \<lparr>h128_kernel_off = kernel_off m, h128_kernel_len = kernel_len m,
      h128_initramfs_off = initramfs_off m, h128_initramfs_len = initramfs_len m,
      h128_sqimage_off = sqimage_off m, h128_sqimage_len = sqimage_len m,
      h128_defaults_off = defaults_off m, h128_defaults_len = defaults_len m,
      h128_kernel_checksum = kernel_checksum m, h128_initramfs_checksum = initramfs_checksum m,
      h128_sqimage_checksum = sqimage_checksum m, h128_defaults_checksum = defaults_checksum m,
      h128_magic_num = signature (signatures ! nat (sig_num m)),
      h128_product_id = product_id m, h128_custom_id = custom_id m, h128_model_id = model_id m,
      h128_sub_id = sub_id m, h128_NewVersion = NewVersion m,
      h128_reserved = replicate RESERVED128 0, h128_Next_offset = Next_offset m\<rparr>"

definition get_info64 :: "CONTROL_HEADER_64 \<Rightarrow> MY_CONTROL_HEADER \<Rightarrow> MY_CONTROL_HEADER" where
  "get_info64 h m = m
     \<lparr>product_id := h64_product_id h, custom_id := h64_custom_id h, model_id := h64_model_id h,
      sub_id := h64_sub_id h, NewVersion := h64_NewVersion h, hd_type := 64,
      kernel_off := h64_kernel_off h, kernel_len := h64_kernel_len h,
      kernel_checksum := h64_kernel_checksum h,
      initramfs_off := h64_initramfs_off h, initramfs_len := h64_initramfs_len h,
      initramfs_checksum := h64_initramfs_checksum h,
      defaults_off := h64_defaults_off h, defaults_len := h64_defaults_len h,
      defaults_checksum := h64_defaults_checksum h,
      Next_offset := h64_Next_offset h\<rparr>"

definition get_info128 :: "CONTROL_HEADER_128 \<Rightarrow> MY_CONTROL_HEADER \<Rightarrow> MY_CONTROL_HEADER" where
  "get_info128 h m = m
     \<lparr>product_id := h128_product_id h, custom_id := h128_custom_id h, model_id := h128_model_id h,
      sub_id := h128_sub_id h, NewVersion := h128_NewVersion h, hd_type := 128,
      kernel_off := h128_kernel_off h, kernel_len := h128_kernel_len h,
      kernel_checksum := h128_kernel_checksum h,
      initramfs_off := h128_initramfs_off h, initramfs_len := h128_initramfs_len h,
      initramfs_checksum := h128_initramfs_checksum h,
      sqimage_off := h128_sqimage_off h, sqimage_len := h128_sqimage_len h,
      sqimage_checksum := h128_sqimage_checksum h,
      defaults_off := h128_defaults_off h, defaults_len := h128_defaults_len h,
      defaults_checksum := h128_defaults_checksum h,
      Next_offset := h128_Next_offset h\<rparr>"

fun cmp_sig_loop :: "sig_t list \<Rightarrow> byte list \<Rightarrow> int" where
  "cmp_sig_loop [] t = -1"
| "cmp_sig_loop (g # gs) t = (if signature g = take SIG_LEN t then sig_idx g else cmp_sig_loop gs t)"

definition cmp_sig :: "byte list \<Rightarrow> int" where
  "cmp_sig t = cmp_sig_loop signatures t"

text \<open>The result of \<^verbatim>\<open>check_sig\<close> and the header it has filled; the same buffer is viewed as
  either header, the 64-byte view first.\<close>

definition check_sig :: "byte list \<Rightarrow> MY_CONTROL_HEADER \<Rightarrow> int \<times> MY_CONTROL_HEADER" where
  "check_sig buf myhd =
     (let hd64 = dec_header64 buf; hd128 = dec_header128 buf;
          t64 = cmp_sig (h64_magic_num hd64); t128 = cmp_sig (h128_magic_num hd128)
      in if t64 \<noteq> -1 then (t64, (get_info64 hd64 myhd)\<lparr>sig_num := t64\<rparr>)
         else if t128 \<noteq> -1 then (t128, (get_info128 hd128 myhd)\<lparr>sig_num := t128\<rparr>)
         else (-1, myhd))"

section \<open>The table of signatures\<close>

lemma sig_nth_cases:
  fixes k :: nat
  assumes "k < 9"
  obtains "k = 0" | "k = 1" | "k = 2" | "k = 3" | "k = 4" | "k = 5" | "k = 6" | "k = 7" | "k = 8"
  using assms by arith

lemma length_signature [simp]: "k < 9 \<Longrightarrow> length (signature (signatures ! k)) = 12"
  by (erule sig_nth_cases) (simp_all add: signatures_def ascii_def)

lemma sig_idx_nth: "k < 9 \<Longrightarrow> sig_idx (signatures ! k) = int k"
  by (erule sig_nth_cases) (simp_all add: signatures_def)

lemma sig_size_cases: "k < 9 \<Longrightarrow> sig_size (signatures ! k) = (if k < 3 then 64 else 128)"
  by (erule sig_nth_cases) (simp_all add: signatures_def)

lemma distinct_signatures: "distinct (map signature signatures)"
  by (simp add: signatures_def ascii_def)

lemma cmp_sig_loop_idx:
  "distinct (map signature gs) \<Longrightarrow> g \<in> set gs \<Longrightarrow> take SIG_LEN t = signature g \<Longrightarrow>
   cmp_sig_loop gs t = sig_idx g"
  by (induction gs) auto

lemma cmp_sig_loop_member:
  "cmp_sig_loop gs t \<noteq> -1 \<Longrightarrow> \<exists>g \<in> set gs. cmp_sig_loop gs t = sig_idx g \<and> take SIG_LEN t = signature g"
  by (induction gs) (auto split: if_splits)

lemma cmp_sig_nth: "k < 9 \<Longrightarrow> cmp_sig (signature (signatures ! k)) = int k"
  using cmp_sig_loop_idx [OF distinct_signatures nth_mem, of k "signature (signatures ! k)"]
  by (simp add: cmp_sig_def sig_idx_nth SIG_LEN_def nsig_eq [unfolded nsig_def])

lemma cmp_sig_iff:
  "cmp_sig t = int k \<longleftrightarrow> k < 9 \<and> take SIG_LEN t = signature (signatures ! k)"
proof
  assume k: "cmp_sig t = int k"
  then obtain g where g: "g \<in> set signatures" "cmp_sig t = sig_idx g" "take SIG_LEN t = signature g"
    using cmp_sig_loop_member [of signatures t] by (auto simp: cmp_sig_def)
  from g(1) obtain j where "j < 9" "g = signatures ! j"
    by (metis in_set_conv_nth nsig_def nsig_eq)
  with g k show "k < 9 \<and> take SIG_LEN t = signature (signatures ! k)"
    by (simp add: sig_idx_nth)
next
  assume "k < 9 \<and> take SIG_LEN t = signature (signatures ! k)"
  then show "cmp_sig t = int k"
    using cmp_sig_loop_idx [OF distinct_signatures nth_mem, of k t]
    by (simp add: cmp_sig_def sig_idx_nth nsig_eq [unfolded nsig_def])
qed

lemma cmp_sig_range: "cmp_sig t = -1 \<or> (0 \<le> cmp_sig t \<and> cmp_sig t < 9)"
proof (cases "cmp_sig t = -1")
  case False
  then obtain g where "g \<in> set signatures" "cmp_sig t = sig_idx g"
    using cmp_sig_loop_member [of signatures t] by (auto simp: cmp_sig_def)
  then show ?thesis by (auto simp: signatures_def)
qed simp

lemma wf_set_header64: "0 \<le> sig_num m \<Longrightarrow> sig_num m < 9 \<Longrightarrow> wf_header64 (set_header64 m)"
  by (simp add: wf_header64_def set_header64_def SIG_LEN_def)

lemma wf_set_header128: "0 \<le> sig_num m \<Longrightarrow> sig_num m < 9 \<Longrightarrow> wf_header128 (set_header128 m)"
  by (simp add: wf_header128_def set_header128_def SIG_LEN_def)

text \<open>A header that was written is recognised, and its fields come back.\<close>

lemma check_sig_64:
  assumes "0 \<le> sig_num m" "sig_num m < 9" "hd_type m = 64"
  shows "check_sig (enc_header64 (set_header64 m) @ rest) m0
    = (sig_num m, m\<lparr>sqimage_off := sqimage_off m0, sqimage_len := sqimage_len m0,
                    sqimage_checksum := sqimage_checksum m0\<rparr>)"
proof -
  have "cmp_sig (signature (signatures ! nat (sig_num m))) = sig_num m"
    using assms cmp_sig_nth [of "nat (sig_num m)"] by simp
  with assms show ?thesis
    by (simp add: check_sig_def Let_def h64.dec_enc wf_set_header64)
      (simp add: set_header64_def get_info64_def)
qed

lemma check_sig_128:
  assumes "0 \<le> sig_num m" "sig_num m < 9" "hd_type m = 128"
    and no64: "cmp_sig (concat (map le32_bytes [initramfs_checksum m, sqimage_checksum m, defaults_checksum m])) = -1"
  shows "check_sig (enc_header128 (set_header128 m) @ rest) m0 = (sig_num m, m)"
proof -
  have sig: "cmp_sig (signature (signatures ! nat (sig_num m))) = sig_num m"
    using assms cmp_sig_nth [of "nat (sig_num m)"] by simp
  have "h64_magic_num (dec_header64 (enc_header128 (set_header128 m) @ rest))
      = concat (map le32_bytes [initramfs_checksum m, sqimage_checksum m, defaults_checksum m])"
    by (simp add: dec_header64_def enc_header128_def set_header128_def SIG_LEN_def)
  with assms sig show ?thesis
    by (simp add: check_sig_def Let_def h128.dec_enc wf_set_header128)
      (simp add: set_header128_def get_info128_def)
qed

end
