(* ===== verification/FwCopy.thy ===== *)
theory FwCopy
  imports FwFormat
begin

text \<open>
  The copy engine of \<^verbatim>\<open>dns323-fw.c\<close> (\<^verbatim>\<open>readwrite\<close>), with the files it works on. A file is its
  byte list under its name; \<open>rd_fail\<close>, \<open>wr_fail\<close> and \<open>op_fail\<close> say which kernel calls
  fail (\<^verbatim>\<open>read\<close>/\<^verbatim>\<open>write\<close> at a position return -1, \<^verbatim>\<open>open\<close> returns -1), \<open>malloc_fail\<close> that the
  block buffer cannot be had, and \<open>junk\<close> holds the indeterminate bytes of uninitialised
  locals. Seeking to a non-negative offset of a regular file does not fail, and files are
  below 2 GB, so that the \<^verbatim>\<open>int\<close> counter of the loop does not overflow. The copy is described
  by \<open>copied\<close>: whole blocks, the last one padded with zeros when the file ends early.
\<close>

record fwio =
  files :: "string \<Rightarrow> byte list option"
  rd_fail :: "string \<Rightarrow> nat \<Rightarrow> bool"
  wr_fail :: "string \<Rightarrow> nat \<Rightarrow> bool"
  op_fail :: "string \<Rightarrow> bool"
  malloc_fail :: bool
  junk :: "nat \<Rightarrow> byte"

definition contents :: "fwio \<Rightarrow> string \<Rightarrow> byte list" where
  "contents st f = (case files st f of None \<Rightarrow> [] | Some b \<Rightarrow> b)"

definition set_file :: "fwio \<Rightarrow> string \<Rightarrow> byte list \<Rightarrow> fwio" where
  "set_file st f b = st\<lparr>files := (files st)(f \<mapsto> b)\<rparr>"

definition fd_read :: "fwio \<Rightarrow> string \<Rightarrow> nat \<Rightarrow> nat \<Rightarrow> byte list option" where
  "fd_read st f pos n = (if rd_fail st f pos then None else Some (take n (drop pos (contents st f))))"

definition fd_write :: "fwio \<Rightarrow> string \<Rightarrow> nat \<Rightarrow> byte list \<Rightarrow> fwio option" where
  "fd_write st f pos d = (if wr_fail st f pos then None
     else Some (set_file st f (write_at (contents st f) pos d)))"

definition io_ok :: "fwio \<Rightarrow> bool" where
  "io_ok st \<longleftrightarrow> (\<forall>f p. \<not> rd_fail st f p) \<and> (\<forall>f p. \<not> wr_fail st f p) \<and> (\<forall>f. \<not> op_fail st f) \<and> \<not> malloc_fail st"

lemma contents_set_file [simp]: "contents (set_file st f b) g = (if g = f then b else contents st g)"
  by (simp add: contents_def set_file_def)

lemma files_set_file [simp]: "files (set_file st f b) g = (if g = f then Some b else files st g)"
  by (simp add: set_file_def)

lemma set_file_set_file [simp]: "set_file (set_file st f b) f c = set_file st f c"
  by (simp add: set_file_def)

lemma set_file_frame [simp, frame]:
  "io_ok (set_file st f b) = io_ok st" "rd_fail (set_file st f b) = rd_fail st"
  "wr_fail (set_file st f b) = wr_fail st" "op_fail (set_file st f b) = op_fail st"
  "malloc_fail (set_file st f b) = malloc_fail st" "junk (set_file st f b) = junk st"
  by (simp_all add: set_file_def io_ok_def)

lemma io_ok_read: "io_ok st \<Longrightarrow> fd_read st f pos n = Some (take n (drop pos (contents st f)))"
  by (simp add: io_ok_def fd_read_def)

lemma io_ok_write: "io_ok st \<Longrightarrow> fd_write st f pos d = Some (set_file st f (write_at (contents st f) pos d))"
  by (simp add: io_ok_def fd_write_def)

section \<open>The loop of \<^verbatim>\<open>readwrite\<close>\<close>

definition BLOCK_SIZE :: nat where "BLOCK_SIZE = 65536"

text \<open>The checksum: exclusive or of the whole 32-bit words of a buffer.\<close>

fun xor_words :: "byte list \<Rightarrow> u32" where
  "xor_words (a # b # c # d # r) = le32 a b c d XOR xor_words r"
| "xor_words _ = 0"

function readwrite_loop ::
  "fwio \<Rightarrow> string \<Rightarrow> nat \<Rightarrow> string \<Rightarrow> nat \<Rightarrow> nat \<Rightarrow> nat \<Rightarrow> u32 \<Rightarrow> fwio \<times> u32 option" where
  "readwrite_loop st fdo wpos fdi rpos i sz lchk =
     (if i < sz then
        let k = (if sz - i > BLOCK_SIZE then BLOCK_SIZE else sz - i) in
        case fd_read st fdi rpos k of
          None \<Rightarrow> (st, None)
        | Some buf \<Rightarrow>
            if buf = [] then (st, Some lchk)
            else let out = buf @ replicate (k - length buf) 0 in
              case fd_write st fdo wpos out of
                None \<Rightarrow> (st, None)
              | Some st' \<Rightarrow> readwrite_loop st' fdo (wpos + k) fdi (rpos + length buf) (i + k) sz
                  (lchk XOR xor_words out)
      else (st, Some lchk))"
  by pat_completeness auto
termination
  by (relation "measure (\<lambda>(st, fdo, wpos, fdi, rpos, i, sz, lchk). sz - i)") (auto simp: BLOCK_SIZE_def)

declare readwrite_loop.simps [simp del]

text \<open>\<^verbatim>\<open>readwrite\<close>: the files, the checksum as left in \<^verbatim>\<open>*chk\<close>, and whether it returns 0.\<close>

definition readwrite :: "fwio \<Rightarrow> string \<Rightarrow> nat \<Rightarrow> string \<Rightarrow> nat \<Rightarrow> nat \<Rightarrow> u32 \<Rightarrow> fwio \<times> u32 \<times> bool" where
  "readwrite st fdo wpos fdi off sz chk =
     (if malloc_fail st then (st, chk, False)
      else case readwrite_loop st fdo wpos fdi off 0 sz 0 of
        (st', None) \<Rightarrow> (st', chk, False)
      | (st', Some lchk) \<Rightarrow>
          if chk = 0 then (st', lchk, True)
          else if lchk \<noteq> chk then (st', chk, False)
          else (st', chk, True))"

section \<open>What is copied\<close>

function copied :: "nat \<Rightarrow> byte list \<Rightarrow> byte list" where
  "copied n xs = (if n = 0 \<or> xs = [] then []
     else let k = min n BLOCK_SIZE in
       take k xs @ replicate (k - length xs) 0 @ copied (n - k) (drop k xs))"
  by pat_completeness auto
termination
  by (relation "measure fst") (auto simp: BLOCK_SIZE_def)

declare copied.simps [simp del]

lemma copied_0 [simp]: "copied 0 xs = []" and copied_Nil [simp]: "copied n [] = []"
  by (simp_all add: copied.simps)

lemma copied_all: "n \<le> length xs \<Longrightarrow> copied n xs = take n xs"
proof (induction n xs rule: copied.induct)
  case (1 n xs)
  show ?case
  proof (cases "n = 0")
    case False
    let ?k = "min n BLOCK_SIZE"
    from False 1(2) have "xs \<noteq> []" by auto
    with 1 False have "copied (n - ?k) (drop ?k xs) = take (n - ?k) (drop ?k xs)"
      by (auto simp: BLOCK_SIZE_def)
    with False \<open>xs \<noteq> []\<close> 1(2) show ?thesis
      by (simp add: copied.simps [of n xs] Let_def) (metis le_add_diff_inverse min.cobounded1 take_add)
  qed simp
qed

lemma copied_short:
  "length xs < n \<Longrightarrow> copied n xs
    = xs @ replicate (min n (((length xs + BLOCK_SIZE - 1) div BLOCK_SIZE) * BLOCK_SIZE) - length xs) 0"
proof (induction n xs rule: copied.induct)
  case (1 n xs)
  have B: "0 < BLOCK_SIZE" by (simp add: BLOCK_SIZE_def)
  consider "xs = []" | "xs \<noteq> []" "length xs \<le> BLOCK_SIZE" | "BLOCK_SIZE < length xs" by linarith
  then show ?case
  proof cases
    case 1
    then show ?thesis by (simp add: BLOCK_SIZE_def)
  next
    case 2
    then have "(length xs + BLOCK_SIZE - 1) div BLOCK_SIZE = 1"
      using B by (cases xs) (auto intro!: div_nat_eqI)
    with 2 "1.prems" B show ?thesis
      by (cases "n \<le> BLOCK_SIZE") (simp_all add: copied.simps [of n xs] Let_def min_def copied_0)
  next
    case 3
    with "1.prems" have n: "min n BLOCK_SIZE = BLOCK_SIZE" "n \<noteq> 0" "xs \<noteq> []" by auto
    have d: "(length xs + BLOCK_SIZE - 1) div BLOCK_SIZE
        = Suc ((length xs - BLOCK_SIZE + BLOCK_SIZE - 1) div BLOCK_SIZE)"
    proof -
      have "length xs + BLOCK_SIZE - 1 = (length xs - BLOCK_SIZE + BLOCK_SIZE - 1) + BLOCK_SIZE"
        using 3 B by simp
      then show ?thesis using B by (simp only: div_add_self2)
    qed
    have "copied (n - BLOCK_SIZE) (drop BLOCK_SIZE xs) = drop BLOCK_SIZE xs @
        replicate (min (n - BLOCK_SIZE) (((length xs - BLOCK_SIZE + BLOCK_SIZE - 1) div BLOCK_SIZE) * BLOCK_SIZE)
          - (length xs - BLOCK_SIZE)) 0"
      using "1.IH" [of BLOCK_SIZE] n 3 "1.prems" by simp
    moreover have "take BLOCK_SIZE xs @ drop BLOCK_SIZE xs @ r = xs @ r" for r
      by (metis append.assoc append_take_drop_id)
    moreover have "BLOCK_SIZE \<le> n" using n(1) by simp
    ultimately show ?thesis using n 3 d
      by (simp add: copied.simps [of n xs] Let_def min_def add.commute)
  qed
qed


lemma length_copied_le: "length (copied n xs) \<le> n"
proof (cases "n \<le> length xs")
  case True then show ?thesis by (simp add: copied_all)
next
  case False then show ?thesis by (simp add: copied_short)
qed

lemma xor_words_append:
  "4 dvd length xs \<Longrightarrow> xor_words (xs @ ys) = xor_words xs XOR xor_words ys"
proof (induction xs rule: xor_words.induct)
  case (1 a b c d r)
  then have "4 dvd length r" by (simp add: dvd_def) presburger
  with 1 show ?case by (simp add: xor.assoc)
qed (auto dest: dvd_imp_le)

text \<open>On files whose accesses succeed the loop appends what \<open>copied\<close> says.\<close>

lemma readwrite_loop_ok:
  assumes "io_ok st" "fdi \<noteq> fdo" "contents st fdi = src" "files st fdo = Some ob"
    and "wpos = length ob" "i \<le> sz"
  shows "readwrite_loop st fdo wpos fdi rpos i sz lchk
    = (set_file st fdo (ob @ copied (sz - i) (drop rpos src)),
       Some (lchk XOR xor_words (copied (sz - i) (drop rpos src))))"
  using assms
proof (induction st fdo wpos fdi rpos i sz lchk arbitrary: ob rule: readwrite_loop.induct)
  case (1 st fdo wpos fdi rpos i sz lchk)
  let ?k = "min (sz - i) BLOCK_SIZE" and ?xs = "drop rpos src"
  have k: "(if sz - i > BLOCK_SIZE then BLOCK_SIZE else sz - i) = ?k" by simp
  have ob: "contents st fdo = ob" using "1.prems"(4) by (simp add: contents_def)
  have same: "set_file st fdo ob = st"
    using "1.prems"(4) by (simp add: set_file_def map_upd_triv)
  show ?case
  proof (cases "i < sz \<and> ?xs \<noteq> []")
    case False
    with "1.prems" same show ?thesis
      by (auto simp: readwrite_loop.simps [of st] k io_ok_read Let_def)
  next
    case True
    let ?buf = "take ?k ?xs"
    let ?out = "?buf @ replicate (?k - length ?buf) 0"
    let ?st' = "set_file st fdo (ob @ ?out)"
    have k0: "0 < ?k" using True by (simp add: BLOCK_SIZE_def)
    have bne: "?buf \<noteq> []" using True k0 by simp
    have rd: "fd_read st fdi rpos ?k = Some ?buf" using "1.prems" by (simp add: io_ok_read)
    have wr: "fd_write st fdo wpos ?out = Some ?st'"
      using "1.prems" ob by (simp add: io_ok_write)
    have lout: "length ?out = ?k" by (subst length_append, subst length_replicate) (simp add: min_def)
    have rest: "drop (rpos + length ?buf) src = drop ?k ?xs"
      by (cases "?k \<le> length ?xs") (auto simp: add.commute)
    have cp: "copied (sz - i) ?xs = ?out @ copied (sz - (i + ?k)) (drop ?k ?xs)"
      using True by (simp add: copied.simps [of "sz - i"] Let_def min_def)
    have x: "xor_words (copied (sz - i) ?xs)
        = xor_words ?out XOR xor_words (copied (sz - (i + ?k)) (drop ?k ?xs))"
    proof (cases "sz - i \<le> BLOCK_SIZE")
      case True then show ?thesis unfolding cp by (simp add: min_def)
    next
      case False
      then have "4 dvd length ?out" using lout by (simp add: BLOCK_SIZE_def)
      then show ?thesis unfolding cp by (rule xor_words_append)
    qed
    have "readwrite_loop ?st' fdo (wpos + ?k) fdi (rpos + length ?buf) (i + ?k) sz (lchk XOR xor_words ?out)
      = (set_file ?st' fdo ((ob @ ?out) @ copied (sz - (i + ?k)) (drop (rpos + length ?buf) src)),
         Some ((lchk XOR xor_words ?out) XOR xor_words (copied (sz - (i + ?k)) (drop (rpos + length ?buf) src))))"
    proof (rule "1.IH" [OF _ k [symmetric] rd bne refl wr])
      show "i < sz" using True by simp
      show "io_ok ?st'" "fdi \<noteq> fdo" "contents ?st' fdi = src" "files ?st' fdo = Some (ob @ ?out)"
        using "1.prems"(1-3) by simp_all
      show "wpos + ?k = length (ob @ ?out)" using "1.prems"(5) lout by (simp only: length_append)
      show "i + ?k \<le> sz" using True by (cases "sz - i \<le> BLOCK_SIZE") (auto simp: min_def)
    qed
    moreover have "readwrite_loop st fdo wpos fdi rpos i sz lchk
      = readwrite_loop ?st' fdo (wpos + ?k) fdi (rpos + length ?buf) (i + ?k) sz (lchk XOR xor_words ?out)"
      using True bne by (subst readwrite_loop.simps) (simp only: k Let_def rd wr option.case if_False if_True)
    ultimately show ?thesis
      by (simp only: rest x set_file_set_file xor.assoc) (simp only: cp append_assoc)
  qed
qed

lemma readwrite_ok:
  assumes "io_ok st" "fdi \<noteq> fdo" "files st fdo = Some ob"
  shows "readwrite st fdo (length ob) fdi off sz chk =
    (let d = copied sz (drop off (contents st fdi)); c = xor_words d
     in (set_file st fdo (ob @ d), if chk = 0 then c else chk, chk = 0 \<or> c = chk))"
  using readwrite_loop_ok [OF assms(1,2) refl assms(3) refl, of 0 sz off 0] assms(1)
  by (auto simp: readwrite_def Let_def io_ok_def)

end
