(* ===== verification/FwTool.thy ===== *)
theory FwTool
  imports FwCopy
begin

text \<open>
  The firmware tool of \<^verbatim>\<open>dns323-fw.c\<close> itself: saving a component (\<^verbatim>\<open>savefile\<close>), appending one
  (\<^verbatim>\<open>savecomp\<close>), writing the header (\<^verbatim>\<open>save_header\<close>), and the three commands \<^verbatim>\<open>merge\<close>,
  \<^verbatim>\<open>split\<close> and \<^verbatim>\<open>info\<close> with the option loop of \<^verbatim>\<open>main\<close>. Every \<^verbatim>\<open>exit(1)\<close> is a value \<open>Inl\<close> of its
  reason; the files as they are left behind are always returned. Printing is not modelled.
\<close>

datatype fw_exit = Usage | CantOpen string | CopyError string | NotUboot string | TooBig string
  | BadHeaderType | ShortRead | UnknownSignature | InsufficientSize | NoUboot

section \<open>Components\<close>

definition savefile :: "fwio \<Rightarrow> string \<Rightarrow> string \<Rightarrow> nat \<Rightarrow> nat \<Rightarrow> u32 \<Rightarrow> fwio \<times> (fw_exit + u32)" where
  "savefile st filename fdi offset len checksum =
     (if op_fail st filename then (st, Inl (CantOpen filename))
      else case readwrite (set_file st filename []) filename 0 fdi offset len checksum of
        (st', chk, ok) \<Rightarrow> if ok then (st', Inr chk) else (st', Inl (CopyError filename)))"

definition uboot_sig :: "byte list" where
  "uboot_sig = [0x27, 0x05, 0x19, 0x56]"

text \<open>A short read leaves the rest of the local buffer indeterminate.\<close>

definition is_uboot :: "fwio \<Rightarrow> string \<Rightarrow> nat \<Rightarrow> bool" where
  "is_uboot st fd off =
     (let got = (case fd_read st fd off 4 of None \<Rightarrow> [] | Some b \<Rightarrow> b);
          file_sig = got @ map (junk st) [length got..<4]
      in file_sig = uboot_sig)"

text \<open>\<^verbatim>\<open>savecomp\<close>: on success the offset, length and checksum that it stores.\<close>

definition savecomp :: "fwio \<Rightarrow> string \<Rightarrow> string \<Rightarrow> bool \<Rightarrow> nat \<Rightarrow> fwio \<times> (fw_exit + u32 \<times> u32 \<times> u32)" where
  "savecomp st filename fdo uboot size_max =
     (if op_fail st filename \<or> files st filename = None then (st, Inl (CantOpen filename))
      else if uboot \<and> \<not> is_uboot st filename 0 then (st, Inl (NotUboot filename))
      else let off = of_nat (length (contents st fdo)) :: u32;
               len = of_nat (length (contents st filename)) :: u32
           in if unat len > size_max then (st, Inl (TooBig filename))
              else case readwrite st fdo (length (contents st fdo)) filename 0 (unat len) 0 of
                (st', chk, ok) \<Rightarrow> if ok then (st', Inr (off, len, chk)) else (st', Inl (CopyError filename)))"

definition save_header :: "fwio \<Rightarrow> string \<Rightarrow> MY_CONTROL_HEADER \<Rightarrow> fwio \<times> (fw_exit + unit)" where
  "save_header st fdo myhd =
     (if hd_type myhd = 64 then
        (case fd_write st fdo 0 (enc_header64 (set_header64 myhd)) of None \<Rightarrow> (st, Inr ()) | Some st' \<Rightarrow> (st', Inr ()))
      else if hd_type myhd = 128 then
        (case fd_write st fdo 0 (enc_header128 (set_header128 myhd)) of None \<Rightarrow> (st, Inr ()) | Some st' \<Rightarrow> (st', Inr ()))
      else (st, Inl BadHeaderType))"

text \<open>\<^verbatim>\<open>size_ok\<close> returns before its test.\<close>

definition size_ok :: "fwio \<Rightarrow> string \<Rightarrow> MY_CONTROL_HEADER \<Rightarrow> bool" where
  "size_ok st fd myhd = True"

section \<open>Options\<close>

datatype oper = NONE | SPLIT | MERGE | INFO

record fw_opts =
  o_op :: oper
  o_kernel :: "string option"
  o_initramfs :: "string option"
  o_sqimage :: "string option"
  o_defaults :: "string option"
  o_fw :: "string option"
  o_product :: byte
  o_custom :: byte
  o_model :: byte
  o_sub :: byte
  o_version :: byte
  o_type :: byte
  o_quiet :: bool

definition init_opts :: fw_opts where
  "init_opts = \<lparr>o_op = NONE, o_kernel = None, o_initramfs = None, o_sqimage = None, o_defaults = None,
     o_fw = None, o_product = 1, o_custom = 2, o_model = 3, o_sub = 4, o_version = 5, o_type = 0,
     o_quiet = False\<rparr>"

text \<open>Sequencing: the next call runs unless the process has exited.\<close>

definition io_bind :: "fwio \<times> ('e + 'a) \<Rightarrow> (fwio \<Rightarrow> 'a \<Rightarrow> fwio \<times> ('e + 'b)) \<Rightarrow> fwio \<times> ('e + 'b)" where
  "io_bind m f = (case m of (st, Inl e) \<Rightarrow> (st, Inl e) | (st, Inr a) \<Rightarrow> f st a)"

lemma io_bind_simps [simp]:
  "io_bind (st, Inr a) f = f st a" "io_bind (st, Inl e) f = (st, Inl e)"
  by (simp_all add: io_bind_def)

section \<open>merge\<close>

text \<open>Appending a component that may be left out: without a file, an empty one at the end.\<close>

definition optcomp :: "fwio \<Rightarrow> string option \<Rightarrow> string \<Rightarrow> nat \<Rightarrow> fwio \<times> (fw_exit + u32 \<times> u32 \<times> u32)" where
  "optcomp st f fdo size_max =
     (case f of Some filename \<Rightarrow> savecomp st filename fdo False size_max
      | None \<Rightarrow> (st, Inr (of_nat (length (contents st fdo)), 0, 0)))"

definition merge :: "fwio \<Rightarrow> fw_opts \<Rightarrow> MY_CONTROL_HEADER \<Rightarrow> fwio \<times> (fw_exit + MY_CONTROL_HEADER)" where
  "merge st opts m0 =
     (case (o_kernel opts, o_initramfs opts, o_fw opts) of
        (Some kfile, Some ifile, Some fw) \<Rightarrow>
          if unat (o_type opts) \<ge> nsig then (st, Inl Usage)
          else let sg = signatures ! unat (o_type opts);
                   hd_size = sig_size sg;
                   m1 = m0\<lparr>sig_num := int (unat (o_type opts)), hd_type := hd_size\<rparr>
          in if op_fail st fw then (st, Inl (CantOpen fw))
          else let st0 = set_file st fw [];
                   st1 = (case fd_write st0 fw 0 (map (junk st0) [0..<nat hd_size]) of None \<Rightarrow> st0 | Some s \<Rightarrow> s)
          in io_bind (savecomp st1 kfile fw True (kernel_max sg)) (\<lambda>st2 (ko, kl, kc).
             let m2 = m1\<lparr>kernel_off := ko, kernel_len := kl, kernel_checksum := kc\<rparr> in
             io_bind (savecomp st2 ifile fw True (initramfs_max sg)) (\<lambda>st3 (ro, rl, rc).
             let m3 = m2\<lparr>initramfs_off := ro, initramfs_len := rl, initramfs_checksum := rc\<rparr> in
             io_bind (if hd_size = 128
                      then io_bind (optcomp st3 (o_sqimage opts) fw (sqimage_max sg)) (\<lambda>st4 (qo, ql, qc).
                        (st4, Inr (m3\<lparr>sqimage_off := qo, sqimage_len := ql, sqimage_checksum := qc\<rparr>)))
                      else (st3, Inr m3)) (\<lambda>st4 m4.
             io_bind (optcomp st4 (o_defaults opts) fw (defaults_max sg)) (\<lambda>st5 (fo, fl, fc).
             let m5 = m4\<lparr>defaults_off := fo, defaults_len := fl, defaults_checksum := fc,
                         product_id := o_product opts, custom_id := o_custom opts, model_id := o_model opts,
                         sub_id := o_sub opts, NewVersion := o_version opts, Next_offset := 0\<rparr>
             in io_bind (save_header st5 fw m5) (\<lambda>st6 _. (st6, Inr m5))))))
      | _ \<Rightarrow> (st, Inl Usage))"

section \<open>split and info\<close>

text \<open>\<^verbatim>\<open>type\<close> is an unsigned char: the result -1 of \<^verbatim>\<open>check_sig\<close> is seen as 255.\<close>

definition open_read :: "fwio \<Rightarrow> string \<Rightarrow> MY_CONTROL_HEADER \<Rightarrow> fwio \<times> (fw_exit + MY_CONTROL_HEADER)" where
  "open_read st fw m0 =
     (if op_fail st fw \<or> files st fw = None then (st, Inl (CantOpen fw))
      else case fd_read st fw 0 128 of
        None \<Rightarrow> (st, Inl ShortRead)
      | Some buf \<Rightarrow> if length buf \<noteq> 128 then (st, Inl ShortRead)
          else case check_sig buf m0 of (t, myhd) \<Rightarrow>
            if (of_int t :: byte) = 255 then (st, Inl UnknownSignature) else (st, Inr myhd))"

definition info :: "fwio \<Rightarrow> fw_opts \<Rightarrow> MY_CONTROL_HEADER \<Rightarrow> fwio \<times> (fw_exit + unit)" where
  "info st opts m0 = (case o_fw opts of None \<Rightarrow> (st, Inl Usage)
     | Some fw \<Rightarrow> io_bind (open_read st fw m0) (\<lambda>st' _. (st', Inr ())))"

definition default_name :: "string option \<Rightarrow> string \<Rightarrow> string" where
  "default_name f d = (case f of None \<Rightarrow> d | Some n \<Rightarrow> n)"

definition split :: "fwio \<Rightarrow> fw_opts \<Rightarrow> MY_CONTROL_HEADER \<Rightarrow> fwio \<times> (fw_exit + unit)" where
  "split st opts m0 =
     (let kfile = default_name (o_kernel opts) ''kernel'';
          ifile = default_name (o_initramfs opts) ''initramfs'';
          qfile = default_name (o_sqimage opts) ''sqimage'';
          dfile = default_name (o_defaults opts) ''defaults''
      in case o_fw opts of None \<Rightarrow> (st, Inl Usage)
      | Some fw \<Rightarrow>
        io_bind (open_read st fw m0) (\<lambda>st1 m.
        if \<not> size_ok st1 fw m then (st1, Inl InsufficientSize)
        else if \<not> is_uboot st1 fw (unat (kernel_off m)) \<or> \<not> is_uboot st1 fw (unat (initramfs_off m))
        then (st1, Inl NoUboot)
        else
        io_bind (savefile st1 kfile fw (unat (kernel_off m)) (unat (kernel_len m)) (kernel_checksum m)) (\<lambda>st2 _.
        io_bind (savefile st2 ifile fw (unat (initramfs_off m)) (unat (initramfs_len m)) (initramfs_checksum m)) (\<lambda>st3 _.
        io_bind (if hd_type m = 128
                 then savefile st3 qfile fw (unat (sqimage_off m)) (unat (sqimage_len m)) (sqimage_checksum m)
                 else (st3, Inr 0)) (\<lambda>st4 _.
        io_bind (savefile st4 dfile fw (unat (defaults_off m)) (unat (defaults_len m)) (defaults_checksum m)) (\<lambda>st5 _.
        (st5, Inr ())))))))"

section \<open>main\<close>

text \<open>
  The option loop over what \<^verbatim>\<open>getopt\<close> returns (a letter and its argument); \<open>None\<close> is the call
  of \<^verbatim>\<open>usage()\<close>. \<^verbatim>\<open>atoi\<close> of an option is stored in an unsigned char.
\<close>

definition opt_step :: "fw_opts \<Rightarrow> char \<times> string \<Rightarrow> fw_opts option" where
  "opt_step o1 p = (case p of (c, optarg) \<Rightarrow>
     if c = CHR ''s'' then Some (o1\<lparr>o_op := SPLIT\<rparr>)
     else if c = CHR ''m'' then Some (o1\<lparr>o_op := MERGE\<rparr>)
     else if c = CHR ''f'' then Some (o1\<lparr>o_op := INFO\<rparr>)
     else if c = CHR ''q'' then Some (o1\<lparr>o_quiet := True\<rparr>)
     else if c = CHR ''k'' then Some (o1\<lparr>o_kernel := Some optarg\<rparr>)
     else if c = CHR ''i'' then Some (o1\<lparr>o_initramfs := Some optarg\<rparr>)
     else if c = CHR ''a'' then Some (o1\<lparr>o_sqimage := Some optarg\<rparr>)
     else if c = CHR ''d'' then Some (o1\<lparr>o_defaults := Some optarg\<rparr>)
     else if c = CHR ''p'' then Some (o1\<lparr>o_product := of_int (c_atoi optarg)\<rparr>)
     else if c = CHR ''c'' then Some (o1\<lparr>o_custom := of_int (c_atoi optarg)\<rparr>)
     else if c = CHR ''l'' then Some (o1\<lparr>o_model := of_int (c_atoi optarg)\<rparr>)
     else if c = CHR ''u'' then Some (o1\<lparr>o_sub := of_int (c_atoi optarg)\<rparr>)
     else if c = CHR ''v'' then Some (o1\<lparr>o_version := of_int (c_atoi optarg)\<rparr>)
     else if c = CHR ''t'' then Some (o1\<lparr>o_type := of_int (c_atoi optarg)\<rparr>)
     else None)"

fun opt_loop :: "fw_opts \<Rightarrow> (char \<times> string) list \<Rightarrow> fw_opts option" where
  "opt_loop o1 [] = Some o1"
| "opt_loop o1 (p # ps) = (case opt_step o1 p of None \<Rightarrow> None | Some o2 \<Rightarrow> opt_loop o2 ps)"

definition fw_main :: "fwio \<Rightarrow> (char \<times> string) list \<Rightarrow> string list \<Rightarrow> MY_CONTROL_HEADER \<Rightarrow> fwio \<times> (fw_exit + unit)" where
  "fw_main st optv operands m0 =
     (case opt_loop init_opts optv of None \<Rightarrow> (st, Inl Usage)
      | Some o1 \<Rightarrow> (case operands of [] \<Rightarrow> (st, Inl Usage)
        | f # _ \<Rightarrow> let opts = o1\<lparr>o_fw := Some f\<rparr> in
           (case o_op opts of
              SPLIT \<Rightarrow> split st opts m0
            | MERGE \<Rightarrow> io_bind (merge st opts m0) (\<lambda>st' _. (st', Inr ()))
            | INFO \<Rightarrow> info st opts m0
            | NONE \<Rightarrow> (st, Inl Usage))))"

end
