(* ===== verification/FwTheorems.thy ===== *)
theory FwTheorems
  imports FwTool
begin

text \<open>
  Correctness of the firmware tool: what \<^verbatim>\<open>savecomp\<close> and \<^verbatim>\<open>savefile\<close> do when the kernel calls
  succeed, the image \<^verbatim>\<open>merge\<close> writes, that \<^verbatim>\<open>split\<close> takes it apart again, and what is refused.
\<close>

section \<open>One component\<close>

lemma unat_of_nat_u32: "n < 2 ^ 32 \<Longrightarrow> unat (of_nat n :: u32) = n"
  by (simp add: unat_of_nat)

lemma sig_max_bound:
  "k < 9 \<Longrightarrow> kernel_max (signatures ! k) < 2 ^ 27 \<and> initramfs_max (signatures ! k) < 2 ^ 27 \<and>
    sqimage_max (signatures ! k) < 2 ^ 27 \<and> defaults_max (signatures ! k) < 2 ^ 27"
  by (erule sig_nth_cases) (simp_all add: signatures_def)

lemma is_uboot_iff:
  assumes "io_ok st" and "4 \<le> length (contents st f) - off"
  shows "is_uboot st f off \<longleftrightarrow> take 4 (drop off (contents st f)) = uboot_sig"
  using assms by (simp add: is_uboot_def io_ok_read Let_def min_def)

lemma savecomp_ok:
  assumes "io_ok st" "filename \<noteq> fdo" "files st filename = Some b" "files st fdo = Some ob"
    and "length b \<le> size_max" "length b < 2 ^ 32" "uboot \<Longrightarrow> take 4 b = uboot_sig"
  shows "savecomp st filename fdo uboot size_max
    = (set_file st fdo (ob @ b), Inr (of_nat (length ob), of_nat (length b), xor_words b))"
proof -
  have c: "contents st filename = b" "contents st fdo = ob"
    using assms by (simp_all add: contents_def)
  have u: "is_uboot st filename 0" if uboot
  proof -
    have t: "take 4 b = uboot_sig" using that assms by simp
    then have "length (take 4 b) = 4" by (simp add: uboot_sig_def)
    then have "4 \<le> length b" by simp
    with t assms c show ?thesis by (simp add: is_uboot_iff)
  qed
  have l: "unat (of_nat (length b) :: u32) = length b" using assms by (simp add: unat_of_nat_u32)
  have rw: "readwrite st fdo (length ob) filename 0 (length b) 0 = (set_file st fdo (ob @ b), xor_words b, True)"
    using readwrite_ok [OF assms(1,2,4), of 0 "length b" 0] c by (simp add: copied_all Let_def)
  show ?thesis
    using assms(1,3,5) u by (auto simp: savecomp_def c l rw Let_def io_ok_def)
qed

lemma optcomp_ok:
  assumes "io_ok st" "files st fdo = Some ob" "size_max < 2 ^ 32"
    and "case f of None \<Rightarrow> b = [] | Some n \<Rightarrow> n \<noteq> fdo \<and> files st n = Some b \<and> length b \<le> size_max"
  shows "optcomp st f fdo size_max
    = (set_file st fdo (ob @ b), Inr (of_nat (length ob), of_nat (length b), xor_words b))"
proof (cases f)
  case None
  have "set_file st fdo ob = st" using assms(2) by (simp add: set_file_def map_upd_triv)
  with None assms show ?thesis by (simp add: optcomp_def contents_def)
next
  case (Some n)
  with assms show ?thesis by (simp add: optcomp_def savecomp_ok)
qed

lemma savefile_ok:
  assumes "io_ok st" "filename \<noteq> fdi"
  shows "savefile st filename fdi off len chk =
    (let d = copied len (drop off (contents st fdi)); c = xor_words d
     in (set_file st filename d,
         if chk = 0 then Inr c else if c = chk then Inr chk else Inl (CopyError filename)))"
proof -
  have "io_ok (set_file st filename [])" "files (set_file st filename []) filename = Some []"
    "contents (set_file st filename []) fdi = contents st fdi"
    using assms by simp_all
  note rw = readwrite_ok [OF this(1) _ this(2), of fdi off len chk]
  show ?thesis
    using rw assms by (auto simp: savefile_def Let_def io_ok_def)
qed

lemma savefile_component:
  assumes "io_ok st" "filename \<noteq> fdi" "off + len \<le> length (contents st fdi)"
    and "d = take len (drop off (contents st fdi))" "chk = xor_words d"
  shows "savefile st filename fdi off len chk = (set_file st filename d, Inr chk)"
  using assms by (auto simp: savefile_ok copied_all Let_def)

section \<open>merge\<close>

text \<open>The inputs \<^verbatim>\<open>merge\<close> accepts: which bytes each component has (none if left out).\<close>

definition comp_input :: "fwio \<Rightarrow> string \<Rightarrow> string option \<Rightarrow> nat \<Rightarrow> byte list \<Rightarrow> bool" where
  "comp_input st fw f mx b \<longleftrightarrow>
     (case f of None \<Rightarrow> b = [] | Some n \<Rightarrow> n \<noteq> fw \<and> files st n = Some b \<and> length b \<le> mx)"

definition merge_inputs ::
  "fwio \<Rightarrow> fw_opts \<Rightarrow> string \<Rightarrow> byte list \<Rightarrow> byte list \<Rightarrow> byte list \<Rightarrow> byte list \<Rightarrow> bool" where
  "merge_inputs st opts fw kb ib qb db \<longleftrightarrow>
     (let sg = signatures ! unat (o_type opts) in
       io_ok st \<and> o_fw opts = Some fw \<and> unat (o_type opts) < nsig \<and>
       o_kernel opts \<noteq> None \<and> comp_input st fw (o_kernel opts) (kernel_max sg) kb \<and> take 4 kb = uboot_sig \<and>
       o_initramfs opts \<noteq> None \<and> comp_input st fw (o_initramfs opts) (initramfs_max sg) ib \<and>
       take 4 ib = uboot_sig \<and>
       (if sig_size sg = 128 then comp_input st fw (o_sqimage opts) (sqimage_max sg) qb else qb = []) \<and>
       comp_input st fw (o_defaults opts) (defaults_max sg) db)"

text \<open>The header that describes these components laid out one after the other.\<close>

definition merged_header ::
  "fw_opts \<Rightarrow> byte list \<Rightarrow> byte list \<Rightarrow> byte list \<Rightarrow> byte list \<Rightarrow> MY_CONTROL_HEADER \<Rightarrow> MY_CONTROL_HEADER" where
  "merged_header opts kb ib qb db m0 =
     (let t = unat (o_type opts); h = nat (sig_size (signatures ! t));
          m = m0\<lparr>sig_num := int t, hd_type := int h,
            kernel_off := of_nat h, kernel_len := of_nat (length kb), kernel_checksum := xor_words kb,
            initramfs_off := of_nat (h + length kb), initramfs_len := of_nat (length ib),
            initramfs_checksum := xor_words ib,
            defaults_off := of_nat (h + length kb + length ib + length qb), defaults_len := of_nat (length db),
            defaults_checksum := xor_words db,
            product_id := o_product opts, custom_id := o_custom opts, model_id := o_model opts,
            sub_id := o_sub opts, NewVersion := o_version opts, Next_offset := 0\<rparr>
      in if h = 128 then m\<lparr>sqimage_off := of_nat (h + length kb + length ib), sqimage_len := of_nat (length qb),
            sqimage_checksum := xor_words qb\<rparr> else m)"

definition header_image :: "MY_CONTROL_HEADER \<Rightarrow> byte list" where
  "header_image m = (if hd_type m = 64 then enc_header64 (set_header64 m) else enc_header128 (set_header128 m))"

lemma length_header_image:
  "0 \<le> sig_num m \<Longrightarrow> sig_num m < 9 \<Longrightarrow> hd_type m \<in> {64, 128} \<Longrightarrow> length (header_image m) = nat (hd_type m)"
  by (auto simp: header_image_def h64.length_enc h128.length_enc wf_set_header64 wf_set_header128)

lemma save_header_ok:
  assumes "io_ok st" "0 \<le> sig_num m" "sig_num m < 9" "hd_type m \<in> {64, 128}"
    and "files st fw = Some (old @ body)" "length old = nat (hd_type m)"
  shows "save_header st fw m = (set_file st fw (header_image m @ body), Inr ())"
proof -
  have "contents st fw = old @ body" using assms by (simp add: contents_def)
  with assms show ?thesis
    by (auto simp: save_header_def io_ok_write header_image_def h64.enc_overwrites h128.enc_overwrites
        wf_set_header64 wf_set_header128)
qed


lemma merge_ok:
  fixes m0 :: MY_CONTROL_HEADER
  assumes inp: "merge_inputs st opts fw kb ib qb db"
  defines "M \<equiv> merged_header opts kb ib qb db m0"
  shows "merge st opts m0 = (set_file st fw (header_image M @ kb @ ib @ qb @ db), Inr M)"
proof -
  define t where "t = unat (o_type opts)"
  define sg where "sg = signatures ! t"
  define h where "h = nat (sig_size sg)"
  have t: "t < 9" and io: "io_ok st" and fw: "o_fw opts = Some fw"
    using inp by (simp_all add: merge_inputs_def t_def Let_def)
  have h: "sig_size sg = int h" "h = 64 \<or> h = 128"
    using sig_size_cases [OF t] by (auto simp: h_def sg_def)
  have mx: "kernel_max sg < 2 ^ 27" "initramfs_max sg < 2 ^ 27" "sqimage_max sg < 2 ^ 27" "defaults_max sg < 2 ^ 27"
    using sig_max_bound [OF t] by (simp_all add: sg_def)
  obtain kf where kf: "o_kernel opts = Some kf" "kf \<noteq> fw" "files st kf = Some kb" "length kb \<le> kernel_max sg"
      "take 4 kb = uboot_sig"
    using inp by (auto simp: merge_inputs_def comp_input_def Let_def sg_def t_def)
  obtain rf where rf: "o_initramfs opts = Some rf" "rf \<noteq> fw" "files st rf = Some ib" "length ib \<le> initramfs_max sg"
      "take 4 ib = uboot_sig"
    using inp by (auto simp: merge_inputs_def comp_input_def Let_def sg_def t_def)
  have qf: "if h = 128 then comp_input st fw (o_sqimage opts) (sqimage_max sg) qb else qb = []"
    and df: "comp_input st fw (o_defaults opts) (defaults_max sg) db"
    using inp h by (auto simp: merge_inputs_def Let_def sg_def t_def split: if_splits)
  define J where "J = map (junk st) [0..<h]"
  have J: "length J = h" by (simp add: J_def)
  have io': "io_ok (set_file st fw x)" for x using io by simp
  have s1: "savecomp (set_file st fw J) kf fw True (kernel_max sg)
      = (set_file st fw (J @ kb), Inr (of_nat h, of_nat (length kb), xor_words kb))"
    using savecomp_ok [OF io' [of J], where filename = kf and fdo = fw and b = kb and ob = J and size_max = "kernel_max sg" and uboot = True] kf mx J by simp
  have s2: "savecomp (set_file st fw (J @ kb)) rf fw True (initramfs_max sg)
      = (set_file st fw ((J @ kb) @ ib), Inr (of_nat (h + length kb), of_nat (length ib), xor_words ib))"
    using savecomp_ok [OF io' [of "J @ kb"], where filename = rf and fdo = fw and b = ib and ob = "J @ kb" and size_max = "initramfs_max sg" and uboot = True] rf mx J by simp
  have s3: "optcomp (set_file st fw ((J @ kb) @ ib)) (o_sqimage opts) fw (sqimage_max sg)
      = (set_file st fw (((J @ kb) @ ib) @ qb), Inr (of_nat (h + length kb + length ib), of_nat (length qb), xor_words qb))"
    if "h = 128"
    using optcomp_ok [OF io' [of "(J @ kb) @ ib"], where fdo = fw and ob = "(J @ kb) @ ib" and size_max = "sqimage_max sg" and f = "o_sqimage opts" and b = qb] qf that mx J
    by (simp add: comp_input_def split: option.splits)
  have s4: "optcomp (set_file st fw (((J @ kb) @ ib) @ qb)) (o_defaults opts) fw (defaults_max sg)
      = (set_file st fw ((((J @ kb) @ ib) @ qb) @ db),
         Inr (of_nat (h + length kb + length ib + length qb), of_nat (length db), xor_words db))"
    using optcomp_ok [OF io' [of "((J @ kb) @ ib) @ qb"], where fdo = fw and ob = "((J @ kb) @ ib) @ qb" and size_max = "defaults_max sg" and f = "o_defaults opts" and b = db]
      df mx J by (simp add: comp_input_def split: option.splits)
  have M: "0 \<le> sig_num M" "sig_num M < 9" "hd_type M \<in> {64, 128}" "hd_type M = int h"
    using t h by (auto simp: M_def merged_header_def Let_def sg_def [symmetric] t_def [symmetric] h_def [symmetric])
  have s5: "save_header (set_file st fw (J @ kb @ ib @ qb @ db)) fw M
      = (set_file st fw (header_image M @ kb @ ib @ qb @ db), Inr ())"
    using save_header_ok [OF io' [of "J @ kb @ ib @ qb @ db"] M(1-3), where fw = fw and old = J and body = "kb @ ib @ qb @ db"] J M by simp
  have op: "\<not> op_fail st fw" and n: "\<not> nsig \<le> unat (o_type opts)" and q0: "h \<noteq> 128 \<Longrightarrow> qb = []"
    using io t qf by (simp_all add: io_ok_def t_def)
  have w1: "fd_write (set_file st fw []) fw 0 J = Some (set_file st fw J)"
    using io by (simp add: io_ok_write write_at_start)
  have tt: "signatures ! t = sg" "unat (o_type opts) = t" by (simp_all add: sg_def t_def)
  show ?thesis
  proof (cases "h = 128")
    case True
    then have ss: "sig_size sg = 128" using h(1) by simp
    have Meq: "M = (let m = m0\<lparr>sig_num := int t, hd_type := 128,
        kernel_off := of_nat h, kernel_len := of_nat (length kb), kernel_checksum := xor_words kb,
        initramfs_off := of_nat (h + length kb), initramfs_len := of_nat (length ib),
        initramfs_checksum := xor_words ib, sqimage_off := of_nat (h + length kb + length ib),
        sqimage_len := of_nat (length qb), sqimage_checksum := xor_words qb,
        defaults_off := of_nat (h + length kb + length ib + length qb), defaults_len := of_nat (length db),
        defaults_checksum := xor_words db, product_id := o_product opts, custom_id := o_custom opts,
        model_id := o_model opts, sub_id := o_sub opts, NewVersion := o_version opts, Next_offset := 0\<rparr> in m)"
      using True ss by (simp add: M_def merged_header_def Let_def tt)
    have J': "map (junk st) [0..<128] = J" using True by (simp add: J_def)
    show ?thesis
      using s1 s2 s3 s4 s5 w1 op n True
      by (simp add: merge_def kf(1) rf(1) fw Let_def tt ss J' io_bind_def split del: if_split) (simp add: Meq Let_def)
  next
    case False
    then have h64: "h = 64" and ss: "sig_size sg = 64" and q0': "qb = []" using h q0 by simp_all
    have Meq: "M = (let m = m0\<lparr>sig_num := int t, hd_type := 64,
        kernel_off := of_nat h, kernel_len := of_nat (length kb), kernel_checksum := xor_words kb,
        initramfs_off := of_nat (h + length kb), initramfs_len := of_nat (length ib),
        initramfs_checksum := xor_words ib,
        defaults_off := of_nat (h + length kb + length ib), defaults_len := of_nat (length db),
        defaults_checksum := xor_words db, product_id := o_product opts, custom_id := o_custom opts,
        model_id := o_model opts, sub_id := o_sub opts, NewVersion := o_version opts, Next_offset := 0\<rparr> in m)"
      using h64 ss q0' by (simp add: M_def merged_header_def Let_def tt)
    have J': "map (junk st) [0..<64] = J" using h64 by (simp add: J_def)
    show ?thesis
      using s1 s2 s4 s5 w1 op n h64 q0'
      by (simp add: merge_def kf(1) rf(1) fw Let_def tt ss J' io_bind_def split del: if_split) (simp add: Meq Let_def)
  qed
qed


section \<open>split\<close>

text \<open>The bytes of a 128-byte header where a 64-byte header has its signature.\<close>

definition shadow_sig :: "MY_CONTROL_HEADER \<Rightarrow> byte list" where
  "shadow_sig m = concat (map le32_bytes [initramfs_checksum m, sqimage_checksum m, defaults_checksum m])"

text \<open>The fields of a header that \<^verbatim>\<open>split\<close> uses; the 64-byte header carries no sqimage.\<close>

definition same_parts :: "MY_CONTROL_HEADER \<Rightarrow> MY_CONTROL_HEADER \<Rightarrow> bool" where
  "same_parts m M \<longleftrightarrow> hd_type m = hd_type M \<and>
     kernel_off m = kernel_off M \<and> kernel_len m = kernel_len M \<and> kernel_checksum m = kernel_checksum M \<and>
     initramfs_off m = initramfs_off M \<and> initramfs_len m = initramfs_len M \<and>
     initramfs_checksum m = initramfs_checksum M \<and>
     defaults_off m = defaults_off M \<and> defaults_len m = defaults_len M \<and>
     defaults_checksum m = defaults_checksum M \<and>
     (hd_type M = 128 \<longrightarrow> sqimage_off m = sqimage_off M \<and> sqimage_len m = sqimage_len M \<and>
        sqimage_checksum m = sqimage_checksum M)"

lemma check_sig_image:
  assumes M: "0 \<le> sig_num M" "sig_num M < 9" "hd_type M \<in> {64, 128}"
    and no64: "hd_type M = 128 \<Longrightarrow> cmp_sig (shadow_sig M) = -1"
    and len: "128 \<le> length (header_image M @ body)"
  shows "\<exists>m. check_sig (take 128 (header_image M @ body)) m1 = (sig_num M, m) \<and> same_parts m M"
proof (cases "hd_type M = 64")
  case True
  then have "take 128 (header_image M @ body) = enc_header64 (set_header64 M) @ take 64 body"
    using M by (simp add: header_image_def h64.length_enc wf_set_header64)
  with True M show ?thesis by (simp add: check_sig_64 same_parts_def)
next
  case False
  then have t: "hd_type M = 128" using M by simp
  then have "take 128 (header_image M @ body) = enc_header128 (set_header128 M) @ []"
    using M by (simp add: header_image_def h128.length_enc wf_set_header128)
  with t M show ?thesis
    using check_sig_128 [OF M(1,2) t no64 [OF t, unfolded shadow_sig_def], of "[]" m1]
    by (simp add: same_parts_def)
qed

lemma open_read_image:
  assumes "io_ok st" and fwf: "files st fw = Some (header_image M @ body)"
    and M: "0 \<le> sig_num M" "sig_num M < 9" "hd_type M \<in> {64, 128}"
    and no64: "hd_type M = 128 \<Longrightarrow> cmp_sig (shadow_sig M) = -1"
    and len: "128 \<le> length (header_image M @ body)"
  shows "\<exists>m. open_read st fw m1 = (st, Inr m) \<and> same_parts m M"
proof -
  obtain m where m: "check_sig (take 128 (header_image M @ body)) m1 = (sig_num M, m)" "same_parts m M"
    using check_sig_image [OF M no64 len] by blast
  have c: "contents st fw = header_image M @ body" using fwf by (simp add: contents_def)
  have "sig_num M \<in> {0, 1, 2, 3, 4, 5, 6, 7, 8}" using M by auto
  then have "(of_int (sig_num M) :: byte) \<noteq> 255" by auto
  with m c assms(1,2) len show ?thesis
    by (auto simp: open_read_def io_ok_read io_ok_def min_def)
qed


text \<open>The component a header points to in an image is copied out, checksum included.\<close>

lemma savefile_part:
  assumes "io_ok st" "name \<noteq> fw" "contents st fw = pre @ d @ post"
    and "length pre + length d < 2 ^ 32"
  shows "savefile st name fw (unat (of_nat (length pre) :: u32)) (unat (of_nat (length d) :: u32)) (xor_words d)
    = (set_file st name d, Inr (xor_words d))"
proof -
  have "unat (of_nat (length pre) :: u32) = length pre" "unat (of_nat (length d) :: u32) = length d"
    using assms(4) by (simp_all add: unat_of_nat_u32)
  then show ?thesis
    using savefile_component [OF assms(1,2), of "length pre" "length d" d "xor_words d"] assms(3) by simp
qed

lemma is_uboot_part:
  assumes "io_ok st" "contents st fw = pre @ d @ post" "length pre < 2 ^ 32" "take 4 d = uboot_sig"
  shows "is_uboot st fw (unat (of_nat (length pre) :: u32))"
proof -
  have "length (take 4 d) = 4" using assms(4) by (simp add: uboot_sig_def)
  then have l: "4 \<le> length d" by simp
  have "unat (of_nat (length pre) :: u32) = length pre" using assms(3) by (simp add: unat_of_nat_u32)
  with l assms show ?thesis by (simp add: is_uboot_iff)
qed

definition out_names :: "fw_opts \<Rightarrow> string list" where
  "out_names o1 = [default_name (o_kernel o1) ''kernel'', default_name (o_initramfs o1) ''initramfs'',
     default_name (o_sqimage o1) ''sqimage'', default_name (o_defaults o1) ''defaults'']"

lemma split_image:
  assumes io: "io_ok st" and fwf: "files st fw = Some (header_image M @ kb @ ib @ qb @ db)"
    and M: "M = merged_header opts kb ib qb db m0" and t: "unat (o_type opts) < 9"
    and ub: "take 4 kb = uboot_sig" "take 4 ib = uboot_sig"
    and len: "128 + length kb + length ib + length qb + length db < 2 ^ 32"
    and min: "128 \<le> length (header_image M @ kb @ ib @ qb @ db)"
    and no64: "hd_type M = 128 \<Longrightarrow> cmp_sig (shadow_sig M) = -1"
    and q: "hd_type M = 64 \<Longrightarrow> qb = []"
    and so: "o_fw sopts = Some fw" "distinct (fw # out_names sopts)"
  shows "\<exists>st'. split st sopts m1 = (st', Inr ()) \<and> map (files st') (out_names sopts)
    = [Some kb, Some ib, if hd_type M = 128 then Some qb else files st (out_names sopts ! 2), Some db]"
proof -
  define h where "h = nat (sig_size (signatures ! unat (o_type opts)))"
  have h: "h = 64 \<or> h = 128" "hd_type M = int h"
    using sig_size_cases [OF t] by (auto simp: h_def M merged_header_def Let_def)
  have sn: "sig_num M = int (unat (o_type opts))" by (simp add: M merged_header_def Let_def)
  have "sig_num M < 9" unfolding sn using t by linarith
  moreover have "0 \<le> sig_num M" unfolding sn by simp
  moreover have "hd_type M \<in> {64, 128}" using h by auto
  ultimately have num: "0 \<le> sig_num M" "sig_num M < 9" "hd_type M \<in> {64, 128}" by simp_all
  have lh: "length (header_image M) = h" using length_header_image [OF num] h by simp
  obtain m where rd: "open_read st fw m1 = (st, Inr m)" and m: "same_parts m M"
    using open_read_image [OF io fwf num no64 min] by blast
  have kp: "kernel_off m = of_nat h" "kernel_len m = of_nat (length kb)" "kernel_checksum m = xor_words kb"
    and ip: "initramfs_off m = of_nat (h + length kb)" "initramfs_len m = of_nat (length ib)"
      "initramfs_checksum m = xor_words ib"
    and dp: "defaults_off m = of_nat (h + length kb + length ib + length qb)" "defaults_len m = of_nat (length db)"
      "defaults_checksum m = xor_words db" and ty: "hd_type m = hd_type M"
    using m by (simp_all add: same_parts_def M merged_header_def Let_def h_def [symmetric])
  have qp: "sqimage_off m = of_nat (h + length kb + length ib)" "sqimage_len m = of_nat (length qb)"
      "sqimage_checksum m = xor_words qb" if "h = 128"
    using m that h(2) by (simp_all add: same_parts_def M merged_header_def Let_def h_def [symmetric])
  define kn rn qn dn where n: "kn = out_names sopts ! 0" "rn = out_names sopts ! 1"
    "qn = out_names sopts ! 2" "dn = out_names sopts ! 3"
  have names: "out_names sopts = [kn, rn, qn, dn]" by (simp add: n out_names_def)
  have ne: "kn \<noteq> fw" "rn \<noteq> fw" "qn \<noteq> fw" "dn \<noteq> fw" "distinct [kn, rn, qn, dn]"
    using so(2) by (auto simp: names)
  define I where "I = header_image M @ kb @ ib @ qb @ db"
  have c: "contents st fw = I" using fwf by (simp add: contents_def I_def)
  define st1 st2 st3 where sts: "st1 = set_file st kn kb" "st2 = set_file st1 rn ib"
    "st3 = (if h = 128 then set_file st2 qn qb else st2)"
  have ok: "io_ok st1" "io_ok st2" "io_ok st3"
    and cs: "contents st1 fw = I" "contents st2 fw = I" "contents st3 fw = I"
    using io c ne by (auto simp: sts)
  have small: "h + length kb + length ib + length qb + length db < 2 ^ 32" using len h by auto
  have ub1: "is_uboot st fw (unat (kernel_off m))"
    using is_uboot_part [OF io, of fw "header_image M" kb "ib @ qb @ db"] c small ub by (simp add: I_def kp lh)
  have ub2: "is_uboot st fw (unat (initramfs_off m))"
    using is_uboot_part [OF io, of fw "header_image M @ kb" ib "qb @ db"] c small ub by (simp add: I_def ip lh)
  have f1: "savefile st kn fw (unat (kernel_off m)) (unat (kernel_len m)) (kernel_checksum m) = (st1, Inr (xor_words kb))"
    using savefile_part [OF io ne(1), of "header_image M" kb "ib @ qb @ db"] c small by (simp add: I_def kp lh sts)
  have f2: "savefile st1 rn fw (unat (initramfs_off m)) (unat (initramfs_len m)) (initramfs_checksum m)
      = (st2, Inr (xor_words ib))"
    using savefile_part [OF ok(1) ne(2), of "header_image M @ kb" ib "qb @ db"] cs small by (simp add: I_def ip lh sts)
  have f3: "savefile st2 qn fw (unat (sqimage_off m)) (unat (sqimage_len m)) (sqimage_checksum m)
      = (st3, Inr (xor_words qb))" if "h = 128"
    using savefile_part [OF ok(2) ne(3), of "header_image M @ kb @ ib" qb db] cs small that
    by (simp add: I_def qp lh sts add.assoc)
  have f4: "savefile st3 dn fw (unat (defaults_off m)) (unat (defaults_len m)) (defaults_checksum m)
      = (set_file st3 dn db, Inr (xor_words db))"
    using savefile_part [OF ok(3) ne(4), of "header_image M @ kb @ ib @ qb" db "[]"] cs small by (simp add: I_def dp lh add.assoc)
  have dn4: "default_name (o_kernel sopts) ''kernel'' = kn" "default_name (o_initramfs sopts) ''initramfs'' = rn"
    "default_name (o_sqimage sopts) ''sqimage'' = qn" "default_name (o_defaults sopts) ''defaults'' = dn"
    by (simp_all add: n out_names_def)
  have st3: "st2 = st3" if "h \<noteq> 128" using that by (simp add: sts)
  have "split st sopts m1 = (set_file st3 dn db, Inr ())"
  proof (cases "h = 128")
    case True
    then show ?thesis
      by (simp add: split_def Let_def dn4 so(1) rd ub1 ub2 size_ok_def f1 f2 f3 f4 ty h(2))
  next
    case False
    then show ?thesis
      using f2 by (simp add: split_def Let_def dn4 so(1) rd ub1 ub2 size_ok_def f1 f4 ty h(2) st3)
  qed
  then show ?thesis
    using ne h by (auto simp: names sts)
qed

text \<open>The round trip, on the inputs of \<^verbatim>\<open>merge\<close>.\<close>

lemma merge_then_split:
  assumes inp: "merge_inputs st opts fw kb ib qb db"
    and min: "128 \<le> nat (sig_size (signatures ! unat (o_type opts)))
      + length kb + length ib + length qb + length db"
    and no64: "sig_size (signatures ! unat (o_type opts)) = 128 \<Longrightarrow>
      cmp_sig (concat (map le32_bytes [xor_words ib, xor_words qb, xor_words db])) = -1"
    and so: "o_fw sopts = Some fw" "distinct (fw # out_names sopts)"
  shows "\<exists>st1 m st2. merge st opts m0 = (st1, Inr m) \<and> split st1 sopts m1 = (st2, Inr ()) \<and>
    map (files st2) (out_names sopts)
      = [Some kb, Some ib, if hd_type m = 128 then Some qb else files st (out_names sopts ! 2), Some db]"
proof -
  let ?M = "merged_header opts kb ib qb db m0" and ?sg = "signatures ! unat (o_type opts)"
  define st1 where "st1 = set_file st fw (header_image ?M @ kb @ ib @ qb @ db)"
  have t: "unat (o_type opts) < 9" and io: "io_ok st" and ub: "take 4 kb = uboot_sig" "take 4 ib = uboot_sig"
    using inp by (simp_all add: merge_inputs_def Let_def)
  have sz: "sig_size ?sg = 64 \<or> sig_size ?sg = 128" using sig_size_cases [OF t] by auto
  have "length kb < 2 ^ 27" "length ib < 2 ^ 27" "length qb < 2 ^ 27" "length db < 2 ^ 27"
    using inp sig_max_bound [OF t]
    by (auto simp: merge_inputs_def Let_def comp_input_def split: if_splits option.splits)
  then have len: "128 + length kb + length ib + length qb + length db < 2 ^ 32" by simp
  have ty: "hd_type ?M = sig_size ?sg" using sz by (auto simp: merged_header_def Let_def)
  have lh: "length (header_image ?M) = nat (sig_size ?sg)"
  proof -
    have sn: "sig_num ?M = int (unat (o_type opts))" by (simp add: merged_header_def Let_def)
    have "sig_num ?M < 9" unfolding sn using t by linarith
    moreover have "0 \<le> sig_num ?M" unfolding sn by simp
    ultimately show ?thesis using length_header_image [of ?M] sz ty by auto
  qed
  have q: "hd_type ?M = 64 \<Longrightarrow> qb = []" using inp ty by (simp add: merge_inputs_def Let_def)
  have s: "hd_type ?M = 128 \<Longrightarrow> cmp_sig (shadow_sig ?M) = -1"
    using no64 ty by (simp add: shadow_sig_def merged_header_def Let_def)
  have ok1: "io_ok st1" and f1: "files st1 fw = Some (header_image ?M @ kb @ ib @ qb @ db)"
    using io by (simp_all add: st1_def)
  have "128 \<le> length (header_image ?M @ kb @ ib @ qb @ db)" using min lh by simp
  then have "\<exists>st2. split st1 sopts m1 = (st2, Inr ()) \<and> map (files st2) (out_names sopts)
    = [Some kb, Some ib, if hd_type ?M = 128 then Some qb else files st1 (out_names sopts ! 2), Some db]"
    by (rule split_image [OF ok1 f1 refl t ub len _ _ _ so]) (fact s, fact q)
  then obtain st2 where "split st1 sopts m1 = (st2, Inr ())" "map (files st2) (out_names sopts)
    = [Some kb, Some ib, if hd_type ?M = 128 then Some qb else files st1 (out_names sopts ! 2), Some db]"
    by (elim exE conjE) (rule that)
  moreover have "files st1 (out_names sopts ! 2) = files st (out_names sopts ! 2)"
    using so(2) by (auto simp: st1_def out_names_def)
  moreover have "merge st opts m0 = (st1, Inr ?M)" using merge_ok [OF inp, of m0] by (simp only: st1_def)
  ultimately show ?thesis by (intro exI [of _ st1] exI [of _ ?M] exI [of _ st2]) simp
qed


section \<open>Properties\<close>

text \<open>A sample directory for the witnesses: a kernel and an initramfs with the u-boot magic.\<close>

definition sample_kernel :: "byte list" where
  "sample_kernel = uboot_sig @ replicate 60 1"

definition sample_initramfs :: "byte list" where
  "sample_initramfs = uboot_sig @ [2, 3, 4, 5]"

definition sample_io :: fwio where
  "sample_io = \<lparr>files = [''k'' \<mapsto> sample_kernel, ''i'' \<mapsto> sample_initramfs],
     rd_fail = (\<lambda>_ _. False), wr_fail = (\<lambda>_ _. False), op_fail = (\<lambda>_. False), malloc_fail = False,
     junk = (\<lambda>_. 7)\<rparr>"

definition sample_opts :: fw_opts where
  "sample_opts = init_opts\<lparr>o_kernel := Some ''k'', o_initramfs := Some ''i'', o_fw := Some ''fw''\<rparr>"

definition sample_split_opts :: fw_opts where
  "sample_split_opts = init_opts\<lparr>o_fw := Some ''fw''\<rparr>"

definition sample_header :: MY_CONTROL_HEADER where
  "sample_header = \<lparr>kernel_off = 64, kernel_len = 64, kernel_checksum = 0, initramfs_off = 128,
     initramfs_len = 8, initramfs_checksum = 0, sqimage_off = 0, sqimage_len = 0, sqimage_checksum = 0,
     defaults_off = 136, defaults_len = 0, defaults_checksum = 0, Next_offset = 0, product_id = 1,
     custom_id = 2, model_id = 3, sub_id = 4, NewVersion = 5, hd_type = 64, sig_num = 2\<rparr>"

lemma sample_io_ok: "io_ok sample_io"
  by (simp add: io_ok_def sample_io_def)

lemma sample_inputs: "merge_inputs sample_io sample_opts ''fw'' sample_kernel sample_initramfs [] []"
  by (simp add: merge_inputs_def io_ok_def Let_def comp_input_def sample_opts_def init_opts_def
      signatures_def sample_io_def sample_kernel_def sample_initramfs_def uboot_sig_def)

text \<open>Claim C1. Whatever merge packs, split unpacks: on inputs merge accepts (readable
  components within the limits of the board type, u-boot kernel and initramfs, at least 128 bytes
  in all), merge succeeds and split of the image it wrote succeeds and leaves in its output files
  exactly the bytes of every component, for all nine board types, both header sizes, and with
  the optional components present or left out. For the 128-byte header the three checksums that
  lie where a 64-byte header has its signature must not spell a known signature.\<close>

theorem merge_split_roundtrip:
  assumes "merge_inputs st opts fw kb ib qb db"
    and "128 \<le> nat (sig_size (signatures ! unat (o_type opts)))
      + length kb + length ib + length qb + length db"
    and "sig_size (signatures ! unat (o_type opts)) = 128 \<Longrightarrow>
      cmp_sig (concat (map le32_bytes [xor_words ib, xor_words qb, xor_words db])) = -1"
    and "o_fw sopts = Some fw" "distinct (fw # out_names sopts)"
  shows "\<exists>st1 m st2. merge st opts m0 = (st1, Inr m) \<and> split st1 sopts m1 = (st2, Inr ()) \<and>
    map (files st2) (out_names sopts)
      = [Some kb, Some ib, if hd_type m = 128 then Some qb else files st (out_names sopts ! 2), Some db]"
  using assms by (rule merge_then_split)

theorem merge_split_roundtrip_witness:
  "\<exists>st1 m st2. merge sample_io sample_opts sample_header = (st1, Inr m) \<and>
    split st1 sample_split_opts sample_header = (st2, Inr ()) \<and>
    map (files st2) (out_names sample_split_opts) = [Some sample_kernel, Some sample_initramfs,
      if hd_type m = 128 then Some [] else files sample_io (out_names sample_split_opts ! 2), Some []]"
proof (rule merge_split_roundtrip [OF sample_inputs])
  show "128 \<le> nat (sig_size (signatures ! unat (o_type sample_opts)))
      + length sample_kernel + length sample_initramfs + length ([] :: byte list) + length ([] :: byte list)"
    by (simp add: sample_opts_def init_opts_def signatures_def sample_kernel_def sample_initramfs_def uboot_sig_def)
  show "cmp_sig (concat (map le32_bytes [xor_words sample_initramfs, xor_words [], xor_words []])) = -1"
    if "sig_size (signatures ! unat (o_type sample_opts)) = 128"
    using that by (simp add: sample_opts_def init_opts_def signatures_def)
  show "o_fw sample_split_opts = Some ''fw''" by (simp add: sample_split_opts_def)
  show "distinct (''fw'' # out_names sample_split_opts)"
    by (simp add: sample_split_opts_def init_opts_def out_names_def default_name_def)
qed

text \<open>Claim C13. The image merge writes: the header, then kernel, initramfs, sqimage and defaults
  one after the other, with the header's offsets, lengths and checksums describing exactly them
  and the bytes written first as a place holder all gone.\<close>

theorem merge_image:
  assumes "merge_inputs st opts fw kb ib qb db"
  shows "merge st opts m0 = (set_file st fw (header_image (merged_header opts kb ib qb db m0) @ kb @ ib @ qb @ db),
    Inr (merged_header opts kb ib qb db m0))"
  using assms by (rule merge_ok)

theorem merge_image_witness:
  "merge sample_io sample_opts sample_header = (set_file sample_io ''fw''
     (header_image (merged_header sample_opts sample_kernel sample_initramfs [] [] sample_header)
       @ sample_kernel @ sample_initramfs @ [] @ []),
    Inr (merged_header sample_opts sample_kernel sample_initramfs [] [] sample_header))"
  by (rule merge_image [OF sample_inputs])

text \<open>readwrite on a range that lies inside the input file appends exactly these bytes
  to the output and computes their checksum; it returns 0 if and only if no checksum was given
  (zero) or the given one is the checksum of the range.\<close>

theorem readwrite_exact:
  assumes "io_ok st" "fdi \<noteq> fdo" "files st fdo = Some ob" "off + sz \<le> length (contents st fdi)"
  shows "readwrite st fdo (length ob) fdi off sz chk =
    (let d = take sz (drop off (contents st fdi)); c = xor_words d
     in (set_file st fdo (ob @ d), if chk = 0 then c else chk, chk = 0 \<or> c = chk))"
  using assms by (simp add: readwrite_ok copied_all Let_def)

theorem readwrite_exact_witness:
  "readwrite (set_file sample_io ''o'' [9]) ''o'' (length [9 :: byte]) ''i'' 4 4 0 =
    (let d = take 4 (drop 4 (contents (set_file sample_io ''o'' [9]) ''i'')); c = xor_words d
     in (set_file (set_file sample_io ''o'' [9]) ''o'' ([9] @ d), if (0 :: u32) = 0 then c else 0, (0 :: u32) = 0 \<or> c = 0))"
proof (rule readwrite_exact)
  show "io_ok (set_file sample_io ''o'' [9])" by (simp add: sample_io_ok)
  show "4 + 4 \<le> length (contents (set_file sample_io ''o'' [9]) ''i'')"
    by (simp add: contents_def sample_io_def sample_initramfs_def uboot_sig_def)
qed simp_all

text \<open>When the header promises more bytes than the file has, the copy ends with zeros up to
  the promised size or the end of the 64 KB block, and these zeros are in the saved file as well
  as in the checksum, against the comment in the code that the saved file lacks them.\<close>

theorem readwrite_pads:
  assumes "io_ok st" "fdi \<noteq> fdo" "files st fdo = Some ob"
    and "off \<le> length (contents st fdi)" "length (contents st fdi) < off + sz"
  shows "readwrite st fdo (length ob) fdi off sz 0 =
    (let d = drop off (contents st fdi);
         z = replicate (min sz ((length d + BLOCK_SIZE - 1) div BLOCK_SIZE * BLOCK_SIZE) - length d) 0
     in (set_file st fdo (ob @ d @ z), xor_words (d @ z), True))"
proof -
  have "length (drop off (contents st fdi)) < sz" using assms(4,5) by simp
  then show ?thesis
    using readwrite_ok [OF assms(1-3), of off sz 0] by (simp add: copied_short Let_def)
qed

theorem readwrite_pads_witness:
  "readwrite (set_file sample_io ''o'' [9]) ''o'' (length [9 :: byte]) ''i'' 4 7 0 =
    (let d = drop 4 (contents (set_file sample_io ''o'' [9]) ''i'');
         z = replicate (min 7 ((length d + BLOCK_SIZE - 1) div BLOCK_SIZE * BLOCK_SIZE) - length d) 0
     in (set_file (set_file sample_io ''o'' [9]) ''o'' ([9] @ d @ z), xor_words (d @ z), True))"
proof (rule readwrite_pads)
  show "io_ok (set_file sample_io ''o'' [9])" by (simp add: sample_io_ok)
  show "4 \<le> length (contents (set_file sample_io ''o'' [9]) ''i'')"
    "length (contents (set_file sample_io ''o'' [9]) ''i'') < 4 + 7"
    by (simp_all add: contents_def sample_io_def sample_initramfs_def uboot_sig_def)
qed simp_all

text \<open>Both headers survive the file: a header that was set and written is recognised by
  check_sig, with its board number, its size class and every field that header has.\<close>

theorem header_recognised:
  assumes "0 \<le> sig_num m" "sig_num m < int nsig" "hd_type m = 64 \<or> hd_type m = 128"
    and "hd_type m = 128 \<Longrightarrow> cmp_sig (shadow_sig m) = -1"
  shows "check_sig (header_image m @ rest) m0 = (sig_num m,
    if hd_type m = 128 then m
    else m\<lparr>sqimage_off := sqimage_off m0, sqimage_len := sqimage_len m0, sqimage_checksum := sqimage_checksum m0\<rparr>)"
  using assms check_sig_128 [of m rest m0] check_sig_64 [of m rest m0]
  by (auto simp: header_image_def shadow_sig_def)

theorem header_recognised_witness:
  "check_sig (header_image sample_header @ [1, 2]) sample_header = (2, sample_header)"
  using header_recognised [of sample_header "[1, 2]" sample_header] by (simp add: sample_header_def)


text \<open>Claim C23. A kernel whose bytes do not match a non-zero checksum of the header stops split with an
  error, and no other file is touched (the wrong bytes stay in the kernel's output file).\<close>

theorem split_detects_corruption:
  assumes "io_ok st" "o_fw opts = Some fw" "open_read st fw m0 = (st, Inr m)"
    and "is_uboot st fw (unat (kernel_off m))" "is_uboot st fw (unat (initramfs_off m))"
    and "default_name (o_kernel opts) ''kernel'' \<noteq> fw" "kernel_checksum m \<noteq> 0"
    and "kernel_checksum m
      \<noteq> xor_words (copied (unat (kernel_len m)) (drop (unat (kernel_off m)) (contents st fw)))"
  shows "\<exists>st'. split st opts m0 = (st', Inl (CopyError (default_name (o_kernel opts) ''kernel''))) \<and>
    (\<forall>f. f \<noteq> default_name (o_kernel opts) ''kernel'' \<longrightarrow> files st' f = files st f)"
  using assms(2-5,8) savefile_ok [OF assms(1,6), of "unat (kernel_off m)" "unat (kernel_len m)" "kernel_checksum m"]
    assms(7)
  by (auto simp: split_def Let_def size_ok_def)

text \<open>A two-component image whose kernel checksum is wrong.\<close>

definition sample_bad_header :: MY_CONTROL_HEADER where
  "sample_bad_header = sample_header\<lparr>kernel_checksum := 1, sig_num := 0\<rparr>"

definition sample_bad_io :: fwio where
  "sample_bad_io = set_file sample_io ''fw'' (header_image sample_bad_header @ sample_kernel @ sample_initramfs)"

lemma length_bad_image: "length (header_image sample_bad_header) = 64"
  by (simp add: length_header_image sample_bad_header_def sample_header_def)

lemma sample_bad_open: "open_read sample_bad_io ''fw'' sample_header = (sample_bad_io, Inr sample_bad_header)"
proof -
  have c: "contents sample_bad_io ''fw'' = header_image sample_bad_header @ sample_kernel @ sample_initramfs"
    by (simp add: sample_bad_io_def)
  have "take 128 (header_image sample_bad_header @ sample_kernel @ sample_initramfs)
      = enc_header64 (set_header64 sample_bad_header) @ sample_kernel"
    using length_bad_image
    by (simp add: header_image_def sample_bad_header_def sample_header_def sample_kernel_def uboot_sig_def)
  moreover have "check_sig (enc_header64 (set_header64 sample_bad_header) @ sample_kernel) sample_header
      = (0, sample_bad_header)"
    using check_sig_64 [of sample_bad_header sample_kernel sample_header]
    by (simp add: sample_bad_header_def sample_header_def)
  moreover have "io_ok sample_bad_io" "files sample_bad_io ''fw'' \<noteq> None"
    by (simp_all add: sample_bad_io_def sample_io_ok)
  ultimately show ?thesis
    using c length_bad_image
    by (simp add: open_read_def io_ok_read io_ok_def sample_kernel_def sample_initramfs_def uboot_sig_def)
qed

theorem split_detects_corruption_witness:
  "\<exists>st'. split sample_bad_io sample_split_opts sample_header = (st', Inl (CopyError ''kernel'')) \<and>
    (\<forall>f. f \<noteq> ''kernel'' \<longrightarrow> files st' f = files sample_bad_io f)"
proof -
  have c: "contents sample_bad_io ''fw'' = header_image sample_bad_header @ sample_kernel @ sample_initramfs"
    and io: "io_ok sample_bad_io"
    by (simp_all add: sample_bad_io_def sample_io_ok)
  have nm: "default_name (o_kernel sample_split_opts) ''kernel'' = ''kernel''"
    by (simp add: sample_split_opts_def init_opts_def default_name_def)
  have ub: "is_uboot sample_bad_io ''fw'' (unat (kernel_off sample_bad_header))"
    "is_uboot sample_bad_io ''fw'' (unat (initramfs_off sample_bad_header))"
    using is_uboot_part [OF io, of "''fw''" "header_image sample_bad_header" sample_kernel sample_initramfs]
      is_uboot_part [OF io, of "''fw''" "header_image sample_bad_header @ sample_kernel" sample_initramfs "[]"]
      length_bad_image
    by (simp_all add: c sample_bad_header_def sample_header_def sample_kernel_def sample_initramfs_def uboot_sig_def)
  have "xor_words sample_kernel = 0x57180426"
    by code_simp
  moreover have "copied (unat (kernel_len sample_bad_header))
      (drop (unat (kernel_off sample_bad_header)) (contents sample_bad_io ''fw'')) = sample_kernel"
    using length_bad_image c
    by (subst copied_all) (simp_all add: sample_bad_header_def sample_header_def sample_kernel_def
        sample_initramfs_def uboot_sig_def)
  ultimately show ?thesis
    using split_detects_corruption [OF io _ sample_bad_open ub, of sample_split_opts] nm
    by (simp add: sample_split_opts_def sample_bad_header_def sample_header_def)
qed

text \<open>Claim C38. A kernel larger than the board's limit stops merge, and so does one without the u-boot
  magic, before any header or component is written: the output file holds only the place of the header,
  filled with the bytes that happen to be in its buffer, and no other file has changed.\<close>

theorem merge_refuses_kernel:
  assumes "io_ok st" "o_fw opts = Some fw" "o_kernel opts = Some kf" "o_initramfs opts = Some rf"
    and "unat (o_type opts) < nsig" "kf \<noteq> fw" "files st kf = Some kb" "length kb < 2 ^ 32" "4 \<le> length kb"
    and "take 4 kb \<noteq> uboot_sig \<or> kernel_max (signatures ! unat (o_type opts)) < length kb"
  shows "merge st opts m0 = (set_file st fw (map (junk st) [0..<nat (sig_size (signatures ! unat (o_type opts)))]),
      Inl (if take 4 kb = uboot_sig then TooBig kf else NotUboot kf))"
proof -
  define st1 where "st1 = set_file st fw (map (junk st) [0..<nat (sig_size (signatures ! unat (o_type opts)))])"
  have io: "io_ok st1" and c: "contents st1 kf = kb" "files st1 kf = Some kb"
    using assms by (simp_all add: st1_def contents_def)
  have w: "fd_write (set_file st fw []) fw 0 (map (junk st) [0..<nat (sig_size (signatures ! unat (o_type opts)))])
      = Some st1"
    using assms(1) by (simp add: st1_def io_ok_write write_at_start)
  have u: "is_uboot st1 kf 0 = (take 4 kb = uboot_sig)"
    using is_uboot_iff [OF io, of kf 0] c assms(9) by simp
  have "unat (of_nat (length kb) :: u32) = length kb" using assms(8) by (rule unat_of_nat_u32)
  then have "savecomp st1 kf fw True (kernel_max (signatures ! unat (o_type opts)))
      = (st1, Inl (if take 4 kb = uboot_sig then TooBig kf else NotUboot kf))"
    using io c u assms(10) by (auto simp: savecomp_def io_ok_def Let_def)
  then show ?thesis
    using assms(1-5) w by (simp add: merge_def Let_def io_ok_def st1_def [symmetric] split del: if_split)
qed

theorem merge_refuses_kernel_witness:
  "merge (set_file sample_io ''k'' [1, 2, 3, 4, 5]) sample_opts sample_header
    = (set_file (set_file sample_io ''k'' [1, 2, 3, 4, 5]) ''fw''
         (map (junk (set_file sample_io ''k'' [1, 2, 3, 4, 5])) [0..<nat (sig_size (signatures ! unat (o_type sample_opts)))]),
       Inl (if take 4 [1, 2, 3, 4, 5 :: byte] = uboot_sig then TooBig ''k'' else NotUboot ''k''))"
  by (rule merge_refuses_kernel [where rf = "''i''"])
    (simp_all add: sample_io_ok sample_opts_def init_opts_def uboot_sig_def)

end
