(* ===== verification/Sysfs.thy ===== *)
theory Sysfs
  imports Prelude
begin

text \<open>
  The small files through which the daemons talk to the kernel and to each other
  (\<^verbatim>\<open>/tmp/sys/...\<close>): \<^verbatim>\<open>read_str_from_file\<close>, \<^verbatim>\<open>write_str_to_file\<close>, \<^verbatim>\<open>read_int_from_file\<close> and
  \<^verbatim>\<open>write_int_to_file\<close>, which \<^verbatim>\<open>sysctrl.c\<close> and \<^verbatim>\<open>dns320l-daemon.c\<close> both contain, with the decimal
  printing and scanning they use. A missing or unreadable file is \<open>None\<close>; \<open>sf_ro\<close> names the
  files that cannot be opened for writing. The callers write at most 63 characters, which is what
  the 64-byte local buffer of \<^verbatim>\<open>write_str_to_file\<close> has room for.
\<close>

section \<open>Decimal numbers\<close>

fun show_nat :: "nat \<Rightarrow> string" where
  "show_nat n = (if n < 10 then [char_of (48 + n)] else show_nat (n div 10) @ [char_of (48 + n mod 10)])"

declare show_nat.simps [simp del]

text \<open>\<^verbatim>\<open>sprintf("%d", u)\<close>\<close>

definition show_int :: "int \<Rightarrow> string" where
  "show_int u = (if u < 0 then CHR ''-'' # show_nat (nat (- u)) else show_nat (nat u))"

text \<open>\<^verbatim>\<open>sscanf(s, "%d", &u)\<close>: without a number \<open>u\<close> stays as it is.\<close>

definition scan_int :: "string \<Rightarrow> int \<Rightarrow> int" where
  "scan_int s u = (case c_strtol10 s of (v, r) \<Rightarrow> if r = s then u else v)"

lemma c_digit_char_of: "n < 10 \<Longrightarrow> c_isdigit (char_of (48 + n)) \<and> c_digit (char_of (48 + n)) = int n"
  by (simp add: c_isdigit_def c_digit_def of_char_of)

lemma digits_val_append:
  "\<forall>c \<in> set s. c_isdigit c \<Longrightarrow> digits_val a (s @ t) = digits_val (fst (digits_val a s)) t"
  by (induction s arbitrary: a) auto

lemma digits_val_all: "\<forall>c \<in> set s. c_isdigit c \<Longrightarrow> snd (digits_val a s) = []"
  by (induction s arbitrary: a) auto

lemma show_nat_digits: "\<forall>c \<in> set (show_nat n). c_isdigit c"
proof (induction n rule: show_nat.induct)
  case (1 n)
  then show ?case by (subst show_nat.simps) (auto simp: c_digit_char_of)
qed

lemma show_nat_ne [simp]: "show_nat n \<noteq> []"
  by (subst show_nat.simps) simp

lemma digits_val_show_nat: "digits_val 0 (show_nat n) = (int n, [])"
proof (induction n rule: show_nat.induct)
  case (1 n)
  show ?case
  proof (cases "n < 10")
    case True
    then show ?thesis by (subst show_nat.simps) (simp add: c_digit_char_of)
  next
    case False
    with 1 have ih: "digits_val 0 (show_nat (n div 10)) = (int (n div 10), [])" by simp
    have "digits_val 0 (show_nat n)
        = digits_val (int (n div 10)) [char_of (48 + n mod 10)]"
      using False show_nat_digits [of "n div 10"]
      by (subst show_nat.simps) (simp add: digits_val_append ih)
    also have "\<dots> = (10 * int (n div 10) + int (n mod 10), [])"
      by (simp add: c_digit_char_of)
    also have "10 * int (n div 10) + int (n mod 10) = int n"
      by (metis of_nat_add of_nat_mult of_nat_numeral mult_div_mod_eq)
    finally show ?thesis .
  qed
qed

lemma digit_plain: "c_isdigit c \<Longrightarrow> \<not> c_isspace c \<and> c \<noteq> CHR ''-'' \<and> c \<noteq> CHR ''+''"
  by (auto simp: c_isdigit_def c_isspace_def)

lemma strtol_show_int:
  assumes "- (2 ^ 31) \<le> u" "u < 2 ^ 31"
  shows "c_strtol10 (show_int u) = (u, [])"
proof (cases "u < 0")
  case True
  have hd: "c_isdigit (hd (show_nat (nat (- u))))" using show_nat_digits [of "nat (- u)"] by (simp add: hd_in_set)
  have "\<not> c_isspace (CHR ''-'')" by (simp add: c_isspace_def)
  with True hd assms show ?thesis
    by (simp add: show_int_def c_strtol10_def strip_sign_def digits_val_show_nat clamp_long_def)
next
  case False
  obtain c s where cs: "show_nat (nat u) = c # s" by (meson neq_Nil_conv show_nat_ne)
  then have "c_isdigit c" using show_nat_digits [of "nat u"] by simp
  with False assms cs digit_plain [of c] digits_val_show_nat [of "nat u"] show ?thesis
    by (simp add: show_int_def c_strtol10_def strip_sign_def clamp_long_def)
qed

section \<open>Files\<close>

record sysfs =
  sf_files :: "string \<Rightarrow> string option"
  sf_ro :: "string \<Rightarrow> bool"

definition c_string :: "string \<Rightarrow> string" where
  "c_string s = takeWhile (\<lambda>c. c \<noteq> CHR 0x00) s"

definition read_str_from_file :: "sysfs \<Rightarrow> string \<Rightarrow> nat \<Rightarrow> string option" where
  "read_str_from_file fs filename sz =
     (case sf_files fs filename of None \<Rightarrow> None
      | Some c \<Rightarrow> let str = take sz c in if length str < 1 then None else Some (c_string (butlast str)))"

definition write_str_to_file :: "sysfs \<Rightarrow> string \<Rightarrow> string \<Rightarrow> sysfs \<times> int" where
  "write_str_to_file fs filename str =
     (if sf_ro fs filename then (fs, -1)
      else (fs\<lparr>sf_files := (sf_files fs)(filename \<mapsto> str @ [CHR 0x0A])\<rparr>, 0))"

text \<open>The integer as it is after the call: \<open>u\<close> is its value before.\<close>

definition read_int_from_file :: "sysfs \<Rightarrow> string \<Rightarrow> int \<Rightarrow> int option" where
  "read_int_from_file fs filename u =
     (case read_str_from_file fs filename 64 of None \<Rightarrow> None | Some buf \<Rightarrow> Some (scan_int buf u))"

definition write_int_to_file :: "sysfs \<Rightarrow> string \<Rightarrow> int \<Rightarrow> sysfs \<times> int" where
  "write_int_to_file fs filename u = write_str_to_file fs filename (show_int u)"

lemma write_str_other [frame]:
  "g \<noteq> f \<Longrightarrow> sf_files (fst (write_str_to_file fs f s)) g = sf_files fs g"
  by (simp add: write_str_to_file_def)

lemma read_str_other [frame]:
  "g \<noteq> f \<Longrightarrow> read_str_from_file (fst (write_str_to_file fs f s)) g sz = read_str_from_file fs g sz"
  by (simp add: read_str_from_file_def write_str_other)

lemma read_int_other [frame]:
  "g \<noteq> f \<Longrightarrow> read_int_from_file (fst (write_str_to_file fs f s)) g u = read_int_from_file fs g u"
  by (simp add: read_int_from_file_def read_str_other)

lemma write_str_ro [simp, frame]: "sf_ro (fst (write_str_to_file fs f s)) = sf_ro fs"
  by (simp add: write_str_to_file_def)

lemma read_write_str:
  "\<not> sf_ro fs f \<Longrightarrow> length s < sz \<Longrightarrow> CHR 0x00 \<notin> set s \<Longrightarrow>
   read_str_from_file (fst (write_str_to_file fs f s)) f sz = Some s"
  by (auto simp: read_str_from_file_def write_str_to_file_def Let_def c_string_def butlast_append
      intro: takeWhile_eq_all_conv [THEN iffD2])

lemma length_show_nat: "n < 10 ^ k \<Longrightarrow> 0 < k \<Longrightarrow> length (show_nat n) \<le> k"
proof (induction k arbitrary: n)
  case (Suc k)
  show ?case
  proof (cases "n < 10")
    case True then show ?thesis by (subst show_nat.simps) simp
  next
    case False
    with Suc.prems have "n div 10 < 10 ^ k" "0 < k"
      by (auto simp: less_mult_imp_div_less mult.commute intro: Nat.gr0I)
    from Suc.IH [OF this] False show ?thesis by (subst show_nat.simps) simp
  qed
qed simp

lemma length_show_int: "- (2 ^ 31) \<le> u \<Longrightarrow> u < 2 ^ 31 \<Longrightarrow> length (show_int u) \<le> 11"
  using length_show_nat [of "nat (- u)" 10] length_show_nat [of "nat u" 10]
  by (auto simp: show_int_def nat_less_iff)

lemma show_int_no_nul: "CHR 0x00 \<notin> set (show_int u)"
proof -
  have "CHR 0x00 \<notin> set (show_nat n)" for n
    using show_nat_digits [of n] by (auto simp: c_isdigit_def)
  then show ?thesis by (simp add: show_int_def)
qed

lemma show_int_ne [simp]: "show_int u \<noteq> []"
  by (simp add: show_int_def)

lemma read_write_int:
  assumes "\<not> sf_ro fs f" "- (2 ^ 31) \<le> u" "u < 2 ^ 31"
  shows "read_int_from_file (fst (write_int_to_file fs f u)) f v = Some u"
  using assms length_show_int [OF assms(2,3)] show_int_no_nul [of u] strtol_show_int [OF assms(2,3)]
  by (auto simp: read_int_from_file_def write_int_to_file_def read_write_str scan_int_def
      dest: sym [of "[]"])

text \<open>
  The interface: a value store under names. Writing and then reading a name gives the value
  back, and leaves other names alone. Both the string and the integer files provide it.
\<close>

locale value_store =
  fixes put :: "'fs \<Rightarrow> string \<Rightarrow> 'v \<Rightarrow> 'fs"
    and get :: "'fs \<Rightarrow> string \<Rightarrow> 'v option"
    and writable :: "'fs \<Rightarrow> string \<Rightarrow> bool"
    and valid :: "'v \<Rightarrow> bool"
  assumes get_put: "writable fs f \<Longrightarrow> valid v \<Longrightarrow> get (put fs f v) f = Some v"
    and get_put_other: "g \<noteq> f \<Longrightarrow> get (put fs f v) g = get fs g"
    and writable_put: "writable (put fs f v) = writable fs"
begin

lemma put_put_get:
  "f \<noteq> g \<Longrightarrow> writable fs f \<Longrightarrow> writable fs g \<Longrightarrow> valid v \<Longrightarrow> valid w \<Longrightarrow>
   get (put (put fs f v) g w) f = Some v \<and> get (put (put fs f v) g w) g = Some w"
  by (simp add: get_put get_put_other writable_put)

lemma put_overwrites: "writable fs f \<Longrightarrow> valid w \<Longrightarrow> get (put (put fs f v) f w) f = Some w"
  by (simp add: get_put writable_put)

end

definition put_str :: "sysfs \<Rightarrow> string \<Rightarrow> string \<Rightarrow> sysfs" where
  "put_str fs f s = fst (write_str_to_file fs f s)"

definition put_int :: "sysfs \<Rightarrow> string \<Rightarrow> int \<Rightarrow> sysfs" where
  "put_int fs f u = fst (write_int_to_file fs f u)"

definition get_int :: "sysfs \<Rightarrow> string \<Rightarrow> int option" where
  "get_int fs f = read_int_from_file fs f 0"

definition get_str :: "sysfs \<Rightarrow> string \<Rightarrow> string option" where
  "get_str fs f = read_str_from_file fs f 64"

interpretation str_file: value_store put_str get_str "\<lambda>fs f. \<not> sf_ro fs f"
  "\<lambda>s. length s < 64 \<and> CHR 0x00 \<notin> set s"
  by unfold_locales (auto simp: put_str_def get_str_def read_write_str fun_eq_iff read_str_other)

interpretation int_file: value_store put_int get_int "\<lambda>fs f. \<not> sf_ro fs f"
  "\<lambda>u. - (2 ^ 31) \<le> u \<and> u < 2 ^ 31"
proof unfold_locales
  fix fs :: sysfs and f :: string and v :: int
  assume "\<not> sf_ro fs f" "- (2 ^ 31) \<le> v \<and> v < (2 ^ 31 :: int)"
  then show "get_int (put_int fs f v) f = Some v" by (simp add: put_int_def get_int_def read_write_int)
qed (auto simp: put_int_def get_int_def fun_eq_iff read_int_other write_int_to_file_def)

end
