(* ===== verification/CFloat.thy ===== *)
theory CFloat
  imports Prelude Complex_Main
begin

text \<open>
  The floating-point arithmetic the C code uses: numbers are rationals, and every operation rounds
  its exact result to the nearest number with a 24-bit (\<^verbatim>\<open>float\<close>) or 53-bit (\<^verbatim>\<open>double\<close>)
  significand, ties to even. The temperatures and coefficients of the program stay far from the
  limits of the exponent, so overflow, denormal numbers and infinities do not occur; a division by
  zero is treated where it can happen.
\<close>

function ilog2 :: "int \<Rightarrow> int" where
  "ilog2 n = (if n < 2 then 0 else ilog2 (n div 2) + 1)"
  by pat_completeness auto
termination by (relation "measure nat") auto

declare ilog2.simps [simp del]

definition pow2 :: "int \<Rightarrow> rat" where
  "pow2 e = (if 0 \<le> e then 2 ^ nat e else 1 / 2 ^ nat (- e))"

definition round_even :: "rat \<Rightarrow> int" where
  "round_even x = (let f = \<lfloor>x\<rfloor>; d = x - of_int f in
     if d < 1 / 2 then f else if d > 1 / 2 then f + 1 else if even f then f else f + 1)"

text \<open>The binary exponent of a positive number is found from its numerator and denominator.\<close>

definition exponent :: "rat \<Rightarrow> int" where
  "exponent x = (case quotient_of x of (a, b) \<Rightarrow>
     let e = ilog2 a - ilog2 b in if x < pow2 e then e - 1 else e)"

definition fl :: "nat \<Rightarrow> rat \<Rightarrow> rat" where
  "fl p x = (if x = 0 then 0 else
     let u = pow2 (exponent \<bar>x\<bar> + 1 - int p) in
     sgn x * (of_int (round_even (\<bar>x\<bar> / u)) * u))"

abbreviation f32 :: "rat \<Rightarrow> rat" where "f32 \<equiv> fl 24"
abbreviation f64 :: "rat \<Rightarrow> rat" where "f64 \<equiv> fl 53"

text \<open>Conversion to an integer type discards the fraction.\<close>

definition c_trunc :: "rat \<Rightarrow> int" where
  "c_trunc x = (if 0 \<le> x then \<lfloor>x\<rfloor> else - \<lfloor>- x\<rfloor>)"

lemma round_even_int [simp]: "round_even (of_int n) = n"
  by (simp add: round_even_def)

lemma round_even_near: "\<bar>of_int (round_even x) - x\<bar> \<le> 1 / 2"
proof -
  have "of_int \<lfloor>x\<rfloor> \<le> x" "x < of_int \<lfloor>x\<rfloor> + 1" by linarith+
  then show ?thesis by (auto simp: round_even_def Let_def)
qed

lemma pow2_pos [simp]: "0 < pow2 e"
  by (simp add: pow2_def)

lemma fl_zero [simp]: "fl p 0 = 0"
  by (simp add: fl_def)

lemma fl_minus: "fl p (- x) = - fl p x"
  by (simp add: fl_def Let_def)

text \<open>Rounding moves a number by at most half a unit of its last place.\<close>

lemma fl_near: "\<bar>fl p x - x\<bar> \<le> pow2 (exponent \<bar>x\<bar> + 1 - int p) / 2"
proof (cases "x = 0")
  case False
  define u where "u = pow2 (exponent \<bar>x\<bar> + 1 - int p)"
  have u: "0 < u" by (simp add: u_def)
  have "fl p x - x = sgn x * (of_int (round_even (\<bar>x\<bar> / u)) * u - \<bar>x\<bar>)"
    using False by (simp add: fl_def u_def Let_def right_diff_distrib sgn_mult_abs)
  also have "\<bar>\<dots>\<bar> = \<bar>(of_int (round_even (\<bar>x\<bar> / u)) - \<bar>x\<bar> / u) * u\<bar>"
    using False u by (simp add: abs_mult abs_sgn_eq left_diff_distrib)
  also have "\<dots> = \<bar>of_int (round_even (\<bar>x\<bar> / u)) - \<bar>x\<bar> / u\<bar> * u"
    using u by (simp only: abs_mult abs_of_pos)
  also have "\<dots> \<le> 1 / 2 * u" using round_even_near [of "\<bar>x\<bar> / u"] u by (intro mult_right_mono) auto
  finally show ?thesis by (simp add: u_def)
qed (simp add: less_imp_le)

text \<open>The exponent is not too large, which bounds the rounding error of numbers of known size.\<close>

lemma pow2_powi: "pow2 e = 2 powi e"
  by (cases "0 \<le> e") (simp_all add: pow2_def power_int_def inverse_eq_divide power_one_over)

lemma pow2_add: "pow2 (a + b) = pow2 a * pow2 b"
  by (simp add: pow2_powi power_int_add)

lemma pow2_mono: "a \<le> b \<Longrightarrow> pow2 a \<le> pow2 b"
  by (simp add: pow2_powi power_int_increasing)

lemma pow2_le_iff: "pow2 a \<le> pow2 b \<longleftrightarrow> a \<le> b"
proof
  assume "pow2 a \<le> pow2 b"
  then show "a \<le> b" using power_int_strict_increasing [of b a "2 :: rat"] by (force simp: pow2_powi not_le [symmetric])
qed (rule pow2_mono)

lemma pow2_1 [simp]: "pow2 1 = 2" "pow2 0 = 1"
  by (simp_all add: pow2_def)

lemma ilog2_bounds: "0 < n \<Longrightarrow> 0 \<le> ilog2 n \<and> pow2 (ilog2 n) \<le> of_int n \<and> of_int n < pow2 (ilog2 n + 1)"
proof (induction n rule: ilog2.induct)
  case (1 n)
  show ?case
  proof (cases "n < 2")
    case True
    with 1 have "n = 1" by simp
    then show ?thesis by (simp add: ilog2.simps pow2_def)
  next
    case False
    define l where "l = ilog2 (n div 2)"
    have l: "0 \<le> l" "pow2 l \<le> of_int (n div 2)" "of_int (n div 2) < pow2 (l + 1)" "ilog2 n = l + 1"
      using 1 False by (simp_all add: l_def ilog2.simps [of n])
    define k where "k = nat l"
    then have k: "l = int k" using l(1) by simp
    have i: "(2 :: int) ^ k \<le> n div 2" "n div 2 < 2 ^ (k + 1)"
    proof -
      have "pow2 (l + 1) = of_int (2 ^ (k + 1))" "pow2 l = of_int (2 ^ k)" using k by (simp_all add: pow2_def nat_add_distrib)
      with l(2,3) show "(2 :: int) ^ k \<le> n div 2" "n div 2 < 2 ^ (k + 1)" by (simp_all only: of_int_le_iff of_int_less_iff)
    qed
    then have "(2 :: int) ^ (k + 1) \<le> n" "n < 2 ^ (k + 2)" by auto
    moreover have "pow2 (l + 1) = of_int (2 ^ (k + 1))" "pow2 (l + 1 + 1) = of_int (2 ^ (k + 2))"
      using k by (simp_all add: pow2_def nat_add_distrib)
    ultimately show ?thesis using l(1,4) by (simp only: of_int_le_iff of_int_less_iff) simp
  qed
qed

lemma exponent_le: "0 < x \<Longrightarrow> pow2 (exponent x) \<le> x"
proof -
  assume x: "0 < x"
  obtain a b where ab: "quotient_of x = (a, b)" by fastforce
  have b: "0 < b" using quotient_of_denom_pos [OF ab] .
  have xq: "x = of_int a / of_int b" using quotient_of_div [OF ab] .
  then have a: "0 < a" using x b by (simp add: zero_less_divide_iff)
  define e where "e = ilog2 a - ilog2 b"
  have "pow2 (ilog2 a) \<le> of_int a" "of_int b < pow2 (ilog2 b + 1)" using ilog2_bounds a b by blast+
  then have "pow2 (ilog2 a) / pow2 (ilog2 b + 1) \<le> of_int a / of_int b"
    using a b by (intro frac_le) (auto simp: less_imp_le)
  moreover have "pow2 (ilog2 a) = pow2 (e - 1) * pow2 (ilog2 b + 1)" by (simp add: pow2_add [symmetric] e_def)
  ultimately have "pow2 (e - 1) \<le> x" using xq pow2_pos [of "ilog2 b + 1"] by simp
  then show ?thesis by (simp add: exponent_def ab e_def [symmetric] Let_def)
qed

lemma fl_error: "\<bar>x\<bar> \<le> pow2 k \<Longrightarrow> \<bar>fl p x - x\<bar> \<le> pow2 (k - int p)"
proof (cases "x = 0")
  case False
  assume x: "\<bar>x\<bar> \<le> pow2 k"
  have "pow2 (exponent \<bar>x\<bar>) \<le> pow2 k" using exponent_le [of "\<bar>x\<bar>"] False x by simp
  then have "exponent \<bar>x\<bar> + 1 - int p \<le> k - int p + 1" by (simp add: pow2_le_iff)
  then have "pow2 (exponent \<bar>x\<bar> + 1 - int p) \<le> pow2 (k - int p + 1)" by (rule pow2_mono)
  also have "\<dots> = pow2 (k - int p) * 2" by (simp add: pow2_add)
  finally show ?thesis using fl_near [of p x] by simp
qed (simp add: less_imp_le)

section \<open>Decimal numbers in strings\<close>

text \<open>\<^verbatim>\<open>strtof\<close> and \<^verbatim>\<open>atof\<close> on decimal numbers: blanks, sign, digits, fraction, exponent. Hexadecimal
  numbers, infinities and NaNs are not recognised.\<close>

definition frac_val :: "string \<Rightarrow> rat" where
  "frac_val s = (let t = takeWhile c_isdigit s in of_int (fst (digits_val 0 t)) / 10 ^ length t)"

definition exp10 :: "string \<Rightarrow> rat" where
  "exp10 s = (case s of
       c # t \<Rightarrow> (case strip_sign t of (neg, u) \<Rightarrow>
          if (c = CHR ''e'' \<or> c = CHR ''E'') \<and> takeWhile c_isdigit u \<noteq> [] then
            (let k = nat (fst (digits_val 0 u)) in if neg then 1 / 10 ^ k else 10 ^ k)
          else 1)
     | [] \<Rightarrow> 1)"

definition strtod_exact :: "string \<Rightarrow> rat" where
  "strtod_exact s = (case strip_sign (dropWhile c_isspace s) of (neg, u) \<Rightarrow>
     (case digits_val 0 u of (v, r) \<Rightarrow>
        let (f, r) = (if take 1 r = ''.'' then (frac_val (drop 1 r), dropWhile c_isdigit (drop 1 r)) else (0, r));
            x = (of_int v + f) * exp10 r
        in if neg then - x else x))"

definition c_strtof :: "string \<Rightarrow> rat" where
  "c_strtof s = f32 (strtod_exact s)"

definition c_atof :: "string \<Rightarrow> rat" where
  "c_atof s = f64 (strtod_exact s)"

lemma float_examples:
  "c_atof ''2.5'' = 5 / 2" "c_strtof ''38'' = 38" "f32 (1 / 10) = 13421773 / 134217728" "c_trunc (- 7 / 2) = - 3"
  by code_simp+

end
