(* ===== verification/SysState.thy ===== *)
theory SysState
  imports Sysfs CFloat "HOL-Library.Monad_Syntax"
begin

text \<open>
  The state of \<^verbatim>\<open>sysctrl.c\<close>: its globals and the static variables of its functions in one record, the
  files it reads and writes, and the list of things it does to the outside (user scripts, mails, error
  log entries, requests to disks). The kernel and the other processes are the parameter record
  \<open>kernel\<close> over a state \<open>'w\<close>.
\<close>

section \<open>Data\<close>

datatype fan_mode = FAN_AUTO | FAN_ALWAYS_OFF | FAN_ALWAYS_SLOW | FAN_ALWAYS_FAST

datatype board = DNS_323_A1 | DNS_323_B1 | DNS_323_C1 | DNS_321_Ax | DNS_325_Ax | DNS_320_Ax | DNS_320_Bx
  | DNS_320L_Ax | DNS_327L_Ax | DNR_322L_Ax

datatype button = NO_BT | FRONT_BT | RESET_BT | USB_BT

text \<open>The configuration. A command is \<open>None\<close> for a null pointer.\<close>

record args_t =
  hist_temp :: rat
  lo_fan :: int
  hi_fan :: int
  lo_temp :: int
  hi_temp :: int
  disks_temp :: int
  mail :: int
  recovery :: int
  fan_off_temp :: int
  max_fan_speed :: int
  warn_temp :: int
  crit_temp :: int
  fan_mode :: fan_mode
  warn_temp_command :: "string option"
  crit_temp_command :: "string option"
  front_button_command1 :: "string option"
  front_button_command2 :: "string option"
  back_button_command :: "string option"

definition default_args :: args_t where
  "default_args = \<lparr>hist_temp = 2, lo_fan = 2000, hi_fan = 5000, lo_temp = 40, hi_temp = 50, disks_temp = 0,
     mail = 1, recovery = 1, fan_off_temp = 38, max_fan_speed = 6000, warn_temp = 52, crit_temp = 54,
     fan_mode = FAN_AUTO, warn_temp_command = None, crit_temp_command = Some ''/usr/sbin/poweroff'',
     front_button_command1 = None, front_button_command2 = None, back_button_command = None\<rparr>"

record disk_t =
  dk_dev :: "string option"
  dk_slot :: string
  rdwr_cnt :: u32
  last_access :: int
  spindow_time :: int
  power_state :: int

definition empty_disk :: disk_t where
  "empty_disk = \<lparr>dk_dev = None, dk_slot = [], rdwr_cnt = 0, last_access = 0, spindow_time = 0, power_state = 0\<rparr>"

definition NSLOTS :: nat where "NSLOTS = 3"
definition left_dev :: nat where "left_dev = 0"
definition right_dev :: nat where "right_dev = 1"
definition usb_dev :: nat where "usb_dev = 2"

definition left_led :: nat where "left_led = 0"
definition right_led :: nat where "right_led = 1"
definition usb_led :: nat where "usb_led = 2"
definition power_led :: nat where "power_led = 3"

definition default_leds :: "string option list" where
  "default_leds = [Some ''/tmp/sys/left_led/'', Some ''/tmp/sys/right_led/'', Some ''/tmp/sys/usb_led/'',
     Some ''/tmp/sys/power_led/'']"

definition PWM_OFF :: int where "PWM_OFF = 0"
definition PWM_LOW :: int where "PWM_LOW = 127"
definition PWM_FAST :: int where "PWM_FAST = 255"
definition RPM_OFF :: int where "RPM_OFF = 0"
definition RPM_LOW :: int where "RPM_LOW = 3000"
definition RPM_FAST :: int where "RPM_FAST = 6000"

definition NA :: int where "NA = -1"
definition LEDOFF :: int where "LEDOFF = 0"
definition LEDON :: int where "LEDON = 1"
definition LEDBLINK :: int where "LEDBLINK = 2"

definition PHIGH :: nat where "PHIGH = 0"
definition PMED :: nat where "PMED = 1"
definition PLOW :: nat where "PLOW = 2"

definition sys_pwm :: string where "sys_pwm = ''/tmp/sys/pwm1''"
definition sys_fan_input :: string where "sys_fan_input = ''/tmp/sys/fan1_input''"
definition sys_temp_input :: string where "sys_temp_input = ''/tmp/sys/temp1_input''"
definition sys_power_button :: string where "sys_power_button = ''/tmp/sys/power_button''"

section \<open>State\<close>

text \<open>What the program does to the outside.\<close>

datatype event =
    Script string "string option"       \<comment> \<open>a user script or command, and its argument\<close>
  | Mail string int rat int             \<comment> \<open>\<^verbatim>\<open>smail\<close>: kind, fan speed, temperature, limit\<close>
  | SysError string                     \<comment> \<open>a line of the system error log\<close>
  | FanLog int int int int              \<comment> \<open>a line of the fan log\<close>
  | Spindown string                     \<comment> \<open>the SCSI stop command\<close>
  | ExecReboot | ExecPoweroff

record 'w sysctl =
  world :: 'w
  fs :: sysfs
  args :: args_t
  board :: board
  leds :: "string option list"
  nslots :: nat
  disks :: "disk_t list"
  ndisks :: int
  leds_pqueue :: "int list"
  err_state :: int              \<comment> \<open>\<^verbatim>\<open>leds_state\<close> of \<^verbatim>\<open>check_syserrlog\<close>\<close>
  f_temp :: rat                 \<comment> \<open>static variables of \<^verbatim>\<open>fanctl\<close>\<close>
  f_log_temp :: rat
  f_warn :: int
  f_crit :: int
  f_log_fan :: int
  last_degraded :: int          \<comment> \<open>static variables of \<^verbatim>\<open>md_stat\<close>\<close>
  degraded :: "int list"
  b_bt :: int                   \<comment> \<open>the last button of \<^verbatim>\<open>debounce\<close>\<close>
  b_fd :: bool                  \<comment> \<open>whether \<^verbatim>\<open>button\<close> has the input device open\<close>
  events :: "event list"

definition emit :: "event \<Rightarrow> 'w sysctl \<Rightarrow> 'w sysctl" where
  "emit e s = s\<lparr>events := events s @ [e]\<rparr>"

text \<open>A failing \<^verbatim>\<open>ioctl\<close>, by its error: \<^verbatim>\<open>EIO\<close> or another one.\<close>

datatype ioctl_error = E_IO | E_other

text \<open>
  \<open>k_stat\<close>: owner, mode bits and size of a file, if it exists. \<open>k_powermode\<close>: the \<^verbatim>\<open>HDIO_DRIVE_CMD\<close>
  ioctl with a first command byte, and the resulting four bytes. \<open>k_event\<close>: a read from the input
  device, which delivers whole events (type, code and value), \<open>Inl True\<close> for \<^verbatim>\<open>EAGAIN\<close>. \<open>k_hddtemp\<close>: what a connection
  to the hddtemp server delivers, empty for an error. \<open>k_mkdir\<close> and \<open>k_rmdir\<close>: making (with success or
  not) and removing the lock directory. \<open>k_pid\<close> and \<open>k_alive\<close>: \<^verbatim>\<open>getpid\<close>, and \<^verbatim>\<open>kill(pid, 0)\<close>.
  \<open>k_uninit\<close>: the value of an uninitialised integer.
\<close>

record 'w kernel =
  k_stat :: "string \<Rightarrow> 'w \<Rightarrow> (int \<times> nat \<times> nat) option"
  k_time :: "'w \<Rightarrow> int \<times> 'w"
  k_open_disk :: "string \<Rightarrow> 'w \<Rightarrow> bool"
  k_powermode :: "string \<Rightarrow> byte list \<Rightarrow> 'w \<Rightarrow> (ioctl_error option \<times> byte list) \<times> 'w"
  k_open_input :: "'w \<Rightarrow> bool"
  k_event :: "'w \<Rightarrow> (bool + int \<times> int \<times> int) \<times> 'w"
  k_hddtemp :: "'w \<Rightarrow> string \<times> 'w"
  k_mkdir :: "'w \<Rightarrow> bool \<times> 'w"
  k_rmdir :: "'w \<Rightarrow> 'w"
  k_pid :: "'w \<Rightarrow> int"
  k_alive :: "int \<Rightarrow> 'w \<Rightarrow> bool"
  k_uninit :: "'w \<Rightarrow> int"

definition syserrorlog :: "string \<Rightarrow> 'w sysctl \<Rightarrow> 'w sysctl" where
  "syserrorlog msg s = emit (SysError msg) s"

definition exec_userscript :: "string option \<Rightarrow> string option \<Rightarrow> 'w sysctl \<Rightarrow> 'w sysctl" where
  "exec_userscript script arg s = (case script of None \<Rightarrow> s
     | Some c \<Rightarrow> if c = [] then s else emit (Script c arg) s)"

lemma emit_frame [simp, frame]:
  "fs (emit e s) = fs s" "args (emit e s) = args s" "board (emit e s) = board s" "leds (emit e s) = leds s"
  "nslots (emit e s) = nslots s" "disks (emit e s) = disks s" "ndisks (emit e s) = ndisks s"
  "leds_pqueue (emit e s) = leds_pqueue s" "world (emit e s) = world s" "events (emit e s) = events s @ [e]"
  "f_temp (emit e s) = f_temp s" "f_warn (emit e s) = f_warn s" "f_crit (emit e s) = f_crit s"
  "f_log_temp (emit e s) = f_log_temp s" "f_log_fan (emit e s) = f_log_fan s"
  "last_degraded (emit e s) = last_degraded s" "degraded (emit e s) = degraded s" "err_state (emit e s) = err_state s"
  "b_bt (emit e s) = b_bt s" "b_fd (emit e s) = b_fd s"
  by (simp_all add: emit_def)

text \<open>The state at the start of \<^verbatim>\<open>main\<close>: static initialisers, and disks taken to be active.\<close>

definition sys_init :: "'w \<Rightarrow> sysfs \<Rightarrow> 'w sysctl" where
  "sys_init w f = \<lparr>world = w, fs = f, args = default_args, board = DNS_323_A1, leds = default_leds,
     nslots = NSLOTS, disks = replicate NSLOTS (empty_disk\<lparr>power_state := 1\<rparr>), ndisks = 0,
     leds_pqueue = [LEDOFF, LEDOFF, LEDOFF], err_state = 0, f_temp = 0, f_log_temp = 0, f_warn = 0, f_crit = 0,
     f_log_fan = 0, last_degraded = 0, degraded = replicate 10 0, b_bt = 0, b_fd = False, events = []\<rparr>"

text \<open>A machine at rest, for the examples: the time is the state of the world, no input, no files.\<close>

definition still_kernel :: "int kernel" where
  "still_kernel = \<lparr>k_stat = (\<lambda>_ _. None), k_time = (\<lambda>w. (w, w)), k_open_disk = (\<lambda>_ _. False),
     k_powermode = (\<lambda>_ b w. ((Some E_other, b), w)), k_open_input = (\<lambda>_. True), k_event = (\<lambda>w. (Inl True, w)),
     k_hddtemp = (\<lambda>w. ([], w)), k_mkdir = (\<lambda>w. (True, w)), k_rmdir = (\<lambda>w. w), k_pid = (\<lambda>_. 1),
     k_alive = (\<lambda>_ _. False), k_uninit = (\<lambda>_. 0)\<rparr>"

definition no_files :: sysfs where
  "no_files = \<lparr>sf_files = (\<lambda>_. None), sf_ro = (\<lambda>_. False)\<rparr>"

end
