(* ===== verification/SysConfig.thy ===== *)
theory SysConfig
  imports SysState
begin

text \<open>
  Configuration of \<^verbatim>\<open>sysctrl.c\<close>: the board (\<^verbatim>\<open>check_board\<close>), the options of \<^verbatim>\<open>/etc/sysctrl.conf\<close>
  (\<^verbatim>\<open>trim\<close>, \<^verbatim>\<open>checkfile\<close>, \<^verbatim>\<open>config\<close>, \<^verbatim>\<open>read_config\<close>), the spin-down times of \<^verbatim>\<open>/etc/misc.conf\<close>
  (\<^verbatim>\<open>read_misc\<close>) and the disks of \<^verbatim>\<open>/etc/bay\<close> (\<^verbatim>\<open>read_bay\<close>). \<open>None\<close> is undefined behaviour.
\<close>

section \<open>The board\<close>

text \<open>What a board name means: the board, whether it lacks the usb led, its number of slots, and the
  defaults it changes.\<close>

definition board_table :: "(string \<times> board \<times> bool \<times> nat \<times> (args_t \<Rightarrow> args_t)) list" where
  "board_table = [
     (''DNS-323-A1'', DNS_323_A1, True, NSLOTS, \<lambda>a. a),
     (''DNS-323-B1'', DNS_323_B1, True, NSLOTS, \<lambda>a. a),
     (''DNS-323-C1'', DNS_323_C1, True, NSLOTS, \<lambda>a. a\<lparr>lo_temp := 45\<rparr>),
     (''DNS-321-Ax'', DNS_321_Ax, True, 2, \<lambda>a. a\<lparr>lo_temp := 45\<rparr>),
     (''DNS-325-Ax'', DNS_325_Ax, False, NSLOTS, \<lambda>a. a\<lparr>lo_temp := 45\<rparr>),
     (''DNS-320-Ax'', DNS_320_Ax, False, NSLOTS, \<lambda>a. a\<lparr>lo_temp := 45, fan_mode := FAN_ALWAYS_SLOW\<rparr>),
     (''DNS-320L-Ax'', DNS_320L_Ax, False, NSLOTS, \<lambda>a. a\<lparr>lo_temp := 45, fan_mode := FAN_ALWAYS_SLOW\<rparr>),
     (''DNS-320-Bx'', DNS_320_Bx, False, NSLOTS, \<lambda>a. a\<lparr>lo_temp := 45, fan_mode := FAN_ALWAYS_SLOW\<rparr>),
     (''DNS-327L-Ax'', DNS_327L_Ax, True, NSLOTS, \<lambda>a. a\<lparr>lo_temp := 45, fan_mode := FAN_ALWAYS_SLOW\<rparr>),
     (''DNR-322L-Ax'', DNR_322L_Ax, False, NSLOTS, \<lambda>a. a\<lparr>lo_temp := 45, fan_mode := FAN_ALWAYS_SLOW\<rparr>)]"

text \<open>\<^verbatim>\<open>check_board\<close>; the flag says whether the program goes on (otherwise it exits).\<close>

definition check_board :: "'w sysctl \<Rightarrow> 'w sysctl \<times> bool" where
  "check_board s = (case read_str_from_file (fs s) ''/tmp/board'' 64 of
     None \<Rightarrow> (syserrorlog ''Can't read /tmp/board, exiting'' s, False)
   | Some res \<Rightarrow> (case map_of board_table res of
       None \<Rightarrow> (syserrorlog (''Hardware board '' @ res @ '' not supported, exiting.'') s, False)
     | Some (b, no_usb_led, n, f) \<Rightarrow>
         (s\<lparr>board := b, leds := (if no_usb_led then (leds s)[usb_led := None] else leds s), nslots := n,
            args := f (args s)\<rparr>, True)))"

section \<open>\<^verbatim>\<open>/etc/sysctrl.conf\<close>\<close>

text \<open>\<^verbatim>\<open>trim\<close>: the string without blanks at both ends, and then without a pair of quotes.\<close>

definition trim_blanks :: "string \<Rightarrow> string" where
  "trim_blanks s = rev (dropWhile c_isspace (rev (dropWhile c_isspace s)))"

definition trim :: "string \<Rightarrow> string" where
  "trim s = (let t = trim_blanks s in
     if t \<noteq> [] \<and> hd t = CHR 0x22 \<and> last t = CHR 0x22 then butlast (tl t) else t)"

text \<open>Only files of root that it can execute and nobody else can write are run.\<close>

definition checkfile :: "'w kernel \<Rightarrow> 'w \<Rightarrow> string option \<Rightarrow> string option" where
  "checkfile K w fname = (case fname of None \<Rightarrow> None
     | Some f \<Rightarrow> if f = [] then None
         else (case k_stat K f w of None \<Rightarrow> None
           | Some (uid, mode, _) \<Rightarrow>
               if uid \<noteq> 0 \<or> \<not> bit mode 6 \<or> bit mode 4 \<or> bit mode 1 then None else Some f))"

definition fan_mode_of :: "int \<Rightarrow> fan_mode" where
  "fan_mode_of n = (if n = 1 then FAN_ALWAYS_OFF else if n = 2 then FAN_ALWAYS_SLOW
     else if n = 3 then FAN_ALWAYS_FAST else FAN_AUTO)"

text \<open>\<^verbatim>\<open>config\<close>; an unknown option is only logged. \<open>chk\<close> is \<^verbatim>\<open>checkfile(strdup(v))\<close>.\<close>

definition config :: "(string \<Rightarrow> string option) \<Rightarrow> string \<Rightarrow> string \<Rightarrow> args_t \<Rightarrow> args_t" where
  "config chk n v a =
     (if n = ''lo_fan'' then a\<lparr>lo_fan := c_atoi v\<rparr>
      else if n = ''hi_fan'' then a\<lparr>hi_fan := c_atoi v\<rparr>
      else if n = ''lo_temp'' then a\<lparr>lo_temp := c_atoi v\<rparr>
      else if n = ''hi_temp'' then a\<lparr>hi_temp := c_atoi v\<rparr>
      else if n = ''hist_temp'' then a\<lparr>hist_temp := f32 (c_atof v)\<rparr>
      else if n = ''disks_temp'' then a\<lparr>disks_temp := c_atoi v\<rparr>
      else if n = ''fan_mode'' then a\<lparr>fan_mode := fan_mode_of (c_atoi v)\<rparr>
      else if n = ''fan_off_temp'' then a\<lparr>fan_off_temp := c_atoi v\<rparr>
      else if n = ''max_fan_speed'' then a\<lparr>max_fan_speed := c_atoi v\<rparr>
      else if n = ''crit_temp'' then a\<lparr>crit_temp := c_atoi v\<rparr>
      else if n = ''warn_temp'' then a\<lparr>warn_temp := c_atoi v\<rparr>
      else if n = ''mail'' then a\<lparr>mail := c_atoi v\<rparr>
      else if n = ''recovery'' then a\<lparr>recovery := c_atoi v\<rparr>
      else if n = ''crit_temp_command'' then a\<lparr>crit_temp_command := chk v\<rparr>
      else if n = ''warn_temp_command'' then a\<lparr>warn_temp_command := chk v\<rparr>
      else if n = ''front_button_command1'' then a\<lparr>front_button_command1 := chk v\<rparr>
      else if n = ''front_button_command2'' then a\<lparr>front_button_command2 := chk v\<rparr>
      else if n = ''back_button_command'' then a\<lparr>back_button_command := chk v\<rparr>
      else a)"

text \<open>One line, as \<^verbatim>\<open>fgets\<close> delivered it. Without an equals sign the null pointer \<^verbatim>\<open>v\<close> is incremented and
  dereferenced by \<^verbatim>\<open>trim\<close>.\<close>

definition config_line :: "'w kernel \<Rightarrow> string \<Rightarrow> 'w sysctl \<Rightarrow> 'w sysctl option" where
  "config_line K line s = (let str = takeWhile (\<lambda>c. c \<noteq> CHR ''#'') (c_string line) in
     if list_all c_isspace str then Some s
     else if CHR ''='' \<notin> set str then None
     else (let n = trim (takeWhile (\<lambda>c. c \<noteq> CHR ''='') str);
               v = trim (tl (dropWhile (\<lambda>c. c \<noteq> CHR ''='') str)) in
       Some (s\<lparr>args := config (\<lambda>v. checkfile K (world s) (Some v)) n v (args s)\<rparr>)))"

fun config_lines :: "'w kernel \<Rightarrow> string list \<Rightarrow> 'w sysctl \<Rightarrow> 'w sysctl option" where
  "config_lines K [] s = Some s"
| "config_lines K (l # ls) s = (case config_line K l s of None \<Rightarrow> None | Some s \<Rightarrow> config_lines K ls s)"

definition read_config :: "'w kernel \<Rightarrow> 'w sysctl \<Rightarrow> 'w sysctl option" where
  "read_config K s = (case sf_files (fs s) ''/etc/sysctrl.conf'' of None \<Rightarrow> Some s
     | Some text \<Rightarrow> config_lines K (fgets_lines 127 text) s)"

section \<open>\<^verbatim>\<open>/etc/misc.conf\<close> and \<^verbatim>\<open>/etc/bay\<close>\<close>

text \<open>A line \<^verbatim>\<open>name=value\<close> as \<^verbatim>\<open>strtok\<close> splits it; the third part is what follows the name in the buffer.\<close>

definition split_assignment :: "string \<Rightarrow> (string \<times> string \<times> string) option" where
  "split_assignment line = (case c_strtok (\<lambda>c. c = CHR ''='') (c_string line) of None \<Rightarrow> None
     | Some (cmd, rest) \<Rightarrow> (case c_strtok (\<lambda>c. c = CHR 0x0A) rest of None \<Rightarrow> None
         | Some (val, _) \<Rightarrow> Some (cmd, val, rest)))"

definition set_disk :: "nat \<Rightarrow> (disk_t \<Rightarrow> disk_t) \<Rightarrow> 'w sysctl \<Rightarrow> 'w sysctl" where
  "set_disk i f s = s\<lparr>disks := (disks s)[i := f (disks s ! i)]\<rparr>"

text \<open>\<open>sl\<close> keeps its value when a line has no number; the product is computed as an \<^verbatim>\<open>int\<close>.\<close>

fun misc_lines :: "string list \<Rightarrow> int \<Rightarrow> 'w sysctl \<Rightarrow> 'w sysctl option" where
  "misc_lines [] sl s = Some s"
| "misc_lines (l # ls) sl s = (case split_assignment l of None \<Rightarrow> misc_lines ls sl s
     | Some (cmd, val, _) \<Rightarrow>
        let sl = scan_int val sl;
            slot = (if cmd = ''HDSLEEP_LEFT'' then Some left_dev else if cmd = ''HDSLEEP_RIGHT'' then Some right_dev
                    else if cmd = ''HDSLEEP_USB'' then Some usb_dev else None) in
        (case slot of None \<Rightarrow> misc_lines ls sl s
         | Some i \<Rightarrow> if sl * 60 < - (2 ^ 31) \<or> 2 ^ 31 \<le> sl * 60 then None
             else misc_lines ls sl (set_disk i (\<lambda>d. d\<lparr>spindow_time := sl * 60\<rparr>) s)))"

definition read_misc :: "'w kernel \<Rightarrow> 'w sysctl \<Rightarrow> 'w sysctl option" where
  "read_misc K s = (case sf_files (fs s) ''/etc/misc.conf'' of
     None \<Rightarrow> Some (syserrorlog ''can't open /etc/misc.conf'' s)
   | Some text \<Rightarrow> misc_lines (fgets_lines 255 text) (k_uninit K (world s))
       (s\<lparr>disks := List.map (\<lambda>d. d\<lparr>spindow_time := 0\<rparr>) (take (nslots s) (disks s)) @ drop (nslots s) (disks s)\<rparr>))"

text \<open>The usb name is tested from its fifth character on, which for the name \<^verbatim>\<open>usb\<close> itself lies behind the
  terminator, in the value.\<close>

definition usb_name :: "string \<Rightarrow> string \<Rightarrow> bool" where
  "usb_name opt rest \<longleftrightarrow> take 3 opt = ''usb'' \<and> take 4 (c_string (drop 4 (opt @ CHR 0x00 # rest))) = ''_dev''"

definition bay_line :: "string \<Rightarrow> 'w sysctl \<Rightarrow> 'w sysctl" where
  "bay_line l s = (case split_assignment l of None \<Rightarrow> s
     | Some (opt, dev, rest) \<Rightarrow>
        let found = (\<lambda>i slot. (set_disk i (\<lambda>d. d\<lparr>dk_dev := Some dev, dk_slot := slot\<rparr>) s)\<lparr>ndisks := ndisks s + 1\<rparr>) in
        if opt = ''left_dev'' then found left_dev ''left''
        else if opt = ''right_dev'' then found right_dev ''right''
        else if usb_name opt rest then found usb_dev ''usb''
        else s)"

definition read_bay :: "'w sysctl \<Rightarrow> 'w sysctl" where
  "read_bay s = (case sf_files (fs s) ''/etc/bay'' of
     None \<Rightarrow> syserrorlog ''can't open /etc/bay'' s
   | Some text \<Rightarrow> fold bay_line (fgets_lines 255 text)
       (s\<lparr>disks := List.map (\<lambda>d. d\<lparr>dk_dev := None\<rparr>) (take (nslots s) (disks s)) @ drop (nslots s) (disks s),
          ndisks := 0\<rparr>))"

text \<open>The reaction to \<^verbatim>\<open>SIGHUP\<close>, and to changes of the files (\<^verbatim>\<open>inotify_handler\<close>), with the files that changed.\<close>

definition sighup_handler :: "'w kernel \<Rightarrow> 'w sysctl \<Rightarrow> 'w sysctl option" where
  "sighup_handler K s = do { s \<leftarrow> read_config K s; read_misc K (read_bay s) }"

definition inotify_handler :: "'w kernel \<Rightarrow> bool \<Rightarrow> bool \<Rightarrow> bool \<Rightarrow> 'w sysctl \<Rightarrow> 'w sysctl option" where
  "inotify_handler K miscf bayf conff s = do {
     s \<leftarrow> Some (if bayf then read_bay s else s);
     s \<leftarrow> (if miscf then read_misc K s else Some s);
     (if conff then read_config K s else Some s) }"

end
