(* ===== verification/SysConfigProps.thy ===== *)
theory SysConfigProps
  imports SysConfig
begin

text \<open>
  Properties of the configuration: a file of assignments sets exactly those options, a line without an
  equals sign is undefined behaviour, and no command gets into the configuration that other users could
  have tampered with.
\<close>

section \<open>Trimming\<close>

text \<open>A plain word is not empty, has no blank at its ends, and is not in quotes.\<close>

definition plain :: "string \<Rightarrow> bool" where
  "plain s \<longleftrightarrow> s \<noteq> [] \<and> \<not> c_isspace (hd s) \<and> \<not> c_isspace (last s) \<and> hd s \<noteq> CHR 0x22 \<and>
     CHR ''#'' \<notin> set s \<and> CHR 0x00 \<notin> set s \<and> CHR 0x0A \<notin> set s"

lemma dropWhile_blanks: "\<forall>c \<in> set b. P c \<Longrightarrow> dropWhile P (b @ s) = dropWhile P s"
  by (induction b) auto

lemma dropWhile_plain: "s \<noteq> [] \<Longrightarrow> \<not> P (hd s) \<Longrightarrow> dropWhile P (s @ t) = s @ t"
  by (cases s) auto

lemma trim_plain:
  assumes "plain s" "\<forall>c \<in> set b. c_isspace c" "\<forall>c \<in> set a. c_isspace c"
  shows "trim (b @ s @ a) = s"
proof -
  have s: "s \<noteq> []" "\<not> c_isspace (hd s)" "\<not> c_isspace (last s)" using assms(1) by (auto simp: plain_def)
  have "dropWhile c_isspace (b @ s @ a) = s @ a"
    using assms(2) s by (simp add: dropWhile_blanks dropWhile_plain)
  moreover have "dropWhile c_isspace (rev a @ rev s) = rev s"
    using assms(3) s dropWhile_plain [of "rev s" c_isspace "[]"] by (simp add: dropWhile_blanks hd_rev)
  ultimately have "trim_blanks (b @ s @ a) = s" by (simp add: trim_blanks_def)
  with assms(1) show ?thesis by (simp add: trim_def plain_def)
qed

section \<open>Assignments\<close>

definition assignment :: "string \<times> string \<Rightarrow> string" where
  "assignment nv = fst nv @ '' = '' @ snd nv @ [CHR 0x0A]"

definition assignable :: "string \<times> string \<Rightarrow> bool" where
  "assignable nv \<longleftrightarrow> plain (fst nv) \<and> CHR ''='' \<notin> set (fst nv) \<and> plain (snd nv) \<and>
     length (fst nv) + length (snd nv) + 4 \<le> 127"

lemma assignment_is_line: "assignable nv \<Longrightarrow> is_line 127 (assignment nv)"
  by (auto simp: assignable_def assignment_def is_line_def plain_def butlast_append)

lemma takeWhile_all: "\<forall>c \<in> set s. P c \<Longrightarrow> takeWhile P (s @ t) = s @ takeWhile P t"
  by (induction s) auto

lemma config_line_assignment:
  assumes "assignable (n, v)"
  shows "config_line K (assignment (n, v)) s =
    Some (s\<lparr>args := config (\<lambda>v. checkfile K (world s) (Some v)) n v (args s)\<rparr>)"
proof -
  have p: "plain n" "CHR ''='' \<notin> set n" "plain v" using assms by (auto simp: assignable_def)
  define l where "l = assignment (n, v)"
  have all: "CHR 0x00 \<notin> set l" "CHR ''#'' \<notin> set l" "CHR ''='' \<in> set l"
    using p by (auto simp: l_def assignment_def plain_def)
  have str: "takeWhile (\<lambda>c. c \<noteq> CHR ''#'') (c_string l) = l"
  proof -
    have "c_string l = l" using all(1) by (auto simp: c_string_def takeWhile_eq_all_conv)
    with all(2) show ?thesis by (auto simp: takeWhile_eq_all_conv)
  qed
  have nb: "\<not> list_all c_isspace l"
    using p(1) by (cases n) (auto simp: l_def assignment_def plain_def)
  have tw: "takeWhile (\<lambda>c. c \<noteq> CHR ''='') l = n @ '' ''"
  proof -
    have "takeWhile (\<lambda>c. c \<noteq> CHR ''='') (n @ t) = n @ takeWhile (\<lambda>c. c \<noteq> CHR ''='') t" for t
      by (rule takeWhile_all) (use p(2) in auto)
    then show ?thesis by (simp add: l_def assignment_def)
  qed
  have dw: "dropWhile (\<lambda>c. c \<noteq> CHR ''='') l = ''= '' @ v @ [CHR 0x0A]"
    using tw takeWhile_dropWhile_id [of "\<lambda>c. c \<noteq> CHR ''=''" l] by (simp add: l_def assignment_def)
  have tn: "trim (n @ '' '') = n" using trim_plain [OF p(1), of "[]" "'' ''"] by (simp add: c_isspace_def)
  have tv: "trim ('' '' @ v @ [CHR 0x0A]) = v"
    using trim_plain [OF p(3), of "'' ''" "[CHR 0x0A]"] by (simp add: c_isspace_def)
  show ?thesis using all(3) nb tn tv unfolding l_def [symmetric] by (simp add: config_line_def Let_def str tw dw)
qed

lemma config_lines_assignments:
  "\<forall>nv \<in> set nvs. assignable nv \<Longrightarrow>
   config_lines K (List.map assignment nvs) s =
     Some (s\<lparr>args := fold (\<lambda>(n, v). config (\<lambda>v. checkfile K (world s) (Some v)) n v) nvs (args s)\<rparr>)"
proof (induction nvs arbitrary: s)
  case (Cons nv nvs)
  obtain n v where nv: "nv = (n, v)" by (cases nv)
  show ?case using Cons nv config_line_assignment [of n v K s] by simp
qed simp

lemma config_roundtrip_rule:
  assumes "\<forall>nv \<in> set nvs. assignable nv"
    and "sf_files (fs s) ''/etc/sysctrl.conf'' = Some (concat (List.map assignment nvs))"
  shows "read_config K s =
     Some (s\<lparr>args := fold (\<lambda>(n, v). config (\<lambda>v. checkfile K (world s) (Some v)) n v) nvs (args s)\<rparr>)"
proof -
  have "\<forall>l \<in> set (List.map assignment nvs). is_line 127 l" using assms(1) assignment_is_line by auto
  from fgets_lines_concat [OF this] show ?thesis
    using assms by (simp add: read_config_def config_lines_assignments)
qed

text \<open>Claim C37. Reading back a configuration. For a file with one line \<open>name = value\<close> per option, with plain
  names and values that fit the line buffer, \<^verbatim>\<open>read_config\<close> applies exactly these options in their order and
  changes nothing else.\<close>

theorem read_config_roundtrip:
  assumes "\<forall>nv \<in> set nvs. assignable nv"
    and "sf_files (fs s) ''/etc/sysctrl.conf'' = Some (concat (List.map assignment nvs))"
  shows "read_config K s =
     Some (s\<lparr>args := fold (\<lambda>(n, v). config (\<lambda>v. checkfile K (world s) (Some v)) n v) nvs (args s)\<rparr>)"
  using assms by (rule config_roundtrip_rule)

text \<open>A line without an equals sign. After its error message \<^verbatim>\<open>read_config\<close> goes on and
  dereferences a null pointer: whatever precedes it, a line that is neither blank nor a comment and has no
  equals sign before its comment ends in undefined behaviour.\<close>

theorem read_config_no_equals:
  assumes "\<forall>l \<in> set ls. is_line 127 l" "is_line 127 l"
    and "\<not> list_all c_isspace (takeWhile (\<lambda>c. c \<noteq> CHR ''#'') (c_string l))"
    and "CHR ''='' \<notin> set (takeWhile (\<lambda>c. c \<noteq> CHR ''#'') (c_string l))"
    and "sf_files (fs s) ''/etc/sysctrl.conf'' = Some (concat (ls @ l # rest))" "\<forall>l \<in> set rest. is_line 127 l"
  shows "read_config K s = None"
proof -
  have "fgets_lines 127 (concat (ls @ l # rest)) = ls @ l # rest"
    by (rule fgets_lines_concat) (use assms in auto)
  moreover have "config_line K l s = None" for s using assms(3,4) by (simp add: config_line_def Let_def)
  then have "config_lines K (ls @ l # rest) s = None" for s
    by (induction ls arbitrary: s) (auto split: option.split)
  ultimately show ?thesis using assms(5) by (simp add: read_config_def)
qed

section \<open>Commands\<close>

text \<open>A command that may be run: the default one, or a file that passed \<^verbatim>\<open>checkfile\<close>.\<close>

definition trusted :: "'w kernel \<Rightarrow> 'w \<Rightarrow> string option \<Rightarrow> bool" where
  "trusted K w c \<longleftrightarrow> (case c of None \<Rightarrow> True
     | Some f \<Rightarrow> f = ''/usr/sbin/poweroff'' \<or> (\<exists>mode sz. k_stat K f w = Some (0, mode, sz) \<and> bit mode 6 \<and> \<not> bit mode 4 \<and> \<not> bit mode 1))"

definition all_trusted :: "'w kernel \<Rightarrow> 'w \<Rightarrow> args_t \<Rightarrow> bool" where
  "all_trusted K w a \<longleftrightarrow> (\<forall>c \<in> {warn_temp_command a, crit_temp_command a, front_button_command1 a,
     front_button_command2 a, back_button_command a}. trusted K w c)"

lemma checkfile_trusted: "trusted K w (checkfile K w c)"
  by (auto simp: trusted_def checkfile_def split: option.split prod.split)

lemma config_trusted:
  "all_trusted K w a \<Longrightarrow> all_trusted K w (config (\<lambda>v. checkfile K w (Some v)) n v a)"
  using checkfile_trusted [of K w "Some v"] by (simp add: config_def all_trusted_def)

lemma config_lines_trusted:
  "config_lines K ls s = Some s' \<Longrightarrow> all_trusted K (world s) (args s) \<Longrightarrow>
   world s' = world s \<and> all_trusted K (world s) (args s')"
proof (induction K ls s rule: config_lines.induct)
  case (2 K l ls s)
  then obtain s1 where s1: "config_line K l s = Some s1" "config_lines K ls s1 = Some s'"
    by (auto split: option.splits)
  then have "world s1 = world s \<and> all_trusted K (world s) (args s1)"
    using 2(3) config_trusted by (auto simp: config_line_def Let_def split: if_splits)
  with 2(1) s1 show ?case by auto
qed simp

text \<open>Claim C31. Trusted commands. Whatever \<^verbatim>\<open>/etc/sysctrl.conf\<close> contains, after \<^verbatim>\<open>read_config\<close> every command
  of the configuration is the default one or a file that belongs to root, is executable, and is not writable
  for group or others.\<close>

theorem read_config_trusted:
  assumes "read_config K s = Some s'" "all_trusted K (world s) (args s)"
  shows "all_trusted K (world s') (args s')"
  using assms config_lines_trusted [of K _ s s'] by (auto simp: read_config_def split: option.splits)

section \<open>Examples\<close>

definition with_conf :: "string \<Rightarrow> int sysctl" where
  "with_conf text = sys_init 0 (no_files\<lparr>sf_files := (sf_files no_files)(''/etc/sysctrl.conf'' \<mapsto> text)\<rparr>)"

lemma with_conf_file [simp]: "sf_files (fs (with_conf text)) ''/etc/sysctrl.conf'' = Some text"
  by (simp add: with_conf_def sys_init_def)

lemma read_config_roundtrip_witness:
  "read_config still_kernel (with_conf (concat (List.map assignment [(''lo_temp'', ''41''), (''mail'', ''0'')]))) =
     Some (let s = with_conf (concat (List.map assignment [(''lo_temp'', ''41''), (''mail'', ''0'')])) in
       s\<lparr>args := fold (\<lambda>(n, v). config (\<lambda>v. checkfile still_kernel (world s) (Some v)) n v)
           [(''lo_temp'', ''41''), (''mail'', ''0'')] (args s)\<rparr>)"
  unfolding Let_def
  by (rule read_config_roundtrip) (auto simp: assignable_def plain_def c_isspace_def)

lemma read_config_no_equals_witness:
  "read_config still_kernel (with_conf (concat ([] @ (''lo_temp 41'' @ [CHR 0x0A]) # []))) = None"
  by (rule read_config_no_equals [where ls = "[]" and rest = "[]" and l = "''lo_temp 41'' @ [CHR 0x0A]"])
     (simp_all add: is_line_def c_string_def c_isspace_def)

lemma read_config_trusted_witness:
  "\<exists>s'. read_config still_kernel (with_conf (assignment (''back_button_command'', ''/bin/x''))) = Some s' \<and>
     all_trusted still_kernel (world s') (args s')"
proof -
  let ?s = "with_conf (concat (List.map assignment [(''back_button_command'', ''/bin/x'')]))"
  have r: "read_config still_kernel ?s = Some (?s\<lparr>args := fold (\<lambda>(n, v). config (\<lambda>v. checkfile still_kernel (world ?s) (Some v)) n v)
           [(''back_button_command'', ''/bin/x'')] (args ?s)\<rparr>)"
    by (rule config_roundtrip_rule) (auto simp: assignable_def plain_def c_isspace_def)
  have "all_trusted still_kernel (world ?s) (args ?s)"
    by (simp add: all_trusted_def trusted_def with_conf_def sys_init_def default_args_def)
  from read_config_trusted [OF r this] r show ?thesis by simp
qed

end
