(* ===== verification/SysDisks.thy ===== *)
theory SysDisks
  imports SysState
begin

text \<open>
  The leds, the disks and the RAID arrays of \<^verbatim>\<open>sysctrl.c\<close>: \<^verbatim>\<open>led_set\<close>, \<^verbatim>\<open>led_get\<close>, \<^verbatim>\<open>led_blink\<close>, the led
  queue (\<^verbatim>\<open>leds_set\<close>, \<^verbatim>\<open>leds_proc\<close>), the error log led (\<^verbatim>\<open>check_syserrlog\<close>), the power state of the
  disks (\<^verbatim>\<open>check_powermode\<close>, \<^verbatim>\<open>dstat\<close>, \<^verbatim>\<open>hdd_powercheck\<close>) and the RAID status (\<^verbatim>\<open>md_stat\<close>). \<open>None\<close> is
  undefined behaviour: an overrun buffer or the use of an uninitialised string.
\<close>

section \<open>Leds\<close>

definition syswrite :: "string \<Rightarrow> string \<Rightarrow> 'w sysctl \<Rightarrow> 'w sysctl" where
  "syswrite fname v s = s\<lparr>fs := fst (write_str_to_file (fs s) fname v)\<rparr>"

definition led_set :: "nat \<Rightarrow> string \<Rightarrow> 'w sysctl \<Rightarrow> 'w sysctl" where
  "led_set which mode s = (case leds s ! which of None \<Rightarrow> s
     | Some l \<Rightarrow> syswrite (l @ ''brightness'') mode (syswrite (l @ ''trigger'') ''none'' s))"

definition led_blink :: "nat \<Rightarrow> string \<Rightarrow> string \<Rightarrow> 'w sysctl \<Rightarrow> 'w sysctl" where
  "led_blink which on off s = (case leds s ! which of None \<Rightarrow> s
     | Some l \<Rightarrow> syswrite (l @ ''delay_off'') off (syswrite (l @ ''delay_on'') on
                  (syswrite (l @ ''trigger'') ''timer'' (led_set which ''0'' s))))"

text \<open>The trigger in use: the word in brackets, or the whole text. With one bracket only, \<^verbatim>\<open>mode\<close> is not
  written (\<open>None\<close> inside).\<close>

definition led_mode :: "string \<Rightarrow> string option" where
  "led_mode buf = (if CHR ''['' \<in> set buf \<and> CHR '']'' \<in> set buf then
       (let after = tl (dropWhile (\<lambda>c. c \<noteq> CHR ''['') buf) in
        if CHR '']'' \<in> set (takeWhile (\<lambda>c. c \<noteq> CHR ''['') buf) then Some after
        else Some (takeWhile (\<lambda>c. c \<noteq> CHR '']'') after))
     else if CHR ''['' \<notin> set buf \<and> CHR '']'' \<notin> set buf then Some buf else None)"

text \<open>\<^verbatim>\<open>led_get\<close> into a buffer of \<open>sz\<close> characters: the brightness, and the mode if it was written.\<close>

definition led_get :: "'w kernel \<Rightarrow> nat \<Rightarrow> nat \<Rightarrow> 'w sysctl \<Rightarrow> (int \<times> string option) option" where
  "led_get K which sz s = (case leds s ! which of None \<Rightarrow> Some (-1, None)
     | Some l \<Rightarrow> (case read_str_from_file (fs s) (l @ ''trigger'') 128 of None \<Rightarrow> Some (-1, None)
         | Some buf \<Rightarrow>
             let mode = led_mode buf in
             if (case mode of None \<Rightarrow> False | Some t \<Rightarrow> length t \<ge> sz) then None
             else (case read_int_from_file (fs s) (l @ ''brightness'') (k_uninit K (world s)) of
                 None \<Rightarrow> Some (-1, mode) | Some u \<Rightarrow> Some (u, mode))))"

definition leds_on :: "'w sysctl \<Rightarrow> 'w sysctl" where
  "leds_on s = fold (\<lambda>i. led_set i ''1'') [0..<2] s"

definition leds_off :: "'w sysctl \<Rightarrow> 'w sysctl" where
  "leds_off s = fold (\<lambda>i. led_set i ''0'') [0..<2] s"

definition leds_blink :: "'w sysctl \<Rightarrow> 'w sysctl" where
  "leds_blink s = fold (\<lambda>i. led_blink i ''250'' ''250'') [0..<2] s"

definition leds_set :: "nat \<Rightarrow> int \<Rightarrow> 'w sysctl \<Rightarrow> 'w sysctl" where
  "leds_set priority mode s = s\<lparr>leds_pqueue := (leds_pqueue s)[priority := mode]\<rparr>"

definition leds_proc_step :: "nat \<Rightarrow> 'w sysctl \<Rightarrow> 'w sysctl" where
  "leds_proc_step i s = (let m = leds_pqueue s ! i in
     if m = LEDOFF then (leds_off s)\<lparr>leds_pqueue := (leds_pqueue s)[i := NA]\<rparr>
     else if m = LEDON then leds_on s
     else if m = LEDBLINK then leds_blink s
     else s)"

definition leds_proc :: "'w sysctl \<Rightarrow> 'w sysctl" where
  "leds_proc s = fold leds_proc_step [PHIGH..<PLOW + 1] s"

definition syserrorfn :: string where "syserrorfn = ''/var/log/systemerror.log''"

definition check_syserrlog :: "'w kernel \<Rightarrow> 'w sysctl \<Rightarrow> int \<times> 'w sysctl" where
  "check_syserrlog K s =
     (let off = (if err_state s = 1 then leds_set PLOW LEDOFF (s\<lparr>err_state := 0\<rparr>) else s) in
      case k_stat K syserrorfn (world s) of
        None \<Rightarrow> (0, off)
      | Some (_, _, st_size) \<Rightarrow>
          if st_size \<noteq> 0 then (1, if err_state s = 0 then leds_set PLOW LEDON (s\<lparr>err_state := 1\<rparr>) else s)
          else (0, off))"

section \<open>Disks\<close>

definition WIN_CHECKPOWERMODE1 :: byte where "WIN_CHECKPOWERMODE1 = 0xE5"
definition WIN_CHECKPOWERMODE2 :: byte where "WIN_CHECKPOWERMODE2 = 0x98"

text \<open>1 active, 0 standby, -1 unknown. The device path has to fit 32 characters.\<close>

definition check_powermode :: "'w kernel \<Rightarrow> string \<Rightarrow> 'w sysctl \<Rightarrow> (int \<times> 'w sysctl) option" where
  "check_powermode K dev s =
     (if length dev + 6 > 32 then None
      else let dsk = ''/dev/'' @ dev in
        if \<not> k_open_disk K dsk (world s) then Some (-1, s)
        else (case k_powermode K dsk [WIN_CHECKPOWERMODE1, 0, 0, 0] (world s) of ((e, a), w) \<Rightarrow>
          (case e of
             None \<Rightarrow> Some (if a ! 2 = 255 then 1 else 0, s\<lparr>world := w\<rparr>)
           | Some _ \<Rightarrow> (case k_powermode K dsk (a[0 := WIN_CHECKPOWERMODE2]) w of ((e, a), w) \<Rightarrow>
               (case e of
                  None \<Rightarrow> Some (if a ! 2 = 255 then 1 else 0, s\<lparr>world := w\<rparr>)
                | Some er \<Rightarrow> Some (if er \<noteq> E_IO \<or> a ! 0 \<noteq> 0 \<or> a ! 1 \<noteq> 0 then -1 else 0, s\<lparr>world := w\<rparr>))))))"

text \<open>\<^verbatim>\<open>sscanf("%lu")\<close>: the number, modulo the word size as \<^verbatim>\<open>strtoul\<close> has it, and the rest.\<close>

definition scan_ulong :: "string \<Rightarrow> (u32 \<times> string) option" where
  "scan_ulong s = (case strip_sign (dropWhile c_isspace s) of (neg, u) \<Rightarrow>
     if u = [] \<or> \<not> c_isdigit (hd u) then None
     else (case digits_val 0 u of (v, r) \<Rightarrow>
        Some (if v \<ge> 2 ^ 32 then - 1 else word_of_int (if neg then - v else v), r)))"

definition dstat :: "string \<Rightarrow> 'w sysctl \<Rightarrow> u32 option" where
  "dstat dsk s =
     (if length dsk + 17 > 32 then None
      else (case read_str_from_file (fs s) (''/sys/block/'' @ dsk @ ''/stat'') 128 of None \<Rightarrow> Some 0
        | Some buf \<Rightarrow> (case do {
              (rd, t) \<leftarrow> scan_ulong buf; (_, t) \<leftarrow> scan_ulong t; (_, t) \<leftarrow> scan_ulong t; (_, t) \<leftarrow> scan_ulong t;
              (wr, t) \<leftarrow> scan_ulong t; Some (rd + wr) } of
            None \<Rightarrow> Some 0 | Some n \<Rightarrow> Some n)))"

text \<open>The stop command is sent when the device can be opened; errors are only logged.\<close>

definition spindown_disk :: "'w kernel \<Rightarrow> string \<Rightarrow> 'w sysctl \<Rightarrow> 'w sysctl" where
  "spindown_disk K name s =
     (if k_open_disk K (take 99 (''/dev/'' @ name)) (world s) then emit (Spindown name) s else s)"

definition upd_disk :: "nat \<Rightarrow> (disk_t \<Rightarrow> disk_t) \<Rightarrow> 'w sysctl \<Rightarrow> 'w sysctl" where
  "upd_disk i f s = s\<lparr>disks := (disks s)[i := f (disks s ! i)]\<rparr>"

text \<open>A disk whose power state cannot be asked for is taken to be active while its counters move, and is
  stopped when it has been unused for longer than its time.\<close>

definition idle_check :: "'w kernel \<Rightarrow> nat \<Rightarrow> string \<Rightarrow> 'w sysctl \<Rightarrow> (int \<times> 'w sysctl) option" where
  "idle_check K i dev s = (case k_time K (world s) of (ctime, w) \<Rightarrow>
     let s = s\<lparr>world := w\<rparr>; d = disks s ! i in
     (case dstat dev s of None \<Rightarrow> None
      | Some dst \<Rightarrow>
          if dst > rdwr_cnt d then Some (1, upd_disk i (\<lambda>d. d\<lparr>rdwr_cnt := dst, last_access := ctime\<rparr>) s)
          else if power_state d \<noteq> 0 \<and> ctime - last_access d > spindow_time d then Some (0, spindown_disk K dev s)
          else Some (power_state d, s)))"

definition disk_leds :: "nat \<Rightarrow> int \<Rightarrow> int \<Rightarrow> 'w sysctl \<Rightarrow> 'w sysctl" where
  "disk_leds i noleds dpm s = (if noleds \<noteq> 0 then s
     else if dpm = 0 then led_blink i ''10'' ''2000'' s else led_set i ''0'' s)"

text \<open>One slot; the sum of the power states is carried along.\<close>

definition hdd_slot :: "'w kernel \<Rightarrow> int \<Rightarrow> nat \<Rightarrow> int \<times> 'w sysctl \<Rightarrow> (int \<times> 'w sysctl) option" where
  "hdd_slot K noleds i = (\<lambda>(dpmf, s). case dk_dev (disks s ! i) of None \<Rightarrow> Some (dpmf, s)
     | Some dev \<Rightarrow> do {
         (dpm, s) \<leftarrow> check_powermode K dev s;
         (dpm, s) \<leftarrow> (if dpm = -1 \<and> spindow_time (disks s ! i) > 0 then idle_check K i dev s else Some (dpm, s));
         let s = (if power_state (disks s ! i) \<noteq> dpm then disk_leds i noleds dpm s else s) in
         Some (dpmf + dpm, upd_disk i (\<lambda>d. d\<lparr>power_state := dpm\<rparr>) s) })"

fun hdd_slots :: "'w kernel \<Rightarrow> int \<Rightarrow> nat list \<Rightarrow> int \<times> 'w sysctl \<Rightarrow> (int \<times> 'w sysctl) option" where
  "hdd_slots K noleds [] a = Some a"
| "hdd_slots K noleds (i # is) a = (case hdd_slot K noleds i a of None \<Rightarrow> None | Some a \<Rightarrow> hdd_slots K noleds is a)"

definition power_led_step :: "'w kernel \<Rightarrow> int \<Rightarrow> 'w sysctl \<Rightarrow> 'w sysctl option" where
  "power_led_step K dpmf s = (case led_get K power_led 16 s of None \<Rightarrow> None
     | Some (u, mode) \<Rightarrow>
         if u = -1 then Some s
         else (case mode of None \<Rightarrow> None
           | Some pled \<Rightarrow> if pled \<noteq> ''none'' then Some s
               else Some (led_set power_led (if dpmf \<noteq> 0 \<or> ndisks s = 0 then ''1'' else ''0'') s)))"

definition hdd_powercheck :: "'w kernel \<Rightarrow> int \<Rightarrow> 'w sysctl \<Rightarrow> 'w sysctl option" where
  "hdd_powercheck K noleds s = do {
     (dpmf, s) \<leftarrow> hdd_slots K noleds [0..<nslots s] (0, s);
     power_led_step K dpmf s }"

section \<open>RAID\<close>

text \<open>\<^verbatim>\<open>read_str_from_file(f, buf, 64)\<close> into an array of 16 characters: \<open>None\<close> when the file overruns it,
  otherwise the contents of the array afterwards (\<open>None\<close> inside: never written).\<close>

definition read_16 :: "sysfs \<Rightarrow> string \<Rightarrow> string option \<Rightarrow> string option option" where
  "read_16 f name old = (case sf_files f name of None \<Rightarrow> Some old
     | Some c \<Rightarrow> if length (take 64 c) > 16 then None
         else (case read_str_from_file f name 64 of None \<Rightarrow> Some old | Some t \<Rightarrow> Some (Some t)))"

text \<open>The locals of the loop that survive from one array to the next: \<^verbatim>\<open>state\<close>, \<^verbatim>\<open>level\<close>, \<^verbatim>\<open>cdegraded\<close>.\<close>

type_synonym md_locals = "string option \<times> string option \<times> int"

definition set_degraded :: "nat \<Rightarrow> int \<Rightarrow> 'w sysctl \<Rightarrow> 'w sysctl" where
  "set_degraded dev v s = s\<lparr>degraded := (degraded s)[dev := v]\<rparr>"

definition md_alarm :: "nat \<Rightarrow> string \<Rightarrow> 'w sysctl \<Rightarrow> 'w sysctl" where
  "md_alarm dev level s = syserrorlog (''Your md'' @ show_nat dev @ '' '' @ level @ '' device is degraded!'')
     (leds_set PHIGH LEDON ((set_degraded dev 1 s)\<lparr>last_degraded := 1\<rparr>))"

definition md_dev :: "nat \<Rightarrow> string" where
  "md_dev dev = ''/dev/md'' @ show_nat dev"

definition md_path :: "nat \<Rightarrow> string \<Rightarrow> string" where
  "md_path dev f = ''/sys/block/md'' @ show_nat dev @ ''/md/'' @ f"

definition md_device :: "'w kernel \<Rightarrow> nat \<Rightarrow> md_locals \<times> 'w sysctl \<Rightarrow> (md_locals \<times> 'w sysctl) option" where
  "md_device K dev = (\<lambda>((state, level, cdegraded), s).
     if k_stat K (md_dev dev) (world s) = None then Some ((state, level, cdegraded), s)
     else do {
       state \<leftarrow> read_16 (fs s) (md_path dev ''array_state'') state;
       st \<leftarrow> state;
       if st = ''inactive'' then Some ((state, level, cdegraded), set_degraded dev 0 s)
       else do {
         level \<leftarrow> read_16 (fs s) (md_path dev ''level'') level;
         lv \<leftarrow> level;
         if lv \<noteq> ''raid1'' \<and> lv \<noteq> ''raid5'' then Some ((state, level, cdegraded), set_degraded dev 0 s)
         else if k_stat K (md_path dev ''degraded'') (world s) = None then Some ((state, level, cdegraded), s)
         else (let cdegraded = (case read_int_from_file (fs s) (md_path dev ''degraded'') cdegraded of
                     None \<Rightarrow> cdegraded | Some n \<Rightarrow> n) in
           Some ((state, level, cdegraded),
             if cdegraded = 0 then set_degraded dev 0 s
             else if degraded s ! dev = 0 then md_alarm dev lv s else s)) } })"

fun md_devices :: "'w kernel \<Rightarrow> nat list \<Rightarrow> md_locals \<times> 'w sysctl \<Rightarrow> (md_locals \<times> 'w sysctl) option" where
  "md_devices K [] a = Some a"
| "md_devices K (dev # devs) a = (case md_device K dev a of None \<Rightarrow> None | Some a \<Rightarrow> md_devices K devs a)"

definition md_count :: "'w sysctl \<Rightarrow> int" where
  "md_count s = sum_list (take 9 (degraded s))"

definition md_stat :: "'w kernel \<Rightarrow> 'w sysctl \<Rightarrow> (int \<times> 'w sysctl) option" where
  "md_stat K s =
     (if k_stat K ''/proc/mdstat'' (world s) = None then Some (0, s)
      else do {
        (_, s) \<leftarrow> md_devices K [0..<9] ((None, None, k_uninit K (world s)), s);
        Some (md_count s,
          if last_degraded s = 1 \<and> md_count s = 0 then leds_set PHIGH LEDOFF (s\<lparr>last_degraded := 0\<rparr>) else s) })"

end
