(* ===== verification/SysFan.thy ===== *)
theory SysFan
  imports SysDisks
begin

text \<open>
  The fan of \<^verbatim>\<open>sysctrl.c\<close>: the sensors (\<^verbatim>\<open>read_temp\<close> with its lock, \<^verbatim>\<open>read_fan\<close>, \<^verbatim>\<open>read_pwm\<close>,
  \<^verbatim>\<open>read_disks_temp\<close>) and the control loop \<^verbatim>\<open>fanctl\<close>: the smoothed temperature, the log, the speed of the
  fan on the old boards (a polynomial of the wanted speed) and on the others (three levels with hysteresis), and
  the warnings. \<open>None\<close> is undefined behaviour; \<open>False\<close> beside a state means that the program exited there.
\<close>

section \<open>Sensors\<close>

definition read_fan :: "'w sysctl \<Rightarrow> int" where
  "read_fan s = (case read_int_from_file (fs s) sys_fan_input 0 of None \<Rightarrow> 0 | Some u \<Rightarrow> u)"

definition write_pwm :: "int \<Rightarrow> 'w sysctl \<Rightarrow> 'w sysctl" where
  "write_pwm u s = s\<lparr>fs := fst (write_int_to_file (fs s) sys_pwm u)\<rparr>"

definition read_pwm :: "'w sysctl \<Rightarrow> int" where
  "read_pwm s = (case read_int_from_file (fs s) sys_pwm 0 of None \<Rightarrow> 0 | Some u \<Rightarrow> u)"

definition lock_pid :: string where "lock_pid = ''/var/lock/temp-lock/pid''"

definition clearlock :: "'w kernel \<Rightarrow> 'w sysctl \<Rightarrow> 'w sysctl" where
  "clearlock K s = s\<lparr>fs := (fs s)\<lparr>sf_files := (sf_files (fs s))(lock_pid := None)\<rparr>, world := k_rmdir K (world s)\<rparr>"

text \<open>The lock could not be made: it is taken over unless its owner lives and is another process.\<close>

definition stale_lock :: "'w kernel \<Rightarrow> 'w sysctl \<Rightarrow> bool \<times> 'w sysctl" where
  "stale_lock K s = (case read_int_from_file (fs s) lock_pid 0 of None \<Rightarrow> (True, s)
     | Some u \<Rightarrow> if k_pid K (world s) = u then (True, s)
         else if k_alive K u (world s)
         then (False, syserrorlog ''owner of /var/lock/temp-lock is alive, can't get lock, exiting.'' s)
         else (True, s))"

fun dolock_loop :: "'w kernel \<Rightarrow> nat \<Rightarrow> 'w sysctl \<Rightarrow> bool \<times> 'w sysctl" where
  "dolock_loop K 0 s = (case k_mkdir K (world s) of (ok, w) \<Rightarrow>
     if ok then (True, s\<lparr>world := w\<rparr>) else stale_lock K (s\<lparr>world := w\<rparr>))"
| "dolock_loop K (Suc i) s = (case k_mkdir K (world s) of (ok, w) \<Rightarrow>
     if ok then (True, s\<lparr>world := w\<rparr>) else dolock_loop K i (s\<lparr>world := w\<rparr>))"

definition dolock :: "'w kernel \<Rightarrow> 'w sysctl \<Rightarrow> bool \<times> 'w sysctl" where
  "dolock K s = (case dolock_loop K 100 s of (ok, s) \<Rightarrow>
     if ok then (True, syswrite lock_pid (show_int (k_pid K (world s))) s) else (False, s))"

text \<open>The temperature in thousandths of a degree, or \<open>None\<close> when the program exited.\<close>

definition read_temp :: "'w kernel \<Rightarrow> 'w sysctl \<Rightarrow> int option \<times> 'w sysctl" where
  "read_temp K s = (case dolock K s of (ok, s) \<Rightarrow>
     if ok then (Some (case read_int_from_file (fs s) sys_temp_input 0 of None \<Rightarrow> 0 | Some u \<Rightarrow> u), clearlock K s)
     else (None, s))"

section \<open>Temperature of the disks\<close>

text \<open>The memory behind a token after \<open>n\<close> further calls of \<^verbatim>\<open>strtok\<close>, which ends each token with a NUL.\<close>

fun strtok_marks :: "nat \<Rightarrow> (char \<Rightarrow> bool) \<Rightarrow> string \<Rightarrow> string" where
  "strtok_marks 0 d s = s"
| "strtok_marks (Suc n) d s = takeWhile d s @ takeWhile (\<lambda>c. \<not> d c) (dropWhile d s) @
     (case dropWhile (\<lambda>c. \<not> d c) (dropWhile d s) of [] \<Rightarrow> [] | _ # r \<Rightarrow> CHR 0x00 # strtok_marks n d r)"

definition HDDTEMP_BUF :: nat where "HDDTEMP_BUF = 512"

definition bar :: "char \<Rightarrow> bool" where "bar c \<longleftrightarrow> c = CHR ''|''"

text \<open>Conversion of a floating-point number to \<^verbatim>\<open>int\<close>; out of range it is undefined.\<close>

definition float_to_int :: "rat \<Rightarrow> int option" where
  "float_to_int x = (let n = c_trunc x in if - (2 ^ 31) \<le> n \<and> n < 2 ^ 31 then Some n else None)"

text \<open>One entry of the answer: the temperature counts for the left and the right disk.\<close>

fun disk_temp :: "string \<Rightarrow> string \<Rightarrow> disk_t list \<Rightarrow> int \<Rightarrow> int option" where
  "disk_temp dev5 tempc [] maxtemp = Some maxtemp"
| "disk_temp dev5 tempc (d # ds) maxtemp =
     (if dk_dev d = Some dev5 \<and> (dk_slot d = ''left'' \<or> dk_slot d = ''right'')
      then (case float_to_int (c_strtof tempc) of None \<Rightarrow> None
        | Some temp \<Rightarrow> disk_temp dev5 tempc ds (if temp > maxtemp then temp else maxtemp))
      else disk_temp dev5 tempc ds maxtemp)"

lemma c_strtok_shorter: "c_strtok d s = Some (tok, r) \<Longrightarrow> length r < length s"
proof -
  assume "c_strtok d s = Some (tok, r)"
  then have ne: "dropWhile d s \<noteq> []" and r: "r = drop 1 (dropWhile (\<lambda>c. \<not> d c) (dropWhile d s))"
    by (auto simp: c_strtok_def Let_def split: if_splits)
  have "length (dropWhile (\<lambda>c. \<not> d c) (dropWhile d s)) \<le> length (dropWhile d s)" by (rule length_dropWhile_le)
  moreover have "length (dropWhile d s) \<le> length s" by (rule length_dropWhile_le)
  moreover have "length (dropWhile (\<lambda>c. \<not> d c) (dropWhile d s)) < length (dropWhile d s)"
    using hd_dropWhile [OF ne] ne by (cases "dropWhile d s") (auto simp: le_imp_less_Suc length_dropWhile_le)
  ultimately show ?thesis by (simp add: r)
qed

text \<open>The loop over \<^verbatim>\<open>|device|name|temperature|unit|\<close>.\<close>

function hdd_scan :: "disk_t list \<Rightarrow> string \<Rightarrow> int \<Rightarrow> int option" where
  "hdd_scan ds s maxtemp = (case c_strtok bar s of None \<Rightarrow> Some maxtemp
     | Some (dev, r) \<Rightarrow> (case c_strtok bar r of None \<Rightarrow> Some maxtemp
     | Some (_, r2) \<Rightarrow> (case c_strtok bar r2 of None \<Rightarrow> Some maxtemp
     | Some (tempc, r3) \<Rightarrow> (case c_strtok bar r3 of None \<Rightarrow> Some maxtemp
     | Some (_, r4) \<Rightarrow>
         (case disk_temp (c_string (drop 5 (dev @ CHR 0x00 # strtok_marks 3 bar r))) tempc ds maxtemp of
            None \<Rightarrow> None | Some m \<Rightarrow> hdd_scan ds r4 m)))))"
  by pat_completeness auto
termination
  by (relation "measure (\<lambda>(_, s, _). length s)") (auto dest!: c_strtok_shorter)

declare hdd_scan.simps [simp del]

text \<open>An answer that fills the buffer without a NUL is read beyond its end.\<close>

fun disks_tries :: "'w kernel \<Rightarrow> nat \<Rightarrow> 'w sysctl \<Rightarrow> (int \<times> 'w sysctl) option" where
  "disks_tries K 0 s = Some (0, s)"
| "disks_tries K (Suc n) s = (case k_hddtemp K (world s) of (answer, w) \<Rightarrow>
     let buffer = take HDDTEMP_BUF answer; s = s\<lparr>world := w\<rparr> in
     if buffer = [] then disks_tries K n s
     else if length buffer = HDDTEMP_BUF \<and> CHR 0x00 \<notin> set buffer then None
     else (case hdd_scan (take (nslots s) (disks s)) (c_string buffer) 0 of None \<Rightarrow> None
       | Some maxtemp \<Rightarrow> if maxtemp \<noteq> 0 then Some (maxtemp, s) else disks_tries K n s))"

definition read_disks_temp :: "'w kernel \<Rightarrow> 'w sysctl \<Rightarrow> (int \<times> 'w sysctl) option" where
  "read_disks_temp K s = disks_tries K 3 s"

section \<open>The speed of the fan\<close>

definition to_f :: "int \<Rightarrow> rat" where "to_f n = f32 (of_int n)"

definition f2p :: "rat list" where
  "f2p = [f32 (f64 (266029 / 10 ^ 14)), f32 (f64 (- 428952 / 10 ^ 10)), f32 (f64 (244737 / 10 ^ 6)), f32 (f64 (- 328233 / 1000))]"

definition poly :: "rat \<Rightarrow> rat list \<Rightarrow> rat" where
  "poly pwm coef = fold (\<lambda>c ret. f32 (f32 (pwm * ret) + c)) (tl coef) (hd coef)"

definition fanlog :: "int \<Rightarrow> int \<Rightarrow> int \<Rightarrow> int \<Rightarrow> 'w sysctl \<Rightarrow> 'w sysctl" where
  "fanlog stemp dtemp pwm fan s = emit (FanLog stemp dtemp pwm fan) s"

text \<open>An \<^verbatim>\<open>int\<close> result; \<open>None\<close> for an overflow.\<close>

definition c_int :: "int \<Rightarrow> int option" where
  "c_int n = (if - (2 ^ 31) \<le> n \<and> n < 2 ^ 31 then Some n else None)"

text \<open>\<^verbatim>\<open>fabsf(temp - log_temp) > 1.0 || abs(fan - log_fan) > 400\<close>\<close>

definition fan_log_due :: "int \<Rightarrow> 'w sysctl \<Rightarrow> bool option" where
  "fan_log_due fan s = (if \<bar>f32 (f_temp s - f_log_temp s)\<bar> > 1 then Some True
     else do { d \<leftarrow> c_int (fan - f_log_fan s); d \<leftarrow> c_int \<bar>d\<bar>; Some (d > 400) })"

text \<open>The slope \<^verbatim>\<open>m\<close> and the offset \<^verbatim>\<open>b\<close> of the wanted speed, \<open>None\<close> inside when the divisor is zero (an infinity
  or a NaN, which nothing but the conversion below looks at).\<close>

definition fan_line :: "args_t \<Rightarrow> (rat \<times> rat) option option" where
  "fan_line a = do {
     df \<leftarrow> c_int (hi_fan a - lo_fan a);
     dt \<leftarrow> c_int (hi_temp a - lo_temp a);
     Some (if dt = 0 then None
       else (let m = f32 (f64 (of_int df / of_int dt)) in Some (m, f32 (to_f (lo_fan a) - f32 (m * to_f (lo_temp a)))))) }"

definition pwm_323 :: "args_t \<Rightarrow> rat \<Rightarrow> int \<Rightarrow> int \<Rightarrow> int option" where
  "pwm_323 a temp fan pwm = do {
     mb \<leftarrow> fan_line a;
     pwm \<leftarrow> (if temp < f32 (to_f (fan_off_temp a) - hist_temp a) then Some 0
       else if temp > f32 (to_f (fan_off_temp a) + hist_temp a)
       then (case mb of None \<Rightarrow> None | Some (m, b) \<Rightarrow> float_to_int (poly (f32 (f32 (temp * m) + b)) f2p))
       else Some pwm);
     (if fan \<ge> max_fan_speed a
      then (case float_to_int (poly (to_f (max_fan_speed a)) f2p) of None \<Rightarrow> None
        | Some tpwm \<Rightarrow> Some (if tpwm < pwm then tpwm else pwm))
      else Some pwm) }"

definition pwm_auto :: "args_t \<Rightarrow> rat \<Rightarrow> int \<Rightarrow> int" where
  "pwm_auto a temp fan =
     (if fan = RPM_OFF then (if temp > f32 (to_f (fan_off_temp a) + hist_temp a) then PWM_LOW else PWM_OFF)
      else if fan = RPM_LOW then
        (if temp < f32 (to_f (fan_off_temp a) - hist_temp a) then PWM_OFF
         else if temp > f32 (to_f (lo_temp a) + hist_temp a) then PWM_FAST else PWM_LOW)
      else if fan = RPM_FAST then (if temp < f32 (to_f (lo_temp a) - hist_temp a) then PWM_LOW else PWM_FAST)
      else PWM_LOW)"

definition fan_pwm :: "board \<Rightarrow> args_t \<Rightarrow> rat \<Rightarrow> int \<Rightarrow> int \<Rightarrow> int option" where
  "fan_pwm bd a temp fan pwm =
     (if bd = DNS_323_A1 \<or> bd = DNS_323_B1 then pwm_323 a temp fan pwm
      else Some (case fan_mode a of FAN_ALWAYS_OFF \<Rightarrow> PWM_OFF | FAN_ALWAYS_SLOW \<Rightarrow> PWM_LOW
        | FAN_ALWAYS_FAST \<Rightarrow> PWM_FAST | FAN_AUTO \<Rightarrow> pwm_auto a temp fan))"

section \<open>Warnings\<close>

text \<open>\<^verbatim>\<open>%.1f\<close>\<close>

definition show_1f :: "rat \<Rightarrow> string" where
  "show_1f x = (let n = nat (round_even (10 * \<bar>x\<bar>)) in
     (if x < 0 then ''-'' else '''') @ show_nat (n div 10) @ ''.'' @ show_nat (n mod 10))"

definition warn_msg :: "int \<Rightarrow> rat \<Rightarrow> int \<Rightarrow> string" where
  "warn_msg fan temp limit = ''WARNING TEMP: fan='' @ show_int fan @ '' temp='' @ show_1f temp @ '' exceeded warn='' @ show_int limit"

definition smail :: "string \<Rightarrow> int \<Rightarrow> rat \<Rightarrow> int \<Rightarrow> 'w sysctl \<Rightarrow> 'w sysctl" where
  "smail type fan temp limit s = emit (Mail type fan temp limit) s"

definition fan_warn :: "int \<Rightarrow> 'w sysctl \<Rightarrow> 'w sysctl" where
  "fan_warn fan s =
     (let a = args s; temp = f_temp s;
          s = (if temp > to_f (warn_temp a) \<and> temp < to_f (crit_temp a) \<and> f_warn s = 0 then
            (let s = syserrorlog (warn_msg fan temp (warn_temp a)) s;
                 s = (if mail a \<noteq> 0 then smail ''warning'' fan temp (warn_temp a) s else s) in
             (exec_userscript (warn_temp_command a) None s)\<lparr>f_warn := 1\<rparr>)
            else s) in
      if temp < to_f (warn_temp a) \<and> f_warn s = 1 then s\<lparr>f_warn := 0\<rparr> else s)"

text \<open>The message about the overheating is put together but not used.\<close>

definition fan_crit :: "int \<Rightarrow> 'w sysctl \<Rightarrow> 'w sysctl" where
  "fan_crit fan s =
     (let a = args s; temp = f_temp s;
          s = (if temp > to_f (crit_temp a) \<and> f_crit s = 0 then
            (let s = (if mail a \<noteq> 0 then smail ''CRITICAL'' fan temp (crit_temp a) s else s) in
             (exec_userscript (crit_temp_command a) None s)\<lparr>f_crit := 1\<rparr>)
            else s) in
      if temp < to_f (crit_temp a) \<and> f_crit s = 1 then s\<lparr>f_crit := 0\<rparr> else s)"

section \<open>The control loop\<close>

text \<open>\<^verbatim>\<open>0.9 * MAX(stemp, dtemp) + 0.1 * temp\<close>, in \<^verbatim>\<open>double\<close>\<close>

definition smooth :: "int \<Rightarrow> int \<Rightarrow> rat \<Rightarrow> rat" where
  "smooth stemp dtemp temp = f32 (f64 (f64 (f64 (9 / 10) * of_int (if stemp > dtemp then stemp else dtemp)) +
     f64 (f64 (1 / 10) * temp)))"

text \<open>The first part: a first value for the temperature, and then the sensors.\<close>

definition fan_first :: "'w kernel \<Rightarrow> 'w sysctl \<Rightarrow> bool \<times> 'w sysctl" where
  "fan_first K s = (if f_temp s = 0 then
     (case read_temp K s of (None, s) \<Rightarrow> (False, s) | (Some u, s) \<Rightarrow> (True, s\<lparr>f_temp := f32 (f64 (of_int u / 1000))\<rparr>))
     else (True, s))"

definition disks_part :: "'w kernel \<Rightarrow> 'w sysctl \<Rightarrow> (int \<times> 'w sysctl) option" where
  "disks_part K s = (if disks_temp (args s) \<noteq> 0 then read_disks_temp K s else Some (0, s))"

text \<open>The second part, with the temperatures read.\<close>

definition fan_control :: "int \<Rightarrow> int \<Rightarrow> 'w sysctl \<Rightarrow> 'w sysctl option" where
  "fan_control stemp dtemp s = (
     let s = s\<lparr>f_temp := smooth stemp dtemp (f_temp s)\<rparr>; pwm = read_pwm s; fan = read_fan s in do {
       due \<leftarrow> fan_log_due fan s;
       let s = (if due then fanlog stemp dtemp pwm fan (s\<lparr>f_log_temp := f_temp s, f_log_fan := fan\<rparr>) else s) in do {
         pwm \<leftarrow> fan_pwm (board s) (args s) (f_temp s) fan pwm;
         Some (fan_crit fan (fan_warn fan (write_pwm pwm s))) } })"

definition fanctl :: "'w kernel \<Rightarrow> 'w sysctl \<Rightarrow> (bool \<times> 'w sysctl) option" where
  "fanctl K s = (case fan_first K s of (False, s) \<Rightarrow> Some (False, s)
     | (True, s) \<Rightarrow> (case read_temp K s of (None, s) \<Rightarrow> Some (False, s)
     | (Some u, s) \<Rightarrow> do {
         (dtemp, s) \<leftarrow> disks_part K s;
         s \<leftarrow> fan_control (c_trunc (of_int u / 1000)) dtemp s;
         Some (True, s) }))"

end
