(* ===== verification/SysFanProps.thy ===== *)
theory SysFanProps
  imports SysFan
begin

text \<open>
  Properties of the fan control: the automatic mode refines two relays with hysteresis; the
  warnings are latches (the interface \<open>latched\<close>, which both the warning and the critical alarm provide); what
  an overheating does; and where the speed of the old boards is undefined.
\<close>

section \<open>Frame\<close>

text \<open>The sensors change the outside only.\<close>

definition same_inside :: "'w sysctl \<Rightarrow> 'w sysctl \<Rightarrow> bool" where
  "same_inside s s' \<longleftrightarrow> s' = s\<lparr>world := world s', fs := fs s'\<rparr>"

lemma same_inside_refl [simp]: "same_inside s s"
  by (simp add: same_inside_def)

lemma same_inside_trans: "same_inside s t \<Longrightarrow> same_inside t u \<Longrightarrow> same_inside s u"
  by (cases s; cases t; cases u) (simp add: same_inside_def)

lemma same_inside_world [simp]: "same_inside s (s\<lparr>world := w\<rparr>)" "same_inside s (s\<lparr>fs := f\<rparr>)" "same_inside s (s\<lparr>fs := f, world := w\<rparr>)"
  by (cases s; simp add: same_inside_def)+

lemma same_insideD:
  assumes "same_inside s s'"
  shows "args s' = args s" "board s' = board s" "events s' = events s" "f_temp s' = f_temp s" "f_warn s' = f_warn s"
    "f_crit s' = f_crit s" "disks s' = disks s" "nslots s' = nslots s" "f_log_temp s' = f_log_temp s" "f_log_fan s' = f_log_fan s"
  using assms by (cases s; cases s'; simp add: same_inside_def)+

lemma stale_lock_inside: "stale_lock K s = (True, s') \<Longrightarrow> same_inside s s'"
  by (auto simp: stale_lock_def split: option.splits if_splits)

lemma dolock_loop_inside: "dolock_loop K n s = (True, s') \<Longrightarrow> same_inside s s'"
proof (induction n arbitrary: s)
  case 0
  then show ?case
    by (auto split: prod.splits if_splits dest!: stale_lock_inside intro: same_inside_trans [OF same_inside_world(1)])
next
  case (Suc n)
  then show ?case by (auto split: prod.splits if_splits intro: same_inside_trans [OF same_inside_world(1)])
qed

lemma syswrite_inside [simp]: "same_inside s (syswrite f v s)"
  by (simp add: syswrite_def)

lemma read_temp_inside: "read_temp K s = (Some u, s') \<Longrightarrow> same_inside s s'"
proof -
  assume a: "read_temp K s = (Some u, s')"
  obtain s1 where s1: "dolock K s = (True, s1)" "s' = clearlock K s1"
    using a by (auto simp: read_temp_def split: prod.splits if_splits)
  obtain s2 where s2: "dolock_loop K 100 s = (True, s2)" "s1 = syswrite lock_pid (show_int (k_pid K (world s2))) s2"
    using s1(1) by (auto simp: dolock_def split: prod.splits if_splits)
  have "same_inside s s2" using s2(1) by (rule dolock_loop_inside)
  moreover have "same_inside s2 s1" by (simp add: s2(2))
  moreover have "same_inside s1 s'" by (simp add: s1(2) clearlock_def)
  ultimately show ?thesis by (blast intro: same_inside_trans)
qed

lemma disks_tries_inside: "disks_tries K n s = Some (t, s') \<Longrightarrow> same_inside s s'"
proof (induction n arbitrary: s)
  case (Suc n)
  then show ?case
    by (auto simp: Let_def split: prod.splits if_splits option.splits intro: same_inside_trans [OF same_inside_world(1)])
qed simp

lemma disks_part_inside: "disks_part K s = Some (t, s') \<Longrightarrow> same_inside s s'"
  by (auto simp: disks_part_def read_disks_temp_def disks_tries_inside split: if_splits)

text \<open>What a run of \<^verbatim>\<open>fanctl\<close> that does not exit consists of.\<close>

definition first_inside :: "'w sysctl \<Rightarrow> 'w sysctl \<Rightarrow> bool" where
  "first_inside s s' \<longleftrightarrow> same_inside (s\<lparr>f_temp := f_temp s'\<rparr>) s'"

lemma first_insideD:
  assumes "first_inside s s'"
  shows "args s' = args s" "board s' = board s" "events s' = events s" "f_warn s' = f_warn s" "f_crit s' = f_crit s"
  using same_insideD [OF assms [unfolded first_inside_def]] by simp_all

lemma first_inside_same: "first_inside s s"
  by (cases s) (simp add: first_inside_def same_inside_def)

lemma first_inside_set: "same_inside s x \<Longrightarrow> first_inside s (x\<lparr>f_temp := v\<rparr>)"
  by (cases s; cases x) (simp add: first_inside_def same_inside_def)

lemma fanctl_parts:
  assumes "fanctl K s = Some (True, s')"
  obtains u dtemp s1 where "first_inside s s1" "fan_control (c_trunc (of_int u / 1000)) dtemp s1 = Some s'"
proof -
  obtain s0 where s0: "fan_first K s = (True, s0)" using assms by (auto simp: fanctl_def split: prod.splits bool.splits)
  obtain u s2 where s2: "read_temp K s0 = (Some u, s2)"
    using assms s0 by (auto simp: fanctl_def split: prod.splits option.splits)
  obtain dtemp s3 where s3: "disks_part K s2 = Some (dtemp, s3)" "fan_control (c_trunc (of_int u / 1000)) dtemp s3 = Some s'"
    using assms s0 s2 by (auto simp: fanctl_def bind_eq_Some_conv)
  have "first_inside s s0"
    using s0 by (auto simp: fan_first_def first_inside_same first_inside_set dest!: read_temp_inside
        split: if_splits prod.splits option.splits)
  moreover have "same_inside s0 s3" using s2 s3(1) by (blast intro: read_temp_inside disks_part_inside same_inside_trans)
  ultimately have "first_inside s s3" by (cases s; cases s0; cases s3) (simp add: first_inside_def same_inside_def)
  then show ?thesis using s3(2) by (rule that)
qed

section \<open>The warnings\<close>

definition too_hot :: "'w sysctl \<Rightarrow> bool" where
  "too_hot s \<longleftrightarrow> f_temp s > to_f (warn_temp (args s)) \<and> f_temp s < to_f (crit_temp (args s))"

definition cooled :: "'w sysctl \<Rightarrow> bool" where
  "cooled s \<longleftrightarrow> f_temp s < to_f (warn_temp (args s))"

definition critical :: "'w sysctl \<Rightarrow> bool" where
  "critical s \<longleftrightarrow> f_temp s > to_f (crit_temp (args s))"

definition uncritical :: "'w sysctl \<Rightarrow> bool" where
  "uncritical s \<longleftrightarrow> f_temp s < to_f (crit_temp (args s))"

definition script_events :: "string option \<Rightarrow> event list" where
  "script_events c = (case c of None \<Rightarrow> [] | Some f \<Rightarrow> if f = [] then [] else [Script f None])"

definition warn_events :: "int \<Rightarrow> rat \<Rightarrow> args_t \<Rightarrow> event list" where
  "warn_events fan temp a = SysError (warn_msg fan temp (warn_temp a)) #
     (if mail a \<noteq> 0 then [Mail ''warning'' fan temp (warn_temp a)] else []) @ script_events (warn_temp_command a)"

definition crit_events :: "int \<Rightarrow> rat \<Rightarrow> args_t \<Rightarrow> event list" where
  "crit_events fan temp a =
     (if mail a \<noteq> 0 then [Mail ''CRITICAL'' fan temp (crit_temp a)] else []) @ script_events (crit_temp_command a)"

lemma exec_userscript_events: "exec_userscript c None s = s\<lparr>events := events s @ script_events c\<rparr>"
  by (cases s) (auto simp: exec_userscript_def script_events_def emit_def split: option.split)

lemma fan_warn_eq:
  "fan_warn fan s = s\<lparr>
     events := events s @ (if too_hot s \<and> f_warn s = 0 then warn_events fan (f_temp s) (args s) else []),
     f_warn := (if too_hot s \<and> f_warn s = 0 then 1 else if cooled s \<and> f_warn s = 1 then 0 else f_warn s)\<rparr>"
  by (cases s) (auto simp: fan_warn_def Let_def too_hot_def cooled_def exec_userscript_events warn_events_def
      syserrorlog_def smail_def emit_def)

lemma fan_crit_eq:
  "fan_crit fan s = s\<lparr>
     events := events s @ (if critical s \<and> f_crit s = 0 then crit_events fan (f_temp s) (args s) else []),
     f_crit := (if critical s \<and> f_crit s = 0 then 1 else if uncritical s \<and> f_crit s = 1 then 0 else f_crit s)\<rparr>"
  by (cases s) (auto simp: fan_crit_def Let_def critical_def uncritical_def exec_userscript_events crit_events_def
      smail_def emit_def)

text \<open>The new events of one run of the control.\<close>

definition log_events :: "bool \<Rightarrow> int \<Rightarrow> int \<Rightarrow> int \<Rightarrow> int \<Rightarrow> event list" where
  "log_events due st dt p fan = (if due then [FanLog st dt p fan] else [])"

lemma fan_control_parts:
  assumes "fan_control stemp dtemp s = Some s'"
  obtains due pwm where "fan_pwm (board s) (args s) (f_temp s') (read_fan s) (read_pwm s) = Some pwm"
    "f_temp s' = smooth stemp dtemp (f_temp s)" "args s' = args s" "fs s' = fs (write_pwm pwm s)"
    "events s' = events s @ log_events due stemp dtemp (read_pwm s) (read_fan s)
       @ (if too_hot s' \<and> f_warn s = 0 then warn_events (read_fan s) (f_temp s') (args s) else [])
       @ (if critical s' \<and> f_crit s = 0 then crit_events (read_fan s) (f_temp s') (args s) else [])"
    "f_warn s' = (if too_hot s' \<and> f_warn s = 0 then 1 else if cooled s' \<and> f_warn s = 1 then 0 else f_warn s)"
    "f_crit s' = (if critical s' \<and> f_crit s = 0 then 1 else if uncritical s' \<and> f_crit s = 1 then 0 else f_crit s)"
proof -
  define s1 where "s1 = s\<lparr>f_temp := smooth stemp dtemp (f_temp s)\<rparr>"
  have rd: "read_fan s1 = read_fan s" "read_pwm s1 = read_pwm s" by (simp_all add: s1_def read_fan_def read_pwm_def)
  obtain due pwm where d: "fan_log_due (read_fan s1) s1 = Some due"
    and p: "fan_pwm (board s) (args s) (f_temp s1) (read_fan s1) (read_pwm s1) = Some pwm"
    and s': "s' = fan_crit (read_fan s1) (fan_warn (read_fan s1) (write_pwm pwm
      (if due then fanlog stemp dtemp (read_pwm s1) (read_fan s1) (s1\<lparr>f_log_temp := f_temp s1, f_log_fan := read_fan s1\<rparr>) else s1)))"
  proof -
    have b: "board s1 = board s" "args s1 = args s" by (simp_all add: s1_def)
    from assms show ?thesis unfolding fan_control_def Let_def s1_def [symmetric]
      by (auto simp: bind_eq_Some_conv fanlog_def b split: if_splits intro: that [of True] that [of False])
  qed
  define s2 where "s2 = write_pwm pwm
      (if due then fanlog stemp dtemp (read_pwm s1) (read_fan s1) (s1\<lparr>f_log_temp := f_temp s1, f_log_fan := read_fan s1\<rparr>) else s1)"
  have s2: "args s2 = args s" "f_warn s2 = f_warn s" "f_crit s2 = f_crit s" "f_temp s2 = smooth stemp dtemp (f_temp s)"
    "fs s2 = fs (write_pwm pwm s)" "events s2 = events s @ log_events due stemp dtemp (read_pwm s) (read_fan s)"
    by (simp_all add: s2_def s1_def write_pwm_def fanlog_def emit_def log_events_def rd [unfolded s1_def])
  have e: "s' = fan_crit (read_fan s) (fan_warn (read_fan s) s2)" using s' by (simp add: s2_def rd)
  have t: "f_temp s' = f_temp s2" "args s' = args s2" by (simp_all add: e fan_crit_eq fan_warn_eq)
  then have h: "too_hot s' = too_hot s2" "cooled s' = cooled s2" "critical s' = critical s2" "uncritical s' = uncritical s2"
    by (simp_all add: too_hot_def cooled_def critical_def uncritical_def)
  have c: "critical (fan_warn f s2) = critical s2" "uncritical (fan_warn f s2) = uncritical s2" for f
    by (simp_all add: fan_warn_eq critical_def uncritical_def)
  show ?thesis
  proof (rule that [of pwm due])
    show "fan_pwm (board s) (args s) (f_temp s') (read_fan s) (read_pwm s) = Some pwm"
      using p t s2 by (simp add: rd [unfolded s1_def] s1_def)
    show "events s' = events s @ log_events due stemp dtemp (read_pwm s) (read_fan s)
       @ (if too_hot s' \<and> f_warn s = 0 then warn_events (read_fan s) (f_temp s') (args s) else [])
       @ (if critical s' \<and> f_crit s = 0 then crit_events (read_fan s) (f_temp s') (args s) else [])"
      unfolding h t by (simp add: e fan_crit_eq c s2) (auto simp: fan_warn_eq s2)
    show "f_warn s' = (if too_hot s' \<and> f_warn s = 0 then 1 else if cooled s' \<and> f_warn s = 1 then 0 else f_warn s)"
      unfolding h by (simp add: e fan_crit_eq fan_warn_eq s2)
    show "f_crit s' = (if critical s' \<and> f_crit s = 0 then 1 else if uncritical s' \<and> f_crit s = 1 then 0 else f_crit s)"
      unfolding h by (simp add: e fan_crit_eq c) (simp add: fan_warn_eq s2)
    show "fs s' = fs (write_pwm pwm s)" using s2 by (simp add: e fan_crit_eq fan_warn_eq)
  qed (use t s2 in simp_all)
qed

section \<open>Latches\<close>

text \<open>Rounds of a program, each after a change of its surroundings: the states before and after each round.\<close>

fun rounds :: "('s \<Rightarrow> 's option) \<Rightarrow> ('i \<Rightarrow> 's \<Rightarrow> 's) \<Rightarrow> 'i list \<Rightarrow> 's \<Rightarrow> ('s \<times> 's) list option" where
  "rounds step env [] s = Some []"
| "rounds step env (i # is) s = (case step (env i s) of None \<Rightarrow> None
     | Some s' \<Rightarrow> (case rounds step env is s' of None \<Rightarrow> None | Some tr \<Rightarrow> Some ((env i s, s') # tr)))"

lemma length_rounds: "rounds step env is s = Some tr \<Longrightarrow> length tr = length is"
  by (induction "is" arbitrary: s tr) (auto split: option.splits)

text \<open>The interface of a latch: an alarm is only raised while the flag is down and the condition holds; the
  flag then goes up, and comes down in the first round in which the release condition holds.\<close>

locale latched =
  fixes step :: "'s \<Rightarrow> 's option" and env :: "'i \<Rightarrow> 's \<Rightarrow> 's"
    and valid :: "'s \<Rightarrow> bool" and up :: "'s \<Rightarrow> bool" and release :: "'s \<Rightarrow> bool" and alarm :: "'s \<Rightarrow> 's \<Rightarrow> bool"
  assumes valid_env: "valid s \<Longrightarrow> valid (env i s)" and valid_step: "valid s \<Longrightarrow> step s = Some s' \<Longrightarrow> valid s'"
    and up_env: "up (env i s) = up s"
    and alarm_down: "valid s \<Longrightarrow> step s = Some s' \<Longrightarrow> alarm s s' \<Longrightarrow> \<not> up s"
    and alarm_up: "valid s \<Longrightarrow> step s = Some s' \<Longrightarrow> alarm s s' \<Longrightarrow> up s'"
    and stays_up: "valid s \<Longrightarrow> step s = Some s' \<Longrightarrow> up s \<Longrightarrow> \<not> release s' \<Longrightarrow> up s'"
begin

lemma no_alarm_while_up:
  "rounds step env is s = Some tr \<Longrightarrow> valid s \<Longrightarrow> up s \<Longrightarrow> j < length tr \<Longrightarrow> alarm (fst (tr ! j)) (snd (tr ! j)) \<Longrightarrow>
   \<exists>k < j. release (snd (tr ! k))"
proof (induction "is" arbitrary: s tr j)
  case (Cons i "is")
  obtain s' tr' where s': "step (env i s) = Some s'" "rounds step env is s' = Some tr'" "tr = (env i s, s') # tr'"
    using Cons.prems(1) by (auto split: option.splits)
  have v: "valid (env i s)" "valid s'" using Cons.prems(2) s'(1) valid_env valid_step by blast+
  show ?case
  proof (cases j)
    case 0
    then show ?thesis using alarm_down [OF v(1) s'(1)] up_env Cons.prems s'(3) by simp
  next
    case (Suc j')
    show ?thesis
    proof (cases "release s'")
      case True
      then show ?thesis using Suc s'(3) by (intro exI [of _ 0]) simp
    next
      case False
      then have "up s'" using stays_up [OF v(1) s'(1)] up_env Cons.prems(3) by blast
      then obtain k where "k < j'" "release (snd (tr' ! k))"
        using Cons.IH [OF s'(2) v(2), of j'] Cons.prems(4,5) Suc s'(3) by auto
      then show ?thesis using Suc s'(3) by (intro exI [of _ "Suc k"]) simp
    qed
  qed
qed simp

lemma alarms_released:
  "rounds step env is s = Some tr \<Longrightarrow> valid s \<Longrightarrow> i < j \<Longrightarrow> j < length tr \<Longrightarrow>
   alarm (fst (tr ! i)) (snd (tr ! i)) \<Longrightarrow> alarm (fst (tr ! j)) (snd (tr ! j)) \<Longrightarrow>
   \<exists>k. i < k \<and> k < j \<and> release (snd (tr ! k))"
proof (induction "is" arbitrary: s tr i j)
  case (Cons e "is")
  obtain s' tr' where s': "step (env e s) = Some s'" "rounds step env is s' = Some tr'" "tr = (env e s, s') # tr'"
    using Cons.prems(1) by (auto split: option.splits)
  have v: "valid (env e s)" "valid s'" using Cons.prems(2) s'(1) valid_env valid_step by blast+
  obtain j' where j': "j = Suc j'" using Cons.prems(3) by (cases j) auto
  show ?case
  proof (cases i)
    case 0
    then have "up s'" using alarm_up [OF v(1) s'(1)] Cons.prems(5) s'(3) by simp
    from no_alarm_while_up [OF s'(2) v(2) this, of j'] Cons.prems(4,6) j' s'(3)
    obtain k where "k < j'" "release (snd (tr' ! k))" by auto
    then show ?thesis using 0 j' s'(3) by (intro exI [of _ "Suc k"]) simp
  next
    case (Suc i')
    then obtain k where "i' < k" "k < j'" "release (snd (tr' ! k))"
      using Cons.IH [OF s'(2) v(2), of i' j'] Cons.prems(3-6) j' s'(3) by auto
    then show ?thesis using Suc j' s'(3) by (intro exI [of _ "Suc k"]) simp
  qed
qed simp

end

text \<open>The rounds of \<^verbatim>\<open>fanctl\<close>: in between, anything outside and the configuration may change.\<close>

definition fan_round :: "'w kernel \<Rightarrow> 'w sysctl \<Rightarrow> 'w sysctl option" where
  "fan_round K s = (case fanctl K s of Some (True, s') \<Rightarrow> Some s' | _ \<Rightarrow> None)"

definition fan_env :: "'w \<times> sysfs \<times> args_t \<Rightarrow> 'w sysctl \<Rightarrow> 'w sysctl" where
  "fan_env i s = (case i of (w, f, a) \<Rightarrow> s\<lparr>world := w, fs := f, args := a\<rparr>)"

definition flags_ok :: "'w sysctl \<Rightarrow> bool" where
  "flags_ok s \<longleftrightarrow> f_warn s \<in> {0, 1} \<and> f_crit s \<in> {0, 1}"

definition new_events :: "'w sysctl \<Rightarrow> 'w sysctl \<Rightarrow> event list" where
  "new_events s s' = drop (length (events s)) (events s')"

definition warned :: "'w sysctl \<Rightarrow> 'w sysctl \<Rightarrow> bool" where
  "warned s s' \<longleftrightarrow> (\<exists>fan t l. SysError (warn_msg fan t l) \<in> set (new_events s s'))"

definition crit_mailed :: "'w sysctl \<Rightarrow> 'w sysctl \<Rightarrow> bool" where
  "crit_mailed s s' \<longleftrightarrow> (\<exists>fan t l. Mail ''CRITICAL'' fan t l \<in> set (new_events s s'))"

text \<open>The facts about a round that all the properties of the warnings rest on.\<close>

lemma fan_round_facts:
  assumes "fan_round K s = Some s'"
  obtains fan log where "args s' = args s"
    "new_events s s' = log @ (if too_hot s' \<and> f_warn s = 0 then warn_events fan (f_temp s') (args s) else [])
       @ (if critical s' \<and> f_crit s = 0 then crit_events fan (f_temp s') (args s) else [])"
    "\<forall>e \<in> set log. \<exists>a b c d. e = FanLog a b c d"
    "f_warn s' = (if too_hot s' \<and> f_warn s = 0 then 1 else if cooled s' \<and> f_warn s = 1 then 0 else f_warn s)"
    "f_crit s' = (if critical s' \<and> f_crit s = 0 then 1 else if uncritical s' \<and> f_crit s = 1 then 0 else f_crit s)"
proof -
  have "fanctl K s = Some (True, s')" using assms by (auto simp: fan_round_def split: option.splits bool.splits)
  then obtain u dtemp s1 where s1: "first_inside s s1" "fan_control (c_trunc (of_int u / 1000)) dtemp s1 = Some s'"
    by (rule fanctl_parts)
  note f = first_insideD [OF s1(1)]
  from s1(2) show ?thesis
  proof (rule fan_control_parts, goal_cases)
    case (1 due pwm)
    show ?thesis
    proof (rule that [of "log_events due (c_trunc (of_int u / 1000)) dtemp (read_pwm s1) (read_fan s1)" "read_fan s1"])
      show "\<forall>e \<in> set (log_events due (c_trunc (of_int u / 1000)) dtemp (read_pwm s1) (read_fan s1)). \<exists>a b c d. e = FanLog a b c d"
        by (simp add: log_events_def)
      show "args s' = args s" using 1(3) f by simp
    qed (unfold new_events_def 1(5-7) f, simp_all)
  qed
qed

lemma script_events_kind: "e \<in> set (script_events c) \<Longrightarrow> \<exists>f. e = Script f None"
  by (auto simp: script_events_def split: option.splits if_splits)

lemma flags_step: "flags_ok s \<Longrightarrow> fan_round K s = Some s' \<Longrightarrow> flags_ok s'"
  by (erule fan_round_facts) (simp add: flags_ok_def)

lemma warned_iff: "fan_round K s = Some s' \<Longrightarrow> warned s s' \<longleftrightarrow> too_hot s' \<and> f_warn s = 0"
  by (erule fan_round_facts)
     (fastforce simp: warned_def warn_events_def crit_events_def dest: script_events_kind split: if_splits)

lemma crit_mailed_iff: "fan_round K s = Some s' \<Longrightarrow> crit_mailed s s' \<longleftrightarrow> critical s' \<and> f_crit s = 0 \<and> mail (args s) \<noteq> 0"
  by (erule fan_round_facts)
     (fastforce simp: crit_mailed_def warn_events_def crit_events_def dest: script_events_kind split: if_splits)

interpretation warn_latch: latched "fan_round K" fan_env flags_ok "\<lambda>s. f_warn s = 1" cooled warned for K
proof unfold_locales
  fix s s' :: "'a sysctl" and i
  show "flags_ok s \<Longrightarrow> flags_ok (fan_env i s)" by (simp add: flags_ok_def fan_env_def split: prod.split)
  show "(f_warn (fan_env i s) = 1) = (f_warn s = 1)" by (simp add: fan_env_def split: prod.split)
  assume ok: "flags_ok s" and r: "fan_round K s = Some s'"
  show "flags_ok s'" using ok r by (rule flags_step)
  show "warned s s' \<Longrightarrow> \<not> f_warn s = 1" using warned_iff [OF r] by simp
  show "warned s s' \<Longrightarrow> f_warn s' = 1" using r warned_iff [OF r] by (auto elim!: fan_round_facts)
  show "f_warn s = 1 \<Longrightarrow> \<not> cooled s' \<Longrightarrow> f_warn s' = 1" using r by (auto elim!: fan_round_facts)
qed

interpretation crit_latch: latched "fan_round K" fan_env flags_ok "\<lambda>s. f_crit s = 1" uncritical crit_mailed for K
proof unfold_locales
  fix s s' :: "'a sysctl" and i
  show "flags_ok s \<Longrightarrow> flags_ok (fan_env i s)" by (simp add: flags_ok_def fan_env_def split: prod.split)
  show "(f_crit (fan_env i s) = 1) = (f_crit s = 1)" by (simp add: fan_env_def split: prod.split)
  assume ok: "flags_ok s" and r: "fan_round K s = Some s'"
  show "flags_ok s'" using ok r by (rule flags_step)
  show "crit_mailed s s' \<Longrightarrow> \<not> f_crit s = 1" using crit_mailed_iff [OF r] by simp
  show "crit_mailed s s' \<Longrightarrow> f_crit s' = 1" using r crit_mailed_iff [OF r] by (auto elim!: fan_round_facts)
  show "f_crit s = 1 \<Longrightarrow> \<not> uncritical s' \<Longrightarrow> f_crit s' = 1" using r by (auto elim!: fan_round_facts)
qed

text \<open>Claim C8. Alarms are latched. However temperatures and configuration change between the rounds, two
  warnings have a round between them in which the smoothed temperature was below the warning temperature, and
  two critical mails one in which it was below the critical temperature: no alarm repeats while its cause
  lasts.\<close>

theorem fan_alarms_released:
  assumes "rounds (fan_round K) fan_env is s = Some tr" "flags_ok s" "i < j" "j < length tr"
  shows "(warned (fst (tr ! i)) (snd (tr ! i)) \<and> warned (fst (tr ! j)) (snd (tr ! j)) \<longrightarrow>
      (\<exists>k. i < k \<and> k < j \<and> cooled (snd (tr ! k)))) \<and>
    (crit_mailed (fst (tr ! i)) (snd (tr ! i)) \<and> crit_mailed (fst (tr ! j)) (snd (tr ! j)) \<longrightarrow>
      (\<exists>k. i < k \<and> k < j \<and> uncritical (snd (tr ! k))))"
  using warn_latch.alarms_released [OF assms] crit_latch.alarms_released [OF assms] by blast

text \<open>Overheating. In the round in which the critical temperature is first exceeded the critical
  mail is sent (if mail is on) and then the critical command is run, with the flag set; but nothing is written
  to the error log, although the code puts a message for it together.\<close>

theorem fan_overheat:
  assumes "fan_round K s = Some s'" "critical s'" "f_crit s = 0"
  shows "f_crit s' = 1 \<and> (\<exists>log fan. new_events s s' = log @ crit_events fan (f_temp s') (args s) \<and>
      (\<forall>e \<in> set log. \<exists>a b c d. e = FanLog a b c d)) \<and> (\<forall>m. SysError m \<notin> set (new_events s s'))"
  using assms(1)
proof (rule fan_round_facts)
  fix fan log
  assume e: "new_events s s' = log @ (if too_hot s' \<and> f_warn s = 0 then warn_events fan (f_temp s') (args s) else [])
       @ (if critical s' \<and> f_crit s = 0 then crit_events fan (f_temp s') (args s) else [])"
    and l: "\<forall>e \<in> set log. \<exists>a b c d. e = FanLog a b c d"
    and c: "f_crit s' = (if critical s' \<and> f_crit s = 0 then 1 else if uncritical s' \<and> f_crit s = 1 then 0 else f_crit s)"
  have "\<not> too_hot s'" using assms(2) by (auto simp: too_hot_def critical_def)
  with e assms(2,3) have n: "new_events s s' = log @ crit_events fan (f_temp s') (args s)" by simp
  then have "\<forall>m. SysError m \<notin> set (new_events s s')"
    using l by (fastforce simp: crit_events_def dest: script_events_kind split: if_splits)
  with n l c assms(2,3) show ?thesis by auto
qed

section \<open>The smoothed temperature\<close>

lemma prod_near:
  fixes c d x :: rat
  assumes "\<bar>c - d\<bar> \<le> e" "\<bar>x\<bar> \<le> b" "0 \<le> e"
  shows "\<bar>c * x - d * x\<bar> \<le> e * b"
proof -
  have "\<bar>c * x - d * x\<bar> = \<bar>c - d\<bar> * \<bar>x\<bar>" by (simp add: abs_mult [symmetric] left_diff_distrib)
  also have "\<dots> \<le> e * b" using assms by (intro mult_mono) auto
  finally show ?thesis .
qed

lemma smooth_near_rule:
  assumes "\<bar>max stemp dtemp\<bar> \<le> 128" "\<bar>temp\<bar> \<le> 129"
  shows "\<bar>smooth stemp dtemp temp - (9 / 10 * of_int (max stemp dtemp) + temp / 10)\<bar> \<le> 1 / 16384"
proof -
  define M :: rat where "M = of_int (max stemp dtemp)"
  define c9 c1 where "c9 = f64 (9 / 10)" and "c1 = f64 (1 / 10)"
  define a b where "a = f64 (c9 * M)" and "b = f64 (c1 * temp)"
  define c where "c = f64 (a + b)"
  have M: "\<bar>M\<bar> \<le> 128" unfolding M_def using assms(1) of_int_le_iff [of "\<bar>max stemp dtemp\<bar>" 128, where 'a = rat] by simp
  note p = pow2_def
  have 9: "\<bar>c9 - 9 / 10\<bar> \<le> 1 / 2 ^ 53" and 1: "\<bar>c1 - 1 / 10\<bar> \<le> 1 / 2 ^ 53"
    unfolding c9_def c1_def using fl_error [of "9 / 10" 0 53] fl_error [of "1 / 10" 0 53] by (simp_all add: p)
  have m9: "\<bar>c9 * M - 9 / 10 * M\<bar> \<le> 1 / 1000000" using prod_near [OF 9 M] by simp
  have m1: "\<bar>c1 * temp - 1 / 10 * temp\<bar> \<le> 1 / 1000000" using prod_near [OF 1 assms(2)] by simp
  note D = abs_le_D1 abs_le_D2
  have xa: "\<bar>c9 * M\<bar> \<le> 128" using D [OF m9] D [OF M] by (intro abs_leI) linarith+
  have a: "\<bar>a - c9 * M\<bar> \<le> 1 / 1000000" unfolding a_def using fl_error [of "c9 * M" 7 53] xa by (simp add: p)
  have xb: "\<bar>c1 * temp\<bar> \<le> 16" using D [OF m1] D [OF assms(2)] by (intro abs_leI) linarith+
  have b: "\<bar>b - c1 * temp\<bar> \<le> 1 / 1000000" unfolding b_def using fl_error [of "c1 * temp" 4 53] xb by (simp add: p)
  have ab: "\<bar>a + b\<bar> \<le> 200" using D [OF a] D [OF b] D [OF xa] D [OF xb] by (intro abs_leI) linarith+
  have c: "\<bar>c - (a + b)\<bar> \<le> 1 / 1000000" unfolding c_def using fl_error [of "a + b" 8 53] ab by (simp add: p)
  have xc: "\<bar>c\<bar> \<le> 512" using D [OF ab] D [OF c] by (intro abs_leI) linarith+
  have r: "\<bar>f32 c - c\<bar> \<le> 1 / 32768" using fl_error [of c 9 24] xc by (simp add: p)
  have s: "smooth stemp dtemp temp = f32 c"
    by (simp add: smooth_def c_def a_def b_def c9_def c1_def M_def max_def not_le [symmetric])
  show ?thesis unfolding s M_def [symmetric] using D [OF a] D [OF b] D [OF c] D [OF r] D [OF m9] D [OF m1] by (intro abs_leI) linarith+
qed

text \<open>Smoothing. For temperatures up to 128 degrees the smoothed temperature the floating-point code
  computes is within 1/16384 degree of nine tenths of the hottest sensor and one tenth of the value
  before.\<close>

theorem smooth_near:
  assumes "\<bar>max stemp dtemp\<bar> \<le> 128" "\<bar>temp\<bar> \<le> 129"
  shows "\<bar>smooth stemp dtemp temp - (9 / 10 * of_int (max stemp dtemp) + temp / 10)\<bar> \<le> 1 / 16384"
  using assms by (rule smooth_near_rule)

lemma smooth_near_witness: "\<bar>smooth 58 0 40 - 281 / 5\<bar> \<le> 1 / 16384"
  using smooth_near [of 58 0 40] by simp

section \<open>The automatic mode\<close>

text \<open>The thermostat the three levels are meant to be: a relay with hysteresis for the first level, one for the
  second, and a fan that moves one level at a time.\<close>

definition relay :: "rat \<Rightarrow> rat \<Rightarrow> rat \<Rightarrow> bool \<Rightarrow> bool" where
  "relay dn up t b = (if t < dn then False else if t > up then True else b)"

definition dn1 :: "args_t \<Rightarrow> rat" where "dn1 a = f32 (to_f (fan_off_temp a) - hist_temp a)"
definition up1 :: "args_t \<Rightarrow> rat" where "up1 a = f32 (to_f (fan_off_temp a) + hist_temp a)"
definition dn2 :: "args_t \<Rightarrow> rat" where "dn2 a = f32 (to_f (lo_temp a) - hist_temp a)"
definition up2 :: "args_t \<Rightarrow> rat" where "up2 a = f32 (to_f (lo_temp a) + hist_temp a)"

definition two_relays :: "args_t \<Rightarrow> rat \<Rightarrow> nat \<Rightarrow> nat" where
  "two_relays a t k = of_bool (relay (dn1 a) (up1 a) t (1 \<le> k)) + of_bool (relay (dn2 a) (up2 a) t (2 \<le> k))"

definition one_step :: "nat \<Rightarrow> nat \<Rightarrow> nat" where
  "one_step k n = (if k < n then k + 1 else if n < k then k - 1 else k)"

definition thermostat :: "args_t \<Rightarrow> rat \<Rightarrow> nat \<Rightarrow> nat" where
  "thermostat a t k = one_step k (two_relays a t k)"

definition pwm_of :: "nat \<Rightarrow> int" where
  "pwm_of k = (if k = 0 then PWM_OFF else if k = 1 then PWM_LOW else PWM_FAST)"

text \<open>The limits have to be in order, as with \<^verbatim>\<open>fan_off_temp\<close> not above \<^verbatim>\<open>lo_temp\<close> and \<^verbatim>\<open>hist_temp\<close> not negative.\<close>

definition limits_ok :: "args_t \<Rightarrow> bool" where
  "limits_ok a \<longleftrightarrow> dn1 a \<le> up1 a \<and> up1 a \<le> up2 a \<and> dn1 a \<le> dn2 a \<and> dn2 a \<le> up2 a"

lemma level_cases: "(k :: nat) \<le> 2 \<Longrightarrow> k = 0 \<or> k = 1 \<or> k = 2"
  by auto

lemma auto_thermostat:
  assumes "limits_ok a" "k \<le> 2"
  shows "pwm_auto a t (3000 * int k) = pwm_of (thermostat a t k)"
proof -
  note defs = pwm_auto_def thermostat_def one_step_def two_relays_def relay_def pwm_of_def
    RPM_OFF_def RPM_LOW_def RPM_FAST_def dn1_def [symmetric] up1_def [symmetric] dn2_def [symmetric] up2_def [symmetric]
  show ?thesis using level_cases [OF assms(2)] assms(1) unfolding limits_ok_def
    by (elim disjE) (auto simp: defs)
qed

text \<open>Claim C4. The automatic mode is a thermostat. With limits in order, at each of the three speeds the code
  knows, the pwm value it writes is that of the specification: two relays with hysteresis, one level at a
  time. Any other measured speed gives the low speed.\<close>

theorem fan_control_thermostat:
  assumes "fan_control stemp dtemp s = Some s'" "board s \<noteq> DNS_323_A1" "board s \<noteq> DNS_323_B1"
    and "fan_mode (args s) = FAN_AUTO" "limits_ok (args s)" "\<not> sf_ro (fs s) sys_pwm"
  shows "(\<forall>k \<le> 2. read_fan s = 3000 * int k \<longrightarrow> read_pwm s' = pwm_of (thermostat (args s) (smooth stemp dtemp (f_temp s)) k)) \<and>
    (read_fan s \<notin> {0, 3000, 6000} \<longrightarrow> read_pwm s' = PWM_LOW)"
  using assms(1)
proof (rule fan_control_parts)
  fix pwm
  assume p: "fan_pwm (board s) (args s) (f_temp s') (read_fan s) (read_pwm s) = Some pwm"
    and t: "f_temp s' = smooth stemp dtemp (f_temp s)" and f: "fs s' = fs (write_pwm pwm s)"
  have pwm: "pwm = pwm_auto (args s) (f_temp s') (read_fan s)" using p assms(2-4) by (simp add: fan_pwm_def)
  then have "0 \<le> pwm \<and> pwm \<le> 255" by (simp add: pwm_auto_def PWM_OFF_def PWM_LOW_def PWM_FAST_def)
  then have "read_pwm s' = pwm" using assms(6) by (simp add: read_pwm_def f write_pwm_def read_write_int)
  moreover have "pwm = pwm_of (thermostat (args s) (f_temp s') k)" if "k \<le> 2" "read_fan s = 3000 * int k" for k
    using auto_thermostat [OF assms(5) that(1)] pwm that(2) by simp
  moreover have "pwm = PWM_LOW" if "read_fan s \<notin> {0, 3000, 6000}"
    using that pwm by (simp add: pwm_auto_def RPM_OFF_def RPM_LOW_def RPM_FAST_def)
  ultimately show ?thesis using t by simp
qed

lemma scan_int_range: "u < 2 ^ 31 \<Longrightarrow> scan_int buf u < 2 ^ 31"
  using c_atoi_range [of buf] by (auto simp: scan_int_def c_atoi_def split: prod.splits)

lemma fan_control_defined_rule:
  assumes "board s \<noteq> DNS_323_A1" "board s \<noteq> DNS_323_B1" "0 \<le> read_fan s" "0 \<le> f_log_fan s" "f_log_fan s < 2 ^ 31"
    and "\<not> sf_ro (fs s) sys_pwm"
  shows "\<exists>s'. fan_control stemp dtemp s = Some s' \<and> read_pwm s' \<in> {PWM_OFF, PWM_LOW, PWM_FAST} \<and> 0 \<le> f_log_fan s' \<and> f_log_fan s' < 2 ^ 31"
proof -
  have hi: "read_fan s < 2 ^ 31"
    using scan_int_range by (auto simp: read_fan_def read_int_from_file_def split: option.split)
  define s1 where "s1 = s\<lparr>f_temp := smooth stemp dtemp (f_temp s)\<rparr>"
  have rd: "read_fan s1 = read_fan s" "board s1 = board s" "f_log_fan s1 = f_log_fan s" "sf_ro (fs s1) = sf_ro (fs s)"
    by (simp_all add: s1_def read_fan_def)
  obtain due where due: "fan_log_due (read_fan s1) s1 = Some due"
  proof -
    have "c_int (read_fan s1 - f_log_fan s1) = Some (read_fan s1 - f_log_fan s1)"
      "c_int \<bar>read_fan s1 - f_log_fan s1\<bar> = Some \<bar>read_fan s1 - f_log_fan s1\<bar>"
      using assms(3-5) hi by (auto simp: c_int_def rd)
    then show ?thesis by (cases "\<bar>f32 (f_temp s1 - f_log_temp s1)\<bar> > 1") (auto simp: fan_log_due_def intro: that)
  qed
  define s2 where "s2 = (if due then fanlog stemp dtemp (read_pwm s1) (read_fan s1) (s1\<lparr>f_log_temp := f_temp s1, f_log_fan := read_fan s1\<rparr>) else s1)"
  have l: "0 \<le> f_log_fan s2 \<and> f_log_fan s2 < 2 ^ 31" "board s2 = board s" "sf_ro (fs s2) = sf_ro (fs s)"
    using assms hi by (simp_all add: s2_def fanlog_def rd)
  obtain pwm where pwm: "fan_pwm (board s2) (args s2) (f_temp s2) (read_fan s1) (read_pwm s1) = Some pwm" "pwm \<in> {PWM_OFF, PWM_LOW, PWM_FAST}"
    using assms(1,2) l(2) by (auto simp: fan_pwm_def pwm_auto_def split: fan_mode.split)
  let ?r = "fan_crit (read_fan s1) (fan_warn (read_fan s1) (write_pwm pwm s2))"
  have "fan_control stemp dtemp s = Some ?r"
    using due pwm(1) by (simp add: fan_control_def Let_def s1_def [symmetric] s2_def)
  moreover have "f_log_fan ?r = f_log_fan s2" "fs ?r = fs (write_pwm pwm s2)" by (simp_all add: fan_crit_eq fan_warn_eq write_pwm_def)
  moreover have "read_int_from_file (fs (write_pwm pwm s2)) sys_pwm 0 = Some pwm"
    using assms(6) l(3) pwm(2) by (auto simp: write_pwm_def read_write_int PWM_OFF_def PWM_LOW_def PWM_FAST_def)
  ultimately show ?thesis using l(1) pwm(2) by (auto simp: read_pwm_def)
qed

text \<open>Claim C35. The control is defined. On the boards with the three levels a round never leaves defined
  behaviour when the measured speed and the one last logged are not negative, which it preserves, and the
  pwm value written is one of the three.\<close>

theorem fan_control_defined:
  assumes "board s \<noteq> DNS_323_A1" "board s \<noteq> DNS_323_B1" "0 \<le> read_fan s" "0 \<le> f_log_fan s" "f_log_fan s < 2 ^ 31"
    and "\<not> sf_ro (fs s) sys_pwm"
  shows "\<exists>s'. fan_control stemp dtemp s = Some s' \<and> read_pwm s' \<in> {PWM_OFF, PWM_LOW, PWM_FAST} \<and> 0 \<le> f_log_fan s' \<and> f_log_fan s' < 2 ^ 31"
  using assms by (rule fan_control_defined_rule)

section \<open>The old boards\<close>

text \<open>Equal temperature limits. On the DNS-323 A1 and B1, with \<^verbatim>\<open>lo_temp\<close> and \<^verbatim>\<open>hi_temp\<close> equal in the
  configuration, the control divides by zero as soon as the temperature is above the switching point, and converts a
  NaN or an infinity to an integer.\<close>

theorem fan_323_equal_limits:
  assumes "board s = DNS_323_A1 \<or> board s = DNS_323_B1" "hi_temp (args s) = lo_temp (args s)" "0 \<le> hist_temp (args s)"
    and "smooth stemp dtemp (f_temp s) > up1 (args s)" "dn1 (args s) \<le> up1 (args s)"
  shows "fan_control stemp dtemp s = None"
proof (rule ccontr)
  assume "fan_control stemp dtemp s \<noteq> None"
  then obtain s' where "fan_control stemp dtemp s = Some s'" by blast
  then show False
  proof (rule fan_control_parts)
    fix pwm
    assume p: "fan_pwm (board s) (args s) (f_temp s') (read_fan s) (read_pwm s) = Some pwm"
      and t: "f_temp s' = smooth stemp dtemp (f_temp s)"
    have "\<not> f_temp s' < dn1 (args s)" "f_temp s' > up1 (args s)" using t assms(4,5) by simp_all
    with p assms(1,2) show False
      by (auto simp: fan_pwm_def pwm_323_def fan_line_def c_int_def dn1_def up1_def bind_eq_Some_conv split: if_splits)
  qed
qed

section \<open>The lock\<close>

text \<open>The lock around the sensor. \<^verbatim>\<open>read_temp\<close> ends the program only when the lock could not be made in 101
  attempts and its owner is another process that is alive, which it reports. Otherwise it
  returns with its pid file removed and no other file changed.\<close>

theorem read_temp_lock:
  assumes "read_temp K s = (r, s')"
  shows "case r of
     None \<Rightarrow> (\<exists>u w. read_int_from_file (fs s) lock_pid 0 = Some u \<and> k_pid K w \<noteq> u \<and> k_alive K u w \<and> world s' = w \<and>
        (\<exists>m. events s' = events s @ [SysError m]) \<and> fs s' = fs s)
   | Some t \<Rightarrow> events s' = events s \<and> sf_files (fs s') lock_pid = None \<and>
       (\<forall>f. f \<noteq> lock_pid \<longrightarrow> sf_files (fs s') f = sf_files (fs s) f)"
proof -
  have st: "snd (stale_lock K s) = s \<and> fst (stale_lock K s) \<or> \<not> fst (stale_lock K s) \<and>
      (\<exists>u. read_int_from_file (fs s) lock_pid 0 = Some u \<and> k_pid K (world s) \<noteq> u \<and> k_alive K u (world s) \<and>
        (\<exists>m. snd (stale_lock K s) = syserrorlog m s))" for s
    by (auto simp: stale_lock_def split: option.split)
  have lp: "fs s1 = fs s \<and> (if ok then events s1 = events s else
      (\<exists>u. read_int_from_file (fs s) lock_pid 0 = Some u \<and> k_pid K (world s1) \<noteq> u \<and> k_alive K u (world s1) \<and>
        (\<exists>m. events s1 = events s @ [SysError m])))" if "dolock_loop K n s = (ok, s1)" for n ok s1 s
    using that
  proof (induction n arbitrary: s)
    case 0
    obtain b w where w: "k_mkdir K (world s) = (b, w)" by fastforce
    show ?case using 0 w st [of "s\<lparr>world := w\<rparr>"] by (auto simp: syserrorlog_def split: if_splits)
  next
    case (Suc n)
    obtain b w where w: "k_mkdir K (world s) = (b, w)" by fastforce
    show ?case using Suc.prems w Suc.IH [of "s\<lparr>world := w\<rparr>"] by (auto split: if_splits)
  qed
  obtain ok s1 where l: "dolock_loop K 100 s = (ok, s1)" by fastforce
  show ?thesis using lp [OF l] assms l
    by (auto simp: read_temp_def dolock_def clearlock_def syswrite_def write_str_to_file_def split: if_splits)
qed

section \<open>Examples\<close>

definition sensor_files :: "string \<Rightarrow> string \<Rightarrow> sysfs" where
  "sensor_files t rpm = no_files\<lparr>sf_files := (sf_files no_files)(sys_temp_input \<mapsto> t @ [CHR 0x0A],
     sys_fan_input \<mapsto> rpm @ [CHR 0x0A])\<rparr>"

definition fan_state :: "int sysctl" where
  "fan_state = (sys_init 0 no_files)\<lparr>board := DNS_325_Ax, f_temp := 40\<rparr>"

text \<open>54 degrees, then 0, and 58: two warnings.\<close>

definition hot_cold_hot :: "(int \<times> sysfs \<times> args_t) list" where
  "hot_cold_hot = [(0, sensor_files ''54000'' ''3000'', default_args), (1, sensor_files ''0'' ''3000'', default_args),
     (2, sensor_files ''58000'' ''3000'', default_args)]"

lemma rounds_step:
  "rounds step env is s = Some tr \<Longrightarrow> k < length tr \<Longrightarrow> step (fst (tr ! k)) = Some (snd (tr ! k))"
  by (induction "is" arbitrary: s tr k) (auto simp: nth_Cons split: option.splits nat.split)

text \<open>A round of the machine at rest.\<close>

lemma still_read_temp:
  "read_temp still_kernel s = (Some (case read_int_from_file (fs (syswrite lock_pid ''1'' s)) sys_temp_input 0 of None \<Rightarrow> 0 | Some u \<Rightarrow> u),
     clearlock still_kernel (syswrite lock_pid ''1'' s))"
proof -
  have "dolock_loop still_kernel 100 s = (True, s\<lparr>world := world s\<rparr>)"
    using dolock_loop.simps(2) [of still_kernel 99 s] by (simp add: still_kernel_def)
  moreover have "show_int 1 = ''1''" by (simp add: show_int_def show_nat.simps char_of_def bit_0)
  ultimately show ?thesis by (simp add: read_temp_def dolock_def still_kernel_def)
qed

definition ready :: "int sysctl \<Rightarrow> bool" where
  "ready s \<longleftrightarrow> board s = DNS_325_Ax \<and> f_temp s \<noteq> 0 \<and> args s = default_args \<and> 0 \<le> f_log_fan s \<and> f_log_fan s < 2 ^ 31"

lemma still_round:
  assumes "ready s" "fs s = sensor_files t ''3000''" "read_int_from_file (sensor_files t ''3000'') sys_temp_input 0 = Some u"
  shows "\<exists>s'. fan_round still_kernel s = Some s' \<and> f_temp s' = smooth (c_trunc (of_int u / 1000)) 0 (f_temp s) \<and>
     (f_temp s' \<noteq> 0 \<longrightarrow> ready s')"
proof -
  define s1 where "s1 = clearlock still_kernel (syswrite lock_pid ''1'' s)"
  have names: "sys_temp_input \<noteq> lock_pid" "sys_fan_input \<noteq> lock_pid" "sys_fan_input \<noteq> sys_temp_input" "sys_pwm \<noteq> lock_pid"
    by (simp_all add: sys_temp_input_def sys_fan_input_def lock_pid_def sys_pwm_def)
  have r: "read_temp still_kernel s = (Some u, s1)"
    using assms(3) read_int_other [OF names(1)] by (simp add: still_read_temp s1_def syswrite_def assms(2))
  have s1: "board s1 = board s" "args s1 = args s" "f_log_fan s1 = f_log_fan s" "f_temp s1 = f_temp s"
    by (simp_all add: s1_def clearlock_def syswrite_def)
  have fan: "0 \<le> read_fan s1"
  proof -
    have "read_fan s1 = read_fan s" using names
      by (simp add: s1_def clearlock_def syswrite_def read_fan_def read_int_from_file_def read_str_from_file_def write_str_to_file_def)
    also have "\<dots> = 3000" using names(3)
      by (simp add: read_fan_def assms(2) read_int_from_file_def read_str_from_file_def sensor_files_def Let_def c_string_def scan_int_def)
         code_simp
    finally show ?thesis by simp
  qed
  have ro: "\<not> sf_ro (fs s1) sys_pwm"
    by (simp add: s1_def clearlock_def syswrite_def assms(2) sensor_files_def no_files_def)
  obtain s' where s': "fan_control (c_trunc (of_int u / 1000)) 0 s1 = Some s'" "0 \<le> f_log_fan s'" "f_log_fan s' < 2 ^ 31"
    using fan_control_defined_rule [of s1 "c_trunc (of_int u / 1000)" 0] fan ro s1 assms(1) by (auto simp: ready_def)
  have d: "disks_part still_kernel s1 = Some (0, s1)" using s1 assms(1) by (simp add: disks_part_def ready_def default_args_def)
  have "fan_round still_kernel s = Some s'"
    using assms(1) r d s'(1) by (simp add: fan_round_def fanctl_def fan_first_def ready_def)
  moreover have "f_temp s' = smooth (c_trunc (of_int u / 1000)) 0 (f_temp s)" "args s' = args s"
    using s'(1) s1 by (auto elim: fan_control_parts)
  moreover have "board s' = board s"
    using s'(1) s1(1) by (auto simp: fan_control_def Let_def bind_eq_Some_conv fan_crit_eq fan_warn_eq write_pwm_def fanlog_def)
  ultimately show ?thesis using assms(1) s'(2,3) by (auto simp: ready_def)
qed

lemma sensor_54: "read_int_from_file (sensor_files ''54000'' ''3000'') sys_temp_input 0 = Some 54000" by code_simp
lemma sensor_58: "read_int_from_file (sensor_files ''58000'' ''3000'') sys_temp_input 0 = Some 58000" by code_simp
lemma sensor_0: "read_int_from_file (sensor_files ''0'' ''3000'') sys_temp_input 0 = Some 0" by code_simp
lemma sensor_70: "read_int_from_file (sensor_files ''70000'' ''3000'') sys_temp_input 0 = Some 70000" by code_simp

lemma whole_degrees: "c_trunc (numeral k) = numeral k" "c_trunc 0 = 0"
  by (simp_all add: c_trunc_def)

lemma smooth_bounds:
  assumes "\<bar>max stemp dtemp\<bar> \<le> 128" "\<bar>temp\<bar> \<le> 129"
  shows "9 / 10 * of_int (max stemp dtemp) + temp / 10 - 1 / 16384 \<le> smooth stemp dtemp temp"
    "smooth stemp dtemp temp \<le> 9 / 10 * of_int (max stemp dtemp) + temp / 10 + 1 / 16384"
  using smooth_near_rule [OF assms] by linarith+

lemma default_limits: "to_f 52 = 52" "to_f 54 = 54"
  by code_simp+

lemma env_ready: "ready (fan_env (w, f, default_args) s) = (ready s \<or> ready (fan_env (w, f, default_args) s))"
  "fs (fan_env (w, f, a) s) = f" "f_temp (fan_env (w, f, a) s) = f_temp s" "ready s \<Longrightarrow> ready (fan_env (w, f, default_args) s)"
  by (auto simp: fan_env_def ready_def)

lemma hot_cold_hot_run:
  "\<exists>tr. rounds (fan_round still_kernel) fan_env hot_cold_hot fan_state = Some tr \<and> length tr = 3 \<and>
     warned (fst (tr ! 0)) (snd (tr ! 0)) \<and> warned (fst (tr ! 2)) (snd (tr ! 2))"
proof -
  define e where "e = (\<lambda>w t s. fan_env (w, sensor_files t ''3000'', default_args) s :: int sysctl)"
  note ev = env_ready(2-4)
  have r0: "ready fan_state" "f_temp fan_state = 40" by (simp_all add: ready_def fan_state_def sys_init_def)
  obtain s1 where s1: "fan_round still_kernel (e 0 ''54000'' fan_state) = Some s1" "f_temp s1 = smooth 54 0 40" "f_temp s1 \<noteq> 0 \<longrightarrow> ready s1"
    using still_round [of "e 0 ''54000'' fan_state" "''54000''" 54000] sensor_54 r0 by (auto simp: e_def ev whole_degrees)
  have t1: "52 < f_temp s1" "f_temp s1 < 53" using smooth_bounds [of 54 0 40] by (simp_all add: s1(2) field_simps)
  obtain s2 where s2: "fan_round still_kernel (e 1 ''0'' s1) = Some s2" "f_temp s2 = smooth 0 0 (f_temp s1)" "f_temp s2 \<noteq> 0 \<longrightarrow> ready s2"
    using still_round [of "e 1 ''0'' s1" "''0''" 0] sensor_0 s1(3) t1 by (auto simp: e_def ev whole_degrees)
  have t2: "5 < f_temp s2" "f_temp s2 < 6" using smooth_bounds [of 0 0 "f_temp s1"] t1 by (simp_all add: s2(2) field_simps)
  obtain s3 where s3: "fan_round still_kernel (e 2 ''58000'' s2) = Some s3" "f_temp s3 = smooth 58 0 (f_temp s2)" "f_temp s3 \<noteq> 0 \<longrightarrow> ready s3"
    using still_round [of "e 2 ''58000'' s2" "''58000''" 58000] sensor_58 s2(3) t2 by (auto simp: e_def ev whole_degrees)
  have t3: "52 < f_temp s3" "f_temp s3 < 54" using smooth_bounds [of 58 0 "f_temp s2"] t2 by (simp_all add: s3(2) field_simps)
  have r: "ready s1" "ready s2" "ready s3" using t1 t2 t3 s1(3) s2(3) s3(3) by simp_all
  then have "too_hot s1" "cooled s2" "too_hot s3" using t1 t2 t3
    by (simp_all add: too_hot_def cooled_def ready_def default_args_def default_limits)
  moreover have w: "f_warn (e w t s) = f_warn s" "f_crit (e w t s) = f_crit s" for w t s
    by (simp_all add: e_def fan_env_def)
  have ok: "flags_ok (e 0 ''54000'' fan_state)" by (simp add: flags_ok_def w) (simp add: fan_state_def sys_init_def)
  from flags_step [OF ok s1(1)] have "flags_ok (e 1 ''0'' s1)" by (simp add: flags_ok_def w)
  with s2(1) \<open>cooled s2\<close> have "f_warn s2 = 0"
    by (elim fan_round_facts) (auto simp: too_hot_def cooled_def flags_ok_def)
  moreover have "f_warn fan_state = 0" by (simp add: fan_state_def sys_init_def)
  ultimately have "warned (e 0 ''54000'' fan_state) s1" "warned (e 2 ''58000'' s2) s3"
    using warned_iff [OF s1(1)] warned_iff [OF s3(1)] w by simp_all
  moreover have "rounds (fan_round still_kernel) fan_env hot_cold_hot fan_state =
      Some [(e 0 ''54000'' fan_state, s1), (e 1 ''0'' s1, s2), (e 2 ''58000'' s2, s3)]"
    using s1(1) s2(1) s3(1) by (simp add: hot_cold_hot_def e_def)
  ultimately show ?thesis by simp
qed

lemma fan_alarms_released_witness:
  "\<exists>tr. rounds (fan_round still_kernel) fan_env hot_cold_hot fan_state = Some tr \<and>
     warned (fst (tr ! 0)) (snd (tr ! 0)) \<and> warned (fst (tr ! 2)) (snd (tr ! 2)) \<and> (\<exists>k. 0 < k \<and> k < 2 \<and> cooled (snd (tr ! k)))"
proof -
  obtain tr where tr: "rounds (fan_round still_kernel) fan_env hot_cold_hot fan_state = Some tr" "length tr = 3"
    "warned (fst (tr ! 0)) (snd (tr ! 0))" "warned (fst (tr ! 2)) (snd (tr ! 2))"
    using hot_cold_hot_run by blast
  have "flags_ok fan_state" by (simp add: flags_ok_def fan_state_def sys_init_def)
  from fan_alarms_released [OF tr(1) this, of 0 2] tr show ?thesis by auto
qed

definition hot_state :: "int sysctl" where
  "hot_state = fan_state\<lparr>fs := sensor_files ''70000'' ''3000''\<rparr>"

lemma hot_state_ready: "ready hot_state" "fs hot_state = sensor_files ''70000'' ''3000''" "f_temp hot_state = 40"
  by (simp_all add: hot_state_def fan_state_def ready_def sys_init_def)

lemma fan_overheat_witness:
  "\<exists>s'. fan_round still_kernel hot_state = Some s' \<and> f_crit s' = 1 \<and> (\<forall>m. SysError m \<notin> set (new_events hot_state s'))"
proof -
  obtain s' where s': "fan_round still_kernel hot_state = Some s'" "f_temp s' = smooth 70 0 40" "f_temp s' \<noteq> 0 \<longrightarrow> ready s'"
    using still_round [OF hot_state_ready(1,2) sensor_70] by (auto simp: hot_state_ready whole_degrees)
  have t: "54 < f_temp s'" using smooth_bounds [of 70 0 40] by (simp add: s'(2) field_simps)
  then have "critical s'" using s'(3) by (simp add: critical_def ready_def default_args_def default_limits)
  moreover have "f_crit hot_state = 0" by (simp add: hot_state_def fan_state_def sys_init_def)
  ultimately show ?thesis using fan_overheat [OF s'(1)] s'(1) by blast
qed

lemma hot_state_plain:
  "board hot_state \<noteq> DNS_323_A1" "board hot_state \<noteq> DNS_323_B1" "fan_mode (args hot_state) = FAN_AUTO"
  "\<not> sf_ro (fs hot_state) sys_pwm" "0 \<le> f_log_fan hot_state" "f_log_fan hot_state < 2 ^ 31"
  by (simp_all add: hot_state_def fan_state_def sys_init_def default_args_def sensor_files_def no_files_def)

lemma hot_state_fan: "read_fan hot_state = 3000"
  by code_simp

lemma fan_control_thermostat_witness:
  "\<exists>s'. fan_control 70 0 hot_state = Some s' \<and>
     read_pwm s' = pwm_of (thermostat (args hot_state) (smooth 70 0 (f_temp hot_state)) 1)"
proof -
  obtain s' where s': "fan_control 70 0 hot_state = Some s'"
    using fan_control_defined_rule [OF hot_state_plain(1,2) _ hot_state_plain(5,6,4)] hot_state_fan by auto
  have l: "limits_ok (args hot_state)" by code_simp
  from fan_control_thermostat [OF s' hot_state_plain(1-3) l hot_state_plain(4)] s' hot_state_fan show ?thesis by auto
qed

lemma fan_control_defined_witness:
  "\<exists>s'. fan_control 70 0 hot_state = Some s' \<and> read_pwm s' \<in> {PWM_OFF, PWM_LOW, PWM_FAST}"
  using fan_control_defined [OF hot_state_plain(1,2) _ hot_state_plain(5,6,4)] hot_state_fan by auto

definition equal_limits_state :: "int sysctl" where
  "equal_limits_state = hot_state\<lparr>board := DNS_323_B1, args := default_args\<lparr>lo_temp := 50\<rparr>\<rparr>"

lemma fan_323_equal_limits_witness:
  "fan_control 70 0 equal_limits_state = None"
proof (rule fan_323_equal_limits)
  have "up1 (args equal_limits_state) = 40" by code_simp
  then show "smooth 70 0 (f_temp equal_limits_state) > up1 (args equal_limits_state)"
    using smooth_bounds [of 70 0 40] by (simp add: equal_limits_state_def hot_state_ready field_simps)
  show "dn1 (args equal_limits_state) \<le> up1 (args equal_limits_state)" by code_simp
qed (simp_all add: equal_limits_state_def default_args_def)

lemma read_temp_lock_witness:
  "\<exists>t s'. read_temp still_kernel hot_state = (Some t, s') \<and> sf_files (fs s') lock_pid = None"
proof -
  obtain r s' where r: "read_temp still_kernel hot_state = (r, s')" by fastforce
  have "fst (read_temp still_kernel hot_state) = Some 70000" by code_simp
  with r read_temp_lock [OF r] show ?thesis by auto
qed

end
