(* ===== verification/McuProtocol.thy ===== *)
theory McuProtocol
  imports Prelude "HOL-Library.Monad_Syntax" "HOL-Library.Signed_Division"
begin

text \<open>
  The wire protocol of \<^verbatim>\<open>dns320l-daemon.c\<close>: packets between the daemon and the microcontroller
  (MCU) of the DNS-320L over a serial port. The serial port, and the 16 indeterminate bytes of the
  local buffer of \<^verbatim>\<open>_SendCommand\<close>, are a parameter (record \<open>port\<close>) over a state \<open>'s\<close> of the
  outside world: reads may return fewer bytes than asked (time-out, error), writes may fail.
  Undefined behaviour of the C code (an overrun buffer) is the result \<open>None\<close>. Characters are
  unsigned, as on the ARM targets of the firmware. Log messages are not modelled, the buffers they
  are formatted into are.
\<close>

section \<open>Constants and the command table (\<^verbatim>\<open>dns320l.h\<close>)\<close>

definition SUCCESS :: int where
  "SUCCESS = 0"
definition ERR_WRONG_ANSWER :: int where
  "ERR_WRONG_ANSWER = -1"
definition ERR_WRITE_ERROR :: int where
  "ERR_WRITE_ERROR = -2"
definition CMD_START_MAGIC :: byte where
  "CMD_START_MAGIC = 0xfa"
definition CMD_STOP_MAGIC :: byte where
  "CMD_STOP_MAGIC = 0xfb"

datatype cmd_name = RDateAndTimeCmd | WDateAndTimeCmd | RAlarmMonthCmd | WAlarmMonthCmd
  | RAlarmDateCmd | WAlarmDateCmd | RAlarmHourCmd | WAlarmHourCmd | RAlarmMinuteCmd | WAlarmMinuteCmd
  | RAlarmSecondCmd | WAlarmSecondCmd | RAlarmFlagCmd | WAlarmDisableCmd | WAlarmEnableCmd
  | FanStopCmd | FanHalfCmd | FanFullCmd | DeviceReadyCmd | APRDisableCmd | APREnableCmd | APRStatusCmd
  | DeviceShutdownCmd | PwrLedOffCmd | PwrLedOnCmd | PwrLedBlinkCmd | ThermalStatusGetCmd
  | WOLStatusDisableCmd | WOLStatusEnableCmd | WOLStatusGetCmd

text \<open>The initial contents of the command arrays. The arrays are writable globals, so the state of
  the daemon holds a copy of this table.\<close>

fun cmd_init :: "cmd_name \<Rightarrow> byte list" where
  "cmd_init RDateAndTimeCmd = [0xfa, 0x01, 0x08, 0x01, 0x01, 0x00, 0xfb]"
| "cmd_init WDateAndTimeCmd = [0xfa, 0x01, 0x08, 0x02, 0x07, 0x17, 0x06, 0x21, 0x02, 0x10, 0x09, 0x13, 0xfb]"
| "cmd_init RAlarmMonthCmd = [0xfa, 0x01, 0x0a, 0x01, 0x01, 0x00, 0xfb]"
| "cmd_init WAlarmMonthCmd = [0xfa, 0x01, 0x0a, 0x02, 0x01, 0x00, 0xfb]"
| "cmd_init RAlarmDateCmd = [0xfa, 0x01, 0x0b, 0x01, 0x01, 0x00, 0xfb]"
| "cmd_init WAlarmDateCmd = [0xfa, 0x01, 0x0b, 0x02, 0x01, 0x00, 0xfb]"
| "cmd_init RAlarmHourCmd = [0xfa, 0x01, 0x0c, 0x01, 0x01, 0x00, 0xfb]"
| "cmd_init WAlarmHourCmd = [0xfa, 0x01, 0x0c, 0x02, 0x01, 0x00, 0xfb]"
| "cmd_init RAlarmMinuteCmd = [0xfa, 0x01, 0x0d, 0x01, 0x01, 0x00, 0xfb]"
| "cmd_init WAlarmMinuteCmd = [0xfa, 0x01, 0x0d, 0x02, 0x01, 0x00, 0xfb]"
| "cmd_init RAlarmSecondCmd = [0xfa, 0x01, 0x0e, 0x01, 0x01, 0x00, 0xfb]"
| "cmd_init WAlarmSecondCmd = [0xfa, 0x01, 0x0e, 0x02, 0x01, 0x00, 0xfb]"
| "cmd_init RAlarmFlagCmd = [0xfa, 0x01, 0x0f, 0x01, 0x01, 0x00, 0xfb]"
| "cmd_init WAlarmDisableCmd = [0xfa, 0x01, 0x10, 0x02, 0x01, 0x00, 0xfb]"
| "cmd_init WAlarmEnableCmd = [0xfa, 0x01, 0x10, 0x02, 0x01, 0x01, 0xfb]"
| "cmd_init FanStopCmd = [0xfa, 0x02, 0x00, 0x00, 0x00, 0x00, 0xfb]"
| "cmd_init FanHalfCmd = [0xfa, 0x02, 0x00, 0x01, 0x00, 0x00, 0xfb]"
| "cmd_init FanFullCmd = [0xfa, 0x02, 0x00, 0x02, 0x00, 0x00, 0xfb]"
| "cmd_init DeviceReadyCmd = [0xfa, 0x03, 0x01, 0x00, 0x00, 0x00, 0xfb]"
| "cmd_init APRDisableCmd = [0xfa, 0x03, 0x02, 0x00, 0x00, 0x00, 0xfb]"
| "cmd_init APREnableCmd = [0xfa, 0x03, 0x02, 0x01, 0x00, 0x00, 0xfb]"
| "cmd_init APRStatusCmd = [0xfa, 0x03, 0x02, 0x02, 0x00, 0x00, 0xfb]"
| "cmd_init DeviceShutdownCmd = [0xfa, 0x03, 0x03, 0x01, 0x01, 0x05, 0xfb]"
| "cmd_init PwrLedOffCmd = [0xfa, 0x03, 0x06, 0x00, 0x00, 0x01, 0xfb]"
| "cmd_init PwrLedOnCmd = [0xfa, 0x03, 0x06, 0x01, 0x00, 0x01, 0xfb]"
| "cmd_init PwrLedBlinkCmd = [0xfa, 0x03, 0x06, 0x02, 0x00, 0x01, 0xfb]"
| "cmd_init ThermalStatusGetCmd = [0xfa, 0x03, 0x08, 0x00, 0x00, 0x00, 0xfb]"
| "cmd_init WOLStatusDisableCmd = [0xfa, 0x03, 0x0a, 0x00, 0x00, 0x00, 0xfb]"
| "cmd_init WOLStatusEnableCmd = [0xfa, 0x03, 0x0a, 0x01, 0x00, 0x00, 0xfb]"
| "cmd_init WOLStatusGetCmd = [0xfa, 0x03, 0x0a, 0x02, 0x00, 0x00, 0xfb]"

definition AckFromSerial :: "byte list" where
  "AckFromSerial = [0xfa, 0x30, 0x00, 0x00, 0x00, 0x00, 0xfb]"

section \<open>Binary coded decimals\<close>

definition bcd2int :: "int \<Rightarrow> int" where
  "bcd2int n = (n AND 0x0f) + 10 * drop_bit 4 (n AND 0xf0)"

text \<open>\<^verbatim>\<open>/\<close> and \<^verbatim>\<open>%\<close> of C round towards zero. The callers store the result in a \<^verbatim>\<open>char\<close>.\<close>

definition int2bcd :: "int \<Rightarrow> int" where
  "int2bcd n = push_bit 4 (n sdiv 10) + n smod 10"

lemma int2bcd_nonneg: "0 \<le> n \<Longrightarrow> int2bcd n = 16 * (n div 10) + n mod 10"
  by (simp add: int2bcd_def push_bit_eq_mult signed_divide_int_def signed_modulo_int_def sgn_if)

lemma bcd2int_alt: "bcd2int n = n mod 16 + 10 * (n div 16 mod 16)"
proof -
  have m: "n AND 15 = n mod 16" using take_bit_eq_mask [of 4 n] by (simp add: mask_eq_exp_minus_1 take_bit_eq_mod)
  have "drop_bit 4 (n AND 0xf0) = drop_bit 4 n AND drop_bit 4 0xf0" by (rule drop_bit_and)
  also have "\<dots> = drop_bit 4 n AND 15" by simp
  also have "\<dots> = drop_bit 4 n mod 16"
    using take_bit_eq_mask [of 4 "drop_bit 4 n"] by (simp add: mask_eq_exp_minus_1 take_bit_eq_mod)
  finally show ?thesis by (simp add: bcd2int_def m drop_bit_eq_div)
qed

section \<open>The serial port\<close>

record 's port =
  p_pending :: "'s \<Rightarrow> bool \<times> 's"               \<comment> \<open>\<^verbatim>\<open>poll\<close> reports input within no time\<close>
  p_read :: "nat \<Rightarrow> 's \<Rightarrow> byte list \<times> 's"      \<comment> \<open>\<^verbatim>\<open>read\<close> of at most so many bytes; none on time-out or error\<close>
  p_write :: "byte \<Rightarrow> 's \<Rightarrow> bool \<times> 's"         \<comment> \<open>\<^verbatim>\<open>write\<close> of one byte, and whether it was written\<close>
  p_stack :: "'s \<Rightarrow> byte list"                  \<comment> \<open>what the 16 bytes of an uninitialised buffer hold\<close>

definition port_ok :: "'s port \<Rightarrow> bool" where
  "port_ok P \<longleftrightarrow> (\<forall>n s. length (fst (p_read P n s)) \<le> n) \<and> (\<forall>s. length (p_stack P s) = 16)"

text \<open>The loop of \<^verbatim>\<open>ClearSerialPort\<close> formats what it reads into \<^verbatim>\<open>msg[64]\<close>, three characters a
  byte and a NUL: more than 21 bytes overrun it. The loop repeats only after a full read of 64
  bytes, which has overrun \<^verbatim>\<open>msg\<close> already.\<close>

partial_function (option) clear_loop :: "'s port \<Rightarrow> 's \<Rightarrow> 's option" where
  "clear_loop P s = (case p_read P 64 s of (got, s) \<Rightarrow>
     if 3 * length got + 1 > 64 then None
     else if length got = 64 then clear_loop P s else Some s)"

definition ClearSerialPort :: "'s port \<Rightarrow> 's \<Rightarrow> 's option" where
  "ClearSerialPort P s = (case p_pending P s of (pending, s) \<Rightarrow>
     if pending then clear_loop P s else Some s)"

lemma clear_loop_eq:
  "clear_loop P s = (if length (fst (p_read P 64 s)) \<le> 21 then Some (snd (p_read P 64 s)) else None)"
  by (subst clear_loop.simps) (auto split: prod.split)

text \<open>\<^verbatim>\<open>send_pkt\<close>: byte by byte up to and including the stop byte. Running off the array and
  overrunning \<^verbatim>\<open>msg[64]\<close> (\<open>n\<close> characters used) are undefined.\<close>

fun send_loop :: "'s port \<Rightarrow> nat \<Rightarrow> byte list \<Rightarrow> 's \<Rightarrow> (int \<times> 's) option" where
  "send_loop P n [] s = None"
| "send_loop P n (b # bs) s = (if n + 3 + 1 > 64 then None else
     (case p_write P b s of (ok, s) \<Rightarrow>
        if \<not> ok then Some (ERR_WRITE_ERROR, s)
        else if b \<noteq> CMD_STOP_MAGIC then send_loop P (n + 3) bs s
        else Some (SUCCESS, s)))"

definition send_pkt :: "'s port \<Rightarrow> byte list \<Rightarrow> 's \<Rightarrow> (int \<times> 's) option" where
  "send_pkt P cmd s = send_loop P 0 cmd s"

text \<open>\<^verbatim>\<open>receive_pkt\<close> reads byte by byte into the caller's buffer. After a read that delivers
  nothing, the byte tested is the one the buffer had before. The result of the loop is the
  index \<open>i\<close>, the buffer and the world; \<open>k\<close> is \<^verbatim>\<open>bufsize - i\<close>.\<close>

fun receive_loop :: "'s port \<Rightarrow> nat \<Rightarrow> nat \<Rightarrow> byte list \<Rightarrow> 's \<Rightarrow> nat \<times> byte list \<times> 's" where
  "receive_loop P 0 i buf s = (i, buf, s)"
| "receive_loop P (Suc k) i buf s = (case p_read P 1 s of (got, s) \<Rightarrow>
     let buf = (if got = [] then buf else buf[i := hd got]) in
     if got \<noteq> [] \<and> buf ! i \<noteq> CMD_STOP_MAGIC then receive_loop P k (i + 1) buf s
     else (i + 1, buf, s))"

definition receive_pkt :: "'s port \<Rightarrow> byte list \<Rightarrow> nat \<Rightarrow> 's \<Rightarrow> int \<times> byte list \<times> 's" where
  "receive_pkt P buf bufsize s = (case receive_loop P bufsize 0 buf s of (i, buf, s) \<Rightarrow>
     (if buf ! (i - 1) \<noteq> CMD_STOP_MAGIC then ERR_WRONG_ANSWER else SUCCESS, buf, s))"

definition CheckResponse :: "byte list \<Rightarrow> byte list \<Rightarrow> int" where
  "CheckResponse cmd resp = (if list_ex (\<lambda>i. resp ! i \<noteq> cmd ! i) [0..<5] then ERR_WRONG_ANSWER else SUCCESS)"

section \<open>Commands with retry\<close>

text \<open>\<open>outArray\<close> is \<open>None\<close> for a null pointer, otherwise the 16 bytes of the caller's array.\<close>

definition send_once ::
  "'s port \<Rightarrow> byte list \<Rightarrow> byte list option \<times> 's \<Rightarrow> (int \<times> byte list option \<times> 's) option" where
  "send_once P cmd = (\<lambda>(outArray, s). do {
     s \<leftarrow> ClearSerialPort P s;
     (r, s) \<leftarrow> send_pkt P cmd s;
     if r \<noteq> SUCCESS then Some (1, outArray, s)
     else (case outArray of
         None \<Rightarrow> (case receive_pkt P (p_stack P s) 16 s of (r, buf, s) \<Rightarrow>
            Some (if r \<noteq> SUCCESS \<or> CheckResponse AckFromSerial buf \<noteq> SUCCESS
                  then ERR_WRONG_ANSWER else SUCCESS, None, s))
       | Some _ \<Rightarrow> (case receive_pkt P (p_stack P s) 16 s of (r, buf, s) \<Rightarrow>
            if r \<noteq> SUCCESS \<or> CheckResponse cmd buf \<noteq> SUCCESS then Some (ERR_WRONG_ANSWER, outArray, s)
            else (case receive_pkt P buf 16 s of (r, buf', s) \<Rightarrow>
              Some (if r \<noteq> SUCCESS \<or> CheckResponse AckFromSerial buf' \<noteq> SUCCESS
                    then ERR_WRONG_ANSWER else SUCCESS, Some buf, s))))
   })"

text \<open>The do-while loop of \<^verbatim>\<open>SendCommand\<close>, over any attempt: \<open>k\<close> retries are left.\<close>

fun retry :: "('a \<Rightarrow> (int \<times> 'a) option) \<Rightarrow> nat \<Rightarrow> 'a \<Rightarrow> (int \<times> 'a) option" where
  "retry f k a = (case f a of None \<Rightarrow> None
     | Some (r, a) \<Rightarrow> if r = SUCCESS then Some (r, a)
         else (case k of 0 \<Rightarrow> Some (r, a) | Suc k \<Rightarrow> retry f k a))"

declare retry.simps [simp del]

definition SendCommand ::
  "'s port \<Rightarrow> nat \<Rightarrow> byte list \<Rightarrow> byte list option \<times> 's \<Rightarrow> (int \<times> byte list option \<times> 's) option" where
  "SendCommand P nRetries cmd = retry (send_once P cmd) nRetries"

section \<open>Transfers over a port\<close>

text \<open>The port takes these bytes one by one, and delivers these bytes one by one.\<close>

fun accepts :: "'s port \<Rightarrow> byte list \<Rightarrow> 's \<Rightarrow> 's option" where
  "accepts P [] s = Some s"
| "accepts P (b # bs) s = (case p_write P b s of (ok, s) \<Rightarrow> if ok then accepts P bs s else None)"

fun delivers :: "'s port \<Rightarrow> byte list \<Rightarrow> 's \<Rightarrow> 's option" where
  "delivers P [] s = Some s"
| "delivers P (b # bs) s = (case p_read P 1 s of (got, s) \<Rightarrow> if got = [b] then delivers P bs s else None)"

definition packet :: "byte list \<Rightarrow> bool" where
  "packet p \<longleftrightarrow> p \<noteq> [] \<and> last p = CMD_STOP_MAGIC \<and> CMD_STOP_MAGIC \<notin> set (butlast p)"

lemma packet_Cons: "packet (b # p) \<longleftrightarrow> (if p = [] then b = CMD_STOP_MAGIC else b \<noteq> CMD_STOP_MAGIC \<and> packet p)"
  by (auto simp: packet_def)

lemma send_loop_packet:
  "packet p \<Longrightarrow> n + 3 * length p < 64 \<Longrightarrow> accepts P p s = Some s' \<Longrightarrow>
   send_loop P n (p @ rest) s = Some (SUCCESS, s')"
proof (induction p arbitrary: n s)
  case Nil
  then show ?case by (simp add: packet_def)
next
  case (Cons b p)
  then show ?case
    by (cases "p = []") (auto simp: packet_Cons split: if_splits prod.splits)
qed

lemma send_pkt_packet [frame]:
  "packet p \<Longrightarrow> length p \<le> 21 \<Longrightarrow> accepts P p s = Some s' \<Longrightarrow>
   send_pkt P (p @ rest) s = Some (SUCCESS, s')"
  by (simp add: send_pkt_def send_loop_packet)

lemma receive_loop_packet:
  "packet p \<Longrightarrow> length p \<le> k \<Longrightarrow> i + length p \<le> length buf \<Longrightarrow> delivers P p s = Some s' \<Longrightarrow>
   receive_loop P k i buf s = (i + length p, take i buf @ p @ drop (i + length p) buf, s')"
proof (induction p arbitrary: k i buf s)
  case Nil
  then show ?case by (simp add: packet_def)
next
  case (Cons b p)
  from Cons.prems(2) obtain k' where k: "k = Suc k'" by (cases k) auto
  from Cons.prems(4) obtain t where t: "p_read P 1 s = ([b], t)" "delivers P p t = Some s'"
    by (auto split: if_splits prod.splits)
  have i: "i < length buf" using Cons.prems(3) by simp
  show ?case
  proof (cases "p = []")
    case True
    with Cons.prems(1) k t i show ?thesis
      by (auto simp: packet_Cons Let_def upd_conv_take_nth_drop nth_append)
  next
    case False
    with Cons.prems(1) have b: "b \<noteq> CMD_STOP_MAGIC" "packet p" by (auto simp: packet_Cons)
    have "receive_loop P k' (i + 1) (buf[i := b]) t
        = (i + 1 + length p, take (i + 1) (buf[i := b]) @ p @ drop (i + 1 + length p) (buf[i := b]), s')"
      using Cons.IH [of k' "i + 1" "buf[i := b]" t] b t Cons.prems k by simp
    with k t i b show ?thesis
      by (simp add: Let_def take_Suc_conv_app_nth)
  qed
qed

lemma receive_pkt_packet [frame]:
  assumes "packet p" "length p \<le> n" "n \<le> length buf" "delivers P p s = Some s'"
  shows "receive_pkt P buf n s = (SUCCESS, p @ drop (length p) buf, s')"
proof -
  have "receive_loop P n 0 buf s = (length p, p @ drop (length p) buf, s')"
    using receive_loop_packet [of p n 0 buf P s s'] assms by simp
  moreover have "(p @ drop (length p) buf) ! (length p - 1) = CMD_STOP_MAGIC"
    using assms(1) by (auto simp: packet_def nth_append last_conv_nth)
  ultimately show ?thesis by (simp add: receive_pkt_def)
qed

lemma receive_loop_length:
  "receive_loop P k i buf s = (j, buf', s') \<Longrightarrow> length buf' = length buf"
  by (induction P k i buf s rule: receive_loop.induct) (auto simp: Let_def split: if_splits prod.splits)

lemma receive_loop_index:
  "receive_loop P k i buf s = (j, buf', s') \<Longrightarrow> k \<noteq> 0 \<Longrightarrow> i < j \<and> j \<le> i + k"
proof (induction P k i buf s rule: receive_loop.induct)
  case (2 P k i buf s)
  then show ?case by (cases k) (fastforce simp: Let_def split: if_splits prod.splits)+
qed simp

lemma receive_pkt_length: "receive_pkt P buf n s = (r, buf', s') \<Longrightarrow> length buf' = length buf"
  by (auto simp: receive_pkt_def dest: receive_loop_length split: prod.splits)

lemma receive_pkt_stop:
  assumes "receive_pkt P buf n s = (SUCCESS, buf', s')" "n \<noteq> 0" "n \<le> length buf"
  shows "CMD_STOP_MAGIC \<in> set (take n buf')"
proof -
  obtain i where i: "receive_loop P n 0 buf s = (i, buf', s')"
    using assms(1) by (auto simp: receive_pkt_def split: prod.splits)
  with assms have l: "buf' ! (i - 1) = CMD_STOP_MAGIC" "length buf' = length buf"
    by (auto simp: receive_pkt_def SUCCESS_def ERR_WRONG_ANSWER_def dest: receive_loop_length split: if_splits)
  have "0 < i \<and> i \<le> n" using receive_loop_index [OF i assms(2)] by simp
  with l assms(3) show ?thesis
    by (auto simp: in_set_conv_nth intro!: exI [of _ "i - 1"])
qed

lemma CheckResponse_ok: "CheckResponse cmd resp = SUCCESS \<longleftrightarrow> (\<forall>i < 5. resp ! i = cmd ! i)"
  by (auto simp: CheckResponse_def SUCCESS_def ERR_WRONG_ANSWER_def list_ex_iff)

lemma CheckResponse_take:
  "5 \<le> length cmd \<Longrightarrow> 5 \<le> length resp \<Longrightarrow>
   CheckResponse cmd resp = SUCCESS \<longleftrightarrow> take 5 resp = take 5 cmd"
  by (auto simp: CheckResponse_ok list_eq_iff_nth_eq)

section \<open>The retry loop\<close>

inductive failed_tries :: "('a \<Rightarrow> (int \<times> 'a) option) \<Rightarrow> nat \<Rightarrow> 'a \<Rightarrow> 'a \<Rightarrow> bool" for f where
  none: "failed_tries f 0 a a"
| again: "f a = Some (r, b) \<Longrightarrow> r \<noteq> SUCCESS \<Longrightarrow> failed_tries f n b c \<Longrightarrow> failed_tries f (Suc n) a c"

inductive_simps failed_tries_0 [simp]: "failed_tries f 0 a c"
inductive_simps failed_tries_Suc: "failed_tries f (Suc n) a c"

lemma retry_attempts:
  "retry f k a = Some (r, c) \<longleftrightarrow>
   (\<exists>n \<le> k. \<exists>b. failed_tries f n a b \<and> f b = Some (r, c) \<and> (r = SUCCESS \<or> n = k))"
proof (induction k arbitrary: a)
  case 0
  then show ?case by (subst retry.simps) (auto split: option.splits)
next
  case (Suc k)
  show ?case
  proof (cases "\<exists>r' b. f a = Some (r', b) \<and> r' \<noteq> SUCCESS")
    case True
    then obtain r' b where f: "f a = Some (r', b)" "r' \<noteq> SUCCESS" by blast
    have "retry f (Suc k) a = retry f k b" using f by (subst retry.simps) simp
    moreover have "(\<exists>n \<le> Suc k. \<exists>d. failed_tries f n a d \<and> f d = Some (r, c) \<and> (r = SUCCESS \<or> n = Suc k))
        \<longleftrightarrow> (\<exists>n \<le> k. \<exists>d. failed_tries f n b d \<and> f d = Some (r, c) \<and> (r = SUCCESS \<or> n = k))"
      (is "?L \<longleftrightarrow> ?R")
    proof
      assume ?L
      then obtain n d where n: "n \<le> Suc k" "failed_tries f n a d" "f d = Some (r, c)" "r = SUCCESS \<or> n = Suc k"
        by blast
      with f obtain m where "n = Suc m" by (cases n) auto
      with n f show ?R by (auto simp: failed_tries_Suc)
    next
      assume ?R
      with f show ?L by (metis Suc_le_mono failed_tries.again)
    qed
    ultimately show ?thesis using Suc.IH by simp
  next
    case False
    then have "retry f (Suc k) a = f a"
      by (subst retry.simps) (auto split: option.splits prod.splits if_splits)
    moreover have "failed_tries f n a b \<longleftrightarrow> n = 0 \<and> b = a" for n b
      using False by (cases n) (auto simp: failed_tries_Suc)
    ultimately show ?thesis using False by auto
  qed
qed

text \<open>The contract of an attempt: it keeps an invariant, and its success means something.\<close>

locale attempt =
  fixes f :: "'a \<Rightarrow> (int \<times> 'a) option" and I :: "'a \<Rightarrow> bool" and Q :: "'a \<Rightarrow> bool"
  assumes keeps: "I a \<Longrightarrow> f a = Some (r, b) \<Longrightarrow> I b"
    and meaning: "I a \<Longrightarrow> f a = Some (SUCCESS, b) \<Longrightarrow> Q b"
begin

lemma tries_keep: "failed_tries f n a b \<Longrightarrow> I a \<Longrightarrow> I b"
  by (induction rule: failed_tries.induct) (auto dest: keeps)

lemma retry_keeps: "I a \<Longrightarrow> retry f k a = Some (r, b) \<Longrightarrow> I b"
  by (auto simp: retry_attempts dest: tries_keep keeps)

lemma retry_meaning: "I a \<Longrightarrow> retry f k a = Some (SUCCESS, b) \<Longrightarrow> Q b"
  by (auto simp: retry_attempts dest: tries_keep meaning)

end

text \<open>What \<open>send_once\<close> promises when the caller passes an array.\<close>

definition array_ok :: "byte list option \<times> 's \<Rightarrow> bool" where
  "array_ok a \<longleftrightarrow> (case fst a of None \<Rightarrow> False | Some out \<Rightarrow> length out = 16)"

definition answered :: "byte list \<Rightarrow> byte list option \<times> 's \<Rightarrow> bool" where
  "answered cmd a \<longleftrightarrow> (case fst a of None \<Rightarrow> False
     | Some out \<Rightarrow> (\<forall>i < 5. out ! i = cmd ! i) \<and> CMD_STOP_MAGIC \<in> set out)"

lemma send_once_array:
  assumes "port_ok P" "array_ok a" "send_once P cmd a = Some (r, b)"
  shows "array_ok b \<and> (r = SUCCESS \<longrightarrow> answered cmd b)"
proof -
  have stk: "length (p_stack P s) = 16" for s using assms(1) by (simp add: port_ok_def)
  obtain out s where a: "a = (Some out, s)" "length out = 16"
    using assms(2) by (cases a) (auto simp: array_ok_def split: option.splits)
  obtain s1 rs s2 where s: "ClearSerialPort P s = Some s1" "send_pkt P cmd s1 = Some (rs, s2)"
    using assms(3) a by (auto simp: send_once_def bind_eq_Some_conv split: prod.splits)
  obtain r1 buf s3 where r1: "receive_pkt P (p_stack P s2) 16 s2 = (r1, buf, s3)" by (metis prod_cases3)
  obtain r2 buf2 s4 where r2: "receive_pkt P buf 16 s3 = (r2, buf2, s4)" by (metis prod_cases3)
  have l: "length buf = 16" using receive_pkt_length [OF r1] stk by simp
  show ?thesis
  proof (cases "rs = SUCCESS \<and> r1 = SUCCESS \<and> CheckResponse cmd buf = SUCCESS")
    case True
    then have b: "b = (Some buf, s4)" using assms(3) a s r1 r2 by (auto simp: send_once_def)
    have "CMD_STOP_MAGIC \<in> set buf"
      using receive_pkt_stop [of P _ 16 s2 buf s3] r1 True l stk by simp
    with True b l show ?thesis by (simp add: array_ok_def answered_def CheckResponse_ok)
  next
    case False
    then have "fst b = Some out \<and> r \<noteq> SUCCESS"
      using assms(3) a s r1 by (auto simp: send_once_def SUCCESS_def ERR_WRONG_ANSWER_def split: if_splits)
    with a show ?thesis by (simp add: array_ok_def)
  qed
qed

interpretation answer: attempt "send_once P cmd" "\<lambda>a. port_ok P \<and> array_ok a" "answered cmd"
  by unfold_locales (use send_once_array in blast)+

section \<open>Properties of the protocol\<close>

text \<open>A line with a scripted far end, for the examples: what arrives (\<open>None\<close> is a time-out), and
  what was sent.\<close>

definition line_port :: "(byte option list \<times> byte list) port" where
  "line_port = \<lparr>
     p_pending = (\<lambda>s. (False, s)),
     p_read = (\<lambda>n (i, out). if n = 0 then ([], i, out) else
        (case i of [] \<Rightarrow> ([], [], out) | x # i' \<Rightarrow> ((case x of None \<Rightarrow> [] | Some b \<Rightarrow> [b]), i', out))),
     p_write = (\<lambda>b (i, out). (True, i, out @ [b])),
     p_stack = (\<lambda>s. replicate 16 0)\<rparr>"

lemma line_port_ok: "port_ok line_port"
  by (auto simp: port_ok_def line_port_def split: list.split option.split)

text \<open>Claim C28. Bounded retry. \<^verbatim>\<open>SendCommand\<close> makes at most \<^verbatim>\<open>nRetries + 1\<close> attempts, stops at the
  first one that succeeds, and reports a failure exactly when all of them failed; its result, the
  caller's array and the state of the port are those of the last attempt.\<close>

theorem SendCommand_attempts:
  "SendCommand P nRetries cmd a = Some (r, c) \<longleftrightarrow>
   (\<exists>n \<le> nRetries. \<exists>b. failed_tries (send_once P cmd) n a b \<and> send_once P cmd b = Some (r, c) \<and>
      (r = SUCCESS \<or> n = nRetries))"
  by (simp add: SendCommand_def retry_attempts)

text \<open>Claim C10. Authenticated answers. When \<^verbatim>\<open>SendCommand\<close> succeeds with an array for the answer,
  whatever the serial line did, the array holds a packet that begins with the five bytes of the
  command itself and has a stop byte; the array keeps its 16 bytes.\<close>

theorem SendCommand_answered:
  assumes "port_ok P" "length out = 16" "SendCommand P nRetries cmd (Some out, s) = Some (SUCCESS, outArray, s')"
  shows "\<exists>resp. outArray = Some resp \<and> length resp = 16 \<and> (\<forall>i < 5. resp ! i = cmd ! i) \<and>
           CMD_STOP_MAGIC \<in> set resp"
proof -
  have I: "port_ok P \<and> array_ok (Some out, s)" using assms by (simp add: array_ok_def)
  have r: "retry (send_once P cmd) nRetries (Some out, s) = Some (SUCCESS, outArray, s')"
    using assms(3) by (simp add: SendCommand_def)
  show ?thesis using answer.retry_meaning [OF I r] answer.retry_keeps [OF I r]
    by (auto simp: answered_def array_ok_def split: option.splits)
qed

lemma SendCommand_first:
  "send_once P cmd a = Some (SUCCESS, b) \<Longrightarrow> SendCommand P nRetries cmd a = Some (SUCCESS, b)"
  by (simp add: SendCommand_def retry.simps)

text \<open>A complete exchange. When the port is quiet, takes the command packet, and delivers
  an answer packet whose first five bytes are those of the command and then the acknowledge
  packet, \<^verbatim>\<open>SendCommand\<close> succeeds at the first attempt, and the array holds the answer.\<close>

theorem SendCommand_exchange:
  assumes P: "port_ok P"
    and clear: "ClearSerialPort P s = Some s1"
    and cmd: "packet cmd" "length cmd \<le> 21" "accepts P cmd s1 = Some s2"
    and ans: "packet ans" "5 \<le> length ans" "length ans \<le> 16" "delivers P ans s2 = Some s3"
      "take 5 ans = take 5 cmd"
    and ack: "delivers P AckFromSerial s3 = Some s4"
  shows "SendCommand P nRetries cmd (Some out, s) =
           Some (SUCCESS, Some (ans @ drop (length ans) (p_stack P s2)), s4)"
proof (rule SendCommand_first)
  have stk: "length (p_stack P s2) = 16" using P by (simp add: port_ok_def)
  define buf where "buf = ans @ drop (length ans) (p_stack P s2)"
  have r1: "receive_pkt P (p_stack P s2) 16 s2 = (SUCCESS, buf, s3)"
    using receive_pkt_packet [OF ans(1,3) _ ans(4)] stk by (simp add: buf_def)
  have ack_len: "length AckFromSerial = 7" by (simp add: AckFromSerial_def)
  have p: "packet AckFromSerial" by (simp add: packet_def AckFromSerial_def CMD_STOP_MAGIC_def)
  have r2: "receive_pkt P buf 16 s3 = (SUCCESS, AckFromSerial @ drop 7 buf, s4)"
    using receive_pkt_packet [OF p _ _ ack, of 16 buf] stk ans(3) by (simp add: ack_len buf_def)
  have w: "send_pkt P cmd s1 = Some (SUCCESS, s2)" using send_pkt_packet [OF cmd, of "[]"] by simp
  have "length ans \<le> length cmd \<or> 5 \<le> length cmd"
    using arg_cong [OF ans(5), of length] ans(2) by (auto simp: min_def split: if_splits)
  then have c: "CheckResponse cmd buf = SUCCESS"
    using ans(2,5) by (subst CheckResponse_take) (auto simp: buf_def)
  have d: "CheckResponse AckFromSerial (AckFromSerial @ drop 7 buf) = SUCCESS"
    by (subst CheckResponse_take) (auto simp: AckFromSerial_def)
  show "send_once P cmd (Some out, s) = Some (SUCCESS, Some (ans @ drop (length ans) (p_stack P s2)), s4)"
    using clear w r1 r2 c d by (simp add: send_once_def buf_def)
qed

lemma SendCommand_acked [frame]:
  assumes P: "port_ok P" and clear: "ClearSerialPort P s = Some s1"
    and cmd: "packet cmd" "length cmd \<le> 21" "accepts P cmd s1 = Some s2"
    and ack: "delivers P AckFromSerial s2 = Some s3"
  shows "SendCommand P nRetries cmd (None, s) = Some (SUCCESS, None, s3)"
proof (rule SendCommand_first)
  have stk: "length (p_stack P s2) = 16" using P by (simp add: port_ok_def)
  have ack_len: "length AckFromSerial = 7" by (simp add: AckFromSerial_def)
  have p: "packet AckFromSerial" by (simp add: packet_def AckFromSerial_def CMD_STOP_MAGIC_def)
  have r: "receive_pkt P (p_stack P s2) 16 s2 = (SUCCESS, AckFromSerial @ drop 7 (p_stack P s2), s3)"
    using receive_pkt_packet [OF p _ _ ack, of 16 "p_stack P s2"] stk by (simp add: ack_len)
  have w: "send_pkt P cmd s1 = Some (SUCCESS, s2)" using send_pkt_packet [OF cmd, of "[]"] by simp
  have d: "CheckResponse AckFromSerial (AckFromSerial @ drop 7 (p_stack P s2)) = SUCCESS"
    by (subst CheckResponse_take) (auto simp: AckFromSerial_def)
  show "send_once P cmd (None, s) = Some (SUCCESS, None, s3)"
    using clear w r d by (simp add: send_once_def)
qed

definition temp_answer :: "byte list" where
  "temp_answer = [0xfa, 0x03, 0x08, 0x00, 0x00, 0x6A, 0xfb]"

text \<open>The far end answers the temperature request at once.\<close>

lemma SendCommand_exchange_witness:
  "SendCommand line_port 2 (cmd_init ThermalStatusGetCmd)
     (Some (replicate 16 0), map Some (temp_answer @ AckFromSerial), []) =
   Some (SUCCESS, Some (temp_answer @ replicate 9 0), [], cmd_init ThermalStatusGetCmd)"
proof -
  note facts = line_port_def temp_answer_def AckFromSerial_def CMD_STOP_MAGIC_def packet_def
  have "SendCommand line_port 2 (cmd_init ThermalStatusGetCmd)
     (Some (replicate 16 0), map Some (temp_answer @ AckFromSerial), []) =
     Some (SUCCESS, Some (temp_answer @ drop (length temp_answer)
       (p_stack line_port (map Some (temp_answer @ AckFromSerial), cmd_init ThermalStatusGetCmd))),
       [], cmd_init ThermalStatusGetCmd)"
    by (rule SendCommand_exchange [where ?s1.0 = "(map Some (temp_answer @ AckFromSerial), [])" and
          ?s3.0 = "(map Some AckFromSerial, cmd_init ThermalStatusGetCmd)"])
       (rule line_port_ok, simp_all add: facts ClearSerialPort_def)
  then show ?thesis by (simp add: line_port_def temp_answer_def)
qed

lemma SendCommand_answered_witness:
  "\<exists>resp. Some (temp_answer @ replicate 9 0) = Some resp \<and> length resp = 16 \<and>
     (\<forall>i < 5. resp ! i = cmd_init ThermalStatusGetCmd ! i) \<and> CMD_STOP_MAGIC \<in> set resp"
  by (rule SendCommand_answered [OF line_port_ok, where out = "replicate 16 0" and nRetries = 2 and
        s = "(map Some (temp_answer @ AckFromSerial), [])" and s' = "([], cmd_init ThermalStatusGetCmd)"])
     (simp, code_simp)

text \<open>A missing stop byte can go unnoticed. When the line falls silent after fewer bytes
  than the buffer has, \<^verbatim>\<open>receive_pkt\<close> looks at the byte the buffer held before: if that is the
  stop byte, as after an answer of one byte more, the truncated packet is reported as received.\<close>

theorem receive_pkt_stale_stop:
  assumes "delivers P p s = Some s1" "CMD_STOP_MAGIC \<notin> set p" "fst (p_read P 1 s1) = []"
    and "length p < n" "n \<le> length buf" "buf ! length p = CMD_STOP_MAGIC"
  shows "receive_pkt P buf n s = (SUCCESS, p @ drop (length p) buf, snd (p_read P 1 s1))"
proof -
  have "receive_loop P k i buf s = (i + length p + 1, take i buf @ p @ drop (i + length p) buf, snd (p_read P 1 s1))"
    if "delivers P p s = Some s1" "CMD_STOP_MAGIC \<notin> set p" "length p < k" "i + length p < length buf" for p k i buf s
    using that
  proof (induction p arbitrary: k i buf s)
    case Nil
    with assms(3) show ?case by (cases k) (auto simp: Let_def split: prod.split)
  next
    case (Cons b p)
    obtain k' t where kt: "k = Suc k'" "p_read P 1 s = ([b], t)" "delivers P p t = Some s1"
      using Cons.prems(1,3) by (cases k) (auto split: if_splits prod.splits)
    have "receive_loop P k' (i + 1) (buf[i := b]) t = (i + 1 + length p + 1,
        take (i + 1) (buf[i := b]) @ p @ drop (i + 1 + length p) (buf[i := b]), snd (p_read P 1 s1))"
      using Cons.IH [of t k' "i + 1" "buf[i := b]"] Cons.prems kt by simp
    with kt Cons.prems(2,4) show ?case by (auto simp: Let_def take_Suc_conv_app_nth)
  qed
  from this [of p s n 0 buf] assms have "receive_loop P n 0 buf s = (length p + 1, p @ drop (length p) buf, snd (p_read P 1 s1))"
    by simp
  with assms(4-6) show ?thesis by (simp add: receive_pkt_def nth_append)
qed

lemma receive_pkt_stale_stop_witness:
  "receive_pkt line_port (temp_answer @ replicate 9 0) 16 (map Some (butlast AckFromSerial) @ [None], []) =
     (SUCCESS, butlast AckFromSerial @ drop 6 (temp_answer @ replicate 9 0), [], [])"
proof -
  have "receive_pkt line_port (temp_answer @ replicate 9 0) 16 (map Some (butlast AckFromSerial) @ [None], []) =
     (SUCCESS, butlast AckFromSerial @ drop (length (butlast AckFromSerial)) (temp_answer @ replicate 9 0),
      snd (p_read line_port 1 ([None], [])))"
    by (rule receive_pkt_stale_stop [where ?s1.0 = "([None], [])"])
       (simp_all add: line_port_def AckFromSerial_def temp_answer_def CMD_STOP_MAGIC_def)
  moreover have "length (butlast AckFromSerial) = 6" by (simp add: AckFromSerial_def)
  ultimately show ?thesis by (simp add: line_port_def)
qed

text \<open>Decimal coding. For every value of two decimal digits, the byte \<^verbatim>\<open>int2bcd\<close> sends to
  the clock chip is the packed decimal, and \<^verbatim>\<open>bcd2int\<close> reads it back.\<close>

theorem bcd_roundtrip:
  assumes "0 \<le> n" "n < 100"
  shows "bcd2int (int2bcd n) = n \<and> 0 \<le> int2bcd n \<and> int2bcd n < 0xa0 \<and> int2bcd n = 16 * (n div 10) + n mod 10"
proof -
  have b: "int2bcd n = 16 * (n div 10) + n mod 10" using int2bcd_nonneg [OF assms(1)] .
  have "n div 10 < 10" using assms by simp
  with assms show ?thesis unfolding b bcd2int_alt by (simp; presburger)
qed

lemma bcd_roundtrip_witness:
  "bcd2int (int2bcd 47) = 47 \<and> (0::int) \<le> int2bcd 47 \<and> int2bcd 47 < 0xa0 \<and>
   int2bcd 47 = 16 * (47 div 10) + 47 mod 10"
  by (rule bcd_roundtrip) simp_all

end
