(* ===== verification/Calendar.thy ===== *)
theory Calendar
  imports Sysfs
begin

text \<open>
  The calendar functions of the C library that the daemons call: \<^verbatim>\<open>gmtime\<close>, \<^verbatim>\<open>timegm\<close>,
  \<^verbatim>\<open>asctime\<close>/\<^verbatim>\<open>ctime\<close> and \<^verbatim>\<open>strftime "%F %R"\<close>, on the proleptic Gregorian calendar. A
  \<^verbatim>\<open>time_t\<close> has 32 bits. What depends on the time zone (\<^verbatim>\<open>localtime\<close>, \<^verbatim>\<open>mktime\<close>) is data of the
  host, so it stays a parameter where it is used.
\<close>

record tm =
  tm_sec :: int
  tm_min :: int
  tm_hour :: int
  tm_mday :: int
  tm_mon :: int
  tm_year :: int
  tm_wday :: int

text \<open>Days since 1970-01-01. A year of these functions begins in March, an era has 400 years.\<close>

definition day_of_year :: "int \<Rightarrow> int" where
  "day_of_year mp = (153 * mp + 2) div 5"

definition days_from_civil :: "int \<Rightarrow> int \<Rightarrow> int \<Rightarrow> int" where
  "days_from_civil y m d = (let y = (if m \<le> 2 then y - 1 else y); yoe = y mod 400 in
     y div 400 * 146097 + (yoe * 365 + yoe div 4 - yoe div 100 + (day_of_year ((m + 9) mod 12) + d - 1)) - 719468)"

definition civil_from_days :: "int \<Rightarrow> int \<times> int \<times> int" where
  "civil_from_days z = (let z = z + 719468; doe = z mod 146097;
     yoe = (doe - doe div 1460 + doe div 36524 - doe div 146096) div 365;
     doy = doe - (365 * yoe + yoe div 4 - yoe div 100);
     mp = (5 * doy + 2) div 153;
     m = (if mp < 10 then mp + 3 else mp - 9)
   in (yoe + z div 146097 * 400 + (if m \<le> 2 then 1 else 0), m, doy - day_of_year mp + 1))"

definition gmtime :: "int \<Rightarrow> tm" where
  "gmtime t = (case civil_from_days (t div 86400) of (y, m, d) \<Rightarrow>
     \<lparr>tm_sec = t mod 60, tm_min = t div 60 mod 60, tm_hour = t div 3600 mod 24,
      tm_mday = d, tm_mon = m - 1, tm_year = y - 1900, tm_wday = (t div 86400 + 4) mod 7\<rparr>)"

text \<open>Months and days out of range are normalised; a time that is not a \<^verbatim>\<open>time_t\<close> gives -1.\<close>

definition timegm :: "tm \<Rightarrow> int" where
  "timegm x = (let t = (days_from_civil (tm_year x + 1900 + tm_mon x div 12) (tm_mon x mod 12 + 1) 1 + tm_mday x - 1) * 86400
       + tm_hour x * 3600 + tm_min x * 60 + tm_sec x
     in if - (2 ^ 31) \<le> t \<and> t < 2 ^ 31 then t else -1)"

definition pad_left :: "char \<Rightarrow> nat \<Rightarrow> string \<Rightarrow> string" where
  "pad_left c n s = replicate (n - length s) c @ s"

definition wday_name :: "int \<Rightarrow> string" where
  "wday_name w = (if 0 \<le> w \<and> w < 7 then
     [''Sun'', ''Mon'', ''Tue'', ''Wed'', ''Thu'', ''Fri'', ''Sat''] ! nat w else ''???'')"

definition mon_name :: "int \<Rightarrow> string" where
  "mon_name m = (if 0 \<le> m \<and> m < 12 then
     [''Jan'', ''Feb'', ''Mar'', ''Apr'', ''May'', ''Jun'', ''Jul'', ''Aug'', ''Sep'', ''Oct'', ''Nov'', ''Dec''] ! nat m
     else ''???'')"

definition asctime :: "tm \<Rightarrow> string" where
  "asctime x = wday_name (tm_wday x) @ '' '' @ mon_name (tm_mon x) @ pad_left (CHR '' '') 3 (show_int (tm_mday x)) @ '' '' @
     pad_left (CHR ''0'') 2 (show_int (tm_hour x)) @ '':'' @ pad_left (CHR ''0'') 2 (show_int (tm_min x)) @ '':'' @
     pad_left (CHR ''0'') 2 (show_int (tm_sec x)) @ '' '' @ show_int (1900 + tm_year x) @ [CHR 0x0A]"

definition strftime_FR :: "tm \<Rightarrow> string" where
  "strftime_FR x = show_int (1900 + tm_year x) @ ''-'' @ pad_left (CHR ''0'') 2 (show_int (tm_mon x + 1)) @ ''-'' @
     pad_left (CHR ''0'') 2 (show_int (tm_mday x)) @ '' '' @ pad_left (CHR ''0'') 2 (show_int (tm_hour x)) @ '':'' @
     pad_left (CHR ''0'') 2 (show_int (tm_min x))"

lemma gmtime_examples:
  "asctime (gmtime 0) = ''Thu Jan  1 00:00:00 1970'' @ [CHR 0x0A]"
  "strftime_FR (gmtime 951782400) = ''2000-02-29 00:00''"
  "timegm (gmtime 951782400) = 951782400" "timegm (gmtime (- 86401)) = - 86401"
  by code_simp+

end
