(* ===== verification/McuCommands.thy ===== *)
theory McuCommands
  imports McuProtocol Calendar
begin

text \<open>
  The commands of \<^verbatim>\<open>dns320l-daemon.c\<close>: the functions of the table \<^verbatim>\<open>cmds\<close> and
  \<^verbatim>\<open>HandleCommand\<close>. A command gets the bytes of its packet and a message buffer that holds its
  options on entry and its answer on return. The globals of the daemon, the writable packet
  arrays, the files under \<^verbatim>\<open>/tmp/sys\<close> and the outside world are the record \<open>mcu\<close>; the serial port,
  the clock and the time zone are the parameter \<open>env\<close>. \<open>None\<close> is undefined behaviour.
\<close>

section \<open>State\<close>

record DaemonConfig =
  goDaemon :: bool
  xcmd :: bool
  debug :: bool
  serverName :: string
  portName :: string
  nRetries :: nat

record 's env =
  e_port :: "'s port"
  e_config :: DaemonConfig
  e_time :: "'s \<Rightarrow> int \<times> 's"                  \<comment> \<open>\<^verbatim>\<open>time(NULL)\<close>\<close>
  e_settime :: "int \<Rightarrow> 's \<Rightarrow> bool \<times> 's"        \<comment> \<open>\<^verbatim>\<open>settimeofday\<close>, and whether it succeeds\<close>
  e_localtime :: "int \<Rightarrow> tm"
  e_mktime :: "tm \<Rightarrow> int"
  e_uninit :: "'s \<Rightarrow> int"                      \<comment> \<open>what an uninitialised local \<^verbatim>\<open>int\<close> holds\<close>

record 's mcu =
  m_world :: 's
  m_fs :: sysfs
  m_arrays :: "cmd_name \<Rightarrow> byte list"
  fanSpeed :: int
  curr_led_trigger :: string
  curr_led_brightness :: int

definition mcu_init :: "'s \<Rightarrow> sysfs \<Rightarrow> 's mcu" where
  "mcu_init w fs = \<lparr>m_world = w, m_fs = fs, m_arrays = cmd_init, fanSpeed = -1,
     curr_led_trigger = [], curr_led_brightness = -1\<rparr>"

definition sys_pled_trigger :: string where
  "sys_pled_trigger = ''/tmp/sys/power_led/trigger''"
definition sys_pled_brightness :: string where
  "sys_pled_brightness = ''/tmp/sys/power_led/brightness''"
definition sys_pwm :: string where
  "sys_pwm = ''/tmp/sys/pwm1''"
definition sys_fan_input :: string where
  "sys_fan_input = ''/tmp/sys/fan1_input''"
definition sys_temp_input :: string where
  "sys_temp_input = ''/tmp/sys/temp1_input''"

definition ThermalTable :: "int list" where
  "ThermalTable = [
     0x74, 0x73, 0x72, 0x71, 0x70, 0x6F, 0x6E, 0x6D, 0x6C, 0x6B,
     0x6A, 0x69, 0x68, 0x67, 0x66, 0x65, 0x64, 0x63, 0x62, 0x61,
     0x60, 0x5F, 0x5E, 0x5D, 0x5C, 0x5B, 0x5A, 0x59, 0x58, 0x57,
     0x56, 0x55, 0x54, 0x53, 0x52, 0x51, 0x50, 0x4F, 0x4E, 0x4D,
     0x4C, 0x4B, 0x4A, 0x49, 0x48, 0x47, 0x46, 0x45, 0x44, 0x43,
     0x42, 0x41, 0x41, 0x40, 0x3F, 0x3E, 0x3E, 0x3D, 0x3D, 0x3C,
     0x3B, 0x3A, 0x3A, 0x39, 0x38, 0x38, 0x37, 0x36, 0x36, 0x35,
     0x34, 0x34, 0x33, 0x33, 0x32, 0x31, 0x31, 0x30, 0x30, 0x2F,
     0x2F, 0x2E, 0x2E, 0x2D, 0x2C, 0x2C, 0x2B, 0x2B, 0x2A, 0x2A,
     0x29, 0x29, 0x28, 0x28, 0x27, 0x27, 0x27, 0x26, 0x26, 0x25,
     0x25, 0x24, 0x24, 0x23, 0x23, 0x22, 0x22, 0x21, 0x21, 0x21,
     0x20, 0x20, 0x1F, 0x1F, 0x1E, 0x1E, 0x1E, 0x1D, 0x1D, 0x1C,
     0x1C, 0x1B, 0x1B, 0x1B, 0x1B, 0x1A, 0x19, 0x19, 0x19, 0x18,
     0x18, 0x17, 0x17, 0x25, 0x1B, 0x1B, 0x19, 0x19, 0x19, 0x18,
     0x18, 0x17, 0x17, 0x16, 0x16, 0x16, 0x15, 0x15, 0x14, 0x14,
     0x14, 0x13, 0x13, 0x12, 0x12, 0x12, 0x11, 0x11, 0x10, 0x10,
     0x10, 0x0F, 0x0F, 0x0E, 0x0E, 0x0E, 0x0D, 0x0D, 0x0C, 0x0C,
     0x0C, 0x0B, 0x0B, 0x0A, 0x0A, 0x09, 0x09, 0x09, 0x08, 0x08,
     0x07, 0x07, 0x07, 0x06, 0x06, 0x05, 0x05, 0x04, 0x04, 0x04,
     0x03, 0x03, 0x02, 0x02, 0x01, 0x01, 0x00, 0x00, 0x00, 0x00,
     0x00, 0x00, 0x00, 0x00]"

text \<open>\<^verbatim>\<open>strncpy\<close>, \<^verbatim>\<open>snprintf\<close>, \<^verbatim>\<open>strncat\<close> into a buffer of \<open>n\<close> characters, \<^verbatim>\<open>strcasecmp\<close>.\<close>

definition c_strncpy :: "string \<Rightarrow> nat \<Rightarrow> string" where "c_strncpy s n = take n s"
definition c_snprintf :: "nat \<Rightarrow> string \<Rightarrow> string" where "c_snprintf n s = take (n - 1) s"
definition c_strncat :: "string \<Rightarrow> string \<Rightarrow> nat \<Rightarrow> string" where "c_strncat d s n = d @ take n s"

definition c_tolower :: "char \<Rightarrow> char" where
  "c_tolower c = (if 65 \<le> (of_char c :: nat) \<and> (of_char c :: nat) \<le> 90 then char_of (of_char c + 32 :: nat) else c)"

definition strcaseeq :: "string \<Rightarrow> string \<Rightarrow> bool" where
  "strcaseeq a b \<longleftrightarrow> List.map c_tolower a = List.map c_tolower b"

section \<open>Sending\<close>

text \<open>\<^verbatim>\<open>SendCommand\<close> on the daemon's state; \<open>want\<close> is whether the caller passes an array, whose 16
  bytes are indeterminate.\<close>

definition mcu_send :: "'s env \<Rightarrow> byte list \<Rightarrow> bool \<Rightarrow> 's mcu \<Rightarrow> (int \<times> byte list \<times> 's mcu) option" where
  "mcu_send E cmd want m = do {
     (r, out, w) \<leftarrow> SendCommand (e_port E) (nRetries (e_config E)) cmd
        (if want then Some (p_stack (e_port E) (m_world m)) else None, m_world m);
     Some (r, case out of None \<Rightarrow> [] | Some b \<Rightarrow> b, m\<lparr>m_world := w\<rparr>)
   }"

type_synonym 's command = "byte list \<Rightarrow> string \<Rightarrow> nat \<Rightarrow> 's mcu \<Rightarrow> (int \<times> string \<times> 's mcu) option"

definition simple_cmd :: "'s env \<Rightarrow> 's command" where
  "simple_cmd E mcmd retMessage retSize m = do {
     (r, _, m) \<leftarrow> mcu_send E mcmd False m;
     if r \<noteq> SUCCESS then Some (1, c_strncpy ''ERR'' retSize, m)
     else Some (0, c_strncpy ''OK'' retSize, m)
   }"

definition simple_cmd2 :: "'s env \<Rightarrow> 's command" where
  "simple_cmd2 E mcmd retMessage retSize m = do {
     (r, buf, m) \<leftarrow> mcu_send E mcmd True m;
     if r \<noteq> SUCCESS then Some (1, c_strncpy ''ERR'' retSize, m)
     else Some (0, c_snprintf retSize (show_int (uint (buf ! 5))), m)
   }"

text \<open>The fan: the speed of the accepted packet becomes \<^verbatim>\<open>fanSpeed\<close> and is published.\<close>

definition setfan_cmd :: "'s env \<Rightarrow> 's command" where
  "setfan_cmd E mcmd retMessage retSize m = do {
     (r, msg, m) \<leftarrow> simple_cmd E mcmd retMessage retSize m;
     if r \<noteq> SUCCESS then Some (1, c_strncpy ''ERR'' retSize, m)
     else (let (buf, speed) = (if mcmd ! 3 = 0 then (''0'', 0)
                 else if mcmd ! 3 = 1 then (''3000'', 1)
                 else if mcmd ! 3 = 2 then (''6000'', 2) else (''0'', fanSpeed m)) in
       Some (0, c_strncpy ''OK'' retSize,
         m\<lparr>fanSpeed := speed, m_fs := fst (write_str_to_file (m_fs m) sys_fan_input buf)\<rparr>))
   }"

text \<open>Reading the table beyond its 204 entries is undefined.\<close>

definition gettemperature_cmd :: "'s env \<Rightarrow> 's command" where
  "gettemperature_cmd E mcmd retMessage retSize m = do {
     (r, buf, m) \<leftarrow> mcu_send E mcmd True m;
     if r \<noteq> SUCCESS then Some (1, c_strncpy ''ERR'' retSize, m)
     else if unat (buf ! 5) \<ge> length ThermalTable then None
     else (let temp = ThermalTable ! unat (buf ! 5); msg = c_snprintf retSize (show_int (temp * 1000)) in
       Some (0, msg, m\<lparr>m_fs := fst (write_str_to_file (m_fs m) sys_temp_input msg)\<rparr>))
   }"

definition setpowerled_cmd :: "'s env \<Rightarrow> 's command" where
  "setpowerled_cmd E mcmd retMessage retSize m = do {
     (r, msg, m) \<leftarrow> simple_cmd E mcmd retMessage retSize m;
     if r \<noteq> 0 then Some (1, c_strncpy ''ERR'' retSize, m)
     else (let m = (if mcmd ! 3 = 0 then m\<lparr>curr_led_trigger := ''none'', curr_led_brightness := 0\<rparr>
                else if mcmd ! 3 = 1 then m\<lparr>curr_led_trigger := ''none'', curr_led_brightness := 1\<rparr>
                else if mcmd ! 3 = 2 then m\<lparr>curr_led_trigger := ''timer''\<rparr> else m);
             fs = fst (write_str_to_file (m_fs m) sys_pled_trigger (curr_led_trigger m));
             fs = fst (write_int_to_file fs sys_pled_brightness (curr_led_brightness m)) in
       Some (0, c_strncpy ''OK'' retSize, m\<lparr>m_fs := fs\<rparr>))
   }"

section \<open>The clock of the MCU\<close>

definition env_time :: "'s env \<Rightarrow> 's mcu \<Rightarrow> int \<times> 's mcu" where
  "env_time E m = (case e_time E (m_world m) of (t, w) \<Rightarrow> (t, m\<lparr>m_world := w\<rparr>))"

text \<open>The loops that recode the bytes 5 to 11 of a packet.\<close>

definition recode :: "(int \<Rightarrow> int) \<Rightarrow> byte list \<Rightarrow> byte list" where
  "recode f buf = take 5 buf @ List.map (\<lambda>b. word_of_int (f (uint b))) (take 7 (drop 5 buf)) @ drop 12 buf"

definition systohc_cmd :: "'s env \<Rightarrow> 's command" where
  "systohc_cmd E mcmd retMessage retSize m = (case env_time E m of (sysTime, m) \<Rightarrow>
     let t = gmtime sysTime;
         cmdBuf = take 5 mcmd @ List.map word_of_int [tm_sec t, tm_min t, tm_hour t, tm_wday t, tm_mday t,
           tm_mon t + 1, tm_year t - 100] @ take 1 (drop 12 mcmd) @ drop 13 (p_stack (e_port E) (m_world m))
     in do {
       (r, _, m) \<leftarrow> mcu_send E (recode int2bcd cmdBuf) False m;
       if r \<noteq> SUCCESS then Some (1, c_strncpy ''ERR'' retSize, m)
       else Some (0, c_strncpy ''OK'' retSize, m)
     })"

text \<open>The broken-down time of a decoded answer.\<close>

definition rtc_tm :: "byte list \<Rightarrow> tm" where
  "rtc_tm buf = \<lparr>tm_sec = uint (buf ! 5), tm_min = uint (buf ! 6), tm_hour = uint (buf ! 7),
     tm_mday = uint (buf ! 9), tm_mon = uint (buf ! 10) - 1, tm_year = 100 + uint (buf ! 11), tm_wday = 0\<rparr>"

definition ctime :: "'s env \<Rightarrow> int \<Rightarrow> string" where
  "ctime E t = asctime (e_localtime E t)"

definition hctosys_cmd :: "'s env \<Rightarrow> 's command" where
  "hctosys_cmd E mcmd retMessage retSize m = do {
     (r, buf, m) \<leftarrow> mcu_send E (m_arrays m RDateAndTimeCmd) True m;
     if r \<noteq> SUCCESS then Some (1, c_strncpy ''ERR'' retSize, m)
     else (let rtcTime = timegm (rtc_tm (recode bcd2int buf)); (sysTime, m) = env_time E m;
             (ok, w) = e_settime E rtcTime (m_world m); m = m\<lparr>m_world := w\<rparr> in
       if \<not> ok then Some (0, c_strncpy ''ERR'' retSize, m)
       else Some (0, c_snprintf retSize (ctime E rtcTime @ ''Sys: '' @ ctime E sysTime @ ''Diff: '' @
              show_int (sysTime - rtcTime) @ ''s''), m))
   }"

definition readrtc_cmd :: "'s env \<Rightarrow> 's command" where
  "readrtc_cmd E mcmd retMessage retSize m = do {
     (r, buf, m) \<leftarrow> mcu_send E mcmd True m;
     if r \<noteq> SUCCESS then Some (1, c_strncpy ''ERR'' retSize, m)
     else Some (0, c_snprintf retSize (butlast (ctime E (e_mktime E (rtc_tm (recode bcd2int buf))))), m)
   }"

section \<open>The wake-up alarm\<close>

text \<open>\<^verbatim>\<open>readalarm\<close> stores the four values one after the other; what it has stored when a command fails
  is kept (the caller prints it).\<close>

definition read_bcd :: "'s env \<Rightarrow> cmd_name \<Rightarrow> int \<Rightarrow> 's mcu \<Rightarrow> (bool \<times> int \<times> 's mcu) option" where
  "read_bcd E c old m = do {
     (r, buf, m) \<leftarrow> mcu_send E (m_arrays m c) True m;
     Some (if r \<noteq> SUCCESS then (False, old, m) else (True, bcd2int (uint (buf ! 5)), m))
   }"

definition readalarm ::
  "'s env \<Rightarrow> int \<times> int \<times> int \<times> int \<Rightarrow> 's mcu \<Rightarrow> (int \<times> (int \<times> int \<times> int \<times> int) \<times> 's mcu) option" where
  "readalarm E = (\<lambda>(month, day, hour, minute) m. do {
     (ok, month, m) \<leftarrow> read_bcd E RAlarmMonthCmd month m;
     if \<not> ok then Some (1, (month, day, hour, minute), m) else do {
     (ok, day, m) \<leftarrow> read_bcd E RAlarmDateCmd day m;
     if \<not> ok then Some (1, (month, day, hour, minute), m) else do {
     (ok, hour, m) \<leftarrow> read_bcd E RAlarmHourCmd hour m;
     if \<not> ok then Some (1, (month, day, hour, minute), m) else do {
     (ok, minute, m) \<leftarrow> read_bcd E RAlarmMinuteCmd minute m;
     if \<not> ok then Some (1, (month, day, hour, minute), m)
     else Some (0, (month, day, hour, minute), m) }}}})"

text \<open>The write commands are patched in the global arrays before they are sent.\<close>

definition patch :: "cmd_name \<Rightarrow> int \<Rightarrow> 's mcu \<Rightarrow> 's mcu" where
  "patch c v m = m\<lparr>m_arrays := (m_arrays m)(c := (m_arrays m c)[5 := word_of_int (int2bcd v)])\<rparr>"

definition write_bcd :: "'s env \<Rightarrow> cmd_name \<Rightarrow> int \<Rightarrow> 's mcu \<Rightarrow> (bool \<times> 's mcu) option" where
  "write_bcd E c v m = (let m = patch c v m in do {
     (r, _, m) \<leftarrow> mcu_send E (m_arrays m c) False m;
     Some (r = SUCCESS, m)
   })"

definition writealarm :: "'s env \<Rightarrow> int \<Rightarrow> int \<Rightarrow> int \<Rightarrow> int \<Rightarrow> 's mcu \<Rightarrow> (int \<times> 's mcu) option" where
  "writealarm E month day hour minute m = do {
     (ok, m) \<leftarrow> write_bcd E WAlarmMonthCmd (month + 1) m;
     if \<not> ok then Some (1, m) else do {
     (ok, m) \<leftarrow> write_bcd E WAlarmDateCmd day m;
     if \<not> ok then Some (1, m) else do {
     (ok, m) \<leftarrow> write_bcd E WAlarmHourCmd hour m;
     if \<not> ok then Some (1, m) else do {
     (ok, m) \<leftarrow> write_bcd E WAlarmMinuteCmd minute m;
     if \<not> ok then Some (1, m) else Some (0, m) }}}}"

definition alarm_err :: "int \<times> int \<times> int \<times> int \<Rightarrow> string" where
  "alarm_err = (\<lambda>(month, day, hour, minute). ''ERR '' @ show_int month @ ''/'' @ show_int day @ '' '' @
     show_int hour @ '':'' @ show_int minute)"

text \<open>1 on error, 2 for an elapsed alarm, 3 for a disabled one.\<close>

definition readAlarm_cmd :: "'s env \<Rightarrow> 's command" where
  "readAlarm_cmd E mcmd retMessage retSize m = do {
     (r, vals, m) \<leftarrow> readalarm E (-1, -1, -1, -1) m;
     if r \<noteq> 0 then Some (1, c_snprintf retSize (alarm_err vals), m)
     else if vals = (0, 0, 0, 0) then do {
       (_, _, m) \<leftarrow> simple_cmd E (m_arrays m WAlarmDisableCmd) retMessage retSize m;
       Some (3, c_snprintf retSize ''Wakeup alarm disabled'', m) }
     else do {
       (_, _, m) \<leftarrow> simple_cmd E (m_arrays m WAlarmEnableCmd) retMessage retSize m;
       let (ltime, m) = env_time E m; (month, day, hour, minute) = vals;
           utime = timegm \<lparr>tm_sec = 0, tm_min = minute, tm_hour = hour, tm_mday = day, tm_mon = month - 1,
             tm_year = tm_year (e_localtime E ltime), tm_wday = 0\<rparr> in
       if utime = -1 then Some (1, c_snprintf retSize (alarm_err vals), m)
       else Some (if ltime > utime then 2 else 0,
         c_snprintf retSize (''Wakeup alarm'' @ (if ltime > utime then '' (elapsed) '' else '' '') @ ''set to: '' @
           take 63 (strftime_FR (e_localtime E utime))), m) }
   }"

text \<open>What the option string of \<^verbatim>\<open>writeAlarm_cmd\<close> asks for: nothing to write, or the four values of a
  local date and time.\<close>

datatype alarm_request = Alarm_error | Alarm_disable | Alarm_at int int int int

definition prefix_casecmp :: "string \<Rightarrow> string \<Rightarrow> bool" where
  "prefix_casecmp s p \<longleftrightarrow> List.map c_tolower (take (length p) s) = List.map c_tolower p"

text \<open>One number of the list \<open>month day hour min\<close>; \<open>None\<close> is the jump to \<^verbatim>\<open>err\<close>.\<close>

definition alarm_num :: "string \<Rightarrow> (int \<times> string) option" where
  "alarm_num s = (case c_strtol10 s of (v, r) \<Rightarrow> if r = s then None else Some (v, r))"

definition alarm_list :: "string \<Rightarrow> (int \<times> int \<times> int \<times> int) option" where
  "alarm_list s = do {
     (month, s) \<leftarrow> alarm_num s; (day, s) \<leftarrow> alarm_num s; (hour, s) \<leftarrow> alarm_num s; (minute, s) \<leftarrow> alarm_num s;
     if day < 1 \<or> day > 31 \<or> month < 1 \<or> month > 12 \<or> hour < 0 \<or> hour > 23 \<or> minute < 0 \<or> minute > 59
     then None else Some (month, day, hour, minute) }"

definition alarm_request :: "'s env \<Rightarrow> tm \<Rightarrow> string \<Rightarrow> 's mcu \<Rightarrow> (alarm_request \<times> 's mcu) option" where
  "alarm_request E otm opt m =
     (if prefix_casecmp opt ''now'' then
        Some (Alarm_at (tm_mon otm + 1) (tm_mday otm) (tm_hour otm) (tm_min otm + 3), m)
      else if prefix_casecmp opt ''disable'' then Some (Alarm_disable, m)
      else if take 1 opt = ''+'' then
        (case alarm_num opt of None \<Rightarrow> Some (Alarm_error, m)
         | Some (i, rest) \<Rightarrow>
           if take 1 rest \<noteq> ''m'' \<and> take 1 rest \<noteq> ''d'' then Some (Alarm_error, m)
           else do {
             (r, (month, day, hour, minute), m) \<leftarrow> readalarm E (-1, -1, -1, -1) m;
             if r \<noteq> 0 then Some (Alarm_error, m)
             else (let (month, day, hour, minute) = (if day = 0 \<and> month = 0 \<and> hour = 0 \<and> minute = 0
                        then (tm_mon otm + 1, tm_mday otm, tm_hour otm, tm_min otm + 3)
                        else (month, day, hour, minute)) in
               Some (Alarm_at (month + (if take 1 rest = ''m'' then i else 0))
                       (day + (if take 1 rest = ''m'' then 0 else i)) hour minute, m)) })
      else (case alarm_list opt of None \<Rightarrow> Some (Alarm_error, m)
         | Some (month, day, hour, minute) \<Rightarrow> Some (Alarm_at month day hour minute, m)))"

definition writeAlarm_err :: string where
  "writeAlarm_err = ''ERR WriteAlarm: month day hour min | +N{d|m} (days|month) | now | disable''"

definition writeAlarm_cmd :: "'s env \<Rightarrow> 's command" where
  "writeAlarm_cmd E mcmd retMessage retSize m = (case env_time E m of (utime, m) \<Rightarrow>
     let otm = e_localtime E utime; err = c_snprintf retSize writeAlarm_err in do {
       (req, m) \<leftarrow> alarm_request E otm retMessage m;
       let utc = (case req of Alarm_error \<Rightarrow> None
         | Alarm_disable \<Rightarrow> Some (-1, 0, 0, 0)
         | Alarm_at month day hour minute \<Rightarrow>
             (let utime = e_mktime E \<lparr>tm_sec = 0, tm_min = minute, tm_hour = hour, tm_mday = day,
                tm_mon = month - 1, tm_year = tm_year otm, tm_wday = 0\<rparr>; g = gmtime utime in
              if utime = -1 then None else Some (tm_mon g, tm_mday g, tm_hour g, tm_min g)));
       case utc of None \<Rightarrow> Some (1, err, m)
       | Some (mon, mday, hour, minute) \<Rightarrow> do {
           (r, m) \<leftarrow> writealarm E mon mday hour minute m;
           if r \<noteq> 0 then Some (1, err, m) else readAlarm_cmd E [] retMessage retSize m }
     })"

section \<open>Other commands and dispatch\<close>

definition deviceshutdown_cmd :: "'s env \<Rightarrow> 's command" where
  "deviceshutdown_cmd E mcmd retMessage retSize m = (case c_strtol10 retMessage of (v, r) \<Rightarrow>
     let m = patch DeviceShutdownCmd (if r = retMessage then 5 else v) m in
     simple_cmd E (m_arrays m DeviceShutdownCmd) retMessage retSize m)"

definition shutdowndaemon_cmd :: "'s env \<Rightarrow> 's command" where
  "shutdowndaemon_cmd E mcmd retMessage retSize m = Some (-2, c_strncpy ''OK'' retSize, m)"

definition quit_cmd :: "'s env \<Rightarrow> 's command" where
  "quit_cmd E mcmd retMessage retSize m = Some (-1, c_strncpy ''Bye'' retSize, m)"

text \<open>The table of commands. A null packet pointer is \<open>None\<close>.\<close>

datatype cmd_func = F_simple | F_simple2 | F_setpowerled | F_setfan | F_readrtc | F_readAlarm | F_writeAlarm
  | F_systohc | F_hctosys | F_gettemperature | F_help | F_quit | F_shutdowndaemon | F_deviceshutdown

definition cmds :: "(string \<times> cmd_name option \<times> cmd_func) list" where
  "cmds = [
     (''DeviceReady'', Some DeviceReadyCmd, F_simple),
     (''DeviceShutdown'', Some DeviceShutdownCmd, F_deviceshutdown),
     (''ShutdownDaemon'', None, F_shutdowndaemon),
     (''EnablePowerRecovery'', Some APREnableCmd, F_simple),
     (''DisablePowerRecovery'', Some APRDisableCmd, F_simple),
     (''GetPowerRecoveryState'', Some APRStatusCmd, F_simple2),
     (''EnableWOL'', Some WOLStatusEnableCmd, F_simple),
     (''DisableWOL'', Some WOLStatusDisableCmd, F_simple),
     (''GetWOLState'', Some WOLStatusGetCmd, F_simple2),
     (''SetFanStop'', Some FanStopCmd, F_setfan),
     (''SetFanHalf'', Some FanHalfCmd, F_setfan),
     (''SetFanFull'', Some FanFullCmd, F_setfan),
     (''PowerLedOn'', Some PwrLedOnCmd, F_setpowerled),
     (''PowerLedOff'', Some PwrLedOffCmd, F_setpowerled),
     (''PowerLedBlink'', Some PwrLedBlinkCmd, F_setpowerled),
     (''ReadRtc'', Some RDateAndTimeCmd, F_readrtc),
     (''ReadAlarm'', None, F_readAlarm),
     (''WriteAlarm'', None, F_writeAlarm),
     (''EnableAlarm'', Some WAlarmEnableCmd, F_simple),
     (''DisableAlarm'', Some WAlarmDisableCmd, F_simple),
     (''systohc'', Some WDateAndTimeCmd, F_systohc),
     (''hctosys'', Some RDateAndTimeCmd, F_hctosys),
     (''GetTemperature'', Some ThermalStatusGetCmd, F_gettemperature),
     (''help'', None, F_help),
     (''quit'', None, F_quit)]"

definition help_cmd :: "'s env \<Rightarrow> 's command" where
  "help_cmd E mcmd retMessage retSize m =
     (let msg = c_strncpy (''Available Commands:'' @ [CHR 0x0A, CHR 0x0A]) retSize;
          msg = foldl (\<lambda>msg c. c_strncat (c_strncat msg (fst c) retSize) '', '' retSize) msg cmds;
          msg = take (length msg - 2) msg;
          msg = c_strncat msg ''.'' retSize in
      if length msg + 2 > retSize then None else Some (1, msg, m))"

fun run_func :: "'s env \<Rightarrow> cmd_func \<Rightarrow> 's command" where
  "run_func E F_simple = simple_cmd E"
| "run_func E F_simple2 = simple_cmd2 E"
| "run_func E F_setpowerled = setpowerled_cmd E"
| "run_func E F_setfan = setfan_cmd E"
| "run_func E F_readrtc = readrtc_cmd E"
| "run_func E F_readAlarm = readAlarm_cmd E"
| "run_func E F_writeAlarm = writeAlarm_cmd E"
| "run_func E F_systohc = systohc_cmd E"
| "run_func E F_hctosys = hctosys_cmd E"
| "run_func E F_gettemperature = gettemperature_cmd E"
| "run_func E F_help = help_cmd E"
| "run_func E F_quit = quit_cmd E"
| "run_func E F_shutdowndaemon = shutdowndaemon_cmd E"
| "run_func E F_deviceshutdown = deviceshutdown_cmd E"

fun find_cmd :: "string \<Rightarrow> (string \<times> cmd_name option \<times> cmd_func) list \<Rightarrow> (cmd_name option \<times> cmd_func) option" where
  "find_cmd c [] = None"
| "find_cmd c ((u, a, f) # t) = (if strcaseeq u c then Some (a, f) else find_cmd c t)"

text \<open>The options follow the first blank of the line. The copies into \<^verbatim>\<open>retMessage\<close> are unbounded.\<close>

definition split_cmd :: "string \<Rightarrow> string \<Rightarrow> string \<times> string" where
  "split_cmd cmd retMessage = (if CHR '' '' \<in> set cmd
     then (takeWhile (\<lambda>c. c \<noteq> CHR '' '') cmd, drop 1 (dropWhile (\<lambda>c. c \<noteq> CHR '' '') cmd)) else (cmd, retMessage))"

definition HandleCommand :: "'s env \<Rightarrow> string \<Rightarrow> string \<Rightarrow> nat \<Rightarrow> 's mcu \<Rightarrow> (int \<times> string \<times> 's mcu) option" where
  "HandleCommand E cmd retMessage retSize m = (case split_cmd cmd retMessage of (c, opts) \<Rightarrow>
     if length opts + 1 > retSize then None
     else (case find_cmd c cmds of
         Some (a, f) \<Rightarrow> run_func E f (case a of None \<Rightarrow> [] | Some n \<Rightarrow> m_arrays m n) opts retSize m
       | None \<Rightarrow> (let msg = ''ERR Unknown command \"'' @ c @ ''\"'' in
           if length msg + 1 > retSize then None else Some (1, msg, m))))"

end
