(* ===== verification/McuCommandProps.thy ===== *)
theory McuCommandProps
  imports McuCommands
begin

text \<open>
  What the commands of the MCU daemon guarantee: the dispatch table is unambiguous, the packet
  arrays stay packets, the published fan speed and temperature are those of the MCU, and a failed
  command changes nothing but the outside world. Two theorems pin down where the code leaves its
  buffers or its packet format.
\<close>

section \<open>Frame lemmas\<close>

lemma mcu_send_frame [frame]:
  "mcu_send E cmd want m = Some (r, buf, m') \<Longrightarrow>
   m_fs m' = m_fs m \<and> m_arrays m' = m_arrays m \<and> fanSpeed m' = fanSpeed m \<and>
   curr_led_trigger m' = curr_led_trigger m \<and> curr_led_brightness m' = curr_led_brightness m"
  by (auto simp: mcu_send_def bind_eq_Some_conv)

lemma simple_cmd_frame [frame]:
  "simple_cmd E c s n m = Some (r, msg, m') \<Longrightarrow>
   m_fs m' = m_fs m \<and> m_arrays m' = m_arrays m \<and> fanSpeed m' = fanSpeed m \<and>
   curr_led_trigger m' = curr_led_trigger m \<and> curr_led_brightness m' = curr_led_brightness m \<and>
   (r = 0 \<and> msg = take n ''OK'' \<or> r = 1 \<and> msg = take n ''ERR'')"
  by (auto simp: simple_cmd_def bind_eq_Some_conv c_strncpy_def dest!: mcu_send_frame split: if_splits)

lemma env_time_frame [frame]: "env_time E m = (t, m') \<Longrightarrow> m_arrays m' = m_arrays m \<and> m_fs m' = m_fs m"
  by (auto simp: env_time_def split: prod.splits)

section \<open>Dispatch\<close>

lemma find_cmd_unique:
  assumes "distinct (List.map (\<lambda>e. List.map c_tolower (fst e)) t)" "(u, a, f) \<in> set t" "strcaseeq u c"
  shows "find_cmd c t = Some (a, f)"
  using assms
proof (induction t)
  case (Cons e t)
  obtain u' a' f' where e: "e = (u', a', f')" by (cases e) auto
  show ?case
  proof (cases "(u, a, f) = e")
    case True
    with Cons.prems e show ?thesis by simp
  next
    case False
    with Cons.prems have "(u, a, f) \<in> set t" by simp
    then have "List.map c_tolower u \<in> (\<lambda>e. List.map c_tolower (fst e)) ` set t" by force
    with Cons.prems(1) e have "List.map c_tolower u \<noteq> List.map c_tolower u'"
      by (metis (no_types, lifting) distinct.simps(2) fst_conv list.simps(9) set_map)
    with Cons.prems(3) have "\<not> strcaseeq u' c" by (simp add: strcaseeq_def)
    with Cons False e show ?thesis by auto
  qed
qed simp

lemma cmds_distinct: "distinct (List.map (\<lambda>e. List.map c_tolower (fst e)) cmds)"
  by code_simp

lemma split_cmd_plain: "CHR '' '' \<notin> set c \<Longrightarrow> split_cmd c opts = (c, opts)"
  by (simp add: split_cmd_def)

lemma split_cmd_args: "CHR '' '' \<notin> set c \<Longrightarrow> split_cmd (c @ CHR '' '' # args) opts = (c, args)"
  by (induction c) (auto simp: split_cmd_def)

lemma find_cmd_other_length:
  "\<forall>e \<in> set t. length (fst e) \<noteq> length c \<Longrightarrow> find_cmd c t = None"
  by (induction c t rule: find_cmd.induct) (auto simp: strcaseeq_def dest: map_eq_imp_length_eq)

lemma find_cmd_long: "30 < length c \<Longrightarrow> find_cmd c cmds = None"
  by (rule find_cmd_other_length) (auto simp: cmds_def)

text \<open>An environment for the examples: a scripted line, a clock that stands at 0, UTC.\<close>

definition line_env :: "(byte option list \<times> byte list) env" where
  "line_env = \<lparr>e_port = line_port,
     e_config = \<lparr>goDaemon = False, xcmd = False, debug = False, serverName = [], portName = [], nRetries = 2\<rparr>,
     e_time = (\<lambda>w. (0, w)), e_settime = (\<lambda>_ w. (True, w)), e_localtime = gmtime, e_mktime = timegm,
     e_uninit = (\<lambda>_. 0)\<rparr>"

definition line_mcu :: "byte option list \<Rightarrow> (byte option list \<times> byte list) mcu" where
  "line_mcu script = mcu_init (script, []) \<lparr>sf_files = (\<lambda>_. None), sf_ro = (\<lambda>_. False)\<rparr>"

text \<open>Dispatch. A line that is the name of a command in any case, a blank and options,
  runs the function the table has for this name on the packet of the table, with these options,
  whatever the message buffer held before; no other entry of the table can shadow it.\<close>

theorem HandleCommand_dispatch:
  assumes "(u, a, f) \<in> set cmds" "strcaseeq u c" "CHR '' '' \<notin> set c" "length args < retSize"
  shows "HandleCommand E (c @ '' '' @ args) retMessage retSize m =
           run_func E f (case a of None \<Rightarrow> [] | Some n \<Rightarrow> m_arrays m n) args retSize m"
  using find_cmd_unique [OF cmds_distinct assms(1,2)] assms(3,4)
  by (simp add: HandleCommand_def split_cmd_args)

lemma HandleCommand_dispatch_witness:
  "HandleCommand line_env (''setfanHALF'' @ '' '' @ []) ''x'' 512 (line_mcu []) =
     run_func line_env F_setfan (case Some FanHalfCmd of None \<Rightarrow> [] | Some n \<Rightarrow> m_arrays (line_mcu []) n) [] 512 (line_mcu [])"
  by (rule HandleCommand_dispatch [where u = "''SetFanHalf''"]) (simp add: cmds_def, code_simp, simp, simp)

text \<open>Long unknown commands. A line without a blank that names no command is answered with
  an error as long as it has at most 489 characters; a longer one, which \<^verbatim>\<open>poll_wait\<close> accepts up to 511,
  overruns the 512 bytes of the answer.\<close>

theorem HandleCommand_unknown:
  assumes "find_cmd c cmds = None" "CHR '' '' \<notin> set c" "opts = []"
  shows "HandleCommand E c opts 512 m =
    (if length c \<le> 489 then Some (1, ''ERR Unknown command \"'' @ c @ ''\"'', m) else None)"
  using assms by (simp add: HandleCommand_def split_cmd_plain)

lemma HandleCommand_unknown_witness:
  "HandleCommand line_env (replicate 490 (CHR ''x'')) [] 512 (line_mcu []) = None"
proof -
  have f: "find_cmd (replicate 490 (CHR ''x'')) cmds = None" by (rule find_cmd_long) simp
  have b: "CHR '' '' \<notin> set (replicate 490 (CHR ''x''))" by simp
  show ?thesis using HandleCommand_unknown [OF f b refl, of line_env "line_mcu []"] by (simp del: replicate_Suc)
qed

section \<open>Published values\<close>

text \<open>A failed command leaves everything but the outside world as it was.\<close>

definition same_state :: "'s mcu \<Rightarrow> 's mcu \<Rightarrow> bool" where
  "same_state m m' \<longleftrightarrow> m' = m\<lparr>m_world := m_world m'\<rparr>"

lemma simple_cmd_same: "simple_cmd E c s n m = Some (r, msg, m') \<Longrightarrow> same_state m m'"
  by (auto simp: simple_cmd_def mcu_send_def bind_eq_Some_conv same_state_def split: if_splits)

lemma write_read_str:
  "\<not> sf_ro fs f \<Longrightarrow> length s < 63 \<Longrightarrow> CHR 0x00 \<notin> set s \<Longrightarrow>
   read_str_from_file (fst (write_str_to_file fs f s)) f 64 = Some s"
  using str_file.get_put [of fs f s] by (simp add: put_str_def get_str_def)

lemma setfan_cmd_rule:
  assumes "c = cmd_init FanStopCmd \<and> k = 0 \<or> c = cmd_init FanHalfCmd \<and> k = 1 \<or> c = cmd_init FanFullCmd \<and> k = 2"
    and "\<not> sf_ro (m_fs m) sys_fan_input" "setfan_cmd E c s n m = Some (r, msg, m')"
  shows "r = 0 \<and> msg = take n ''OK'' \<and> fanSpeed m' = int k \<and>
           read_str_from_file (m_fs m') sys_fan_input 64 = Some (show_nat (3000 * k)) \<or>
         r = 1 \<and> msg = take n ''ERR'' \<and> same_state m m'"
proof -
  have k: "c ! 3 = of_nat k" "k = 0 \<or> k = 1 \<or> k = 2" using assms(1) by auto
  define t where "t = show_nat (3000 * k)"
  have t: "t = (if k = 0 then ''0'' else if k = 1 then ''3000'' else ''6000'')"
  proof -
    have "show_nat 0 = ''0''" "show_nat 3000 = ''3000''" "show_nat 6000 = ''6000''" by (simp_all add: show_nat.simps char_of_def bit_0)
    with k(2) show ?thesis by (auto simp: t_def)
  qed
  obtain r1 msg1 m1 where s: "simple_cmd E c s n m = Some (r1, msg1, m1)"
    using assms(3) by (auto simp: setfan_cmd_def bind_eq_Some_conv)
  note fr = simple_cmd_frame [OF s]
  show ?thesis
  proof (cases "r1 = 0")
    case True
    have st: "read_str_from_file (fst (write_str_to_file (m_fs m) sys_fan_input t)) sys_fan_input 64 = Some t"
      using assms(2) by (intro write_read_str) (auto simp: t)
    have "m' = m1\<lparr>fanSpeed := int k, m_fs := fst (write_str_to_file (m_fs m) sys_fan_input t)\<rparr> \<and> r = 0 \<and> msg = take n ''OK''"
      using k assms(3) s True fr by (elim disjE) (simp_all add: setfan_cmd_def SUCCESS_def c_strncpy_def t)
    with st show ?thesis by (simp add: t_def)
  next
    case False
    with fr have "r1 = 1" by auto
    then show ?thesis using assms(3) s simple_cmd_same [OF s] by (simp add: setfan_cmd_def SUCCESS_def c_strncpy_def)
  qed
qed

text \<open>Fan state. For the three fan packets, \<^verbatim>\<open>setfan_cmd\<close> either succeeds, and then
  \<^verbatim>\<open>fanSpeed\<close> is the speed of the packet and \<^verbatim>\<open>fan1_input\<close> holds the revolutions that belong to it, or
  fails, and then neither has changed.\<close>

theorem setfan_cmd_state:
  assumes "c = cmd_init FanStopCmd \<and> k = 0 \<or> c = cmd_init FanHalfCmd \<and> k = 1 \<or> c = cmd_init FanFullCmd \<and> k = 2"
    and "\<not> sf_ro (m_fs m) sys_fan_input" "setfan_cmd E c s n m = Some (r, msg, m')"
  shows "r = 0 \<and> msg = take n ''OK'' \<and> fanSpeed m' = int k \<and>
           read_str_from_file (m_fs m') sys_fan_input 64 = Some (show_nat (3000 * k)) \<or>
         r = 1 \<and> msg = take n ''ERR'' \<and> same_state m m'"
  using assms by (rule setfan_cmd_rule)

lemma mcu_send_acked:
  "SendCommand (e_port E) (nRetries (e_config E)) cmd (None, m_world m) = Some (SUCCESS, None, w) \<Longrightarrow>
   mcu_send E cmd False m = Some (SUCCESS, [], m\<lparr>m_world := w\<rparr>)"
  by (simp add: mcu_send_def)

lemma line_accepts: "accepts line_port c (i, out) = Some (i, out @ c)"
  by (induction c arbitrary: out) (auto simp: line_port_def)

lemma line_delivers: "delivers line_port a (map Some (a @ t), out) = Some (map Some t, out)"
  by (induction a) (auto simp: line_port_def)

lemma line_clear: "ClearSerialPort line_port s = Some s"
  by (simp add: ClearSerialPort_def line_port_def)

lemma line_acked:
  "packet cmd \<Longrightarrow> length cmd \<le> 21 \<Longrightarrow>
   SendCommand line_port k cmd (None, map Some (AckFromSerial @ rest), out) = Some (SUCCESS, None, map Some rest, out @ cmd)"
  by (rule SendCommand_acked [OF line_port_ok line_clear _ _ line_accepts line_delivers])

lemma line_answered:
  assumes "packet cmd" "length cmd \<le> 21" "packet ans" "5 \<le> length ans" "length ans \<le> 16" "take 5 ans = take 5 cmd"
  shows "SendCommand line_port k cmd (Some buf, map Some (ans @ AckFromSerial @ rest), out) =
     Some (SUCCESS, Some (ans @ replicate (16 - length ans) 0), map Some rest, out @ cmd)"
  using SendCommand_exchange [OF line_port_ok line_clear assms(1,2) line_accepts assms(3-5) line_delivers assms(6) line_delivers]
  by (simp add: line_port_def)

lemma setfan_half_example:
  "setfan_cmd line_env (cmd_init FanHalfCmd) [] 16 (line_mcu (map Some AckFromSerial)) =
     Some (0, ''OK'', (line_mcu [])\<lparr>m_world := ([], cmd_init FanHalfCmd), fanSpeed := 1,
       m_fs := fst (write_str_to_file (m_fs (line_mcu [])) sys_fan_input ''3000'')\<rparr>)"
proof -
  have p: "packet (cmd_init FanHalfCmd)" "length (cmd_init FanHalfCmd) \<le> 21" by (simp_all add: packet_def CMD_STOP_MAGIC_def)
  have "mcu_send line_env (cmd_init FanHalfCmd) False (line_mcu (map Some AckFromSerial))
      = Some (SUCCESS, [], (line_mcu [])\<lparr>m_world := ([], cmd_init FanHalfCmd)\<rparr>)"
    using mcu_send_acked [of line_env "cmd_init FanHalfCmd" "line_mcu (map Some AckFromSerial)"]
      line_acked [OF p, of 2 "[]" "[]"] by (simp add: line_env_def line_mcu_def mcu_init_def)
  then show ?thesis
    by (simp add: setfan_cmd_def simple_cmd_def SUCCESS_def c_strncpy_def line_mcu_def mcu_init_def)
qed

lemma setfan_cmd_state_witness:
  "(0::int) = 0 \<and> ''OK'' = take 16 ''OK'' \<and>
     fanSpeed ((line_mcu [])\<lparr>m_world := ([], cmd_init FanHalfCmd), fanSpeed := 1,
       m_fs := fst (write_str_to_file (m_fs (line_mcu [])) sys_fan_input ''3000'')\<rparr>) = int 1"
proof -
  have ro: "\<not> sf_ro (m_fs (line_mcu (map Some AckFromSerial))) sys_fan_input"
    by (simp add: line_mcu_def mcu_init_def)
  show ?thesis using setfan_cmd_state [OF _ ro setfan_half_example, of 1] by simp
qed

lemma ThermalTable_range: "t \<in> set ThermalTable \<Longrightarrow> 0 \<le> t \<and> t \<le> 116"
proof -
  have "list_all (\<lambda>t. 0 \<le> t \<and> t \<le> 116) ThermalTable" by (simp add: ThermalTable_def)
  then show "t \<in> set ThermalTable \<Longrightarrow> 0 \<le> t \<and> t \<le> 116" by (simp add: list_all_iff)
qed

text \<open>The table falls from 116 to 0 degrees, but for a jump up at index 133.\<close>

lemma ThermalTable_jump:
  "ThermalTable ! 132 = 23 \<and> ThermalTable ! 133 = 37 \<and> ThermalTable ! 134 = 27"
  by (simp add: ThermalTable_def)

text \<open>Temperature. When \<^verbatim>\<open>gettemperature_cmd\<close> succeeds, the file \<^verbatim>\<open>temp1_input\<close> and the answer hold
  the same value, a temperature of the table in thousandths of a degree, and the rest of the
  daemon's state is as before; when it fails nothing but the outside world has changed. An answer
  byte beyond the table is the only way to leave defined behaviour after a good exchange.\<close>

theorem gettemperature_cmd_state:
  assumes "\<not> sf_ro (m_fs m) sys_temp_input" "7 \<le> n"
    and "mcu_send E c True m = Some (q, buf, m1)"
  shows "gettemperature_cmd E c s n m =
    (if q \<noteq> SUCCESS then Some (1, take n ''ERR'', m1)
     else if 204 \<le> unat (buf ! 5) then None
     else Some (0, show_int (ThermalTable ! unat (buf ! 5) * 1000),
       m1\<lparr>m_fs := fst (write_int_to_file (m_fs m) sys_temp_input (ThermalTable ! unat (buf ! 5) * 1000))\<rparr>)) \<and>
    (unat (buf ! 5) < 204 \<longrightarrow>
       read_int_from_file (fst (write_int_to_file (m_fs m) sys_temp_input (ThermalTable ! unat (buf ! 5) * 1000)))
         sys_temp_input v = Some (ThermalTable ! unat (buf ! 5) * 1000) \<and>
       0 \<le> ThermalTable ! unat (buf ! 5) \<and> ThermalTable ! unat (buf ! 5) \<le> 116) \<and> same_state m m1"
proof -
  have len: "length ThermalTable = 204" by (simp add: ThermalTable_def)
  have same: "same_state m m1" using assms(3) by (auto simp: mcu_send_def bind_eq_Some_conv same_state_def)
  have r: "0 \<le> ThermalTable ! k \<and> ThermalTable ! k \<le> 116" if "k < 204" for k
    using ThermalTable_range [of "ThermalTable ! k"] that len by simp
  have short: "take (n - 1) (show_int (ThermalTable ! k * 1000)) = show_int (ThermalTable ! k * 1000)" if "k < 204" for k
    using r [OF that] assms(2) length_show_nat [of "nat (ThermalTable ! k * 1000)" 6]
    by (simp add: show_int_def nat_less_iff)
  have rw: "read_int_from_file (fst (write_int_to_file (m_fs m) sys_temp_input (ThermalTable ! k * 1000)))
      sys_temp_input v = Some (ThermalTable ! k * 1000)" if "k < 204" for k
    using r [OF that] assms(1) by (intro read_write_int) auto
  show ?thesis using assms(1,3) len same r short rw mcu_send_frame [OF assms(3)]
    by (simp add: gettemperature_cmd_def c_strncpy_def c_snprintf_def Let_def write_int_to_file_def [symmetric])
qed

lemma gettemperature_cmd_state_witness:
  "let m = line_mcu (map Some (temp_answer @ AckFromSerial));
       m1 = m\<lparr>m_world := ([], cmd_init ThermalStatusGetCmd)\<rparr> in
   gettemperature_cmd line_env (cmd_init ThermalStatusGetCmd) [] 16 m =
     Some (0, show_int 34000, m1\<lparr>m_fs := fst (write_int_to_file (m_fs m) sys_temp_input 34000)\<rparr>)"
proof -
  define m where "m = line_mcu (map Some (temp_answer @ AckFromSerial))"
  have p: "packet (cmd_init ThermalStatusGetCmd)" "packet temp_answer"
    by (simp_all add: packet_def CMD_STOP_MAGIC_def temp_answer_def)
  have l: "length temp_answer = 7" "take 5 temp_answer = take 5 (cmd_init ThermalStatusGetCmd)"
    by (simp_all add: temp_answer_def)
  have "mcu_send line_env (cmd_init ThermalStatusGetCmd) True m =
     Some (SUCCESS, temp_answer @ replicate 9 0, m\<lparr>m_world := ([], cmd_init ThermalStatusGetCmd)\<rparr>)"
    using line_answered [OF p(1) _ p(2), of 2 _ "[]" "[]"] l
    by (simp add: mcu_send_def line_env_def m_def line_mcu_def mcu_init_def del: map_append)
  note gettemperature_cmd_state [OF _ _ this, of 16 "[]" 0]
  moreover have "\<not> sf_ro (m_fs m) sys_temp_input" by (simp add: m_def line_mcu_def mcu_init_def)
  moreover have "(temp_answer @ replicate 9 0) ! 5 = 0x6A" by (simp add: temp_answer_def)
  moreover have "ThermalTable ! 106 = 34" by (simp add: ThermalTable_def)
  ultimately show ?thesis unfolding Let_def m_def [symmetric] by simp
qed

section \<open>Packet arrays\<close>

text \<open>Every writable array still holds a packet, with the header and length it was initialised with.\<close>

definition arrays_ok :: "(cmd_name \<Rightarrow> byte list) \<Rightarrow> bool" where
  "arrays_ok A \<longleftrightarrow> (\<forall>c. packet (A c) \<and> length (A c) = length (cmd_init c) \<and> take 5 (A c) = take 5 (cmd_init c))"

lemma arrays_ok_init: "arrays_ok cmd_init"
proof -
  have "packet (cmd_init c)" for c by (cases c) (simp_all add: packet_def CMD_STOP_MAGIC_def)
  then show ?thesis by (simp add: arrays_ok_def)
qed

lemma packet_update:
  assumes "packet p" "b \<noteq> CMD_STOP_MAGIC" "i + 1 < length p"
  shows "packet (p[i := b])"
proof -
  have l: "last (p[i := b]) = last p" using assms(1,3) by (auto simp: packet_def last_list_update)
  have "butlast (p[i := b]) = (butlast p)[i := b]" using assms(3) by (auto simp: butlast_list_update)
  then have "CMD_STOP_MAGIC \<notin> set (butlast (p[i := b]))"
    using assms(1,2) set_update_subset_insert [of "butlast p" i b] by (auto simp: packet_def)
  with l assms(1) show ?thesis by (simp add: packet_def)
qed

lemma int2bcd_not_stop: "0 \<le> v \<Longrightarrow> word_of_int (int2bcd v) \<noteq> CMD_STOP_MAGIC"
proof
  assume v: "0 \<le> v" and e: "word_of_int (int2bcd v) = CMD_STOP_MAGIC"
  from arg_cong [OF e, of uint] have "int2bcd v mod 256 = 251"
    by (simp add: CMD_STOP_MAGIC_def uint_word_of_int)
  then have "(16 * (v div 10) + v mod 10) mod 256 = 251" by (simp add: int2bcd_nonneg v)
  then have "(16 * (v div 10) + v mod 10) mod 256 mod 16 = 251 mod 16" by simp
  then have "v mod 10 mod 16 = 11" by (simp add: mod_mod_cancel)
  moreover have "v mod 10 mod 16 = v mod 10" "v mod 10 < 10" by simp_all
  ultimately show False by linarith
qed

lemma patch_ok:
  assumes "arrays_ok (m_arrays m)" "0 \<le> v" "length (cmd_init c) = 7"
  shows "arrays_ok (m_arrays (patch c v m))"
proof -
  have "packet (m_arrays m c)" "length (m_arrays m c) = 7" "take 5 (m_arrays m c) = take 5 (cmd_init c)"
    using assms by (auto simp: arrays_ok_def)
  then show ?thesis
    using assms packet_update [of "m_arrays m c" "word_of_int (int2bcd v)" 5] int2bcd_not_stop [OF assms(2)]
    by (auto simp: arrays_ok_def patch_def)
qed

lemma write_bcd_ok:
  "write_bcd E c v m = Some (b, m') \<Longrightarrow> arrays_ok (m_arrays m) \<Longrightarrow> 0 \<le> v \<Longrightarrow> length (cmd_init c) = 7 \<Longrightarrow>
   arrays_ok (m_arrays m')"
  using patch_ok [of m v c] by (auto simp: write_bcd_def Let_def bind_eq_Some_conv dest!: mcu_send_frame)

lemma writealarm_ok:
  assumes "arrays_ok (m_arrays m)" "-1 \<le> mon" "0 \<le> d" "0 \<le> h" "0 \<le> mi" "writealarm E mon d h mi m = Some (r, m')"
  shows "arrays_ok (m_arrays m')"
proof -
  have 1: "write_bcd E WAlarmMonthCmd (mon + 1) a = Some (b, c) \<Longrightarrow> arrays_ok (m_arrays a) \<Longrightarrow> arrays_ok (m_arrays c)" for a b c
    using write_bcd_ok [of E WAlarmMonthCmd "mon + 1"] assms(2) by fastforce
  have 2: "write_bcd E WAlarmDateCmd d a = Some (b, c) \<Longrightarrow> arrays_ok (m_arrays a) \<Longrightarrow> arrays_ok (m_arrays c)" for a b c
    using write_bcd_ok [of E WAlarmDateCmd d] assms(3) by fastforce
  have 3: "write_bcd E WAlarmHourCmd h a = Some (b, c) \<Longrightarrow> arrays_ok (m_arrays a) \<Longrightarrow> arrays_ok (m_arrays c)" for a b c
    using write_bcd_ok [of E WAlarmHourCmd h] assms(4) by fastforce
  have 4: "write_bcd E WAlarmMinuteCmd mi a = Some (b, c) \<Longrightarrow> arrays_ok (m_arrays a) \<Longrightarrow> arrays_ok (m_arrays c)" for a b c
    using write_bcd_ok [of E WAlarmMinuteCmd mi] assms(5) by fastforce
  show ?thesis using assms(6,1)
    unfolding writealarm_def bind_eq_Some_conv
    by (auto simp: bind_eq_Some_conv split: if_splits dest!: 1 2 3 4)
qed

lemma gmtime_nonneg: "-1 \<le> tm_mon (gmtime t) \<and> 0 \<le> tm_mday (gmtime t) \<and> 0 \<le> tm_hour (gmtime t) \<and> 0 \<le> tm_min (gmtime t)"
proof -
  define doe where "doe = (t div 86400 + 719468) mod 146097"
  define yoe where "yoe = (doe - doe div 1460 + doe div 36524 - doe div 146096) div 365"
  define doy where "doy = doe - (365 * yoe + yoe div 4 - yoe div 100)"
  have doe: "0 \<le> doe" "doe < 146097" by (simp_all add: doe_def)
  have "doy \<ge> -40"
  proof -
    have "365 * yoe \<le> doe - doe div 1460 + doe div 36524 - doe div 146096" by (simp add: yoe_def)
    moreover have "doe = 1460 * (doe div 1460) + doe mod 1460" "doe = 36524 * (doe div 36524) + doe mod 36524"
      "doe = 146096 * (doe div 146096) + doe mod 146096"
      by simp_all
    moreover have "doe mod 1460 < 1460" "0 \<le> doe mod 36524" "doe mod 146096 < 146096" "0 \<le> doe mod 1460" by simp_all
    moreover have "4 * (yoe div 4) \<le> yoe" "yoe - 100 < 100 * (yoe div 100)" by simp_all
    ultimately show ?thesis using doe unfolding doy_def by linarith
  qed
  then have mp: "(5 * doy + 2) div 153 \<ge> -2" by linarith
  have md: "doy - day_of_year ((5 * doy + 2) div 153) + 1 \<ge> 1" unfolding day_of_year_def by linarith
  define mo where "mo = (5 * doy + 2) div 153"
  define m where "m = (if mo < 10 then mo + 3 else mo - 9)"
  have "snd (civil_from_days (t div 86400)) = (m, doy - day_of_year mo + 1)"
    by (simp only: civil_from_days_def Let_def doe_def [symmetric] yoe_def [symmetric] doy_def [symmetric]
        mo_def [symmetric] m_def [symmetric] snd_conv)
  then obtain y where y: "civil_from_days (t div 86400) = (y, m, doy - day_of_year mo + 1)"
    by (metis prod.collapse)
  have "1 \<le> m" using mp by (auto simp: m_def mo_def [symmetric])
  then show ?thesis using md unfolding mo_def [symmetric] by (simp add: gmtime_def y)
qed

lemma read_bcd_stepE:
  assumes "read_bcd E c old m \<bind> (\<lambda>(ok, x, m). if \<not> ok then Some (1 :: int, h x, m) else g x m) = Some (r, w, m')"
  obtains "m_arrays m' = m_arrays m" | x m1 where "m_arrays m1 = m_arrays m" "g x m1 = Some (r, w, m')"
proof -
  obtain ok x m1 where s: "read_bcd E c old m = Some (ok, x, m1)" using assms by (auto simp: bind_eq_Some_conv)
  then have "m_arrays m1 = m_arrays m"
    by (auto simp: read_bcd_def bind_eq_Some_conv dest!: mcu_send_frame split: if_splits)
  with assms s show thesis by (cases ok) (auto intro: that)
qed

lemma readalarm_arrays:
  assumes "readalarm E v m = Some (r, w, m')" shows "m_arrays m' = m_arrays m"
proof -
  obtain mo d h mi where v: "v = (mo, d, h, mi)" by (cases v)
  from assms show ?thesis unfolding v readalarm_def prod.case
    by (elim read_bcd_stepE) simp_all
qed

lemma readAlarm_arrays:
  assumes "readAlarm_cmd E c s n m = Some (r, msg, m')" shows "m_arrays m' = m_arrays m"
proof -
  obtain q vals m1 where ra: "readalarm E (-1, -1, -1, -1) m = Some (q, vals, m1)"
    using assms by (auto simp: readAlarm_cmd_def bind_eq_Some_conv)
  note m1 = readalarm_arrays [OF ra]
  consider "q \<noteq> 0" | "q = 0" "vals = (0, 0, 0, 0)" | "q = 0" "vals \<noteq> (0, 0, 0, 0)" by blast
  then show ?thesis
  proof cases
    case 1
    then show ?thesis using assms ra m1 by (simp add: readAlarm_cmd_def)
  next
    case 2
    then show ?thesis using assms ra m1 by (auto simp: readAlarm_cmd_def bind_eq_Some_conv dest!: simple_cmd_frame)
  next
    case 3
    obtain r2 msg2 m2 where s2: "simple_cmd E (m_arrays m1 WAlarmEnableCmd) s n m1 = Some (r2, msg2, m2)"
      using assms ra 3 by (auto simp: readAlarm_cmd_def bind_eq_Some_conv)
    obtain l m3 where l: "env_time E m2 = (l, m3)" by fastforce
    obtain mo d h mi where v: "vals = (mo, d, h, mi)" by (cases vals)
    have "m' = m3" using assms ra 3 s2 l v by (simp add: readAlarm_cmd_def Let_def split: if_splits)
    with m1 simple_cmd_frame [OF s2] env_time_frame [OF l] show ?thesis by simp
  qed
qed

lemma alarm_request_arrays:
  "alarm_request E t s m = Some (q, m') \<Longrightarrow> m_arrays m' = m_arrays m"
  by (auto simp: alarm_request_def bind_eq_Some_conv Let_def dest!: readalarm_arrays
      split: if_splits option.splits prod.splits)

lemma writeAlarm_ok:
  assumes "arrays_ok (m_arrays m)" "writeAlarm_cmd E c s n m = Some (r, msg, m')"
  shows "arrays_ok (m_arrays m')"
proof -
  obtain t m0 where t: "env_time E m = (t, m0)" by fastforce
  obtain q m1 where q: "alarm_request E (e_localtime E t) s m0 = Some (q, m1)"
    using assms(2) t by (auto simp: writeAlarm_cmd_def bind_eq_Some_conv Let_def)
  have m1: "arrays_ok (m_arrays m1)"
    using assms(1) env_time_frame [OF t] alarm_request_arrays [OF q] by simp
  have fin: "arrays_ok (m_arrays m')"
    if w: "writealarm E mo d h mi m1 \<bind> (\<lambda>(r, m). if r \<noteq> 0 then Some (1, c_snprintf n writeAlarm_err, m)
             else readAlarm_cmd E [] s n m) = Some (r, msg, m')"
      and p: "-1 \<le> mo" "0 \<le> d" "0 \<le> h" "0 \<le> mi" for mo d h mi
  proof -
    obtain r2 m2 where w2: "writealarm E mo d h mi m1 = Some (r2, m2)" using w by (auto simp: bind_eq_Some_conv)
    have "m_arrays m' = m_arrays m2" using w w2 by (auto dest: readAlarm_arrays split: if_splits)
    with writealarm_ok [OF m1 p w2] show ?thesis by simp
  qed
  show ?thesis
  proof (cases q)
    case Alarm_error
    then show ?thesis using assms(2) t q m1 by (simp add: writeAlarm_cmd_def Let_def)
  next
    case Alarm_disable
    show ?thesis by (rule fin [of "-1" 0 0 0]) (use assms(2) t q Alarm_disable in \<open>simp_all add: writeAlarm_cmd_def Let_def\<close>)
  next
    case (Alarm_at mo d h mi)
    define u where "u = e_mktime E \<lparr>tm_sec = 0, tm_min = mi, tm_hour = h, tm_mday = d,
                tm_mon = mo - 1, tm_year = tm_year (e_localtime E t), tm_wday = 0\<rparr>"
    show ?thesis
    proof (cases "u = -1")
      case True
      then show ?thesis using assms(2) t q m1 Alarm_at by (simp add: writeAlarm_cmd_def Let_def u_def)
    next
      case False
      show ?thesis using gmtime_nonneg [of u]
        by (intro fin [of "tm_mon (gmtime u)" "tm_mday (gmtime u)" "tm_hour (gmtime u)" "tm_min (gmtime u)"])
          (use assms(2) t q Alarm_at False in \<open>simp_all add: writeAlarm_cmd_def Let_def u_def\<close>)
    qed
  qed
qed

text \<open>The delay \<^verbatim>\<open>deviceshutdown_cmd\<close> takes from its options.\<close>

definition shutdown_delay :: "string \<Rightarrow> int" where
  "shutdown_delay s = (case c_strtol10 s of (v, r) \<Rightarrow> if r = s then 5 else v)"

lemma deviceshutdown_eq:
  "deviceshutdown_cmd E c s n m =
     simple_cmd E (m_arrays (patch DeviceShutdownCmd (shutdown_delay s) m) DeviceShutdownCmd) s n
       (patch DeviceShutdownCmd (shutdown_delay s) m)"
  by (simp add: deviceshutdown_cmd_def shutdown_delay_def Let_def split: prod.split)

lemma setpowerled_frame [frame]:
  assumes "setpowerled_cmd E c s n m = Some (r, msg, m')"
  shows "m_arrays m' = m_arrays m \<and> fanSpeed m' = fanSpeed m"
proof -
  obtain r1 msg1 m1 where s: "simple_cmd E c s n m = Some (r1, msg1, m1)"
    using assms by (auto simp: setpowerled_cmd_def bind_eq_Some_conv)
  have "m_arrays m' = m_arrays m1 \<and> fanSpeed m' = fanSpeed m1"
    using assms s by (cases "r1 = 0"; cases "c ! 3 = 0"; cases "c ! 3 = 1"; cases "c ! 3 = 2")
      (auto simp: setpowerled_cmd_def Let_def)
  then show ?thesis using simple_cmd_frame [OF s] by simp
qed

lemma run_func_arrays:
  assumes "arrays_ok (m_arrays m)" "run_func E f c s n m = Some (r, msg, m')"
    and "f = F_deviceshutdown \<Longrightarrow> 0 \<le> shutdown_delay s"
  shows "arrays_ok (m_arrays m')"
proof (cases f)
  case F_writeAlarm
  with assms writeAlarm_ok show ?thesis by simp
next
  case F_readAlarm
  with assms readAlarm_arrays show ?thesis by fastforce
next
  case F_deviceshutdown
  with assms have "arrays_ok (m_arrays (patch DeviceShutdownCmd (shutdown_delay s) m))"
    by (intro patch_ok) auto
  with F_deviceshutdown assms(2) show ?thesis by (auto simp: deviceshutdown_eq dest!: simple_cmd_frame)
next
  case F_setfan
  with assms show ?thesis
    by (auto simp: setfan_cmd_def bind_eq_Some_conv Let_def dest!: simple_cmd_frame split: if_splits)
next
  case F_setpowerled
  with assms show ?thesis
    using setpowerled_frame [of E c s n m r msg m'] by simp
next
  case F_systohc
  with assms show ?thesis
    by (auto simp: systohc_cmd_def bind_eq_Some_conv Let_def dest!: mcu_send_frame env_time_frame
        split: if_splits prod.splits)
next
  case F_hctosys
  with assms show ?thesis
    by (auto simp: hctosys_cmd_def bind_eq_Some_conv Let_def dest!: mcu_send_frame env_time_frame
        split: if_splits prod.splits)
next
  case F_gettemperature
  with assms show ?thesis
    by (auto simp: gettemperature_cmd_def bind_eq_Some_conv Let_def dest!: mcu_send_frame split: if_splits)
qed (use assms in \<open>auto simp: simple_cmd2_def readrtc_cmd_def help_cmd_def quit_cmd_def shutdowndaemon_cmd_def
       bind_eq_Some_conv Let_def dest!: simple_cmd_frame mcu_send_frame split: if_splits\<close>)

text \<open>Claim C16. Well-formed packets. Whatever line a client sends, every packet array of the daemon keeps
  its header and its length and ends at its stop byte, with no stop byte inside; the one exception is a
  shutdown request with a negative delay.\<close>

theorem HandleCommand_packets:
  assumes "arrays_ok (m_arrays m)" "HandleCommand E line buf n m = Some (r, msg, m')"
    and "\<And>a. find_cmd (fst (split_cmd line buf)) cmds = Some (a, F_deviceshutdown) \<Longrightarrow>
           0 \<le> shutdown_delay (snd (split_cmd line buf))"
  shows "arrays_ok (m_arrays m')"
proof -
  obtain c s where cs: "split_cmd line buf = (c, s)" by fastforce
  show ?thesis
  proof (cases "find_cmd c cmds")
    case None
    with assms cs show ?thesis by (auto simp: HandleCommand_def Let_def split: if_splits)
  next
    case (Some e)
    then obtain a f where e: "find_cmd c cmds = Some (a, f)" by (cases e) auto
    have "run_func E f (case a of None \<Rightarrow> [] | Some n \<Rightarrow> m_arrays m n) s n m = Some (r, msg, m')"
      using assms(2) cs e by (auto simp: HandleCommand_def split: if_splits)
    then show ?thesis
      using run_func_arrays [OF assms(1)] assms(3) cs e by fastforce
  qed
qed

lemma shutdown_delay_minus_five: "shutdown_delay ''-5'' = -5"
  by code_simp

text \<open>Shutdown delay. For a delay of 0 to 99 seconds the packet sent is the seven byte shutdown
  packet with the delay in packed decimal. For the option string ``-5'' the delay byte becomes the stop
  byte: whatever the port does, \<^verbatim>\<open>send_pkt\<close> sends only the first six bytes of the packet.\<close>

theorem deviceshutdown_packet:
  assumes "m_arrays m DeviceShutdownCmd = cmd_init DeviceShutdownCmd"
  shows "(0 \<le> shutdown_delay s \<and> shutdown_delay s < 100 \<longrightarrow>
       deviceshutdown_cmd E c s n m = simple_cmd E [0xfa, 0x03, 0x03, 0x01, 0x01,
         word_of_int (16 * (shutdown_delay s div 10) + shutdown_delay s mod 10), 0xfb] s n
         (patch DeviceShutdownCmd (shutdown_delay s) m)) \<and>
    deviceshutdown_cmd E c ''-5'' n m = simple_cmd E [0xfa, 0x03, 0x03, 0x01, 0x01, 0xfb, 0xfb] ''-5'' n
         (patch DeviceShutdownCmd (-5) m) \<and>
    send_pkt P [0xfa, 0x03, 0x03, 0x01, 0x01, 0xfb, 0xfb] w = send_pkt P [0xfa, 0x03, 0x03, 0x01, 0x01, 0xfb] w"
proof (intro conjI impI)
  assume "0 \<le> shutdown_delay s \<and> shutdown_delay s < 100"
  then show "deviceshutdown_cmd E c s n m = simple_cmd E [0xfa, 0x03, 0x03, 0x01, 0x01,
         word_of_int (16 * (shutdown_delay s div 10) + shutdown_delay s mod 10), 0xfb] s n
         (patch DeviceShutdownCmd (shutdown_delay s) m)"
    by (simp add: deviceshutdown_eq patch_def assms int2bcd_nonneg)
next
  have "word_of_int (int2bcd (- 5)) = (0xfb :: byte)" by code_simp
  then show "deviceshutdown_cmd E c ''-5'' n m = simple_cmd E [0xfa, 0x03, 0x03, 0x01, 0x01, 0xfb, 0xfb] ''-5'' n
         (patch DeviceShutdownCmd (-5) m)"
    by (simp add: deviceshutdown_eq shutdown_delay_minus_five patch_def assms)
qed (simp add: send_pkt_def CMD_STOP_MAGIC_def split: prod.split)

lemma deviceshutdown_packet_witness:
  "deviceshutdown_cmd line_env [] ''-5'' 512 (line_mcu []) =
     simple_cmd line_env [0xfa, 0x03, 0x03, 0x01, 0x01, 0xfb, 0xfb] ''-5'' 512 (patch DeviceShutdownCmd (-5) (line_mcu []))"
proof -
  have "m_arrays (line_mcu []) DeviceShutdownCmd = cmd_init DeviceShutdownCmd" by (simp add: line_mcu_def mcu_init_def)
  from deviceshutdown_packet [OF this, of "[]" line_env "[]" 512 line_port "([], [])"] show ?thesis by simp
qed

lemma HandleCommand_packets_witness: "arrays_ok (m_arrays (line_mcu []))"
proof -
  have h: "HandleCommand line_env ''quit'' [] 512 (line_mcu []) = Some (-1, ''Bye'', line_mcu [])"
    by (simp add: HandleCommand_def split_cmd_def cmds_def strcaseeq_def c_tolower_def quit_cmd_def c_strncpy_def)
  have q: "find_cmd (fst (split_cmd ''quit'' [])) cmds = Some (None, F_quit)"
    by (simp add: split_cmd_def cmds_def strcaseeq_def c_tolower_def)
  show ?thesis
    by (rule HandleCommand_packets [OF _ h]) (simp_all add: line_mcu_def mcu_init_def arrays_ok_init q)
qed

end
