(* ===== verification/McuDaemon.thy ===== *)
theory McuDaemon
  imports McuCommandProps
begin

text \<open>
  The rest of \<^verbatim>\<open>dns320l-daemon.c\<close>: the table of client connections and \<^verbatim>\<open>poll_wait\<close>, the client mode, the
  mirroring between the files under \<^verbatim>\<open>/tmp/sys\<close> and the MCU (\<^verbatim>\<open>readset_powerled\<close>, \<^verbatim>\<open>readset_temp\<close>) and the
  main loop. The system calls on sockets are the parameter record \<open>os\<close>. \<open>None\<close> is undefined behaviour,
  \<open>Exit\<close> a call of \<^verbatim>\<open>exit\<close>.
\<close>

section \<open>State\<close>

record revents =
  re_in :: bool
  re_hup :: bool
  re_err :: bool
  re_nval :: bool

definition no_revents :: revents where
  "no_revents = \<lparr>re_in = False, re_hup = False, re_err = False, re_nval = False\<rparr>"

record pollfd =
  pfd :: int
  events :: bool      \<comment> \<open>\<^verbatim>\<open>POLLIN\<close> is asked for\<close>
  revents :: revents

definition MAXFDS :: nat where
  "MAXFDS = 10"

record 's daemon =
  d_mcu :: "'s mcu"
  fds :: "pollfd list"
  nfds :: int
  old_temp :: string
  old_pwm :: int
  sleepCount :: "16 word"

text \<open>\<^verbatim>\<open>poll\<close> answers with the number of events, whether an error is \<^verbatim>\<open>EINTR\<close>, and the events per slot;
  \<^verbatim>\<open>accept\<close> with a descriptor or -1; \<^verbatim>\<open>recv\<close> with the data, at most as much as asked, empty at the end of
  the stream, \<open>None\<close> for an error; \<^verbatim>\<open>send\<close> with whether it succeeded.\<close>

record 's os =
  o_env :: "'s env"
  o_poll :: "int \<Rightarrow> pollfd list \<Rightarrow> 's \<Rightarrow> int \<times> bool \<times> revents list \<times> 's"
  o_accept :: "'s \<Rightarrow> int \<times> 's"
  o_recv :: "int \<Rightarrow> nat \<Rightarrow> 's \<Rightarrow> string option \<times> 's"
  o_send :: "int \<Rightarrow> string \<Rightarrow> 's \<Rightarrow> bool \<times> 's"
  o_cleanup :: "int \<Rightarrow> 's \<Rightarrow> 's"
  o_connect :: "'s \<Rightarrow> bool \<times> 's"
  o_open_serial :: "'s \<Rightarrow> bool \<times> 's"
  o_client_io :: "string \<Rightarrow> 's \<Rightarrow> bool \<times> string option \<times> 's"

datatype 'd outcome = Go 'd | Exit int

abbreviation on_world :: "('s \<Rightarrow> 's) \<Rightarrow> 's daemon \<Rightarrow> 's daemon" where
  "on_world f d \<equiv> d\<lparr>d_mcu := (d_mcu d)\<lparr>m_world := f (m_world (d_mcu d))\<rparr>\<rparr>"

section \<open>Connections\<close>

definition poll_setup :: "int \<Rightarrow> 's daemon \<Rightarrow> 's daemon" where
  "poll_setup ls d = d\<lparr>fds := (replicate MAXFDS \<lparr>pfd = -1, events = False, revents = no_revents\<rparr>)
       [0 := \<lparr>pfd = ls, events = True, revents = no_revents\<rparr>], nfds := 1\<rparr>"

text \<open>The first free slot from \<open>j\<close> on, \<^verbatim>\<open>MAXFDS\<close> if there is none.\<close>

fun free_slot :: "pollfd list \<Rightarrow> nat list \<Rightarrow> nat" where
  "free_slot t [] = MAXFDS"
| "free_slot t (j # js) = (if pfd (t ! j) = -1 then j else free_slot t js)"

definition poll_accept :: "'s os \<Rightarrow> 's daemon \<Rightarrow> 's daemon outcome option" where
  "poll_accept K d = (if nfds d = int MAXFDS then Some (Go d)
     else (let j = free_slot (fds d) [1..<MAXFDS] in
       if j \<ge> MAXFDS then None
       else (case o_accept K (m_world (d_mcu d)) of (c, w) \<Rightarrow>
         let d = on_world (\<lambda>_. w) d in
         if c = -1 then Some (Go (d\<lparr>fds := (fds d)[j := (fds d ! j)\<lparr>pfd := c\<rparr>]\<rparr>))
         else Some (Go (d\<lparr>fds := (fds d)[j := \<lparr>pfd = c, events = True, revents = no_revents\<rparr>],
                          nfds := nfds d + 1\<rparr>)))))"

definition close_slot :: "nat \<Rightarrow> 's daemon \<Rightarrow> 's daemon" where
  "close_slot i d = d\<lparr>fds := (fds d)[i := (fds d ! i)\<lparr>pfd := -1\<rparr>], nfds := nfds d - 1\<rparr>"

definition poll_recv :: "'s os \<Rightarrow> nat \<Rightarrow> 's daemon \<Rightarrow> 's daemon outcome option" where
  "poll_recv K i d = (let c = pfd (fds d ! i) in
     case o_recv K c 512 (m_world (d_mcu d)) of (data, w) \<Rightarrow>
       let d = on_world (\<lambda>_. w) d in
       (case data of
          None \<Rightarrow> Some (Go (close_slot i (on_world (o_cleanup K c) d)))
        | Some data \<Rightarrow>
            if data = [] then Some (Go (close_slot i (on_world (o_cleanup K c) d)))
            else do {
              (msgIdx, response, m) \<leftarrow> HandleCommand (o_env K) (c_string (butlast data)) [] 512 (d_mcu d);
              let (sent, w) = o_send K c response (m_world m);
                  d = d\<lparr>d_mcu := m\<lparr>m_world := w\<rparr>\<rparr>;
                  d = (if \<not> sent \<or> msgIdx = -1 then on_world (o_cleanup K c) d else d) in
              Some (if msgIdx = -2 then Exit 0 else Go d) }))"

text \<open>One slot with an event.\<close>

definition poll_slot :: "'s os \<Rightarrow> nat \<Rightarrow> 's daemon \<Rightarrow> 's daemon outcome option" where
  "poll_slot K i d = (let ev = revents (fds d ! i) in
     if re_in ev \<and> i = 0 then poll_accept K d
     else if re_in ev then poll_recv K i d
     else if re_hup ev \<or> re_err ev \<or> re_nval ev then
       Some (Go (close_slot i (if re_hup ev \<or> re_err ev then on_world (o_cleanup K (pfd (fds d ! i))) d else d)))
     else Some (Go d))"

fun poll_slots :: "'s os \<Rightarrow> nat list \<Rightarrow> int \<Rightarrow> 's daemon \<Rightarrow> 's daemon outcome option" where
  "poll_slots K [] nev d = Some (Go d)"
| "poll_slots K (i # is) nev d =
     (if nev = 0 then Some (Go d)
      else if pfd (fds d ! i) = -1 \<or> revents (fds d ! i) = no_revents then poll_slots K is nev d
      else (case poll_slot K i d of None \<Rightarrow> None
        | Some (Exit c) \<Rightarrow> Some (Exit c)
        | Some (Go d) \<Rightarrow> poll_slots K is (nev - 1) d))"

definition poll_wait :: "'s os \<Rightarrow> int \<Rightarrow> 's daemon \<Rightarrow> 's daemon outcome option" where
  "poll_wait K ms d = (case o_poll K ms (fds d) (m_world (d_mcu d)) of (nev, eintr, evs, w) \<Rightarrow>
     let d = (on_world (\<lambda>_. w) d)\<lparr>fds := map2 (\<lambda>p ev. p\<lparr>revents := ev\<rparr>) (fds d) evs\<rparr> in
     if nev = 0 then Some (Go d)
     else if nev = -1 then (if eintr then Some (Go d) else Some (Exit 1))
     else poll_slots K [0..<MAXFDS] nev d)"

section \<open>Client mode\<close>

definition starts :: "string \<Rightarrow> string \<Rightarrow> bool" where
  "starts p s \<longleftrightarrow> take (length p) s = p"

text \<open>The exit status and what is printed.\<close>

definition client_cmd :: "'s os \<Rightarrow> string \<Rightarrow> string option \<Rightarrow> 's mcu \<Rightarrow> (int \<times> string \<times> 's mcu) option" where
  "client_cmd K cmd opt m = (case o_connect K (m_world m) of (connected, w) \<Rightarrow>
     let m = m\<lparr>m_world := w\<rparr> in
     if \<not> connected then
       (case o_open_serial K (m_world m) of (ok, w) \<Rightarrow>
          let m = m\<lparr>m_world := w\<rparr> in
          if \<not> ok then Some (1, [], m)
          else do {
            (st, msg, m) \<leftarrow> HandleCommand (o_env K) cmd (case opt of None \<Rightarrow> [] | Some s \<Rightarrow> s) 512 m;
            Some (if starts ''ERR'' msg then 1 else st, msg, m) })
     else (let msg = cmd @ (case opt of None \<Rightarrow> [] | Some s \<Rightarrow> '' '' @ s) @ [CHR 0x0A] in
       if length msg + 1 > 512 then None
       else (case o_client_io K msg (m_world m) of (written, answer, w) \<Rightarrow>
          let m = m\<lparr>m_world := w\<rparr> in
          if \<not> written then Some (1, [], m)
          else (case answer of
              None \<Rightarrow> Some (if starts ''OK'' msg then 0 else if starts ''ERR'' msg then 1 else 0, msg, m)
            | Some a \<Rightarrow> if length a \<ge> 512 then None
                else (let msg = c_string a in
                  Some (if starts ''OK'' msg then 0 else if starts ''ERR'' msg then 1 else 0, msg, m))))))"

section \<open>Mirroring\<close>

text \<open>\<^verbatim>\<open>readset_powerled\<close>; its second half, on the brightness, is a definition of its own.\<close>

definition led_brightness_step :: "'s env \<Rightarrow> string \<Rightarrow> 's mcu \<Rightarrow> 's mcu option" where
  "led_brightness_step E led_trigger m = (if led_trigger \<noteq> ''none'' then Some m
       else (case read_int_from_file (m_fs m) sys_pled_brightness (e_uninit E (m_world m)) of
           None \<Rightarrow> Some m
         | Some led_brightness \<Rightarrow>
             if curr_led_brightness m = led_brightness then Some m
             else (let m = m\<lparr>curr_led_brightness := led_brightness\<rparr> in
               if led_brightness = 0 then do {
                 (_, _, m) \<leftarrow> setpowerled_cmd E (m_arrays m PwrLedOffCmd) [] 16 m; Some m }
               else if led_brightness = 1 then do {
                 (_, _, m) \<leftarrow> setpowerled_cmd E (m_arrays m PwrLedOnCmd) [] 16 m; Some m }
               else Some m)))"

definition readset_powerled :: "'s env \<Rightarrow> 's mcu \<Rightarrow> 's mcu option" where
  "readset_powerled E m = (case read_str_from_file (m_fs m) sys_pled_trigger 32 of
     None \<Rightarrow> Some m
   | Some led_trigger \<Rightarrow> do {
       m \<leftarrow> (if curr_led_trigger m \<noteq> led_trigger then
               (let m = m\<lparr>curr_led_trigger := led_trigger\<rparr> in
                if led_trigger = ''heartbeat'' \<or> led_trigger = ''timer'' then do {
                  (r, _, m) \<leftarrow> setpowerled_cmd E (m_arrays m PwrLedBlinkCmd) [] 16 m;
                  Some (if r \<noteq> 0 then m else m\<lparr>curr_led_brightness := -1\<rparr>) }
                else Some m)
             else Some m);
       led_brightness_step E led_trigger m })"

text \<open>The fan packet a pwm value asks for, unless the fan already runs at that speed.\<close>

definition set_fan_for :: "'s env \<Rightarrow> int \<Rightarrow> 's mcu \<Rightarrow> 's mcu option" where
  "set_fan_for E pwm m = (let (speed, c) = (if pwm = 0 then (0, FanStopCmd) else if pwm < 128 then (1, FanHalfCmd)
       else (2, FanFullCmd)) in
     if fanSpeed m \<noteq> speed then do { (_, _, m) \<leftarrow> setfan_cmd E (m_arrays m c) [] 16 m; Some m } else Some m)"

definition readset_temp :: "'s env \<Rightarrow> 's daemon \<Rightarrow> 's daemon option" where
  "readset_temp E d = do {
     (r, msg, m) \<leftarrow> gettemperature_cmd E (m_arrays (d_mcu d) ThermalStatusGetCmd) [] 16 (d_mcu d);
     let d = d\<lparr>d_mcu := m, old_temp := (if r \<noteq> 0 \<or> old_temp d = msg then old_temp d else msg)\<rparr>;
     case read_int_from_file (m_fs m) sys_pwm (e_uninit E (m_world m)) of
       None \<Rightarrow> Some d
     | Some pwm \<Rightarrow> if pwm = old_pwm d then Some d
         else do { m \<leftarrow> set_fan_for E pwm m; Some (d\<lparr>d_mcu := m, old_pwm := pwm\<rparr>) }
   }"

section \<open>Main loop\<close>

definition pollTimeMs :: int where
  "pollTimeMs = 10"

definition due :: "16 word \<Rightarrow> int \<Rightarrow> bool" where
  "due c period \<longleftrightarrow> (uint c * pollTimeMs) mod period = 0"

definition main_step :: "'s os \<Rightarrow> 's daemon \<Rightarrow> 's daemon outcome option" where
  "main_step K d = do {
     d \<leftarrow> (if due (sleepCount d) 500 then do { m \<leftarrow> readset_powerled (o_env K) (d_mcu d); Some (d\<lparr>d_mcu := m\<rparr>) } else Some d);
     d \<leftarrow> (if due (sleepCount d) 15000 then readset_temp (o_env K) d else Some d);
     poll_wait K pollTimeMs (d\<lparr>sleepCount := sleepCount d + 1\<rparr>)
   }"

text \<open>The endless loop, cut after \<open>k\<close> rounds.\<close>

fun main_rounds :: "'s os \<Rightarrow> nat \<Rightarrow> 's daemon \<Rightarrow> 's daemon outcome option" where
  "main_rounds K 0 d = Some (Go d)"
| "main_rounds K (Suc k) d = (case main_step K d of None \<Rightarrow> None
     | Some (Exit c) \<Rightarrow> Some (Exit c) | Some (Go d) \<Rightarrow> main_rounds K k d)"

definition daemon_init :: "'s \<Rightarrow> sysfs \<Rightarrow> 's daemon" where
  "daemon_init w fs = \<lparr>d_mcu = mcu_init w fs, fds = [], nfds = 0, old_temp = [], old_pwm = -1, sleepCount = 0\<rparr>"

text \<open>Server start: the serial port, the connection table, and the ready packet, whose failure is only
  logged.\<close>

definition daemon_start :: "'s os \<Rightarrow> int \<Rightarrow> 's daemon \<Rightarrow> 's daemon outcome option" where
  "daemon_start K ls d = (case o_open_serial K (m_world (d_mcu d)) of (ok, w) \<Rightarrow>
     let d = on_world (\<lambda>_. w) d in
     if \<not> ok then Some (Exit 1)
     else (let d = poll_setup ls d in do {
       (_, _, m) \<leftarrow> mcu_send (o_env K) (m_arrays (d_mcu d) DeviceReadyCmd) False (d_mcu d);
       Some (Go (d\<lparr>d_mcu := m\<rparr>)) }))"

text \<open>The options of \<^verbatim>\<open>main\<close>. Unknown options print the usage and exit.\<close>

definition config_init :: DaemonConfig where
  "config_init = \<lparr>goDaemon = True, xcmd = False, debug = False, serverName = ''/var/run/dns320l.socket'',
     portName = ''/dev/ttyS1'', nRetries = 2\<rparr>"

datatype option_arg = Opt_f | Opt_d | Opt_x string | Opt_other

fun parse_options :: "option_arg list \<Rightarrow> DaemonConfig \<times> string \<Rightarrow> (DaemonConfig \<times> string) option" where
  "parse_options [] c = Some c"
| "parse_options (Opt_f # os) (c, x) = parse_options os (c\<lparr>goDaemon := False\<rparr>, x)"
| "parse_options (Opt_d # os) (c, x) = parse_options os (c\<lparr>debug := True\<rparr>, x)"
| "parse_options (Opt_x s # os) (c, x) = parse_options os (c\<lparr>xcmd := True, goDaemon := False\<rparr>, s)"
| "parse_options (Opt_other # os) c = None"

end
