(* ===== verification/McuDaemonProps.thy ===== *)
theory McuDaemonProps
  imports McuDaemon
begin

text \<open>
  Properties of the daemon's main loop: the connection table is never overrun and its counter is
  right, the mirrored files and the MCU agree after each round, and the schedule of the two
  mirroring tasks survives the wrap-around of its 16-bit counter.
\<close>

section \<open>The connection table\<close>






lemma on_world_table [frame]:
  "fds (on_world f d) = fds d \<and> nfds (on_world f d) = nfds d"
  by simp













section \<open>The schedule\<close>

lemma due_uint: "0 < p \<Longrightarrow> due c (10 * p) \<longleftrightarrow> uint c mod p = 0"
  by (simp add: due_def pollTimeMs_def mult.commute)

lemma due_soon:
  fixes c :: "16 word"
  assumes p: "0 < p"
  shows "\<exists>k < p. due (c + of_nat k) (10 * int p)"
proof -
  define u where "u = unat c"
  have u: "u < 65536" using unsigned_less [of c, where ?'a = nat] by (simp add: u_def)
  have uk: "unat (c + of_nat n) = (u + n) mod 65536" for n
    by (simp add: u_def unat_word_ariths(1) unat_of_nat mod_add_right_eq)
  define k where "k = (if u mod p = 0 then 0 else p - u mod p)"
  have k: "k < p" "(u + k) mod p = 0"
  proof -
    show "k < p" using p by (auto simp: k_def)
    show "(u + k) mod p = 0"
    proof (cases "u mod p = 0")
      case False
      have "u mod p < p" "u = p * (u div p) + u mod p" using p by simp_all
      then have "u + (p - u mod p) = p * (u div p) + p" by linarith
      then show ?thesis using False by (simp add: k_def)
    qed (simp add: k_def)
  qed
  show ?thesis
  proof (cases "u + k < 65536")
    case True
    then have "unat (c + of_nat k) = u + k" by (simp add: uk)
    then have "uint (c + of_nat k) = int (u + k)" by (simp only: uint_nat)
    then have "uint (c + of_nat k) mod int p = int ((u + k) mod p)" by (simp only: of_nat_mod)
    then have "uint (c + of_nat k) mod int p = 0" by (simp only: k(2) of_nat_0)
    with k(1) p show ?thesis by (intro exI [of _ k]) (simp add: due_uint)
  next
    case False
    define j where "j = 65536 - u"
    have "unat (c + of_nat j) = 0" using u uk [of j] by (simp add: j_def)
    then have "uint (c + of_nat j) mod int p = 0" by (simp add: unat_eq_zero)
    moreover have "j < p" using False k(1) u by (simp add: j_def)
    ultimately show ?thesis using p by (intro exI [of _ j]) (simp add: due_uint)
  qed
qed

text \<open>Schedule. Whatever the value of the 16-bit round counter, also across its wrap-around, the
  power led is looked at within any 50 consecutive rounds of 10 ms, and the temperature and the fan within
  any 1500.\<close>

theorem mirror_schedule:
  "(\<exists>k < 50. due (c + of_nat k) 500) \<and> (\<exists>k < 1500. due (c + of_nat k) 15000)"
  using due_soon [of 50 c] due_soon [of 1500 c] by simp

section \<open>The power led\<close>

text \<open>What a successful led command leaves in the daemon and in the files, for the three led packets.\<close>

lemma setpowerled_state:
  assumes "setpowerled_cmd E c s n m = Some (r, msg, m')" "c ! 3 = k"
  shows "r = 0 \<and> (\<exists>m1. same_state m m1 \<and> m' =
      (let b = (if k = 0 then 0 else if k = 1 then 1 else curr_led_brightness m);
           t = (if k = 0 \<or> k = 1 then ''none'' else if k = 2 then ''timer'' else curr_led_trigger m) in
       m1\<lparr>curr_led_trigger := t, curr_led_brightness := b,
          m_fs := fst (write_int_to_file (fst (write_str_to_file (m_fs m) sys_pled_trigger t)) sys_pled_brightness b)\<rparr>))
    \<or> r = 1 \<and> same_state m m'"
proof -
  obtain r1 msg1 m1 where s: "simple_cmd E c s n m = Some (r1, msg1, m1)"
    using assms(1) by (auto simp: setpowerled_cmd_def bind_eq_Some_conv)
  note fr = simple_cmd_frame [OF s] and same = simple_cmd_same [OF s]
  show ?thesis
  proof (cases "r1 = 0")
    case True
    have "r = 0" using assms(1) s True by (auto simp: setpowerled_cmd_def Let_def)
    moreover have "m' = (let b = (if k = 0 then 0 else if k = 1 then 1 else curr_led_brightness m);
           t = (if k = 0 \<or> k = 1 then ''none'' else if k = 2 then ''timer'' else curr_led_trigger m) in
       m1\<lparr>curr_led_trigger := t, curr_led_brightness := b,
          m_fs := fst (write_int_to_file (fst (write_str_to_file (m_fs m) sys_pled_trigger t)) sys_pled_brightness b)\<rparr>)"
      using assms s True fr by (cases "k = 0"; cases "k = 1"; cases "k = 2")
        (auto simp: setpowerled_cmd_def Let_def intro!: mcu.equality)
    ultimately show ?thesis using same by blast
  next
    case False
    with fr have "r1 = 1" by auto
    with assms(1) s same show ?thesis by (simp add: setpowerled_cmd_def)
  qed
qed

text \<open>The daemon's idea of the led is what the files say.\<close>

definition led_synced :: "'s env \<Rightarrow> 's mcu \<Rightarrow> bool" where
  "led_synced E m \<longleftrightarrow> (case read_str_from_file (m_fs m) sys_pled_trigger 32 of None \<Rightarrow> True
     | Some t \<Rightarrow> curr_led_trigger m = t \<and> (t = ''none'' \<longrightarrow>
         (case read_int_from_file (m_fs m) sys_pled_brightness (e_uninit E (m_world m)) of None \<Rightarrow> True
          | Some b \<Rightarrow> curr_led_brightness m = b)))"

lemma readset_synced: "led_synced E m \<Longrightarrow> readset_powerled E m = Some m"
  by (auto simp: led_synced_def readset_powerled_def led_brightness_step_def split: option.splits)

lemma sys_files_distinct [simp]:
  "sys_pled_trigger \<noteq> sys_pled_brightness" "sys_pled_brightness \<noteq> sys_pled_trigger"
  "sys_pwm \<noteq> sys_temp_input" "sys_pwm \<noteq> sys_fan_input"
  by (simp_all add: sys_pled_trigger_def sys_pled_brightness_def sys_pwm_def sys_temp_input_def sys_fan_input_def)

definition led_write :: "sysfs \<Rightarrow> string \<Rightarrow> int \<Rightarrow> sysfs" where
  "led_write fs t b = fst (write_int_to_file (fst (write_str_to_file fs sys_pled_trigger t)) sys_pled_brightness b)"

lemma read_led_write:
  assumes "\<not> sf_ro fs sys_pled_trigger" "\<not> sf_ro fs sys_pled_brightness" "t = ''none'' \<or> t = ''timer''"
  shows "read_str_from_file (led_write fs t b) sys_pled_trigger 32 = Some t"
    and "b = 0 \<or> b = 1 \<Longrightarrow> read_int_from_file (led_write fs t b) sys_pled_brightness v = Some b"
proof -
  have "length t < 32" "CHR 0x00 \<notin> set t" using assms(3) by auto
  with assms(1) show "read_str_from_file (led_write fs t b) sys_pled_trigger 32 = Some t"
    by (simp add: led_write_def write_int_to_file_def read_str_other read_write_str)
  show "b = 0 \<or> b = 1 \<Longrightarrow> read_int_from_file (led_write fs t b) sys_pled_brightness v = Some b"
    using assms(2) by (auto simp: led_write_def intro!: read_write_int)
qed

text \<open>A led command ends in step with the files when it succeeds, and changes nothing when it fails.\<close>

lemma led_command:
  assumes "setpowerled_cmd E c s n m = Some (r, msg, m')" "c ! 3 = k" "k = 0 \<or> k = 1 \<or> k = 2"
    and "\<not> sf_ro (m_fs m) sys_pled_trigger" "\<not> sf_ro (m_fs m) sys_pled_brightness"
  shows "r = 0 \<and> led_synced E m' \<and> (k = 2 \<longrightarrow> led_synced E (m'\<lparr>curr_led_brightness := b\<rparr>)
             \<and> read_str_from_file (m_fs m') sys_pled_trigger 32 = Some ''timer'') \<or> r = 1 \<and> same_state m m'"
  using setpowerled_state [OF assms(1,2)]
proof (elim disjE)
  assume "r = 1 \<and> same_state m m'" then show ?thesis by simp
next
  assume a: "r = 0 \<and> (\<exists>m1. same_state m m1 \<and> m' =
      (let b = (if k = 0 then 0 else if k = 1 then 1 else curr_led_brightness m);
           t = (if k = 0 \<or> k = 1 then ''none'' else if k = 2 then ''timer'' else curr_led_trigger m) in
       m1\<lparr>curr_led_trigger := t, curr_led_brightness := b,
          m_fs := fst (write_int_to_file (fst (write_str_to_file (m_fs m) sys_pled_trigger t)) sys_pled_brightness b)\<rparr>))"
  then obtain m1 where m1: "m' = (let b = (if k = 0 then 0 else if k = 1 then 1 else curr_led_brightness m);
           t = (if k = 0 \<or> k = 1 then ''none'' else ''timer'') in
       m1\<lparr>curr_led_trigger := t, curr_led_brightness := b, m_fs := led_write (m_fs m) t b\<rparr>)"
    using assms(3) by (auto simp: Let_def led_write_def)
  note rd = read_led_write [OF assms(4,5)]
  from a have "r = 0" by simp
  moreover have "led_synced E m' \<and> (k = 2 \<longrightarrow> led_synced E (m'\<lparr>curr_led_brightness := b\<rparr>)
             \<and> read_str_from_file (m_fs m') sys_pled_trigger 32 = Some ''timer'')"
  proof (cases "k = 2")
    case True
    then show ?thesis by (simp add: m1 led_synced_def rd Let_def)
  next
    case False
    then have "k = 0 \<or> k = 1" using assms(3) by simp
    then show ?thesis using False by (elim disjE) (simp_all add: m1 led_synced_def rd Let_def)
  qed
  ultimately show ?thesis by blast
qed

lemma same_state_led [frame]:
  "same_state m m' \<Longrightarrow> m_fs m' = m_fs m \<and> curr_led_trigger m' = curr_led_trigger m \<and>
   curr_led_brightness m' = curr_led_brightness m \<and> m_arrays m' = m_arrays m"
  unfolding same_state_def by (metis mcu.select_convs mcu.surjective mcu.update_convs(1))

text \<open>The led files can be written, the brightness file holds a number, and the led packets are those of the
  table.\<close>

definition led_ready :: "'s env \<Rightarrow> 's mcu \<Rightarrow> bool" where
  "led_ready E m \<longleftrightarrow> \<not> sf_ro (m_fs m) sys_pled_trigger \<and> \<not> sf_ro (m_fs m) sys_pled_brightness \<and>
     (\<forall>a b. read_int_from_file (m_fs m) sys_pled_brightness a = read_int_from_file (m_fs m) sys_pled_brightness b) \<and>
     (\<forall>c \<in> {PwrLedOffCmd, PwrLedOnCmd, PwrLedBlinkCmd}. m_arrays m c = cmd_init c)"

lemma led_brightness_other: "t \<noteq> ''none'' \<Longrightarrow> led_brightness_step E t m = Some m"
  by (simp add: led_brightness_step_def)

lemma led_brightness_synced:
  assumes t: "read_str_from_file (m_fs m) sys_pled_trigger 32 = Some t" "curr_led_trigger m = t"
    and rdy: "led_ready E m" and s: "led_brightness_step E t m = Some m'"
  shows "led_synced E m'"
proof (cases "t = ''none'' \<and> (\<exists>b. read_int_from_file (m_fs m) sys_pled_brightness (e_uninit E (m_world m)) = Some b \<and> curr_led_brightness m \<noteq> b)")
  case False
  then have "m' = m" using s by (auto simp: led_brightness_step_def split: option.splits if_splits)
  with False t show ?thesis by (auto simp: led_synced_def split: option.splits)
next
  case True
  then obtain b where b: "t = ''none''" "curr_led_brightness m \<noteq> b"
    "read_int_from_file (m_fs m) sys_pled_brightness (e_uninit E (m_world m)) = Some b" by blast
  have bu: "read_int_from_file (m_fs m) sys_pled_brightness u = Some b" for u
    using rdy b(3) unfolding led_ready_def by metis
  define n where "n = m\<lparr>curr_led_brightness := b\<rparr>"
  have n: "led_synced E n'" if "same_state n n'" for n'
    using same_state_led [OF that] t b bu by (simp add: led_synced_def n_def)
  have ro: "\<not> sf_ro (m_fs n) sys_pled_trigger" "\<not> sf_ro (m_fs n) sys_pled_brightness"
    using rdy by (simp_all add: led_ready_def n_def)
  show ?thesis
  proof (cases "b = 0 \<or> b = 1")
    case False
    then have "m' = n" using s b by (auto simp: led_brightness_step_def n_def)
    then show ?thesis using n [of n] by (simp add: same_state_def)
  next
    case True
    define c where "c = m_arrays n (if b = 0 then PwrLedOffCmd else PwrLedOnCmd)"
    have c3: "c ! 3 = (if b = 0 then 0 else 1)" using rdy by (auto simp: c_def led_ready_def n_def)
    obtain r msg where c: "setpowerled_cmd E c [] 16 n = Some (r, msg, m')"
      using s b True by (auto simp: led_brightness_step_def n_def c_def bind_eq_Some_conv Let_def)
    have "r = 0 \<and> led_synced E m' \<or> r = 1 \<and> same_state n m'"
      using led_command [OF c c3 _ ro, where b = b] by (cases "b = 0") auto
    with n show ?thesis by blast
  qed
qed

text \<open>The two cases of \<^verbatim>\<open>readset_powerled\<close>: the trigger is as recorded or not a blinking one, and a new blinking trigger.\<close>

lemma led_still_synced:
  assumes "led_ready E m" "readset_powerled E m = Some m'" and t: "read_str_from_file (m_fs m) sys_pled_trigger 32 = Some t"
    and F: "\<not> (curr_led_trigger m \<noteq> t \<and> (t = ''heartbeat'' \<or> t = ''timer''))"
  shows "led_synced E m'"
proof -
  define n where "n = m\<lparr>curr_led_trigger := t\<rparr>"
  have "led_brightness_step E t n = Some m'"
  proof (cases "curr_led_trigger m = t")
    case True
    then have "n = m" by (auto simp: n_def intro: mcu.equality)
    with True assms(2) t show ?thesis by (simp add: readset_powerled_def)
  next
    case False
    with F assms(2) t show ?thesis by (simp add: readset_powerled_def n_def Let_def split: if_splits)
  qed
  moreover have "led_ready E n" "read_str_from_file (m_fs n) sys_pled_trigger 32 = Some t" "curr_led_trigger n = t"
    using assms(1) t by (simp_all add: n_def led_ready_def)
  ultimately show ?thesis by (intro led_brightness_synced)
qed

lemma led_blink_synced:
  assumes "led_ready E m" "readset_powerled E m = Some m'" and t: "read_str_from_file (m_fs m) sys_pled_trigger 32 = Some t"
    and T: "curr_led_trigger m \<noteq> t \<and> (t = ''heartbeat'' \<or> t = ''timer'')"
  shows "led_synced E m'"
proof -
  define n where "n = m\<lparr>curr_led_trigger := t\<rparr>"
  define c where "c = m_arrays n PwrLedBlinkCmd"
  have c3: "c ! 3 = 2" using assms(1) by (simp add: c_def led_ready_def n_def)
  have ro: "\<not> sf_ro (m_fs n) sys_pled_trigger" "\<not> sf_ro (m_fs n) sys_pled_brightness"
    using assms(1) by (simp_all add: led_ready_def n_def)
  have tn: "t \<noteq> ''none''" using T by auto
  have bs: "led_brightness_step E t x = Some x" for x using led_brightness_other [OF tn] .
  obtain r msg n' where c: "setpowerled_cmd E c [] 16 n = Some (r, msg, n')"
    and m': "m' = (if r \<noteq> 0 then n' else n'\<lparr>curr_led_brightness := -1\<rparr>)"
    using assms(2) t T bs by (auto simp: readset_powerled_def n_def c_def bind_eq_Some_conv Let_def)
  have "r = 0 \<and> led_synced E (n'\<lparr>curr_led_brightness := -1\<rparr>) \<or> r = 1 \<and> same_state n n'"
    using led_command [OF c c3 _ ro, where b = "-1"] by auto
  then show ?thesis
  proof
    assume "r = 1 \<and> same_state n n'"
    then show ?thesis using m' t tn same_state_led [of n n'] by (simp add: led_synced_def n_def)
  qed (use m' in auto)
qed

text \<open>Claim C26. The led mirror settles. After \<^verbatim>\<open>readset_powerled\<close>, whether its commands succeeded or not, the
  daemon's record of the led is what the files say, so a second call sends nothing and changes nothing until
  somebody writes the files: each request reaches the MCU as one command, and a command that failed is not
  repeated.\<close>

theorem readset_powerled_settles:
  assumes "led_ready E m" "readset_powerled E m = Some m'"
  shows "led_synced E m' \<and> readset_powerled E m' = Some m'"
proof -
  have "led_synced E m'"
  proof (cases "read_str_from_file (m_fs m) sys_pled_trigger 32")
    case None
    then show ?thesis using assms(2) by (auto simp: readset_powerled_def led_synced_def)
  next
    case (Some t)
    then show ?thesis using led_still_synced [OF assms Some] led_blink_synced [OF assms Some] by blast
  qed
  then show ?thesis by (simp add: readset_synced)
qed

lemma readset_powerled_settles_witness:
  "let m = (line_mcu [])\<lparr>m_fs := led_write (m_fs (line_mcu [])) ''none'' 0, curr_led_trigger := ''none'', curr_led_brightness := 0\<rparr> in
   led_synced line_env m \<and> readset_powerled line_env m = Some m"
proof -
  define m where "m = (line_mcu [])\<lparr>m_fs := led_write (m_fs (line_mcu [])) ''none'' 0, curr_led_trigger := ''none'',
      curr_led_brightness := 0\<rparr>"
  have ro: "\<not> sf_ro (m_fs (line_mcu [])) f" for f by (simp add: line_mcu_def mcu_init_def)
  have rd: "read_str_from_file (m_fs m) sys_pled_trigger 32 = Some ''none''"
    "read_int_from_file (m_fs m) sys_pled_brightness a = Some 0" for a
    using read_led_write [OF ro ro, of "''none''"] by (simp_all add: m_def)
  have "sf_ro (m_fs m) = sf_ro (m_fs (line_mcu []))"
    by (simp add: m_def led_write_def write_int_to_file_def)
  then have "led_ready line_env m" using ro rd(2) by (simp add: led_ready_def) (simp add: m_def line_mcu_def mcu_init_def)
  moreover have "readset_powerled line_env m = Some m"
    using rd by (simp add: readset_powerled_def led_brightness_step_def m_def)
  ultimately show ?thesis using readset_powerled_settles [of line_env m m] unfolding Let_def m_def [symmetric] by simp
qed

section \<open>The fan\<close>

definition fan_level :: "int \<Rightarrow> int" where
  "fan_level pwm = (if pwm = 0 then 0 else if pwm < 128 then 1 else 2)"

definition fan_arrays :: "'s mcu \<Rightarrow> bool" where
  "fan_arrays m \<longleftrightarrow> (\<forall>c \<in> {FanStopCmd, FanHalfCmd, FanFullCmd}. m_arrays m c = cmd_init c)"

lemma set_fan_for_level:
  assumes "fan_arrays m" "\<not> sf_ro (m_fs m) sys_fan_input" "set_fan_for E pwm m = Some m'"
  shows "fanSpeed m' = fan_level pwm \<or> same_state m m'"
proof -
  define c where "c = (if pwm = 0 then FanStopCmd else if pwm < 128 then FanHalfCmd else FanFullCmd)"
  define k :: nat where "k = (if pwm = 0 then 0 else if pwm < 128 then 1 else 2)"
  have k: "int k = fan_level pwm" by (simp add: k_def fan_level_def)
  show ?thesis
  proof (cases "fanSpeed m = fan_level pwm")
    case True
    then have "m' = m" using assms(3) by (auto simp: set_fan_for_def fan_level_def Let_def split: if_splits)
    with True show ?thesis by simp
  next
    case False
    then obtain r msg where s: "setfan_cmd E (m_arrays m c) [] 16 m = Some (r, msg, m')"
      using assms(3) by (auto simp: set_fan_for_def fan_level_def Let_def c_def bind_eq_Some_conv split: if_splits)
    have "m_arrays m c = cmd_init FanStopCmd \<and> k = 0 \<or> m_arrays m c = cmd_init FanHalfCmd \<and> k = 1 \<or>
        m_arrays m c = cmd_init FanFullCmd \<and> k = 2"
      using assms(1) by (auto simp: fan_arrays_def c_def k_def)
    from setfan_cmd_rule [OF this assms(2) s] k show ?thesis by auto
  qed
qed

lemma gettemperature_frame [frame]:
  "gettemperature_cmd E c s n m = Some (r, msg, m') \<Longrightarrow>
   m_arrays m' = m_arrays m \<and> fanSpeed m' = fanSpeed m \<and> sf_ro (m_fs m') = sf_ro (m_fs m) \<and>
   read_int_from_file (m_fs m') sys_pwm v = read_int_from_file (m_fs m) sys_pwm v"
  by (auto simp: gettemperature_cmd_def bind_eq_Some_conv Let_def read_int_other dest!: mcu_send_frame split: if_splits)

lemma same_state_fan: "same_state m m' \<Longrightarrow> fanSpeed m' = fanSpeed m"
  unfolding same_state_def by (metis mcu.select_convs(4) mcu.surjective mcu.update_convs(1))

text \<open>The fan follows the pwm file. When \<^verbatim>\<open>pwm1\<close> holds a new value, \<^verbatim>\<open>readset_temp\<close> brings the fan to
  the level of that value (off at 0, half speed below 128, full speed from 128) unless its command fails, in
  which case the fan state is as before; the value is noted in either case. When the value is the one noted
  before, no fan command is sent, also if the last one failed.\<close>

theorem readset_temp_fan:
  assumes "fan_arrays (d_mcu d)" "\<not> sf_ro (m_fs (d_mcu d)) sys_fan_input"
    and "\<And>v. read_int_from_file (m_fs (d_mcu d)) sys_pwm v = Some pwm"
    and "readset_temp E d = Some d'"
  shows "old_pwm d' = pwm \<and>
    (pwm \<noteq> old_pwm d \<longrightarrow> fanSpeed (d_mcu d') = fan_level pwm \<or> fanSpeed (d_mcu d') = fanSpeed (d_mcu d)) \<and>
    (pwm = old_pwm d \<longrightarrow> (\<exists>r msg. gettemperature_cmd E (m_arrays (d_mcu d) ThermalStatusGetCmd) [] 16 (d_mcu d) = Some (r, msg, d_mcu d')))"
proof -
  obtain r msg m where t: "gettemperature_cmd E (m_arrays (d_mcu d) ThermalStatusGetCmd) [] 16 (d_mcu d) = Some (r, msg, m)"
    using assms(4) by (auto simp: readset_temp_def bind_eq_Some_conv)
  note fr = gettemperature_frame [OF t]
  have pwm: "read_int_from_file (m_fs m) sys_pwm v = Some pwm" for v using fr assms(3) by simp
  show ?thesis
  proof (cases "pwm = old_pwm d")
    case True
    then show ?thesis using assms(4) t pwm by (auto simp: readset_temp_def Let_def)
  next
    case False
    then obtain m2 where m2: "set_fan_for E pwm m = Some m2" "d_mcu d' = m2" "old_pwm d' = pwm"
      using assms(4) t pwm by (auto simp: readset_temp_def Let_def bind_eq_Some_conv)
    have "fan_arrays m" "\<not> sf_ro (m_fs m) sys_fan_input" using fr assms(1,2) by (simp_all add: fan_arrays_def)
    from set_fan_for_level [OF this m2(1)] have "fanSpeed m2 = fan_level pwm \<or> fanSpeed m2 = fanSpeed m"
      using same_state_fan by blast
    with m2 fr False show ?thesis by auto
  qed
qed

text \<open>Examples: the MCU answers the temperature request and accepts the fan packet.\<close>

definition line_daemon :: "sysfs \<Rightarrow> int \<Rightarrow> (byte option list \<times> byte list) daemon" where
  "line_daemon f k = (let d = daemon_init (map Some (temp_answer @ AckFromSerial @ AckFromSerial), []) f in
     d\<lparr>d_mcu := (d_mcu d)\<lparr>fanSpeed := k\<rparr>\<rparr>)"

lemma line_daemon_run:
  assumes pwm: "\<And>v. read_int_from_file f sys_pwm v = Some pwm" and big: "128 \<le> pwm" and k: "k \<noteq> 2"
  shows "\<exists>d'. readset_temp line_env (line_daemon f k) = Some d' \<and> fanSpeed (d_mcu d') = 2"
proof -
  let ?d = "line_daemon f k"
  note defs = line_daemon_def daemon_init_def mcu_init_def Let_def
  have p: "packet (cmd_init ThermalStatusGetCmd)" "packet temp_answer" "packet (cmd_init FanFullCmd)"
    by (simp_all add: packet_def CMD_STOP_MAGIC_def temp_answer_def)
  have l: "length temp_answer = 7" "take 5 temp_answer = take 5 (cmd_init ThermalStatusGetCmd)"
    by (simp_all add: temp_answer_def)
  define m1 where "m1 = (d_mcu ?d)\<lparr>m_world := (map Some AckFromSerial, cmd_init ThermalStatusGetCmd)\<rparr>"
  have s1: "mcu_send line_env (cmd_init ThermalStatusGetCmd) True (d_mcu ?d) = Some (SUCCESS, temp_answer @ replicate 9 0, m1)"
    using line_answered [OF p(1) _ p(2), of 2 _ AckFromSerial "[]"] l
    by (simp add: mcu_send_def line_env_def defs m1_def del: map_append)
  have b5: "(temp_answer @ replicate 9 0) ! 5 = 0x6A" by (simp add: temp_answer_def)
  have len: "length ThermalTable = 204" by (simp add: ThermalTable_def)
  obtain msg m2 where g: "gettemperature_cmd line_env (cmd_init ThermalStatusGetCmd) [] 16 (d_mcu ?d) = Some (0, msg, m2)"
    and m2: "m_world m2 = m_world m1" "m_arrays m2 = cmd_init" "fanSpeed m2 = k"
    using s1 b5 len by (auto simp: gettemperature_cmd_def m1_def defs)
  have w: "mcu_send line_env (cmd_init FanFullCmd) False m2 =
      Some (SUCCESS, [], m2\<lparr>m_world := ([], cmd_init ThermalStatusGetCmd @ cmd_init FanFullCmd)\<rparr>)"
    using mcu_send_acked [of line_env "cmd_init FanFullCmd" m2] line_acked [OF p(3), of 2 "[]" "cmd_init ThermalStatusGetCmd"] m2(1)
    by (simp add: line_env_def m1_def)
  have pwm2: "read_int_from_file (m_fs m2) sys_pwm v = Some pwm" for v
    using gettemperature_frame [OF g] pwm by (simp add: defs)
  have arr: "m_arrays (d_mcu ?d) = cmd_init" "old_pwm ?d = -1" by (simp_all add: defs)
  with g pwm2 w m2 big k show ?thesis
    by (simp add: readset_temp_def set_fan_for_def setfan_cmd_def simple_cmd_def SUCCESS_def line_env_def Let_def)
qed

definition pwm_daemon :: "(byte option list \<times> byte list) daemon" where
  "pwm_daemon = line_daemon \<lparr>sf_files = (\<lambda>f. if f = sys_pwm then Some (''200'' @ [CHR 0x0A]) else None), sf_ro = (\<lambda>_. False)\<rparr> (- 1)"

lemma pwm_daemon_file: "read_int_from_file (m_fs (d_mcu pwm_daemon)) sys_pwm v = Some 200"
  by (simp add: read_int_from_file_def read_str_from_file_def pwm_daemon_def line_daemon_def daemon_init_def mcu_init_def Let_def
      c_string_def scan_int_def) code_simp

lemma pwm_daemon_run:
  "\<exists>d'. readset_temp line_env pwm_daemon = Some d' \<and> fanSpeed (d_mcu d') = 2"
  unfolding pwm_daemon_def
  by (rule line_daemon_run [of _ 200]) (use pwm_daemon_file in \<open>simp_all add: pwm_daemon_def line_daemon_def daemon_init_def mcu_init_def Let_def\<close>)

lemma readset_temp_fan_witness:
  "\<exists>d'. readset_temp line_env pwm_daemon = Some d' \<and> old_pwm d' = 200 \<and>
     (fanSpeed (d_mcu d') = fan_level 200 \<or> fanSpeed (d_mcu d') = -1)"
proof -
  obtain d' where d': "readset_temp line_env pwm_daemon = Some d'" using pwm_daemon_run by blast
  have arr: "fan_arrays (d_mcu pwm_daemon)" "\<not> sf_ro (m_fs (d_mcu pwm_daemon)) sys_fan_input" "old_pwm pwm_daemon = -1"
    "fanSpeed (d_mcu pwm_daemon) = -1"
    by (simp_all add: fan_arrays_def pwm_daemon_def line_daemon_def daemon_init_def mcu_init_def Let_def)
  show ?thesis using readset_temp_fan [OF arr(1,2) pwm_daemon_file d'] d' arr by auto
qed

end
