(* ===== verification/FanLoop.thy ===== *)
theory FanLoop
  imports SysFanProps McuDaemonProps
begin

text \<open>
  The fan loop that the two daemons form through the files of \<^verbatim>\<open>/tmp/sys\<close>: \<^verbatim>\<open>fanctl\<close> of \<^verbatim>\<open>sysctrl.c\<close> reads
  \<^verbatim>\<open>fan1_input\<close> and writes \<^verbatim>\<open>pwm1\<close>; \<^verbatim>\<open>readset_temp\<close> of \<^verbatim>\<open>dns320l-daemon.c\<close> reads \<^verbatim>\<open>pwm1\<close>, commands the
  microcontroller and writes \<^verbatim>\<open>fan1_input\<close>.
\<close>

section \<open>The files both use\<close>

lemma same_names: "McuCommands.sys_pwm = SysState.sys_pwm" "McuCommands.sys_fan_input = SysState.sys_fan_input"
  "McuCommands.sys_temp_input = SysState.sys_temp_input"
  by (simp_all add: McuCommands.sys_pwm_def SysState.sys_pwm_def McuCommands.sys_fan_input_def SysState.sys_fan_input_def
      McuCommands.sys_temp_input_def SysState.sys_temp_input_def)

text \<open>The published speed is the speed the daemon believes in.\<close>

definition published :: "'s mcu \<Rightarrow> nat \<Rightarrow> bool" where
  "published m k \<longleftrightarrow> k \<le> 2 \<and> fanSpeed m = int k \<and>
     read_str_from_file (m_fs m) McuCommands.sys_fan_input 64 = Some (show_nat (3000 * k))"

lemma show_nat_int: "show_nat n = show_int (int n)"
  by (simp add: show_int_def)

lemma published_read_fan:
  assumes "published m k" "m_fs m = fs s" shows "read_fan s = 3000 * int k"
proof -
  have "int (3000 * k) < 2 ^ 31" using assms(1) by (simp add: published_def)
  then have "c_strtol10 (show_int (int (3000 * k))) = (int (3000 * k), [])" by (intro strtol_show_int) auto
  then have "scan_int (show_nat (3000 * k)) 0 = int (3000 * k)"
    unfolding show_nat_int scan_int_def using show_int_ne [of "int (3000 * k)"] by (simp del: show_int_ne)
  then show ?thesis using assms by (simp add: read_fan_def read_int_from_file_def published_def same_names)
qed

lemma published_same_fs:
  "published m k \<Longrightarrow> fanSpeed m' = fanSpeed m \<Longrightarrow>
   read_str_from_file (m_fs m') McuCommands.sys_fan_input 64 = read_str_from_file (m_fs m) McuCommands.sys_fan_input 64 \<Longrightarrow>
   published m' k"
  by (simp add: published_def)

lemma gettemperature_published:
  assumes "gettemperature_cmd E c s n m = Some (r, msg, m')" "published m k" shows "published m' k"
proof (rule published_same_fs [OF assms(2)])
  show "fanSpeed m' = fanSpeed m" using gettemperature_frame [OF assms(1)] by simp
  have "McuCommands.sys_fan_input \<noteq> McuCommands.sys_temp_input"
    by (simp add: McuCommands.sys_fan_input_def McuCommands.sys_temp_input_def)
  then show "read_str_from_file (m_fs m') McuCommands.sys_fan_input 64 = read_str_from_file (m_fs m) McuCommands.sys_fan_input 64"
    using assms(1) by (auto simp: gettemperature_cmd_def bind_eq_Some_conv Let_def read_str_other dest!: mcu_send_frame split: if_splits)
qed

text \<open>Setting the fan publishes the new level, or leaves everything as it is.\<close>

lemma set_fan_for_published:
  assumes "fan_arrays m" "\<not> sf_ro (m_fs m) McuCommands.sys_fan_input" "set_fan_for E pwm m = Some m'" "published m k"
  shows "published m' (nat (fan_level pwm)) \<or> published m' k"
proof -
  define c where "c = (if pwm = 0 then FanStopCmd else if pwm < 128 then FanHalfCmd else FanFullCmd)"
  define l :: nat where "l = (if pwm = 0 then 0 else if pwm < 128 then 1 else 2)"
  have l: "int l = fan_level pwm" "l \<le> 2" by (simp_all add: l_def fan_level_def)
  show ?thesis
  proof (cases "fanSpeed m = fan_level pwm")
    case True
    then have "m' = m" using assms(3) by (auto simp: set_fan_for_def fan_level_def Let_def split: if_splits)
    then show ?thesis using assms(4) by simp
  next
    case False
    then obtain r msg where s: "setfan_cmd E (m_arrays m c) [] 16 m = Some (r, msg, m')"
      using assms(3) by (auto simp: set_fan_for_def fan_level_def Let_def c_def bind_eq_Some_conv split: if_splits)
    have "m_arrays m c = cmd_init FanStopCmd \<and> l = 0 \<or> m_arrays m c = cmd_init FanHalfCmd \<and> l = 1 \<or>
        m_arrays m c = cmd_init FanFullCmd \<and> l = 2"
      using assms(1) by (auto simp: fan_arrays_def c_def l_def)
    from setfan_cmd_rule [OF this assms(2) s] consider "published m' l" | "same_state m m'"
      using l(2) by (auto simp: published_def)
    then show ?thesis
    proof cases
      case 1
      with l(1) show ?thesis by (metis nat_int)
    next
      case 2
      then have "fanSpeed m' = fanSpeed m" "m_fs m' = m_fs m"
        by (cases m; cases m'; simp add: same_state_def)+
      then show ?thesis using published_same_fs [OF assms(4), of m'] by simp
    qed
  qed
qed

lemma readset_temp_published:
  assumes "readset_temp E d = Some d'" "fan_arrays (d_mcu d)" "\<not> sf_ro (m_fs (d_mcu d)) McuCommands.sys_fan_input"
    and "\<And>v. read_int_from_file (m_fs (d_mcu d)) McuCommands.sys_pwm v = Some pwm" "published (d_mcu d) k"
  shows "published (d_mcu d') (nat (fan_level pwm)) \<or> published (d_mcu d') k"
proof -
  obtain r msg m where t: "gettemperature_cmd E (m_arrays (d_mcu d) ThermalStatusGetCmd) [] 16 (d_mcu d) = Some (r, msg, m)"
    using assms(1) by (auto simp: readset_temp_def bind_eq_Some_conv)
  note fr = gettemperature_frame [OF t]
  have p: "published m k" using gettemperature_published [OF t assms(5)] .
  have pwm: "read_int_from_file (m_fs m) McuCommands.sys_pwm v = Some pwm" for v using fr assms(4) by simp
  show ?thesis
  proof (cases "pwm = old_pwm d")
    case True
    then show ?thesis using assms(1) t pwm p by (auto simp: readset_temp_def Let_def)
  next
    case False
    then obtain m2 where m2: "set_fan_for E pwm m = Some m2" "d_mcu d' = m2"
      using assms(1) t pwm by (auto simp: readset_temp_def Let_def bind_eq_Some_conv)
    have "fan_arrays m" "\<not> sf_ro (m_fs m) McuCommands.sys_fan_input" using fr assms(2,3) by (simp_all add: fan_arrays_def)
    from set_fan_for_published [OF this m2(1) p] m2(2) show ?thesis by simp
  qed
qed

lemma fan_level_pwm: "k \<le> 2 \<Longrightarrow> fan_level (pwm_of k) = int k"
  by (auto simp: fan_level_def pwm_of_def PWM_OFF_def PWM_LOW_def PWM_FAST_def)

lemma thermostat_range: "k \<le> 2 \<Longrightarrow> thermostat a t k \<le> 2"
  by (auto simp: thermostat_def one_step_def two_relays_def)

section \<open>The loop\<close>

text \<open>Claim C5. The two daemons together. Let the daemon share its files with \<^verbatim>\<open>sysctrl\<close> and let \<^verbatim>\<open>fan1_input\<close>
  publish level k. After \<^verbatim>\<open>sysctrl\<close> has run its control in the automatic mode and the daemon its
  \<^verbatim>\<open>readset_temp\<close>, the speed \<^verbatim>\<open>sysctrl\<close> will read next is that of the level the thermostat asks for, or still that of
  level k if the microcontroller was not told; never another one.\<close>

theorem fan_loop:
  assumes "fan_control stemp dtemp s = Some s1" "board s \<noteq> DNS_323_A1" "board s \<noteq> DNS_323_B1"
    and "fan_mode (args s) = FAN_AUTO" "limits_ok (args s)" "\<not> sf_ro (fs s) SysState.sys_pwm"
    and "readset_temp E d = Some d'" "m_fs (d_mcu d) = fs s1" "fan_arrays (d_mcu d)"
    and "\<not> sf_ro (fs s1) SysState.sys_fan_input" "published (d_mcu d) k"
  shows "\<exists>k' \<in> {thermostat (args s) (smooth stemp dtemp (f_temp s)) k, k}.
    published (d_mcu d') k' \<and> read_fan (s1\<lparr>fs := m_fs (d_mcu d')\<rparr>) = 3000 * int k'"
proof -
  let ?k = "thermostat (args s) (smooth stemp dtemp (f_temp s)) k"
  have k: "k \<le> 2" using assms(11) by (simp add: published_def)
  have rf: "read_fan s = 3000 * int k"
  proof -
    have "read_fan s1 = read_fan s" using assms(1)
      by (rule fan_control_parts)
         (simp add: read_fan_def write_pwm_def write_int_to_file_def read_int_other SysState.sys_pwm_def SysState.sys_fan_input_def)
    then show ?thesis using published_read_fan [OF assms(11,8)] by simp
  qed
  obtain pwm where p: "fan_pwm (board s) (args s) (f_temp s1) (read_fan s) (read_pwm s) = Some pwm"
    "f_temp s1 = smooth stemp dtemp (f_temp s)" "fs s1 = fs (write_pwm pwm s)"
    using assms(1) by (rule fan_control_parts) auto
  have pwm: "pwm = pwm_of ?k"
    using p(1,2) assms(2-4) auto_thermostat [OF assms(5) k] rf by (simp add: fan_pwm_def)
  have "0 \<le> pwm \<and> pwm \<le> 255" by (simp add: pwm pwm_of_def PWM_OFF_def PWM_LOW_def PWM_FAST_def)
  then have r: "read_int_from_file (m_fs (d_mcu d)) McuCommands.sys_pwm v = Some pwm" for v
    unfolding assms(8) p(3) same_names using assms(6) by (simp add: write_pwm_def read_write_int)
  have "\<not> sf_ro (m_fs (d_mcu d)) McuCommands.sys_fan_input" using assms(8,10) by (simp add: same_names)
  from readset_temp_published [OF assms(7,9) this r assms(11)]
  have "published (d_mcu d') ?k \<or> published (d_mcu d') k"
    using fan_level_pwm [OF thermostat_range [OF k]] by (simp add: pwm)
  then show ?thesis using published_read_fan [of "d_mcu d'" _ "s1\<lparr>fs := m_fs (d_mcu d')\<rparr>"] by auto
qed

section \<open>Examples\<close>

lemma hot_state_warm: "42 < smooth 70 0 (f_temp hot_state)"
  using smooth_bounds [of 70 0 40] by (simp add: hot_state_ready)

lemma fan_loop_witness:
  "\<exists>s1 d'. fan_control 70 0 hot_state = Some s1 \<and> readset_temp line_env (line_daemon (fs s1) 1) = Some d' \<and>
     (\<exists>k' \<in> {thermostat (args hot_state) (smooth 70 0 (f_temp hot_state)) 1, 1}.
        published (d_mcu d') k' \<and> read_fan (s1\<lparr>fs := m_fs (d_mcu d')\<rparr>) = 3000 * int k')"
proof -
  have l: "limits_ok (args hot_state)" "up2 (args hot_state) = 42" by code_simp+
  obtain s1 where s1: "fan_control 70 0 hot_state = Some s1"
    using fan_control_defined_rule [OF hot_state_plain(1,2) _ hot_state_plain(5,6,4)] hot_state_fan by auto
  obtain pwm where p: "fan_pwm (board hot_state) (args hot_state) (f_temp s1) (read_fan hot_state) (read_pwm hot_state) = Some pwm"
    "f_temp s1 = smooth 70 0 (f_temp hot_state)" "fs s1 = fs (write_pwm pwm hot_state)"
    using s1 by (rule fan_control_parts) auto
  have "thermostat (args hot_state) (smooth 70 0 (f_temp hot_state)) 1 = 2"
    using hot_state_warm l by (auto simp: thermostat_def one_step_def two_relays_def relay_def limits_ok_def)
  then have pwm: "pwm = 255"
    using p(1,2) hot_state_plain(1-3) auto_thermostat [OF l(1), of 1] hot_state_fan by (simp add: fan_pwm_def pwm_of_def PWM_FAST_def)
  have ro: "\<not> sf_ro (fs s1) SysState.sys_pwm" "\<not> sf_ro (fs s1) SysState.sys_fan_input"
    by (simp_all add: p(3) write_pwm_def hot_state_def fan_state_def sensor_files_def no_files_def write_int_to_file_def)
  have r: "read_int_from_file (fs s1) McuCommands.sys_pwm v = Some 255" for v
    using hot_state_plain(4) by (simp add: p(3) pwm write_pwm_def same_names read_write_int)
  obtain d' where d': "readset_temp line_env (line_daemon (fs s1) 1) = Some d'"
    using line_daemon_run [of "fs s1" 255 1] r by auto
  have d: "m_fs (d_mcu (line_daemon (fs s1) 1)) = fs s1" "fan_arrays (d_mcu (line_daemon (fs s1) 1))"
    "fanSpeed (d_mcu (line_daemon (fs s1) 1)) = 1"
    by (simp_all add: line_daemon_def daemon_init_def mcu_init_def fan_arrays_def Let_def)
  have "read_str_from_file (fs s1) McuCommands.sys_fan_input 64 = Some ''3000''"
    by (simp add: p(3) write_pwm_def write_int_to_file_def read_str_other same_names SysState.sys_pwm_def SysState.sys_fan_input_def)
       (simp add: read_str_from_file_def hot_state_def sensor_files_def SysState.sys_fan_input_def c_string_def)
  moreover have "show_nat 3000 = ''3000''" by (simp add: show_nat.simps char_of_def bit_0)
  ultimately have "published (d_mcu (line_daemon (fs s1) 1)) 1" by (simp add: published_def d)
  from fan_loop [OF s1 hot_state_plain(1-3) l(1) hot_state_plain(4) d' d(1,2) ro(2) this] s1 d' show ?thesis by blast
qed

end
