(* ===== verification/SysButtons.thy ===== *)
theory SysButtons
  imports SysConfig SysFan
begin

text \<open>
  The buttons and the main loop of \<^verbatim>\<open>sysctrl.c\<close>: \<^verbatim>\<open>button\<close>, \<^verbatim>\<open>debounce\<close>, \<^verbatim>\<open>back_button\<close>, \<^verbatim>\<open>reboot\<close>,
  \<^verbatim>\<open>poweroff\<close>, one round of \<^verbatim>\<open>mainloop\<close>, the start in \<^verbatim>\<open>main\<close>, and the program as a whole as a step relation in
  which signal handlers run between the rounds. \<open>None\<close> is undefined behaviour, or a call that does not return
  (\<^verbatim>\<open>debounce\<close> and \<^verbatim>\<open>back_button\<close> wait without a limit). A successful \<^verbatim>\<open>execl\<close> ends the program.
\<close>

section \<open>Buttons\<close>

definition NO_BT :: int where "NO_BT = 0"
definition FRONT_BT :: int where "FRONT_BT = 1"
definition RESET_BT :: int where "RESET_BT = 2"
definition USB_BT :: int where "USB_BT = 3"

definition EV_KEY :: int where "EV_KEY = 1"
definition FRONT_EV :: int where "FRONT_EV = 0x74"
definition RESET_EV :: int where "RESET_EV = 0x198"
definition USB_EV :: int where "USB_EV = 0x85"
definition PRESSED :: nat where "PRESSED = 7"

definition key_of :: "int \<Rightarrow> int \<Rightarrow> int" where
  "key_of code value = (if code = FRONT_EV then FRONT_BT OR push_bit PRESSED value
     else if code = RESET_EV then RESET_BT OR push_bit PRESSED value
     else if code = USB_EV then USB_BT OR push_bit PRESSED value else NO_BT)"

text \<open>After a key event the \<^verbatim>\<open>EV_SYN\<close> event is read, whatever it is.\<close>

definition button :: "'w kernel \<Rightarrow> 'w sysctl \<Rightarrow> int \<times> 'w sysctl" where
  "button K s =
     (if \<not> b_fd s \<and> \<not> k_open_input K (world s) then (-1, s)
      else (case k_event K (world s) of (r, w) \<Rightarrow>
        let s = s\<lparr>b_fd := True, world := w\<rparr> in
        (case r of
           Inr (type, code, value) \<Rightarrow>
             if type = EV_KEY then (key_of code value, s\<lparr>world := snd (k_event K w)\<rparr>) else (NO_BT, s)
         | Inl again \<Rightarrow> (if again then NO_BT else -1, s))))"

definition reboot :: "'w sysctl \<Rightarrow> 'w sysctl" where
  "reboot s = emit ExecReboot (exec_userscript (front_button_command1 (args s)) None s)"

definition poweroff :: "'w sysctl \<Rightarrow> 'w sysctl" where
  "poweroff s = emit ExecPoweroff (exec_userscript (front_button_command2 (args s)) None s)"

partial_function (option) debounce_loop :: "'w kernel \<Rightarrow> nat \<Rightarrow> int \<Rightarrow> 'w sysctl \<Rightarrow> (int \<times> 'w sysctl) option" where
  "debounce_loop K count bt s = (if count = 0 then Some (bt, s)
     else (case button K s of (tbt, s) \<Rightarrow>
       if tbt \<noteq> 0 then debounce_loop K 50 tbt s else debounce_loop K (count - 1) bt s))"

definition released :: "int \<Rightarrow> int" where
  "released bt = (if bit bt PRESSED then bt AND NOT (push_bit PRESSED 1) else NO_BT)"

definition power_button_board :: "board \<Rightarrow> bool" where
  "power_button_board b \<longleftrightarrow> b = DNS_320L_Ax \<or> b = DNS_320_Bx \<or> b = DNS_327L_Ax"

text \<open>\<^verbatim>\<open>debounce\<close>: the button that is pressed; \<open>None\<close> inside when the program has been left for \<^verbatim>\<open>poweroff\<close>.\<close>

definition debounce :: "'w kernel \<Rightarrow> 'w sysctl \<Rightarrow> (int option \<times> 'w sysctl) option" where
  "debounce K s =
     (if power_button_board (board s) \<and> read_int_from_file (fs s) sys_power_button (k_uninit K (world s)) = Some 0
      then Some (None, poweroff s)
      else (case button K s of (tbt, s) \<Rightarrow>
        if tbt = -1 \<or> tbt = 0 then Some (Some (b_bt s), s)
        else (case debounce_loop K 50 tbt s of None \<Rightarrow> None
          | Some (bt, s) \<Rightarrow> Some (Some (released bt), s\<lparr>b_bt := released bt\<rparr>))))"

partial_function (option) back_loop :: "'w kernel \<Rightarrow> 'w sysctl \<Rightarrow> (bool \<times> 'w sysctl) option" where
  "back_loop K s = (case debounce K s of None \<Rightarrow> None
     | Some (None, s) \<Rightarrow> Some (False, s)
     | Some (Some bt, s) \<Rightarrow> if bt = RESET_BT \<or> bt = USB_BT then back_loop K s else Some (True, s))"

text \<open>What a release of the back button after some seconds runs.\<close>

definition back_action :: "int \<Rightarrow> 'w sysctl \<Rightarrow> 'w sysctl" where
  "back_action count s =
     (if recovery (args s) \<noteq> 0 \<and> count > 20 then exec_userscript (Some ''/usr/sbin/recover'') (Some ''f'') s
      else if recovery (args s) \<noteq> 0 \<and> count > 10 then exec_userscript (Some ''/usr/sbin/recover'') (Some ''t'') s
      else if back_button_command (args s) \<noteq> None then exec_userscript (back_button_command (args s)) None s
      else exec_userscript (Some ''/usr/bin/eject'') (Some ''usb'') s)"

definition back_button :: "'w kernel \<Rightarrow> 'w sysctl \<Rightarrow> (bool \<times> 'w sysctl) option" where
  "back_button K s = (case k_time K (world s) of (t0, w) \<Rightarrow>
     (case back_loop K (leds_blink (s\<lparr>world := w\<rparr>)) of None \<Rightarrow> None
      | Some (False, s) \<Rightarrow> Some (False, s)
      | Some (True, s) \<Rightarrow> (case k_time K (world s) of (t1, w) \<Rightarrow>
          Some (True, leds_off (back_action (t1 - t0) (s\<lparr>world := w\<rparr>))))))"

section \<open>Main loop\<close>

definition IDLE :: int where "IDLE = 0"
definition HALT :: int where "HALT = 3"
definition REBOOT :: int where "REBOOT = 6"
definition ABORT :: int where "ABORT = 9"

text \<open>The local variables of \<^verbatim>\<open>mainloop\<close>.\<close>

record loop_t =
  l_count :: int
  l_state :: int
  powercheck_count :: int
  fan_count :: int

definition powercheck_interval :: int where "powercheck_interval = 5"
definition fan_interval :: int where "fan_interval = 15"

definition loop_init :: loop_t where
  "loop_init = \<lparr>l_count = 0, l_state = IDLE, powercheck_count = powercheck_interval - 1, fan_count = fan_interval - 1\<rparr>"

text \<open>The state machine of the front button: the flag says whether the program goes on.\<close>

definition front_state :: "int \<Rightarrow> loop_t \<times> 'w sysctl \<Rightarrow> bool \<times> loop_t \<times> 'w sysctl" where
  "front_state bt = (\<lambda>(l, s).
     if l_state l = IDLE then
       (if bt = NO_BT then (True, l\<lparr>l_count := 0\<rparr>, s)
        else if l_count l = HALT then (True, l\<lparr>l_state := HALT\<rparr>, led_blink right_led ''250'' ''250'' s)
        else (True, l, s))
     else if l_state l = HALT then
       (if bt = NO_BT then (False, l\<lparr>l_state := IDLE, l_count := 0\<rparr>, poweroff (leds_off s))
        else if l_count l = REBOOT then
          (True, l\<lparr>l_state := REBOOT\<rparr>, led_blink left_led ''250'' ''250'' (led_set right_led ''0'' s))
        else (True, l, s))
     else if l_state l = REBOOT then
       (if bt = NO_BT then (False, l\<lparr>l_state := IDLE, l_count := 0\<rparr>, reboot (leds_off s))
        else if l_count l = ABORT then (True, l\<lparr>l_state := IDLE, l_count := 0\<rparr>, leds_off s)
        else (True, l, s))
     else (True, l, s))"

definition fan_part :: "'w kernel \<Rightarrow> loop_t \<times> 'w sysctl \<Rightarrow> (bool \<times> loop_t \<times> 'w sysctl) option" where
  "fan_part K = (\<lambda>(l, s). let l' = l\<lparr>fan_count := fan_count l + 1\<rparr> in
     if fan_count l mod fan_interval = 0 then map_option (\<lambda>(ok, s). (ok, l', s)) (fanctl K s) else Some (True, l', s))"

definition power_part :: "'w kernel \<Rightarrow> int \<Rightarrow> loop_t \<times> 'w sysctl \<Rightarrow> (loop_t \<times> 'w sysctl) option" where
  "power_part K bt = (\<lambda>(l, s). let l = l\<lparr>l_count := l_count l + 1, powercheck_count := powercheck_count l + 1\<rparr> in
     if powercheck_count l mod powercheck_interval = 0 \<and> bt = NO_BT then do {
       s \<leftarrow> hdd_powercheck K 0 s;
       (_, s) \<leftarrow> md_stat K s;
       let (_, s) = check_syserrlog K s in Some (l, leds_proc s) }
     else Some (l, s))"

text \<open>The rest of the round: leds, back button, state machine.\<close>

definition button_part :: "'w kernel \<Rightarrow> int \<Rightarrow> loop_t \<times> 'w sysctl \<Rightarrow> (bool \<times> loop_t \<times> 'w sysctl) option" where
  "button_part K bt = (\<lambda>(l, s).
     let s = (if bt \<noteq> 0 \<and> l_state l = IDLE then leds_off s else s) in
     if bt = RESET_BT \<or> bt = USB_BT then map_option (\<lambda>(ok, s). (ok, l, s)) (back_button K s)
     else Some (front_state bt (l, s)))"

definition mainloop_round :: "'w kernel \<Rightarrow> loop_t \<times> 'w sysctl \<Rightarrow> (bool \<times> loop_t \<times> 'w sysctl) option" where
  "mainloop_round K ls = (case fan_part K ls of None \<Rightarrow> None
     | Some (False, l, s) \<Rightarrow> Some (False, l, s)
     | Some (True, l, s) \<Rightarrow> (case debounce K s of None \<Rightarrow> None
         | Some (None, s) \<Rightarrow> Some (False, l, s)
         | Some (Some bt, s) \<Rightarrow> (case power_part K bt (l, s) of None \<Rightarrow> None
             | Some ls \<Rightarrow> button_part K bt ls)))"

section \<open>The program\<close>

text \<open>\<^verbatim>\<open>main\<close> up to the loop: the board, the disks taken to be active, the three configuration files.\<close>

definition main_start :: "'w kernel \<Rightarrow> 'w \<Rightarrow> sysfs \<Rightarrow> (bool \<times> 'w sysctl) option" where
  "main_start K w f = (case check_board ((sys_init w f)\<lparr>disks := replicate NSLOTS empty_disk\<rparr>) of (s, ok) \<Rightarrow>
     if \<not> ok then Some (False, s)
     else do {
       let s = s\<lparr>disks := List.map (\<lambda>d. d\<lparr>power_state := 1\<rparr>) (take (nslots s) (disks s)) @ drop (nslots s) (disks s)\<rparr>;
       s \<leftarrow> read_misc K (read_bay s);
       s \<leftarrow> read_config K s;
       Some (True, leds_off s) })"

definition quit_handler :: "'w sysctl \<Rightarrow> 'w sysctl" where
  "quit_handler s = write_pwm 127 s"

text \<open>The signals: \<open>SIGTERM\<close> ends the program; the others are handled between two rounds.\<close>

datatype signal = SigTerm | SigHup | SigIo bool bool bool

definition on_signal :: "'w kernel \<Rightarrow> signal \<Rightarrow> 'w sysctl \<Rightarrow> (bool \<times> 'w sysctl) option" where
  "on_signal K sig s = (case sig of
     SigTerm \<Rightarrow> Some (False, quit_handler s)
   | SigHup \<Rightarrow> map_option (Pair True) (sighup_handler K s)
   | SigIo miscf bayf conff \<Rightarrow> map_option (Pair True) (inotify_handler K miscf bayf conff s))"

text \<open>The steps of the running program, of its surroundings, and its start.\<close>

inductive sys_step :: "'w kernel \<Rightarrow> loop_t \<times> 'w sysctl \<Rightarrow> loop_t \<times> 'w sysctl \<Rightarrow> bool" for K where
  round: "mainloop_round K ls = Some (True, ls') \<Longrightarrow> sys_step K ls ls'"
| signal: "on_signal K sig s = Some (True, s') \<Longrightarrow> sys_step K (l, s) (l, s')"
| outside: "sys_step K (l, s) (l, s\<lparr>world := w, fs := f\<rparr>)"

inductive sys_reach :: "'w kernel \<Rightarrow> loop_t \<times> 'w sysctl \<Rightarrow> bool" for K where
  start: "main_start K w f = Some (True, s) \<Longrightarrow> sys_reach K (loop_init, s)"
| step: "sys_reach K ls \<Longrightarrow> sys_step K ls ls' \<Longrightarrow> sys_reach K ls'"

inductive_cases sys_stepE: "sys_step K ls ls'"

end
