(* ===== verification/SysDiskProps.thy ===== *)
theory SysDiskProps
  imports SysDisks
begin

text \<open>
  Properties of the leds, disks and RAID arrays: which entry of the led queue wins, the invariant of the
  RAID alarm and that it sounds once per failure, and when a disk is stopped.
\<close>

section \<open>Frame\<close>

named_theorems sysframe \<open>what the operations of sysctrl leave unchanged\<close>

lemma syswrite_frame [simp, sysframe]:
  "leds (syswrite f v s) = leds s" "leds_pqueue (syswrite f v s) = leds_pqueue s" "disks (syswrite f v s) = disks s"
  "world (syswrite f v s) = world s" "events (syswrite f v s) = events s" "ndisks (syswrite f v s) = ndisks s"
  "nslots (syswrite f v s) = nslots s" "sf_ro (fs (syswrite f v s)) = sf_ro (fs s)" "b_bt (syswrite f v s) = b_bt s"
  "board (syswrite f v s) = board s" "args (syswrite f v s) = args s"
  by (simp_all add: syswrite_def)

lemma led_set_frame [simp, sysframe]:
  "leds (led_set i m s) = leds s" "leds_pqueue (led_set i m s) = leds_pqueue s" "disks (led_set i m s) = disks s"
  "world (led_set i m s) = world s" "events (led_set i m s) = events s" "ndisks (led_set i m s) = ndisks s"
  "nslots (led_set i m s) = nslots s" "sf_ro (fs (led_set i m s)) = sf_ro (fs s)" "b_bt (led_set i m s) = b_bt s"
  "board (led_set i m s) = board s" "args (led_set i m s) = args s"
  by (simp_all add: led_set_def split: option.split)

lemma led_blink_frame [simp, sysframe]:
  "leds (led_blink i a b s) = leds s" "leds_pqueue (led_blink i a b s) = leds_pqueue s" "disks (led_blink i a b s) = disks s"
  "world (led_blink i a b s) = world s" "events (led_blink i a b s) = events s" "ndisks (led_blink i a b s) = ndisks s"
  "nslots (led_blink i a b s) = nslots s" "sf_ro (fs (led_blink i a b s)) = sf_ro (fs s)" "b_bt (led_blink i a b s) = b_bt s"
  "board (led_blink i a b s) = board s" "args (led_blink i a b s) = args s"
  by (simp_all add: led_blink_def split: option.split)

lemma two: "[0..<2] = [0, 1 :: nat]" by (simp add: upt_rec)
lemma three: "[PHIGH..<PLOW + 1] = [0, 1, 2 :: nat]" by (simp add: PHIGH_def PLOW_def upt_rec)

section \<open>The led queue\<close>

text \<open>What the files of the left and the right led say.\<close>

definition led_shows :: "'w sysctl \<Rightarrow> nat \<Rightarrow> string \<Rightarrow> string \<Rightarrow> bool" where
  "led_shows s i trig bright \<longleftrightarrow> (\<exists>l. leds s ! i = Some l \<and>
     sf_files (fs s) (l @ ''trigger'') = Some (trig @ [CHR 0x0A]) \<and>
     sf_files (fs s) (l @ ''brightness'') = Some (bright @ [CHR 0x0A]))"

definition disk_leds_ok :: "'w sysctl \<Rightarrow> bool" where
  "disk_leds_ok s \<longleftrightarrow> leds s ! 0 = Some ''/tmp/sys/left_led/'' \<and> leds s ! 1 = Some ''/tmp/sys/right_led/'' \<and>
     (\<forall>f. \<not> sf_ro (fs s) f)"

lemma leds_action:
  assumes "disk_leds_ok s" "i < 2"
  shows "led_shows (leds_on s) i ''none'' ''1''" "led_shows (leds_off s) i ''none'' ''0''"
    "led_shows (leds_blink s) i ''timer'' ''0''"
proof -
  have i: "i = 0 \<or> i = 1" using assms(2) by auto
  note defs = disk_leds_ok_def led_shows_def two leds_on_def leds_off_def leds_blink_def led_set_def led_blink_def
    syswrite_def write_str_to_file_def
  show "led_shows (leds_on s) i ''none'' ''1''" "led_shows (leds_off s) i ''none'' ''0''"
    "led_shows (leds_blink s) i ''timer'' ''0''"
    using i assms(1) by (elim disjE; simp add: defs)+
qed

lemma leds_all_frame [simp, sysframe]:
  "leds_pqueue (leds_on s) = leds_pqueue s" "leds_pqueue (leds_off s) = leds_pqueue s"
  "leds_pqueue (leds_blink s) = leds_pqueue s" "leds (leds_on s) = leds s" "leds (leds_off s) = leds s"
  "leds (leds_blink s) = leds s" "sf_ro (fs (leds_on s)) = sf_ro (fs s)" "sf_ro (fs (leds_off s)) = sf_ro (fs s)"
  "sf_ro (fs (leds_blink s)) = sf_ro (fs s)" "events (leds_on s) = events s" "events (leds_off s) = events s"
  "events (leds_blink s) = events s" "b_bt (leds_on s) = b_bt s" "b_bt (leds_off s) = b_bt s"
  "b_bt (leds_blink s) = b_bt s" "args (leds_off s) = args s" "args (leds_blink s) = args s"
  "board (leds_off s) = board s" "board (leds_blink s) = board s" "world (leds_off s) = world s"
  "world (leds_blink s) = world s" "disks (leds_off s) = disks s" "disks (leds_on s) = disks s" "disks (leds_blink s) = disks s"
  by (simp_all add: leds_on_def leds_off_def leds_blink_def two)

definition led_mode_ok :: "int \<Rightarrow> bool" where
  "led_mode_ok m \<longleftrightarrow> m = NA \<or> m = LEDOFF \<or> m = LEDON \<or> m = LEDBLINK"

text \<open>What a queue entry makes both leds show.\<close>

definition mode_trigger :: "int \<Rightarrow> string" where
  "mode_trigger m = (if m = LEDBLINK then ''timer'' else ''none'')"

definition mode_brightness :: "int \<Rightarrow> string" where
  "mode_brightness m = (if m = LEDON then ''1'' else ''0'')"

lemma led_modes: "NA = -1 \<and> LEDOFF = 0 \<and> LEDON = 1 \<and> LEDBLINK = 2"
  by (simp add: NA_def LEDOFF_def LEDON_def LEDBLINK_def)

lemma leds_proc_step_shows:
  assumes "disk_leds_ok s" "led_mode_ok (leds_pqueue s ! i)" "i < length (leds_pqueue s)"
  shows "disk_leds_ok (leds_proc_step i s) \<and>
    leds_pqueue (leds_proc_step i s) = (leds_pqueue s)[i := (if leds_pqueue s ! i = LEDOFF then NA else leds_pqueue s ! i)] \<and>
    (leds_pqueue s ! i \<noteq> NA \<longrightarrow> (\<forall>w < 2. led_shows (leds_proc_step i s) w (mode_trigger (leds_pqueue s ! i))
        (mode_brightness (leds_pqueue s ! i)))) \<and>
    (leds_pqueue s ! i = NA \<longrightarrow> leds_proc_step i s = s)"
proof -
  have sh: "led_shows (t\<lparr>leds_pqueue := q\<rparr>) w a b = led_shows t w a b" for t q w a b by (simp add: led_shows_def)
  have ok: "disk_leds_ok (leds_on s)" "disk_leds_ok (leds_off s)" "disk_leds_ok (leds_blink s)"
    using assms(1) by (simp_all add: disk_leds_ok_def)
  have upd: "(leds_pqueue s)[i := leds_pqueue s ! i] = leds_pqueue s" by simp
  note act = leds_action [OF assms(1)]
  from assms(2) show ?thesis unfolding led_mode_ok_def
  proof (elim disjE)
    assume m: "leds_pqueue s ! i = NA"
    then show ?thesis using assms(1) upd led_modes by (simp add: leds_proc_step_def)
  next
    assume m: "leds_pqueue s ! i = LEDOFF"
    have "leds_proc_step i s = (leds_off s)\<lparr>leds_pqueue := (leds_pqueue s)[i := NA]\<rparr>" using m by (simp add: leds_proc_step_def)
    moreover have "disk_leds_ok ((leds_off s)\<lparr>leds_pqueue := q\<rparr>)" for q using ok(2) by (simp add: disk_leds_ok_def)
    ultimately show ?thesis using m act led_modes by (simp add: sh mode_trigger_def mode_brightness_def)
  next
    assume m: "leds_pqueue s ! i = LEDON"
    then have "leds_proc_step i s = leds_on s" using led_modes by (simp add: leds_proc_step_def)
    then show ?thesis using m act ok led_modes upd by (simp add: mode_trigger_def mode_brightness_def)
  next
    assume m: "leds_pqueue s ! i = LEDBLINK"
    then have "leds_proc_step i s = leds_blink s" using led_modes by (simp add: leds_proc_step_def)
    then show ?thesis using m act ok led_modes upd by (simp add: mode_trigger_def mode_brightness_def)
  qed
qed

text \<open>The entry that decides: the last one that is not \<^verbatim>\<open>NA\<close>.\<close>

definition deciding :: "int list \<Rightarrow> int option" where
  "deciding q = (case filter (\<lambda>m. m \<noteq> NA) q of [] \<Rightarrow> None | ms \<Rightarrow> Some (last ms))"

text \<open>Which led request wins. After \<^verbatim>\<open>leds_proc\<close> both disk leds show the request of the last queue
  entry that is set: the entry of the lowest priority, not of the highest. Requests to switch off are used up,
  the others stay.\<close>

theorem leds_proc_decides:
  assumes "disk_leds_ok s" "leds_pqueue s = [a, b, c]" "led_mode_ok a" "led_mode_ok b" "led_mode_ok c"
  shows "leds_pqueue (leds_proc s) = List.map (\<lambda>m. if m = LEDOFF then NA else m) [a, b, c] \<and>
    (case deciding [a, b, c] of None \<Rightarrow> leds_proc s = s
     | Some m \<Rightarrow> \<forall>w < 2. led_shows (leds_proc s) w (mode_trigger m) (mode_brightness m))"
proof -
  define s1 where "s1 = leds_proc_step 0 s"
  define s2 where "s2 = leds_proc_step 1 s1"
  define s3 where "s3 = leds_proc_step 2 s2"
  have p: "leds_proc s = s3" unfolding leds_proc_def three by (simp add: s1_def s2_def s3_def)
  let ?f = "\<lambda>m. if m = LEDOFF then NA else m"
  have 1: "disk_leds_ok s1 \<and> leds_pqueue s1 = [?f a, b, c] \<and>
      (a \<noteq> NA \<longrightarrow> (\<forall>w < 2. led_shows s1 w (mode_trigger a) (mode_brightness a))) \<and> (a = NA \<longrightarrow> s1 = s)"
    using leds_proc_step_shows [OF assms(1), of 0] assms(2,3) by (simp add: s1_def)
  have 2: "disk_leds_ok s2 \<and> leds_pqueue s2 = [?f a, ?f b, c] \<and>
      (b \<noteq> NA \<longrightarrow> (\<forall>w < 2. led_shows s2 w (mode_trigger b) (mode_brightness b))) \<and> (b = NA \<longrightarrow> s2 = s1)"
    using leds_proc_step_shows [of s1 1] 1 assms(4) by (simp add: s2_def)
  have 3: "leds_pqueue s3 = [?f a, ?f b, ?f c] \<and>
      (c \<noteq> NA \<longrightarrow> (\<forall>w < 2. led_shows s3 w (mode_trigger c) (mode_brightness c))) \<and> (c = NA \<longrightarrow> s3 = s2)"
    using leds_proc_step_shows [of s2 2] 2 assms(5) by (simp add: s3_def)
  show ?thesis using 1 2 3 by (auto simp: p deciding_def split: if_splits)
qed

lemma leds_proc_decides_witness:
  "led_shows (leds_proc ((sys_init (0::int) no_files)\<lparr>leds_pqueue := [LEDON, NA, LEDOFF]\<rparr>)) 0 ''none'' ''0'' \<and>
   led_shows (leds_proc ((sys_init (0::int) no_files)\<lparr>leds_pqueue := [LEDON, NA, LEDOFF]\<rparr>)) 1 ''none'' ''0''"
proof -
  let ?s = "(sys_init (0::int) no_files)\<lparr>leds_pqueue := [LEDON, NA, LEDOFF]\<rparr>"
  have "disk_leds_ok ?s" by (simp add: disk_leds_ok_def sys_init_def default_leds_def no_files_def)
  from leds_proc_decides [OF this, of LEDON NA LEDOFF] show ?thesis
    by (simp add: led_mode_ok_def deciding_def led_modes mode_trigger_def mode_brightness_def)
qed

section \<open>RAID\<close>

text \<open>The flags are 0 or 1, and the alarm led is requested while a flag is set.\<close>

definition md_flags :: "'w sysctl \<Rightarrow> bool" where
  "md_flags s \<longleftrightarrow> length (degraded s) = 10 \<and> (\<forall>i < 9. degraded s ! i \<in> {0, 1})"

definition md_ok :: "'w sysctl \<Rightarrow> bool" where
  "md_ok s \<longleftrightarrow> md_flags s \<and> last_degraded s \<in> {0, 1} \<and> (last_degraded s = 1 \<longleftrightarrow> (\<exists>i < 9. degraded s ! i = 1))"

text \<open>What one device does: its own flag may change, an alarm is raised exactly when it goes up.\<close>

definition md_change :: "nat \<Rightarrow> 'w sysctl \<Rightarrow> 'w sysctl \<Rightarrow> bool" where
  "md_change dev s s' \<longleftrightarrow> md_flags s' \<and> (\<forall>i. i \<noteq> dev \<longrightarrow> degraded s' ! i = degraded s ! i) \<and>
     (if degraded s ! dev = 0 \<and> degraded s' ! dev = 1
      then last_degraded s' = 1 \<and> (\<exists>level. events s' = events s @ [SysError (''Your md'' @ show_nat dev @ '' '' @ level @ '' device is degraded!'')])
      else last_degraded s' = last_degraded s \<and> events s' = events s)"

lemma md_change_set:
  "md_flags s \<Longrightarrow> dev < 9 \<Longrightarrow> md_change dev s (set_degraded dev 0 s)"
  by (auto simp: md_change_def md_flags_def set_degraded_def nth_list_update)

lemma md_change_same: "md_flags s \<Longrightarrow> dev < 9 \<Longrightarrow> md_change dev s s"
  by (auto simp: md_change_def)

lemma md_change_alarm:
  "md_flags s \<Longrightarrow> dev < 9 \<Longrightarrow> degraded s ! dev = 0 \<Longrightarrow> md_change dev s (md_alarm dev lv s)"
  by (auto simp: md_change_def md_flags_def md_alarm_def set_degraded_def leds_set_def syserrorlog_def nth_list_update)

lemma md_device_cases:
  assumes "md_device K dev (l, s) = Some (l', s')"
  shows "s' = s \<or> s' = set_degraded dev 0 s \<or> degraded s ! dev = 0 \<and> (\<exists>level. s' = md_alarm dev level s)"
proof -
  obtain st lv cd where l: "l = (st, lv, cd)" by (cases l)
  note dv = md_device_def l
  show ?thesis
  proof (cases "k_stat K (md_dev dev) (world s) = None")
    case True
    with assms show ?thesis by (simp add: dv)
  next
    case False
    then have e: "(k_stat K (md_dev dev) (world s) = None) = False" by blast
    obtain st' where r1: "read_16 (fs s) (md_path dev ''array_state'') st = Some (Some st')"
      using assms by (auto simp: dv e bind_eq_Some_conv)
    show ?thesis
    proof (cases "st' = ''inactive''")
      case True
      with assms r1 show ?thesis by (simp add: dv e)
    next
      case False
      then have a: "(st' = ''inactive'') = False" by blast
      obtain lv' where r2: "read_16 (fs s) (md_path dev ''level'') lv = Some (Some lv')"
        using assms by (auto simp: dv e r1 a bind_eq_Some_conv)
      show ?thesis
      proof (cases "(lv' \<noteq> ''raid1'' \<and> lv' \<noteq> ''raid5'') \<or> k_stat K (md_path dev ''degraded'') (world s) = None")
        case True
        then have "s' = set_degraded dev 0 s \<or> s' = s" using assms by (auto simp: dv e r1 a r2 split: if_splits)
        then show ?thesis by blast
      next
        case False
        then have f: "(lv' \<noteq> ''raid1'' \<and> lv' \<noteq> ''raid5'') = False" "(k_stat K (md_path dev ''degraded'') (world s) = None) = False"
          by blast+
        define c where "c = (case read_int_from_file (fs s) (md_path dev ''degraded'') cd of None \<Rightarrow> cd | Some n \<Rightarrow> n)"
        have "s' = (if c = 0 then set_degraded dev 0 s else if degraded s ! dev = 0 then md_alarm dev lv' s else s)"
          using assms by (simp only: dv e r1 a r2 f c_def Let_def case_prod_conv if_False bind.bind_lunit option.inject prod.inject)
        then show ?thesis by auto
      qed
    qed
  qed
qed

lemma md_device_change:
  assumes "md_device K dev (l, s) = Some (l', s')" "md_flags s" "dev < 9"
  shows "md_change dev s s'"
  using md_device_cases [OF assms(1)] md_change_set [OF assms(2,3)] md_change_same [OF assms(2,3)] md_change_alarm [OF assms(2,3)]
  by blast

text \<open>The flags that went up, in order.\<close>

definition risen :: "nat list \<Rightarrow> 'w sysctl \<Rightarrow> 'w sysctl \<Rightarrow> nat list" where
  "risen devs s s' = filter (\<lambda>i. degraded s ! i = 0 \<and> degraded s' ! i = 1) devs"

definition is_alarm :: "nat \<Rightarrow> event \<Rightarrow> bool" where
  "is_alarm dev e \<longleftrightarrow> (\<exists>level. e = SysError (''Your md'' @ show_nat dev @ '' '' @ level @ '' device is degraded!''))"

lemma md_devices_change:
  "md_devices K devs (l, s) = Some (l', s') \<Longrightarrow> md_flags s \<Longrightarrow> distinct devs \<Longrightarrow> \<forall>i \<in> set devs. i < 9 \<Longrightarrow>
   md_flags s' \<and> (\<forall>i. i \<notin> set devs \<longrightarrow> degraded s' ! i = degraded s ! i) \<and>
   (\<exists>es. events s' = events s @ es \<and> list_all2 is_alarm (risen devs s s') es) \<and>
   last_degraded s' = (if risen devs s s' = [] then last_degraded s else 1)"
proof (induction devs arbitrary: l s)
  case Nil
  then show ?case by (auto simp: risen_def)
next
  case (Cons dev devs)
  obtain l1 s1 where s1: "md_device K dev (l, s) = Some (l1, s1)" "md_devices K devs (l1, s1) = Some (l', s')"
    using Cons.prems(1) by (auto split: option.splits)
  have ch: "md_change dev s s1" using md_device_change [OF s1(1)] Cons.prems by simp
  then have f1: "md_flags s1" by (simp add: md_change_def)
  have ih: "md_flags s'" "\<forall>i. i \<notin> set devs \<longrightarrow> degraded s' ! i = degraded s1 ! i"
    "\<exists>es. events s' = events s1 @ es \<and> list_all2 is_alarm (risen devs s1 s') es"
    "last_degraded s' = (if risen devs s1 s' = [] then last_degraded s1 else 1)"
    using Cons.IH [OF s1(2) f1] Cons.prems by auto
  have same: "risen devs s1 s' = risen devs s s'"
    using ch Cons.prems(3) by (auto simp: risen_def md_change_def intro!: filter_cong)
  have dev: "degraded s' ! dev = degraded s1 ! dev" using ih(2) Cons.prems(3) by simp
  have r: "risen (dev # devs) s s' = (if degraded s ! dev = 0 \<and> degraded s1 ! dev = 1 then [dev] else []) @ risen devs s s'"
    using dev by (simp add: risen_def)
  have rest: "\<forall>i. i \<notin> set (dev # devs) \<longrightarrow> degraded s' ! i = degraded s ! i"
    using ih(2) ch by (auto simp: md_change_def)
  show ?case
  proof (cases "degraded s ! dev = 0 \<and> degraded s1 ! dev = 1")
    case True
    obtain level es where e: "events s1 = events s @ [SysError (''Your md'' @ show_nat dev @ '' '' @ level @ '' device is degraded!'')]"
      "events s' = events s1 @ es" "list_all2 is_alarm (risen devs s1 s') es" "last_degraded s1 = 1"
      using True ch ih(3) by (auto simp: md_change_def)
    then have "events s' = events s @ (SysError (''Your md'' @ show_nat dev @ '' '' @ level @ '' device is degraded!'') # es)"
      "list_all2 is_alarm (risen (dev # devs) s s') (SysError (''Your md'' @ show_nat dev @ '' '' @ level @ '' device is degraded!'') # es)"
      using True same r by (auto simp: is_alarm_def)
    then show ?thesis using ih(1,4) rest r True e(4) by (auto simp del: append.simps)
  next
    case False
    then have "events s1 = events s" "last_degraded s1 = last_degraded s" using ch by (simp_all add: md_change_def split: if_splits)
    then show ?thesis using ih rest r same False by auto
  qed
qed

lemma md_count_zero:
  assumes "md_flags s" shows "md_count s = 0 \<longleftrightarrow> (\<forall>i < 9. degraded s ! i = 0)" and "0 \<le> md_count s"
proof -
  have l: "length (take 9 (degraded s)) = 9" using assms by (simp add: md_flags_def)
  have nn: "\<forall>x \<in> set (take 9 (degraded s)). 0 \<le> x"
  proof
    fix x assume "x \<in> set (take 9 (degraded s))"
    then obtain i where "i < 9" "x = degraded s ! i" using l by (auto simp: in_set_conv_nth)
    with assms show "0 \<le> x" by (auto simp: md_flags_def)
  qed
  then show "0 \<le> md_count s" by (simp add: md_count_def sum_list_nonneg)
  have "md_count s = 0 \<longleftrightarrow> (\<forall>x \<in> set (take 9 (degraded s)). x = 0)"
    using nn by (simp add: md_count_def sum_list_nonneg_eq_0_iff)
  also have "\<dots> \<longleftrightarrow> (\<forall>i < 9. degraded s ! i = 0)" using l by (auto simp: all_set_conv_all_nth)
  finally show "md_count s = 0 \<longleftrightarrow> (\<forall>i < 9. degraded s ! i = 0)" .
qed

lemma md_stat_alarm_rule:
  assumes "md_ok s" "md_stat K s = Some (r, s')" "k_stat K ''/proc/mdstat'' (world s) \<noteq> None"
  shows "md_ok s' \<and> (\<exists>es. events s' = events s @ es \<and> list_all2 is_alarm (risen [0..<9] s s') es) \<and>
    r = md_count s' \<and> (r = 0 \<longleftrightarrow> (\<forall>i < 9. degraded s' ! i = 0))"
proof -
  obtain l s1 where d: "md_devices K [0..<9] ((None, None, k_uninit K (world s)), s) = Some (l, s1)"
    using assms(2,3) by (auto simp: md_stat_def bind_eq_Some_conv)
  have ch: "md_flags s1" "\<exists>es. events s1 = events s @ es \<and> list_all2 is_alarm (risen [0..<9] s s1) es"
    "last_degraded s1 = (if risen [0..<9] s s1 = [] then last_degraded s else 1)"
    using md_devices_change [OF d] assms(1) by (auto simp: md_ok_def)
  note z = md_count_zero [OF ch(1)]
  have lo: "last_degraded s1 \<in> {0, 1}" "(\<exists>i < 9. degraded s1 ! i = 1) \<Longrightarrow> last_degraded s1 = 1"
  proof -
    show "last_degraded s1 \<in> {0, 1}" using ch(3) assms(1) by (auto simp: md_ok_def)
    assume "\<exists>i < 9. degraded s1 ! i = 1"
    then obtain i where i: "i < 9" "degraded s1 ! i = 1" by blast
    show "last_degraded s1 = 1"
    proof (cases "degraded s ! i = 0")
      case True
      with i have "i \<in> set (risen [0..<9] s s1)" by (simp add: risen_def)
      then show ?thesis using ch(3) by (auto split: if_splits)
    next
      case False
      then have "degraded s ! i = 1" using assms(1) i(1) by (auto simp: md_ok_def md_flags_def)
      with assms(1) i(1) have "last_degraded s = 1" by (auto simp: md_ok_def)
      with ch(3) show ?thesis by simp
    qed
  qed
  have fl: "degraded s1 ! i = 0 \<or> degraded s1 ! i = 1" if "i < 9" for i using ch(1) that by (simp add: md_flags_def)
  have s': "s' = (if last_degraded s1 = 1 \<and> md_count s1 = 0 then leds_set PHIGH LEDOFF (s1\<lparr>last_degraded := 0\<rparr>) else s1)"
    and r: "r = md_count s1"
    using assms(2,3) d by (auto simp: md_stat_def)
  have deg: "degraded s' = degraded s1" "events s' = events s1" by (simp_all add: s' leds_set_def)
  have "md_ok s'"
  proof (cases "md_count s1 = 0")
    case True
    then have "\<forall>i < 9. degraded s1 ! i = 0" using z(1) by simp
    then have "\<not> (\<exists>i < 9. degraded s1 ! i = 1)" by auto
    with True lo ch(1) show ?thesis by (auto simp: md_ok_def s' leds_set_def md_flags_def)
  next
    case False
    then have "\<exists>i < 9. degraded s1 ! i = 1" using z(1) fl by blast
    with False lo ch(1) show ?thesis by (auto simp: md_ok_def s')
  qed
  moreover have "risen [0..<9] s s' = risen [0..<9] s s1" by (simp add: risen_def deg)
  moreover have "md_count s' = md_count s1" by (simp add: md_count_def deg)
  ultimately show ?thesis using ch(2) z(1) r by (simp add: deg)
qed

text \<open>What the kernel says of an array: there is none or its state is not told, it is complete (or inactive, or not redundant), or
  members are missing.\<close>

datatype array = Unknown | Complete | Degraded string

definition md_text :: "'w sysctl \<Rightarrow> nat \<Rightarrow> string \<Rightarrow> string \<Rightarrow> bool" where
  "md_text s dev f t \<longleftrightarrow> (\<forall>old. read_16 (fs s) (md_path dev f) old = Some (Some t))"

definition redundant :: "'w kernel \<Rightarrow> 'w sysctl \<Rightarrow> nat \<Rightarrow> string \<Rightarrow> bool" where
  "redundant K s dev lv \<longleftrightarrow> k_stat K (md_dev dev) (world s) \<noteq> None \<and> (\<exists>st. st \<noteq> ''inactive'' \<and> md_text s dev ''array_state'' st)
     \<and> md_text s dev ''level'' lv \<and> lv \<in> {''raid1'', ''raid5''}"

definition missing :: "'w kernel \<Rightarrow> 'w sysctl \<Rightarrow> nat \<Rightarrow> int \<Rightarrow> bool" where
  "missing K s dev n \<longleftrightarrow> k_stat K (md_path dev ''degraded'') (world s) \<noteq> None \<and> (\<forall>u. read_int_from_file (fs s) (md_path dev ''degraded'') u = Some n)"

definition array_at :: "'w kernel \<Rightarrow> 'w sysctl \<Rightarrow> nat \<Rightarrow> array \<Rightarrow> bool" where
  "array_at K s dev a \<longleftrightarrow> (case a of
     Unknown \<Rightarrow> k_stat K (md_dev dev) (world s) = None \<or> (\<exists>lv. redundant K s dev lv) \<and> k_stat K (md_path dev ''degraded'') (world s) = None
   | Complete \<Rightarrow> k_stat K (md_dev dev) (world s) \<noteq> None \<and> (\<exists>st. md_text s dev ''array_state'' st \<and>
         (st = ''inactive'' \<or> (\<exists>lv. md_text s dev ''level'' lv \<and> lv \<notin> {''raid1'', ''raid5''}))) \<or> (\<exists>lv. redundant K s dev lv) \<and> missing K s dev 0
   | Degraded lv \<Rightarrow> redundant K s dev lv \<and> (\<exists>n. n \<noteq> 0 \<and> missing K s dev n))"

lemma md_textI: "read_16 (fs s) (md_path dev f) None = Some (Some t) \<Longrightarrow> md_text s dev f t"
  by (auto simp: md_text_def read_16_def split: option.splits if_splits)

definition array_step :: "(nat \<Rightarrow> array) \<Rightarrow> nat \<Rightarrow> 'w sysctl \<Rightarrow> 'w sysctl" where
  "array_step A dev s = (case A dev of Unknown \<Rightarrow> s | Complete \<Rightarrow> set_degraded dev 0 s
     | Degraded lv \<Rightarrow> if degraded s ! dev = 0 then md_alarm dev lv s else s)"

lemma md_device_step:
  assumes "array_at K s dev (A dev)"
  shows "\<exists>l'. md_device K dev (l, s) = Some (l', array_step A dev s)"
proof -
  obtain st lv cd where l: "l = (st, lv, cd)" by (cases l)
  show ?thesis using assms
    by (cases "A dev") (auto simp: array_at_def redundant_def missing_def md_text_def md_device_def l array_step_def)
qed

lemma array_step_frame: "fs (array_step A dev s) = fs s" "world (array_step A dev s) = world s"
  by (simp_all add: array_step_def set_degraded_def md_alarm_def syserrorlog_def emit_def leds_set_def split: array.split)

lemma array_at_step: "array_at K (array_step A dev s) i a = array_at K s i a"
  unfolding array_at_def redundant_def missing_def md_text_def array_step_frame by (rule refl)

lemma md_devices_steps:
  "\<forall>dev \<in> set devs. array_at K s dev (A dev) \<Longrightarrow> \<exists>l'. md_devices K devs (l, s) = Some (l', fold (array_step A) devs s)"
proof (induction devs arbitrary: l s)
  case Nil
  then show ?case by (cases l) simp
next
  case (Cons dev devs)
  obtain l1 where 1: "md_device K dev (l, s) = Some (l1, array_step A dev s)" using md_device_step [of K s dev A l] Cons(2) by auto
  have "\<forall>i \<in> set devs. array_at K (array_step A dev s) i (A i)" using Cons(2) by (simp add: array_at_step)
  from Cons(1) [OF this, of l1] 1 show ?case by simp
qed

text \<open>The failures that are new, and what is logged for one.\<close>

definition new_failure :: "(nat \<Rightarrow> array) \<Rightarrow> 'w sysctl \<Rightarrow> nat \<Rightarrow> bool" where
  "new_failure A s dev \<longleftrightarrow> degraded s ! dev = 0 \<and> (case A dev of Degraded _ \<Rightarrow> True | _ \<Rightarrow> False)"

definition failure_event :: "(nat \<Rightarrow> array) \<Rightarrow> nat \<Rightarrow> event" where
  "failure_event A dev = SysError (''Your md'' @ show_nat dev @ '' '' @ (case A dev of Degraded lv \<Rightarrow> lv | _ \<Rightarrow> []) @ '' device is degraded!'')"

definition flag_after :: "(nat \<Rightarrow> array) \<Rightarrow> 'w sysctl \<Rightarrow> nat \<Rightarrow> int" where
  "flag_after A s dev = (case A dev of Unknown \<Rightarrow> degraded s ! dev | Complete \<Rightarrow> 0 | Degraded _ \<Rightarrow> 1)"

lemma array_step_effect:
  assumes "md_flags s" "dev < 9" "length (leds_pqueue s) = 3"
  shows "md_flags (array_step A dev s)" "length (leds_pqueue (array_step A dev s)) = 3"
    "degraded (array_step A dev s) ! i = (if i = dev then flag_after A s dev else degraded s ! i)"
    "events (array_step A dev s) = events s @ (if new_failure A s dev then [failure_event A dev] else [])"
    "last_degraded (array_step A dev s) = (if new_failure A s dev then 1 else last_degraded s)"
    "leds_pqueue (array_step A dev s) ! PHIGH = (if new_failure A s dev then LEDON else leds_pqueue s ! PHIGH)"
proof -
  have d: "degraded s ! dev = 0 \<or> degraded s ! dev = 1" "length (degraded s) = 10" using assms(1,2) by (simp_all add: md_flags_def)
  note defs = array_step_def set_degraded_def md_alarm_def syserrorlog_def emit_def leds_set_def new_failure_def failure_event_def flag_after_def PHIGH_def
  show "md_flags (array_step A dev s)" using assms(1,2) by (auto simp: md_flags_def defs nth_list_update split: array.split)
  show "length (leds_pqueue (array_step A dev s)) = 3"
    "degraded (array_step A dev s) ! i = (if i = dev then flag_after A s dev else degraded s ! i)"
    "events (array_step A dev s) = events s @ (if new_failure A s dev then [failure_event A dev] else [])"
    "last_degraded (array_step A dev s) = (if new_failure A s dev then 1 else last_degraded s)"
    "leds_pqueue (array_step A dev s) ! PHIGH = (if new_failure A s dev then LEDON else leds_pqueue s ! PHIGH)"
    using d assms(2,3) by (cases "A dev"; auto simp: defs)+
qed

lemma array_steps_effect:
  assumes "md_flags s" "length (leds_pqueue s) = 3" "distinct devs" "\<forall>i \<in> set devs. i < 9"
  shows "(\<forall>i. degraded (fold (array_step A) devs s) ! i = (if i \<in> set devs then flag_after A s i else degraded s ! i)) \<and>
    events (fold (array_step A) devs s) = events s @ map (failure_event A) (filter (new_failure A s) devs) \<and>
    last_degraded (fold (array_step A) devs s) = (if filter (new_failure A s) devs = [] then last_degraded s else 1) \<and>
    leds_pqueue (fold (array_step A) devs s) ! PHIGH = (if filter (new_failure A s) devs = [] then leds_pqueue s ! PHIGH else LEDON) \<and>
    length (leds_pqueue (fold (array_step A) devs s)) = 3"
  using assms
proof (induction devs arbitrary: s)
  case (Cons dev devs)
  let ?s = "array_step A dev s"
  have dev: "dev < 9" using Cons.prems(4) by simp
  note e = array_step_effect [OF Cons.prems(1) dev Cons.prems(2), of A]
  have n: "new_failure A ?s i = new_failure A s i" "flag_after A ?s i = flag_after A s i" if "i \<in> set devs" for i
  proof -
    have "i \<noteq> dev" using that Cons.prems(3) by auto
    then show "new_failure A ?s i = new_failure A s i" "flag_after A ?s i = flag_after A s i"
      by (simp_all add: new_failure_def flag_after_def e(3) split: array.split)
  qed
  have f: "filter (new_failure A ?s) devs = filter (new_failure A s) devs" using n(1) by (rule filter_cong [OF refl])
  have "distinct devs" "\<forall>i \<in> set devs. i < 9" using Cons.prems by simp_all
  note ih = Cons.IH [OF e(1,2) this, unfolded f e(4-6)]
  have "degraded (fold (array_step A) devs ?s) ! i = (if i \<in> set (dev # devs) then flag_after A s i else degraded s ! i)" for i
    using ih n(2) Cons.prems(3) by (auto simp: e(3))
  then show ?case using ih by simp
qed simp

text \<open>Claim C21. RAID alarm. Let \<open>A\<close> be what the files of the kernel say of the nine arrays. \<^verbatim>\<open>md_stat\<close> ends with the flag of an array set if
  members of it are missing, and cleared if it is complete; it logs exactly the failures that are new, so a failure that
  lasts is reported once; a new failure requests the alarm led, and the request is withdrawn when no array is degraded any more; the
  result is the number of degraded arrays.\<close>

theorem md_stat_alarm:
  assumes "md_ok s" "length (leds_pqueue s) = 3" "k_stat K ''/proc/mdstat'' (world s) \<noteq> None" "\<forall>dev < 9. array_at K s dev (A dev)"
  shows "\<exists>s'. md_stat K s = Some (md_count s', s') \<and> md_ok s' \<and> (\<forall>dev < 9. degraded s' ! dev = flag_after A s dev) \<and>
    events s' = events s @ map (failure_event A) (filter (new_failure A s) [0..<9]) \<and>
    leds_pqueue s' ! PHIGH = (if \<exists>dev < 9. new_failure A s dev then LEDON
      else if last_degraded s = 1 \<and> (\<forall>dev < 9. flag_after A s dev = 0) then LEDOFF else leds_pqueue s ! PHIGH)"
proof -
  define s1 where "s1 = fold (array_step A) [0..<9] s"
  have fl: "md_flags s" using assms(1) by (simp add: md_ok_def)
  have "\<forall>dev \<in> set [0..<9]. array_at K s dev (A dev)" using assms(4) by simp
  from md_devices_steps [OF this] obtain l where l: "md_devices K [0..<9] ((None, None, k_uninit K (world s)), s) = Some (l, s1)" unfolding s1_def by blast
  define s' where "s' = (if last_degraded s1 = 1 \<and> md_count s1 = 0 then leds_set PHIGH LEDOFF (s1\<lparr>last_degraded := 0\<rparr>) else s1)"
  have m: "md_stat K s = Some (md_count s1, s')" using assms(3) l by (auto simp: md_stat_def s'_def)
  have "distinct [0..<9]" "\<forall>i \<in> set [0..<9]. i < 9" by simp_all
  note e = array_steps_effect [OF fl assms(2) this, of A, folded s1_def]
  have d: "degraded s' = degraded s1" "events s' = events s1" by (simp_all add: s'_def leds_set_def)
  have c: "md_count s' = md_count s1" by (simp add: md_count_def d)
  note ok = md_stat_alarm_rule [OF assms(1) m assms(3)]
  have z: "md_count s1 = 0 \<longleftrightarrow> (\<forall>dev < 9. flag_after A s dev = 0)" using ok e by (auto simp: d)
  have nf: "filter (new_failure A s) [0..<9] = [] \<longleftrightarrow> \<not> (\<exists>dev < 9. new_failure A s dev)" by (auto simp: filter_empty_conv)
  have one: "flag_after A s dev = 1" if "new_failure A s dev" for dev using that by (auto simp: new_failure_def flag_after_def split: array.splits)
  have "leds_pqueue s' ! PHIGH = (if \<exists>dev < 9. new_failure A s dev then LEDON
      else if last_degraded s = 1 \<and> (\<forall>dev < 9. flag_after A s dev = 0) then LEDOFF else leds_pqueue s ! PHIGH)"
  proof (cases "\<exists>dev < 9. new_failure A s dev")
    case True
    then have "md_count s1 \<noteq> 0" using z one by fastforce
    then show ?thesis using e nf True by (simp add: s'_def)
  next
    case False
    then have 1: "last_degraded s1 = last_degraded s" "leds_pqueue s1 ! PHIGH = leds_pqueue s ! PHIGH" "length (leds_pqueue s1) = 3" using e nf by simp_all
    show ?thesis
    proof (cases "last_degraded s = 1 \<and> (\<forall>dev < 9. flag_after A s dev = 0)")
      case True
      then show ?thesis unfolding if_not_P [OF False] using 1 z by (simp add: s'_def leds_set_def PHIGH_def)
    next
      case h: False
      then have "s' = s1" using 1(1) z by (auto simp: s'_def)
      then show ?thesis unfolding if_not_P [OF False] if_not_P [OF h] using 1(2) by simp
    qed
  qed
  moreover have "md_stat K s = Some (md_count s', s')" unfolding c by (rule m)
  moreover have "\<forall>dev < 9. degraded s' ! dev = flag_after A s dev" using e by (simp add: d)
  moreover have "events s' = events s @ map (failure_event A) (filter (new_failure A s) [0..<9])" using e by (simp add: d)
  moreover have "md_ok s'" using ok by simp
  ultimately show ?thesis by (intro exI conjI)
qed

text \<open>The example: a mirror at \<^verbatim>\<open>/dev/md0\<close> has just lost a disk.\<close>

definition raid_kernel :: "int kernel" where
  "raid_kernel = still_kernel\<lparr>k_stat := (\<lambda>f _. if f \<in> {''/proc/mdstat'', md_dev 0, md_path 0 ''degraded''} then Some (0, 0, 0) else None)\<rparr>"

definition raid_files :: sysfs where
  "raid_files = no_files\<lparr>sf_files := (sf_files no_files)(md_path 0 ''array_state'' \<mapsto> ''clean'' @ [CHR 0x0A],
     md_path 0 ''level'' \<mapsto> ''raid1'' @ [CHR 0x0A], md_path 0 ''degraded'' \<mapsto> ''1'' @ [CHR 0x0A])\<rparr>"

lemma md_stat_alarm_witness:
  "\<exists>s'. md_stat raid_kernel (sys_init 0 raid_files) = Some (md_count s', s') \<and> degraded s' ! 0 = 1 \<and> leds_pqueue s' ! PHIGH = LEDON
    \<and> length (events s') = 1"
proof -
  let ?s = "sys_init (0::int) raid_files" and ?A = "(\<lambda>_. Unknown)(0 := Degraded ''raid1'')"
  have ok: "md_ok ?s" by (auto simp: md_ok_def md_flags_def sys_init_def nth_Cons' eval_nat_numeral)
  have q: "length (leds_pqueue ?s) = 3" "events ?s = []" by (simp_all add: sys_init_def)
  have st: "k_stat raid_kernel ''/proc/mdstat'' (world ?s) \<noteq> None" by (simp add: raid_kernel_def)
  have t: "md_text ?s 0 ''array_state'' ''clean''" "md_text ?s 0 ''level'' ''raid1''" "k_stat raid_kernel (md_dev 0) (world ?s) \<noteq> None"
    "k_stat raid_kernel (md_path 0 ''degraded'') (world ?s) \<noteq> None" by ((rule md_textI)?, code_simp)+
  have "scan_int ''1'' u = 1" for u by code_simp
  then have "missing raid_kernel ?s 0 1" using t(4)
    by (simp add: missing_def read_int_from_file_def read_str_from_file_def sys_init_def raid_files_def md_path_def c_string_def)
  moreover have "''clean'' \<noteq> ''inactive''" by simp
  ultimately have 0: "array_at raid_kernel ?s 0 (?A 0)" using t unfolding array_at_def redundant_def fun_upd_same array.case
    by (intro conjI exI [of _ 1] exI [of _ "''clean''"]) simp_all
  have "array_at raid_kernel ?s dev (?A dev)" if "dev < 9" for dev
  proof (cases "dev = 0")
    case False
    have "\<forall>dev \<in> set [1..<9]. md_dev dev \<notin> {''/proc/mdstat'', md_dev 0, md_path 0 ''degraded''}" by code_simp
    then have "md_dev dev \<notin> {''/proc/mdstat'', md_dev 0, md_path 0 ''degraded''}" using False that by simp
    then show ?thesis using False by (simp add: array_at_def raid_kernel_def)
  qed (use 0 in simp)
  then have a: "\<forall>dev < 9. array_at raid_kernel ?s dev (?A dev)" by blast
  have n: "filter (new_failure ?A ?s) [0..<9] = [0]" "new_failure ?A ?s 0" "flag_after ?A ?s 0 = 1"
    by (simp_all add: upt_rec new_failure_def flag_after_def sys_init_def)
  have "(0 :: nat) < 9" by simp
  with n(2) have x: "\<exists>dev < 9. new_failure ?A ?s dev" by blast
  from md_stat_alarm [OF ok q(1) st a, unfolded n(1) q(2) if_P [OF x]] obtain s' where "md_stat raid_kernel ?s = Some (md_count s', s')"
    "\<forall>dev < 9. degraded s' ! dev = flag_after ?A ?s dev" "events s' = [] @ map (failure_event ?A) [0]" "leds_pqueue s' ! PHIGH = LEDON" by blast
  then show ?thesis using n(3) by (intro exI [of _ s']) simp
qed

end
