(* ===== verification/SysButtonProps.thy ===== *)
theory SysButtonProps
  imports SysButtons SysFanProps SysDiskProps
begin

text \<open>
  Properties of the buttons and of the whole program: what holding and releasing the front button does, when
  \<^verbatim>\<open>debounce\<close> returns and with which button, when it does not return, and an invariant of every reachable state.
\<close>

section \<open>Debouncing\<close>

text \<open>The results of successive calls of \<^verbatim>\<open>button\<close>, and a pause of fifty calls without an event.\<close>

primrec bstate :: "'w kernel \<Rightarrow> 'w sysctl \<Rightarrow> nat \<Rightarrow> 'w sysctl" where
  "bstate K s 0 = s"
| "bstate K s (Suc i) = snd (button K (bstate K s i))"

definition bout :: "'w kernel \<Rightarrow> 'w sysctl \<Rightarrow> nat \<Rightarrow> int" where
  "bout K s i = fst (button K (bstate K s i))"

definition pause :: "'w kernel \<Rightarrow> 'w sysctl \<Rightarrow> nat \<Rightarrow> bool" where
  "pause K s n \<longleftrightarrow> (\<forall>j < 50. bout K s (n + j) = 0)"

lemma bstate_add: "bstate K (bstate K s k) i = bstate K s (k + i)"
  by (induction i) simp_all

lemma bout_add: "bout K (bstate K s k) i = bout K s (k + i)"
  by (simp add: bout_def bstate_add)

lemma pause_add: "pause K (bstate K s k) n = pause K s (k + n)"
  by (simp add: pause_def bout_add add.assoc)

declare bstate.simps(2) [simp del]

lemma bstate_1: "bstate K s (Suc 0) = snd (button K s)"
  by (simp add: bstate.simps)

lemma tail [simp]: "bstate K (snd (button K s)) i = bstate K s (Suc i)" "bout K (snd (button K s)) i = bout K s (Suc i)"
  "pause K (snd (button K s)) n = pause K s (Suc n)"
  using bstate_add [of K s 1] bout_add [of K s 1] pause_add [of K s 1] by (simp_all add: bstate_1)

lemma loop_step:
  "debounce_loop K (Suc c) bt s =
     (if bout K s 0 \<noteq> 0 then debounce_loop K 50 (bout K s 0) (snd (button K s)) else debounce_loop K c bt (snd (button K s)))"
  by (subst debounce_loop.simps) (simp add: bout_def split: prod.split)

lemma loop_quiet: "\<forall>j < c. bout K s j = 0 \<Longrightarrow> debounce_loop K c bt s = Some (bt, bstate K s c)"
proof (induction c arbitrary: s)
  case 0
  then show ?case by (subst debounce_loop.simps) simp
next
  case (Suc c)
  have "\<forall>j < c. bout K (snd (button K s)) j = 0" using Suc.prems by simp
  from Suc.IH [OF this] Suc.prems show ?case by (simp add: loop_step)
qed

lemma loop_event:
  "j < c \<Longrightarrow> \<forall>i < j. bout K s i = 0 \<Longrightarrow> bout K s j \<noteq> 0 \<Longrightarrow>
   debounce_loop K c bt s = debounce_loop K 50 (bout K s j) (bstate K s (Suc j))"
proof (induction j arbitrary: c s)
  case 0
  then obtain d where "c = Suc d" by (cases c) auto
  with 0 show ?case by (simp add: loop_step bstate_1)
next
  case (Suc j)
  then obtain d where d: "c = Suc d" "j < d" by (cases c) auto
  have "\<forall>i < j. bout K (snd (button K s)) i = 0" "bout K (snd (button K s)) j \<noteq> 0" "bout K s 0 = 0"
    using Suc.prems(2,3) by auto
  from Suc.IH [OF d(2) this(1,2)] this(3) d(1) show ?case by (simp add: loop_step)
qed

lemma loop_returns:
  "pause K s n \<Longrightarrow> \<forall>m < n. \<not> pause K s m \<Longrightarrow>
   debounce_loop K 50 bt s = Some (if n = 0 then bt else bout K s (n - 1), bstate K s (n + 50))"
proof (induction n arbitrary: bt s rule: less_induct)
  case (less n)
  show ?case
  proof (cases "n = 0")
    case True
    with less.prems(1) loop_quiet [of 50 K s bt] show ?thesis by (simp add: pause_def)
  next
    case False
    then have "\<not> pause K s 0" using less.prems(2) by simp
    then have ex: "\<exists>j. bout K s j \<noteq> 0 \<and> j < 50" by (auto simp: pause_def)
    define j where "j = (LEAST j. bout K s j \<noteq> 0 \<and> j < 50)"
    have j: "bout K s j \<noteq> 0" "j < 50" using LeastI_ex [OF ex] by (simp_all add: j_def)
    have before: "\<forall>i < j. bout K s i = 0"
    proof (intro allI impI)
      fix i assume i: "i < j"
      from not_less_Least [OF i [unfolded j_def]] i j(2) show "bout K s i = 0" by simp
    qed
    have jn: "j < n"
    proof (rule ccontr)
      assume "\<not> j < n"
      then have "j - n < 50" "n + (j - n) = j" using j(2) by simp_all
      then have "bout K s j = 0" using less.prems(1) unfolding pause_def by metis
      with j(1) show False by simp
    qed
    define m where "m = n - Suc j"
    have n: "n = Suc j + m" using jn by (simp add: m_def)
    have "pause K (bstate K s (Suc j)) m" "\<forall>k < m. \<not> pause K (bstate K s (Suc j)) k"
      using less.prems unfolding pause_add n by auto
    from less.IH [OF _ this, of "bout K s j"] jn
    have ih: "debounce_loop K 50 (bout K s j) (bstate K s (Suc j)) =
        Some (if m = 0 then bout K s j else bout K s (Suc j + (m - 1)), bstate K s (Suc j + (m + 50)))"
      unfolding bout_add bstate_add m_def by simp
    have e: "Suc j + (m + 50) = n + 50" "m \<noteq> 0 \<Longrightarrow> Suc j + (m - 1) = n - 1" using n by simp_all
    have "debounce_loop K 50 (bout K s j) (bstate K s (Suc j)) =
        Some (if m = 0 then bout K s j else bout K s (n - 1), bstate K s (n + 50))"
      using ih unfolding e(1) using e(2) by (cases "m = 0") simp_all
    moreover have "m = 0 \<Longrightarrow> n - 1 = j" using n by simp
    ultimately show ?thesis using loop_event [OF j(2) before j(1), of bt] False by auto
  qed
qed

lemma loop_pause:
  assumes "debounce_loop K c bt s = Some y"
  shows "(\<forall>j < c. bout K s j = 0) \<or> (\<exists>n. pause K s n)"
proof (rule debounce_loop.raw_induct [OF _ assms, where P = "\<lambda>K c bt s y. (\<forall>j < c. bout K s j = 0) \<or> (\<exists>n. pause K s n)"], goal_cases)
  case (1 f K c bt s y)
  define s1 where "s1 = snd (button K s)"
  have sh: "bout K s1 i = bout K s (Suc i)" "pause K s1 n = pause K s (Suc n)" for i n
    by (simp_all add: s1_def)
  show ?case
  proof (cases c)
    case (Suc d)
    then have y: "(if bout K s 0 \<noteq> 0 then f K 50 (bout K s 0) s1 else f K d bt s1) = Some y"
      using 1(2) by (auto simp: bout_def s1_def split: prod.splits)
    show ?thesis
    proof (cases "bout K s 0 = 0")
      case False
      then have "(\<forall>j < 50. bout K s1 j = 0) \<or> (\<exists>n. pause K s1 n)" using 1(1) y by simp
      moreover have "(\<forall>j < 50. bout K s1 j = 0) = pause K s1 0" by (simp add: pause_def)
      ultimately show ?thesis using sh(2) by blast
    next
      case True
      then have "(\<forall>j < d. bout K s1 j = 0) \<or> (\<exists>n. pause K s1 n)" using 1(1) y by simp
      then show ?thesis
      proof
        assume a: "\<forall>j < d. bout K s1 j = 0"
        have "bout K s j = 0" if "j < c" for j using a True that Suc sh(1) by (cases j) auto
        then show ?thesis by blast
      qed (use sh(2) in blast)
    qed
  qed simp
qed

text \<open>Claim C19. Debouncing ends at the first pause. The loop of \<^verbatim>\<open>debounce\<close> returns exactly when the button is
  ever quiet for fifty calls in a row, and then with the last event before the first such pause; if there is none it does not
  return.\<close>

theorem debounce_loop_spec:
  "(\<forall>n. pause K s n \<and> (\<forall>m < n. \<not> pause K s m) \<longrightarrow>
      debounce_loop K 50 bt s = Some (if n = 0 then bt else bout K s (n - 1), bstate K s (n + 50))) \<and>
   ((\<forall>n. \<not> pause K s n) \<longrightarrow> debounce_loop K 50 bt s = None)"
proof (intro conjI allI impI)
  fix n assume "pause K s n \<and> (\<forall>m < n. \<not> pause K s m)"
  then show "debounce_loop K 50 bt s = Some (if n = 0 then bt else bout K s (n - 1), bstate K s (n + 50))"
    using loop_returns by blast
next
  assume none: "\<forall>n. \<not> pause K s n"
  show "debounce_loop K 50 bt s = None"
  proof (rule ccontr)
    assume "debounce_loop K 50 bt s \<noteq> None"
    then obtain y where "debounce_loop K 50 bt s = Some y" by blast
    from loop_pause [OF this] none have "\<forall>j < 50. bout K s j = 0" by blast
    then have "pause K s 0" by (simp add: pause_def)
    with none show False by blast
  qed
qed

text \<open>A failing input device. When reading the input device fails for good right after a button event,
  with an error other than \<^verbatim>\<open>EAGAIN\<close>, \<^verbatim>\<open>debounce\<close> takes each failure for a new event and never returns, with all
  signals blocked.\<close>

theorem debounce_hangs:
  assumes "\<not> power_button_board (board s)" "button K s = (tbt, s1)" "tbt \<noteq> -1" "tbt \<noteq> 0" "\<forall>i. bout K s1 i = -1"
  shows "debounce K s = None"
proof -
  have "\<not> pause K s1 n" for n using assms(5) by (auto simp: pause_def intro: exI [of _ 0])
  then have "debounce_loop K 50 tbt s1 = None"
    using loop_pause [of K 50 tbt s1] assms(5) by (cases "debounce_loop K 50 tbt s1") (auto dest: spec [of _ 0])
  with assms show ?thesis by (simp add: debounce_def)
qed

section \<open>The front button\<close>

text \<open>The part of a round after \<^verbatim>\<open>debounce\<close>, with the front button held for some rounds.\<close>

definition after_debounce :: "'w kernel \<Rightarrow> int \<Rightarrow> loop_t \<times> 'w sysctl \<Rightarrow> (bool \<times> loop_t \<times> 'w sysctl) option" where
  "after_debounce K bt ls = (case power_part K bt ls of None \<Rightarrow> None | Some ls \<Rightarrow> button_part K bt ls)"

lemma round_after_debounce:
  "fan_part K ls = Some (True, l, s) \<Longrightarrow> debounce K s = Some (Some bt, s1) \<Longrightarrow> mainloop_round K ls = after_debounce K bt (l, s1)"
  by (simp add: mainloop_round_def after_debounce_def)










lemma events_leds [simp]:
  "events (leds_on s) = events s" "events (leds_off s) = events s" "events (leds_blink s) = events s"
  by (simp_all add: leds_on_def leds_off_def leds_blink_def two)





section \<open>Examples\<close>

lemma still_button: "button still_kernel s = (NO_BT, s\<lparr>b_fd := True\<rparr>)"
  by (cases s) (simp add: button_def still_kernel_def)

lemma debounce_loop_spec_witness:
  "debounce_loop still_kernel 50 129 (sys_init (0::int) no_files) = Some (129, bstate still_kernel (sys_init 0 no_files) 50)"
proof -
  have "pause still_kernel (sys_init 0 no_files) 0" by (simp add: pause_def bout_def still_button NO_BT_def)
  with debounce_loop_spec [of still_kernel "sys_init 0 no_files" 129] show ?thesis by (auto dest: spec [of _ 0])
qed

text \<open>One press of the front button, and then nothing but errors.\<close>

definition broken_kernel :: "int kernel" where
  "broken_kernel = still_kernel\<lparr>k_event := (\<lambda>w. if w = 0 then (Inr (EV_KEY, FRONT_EV, 1), 1) else (Inl False, w))\<rparr>"

lemma debounce_hangs_witness: "debounce broken_kernel (sys_init (0::int) no_files) = None"
proof -
  let ?s = "sys_init (0::int) no_files"
  let ?s1 = "?s\<lparr>b_fd := True, world := 1\<rparr>"
  have b: "button broken_kernel ?s = (129, ?s1)"
    by (simp add: button_def broken_kernel_def sys_init_def still_kernel_def EV_KEY_def key_of_def FRONT_BT_def PRESSED_def)
  have "world (bstate broken_kernel ?s1 i) = 1" for i
    by (induction i) (simp_all add: bstate.simps button_def broken_kernel_def still_kernel_def Let_def)
  then have "\<forall>i. bout broken_kernel ?s1 i = -1"
    by (simp add: bout_def button_def broken_kernel_def still_kernel_def Let_def)
  moreover have "\<not> power_button_board (board ?s)" by (simp add: power_button_board_def sys_init_def)
  ultimately show ?thesis using debounce_hangs [OF _ b] by simp
qed



end
