(* ===== verification/SysInvariant.thy ===== *)
theory SysInvariant
  imports SysButtonProps
begin

text \<open>
  An invariant of \<^verbatim>\<open>sysctrl\<close> as a whole, for every state that the start, the rounds of the main loop, the signal
  handlers and changes outside can reach.
\<close>

section \<open>The invariant\<close>

definition core :: "'w sysctl \<Rightarrow> string option list \<times> int list \<times> nat \<times> (int \<times> int) \<times> int \<times> int list" where
  "core s = (leds s, leds_pqueue s, nslots s, (f_warn s, f_crit s), last_degraded s, degraded s)"

definition powers :: "'w sysctl \<Rightarrow> int list" where
  "powers s = List.map power_state (disks s)"

definition core_ok :: "'w sysctl \<Rightarrow> bool" where
  "core_ok s \<longleftrightarrow> length (leds s) = 4 \<and> nslots s \<le> 3 \<and> length (leds_pqueue s) = 3 \<and>
     (\<forall>m \<in> set (leds_pqueue s). led_mode_ok m) \<and> flags_ok s \<and> md_ok s"

definition sys_ok :: "'w sysctl \<Rightarrow> bool" where
  "sys_ok s \<longleftrightarrow> core_ok s \<and> length (powers s) = 3 \<and> (\<forall>p \<in> set (powers s). p \<in> {-1, 0, 1})"

lemma core_ok_core: "core s' = core s \<Longrightarrow> core_ok s' = core_ok s"
proof -
  assume "core s' = core s"
  then have e: "leds s' = leds s" "leds_pqueue s' = leds_pqueue s" "nslots s' = nslots s" "f_warn s' = f_warn s"
    "f_crit s' = f_crit s" "last_degraded s' = last_degraded s" "degraded s' = degraded s"
    unfolding core_def prod.inject by blast+
  show ?thesis unfolding core_ok_def flags_ok_def md_ok_def md_flags_def e by (rule refl)
qed

lemma sys_ok_core:
  "core s' = core s \<Longrightarrow> powers s' = powers s \<Longrightarrow> sys_ok s' = sys_ok s"
  by (simp add: sys_ok_def core_ok_core [of s' s])

section \<open>What keeps the core\<close>

lemma core_update [simp]:
  "core (s\<lparr>world := w\<rparr>) = core s" "core (s\<lparr>fs := f\<rparr>) = core s" "core (s\<lparr>events := e\<rparr>) = core s"
  "core (s\<lparr>args := a\<rparr>) = core s" "core (s\<lparr>b_bt := b\<rparr>) = core s" "core (s\<lparr>b_fd := c\<rparr>) = core s"
  "core (s\<lparr>ndisks := n\<rparr>) = core s" "core (s\<lparr>disks := d\<rparr>) = core s" "core (emit ev s) = core s"
  "core (s\<lparr>err_state := es\<rparr>) = core s" "core (s\<lparr>board := bd\<rparr>) = core s"
  by (simp_all add: core_def)

lemma powers_update [simp]:
  "powers (s\<lparr>world := w\<rparr>) = powers s" "powers (s\<lparr>fs := f\<rparr>) = powers s" "powers (s\<lparr>events := e\<rparr>) = powers s"
  "powers (s\<lparr>args := a\<rparr>) = powers s" "powers (s\<lparr>b_bt := b\<rparr>) = powers s" "powers (s\<lparr>b_fd := c\<rparr>) = powers s"
  "powers (s\<lparr>ndisks := n\<rparr>) = powers s" "powers (emit ev s) = powers s" "powers (s\<lparr>err_state := es\<rparr>) = powers s"
  "powers (s\<lparr>leds_pqueue := q\<rparr>) = powers s" "powers (s\<lparr>board := bd\<rparr>) = powers s" "powers (s\<lparr>leds := ls\<rparr>) = powers s"
  "powers (s\<lparr>nslots := ns\<rparr>) = powers s"
  by (simp_all add: powers_def)

lemma kept_syswrite [simp]: "core (syswrite f v s) = core s" "powers (syswrite f v s) = powers s"
  by (simp_all add: syswrite_def)

lemma kept_write_pwm [simp]: "core (write_pwm u s) = core s" "powers (write_pwm u s) = powers s"
  by (simp_all add: write_pwm_def)

lemma kept_led_set [simp]: "core (led_set i m s) = core s" "powers (led_set i m s) = powers s"
  by (simp_all add: led_set_def split: option.split)

lemma kept_led_blink [simp]: "core (led_blink i a b s) = core s" "powers (led_blink i a b s) = powers s"
  by (simp_all add: led_blink_def split: option.split)

lemma kept_leds [simp]:
  "core (leds_on s) = core s" "core (leds_off s) = core s" "core (leds_blink s) = core s"
  "powers (leds_on s) = powers s" "powers (leds_off s) = powers s" "powers (leds_blink s) = powers s"
  by (simp_all add: leds_on_def leds_off_def leds_blink_def two)

lemma kept_exec [simp]: "core (exec_userscript c a s) = core s" "powers (exec_userscript c a s) = powers s"
  by (simp_all add: exec_userscript_def split: option.split)

lemma kept_syserrorlog [simp]: "core (syserrorlog m s) = core s" "powers (syserrorlog m s) = powers s"
  by (simp_all add: syserrorlog_def)

lemma kept_poweroff [simp]:
  "core (poweroff s) = core s" "powers (poweroff s) = powers s" "core (reboot s) = core s" "powers (reboot s) = powers s"
  by (simp_all add: poweroff_def reboot_def)

lemma kept_button [simp]: "core (snd (button K s)) = core s" "powers (snd (button K s)) = powers s"
  by (simp_all add: button_def Let_def split: prod.splits sum.splits)

lemma kept_debounce_loop:
  assumes "debounce_loop K n bt s = Some y" shows "core (snd y) = core s \<and> powers (snd y) = powers s"
proof (rule debounce_loop.raw_induct [OF _ assms, where P = "\<lambda>K n bt s y. core (snd y) = core s \<and> powers (snd y) = powers s"],
    goal_cases)
  case (1 f K n bt s y)
  then show ?case using kept_button [of K s]
    by (cases "button K s") (auto split: if_splits)
qed

lemma kept_button': "button K s = (b, s') \<Longrightarrow> core s' = core s \<and> powers s' = powers s"
  using kept_button [of K s] by simp

lemma kept_debounce:
  assumes "debounce K s = Some (r, s')" shows "core s' = core s \<and> powers s' = powers s"
proof -
  obtain t s1 where b: "button K s = (t, s1)" by fastforce
  note k = kept_button' [OF b]
  show ?thesis
  proof (cases "debounce_loop K 50 t s1")
    case None
    then show ?thesis using assms b k by (auto simp: debounce_def split: if_splits)
  next
    case (Some y)
    from kept_debounce_loop [OF Some] show ?thesis using assms b k Some
      by (cases y) (auto simp: debounce_def split: if_splits)
  qed
qed

lemma kept_back_loop:
  assumes "back_loop K s = Some y" shows "core (snd y) = core s \<and> powers (snd y) = powers s"
proof (rule back_loop.raw_induct [OF _ assms, where P = "\<lambda>K s y. core (snd y) = core s \<and> powers (snd y) = powers s"], goal_cases)
  case (1 f K s y)
  obtain r s1 where d: "debounce K s = Some (r, s1)" using 1(2) by (auto split: option.splits)
  note k = kept_debounce [OF d]
  show ?case
  proof (cases r)
    case None
    with 1(2) d k show ?thesis by auto
  next
    case (Some bt)
    then have "f K s1 = Some y \<or> y = (True, s1)" using 1(2) d by (auto split: if_splits)
    with 1(1) k show ?thesis by fastforce
  qed
qed

lemma kept_back_action [simp]: "core (back_action n s) = core s" "powers (back_action n s) = powers s"
  by (simp_all add: back_action_def)

lemma kept_back_button:
  "back_button K s = Some (ok, s') \<Longrightarrow> core s' = core s \<and> powers s' = powers s"
  by (auto simp: back_button_def split: prod.splits option.splits bool.splits dest!: kept_back_loop)

section \<open>Disks, RAID, leds\<close>

lemma kept_check_powermode:
  "check_powermode K dev s = Some (r, s') \<Longrightarrow> core s' = core s \<and> disks s' = disks s \<and> powers s' = powers s \<and> r \<in> {-1, 0, 1}"
  by (auto simp: check_powermode_def Let_def split: if_splits prod.splits option.splits)

lemma powers_upd_disk: "powers (upd_disk i f s) = (if i < length (disks s) then (powers s)[i := power_state (f (disks s ! i))] else powers s)"
  by (auto simp: powers_def upd_disk_def map_update list_update_beyond)

lemma core_upd_disk [simp]: "core (upd_disk i f s) = core s"
  by (simp add: upd_disk_def)

lemma sys_ok_upd_disk:
  "sys_ok s \<Longrightarrow> power_state (f (disks s ! i)) \<in> {-1, 0, 1} \<Longrightarrow> sys_ok (upd_disk i f s)"
proof -
  assume a: "sys_ok s" "power_state (f (disks s ! i)) \<in> {-1, 0, 1}"
  have "set ((powers s)[i := power_state (f (disks s ! i))]) \<subseteq> insert (power_state (f (disks s ! i))) (set (powers s))"
    by (rule set_update_subset_insert)
  with a have "\<forall>p \<in> set (powers (upd_disk i f s)). p \<in> {-1, 0, 1}" "length (powers (upd_disk i f s)) = 3"
    by (auto simp: powers_upd_disk sys_ok_def)
  moreover have "core_ok (upd_disk i f s)" using a(1) core_ok_core [OF core_upd_disk [of i f s]] by (simp add: sys_ok_def)
  ultimately show ?thesis by (simp add: sys_ok_def)
qed

lemma power_state_ok: "sys_ok s \<Longrightarrow> i < 3 \<Longrightarrow> power_state (disks s ! i) \<in> {-1, 0, 1}"
  by (auto simp: sys_ok_def powers_def)

lemma idle_check_ok:
  assumes "idle_check K i dev s = Some (r, s')" "sys_ok s" "i < 3"
  shows "sys_ok s' \<and> r \<in> {-1, 0, 1}"
proof -
  obtain t w where t: "k_time K (world s) = (t, w)" by fastforce
  define s1 where "s1 = s\<lparr>world := w\<rparr>"
  have s1: "sys_ok s1" "disks s1 = disks s" using assms(2) sys_ok_core [of s1 s] by (simp_all add: s1_def)
  obtain n where n: "dstat dev s1 = Some n" using assms(1) t by (auto simp: idle_check_def Let_def s1_def split: option.splits)
  note ps = power_state_ok [OF assms(2,3)]
  have u: "sys_ok (upd_disk i (\<lambda>d. d\<lparr>rdwr_cnt := n, last_access := t\<rparr>) s1)"
    using ps s1 by (intro sys_ok_upd_disk) simp_all
  have sp: "sys_ok (spindown_disk K dev s1)" using s1(1) sys_ok_core [of "spindown_disk K dev s1" s1] by (simp add: spindown_disk_def)
  have "(r, s') \<in> {(1, upd_disk i (\<lambda>d. d\<lparr>rdwr_cnt := n, last_access := t\<rparr>) s1), (0, spindown_disk K dev s1), (power_state (disks s ! i), s1)}"
    using assms(1) t n s1(2) by (auto simp: idle_check_def Let_def s1_def split: if_splits)
  then show ?thesis using u sp s1(1) ps by auto
qed

lemma hdd_slot_ok:
  assumes "hdd_slot K noleds i (n, s) = Some (n', s')" "sys_ok s" "i < 3"
  shows "sys_ok s'"
proof (cases "dk_dev (disks s ! i)")
  case None
  with assms show ?thesis by (simp add: hdd_slot_def)
next
  case (Some dev)
  obtain p s1 where p: "check_powermode K dev s = Some (p, s1)" using assms(1) Some by (auto simp: hdd_slot_def bind_eq_Some_conv)
  note k = kept_check_powermode [OF p]
  have ok1: "sys_ok s1" using assms(2) sys_ok_core [of s1 s] k by simp
  obtain q s2 where q: "(if p = -1 \<and> spindow_time (disks s1 ! i) > 0 then idle_check K i dev s1 else Some (p, s1)) = Some (q, s2)"
    and s': "s' = upd_disk i (\<lambda>d. d\<lparr>power_state := q\<rparr>) (if power_state (disks s2 ! i) \<noteq> q then disk_leds i noleds q s2 else s2)"
    using assms(1) Some p by (auto simp: hdd_slot_def bind_eq_Some_conv Let_def)
  have ok2: "sys_ok s2 \<and> q \<in> {-1, 0, 1}"
    using q ok1 k assms(3) idle_check_ok [of K i dev s1 q s2] by (auto split: if_splits)
  have "sys_ok (disk_leds i noleds q s2)" using ok2 sys_ok_core [of "disk_leds i noleds q s2" s2] by (simp add: disk_leds_def)
  then show ?thesis unfolding s' using ok2 by (intro sys_ok_upd_disk) auto
qed

lemma hdd_slots_ok:
  "hdd_slots K noleds is a = Some a' \<Longrightarrow> sys_ok (snd a) \<Longrightarrow> \<forall>i \<in> set is. i < 3 \<Longrightarrow> sys_ok (snd a')"
proof (induction K noleds "is" a rule: hdd_slots.induct)
  case (2 K noleds i "is" a)
  obtain n s where a: "a = (n, s)" by fastforce
  then obtain n1 s1 where s1: "hdd_slot K noleds i (n, s) = Some (n1, s1)" "hdd_slots K noleds is (n1, s1) = Some a'"
    using 2(2) by (auto split: option.splits)
  have "sys_ok s1" using hdd_slot_ok [OF s1(1)] 2(3,4) a by simp
  with 2(1) [of "(n1, s1)"] s1 2(4) a show ?case by simp
qed simp

lemma power_led_step_ok: "power_led_step K n s = Some s' \<Longrightarrow> core s' = core s \<and> powers s' = powers s"
  by (auto simp: power_led_step_def split: option.splits prod.splits if_splits)

lemma hdd_powercheck_ok: "hdd_powercheck K noleds s = Some s' \<Longrightarrow> sys_ok s \<Longrightarrow> sys_ok s'"
proof -
  assume a: "hdd_powercheck K noleds s = Some s'" "sys_ok s"
  obtain n s1 where s1: "hdd_slots K noleds [0..<nslots s] (0, s) = Some (n, s1)" "power_led_step K n s1 = Some s'"
    using a(1) by (auto simp: hdd_powercheck_def bind_eq_Some_conv)
  have "nslots s \<le> 3" using a(2) by (simp add: sys_ok_def core_ok_def)
  with hdd_slots_ok [OF s1(1)] a(2) have "sys_ok s1" by simp
  with power_led_step_ok [OF s1(2)] sys_ok_core [of s' s1] show ?thesis by simp
qed


lemma md_device_kept:
  "md_device K dev (l, s) = Some (l', s') \<Longrightarrow> leds s' = leds s \<and> nslots s' = nslots s \<and> flags_ok s' = flags_ok s \<and>
     powers s' = powers s \<and> length (leds_pqueue s') = length (leds_pqueue s) \<and>
     set (leds_pqueue s') \<subseteq> insert LEDON (set (leds_pqueue s))"
proof -
  assume a: "md_device K dev (l, s) = Some (l', s')"
  have q: "set ((leds_pqueue s)[PHIGH := LEDON]) \<subseteq> insert LEDON (set (leds_pqueue s))" by (rule set_update_subset_insert)
  have alarm: "leds (md_alarm dev lv s) = leds s" "nslots (md_alarm dev lv s) = nslots s" "flags_ok (md_alarm dev lv s) = flags_ok s"
    "powers (md_alarm dev lv s) = powers s" "leds_pqueue (md_alarm dev lv s) = (leds_pqueue s)[PHIGH := LEDON]" for lv
    by (simp_all add: md_alarm_def set_degraded_def leds_set_def syserrorlog_def flags_ok_def powers_def)
  have deg: "leds (set_degraded dev 0 s) = leds s" "nslots (set_degraded dev 0 s) = nslots s" "flags_ok (set_degraded dev 0 s) = flags_ok s"
    "powers (set_degraded dev 0 s) = powers s" "leds_pqueue (set_degraded dev 0 s) = leds_pqueue s"
    by (simp_all add: set_degraded_def flags_ok_def powers_def)
  consider "s' = s" | "s' = set_degraded dev 0 s" | lv where "s' = md_alarm dev lv s" using md_device_cases [OF a] by blast
  then show ?thesis
  proof cases
    case 1 then show ?thesis by auto
  next
    case 2 then show ?thesis unfolding 2 deg by auto
  next
    case 3 then show ?thesis unfolding 3 alarm using q by simp
  qed
qed

lemma md_devices_kept:
  "md_devices K devs a = Some a' \<Longrightarrow> leds (snd a') = leds (snd a) \<and> nslots (snd a') = nslots (snd a) \<and>
     flags_ok (snd a') = flags_ok (snd a) \<and> powers (snd a') = powers (snd a) \<and>
     length (leds_pqueue (snd a')) = length (leds_pqueue (snd a)) \<and> set (leds_pqueue (snd a')) \<subseteq> insert LEDON (set (leds_pqueue (snd a)))"
proof (induction K devs a rule: md_devices.induct)
  case (2 K dev devs a)
  obtain l s where a: "a = (l, s)" by fastforce
  then obtain l1 s1 where s1: "md_device K dev (l, s) = Some (l1, s1)" "md_devices K devs (l1, s1) = Some a'"
    using 2(2) by (auto split: option.splits)
  from md_device_kept [OF s1(1)] 2(1) [OF s1(1) [folded a] s1(2)] a show ?case by auto
qed auto

lemma led_mode_consts [simp]: "led_mode_ok LEDON" "led_mode_ok LEDOFF" "led_mode_ok NA"
  by (simp_all add: led_mode_ok_def)

lemma queue_set: "set (leds_pqueue (leds_set i m s)) \<subseteq> insert m (set (leds_pqueue s))"
  by (simp add: leds_set_def set_update_subset_insert)

lemma md_stat_ok: "md_stat K s = Some (r, s') \<Longrightarrow> sys_ok s \<Longrightarrow> sys_ok s'"
proof -
  assume a: "md_stat K s = Some (r, s')" "sys_ok s"
  show "sys_ok s'"
  proof (cases "k_stat K ''/proc/mdstat'' (world s) = None")
    case True
    with a show ?thesis by (simp add: md_stat_def)
  next
    case False
    then have f: "k_stat K ''/proc/mdstat'' (world s) \<noteq> None" by blast
    have md: "md_ok s'" using md_stat_alarm_rule [OF _ a(1) f] a(2) by (simp add: sys_ok_def core_ok_def)
    obtain l s1 where d: "md_devices K [0..<9] ((None, None, k_uninit K (world s)), s) = Some (l, s1)"
      and s': "s' = s1 \<or> s' = leds_set PHIGH LEDOFF (s1\<lparr>last_degraded := 0\<rparr>)"
      using a(1) f by (auto simp: md_stat_def bind_eq_Some_conv split: if_splits)
    note k = md_devices_kept [OF d, simplified]
    have q: "length (leds_pqueue s') = 3" "set (leds_pqueue s') \<subseteq> {LEDON, LEDOFF} \<union> set (leds_pqueue s)"
      using s' k a(2) queue_set [of PHIGH LEDOFF "s1\<lparr>last_degraded := 0\<rparr>"]
      by (auto simp: sys_ok_def core_ok_def) (auto simp: leds_set_def)
    have o: "leds s' = leds s" "nslots s' = nslots s" "flags_ok s' = flags_ok s" "powers s' = powers s"
      using s' k by (auto simp: leds_set_def flags_ok_def powers_def)
    from q(2) a(2) have "\<forall>m \<in> set (leds_pqueue s'). led_mode_ok m" by (auto simp: sys_ok_def core_ok_def)
    with q(1) o md a(2) show ?thesis by (simp add: sys_ok_def core_ok_def)
  qed
qed

text \<open>A new queue with valid entries.\<close>

lemma sys_ok_queue:
  "sys_ok s \<Longrightarrow> leds s' = leds s \<Longrightarrow> nslots s' = nslots s \<Longrightarrow> flags_ok s' = flags_ok s \<Longrightarrow> md_ok s' = md_ok s \<Longrightarrow>
   powers s' = powers s \<Longrightarrow> length (leds_pqueue s') = 3 \<Longrightarrow> \<forall>m \<in> set (leds_pqueue s'). led_mode_ok m \<Longrightarrow> sys_ok s'"
  by (simp add: sys_ok_def core_ok_def)

lemma leds_set_ok:
  assumes "sys_ok s" "led_mode_ok m" shows "sys_ok (leds_set i m s)"
proof (rule sys_ok_queue [OF assms(1)])
  show "\<forall>m \<in> set (leds_pqueue (leds_set i m s)). led_mode_ok m"
    using queue_set [of i m s] assms by (auto simp: sys_ok_def core_ok_def)
  show "length (leds_pqueue (leds_set i m s)) = 3" using assms(1) by (simp add: leds_set_def sys_ok_def core_ok_def)
qed (simp_all add: leds_set_def flags_ok_def md_ok_def md_flags_def powers_def)

lemma check_syserrlog_ok: "check_syserrlog K s = (r, s') \<Longrightarrow> sys_ok s \<Longrightarrow> sys_ok s'"
proof -
  assume a: "check_syserrlog K s = (r, s')" "sys_ok s"
  have e: "sys_ok (s\<lparr>err_state := x\<rparr>)" for x using a(2) sys_ok_core [of "s\<lparr>err_state := x\<rparr>" s] by simp
  have "s' = s \<or> s' = leds_set PLOW LEDOFF (s\<lparr>err_state := 0\<rparr>) \<or> s' = leds_set PLOW LEDON (s\<lparr>err_state := 1\<rparr>)"
    using a(1) by (auto simp: check_syserrlog_def Let_def split: if_splits option.splits)
  then show ?thesis using a(2) leds_set_ok [OF e] by auto
qed

lemma leds_proc_step_ok: "sys_ok s \<Longrightarrow> i < 3 \<Longrightarrow> sys_ok (leds_proc_step i s)"
proof -
  assume a: "sys_ok s" "i < 3"
  have on: "sys_ok (leds_on s)" "sys_ok (leds_blink s)" using a(1) sys_ok_core [of "leds_on s" s] sys_ok_core [of "leds_blink s" s] by simp_all
  have off: "sys_ok (leds_set i NA (leds_off s))"
    using a(1) sys_ok_core [of "leds_off s" s] by (intro leds_set_ok) simp_all
  have "(leds_off s)\<lparr>leds_pqueue := (leds_pqueue s)[i := NA]\<rparr> = leds_set i NA (leds_off s)"
    by (simp add: leds_set_def)
  with a on off show ?thesis by (simp add: leds_proc_step_def Let_def)
qed

lemma leds_proc_ok: "sys_ok s \<Longrightarrow> sys_ok (leds_proc s)"
  unfolding leds_proc_def three by (simp add: leds_proc_step_ok)


section \<open>Rounds\<close>

lemma first_inside_kept:
  "first_inside s s' \<Longrightarrow> core s' = core s \<and> powers s' = powers s"
  by (cases s; cases s') (simp add: first_inside_def same_inside_def core_def powers_def)

lemma md_ok_cong: "last_degraded s' = last_degraded s \<Longrightarrow> degraded s' = degraded s \<Longrightarrow> md_ok s' = md_ok s"
  unfolding md_ok_def md_flags_def by simp

lemma fan_control_kept:
  assumes "fan_control stemp dtemp s = Some s'"
  shows "leds s' = leds s \<and> nslots s' = nslots s \<and> leds_pqueue s' = leds_pqueue s \<and>
     last_degraded s' = last_degraded s \<and> degraded s' = degraded s \<and> disks s' = disks s"
proof -
  define s1 where "s1 = s\<lparr>f_temp := smooth stemp dtemp (f_temp s)\<rparr>"
  obtain due where due: "fan_log_due (read_fan s1) s1 = Some due"
    using assms unfolding fan_control_def Let_def s1_def [symmetric] by (auto simp: bind_eq_Some_conv)
  define s2 where "s2 = (if due then fanlog stemp dtemp (read_pwm s1) (read_fan s1) (s1\<lparr>f_log_temp := f_temp s1, f_log_fan := read_fan s1\<rparr>) else s1)"
  obtain pwm where s': "s' = fan_crit (read_fan s1) (fan_warn (read_fan s1) (write_pwm pwm s2))"
    using assms unfolding fan_control_def Let_def s1_def [symmetric] due bind.bind_lunit s2_def [symmetric]
    by (auto simp: bind_eq_Some_conv)
  show ?thesis unfolding s' fan_crit_eq fan_warn_eq by (simp add: write_pwm_def s2_def fanlog_def s1_def)
qed

lemma fanctl_ok: "fanctl K s = Some (True, s') \<Longrightarrow> sys_ok s \<Longrightarrow> sys_ok s'"
proof -
  assume a: "fanctl K s = Some (True, s')" "sys_ok s"
  obtain u dtemp s1 where s1: "first_inside s s1" "fan_control (c_trunc (of_int u / 1000)) dtemp s1 = Some s'"
    using a(1) by (rule fanctl_parts)
  have ok1: "sys_ok s1" using first_inside_kept [OF s1(1)] sys_ok_core [of s1 s] a(2) by simp
  have "fan_round K s = Some s'" using a(1) by (simp add: fan_round_def)
  with a(2) have "flags_ok s'" using flags_step by (auto simp: sys_ok_def core_ok_def)
  moreover note k = fan_control_kept [OF s1(2)]
  moreover have "md_ok s' = md_ok s1" using k md_ok_cong by blast
  ultimately show ?thesis using ok1 by (simp add: sys_ok_def core_ok_def powers_def)
qed

lemma fan_part_ok: "fan_part K (l, s) = Some (True, l', s') \<Longrightarrow> sys_ok s \<Longrightarrow> sys_ok s'"
  by (auto simp: fan_part_def Let_def fanctl_ok split: if_splits)

lemma power_part_ok: "power_part K bt (l, s) = Some (l', s') \<Longrightarrow> sys_ok s \<Longrightarrow> sys_ok s'"
proof -
  assume a: "power_part K bt (l, s) = Some (l', s')" "sys_ok s"
  show "sys_ok s'"
  proof (cases "(powercheck_count l + 1) mod powercheck_interval = 0 \<and> bt = NO_BT")
    case False
    with a show ?thesis by (auto simp: power_part_def Let_def)
  next
    case True
    obtain s1 r s2 where s1: "hdd_powercheck K 0 s = Some s1" "md_stat K s1 = Some (r, s2)"
      and s': "s' = leds_proc (snd (check_syserrlog K s2))"
      using a(1) True by (auto simp: power_part_def Let_def bind_eq_Some_conv case_prod_beta)
    have "sys_ok s2" using a(2) hdd_powercheck_ok [OF s1(1)] md_stat_ok [OF s1(2)] by simp
    then show ?thesis unfolding s' using check_syserrlog_ok [of K s2 "fst (check_syserrlog K s2)" "snd (check_syserrlog K s2)"]
      by (intro leds_proc_ok) simp
  qed
qed

lemma front_state_kept: "front_state bt (l, s) = (go, l', s') \<Longrightarrow> core s' = core s \<and> powers s' = powers s"
  by (auto simp: front_state_def split: if_splits)

lemma button_part_kept: "button_part K bt (l, s) = Some (go, l', s') \<Longrightarrow> core s' = core s \<and> powers s' = powers s"
  by (auto simp: button_part_def Let_def split: if_splits dest!: kept_back_button front_state_kept)

lemma mainloop_round_ok:
  assumes "mainloop_round K (l, s) = Some (True, l', s')" "sys_ok s" shows "sys_ok s'"
proof -
  obtain l1 s1 where s1: "fan_part K (l, s) = Some (True, l1, s1)"
    using assms(1) by (auto simp: mainloop_round_def split: option.splits bool.splits prod.splits)
  obtain bt s2 where s2: "debounce K s1 = Some (Some bt, s2)"
    using assms(1) s1 by (auto simp: mainloop_round_def split: option.splits)
  obtain l3 s3 where s3: "power_part K bt (l1, s2) = Some (l3, s3)" "button_part K bt (l3, s3) = Some (True, l', s')"
    using assms(1) s1 s2 by (auto simp: mainloop_round_def split: option.splits)
  have "sys_ok s1" using fan_part_ok [OF s1 assms(2)] .
  then have "sys_ok s2" using kept_debounce [OF s2] sys_ok_core [of s2 s1] by simp
  then have "sys_ok s3" by (rule power_part_ok [OF s3(1)])
  then show ?thesis using button_part_kept [OF s3(2)] sys_ok_core [of s' s3] by simp
qed

section \<open>Signals and start\<close>

lemma set_disk_kept:
  "(\<And>d. power_state (f d) = power_state d) \<Longrightarrow> powers (set_disk i f s) = powers s \<and> core (set_disk i f s) = core s"
  by (cases "i < length (disks s)") (auto simp: set_disk_def powers_def map_update list_update_beyond intro: list_update_same_conv [THEN iffD2])

lemma config_lines_kept: "config_lines K ls s = Some s' \<Longrightarrow> core s' = core s \<and> powers s' = powers s"
  by (induction K ls s rule: config_lines.induct) (auto simp: config_line_def Let_def split: option.splits if_splits)

lemma read_config_kept: "read_config K s = Some s' \<Longrightarrow> core s' = core s \<and> powers s' = powers s"
  by (auto simp: read_config_def config_lines_kept split: option.splits)

lemma misc_lines_kept: "misc_lines ls sl s = Some s' \<Longrightarrow> core s' = core s \<and> powers s' = powers s"
proof (induction ls sl s rule: misc_lines.induct)
  case (2 l ls sl s)
  have k: "core (set_disk i (\<lambda>d. d\<lparr>spindow_time := t\<rparr>) s) = core s" "powers (set_disk i (\<lambda>d. d\<lparr>spindow_time := t\<rparr>) s) = powers s" for i t
    using set_disk_kept [of "\<lambda>d. d\<lparr>spindow_time := t\<rparr>" i s] by simp_all
  show ?case
  proof (cases "split_assignment l")
    case None
    with 2 show ?thesis by simp
  next
    case (Some a)
    obtain cmd val rest where a: "a = (cmd, val, rest)" by (cases a)
    define sl' where "sl' = scan_int val sl"
    define slot where "slot = (if cmd = ''HDSLEEP_LEFT'' then Some left_dev else if cmd = ''HDSLEEP_RIGHT'' then Some right_dev
                    else if cmd = ''HDSLEEP_USB'' then Some usb_dev else None)"
    note ih = 2(2) [OF Some, unfolded a, OF refl refl refl, folded sl'_def, folded slot_def]
      2(3) [OF Some, unfolded a, OF refl refl refl, folded sl'_def, folded slot_def]
    have eq: "misc_lines (l # ls) sl s = (case slot of None \<Rightarrow> misc_lines ls sl' s
         | Some i \<Rightarrow> if sl' * 60 < - (2 ^ 31) \<or> 2 ^ 31 \<le> sl' * 60 then None
             else misc_lines ls sl' (set_disk i (\<lambda>d. d\<lparr>spindow_time := sl' * 60\<rparr>) s))"
      by (simp only: misc_lines.simps Some a option.case prod.case Let_def sl'_def slot_def)
    show ?thesis
    proof (cases slot)
      case None
      with 2(4) eq ih(1) show ?thesis by simp
    next
      case (Some i)
      with 2(4) eq ih(2) [OF refl Some] k show ?thesis by (auto split: if_splits)
    qed
  qed
qed simp

lemma powers_take_map:
  "(\<And>d. power_state (f d) = power_state d) \<Longrightarrow> powers (s\<lparr>disks := List.map f (take n (disks s)) @ drop n (disks s)\<rparr>) = powers s"
proof -
  assume f: "\<And>d. power_state (f d) = power_state d"
  have "List.map power_state (List.map f (take n (disks s)) @ drop n (disks s)) = List.map power_state (take n (disks s) @ drop n (disks s))"
    by (simp only: map_append map_map comp_def f)
  then show ?thesis by (simp only: append_take_drop_id) (simp add: powers_def)
qed

lemma read_misc_kept: "read_misc K s = Some s' \<Longrightarrow> core s' = core s \<and> powers s' = powers s"
  using powers_take_map [of "\<lambda>d. d\<lparr>spindow_time := 0\<rparr>" "nslots s" s]
  by (auto simp: read_misc_def split: option.splits dest!: misc_lines_kept)

lemma bay_line_kept: "core (bay_line l s) = core s \<and> powers (bay_line l s) = powers s"
proof -
  have k: "core (set_disk i (\<lambda>d. d\<lparr>dk_dev := Some dev, dk_slot := slot\<rparr>) s) = core s"
    "powers (set_disk i (\<lambda>d. d\<lparr>dk_dev := Some dev, dk_slot := slot\<rparr>) s) = powers s" for i dev slot
    using set_disk_kept [of "\<lambda>d. d\<lparr>dk_dev := Some dev, dk_slot := slot\<rparr>" i s] by simp_all
  show ?thesis by (auto simp: bay_line_def Let_def k split: option.split)
qed

lemma read_bay_kept: "core (read_bay s) = core s \<and> powers (read_bay s) = powers s"
proof -
  have f: "core (fold bay_line ls s) = core s \<and> powers (fold bay_line ls s) = powers s" for ls and s :: "'a sysctl"
    by (induction ls arbitrary: s) (simp_all add: bay_line_kept)
  have p: "powers (s\<lparr>disks := List.map (\<lambda>d. d\<lparr>dk_dev := None\<rparr>) (take (nslots s) (disks s)) @ drop (nslots s) (disks s), ndisks := 0\<rparr>) = powers s"
    using powers_take_map [of "\<lambda>d. d\<lparr>dk_dev := None\<rparr>" "nslots s" s] by (simp add: powers_def)
  show ?thesis using f p by (auto simp: read_bay_def split: option.split)
qed

lemma on_signal_kept: "on_signal K sig s = Some (go, s') \<Longrightarrow> core s' = core s \<and> powers s' = powers s"
  using read_bay_kept [of s]
  by (auto simp: on_signal_def quit_handler_def sighup_handler_def inotify_handler_def bind_eq_Some_conv read_bay_kept
      split: signal.splits if_splits dest!: read_config_kept read_misc_kept)

lemma main_start_ok: "main_start K w f = Some (True, s) \<Longrightarrow> sys_ok s"
proof -
  assume a: "main_start K w f = Some (True, s)"
  define s0 where "s0 = (sys_init w f)\<lparr>disks := replicate NSLOTS empty_disk\<rparr>"
  obtain s1 where s1: "check_board s0 = (s1, True)" using a by (auto simp: main_start_def s0_def split: prod.splits if_splits)
  define s2 where "s2 = s1\<lparr>disks := List.map (\<lambda>d. d\<lparr>power_state := 1\<rparr>) (take (nslots s1) (disks s1)) @ drop (nslots s1) (disks s1)\<rparr>"
  obtain s3 s4 where s3: "read_misc K (read_bay s2) = Some s3" "read_config K s3 = Some s4" "s = leds_off s4"
    using a s1 by (auto simp: main_start_def s0_def s2_def bind_eq_Some_conv Let_def)
  have b: "disks s1 = disks s0" "leds_pqueue s1 = leds_pqueue s0" "length (leds s1) = length (leds s0)" "nslots s1 = NSLOTS \<or> nslots s1 = 2"
    "f_warn s1 = f_warn s0" "f_crit s1 = f_crit s0" "last_degraded s1 = last_degraded s0" "degraded s1 = degraded s0"
  proof -
    obtain res bd nl n g where r: "map_of board_table res = Some (bd, nl, n, g)"
      and e: "s1 = s0\<lparr>board := bd, leds := (if nl then (leds s0)[usb_led := None] else leds s0), nslots := n, args := g (args s0)\<rparr>"
      using s1 unfolding check_board_def by (auto split: option.splits)
    have "n = NSLOTS \<or> n = 2" using map_of_SomeD [OF r] unfolding board_table_def by auto
    with e show "disks s1 = disks s0" "leds_pqueue s1 = leds_pqueue s0" "length (leds s1) = length (leds s0)" "nslots s1 = NSLOTS \<or> nslots s1 = 2"
      "f_warn s1 = f_warn s0" "f_crit s1 = f_crit s0" "last_degraded s1 = last_degraded s0" "degraded s1 = degraded s0"
      by simp_all
  qed
  have i: "sys_ok s2"
  proof -
    have "powers s2 = [1, 1, 1] \<or> powers s2 = [1, 1, 0]"
      using b(1,4) by (auto simp: s2_def powers_def s0_def NSLOTS_def empty_disk_def eval_nat_numeral)
    then have "length (powers s2) = 3" "\<forall>p \<in> set (powers s2). p \<in> {-1, 0, 1}" by auto
    moreover have "core_ok s1"
    proof -
      have "md_ok s0" by (simp add: md_ok_def md_flags_def s0_def sys_init_def)
      then have "md_ok s1" using md_ok_cong [OF b(7,8)] by simp
      moreover have "flags_ok s1" using b(5,6) by (simp add: flags_ok_def s0_def sys_init_def)
      moreover have "length (leds s1) = 4" "leds_pqueue s1 = [LEDOFF, LEDOFF, LEDOFF]" "nslots s1 \<le> 3"
        using b(2-4) by (auto simp: s0_def sys_init_def default_leds_def NSLOTS_def)
      ultimately show ?thesis by (simp add: core_ok_def)
    qed
    moreover have "core s2 = core s1" by (simp add: s2_def)
    ultimately show ?thesis using core_ok_core [of s2 s1] by (simp add: sys_ok_def)
  qed
  have "core s = core s2" "powers s = powers s2"
    using s3 read_bay_kept [of s2] read_misc_kept [OF s3(1)] read_config_kept [OF s3(2)] by simp_all
  with i show ?thesis using sys_ok_core [of s s2] by simp
qed

section \<open>Every reachable state\<close>

lemma sys_step_ok: "sys_step K ls ls' \<Longrightarrow> sys_ok (snd ls) \<Longrightarrow> sys_ok (snd ls')"
proof (induction rule: sys_step.induct)
  case (round ls ls')
  then show ?case by (cases ls; cases ls') (auto dest: mainloop_round_ok)
next
  case (signal sig s s' l)
  then show ?case using on_signal_kept [OF signal(1)] sys_ok_core [of s' s] by simp
next
  case (outside l s f w)
  then show ?case using sys_ok_core [of "s\<lparr>world := w, fs := f\<rparr>" s] by simp
qed

text \<open>Claim C2. The invariant of the program. In every state that \<^verbatim>\<open>sysctrl\<close> can reach, by rounds of its loop, by signals
  and whatever happens outside, the tables have their sizes, the led queue holds valid requests, every disk is active, in
  standby or unknown, the warning flags are 0 or 1, and the RAID alarm flag is up exactly while an array is
  marked as degraded.\<close>

theorem sys_invariant:
  assumes "sys_reach K (l, s)"
  shows "length (leds s) = 4 \<and> length (disks s) = 3 \<and> nslots s \<le> 3 \<and> length (leds_pqueue s) = 3 \<and>
    (\<forall>m \<in> set (leds_pqueue s). m \<in> {NA, LEDOFF, LEDON, LEDBLINK}) \<and>
    (\<forall>d \<in> set (disks s). power_state d \<in> {-1, 0, 1}) \<and> f_warn s \<in> {0, 1} \<and> f_crit s \<in> {0, 1} \<and>
    (last_degraded s = 1 \<longleftrightarrow> (\<exists>i < 9. degraded s ! i = 1))"
proof -
  have "sys_reach K ls \<Longrightarrow> sys_ok (snd ls)" for ls
    by (induction rule: sys_reach.induct) (auto intro: main_start_ok sys_step_ok)
  from this [OF assms] show ?thesis
    by (auto simp: sys_ok_def core_ok_def powers_def flags_ok_def md_ok_def led_mode_ok_def)
qed


definition start_files :: sysfs where
  "start_files = no_files\<lparr>sf_files := (sf_files no_files)(''/tmp/board'' \<mapsto> ''DNS-325-Ax'' @ [CHR 0x0A])\<rparr>"

lemma sys_invariant_witness:
  "\<exists>s. sys_reach still_kernel (loop_init, s) \<and> length (leds s) = 4 \<and> length (disks s) = 3 \<and> nslots s \<le> 3"
proof -
  have "map_option fst (main_start still_kernel 0 start_files) = Some True" by code_simp
  then obtain s where "main_start still_kernel 0 start_files = Some (True, s)" by auto
  then have r: "sys_reach still_kernel (loop_init, s)" by (rule sys_reach.start)
  from sys_invariant [OF r] r show ?thesis by blast
qed

end
