(* ===== verification/KExpr.thy ===== *)
theory KExpr
  imports Prelude "HOL-Library.Monad_Syntax"
begin

text \<open>
  The dependency expressions of the configuration tool (\<^verbatim>\<open>package/config/expr.h\<close>, \<^verbatim>\<open>expr.c\<close>): data, values,
  and the operations that build, compare and simplify them. An expression is a tree without null pointers; the null
  pointer that stands for a missing dependency is \<open>None\<close>. The nodes \<^verbatim>\<open>E_LIST\<close> and \<^verbatim>\<open>E_RANGE\<close> of choices and ranges are
  not dependency expressions and do not occur here. The parameter \<open>symtab\<close> is what the operations look up in a symbol.
\<close>

section \<open>Data\<close>

datatype tristate = No | Mod | Yes

instantiation tristate :: linorder
begin

definition tri_num :: "tristate \<Rightarrow> nat" where
  "tri_num t = (case t of No \<Rightarrow> 0 | Mod \<Rightarrow> 1 | Yes \<Rightarrow> 2)"

definition less_eq_tristate :: "tristate \<Rightarrow> tristate \<Rightarrow> bool" where
  "less_eq_tristate a b = (tri_num a \<le> tri_num b)"

definition less_tristate :: "tristate \<Rightarrow> tristate \<Rightarrow> bool" where
  "less_tristate a b = (tri_num a < tri_num b)"

instance
  by standard (auto simp: less_eq_tristate_def less_tristate_def tri_num_def split: tristate.splits)

end

definition EXPR_OR :: "tristate \<Rightarrow> tristate \<Rightarrow> tristate" where
  "EXPR_OR dep1 dep2 = (if dep1 > dep2 then dep1 else dep2)"

definition EXPR_AND :: "tristate \<Rightarrow> tristate \<Rightarrow> tristate" where
  "EXPR_AND dep1 dep2 = (if dep1 < dep2 then dep1 else dep2)"

definition EXPR_NOT :: "tristate \<Rightarrow> tristate" where
  "EXPR_NOT dep = (case dep of No \<Rightarrow> Yes | Mod \<Rightarrow> Mod | Yes \<Rightarrow> No)"

text \<open>A symbol is one of the three constants or another one, known by its address.\<close>

datatype symbol = symbol_yes | symbol_mod | symbol_no | Sym nat

datatype symbol_type = S_UNKNOWN | S_BOOLEAN | S_TRISTATE | S_INT | S_HEX | S_STRING | S_OTHER

record symtab =
  sym_type :: "symbol \<Rightarrow> symbol_type"
  sym_const :: "symbol \<Rightarrow> bool"
  sym_name :: "symbol \<Rightarrow> string option"

datatype expr = E_OR expr expr | E_AND expr expr | E_NOT expr | E_EQUAL symbol symbol | E_UNEQUAL symbol symbol
  | E_SYMBOL symbol

datatype expr_type = T_NONE | T_OR | T_AND | T_NOT | T_EQUAL | T_UNEQUAL | T_LIST | T_SYMBOL | T_RANGE

definition type_of :: "expr \<Rightarrow> expr_type" where
  "type_of e = (case e of E_OR _ _ \<Rightarrow> T_OR | E_AND _ _ \<Rightarrow> T_AND | E_NOT _ \<Rightarrow> T_NOT | E_EQUAL _ _ \<Rightarrow> T_EQUAL
     | E_UNEQUAL _ _ \<Rightarrow> T_UNEQUAL | E_SYMBOL _ \<Rightarrow> T_SYMBOL)"

lemma type_of_simps [simp]:
  "type_of (E_OR a b) = T_OR" "type_of (E_AND a b) = T_AND" "type_of (E_NOT a) = T_NOT" "type_of (E_EQUAL s t) = T_EQUAL"
  "type_of (E_UNEQUAL s t) = T_UNEQUAL" "type_of (E_SYMBOL s) = T_SYMBOL"
  by (simp_all add: type_of_def)

section \<open>Values\<close>

text \<open>The current value of a symbol, after \<^verbatim>\<open>sym_calc_value\<close>.\<close>

record symbol_value =
  val :: string
  tri :: tristate

definition tri_string :: "tristate \<Rightarrow> string" where
  "tri_string t = (case t of No \<Rightarrow> ''n'' | Mod \<Rightarrow> ''m'' | Yes \<Rightarrow> ''y'')"

definition sym_get_string_value :: "symtab \<Rightarrow> (symbol \<Rightarrow> symbol_value) \<Rightarrow> symbol \<Rightarrow> string" where
  "sym_get_string_value T v s = (if sym_type T s = S_BOOLEAN \<or> sym_type T s = S_TRISTATE then tri_string (tri (v s)) else val (v s))"

fun calc_value :: "symtab \<Rightarrow> (symbol \<Rightarrow> symbol_value) \<Rightarrow> expr \<Rightarrow> tristate" where
  "calc_value T v (E_SYMBOL s) = tri (v s)"
| "calc_value T v (E_AND a b) = EXPR_AND (calc_value T v a) (calc_value T v b)"
| "calc_value T v (E_OR a b) = EXPR_OR (calc_value T v a) (calc_value T v b)"
| "calc_value T v (E_NOT a) = EXPR_NOT (calc_value T v a)"
| "calc_value T v (E_EQUAL a b) = (if sym_get_string_value T v a = sym_get_string_value T v b then Yes else No)"
| "calc_value T v (E_UNEQUAL a b) = (if sym_get_string_value T v a = sym_get_string_value T v b then No else Yes)"

definition expr_calc_value :: "symtab \<Rightarrow> (symbol \<Rightarrow> symbol_value) \<Rightarrow> expr option \<Rightarrow> tristate" where
  "expr_calc_value T v e = (case e of None \<Rightarrow> Yes | Some e \<Rightarrow> calc_value T v e)"

section \<open>Building\<close>

definition expr_alloc_and :: "expr option \<Rightarrow> expr option \<Rightarrow> expr option" where
  "expr_alloc_and e1 e2 = (case e1 of None \<Rightarrow> e2 | Some a \<Rightarrow> (case e2 of None \<Rightarrow> e1 | Some b \<Rightarrow> Some (E_AND a b)))"

definition expr_alloc_or :: "expr option \<Rightarrow> expr option \<Rightarrow> expr option" where
  "expr_alloc_or e1 e2 = (case e1 of None \<Rightarrow> e2 | Some a \<Rightarrow> (case e2 of None \<Rightarrow> e1 | Some b \<Rightarrow> Some (E_OR a b)))"

definition expr_is_yes :: "expr option \<Rightarrow> bool" where
  "expr_is_yes e = (case e of None \<Rightarrow> True | Some e \<Rightarrow> e = E_SYMBOL symbol_yes)"

definition expr_is_no :: "expr option \<Rightarrow> bool" where
  "expr_is_no e = (case e of None \<Rightarrow> False | Some e \<Rightarrow> e = E_SYMBOL symbol_no)"

section \<open>Constants in conjunctions and disjunctions\<close>

fun expr_eliminate_yn :: "expr \<Rightarrow> expr" where
  "expr_eliminate_yn (E_AND a b) =
     (let l = expr_eliminate_yn a; r = expr_eliminate_yn b in
      if l = E_SYMBOL symbol_no then E_SYMBOL symbol_no
      else if l = E_SYMBOL symbol_yes then r
      else if r = E_SYMBOL symbol_no then E_SYMBOL symbol_no
      else if r = E_SYMBOL symbol_yes then l
      else E_AND l r)"
| "expr_eliminate_yn (E_OR a b) =
     (let l = expr_eliminate_yn a; r = expr_eliminate_yn b in
      if l = E_SYMBOL symbol_no then r
      else if l = E_SYMBOL symbol_yes then E_SYMBOL symbol_yes
      else if r = E_SYMBOL symbol_no then l
      else if r = E_SYMBOL symbol_yes then E_SYMBOL symbol_yes
      else E_OR l r)"
| "expr_eliminate_yn e = e"

fun expr_trans_bool :: "symtab \<Rightarrow> expr \<Rightarrow> expr" where
  "expr_trans_bool T (E_AND a b) = E_AND (expr_trans_bool T a) (expr_trans_bool T b)"
| "expr_trans_bool T (E_OR a b) = E_OR (expr_trans_bool T a) (expr_trans_bool T b)"
| "expr_trans_bool T (E_NOT a) = E_NOT (expr_trans_bool T a)"
| "expr_trans_bool T (E_UNEQUAL s t) = (if sym_type T s = S_TRISTATE \<and> t = symbol_no then E_SYMBOL s else E_UNEQUAL s t)"
| "expr_trans_bool T e = e"

section \<open>Comparison\<close>

text \<open>What replaces the two equal parts.\<close>

definition neutral :: "expr_type \<Rightarrow> expr" where
  "neutral ty = (if ty = T_OR then E_SYMBOL symbol_no else E_SYMBOL symbol_yes)"

text \<open>\<^verbatim>\<open>__expr_eliminate_eq\<close>, with the comparison as an argument: two parts that are not of the type; a part of the
  first expression against the second one; the whole.\<close>

definition elim_leaf :: "(expr \<Rightarrow> expr \<Rightarrow> bool) \<Rightarrow> expr_type \<Rightarrow> expr \<Rightarrow> expr \<Rightarrow> expr \<times> expr" where
  "elim_leaf eq ty e1 e2 =
     (if e1 = e2 \<and> (e1 = E_SYMBOL symbol_yes \<or> e1 = E_SYMBOL symbol_no) then (e1, e2)
      else if \<not> eq e1 e2 then (e1, e2) else (neutral ty, neutral ty))"

fun elim_right :: "(expr \<Rightarrow> expr \<Rightarrow> bool) \<Rightarrow> expr_type \<Rightarrow> expr \<Rightarrow> expr \<Rightarrow> expr \<times> expr" where
  "elim_right eq ty e1 (E_AND l r) = (if ty = T_AND then
     (case elim_right eq ty e1 l of (e1, l) \<Rightarrow> case elim_right eq ty e1 r of (e1, r) \<Rightarrow> (e1, E_AND l r))
     else elim_leaf eq ty e1 (E_AND l r))"
| "elim_right eq ty e1 (E_OR l r) = (if ty = T_OR then
     (case elim_right eq ty e1 l of (e1, l) \<Rightarrow> case elim_right eq ty e1 r of (e1, r) \<Rightarrow> (e1, E_OR l r))
     else elim_leaf eq ty e1 (E_OR l r))"
| "elim_right eq ty e1 e2 = elim_leaf eq ty e1 e2"

fun elim_eq :: "(expr \<Rightarrow> expr \<Rightarrow> bool) \<Rightarrow> expr_type \<Rightarrow> expr \<Rightarrow> expr \<Rightarrow> expr \<times> expr" where
  "elim_eq eq ty (E_AND l r) e2 = (if ty = T_AND then
     (case elim_eq eq ty l e2 of (l, e2) \<Rightarrow> case elim_eq eq ty r e2 of (r, e2) \<Rightarrow> (E_AND l r, e2))
     else elim_right eq ty (E_AND l r) e2)"
| "elim_eq eq ty (E_OR l r) e2 = (if ty = T_OR then
     (case elim_eq eq ty l e2 of (l, e2) \<Rightarrow> case elim_eq eq ty r e2 of (r, e2) \<Rightarrow> (E_OR l r, e2))
     else elim_right eq ty (E_OR l r) e2)"
| "elim_eq eq ty e1 e2 = elim_right eq ty e1 e2"

definition is_junction :: "expr_type \<Rightarrow> bool" where
  "is_junction ty \<longleftrightarrow> ty = T_OR \<or> ty = T_AND"

text \<open>\<^verbatim>\<open>expr_eliminate_eq\<close>, again with the comparison as an argument.\<close>

definition eliminate_eq_by :: "(expr \<Rightarrow> expr \<Rightarrow> bool) \<Rightarrow> expr \<Rightarrow> expr \<Rightarrow> expr \<times> expr" where
  "eliminate_eq_by eq e1 e2 =
     (case (if is_junction (type_of e1) then elim_eq eq (type_of e1) e1 e2 else (e1, e2)) of (e1, e2) \<Rightarrow>
      case (if type_of e1 \<noteq> type_of e2 \<and> is_junction (type_of e2) then elim_eq eq (type_of e2) e1 e2 else (e1, e2)) of (e1, e2) \<Rightarrow>
        (expr_eliminate_yn e1, expr_eliminate_yn e2))"

text \<open>Both depend on the comparison of smaller pairs only.\<close>

lemma size_neutral [simp]: "size (neutral ty) = 0"
  by (simp add: neutral_def)

lemma elim_leaf_size: "elim_leaf eq ty e1 e2 = (a, b) \<Longrightarrow> size a \<le> size e1 \<and> size b \<le> size e2"
  by (auto simp: elim_leaf_def split: if_splits)

lemma elim_right_size: "elim_right eq ty e1 e2 = (a, b) \<Longrightarrow> size a \<le> size e1 \<and> size b \<le> size e2"
  by (induction eq ty e1 e2 arbitrary: a b rule: elim_right.induct)
     (fastforce split: if_splits prod.splits dest: elim_leaf_size)+

lemma elim_eq_size: "elim_eq eq ty e1 e2 = (a, b) \<Longrightarrow> size a \<le> size e1 \<and> size b \<le> size e2"
  by (induction eq ty e1 e2 arbitrary: a b rule: elim_eq.induct)
     (fastforce split: if_splits prod.splits dest: elim_right_size)+


lemma elim_leaf_cong: "eq e1 e2 = eq' e1 e2 \<Longrightarrow> elim_leaf eq ty e1 e2 = elim_leaf eq' ty e1 e2"
  by (simp only: elim_leaf_def)

lemma elim_right_cong:
  "(\<And>a b. size a \<le> size e1 \<Longrightarrow> size b \<le> size e2 \<Longrightarrow> eq a b = eq' a b) \<Longrightarrow> elim_right eq ty e1 e2 = elim_right eq' ty e1 e2"
proof (induction eq ty e1 e2 rule: elim_right.induct)
  case (1 eq ty e1 l r)
  obtain a l' where l: "elim_right eq ty e1 l = (a, l')" by fastforce
  have sa: "size a \<le> size e1" using elim_right_size [OF l] by simp
  show ?case
  proof (cases "ty = T_AND")
    case True
    have "elim_right eq' ty e1 l = (a, l')" using 1(1) [OF True] 1(3) l by simp
    moreover have "elim_right eq ty a r = elim_right eq' ty a r"
      by (rule 1(2) [OF True l [symmetric]]) (use 1(3) sa in simp)
    ultimately show ?thesis using True l by simp
  next
    case False
    then have e: "elim_right eq ty e1 (E_AND l r) = elim_leaf eq ty e1 (E_AND l r)" for eq by simp
    show ?thesis unfolding e by (rule elim_leaf_cong) (use 1(3) in simp)
  qed
next
  case (2 eq ty e1 l r)
  obtain a l' where l: "elim_right eq ty e1 l = (a, l')" by fastforce
  have sa: "size a \<le> size e1" using elim_right_size [OF l] by simp
  show ?case
  proof (cases "ty = T_OR")
    case True
    have "elim_right eq' ty e1 l = (a, l')" using 2(1) [OF True] 2(3) l by simp
    moreover have "elim_right eq ty a r = elim_right eq' ty a r"
      by (rule 2(2) [OF True l [symmetric]]) (use 2(3) sa in simp)
    ultimately show ?thesis using True l by simp
  next
    case False
    then have e: "elim_right eq ty e1 (E_OR l r) = elim_leaf eq ty e1 (E_OR l r)" for eq by simp
    show ?thesis unfolding e by (rule elim_leaf_cong) (use 2(3) in simp)
  qed
qed (simp only: elim_right.simps, rule elim_leaf_cong, simp)+

lemma elim_eq_cong:
  "(\<And>a b. size a \<le> size e1 \<Longrightarrow> size b \<le> size e2 \<Longrightarrow> eq a b = eq' a b) \<Longrightarrow> elim_eq eq ty e1 e2 = elim_eq eq' ty e1 e2"
proof (induction eq ty e1 e2 rule: elim_eq.induct)
  case (1 eq ty l r e2)
  obtain l' b where l: "elim_eq eq ty l e2 = (l', b)" by fastforce
  have sb: "size b \<le> size e2" using elim_eq_size [OF l] by simp
  show ?case
  proof (cases "ty = T_AND")
    case True
    have "elim_eq eq' ty l e2 = (l', b)" using 1(1) [OF True] 1(3) l by simp
    moreover have "elim_eq eq ty r b = elim_eq eq' ty r b"
      by (rule 1(2) [OF True l [symmetric]]) (use 1(3) sb in simp)
    ultimately show ?thesis using True l by simp
  next
    case False
    then have e: "elim_eq eq ty (E_AND l r) e2 = elim_right eq ty (E_AND l r) e2" for eq by simp
    show ?thesis unfolding e by (rule elim_right_cong) (use 1(3) in simp)
  qed
next
  case (2 eq ty l r e2)
  obtain l' b where l: "elim_eq eq ty l e2 = (l', b)" by fastforce
  have sb: "size b \<le> size e2" using elim_eq_size [OF l] by simp
  show ?case
  proof (cases "ty = T_OR")
    case True
    have "elim_eq eq' ty l e2 = (l', b)" using 2(1) [OF True] 2(3) l by simp
    moreover have "elim_eq eq ty r b = elim_eq eq' ty r b"
      by (rule 2(2) [OF True l [symmetric]]) (use 2(3) sb in simp)
    ultimately show ?thesis using True l by simp
  next
    case False
    then have e: "elim_eq eq ty (E_OR l r) e2 = elim_right eq ty (E_OR l r) e2" for eq by simp
    show ?thesis unfolding e by (rule elim_right_cong) (use 2(3) in simp)
  qed
qed (simp only: elim_eq.simps, rule elim_right_cong, simp)+

lemma elim_right_cong_strict:
  assumes "type_of e2 = ty" "is_junction ty" and eq: "\<And>a b. size a \<le> size e1 \<Longrightarrow> size b < size e2 \<Longrightarrow> eq a b = eq' a b"
  shows "elim_right eq ty e1 e2 = elim_right eq' ty e1 e2"
proof -
  have step: "elim_right eq t a e = elim_right eq' t a e" if "size a \<le> size e1" "size e < size e2" for t a e
    by (rule elim_right_cong) (use that eq in auto)
  have sz: "size (fst (elim_right eq' t e1 l)) \<le> size e1" for t l using elim_right_size [of eq' t e1 l] by (metis prod.collapse)
  show ?thesis using assms(1,2)
    by (cases e2) (auto simp: is_junction_def step sz case_prod_beta)
qed

lemma elim_eq_cong_strict:
  assumes "type_of e1 = ty \<or> type_of e2 = ty" "is_junction ty"
    and eq: "\<And>a b. size a \<le> size e1 \<Longrightarrow> size b \<le> size e2 \<Longrightarrow> size a < size e1 \<or> size b < size e2 \<Longrightarrow> eq a b = eq' a b"
  shows "elim_eq eq ty e1 e2 = elim_eq eq' ty e1 e2"
proof (cases "type_of e1 = ty")
  case True
  have step: "elim_eq eq t e b = elim_eq eq' t e b" if "size e < size e1" "size b \<le> size e2" for t e b
    by (rule elim_eq_cong) (use that eq in auto)
  have sz: "size (snd (elim_eq eq' t l e2)) \<le> size e2" for t l using elim_eq_size [of eq' t l e2] by (metis prod.collapse)
  show ?thesis using True assms(2)
    by (cases e1) (auto simp: is_junction_def step sz case_prod_beta)
next
  case False
  then have r: "elim_eq eq ty e1 e2 = elim_right eq ty e1 e2" for eq using assms(2) by (cases e1) (auto simp: is_junction_def)
  show ?thesis unfolding r by (rule elim_right_cong_strict) (use assms False in auto)
qed

lemma eliminate_eq_by_cong [fundef_cong]:
  assumes "e1 = e1'" "e2 = e2'" and eq: "\<And>a b. size a + size b < size e1' + size e2' \<Longrightarrow> eq a b = eq' a b"
  shows "eliminate_eq_by eq e1 e2 = eliminate_eq_by eq' e1' e2'"
proof -
  define p where "p = (\<lambda>eq. if is_junction (type_of e1) then elim_eq eq (type_of e1) e1 e2 else (e1, e2))"
  have p: "p eq = p eq'" unfolding p_def by (auto intro!: elim_eq_cong_strict eq simp: assms(1,2))
  obtain a b where ab: "p eq' = (a, b)" by fastforce
  then have s: "size a \<le> size e1 \<and> size b \<le> size e2" using elim_eq_size by (auto simp: p_def split: if_splits)
  have q: "elim_eq eq (type_of b) a b = elim_eq eq' (type_of b) a b" if "is_junction (type_of b)"
    by (rule elim_eq_cong_strict) (use that s in \<open>auto intro!: eq simp: assms(1,2)\<close>)
  have u: "eliminate_eq_by eq e1 e2 = (case p eq of (e1, e2) \<Rightarrow>
      case (if type_of e1 \<noteq> type_of e2 \<and> is_junction (type_of e2) then elim_eq eq (type_of e2) e1 e2 else (e1, e2)) of (e1, e2) \<Rightarrow>
        (expr_eliminate_yn e1, expr_eliminate_yn e2))" for eq
    by (simp only: eliminate_eq_by_def p_def)
  have "eliminate_eq_by eq e1 e2 = eliminate_eq_by eq' e1 e2"
    unfolding u p ab prod.case
    by (cases "type_of a \<noteq> type_of b \<and> is_junction (type_of b)") (auto simp: q)
  then show ?thesis by (simp add: assms(1,2))
qed

function expr_eq :: "expr \<Rightarrow> expr \<Rightarrow> bool" where
  "expr_eq e1 e2 =
     (if type_of e1 \<noteq> type_of e2 then False
      else case e1 of
        E_EQUAL _ _ \<Rightarrow> e1 = e2
      | E_UNEQUAL _ _ \<Rightarrow> e1 = e2
      | E_SYMBOL _ \<Rightarrow> e1 = e2
      | E_NOT a \<Rightarrow> (case e2 of E_NOT b \<Rightarrow> expr_eq a b | _ \<Rightarrow> False)
      | _ \<Rightarrow> (case eliminate_eq_by expr_eq e1 e2 of (e1, e2) \<Rightarrow> e1 = e2 \<and> type_of e1 = T_SYMBOL))"
  by pat_completeness auto
termination
  by (relation "measure (\<lambda>(a, b). size a + size b)") auto

declare expr_eq.simps [simp del]

definition expr_eliminate_eq :: "expr \<Rightarrow> expr \<Rightarrow> expr \<times> expr" where
  "expr_eliminate_eq e1 e2 = eliminate_eq_by expr_eq e1 e2"

section \<open>Normal form\<close>

text \<open>The symbols and comparisons that \<^verbatim>\<open>expr_transform\<close> replaces; the rest of it works on negations.\<close>

definition transform_leaf :: "symtab \<Rightarrow> expr \<Rightarrow> expr" where
  "transform_leaf T e = (case e of
     E_EQUAL s t \<Rightarrow> if sym_type T s \<noteq> S_BOOLEAN then e
       else if t = symbol_no then E_NOT (E_SYMBOL s)
       else if t = symbol_mod then E_SYMBOL symbol_no
       else if t = symbol_yes then E_SYMBOL s else e
   | E_UNEQUAL s t \<Rightarrow> if sym_type T s \<noteq> S_BOOLEAN then e
       else if t = symbol_no then E_SYMBOL s
       else if t = symbol_mod then E_SYMBOL symbol_yes
       else if t = symbol_yes then E_NOT (E_SYMBOL s) else e
   | _ \<Rightarrow> e)"

text \<open>Negations weigh double, so that moving them inwards makes progress.\<close>

fun weight :: "expr \<Rightarrow> nat" where
  "weight (E_SYMBOL s) = 1"
| "weight (E_EQUAL s t) = 3"
| "weight (E_UNEQUAL s t) = 3"
| "weight (E_NOT e) = 2 * weight e"
| "weight (E_AND a b) = weight a + weight b + 1"
| "weight (E_OR a b) = weight a + weight b + 1"

lemma weight_pos [simp]: "0 < weight e"
  by (induction e) auto

function expr_transform :: "symtab \<Rightarrow> expr \<Rightarrow> expr" where
  "expr_transform T (E_SYMBOL s) = E_SYMBOL s"
| "expr_transform T (E_EQUAL s t) = transform_leaf T (E_EQUAL s t)"
| "expr_transform T (E_UNEQUAL s t) = transform_leaf T (E_UNEQUAL s t)"
| "expr_transform T (E_AND a b) = E_AND (expr_transform T a) (expr_transform T b)"
| "expr_transform T (E_OR a b) = E_OR (expr_transform T a) (expr_transform T b)"
| "expr_transform T (E_NOT e) = (case expr_transform T e of
     E_NOT a \<Rightarrow> expr_transform T a
   | E_EQUAL s t \<Rightarrow> E_UNEQUAL s t
   | E_UNEQUAL s t \<Rightarrow> E_EQUAL s t
   | E_OR a b \<Rightarrow> expr_transform T (E_AND (E_NOT a) (E_NOT b))
   | E_AND a b \<Rightarrow> expr_transform T (E_OR (E_NOT a) (E_NOT b))
   | E_SYMBOL s \<Rightarrow> if s = symbol_yes then E_SYMBOL symbol_no else if s = symbol_mod then E_SYMBOL symbol_mod
       else if s = symbol_no then E_SYMBOL symbol_yes else E_NOT (E_SYMBOL s))"
  by pat_completeness auto

lemma transform_leaf_weight: "weight (transform_leaf T e) \<le> weight e"
  by (cases e) (auto simp: transform_leaf_def)

lemma transform_weight: "expr_transform_dom (T, e) \<Longrightarrow> weight (expr_transform T e) \<le> weight e"
proof (induction T e rule: expr_transform.pinduct)
  case (2 T s t)
  then show ?case using transform_leaf_weight [of T "E_EQUAL s t"] by (simp add: expr_transform.psimps)
next
  case (3 T s t)
  then show ?case using transform_leaf_weight [of T "E_UNEQUAL s t"] by (simp add: expr_transform.psimps)
next
  case (6 T e)
  note w = 6(2)
  show ?case
  proof (cases "expr_transform T e")
    case (E_OR a b)
    with w 6(3) [OF E_OR] show ?thesis by (simp add: expr_transform.psimps 6(1))
  next
    case (E_AND a b)
    with w 6(4) [OF E_AND] show ?thesis by (simp add: expr_transform.psimps 6(1))
  next
    case (E_NOT a)
    with w 6(5) [OF E_NOT] show ?thesis by (simp add: expr_transform.psimps 6(1))
  qed (use w in \<open>auto simp: expr_transform.psimps 6(1)\<close>)
qed (simp_all add: expr_transform.psimps)

termination expr_transform
proof (relation "measure (\<lambda>(T, e). weight e)")
  fix T e a b
  assume d: "expr_transform_dom (T, e)"
  note w = transform_weight [OF d]
  show "((T, E_AND (E_NOT a) (E_NOT b)), T, E_NOT e) \<in> measure (\<lambda>(T, e). weight e)" if "expr_transform T e = E_OR a b"
    using w that by simp
  show "((T, E_OR (E_NOT a) (E_NOT b)), T, E_NOT e) \<in> measure (\<lambda>(T, e). weight e)" if "expr_transform T e = E_AND a b"
    using w that by simp
  show "((T, a), T, E_NOT e) \<in> measure (\<lambda>(T, e). weight e)" if "expr_transform T e = E_NOT a"
  proof -
    have "2 * weight a \<le> weight e" using w that by simp
    moreover have "0 < weight e" by (rule weight_pos)
    ultimately have "weight a < 2 * weight e" by linarith
    then show ?thesis by simp
  qed
qed auto


section \<open>Symbols in expressions\<close>

fun expr_contains_symbol :: "expr \<Rightarrow> symbol \<Rightarrow> bool" where
  "expr_contains_symbol (E_AND a b) c \<longleftrightarrow> expr_contains_symbol a c \<or> expr_contains_symbol b c"
| "expr_contains_symbol (E_OR a b) c \<longleftrightarrow> expr_contains_symbol a c \<or> expr_contains_symbol b c"
| "expr_contains_symbol (E_SYMBOL s) c \<longleftrightarrow> s = c"
| "expr_contains_symbol (E_EQUAL s t) c \<longleftrightarrow> s = c \<or> t = c"
| "expr_contains_symbol (E_UNEQUAL s t) c \<longleftrightarrow> s = c \<or> t = c"
| "expr_contains_symbol (E_NOT a) c \<longleftrightarrow> expr_contains_symbol a c"

fun expr_depends_symbol :: "expr \<Rightarrow> symbol \<Rightarrow> bool" where
  "expr_depends_symbol (E_AND a b) c \<longleftrightarrow> expr_depends_symbol a c \<or> expr_depends_symbol b c"
| "expr_depends_symbol (E_SYMBOL s) c \<longleftrightarrow> s = c"
| "expr_depends_symbol (E_EQUAL s t) c \<longleftrightarrow> s = c \<and> (t = symbol_yes \<or> t = symbol_mod)"
| "expr_depends_symbol (E_UNEQUAL s t) c \<longleftrightarrow> s = c \<and> t = symbol_no"
| "expr_depends_symbol _ c \<longleftrightarrow> False"

section \<open>Common parts\<close>

definition mk_junction :: "expr_type \<Rightarrow> expr \<Rightarrow> expr \<Rightarrow> expr" where
  "mk_junction ty a b = (if ty = T_OR then E_OR a b else E_AND a b)"

text \<open>\<^verbatim>\<open>expr_extract_eq\<close>: parts in common are collected and replaced, again in three layers.\<close>

definition extract_leaf :: "expr_type \<Rightarrow> expr option \<Rightarrow> expr \<Rightarrow> expr \<Rightarrow> expr option \<times> expr \<times> expr" where
  "extract_leaf ty ep e1 e2 = (if expr_eq e1 e2
     then (Some (case ep of None \<Rightarrow> e1 | Some x \<Rightarrow> mk_junction ty x e1), neutral ty, neutral ty)
     else (ep, e1, e2))"

fun extract_right :: "expr_type \<Rightarrow> expr option \<Rightarrow> expr \<Rightarrow> expr \<Rightarrow> expr option \<times> expr \<times> expr" where
  "extract_right ty ep e1 (E_AND l r) = (if ty = T_AND then
     (case extract_right ty ep e1 l of (ep, e1, l) \<Rightarrow> case extract_right ty ep e1 r of (ep, e1, r) \<Rightarrow> (ep, e1, E_AND l r))
     else extract_leaf ty ep e1 (E_AND l r))"
| "extract_right ty ep e1 (E_OR l r) = (if ty = T_OR then
     (case extract_right ty ep e1 l of (ep, e1, l) \<Rightarrow> case extract_right ty ep e1 r of (ep, e1, r) \<Rightarrow> (ep, e1, E_OR l r))
     else extract_leaf ty ep e1 (E_OR l r))"
| "extract_right ty ep e1 e2 = extract_leaf ty ep e1 e2"

fun expr_extract_eq :: "expr_type \<Rightarrow> expr option \<Rightarrow> expr \<Rightarrow> expr \<Rightarrow> expr option \<times> expr \<times> expr" where
  "expr_extract_eq ty ep (E_AND l r) e2 = (if ty = T_AND then
     (case expr_extract_eq ty ep l e2 of (ep, l, e2) \<Rightarrow> case expr_extract_eq ty ep r e2 of (ep, r, e2) \<Rightarrow> (ep, E_AND l r, e2))
     else extract_right ty ep (E_AND l r) e2)"
| "expr_extract_eq ty ep (E_OR l r) e2 = (if ty = T_OR then
     (case expr_extract_eq ty ep l e2 of (ep, l, e2) \<Rightarrow> case expr_extract_eq ty ep r e2 of (ep, r, e2) \<Rightarrow> (ep, E_OR l r, e2))
     else extract_right ty ep (E_OR l r) e2)"
| "expr_extract_eq ty ep e1 e2 = extract_right ty ep e1 e2"

definition extract_eq_by :: "expr_type \<Rightarrow> expr \<Rightarrow> expr \<Rightarrow> expr option \<times> expr \<times> expr" where
  "extract_eq_by ty e1 e2 = (case expr_extract_eq ty None e1 e2 of (tmp, e1, e2) \<Rightarrow>
     if tmp \<noteq> None then (tmp, expr_eliminate_yn e1, expr_eliminate_yn e2) else (tmp, e1, e2))"

definition expr_extract_eq_and :: "expr \<Rightarrow> expr \<Rightarrow> expr option \<times> expr \<times> expr" where
  "expr_extract_eq_and e1 e2 = extract_eq_by T_AND e1 e2"

definition expr_extract_eq_or :: "expr \<Rightarrow> expr \<Rightarrow> expr option \<times> expr \<times> expr" where
  "expr_extract_eq_or e1 e2 = extract_eq_by T_OR e1 e2"

section \<open>Comparison with a constant\<close>

definition not_if :: "bool \<Rightarrow> expr \<Rightarrow> expr" where
  "not_if b e = (if b then E_NOT e else e)"

text \<open>\<^verbatim>\<open>expr_trans_compare\<close>; \<open>None\<close> is the null pointer it returns for other symbols than the constants.\<close>

fun trans_compare :: "expr \<Rightarrow> expr_type \<Rightarrow> symbol \<Rightarrow> expr option" where
  "trans_compare (E_AND a b) ty c = map_option (not_if (ty = T_UNEQUAL))
     (if c = symbol_yes then do { x \<leftarrow> trans_compare a T_EQUAL c; y \<leftarrow> trans_compare b T_EQUAL c; Some (E_AND x y) }
      else if c = symbol_no then do { x \<leftarrow> trans_compare a T_EQUAL c; y \<leftarrow> trans_compare b T_EQUAL c; Some (E_OR x y) }
      else Some (E_AND a b))"
| "trans_compare (E_OR a b) ty c = map_option (not_if (ty = T_UNEQUAL))
     (if c = symbol_yes then do { x \<leftarrow> trans_compare a T_EQUAL c; y \<leftarrow> trans_compare b T_EQUAL c; Some (E_OR x y) }
      else if c = symbol_no then do { x \<leftarrow> trans_compare a T_EQUAL c; y \<leftarrow> trans_compare b T_EQUAL c; Some (E_AND x y) }
      else Some (E_OR a b))"
| "trans_compare (E_NOT a) ty c = trans_compare a (if ty = T_EQUAL then T_UNEQUAL else T_EQUAL) c"
| "trans_compare (E_SYMBOL s) ty c = Some (if ty = T_UNEQUAL then E_UNEQUAL s c else E_EQUAL s c)"
| "trans_compare e ty c =
     (if ty = T_EQUAL then
        (if c = symbol_yes then Some e else if c = symbol_mod then Some (E_SYMBOL symbol_no)
         else if c = symbol_no then Some (E_NOT e) else None)
      else
        (if c = symbol_yes then Some (E_NOT e) else if c = symbol_mod then Some (E_SYMBOL symbol_yes)
         else if c = symbol_no then Some e else None))"

definition expr_trans_compare :: "expr option \<Rightarrow> expr_type \<Rightarrow> symbol \<Rightarrow> expr option" where
  "expr_trans_compare e ty c = (case e of None \<Rightarrow> Some (not_if (ty = T_UNEQUAL) (E_SYMBOL c))
     | Some e \<Rightarrow> trans_compare e ty c)"

section \<open>Printing\<close>

text \<open>1 if a node of the second type needs parentheses below the first, 0 if they are the same. The
  cases fall through, as in the code.\<close>

definition expr_compare_type :: "expr_type \<Rightarrow> expr_type \<Rightarrow> int" where
  "expr_compare_type t1 t2 =
     (if t1 = t2 then 0
      else if (t1 = T_EQUAL \<or> t1 = T_UNEQUAL) \<and> t2 = T_NOT then 1
      else if (t1 = T_EQUAL \<or> t1 = T_UNEQUAL \<or> t1 = T_NOT) \<and> t2 = T_AND then 1
      else if (t1 = T_EQUAL \<or> t1 = T_UNEQUAL \<or> t1 = T_NOT \<or> t1 = T_AND) \<and> t2 = T_OR then 1
      else if (t1 = T_EQUAL \<or> t1 = T_UNEQUAL \<or> t1 = T_NOT \<or> t1 = T_AND \<or> t1 = T_OR) \<and> t2 = T_LIST then 1
      else if (t1 = T_EQUAL \<or> t1 = T_UNEQUAL \<or> t1 = T_NOT \<or> t1 = T_AND \<or> t1 = T_OR \<or> t1 = T_LIST) \<and> t2 = T_NONE then 1
      else -1)"

text \<open>What is handed to the output function: the symbol, if the text is its name, and the text (which may be the null
  pointer of a nameless symbol).\<close>

type_synonym piece = "symbol option \<times> string option"

definition name_piece :: "symtab \<Rightarrow> symbol \<Rightarrow> piece" where
  "name_piece T s = (case sym_name T s of None \<Rightarrow> (None, Some ''<choice>'') | Some n \<Rightarrow> (Some s, Some n))"

definition parens :: "bool \<Rightarrow> piece list \<Rightarrow> piece list" where
  "parens b ps = (if b then [(None, Some ''('')] @ ps @ [(None, Some '')'')] else ps)"

fun print_expr :: "symtab \<Rightarrow> expr \<Rightarrow> expr_type \<Rightarrow> piece list" where
  "print_expr T (E_SYMBOL s) prev = parens (expr_compare_type prev T_SYMBOL > 0) [name_piece T s]"
| "print_expr T (E_NOT a) prev = parens (expr_compare_type prev T_NOT > 0) ([(None, Some ''!'')] @ print_expr T a T_NOT)"
| "print_expr T (E_EQUAL s t) prev = parens (expr_compare_type prev T_EQUAL > 0)
     [name_piece T s, (None, Some ''=''), (Some t, sym_name T t)]"
| "print_expr T (E_UNEQUAL s t) prev = parens (expr_compare_type prev T_UNEQUAL > 0)
     [name_piece T s, (None, Some ''!=''), (Some t, sym_name T t)]"
| "print_expr T (E_OR a b) prev = parens (expr_compare_type prev T_OR > 0)
     (print_expr T a T_OR @ [(None, Some '' || '')] @ print_expr T b T_OR)"
| "print_expr T (E_AND a b) prev = parens (expr_compare_type prev T_AND > 0)
     (print_expr T a T_AND @ [(None, Some '' && '')] @ print_expr T b T_AND)"

definition expr_print :: "symtab \<Rightarrow> expr option \<Rightarrow> expr_type \<Rightarrow> piece list" where
  "expr_print T e prev = (case e of None \<Rightarrow> [(None, Some ''y'')] | Some e \<Rightarrow> print_expr T e prev)"

end
