(* ===== verification/KExprProps.thy ===== *)
theory KExprProps
  imports KExpr
begin

text \<open>
  Correctness of the operations of \<^theory_text>\<open>KExpr\<close>: what each of them does to the value of an expression.
  The values considered are those a configuration can have: the three constants have their values, and no
  boolean symbol has the value \<open>Mod\<close>.
\<close>

section \<open>Values of a configuration\<close>

definition consistent :: "symtab \<Rightarrow> (symbol \<Rightarrow> symbol_value) \<Rightarrow> bool" where
  "consistent T v \<longleftrightarrow>
     v symbol_yes = \<lparr>val = ''y'', tri = Yes\<rparr> \<and> v symbol_mod = \<lparr>val = ''m'', tri = Mod\<rparr> \<and> v symbol_no = \<lparr>val = ''n'', tri = No\<rparr>
     \<and> sym_type T symbol_yes = S_UNKNOWN \<and> sym_type T symbol_mod = S_UNKNOWN \<and> sym_type T symbol_no = S_UNKNOWN
     \<and> (\<forall>s. sym_type T s = S_BOOLEAN \<longrightarrow> tri (v s) \<noteq> Mod)
     \<and> (\<forall>s. sym_const T s \<longrightarrow> sym_type T s = S_UNKNOWN)
     \<and> (\<forall>s t. sym_const T s \<longrightarrow> sym_const T t \<longrightarrow> val (v s) = val (v t) \<longrightarrow> s = t)"

named_theorems con_val \<open>values of the three constants\<close>

lemma consistent_constants [con_val]:
  assumes "consistent T v"
  shows "tri (v symbol_yes) = Yes" "tri (v symbol_mod) = Mod" "tri (v symbol_no) = No"
    "sym_get_string_value T v symbol_yes = ''y''" "sym_get_string_value T v symbol_mod = ''m''"
    "sym_get_string_value T v symbol_no = ''n''"
  using assms by (simp_all add: consistent_def sym_get_string_value_def)

lemma consistent_boolean: "consistent T v \<Longrightarrow> sym_type T s = S_BOOLEAN \<Longrightarrow> tri (v s) \<noteq> Mod"
  by (simp add: consistent_def)

text \<open>A small table for the instances: symbols 0 and 1 are tristate, 2 and 3 boolean, the others strings.\<close>

definition demo_table :: symtab where
  "demo_table = \<lparr>sym_type = (\<lambda>s. case s of Sym n \<Rightarrow> if n < 2 then S_TRISTATE else if n < 4 then S_BOOLEAN else S_STRING | _ \<Rightarrow> S_UNKNOWN),
     sym_const = (\<lambda>s. case s of Sym n \<Rightarrow> False | _ \<Rightarrow> True),
     sym_name = (\<lambda>s. case s of Sym n \<Rightarrow> if n = 0 then Some ''FOO'' else if n = 1 then Some ''BAR'' else None
       | symbol_yes \<Rightarrow> Some ''y'' | symbol_mod \<Rightarrow> Some ''m'' | symbol_no \<Rightarrow> Some ''n'')\<rparr>"

definition demo_values :: "tristate \<Rightarrow> tristate \<Rightarrow> symbol \<Rightarrow> symbol_value" where
  "demo_values a b s = (case s of symbol_yes \<Rightarrow> \<lparr>val = ''y'', tri = Yes\<rparr> | symbol_mod \<Rightarrow> \<lparr>val = ''m'', tri = Mod\<rparr>
     | symbol_no \<Rightarrow> \<lparr>val = ''n'', tri = No\<rparr>
     | Sym n \<Rightarrow> if n = 0 then \<lparr>val = '''', tri = a\<rparr> else if n = 1 then \<lparr>val = '''', tri = b\<rparr>
         else if n = 2 then \<lparr>val = '''', tri = Yes\<rparr> else \<lparr>val = '''', tri = No\<rparr>)"

lemma demo_consistent [simp]: "consistent demo_table (demo_values a b)"
proof -
  have "s = t" if "sym_const demo_table s" "sym_const demo_table t" "val (demo_values a b s) = val (demo_values a b t)" for s t
    using that by (cases s; cases t) (simp_all add: demo_table_def demo_values_def)
  moreover have "tri (demo_values a b s) \<noteq> Mod" if "sym_type demo_table s = S_BOOLEAN" for s
    using that by (cases s) (simp_all add: demo_table_def demo_values_def split: if_splits)
  moreover have "sym_type demo_table s = S_UNKNOWN" if "sym_const demo_table s" for s
    using that by (cases s) (simp_all add: demo_table_def)
  ultimately show ?thesis
    unfolding consistent_def by (simp add: demo_values_def) (simp add: demo_table_def)
qed

lemma demo_simps [simp]:
  "sym_type demo_table (Sym n) = (if n < 2 then S_TRISTATE else if n < 4 then S_BOOLEAN else S_STRING)"
  "tri (demo_values a b (Sym n)) = (if n = 0 then a else if n = 1 then b else if n = 2 then Yes else No)"
  "val (demo_values a b (Sym n)) = []"
  "tri (demo_values a b symbol_yes) = Yes" "tri (demo_values a b symbol_mod) = Mod" "tri (demo_values a b symbol_no) = No"
  "sym_get_string_value demo_table (demo_values a b) symbol_yes = ''y''"
  "sym_get_string_value demo_table (demo_values a b) symbol_mod = ''m''"
  "sym_get_string_value demo_table (demo_values a b) symbol_no = ''n''"
  by (auto simp: demo_table_def demo_values_def sym_get_string_value_def)

section \<open>Tristate logic\<close>

lemma less_eq_cases [simp]:
  "No \<le> t" "t \<le> Yes" "Mod \<le> Yes" "Mod \<le> Mod" "\<not> Mod \<le> No" "\<not> Yes \<le> Mod" "\<not> Yes \<le> No"
  by (cases t; simp add: less_eq_tristate_def tri_num_def)+

lemma EXPR_OR_max: "EXPR_OR a b = max a b" and EXPR_AND_min: "EXPR_AND a b = min a b"
  by (auto simp: EXPR_OR_def EXPR_AND_def max_def min_def)

lemma tri_consts [simp]:
  "EXPR_AND No a = No" "EXPR_AND a No = No" "EXPR_AND Yes a = a" "EXPR_AND a Yes = a"
  "EXPR_OR No a = a" "EXPR_OR a No = a" "EXPR_OR Yes a = Yes" "EXPR_OR a Yes = Yes"
  "EXPR_NOT No = Yes" "EXPR_NOT Mod = Mod" "EXPR_NOT Yes = No" "EXPR_AND a a = a" "EXPR_OR a a = a"
  by (cases a; simp add: EXPR_OR_def EXPR_AND_def EXPR_NOT_def less_tristate_def tri_num_def)+

lemma EXPR_NOT_NOT [simp]: "EXPR_NOT (EXPR_NOT a) = a"
  by (cases a) simp_all

lemma EXPR_NOT_junctions [simp]:
  "EXPR_NOT (EXPR_OR a b) = EXPR_AND (EXPR_NOT a) (EXPR_NOT b)"
  "EXPR_NOT (EXPR_AND a b) = EXPR_OR (EXPR_NOT a) (EXPR_NOT b)"
  by (cases a; cases b; simp add: EXPR_OR_def EXPR_AND_def less_tristate_def tri_num_def)+

text \<open>The operation of a junction, and its unit.\<close>

definition junction :: "expr_type \<Rightarrow> tristate \<Rightarrow> tristate \<Rightarrow> tristate" where
  "junction ty a b = (if ty = T_OR then EXPR_OR a b else EXPR_AND a b)"

definition unit_of :: "expr_type \<Rightarrow> tristate" where
  "unit_of ty = (if ty = T_OR then No else Yes)"

lemma junction_ac:
  "junction ty a b = junction ty b a" "junction ty (junction ty a b) c = junction ty a (junction ty b c)"
  "junction ty a (junction ty b c) = junction ty b (junction ty a c)"
  by (simp_all add: junction_def EXPR_OR_max EXPR_AND_min ac_simps)

lemma junction_unit [simp]: "junction ty (unit_of ty) a = a" "junction ty a (unit_of ty) = a" "junction ty a a = a"
  by (simp_all add: junction_def unit_of_def)

lemma junction_simps [simp]: "junction T_OR a b = EXPR_OR a b" "junction T_AND a b = EXPR_AND a b"
  by (simp_all add: junction_def)

lemma calc_neutral [simp]: "consistent T v \<Longrightarrow> calc_value T v (neutral ty) = unit_of ty"
  by (simp add: neutral_def unit_of_def con_val)

lemma calc_mk_junction [simp]: "calc_value T v (mk_junction ty a b) = junction ty (calc_value T v a) (calc_value T v b)"
  by (simp add: mk_junction_def junction_def)

section \<open>Constants and normal form\<close>

lemma eliminate_yn_rule: "consistent T v \<Longrightarrow> calc_value T v (expr_eliminate_yn e) = calc_value T v e"
proof (induction e rule: expr_eliminate_yn.induct)
  case (1 a b)
  then have "calc_value T v a = calc_value T v (expr_eliminate_yn a)" "calc_value T v b = calc_value T v (expr_eliminate_yn b)" by simp_all
  then show ?case using 1(3) by (simp add: Let_def con_val)
next
  case (2 a b)
  then have "calc_value T v a = calc_value T v (expr_eliminate_yn a)" "calc_value T v b = calc_value T v (expr_eliminate_yn b)" by simp_all
  then show ?case using 2(3) by (simp add: Let_def con_val)
qed simp_all

lemma string_value_boolean:
  assumes "consistent T v" "sym_type T s = S_BOOLEAN"
  shows "sym_get_string_value T v s = (if tri (v s) = Yes then ''y'' else ''n'')"
  using assms consistent_boolean [OF assms] by (cases "tri (v s)") (simp_all add: sym_get_string_value_def tri_string_def)

lemma string_value_tristate:
  "sym_type T s = S_BOOLEAN \<or> sym_type T s = S_TRISTATE \<Longrightarrow> sym_get_string_value T v s = tri_string (tri (v s))"
  by (auto simp: sym_get_string_value_def)

lemma tri_string_simps [simp]: "tri_string Yes = ''y''" "tri_string Mod = ''m''" "tri_string No = ''n''"
  by (simp_all add: tri_string_def)

lemma tri_string_eq [simp]:
  "tri_string t = ''y'' \<longleftrightarrow> t = Yes" "tri_string t = ''m'' \<longleftrightarrow> t = Mod" "tri_string t = ''n'' \<longleftrightarrow> t = No"
  by (cases t; simp)+

lemma transform_leaf_value:
  assumes "consistent T v"
  shows "calc_value T v (transform_leaf T e) = calc_value T v e"
proof -
  have b: "sym_type T s = S_BOOLEAN \<Longrightarrow> tri (v s) = Yes \<or> tri (v s) = No" for s
    using consistent_boolean [OF assms, of s] by (cases "tri (v s)") auto
  show ?thesis
    by (cases e) (auto simp: transform_leaf_def string_value_tristate con_val [OF assms] dest!: b)
qed

lemma transform_rule: "consistent T v \<Longrightarrow> calc_value T v (expr_transform T e) = calc_value T v e"
proof (induction T e rule: expr_transform.induct)
  case (6 T e)
  then have e: "calc_value T v e = calc_value T v (expr_transform T e)" by simp
  show ?case
    by (cases "expr_transform T e") (use 6 e in \<open>auto simp: con_val\<close>)
qed (simp_all add: transform_leaf_value)

section \<open>Comparison\<close>

text \<open>What has been taken out of both expressions, in common.\<close>

definition common :: "symtab \<Rightarrow> (symbol \<Rightarrow> symbol_value) \<Rightarrow> expr_type \<Rightarrow> expr \<times> expr \<Rightarrow> expr \<times> expr \<Rightarrow> bool" where
  "common T v ty p q \<longleftrightarrow> (\<exists>m. calc_value T v (fst p) = junction ty m (calc_value T v (fst q))
     \<and> calc_value T v (snd p) = junction ty m (calc_value T v (snd q)))"

lemma common_refl: "common T v ty p p"
  unfolding common_def by (rule exI [of _ "unit_of ty"]) simp

text \<open>First the left part, then the right part of a junction; in the other expression two times.\<close>

lemma common_left:
  assumes "common T v ty (l, e) (l', e')" "common T v ty (r, e') (r', e'')"
    and "calc_value T v a = junction ty (calc_value T v l) (calc_value T v r)"
    and "calc_value T v a' = junction ty (calc_value T v l') (calc_value T v r')"
  shows "common T v ty (a, e) (a', e'')"
proof -
  from assms(1,2) obtain m n where "calc_value T v l = junction ty m (calc_value T v l')" "calc_value T v e = junction ty m (calc_value T v e')"
    "calc_value T v r = junction ty n (calc_value T v r')" "calc_value T v e' = junction ty n (calc_value T v e'')"
    by (auto simp: common_def)
  then show ?thesis unfolding common_def using assms(3,4)
    by (intro exI [of _ "junction ty m n"]) (simp add: junction_ac)
qed

lemma common_swap: "common T v ty (a, b) (c, d) = common T v ty (b, a) (d, c)"
  by (auto simp: common_def)

lemma common_right:
  assumes "common T v ty (e, l) (e', l')" "common T v ty (e', r) (e'', r')"
    and "calc_value T v a = junction ty (calc_value T v l) (calc_value T v r)"
    and "calc_value T v a' = junction ty (calc_value T v l') (calc_value T v r')"
  shows "common T v ty (e, a) (e'', a')"
  using common_left [of T v ty l e l' e' r r' e'' a a'] assms by (simp add: common_swap)

lemma elim_leaf_common:
  assumes "consistent T v" "eq e1 e2 \<Longrightarrow> calc_value T v e1 = calc_value T v e2"
  shows "common T v ty (e1, e2) (elim_leaf eq ty e1 e2)"
  using assms common_refl [of T v ty "(e1, e2)"] by (auto simp: elim_leaf_def common_def)

lemma elim_right_common:
  assumes "consistent T v" "\<And>a b. eq a b \<Longrightarrow> calc_value T v a = calc_value T v b"
  shows "common T v ty (e1, e2) (elim_right eq ty e1 e2)"
  using assms
proof (induction eq ty e1 e2 rule: elim_right.induct)
  case (1 eq ty e1 l r)
  show ?case
  proof (cases "ty = T_AND")
    case True
    obtain a l' where l: "elim_right eq ty e1 l = (a, l')" by fastforce
    obtain b r' where r: "elim_right eq ty a r = (b, r')" by fastforce
    have "common T v ty (e1, l) (a, l')" using 1(1) [OF True 1(3,4)] l by simp
    moreover have "common T v ty (a, r) (b, r')" using 1(2) [OF True l [symmetric] 1(3,4)] r by simp
    ultimately show ?thesis using True l r by (auto intro: common_right)
  qed (simp add: elim_leaf_common [where eq = eq] 1(3,4))
next
  case (2 eq ty e1 l r)
  show ?case
  proof (cases "ty = T_OR")
    case True
    obtain a l' where l: "elim_right eq ty e1 l = (a, l')" by fastforce
    obtain b r' where r: "elim_right eq ty a r = (b, r')" by fastforce
    have "common T v ty (e1, l) (a, l')" using 2(1) [OF True 2(3,4)] l by simp
    moreover have "common T v ty (a, r) (b, r')" using 2(2) [OF True l [symmetric] 2(3,4)] r by simp
    ultimately show ?thesis using True l r by (auto intro: common_right)
  qed (simp add: elim_leaf_common [where eq = eq] 2(3,4))
qed (simp_all add: elim_leaf_common)

lemma elim_eq_common:
  assumes "consistent T v" "\<And>a b. eq a b \<Longrightarrow> calc_value T v a = calc_value T v b"
  shows "common T v ty (e1, e2) (elim_eq eq ty e1 e2)"
  using assms
proof (induction eq ty e1 e2 rule: elim_eq.induct)
  case (1 eq ty l r e2)
  show ?case
  proof (cases "ty = T_AND")
    case True
    obtain a l' where l: "elim_eq eq ty l e2 = (l', a)" by fastforce
    obtain b r' where r: "elim_eq eq ty r a = (r', b)" by fastforce
    have "common T v ty (l, e2) (l', a)" using 1(1) [OF True 1(3,4)] l by simp
    moreover have "common T v ty (r, a) (r', b)" using 1(2) [OF True l [symmetric] 1(3,4)] r by simp
    ultimately show ?thesis using True l r by (auto intro: common_left)
  qed (simp add: elim_right_common [where eq = eq] 1(3,4))
next
  case (2 eq ty l r e2)
  show ?case
  proof (cases "ty = T_OR")
    case True
    obtain a l' where l: "elim_eq eq ty l e2 = (l', a)" by fastforce
    obtain b r' where r: "elim_eq eq ty r a = (r', b)" by fastforce
    have "common T v ty (l, e2) (l', a)" using 2(1) [OF True 2(3,4)] l by simp
    moreover have "common T v ty (r, a) (r', b)" using 2(2) [OF True l [symmetric] 2(3,4)] r by simp
    ultimately show ?thesis using True l r by (auto intro: common_left)
  qed (simp add: elim_right_common [where eq = eq] 2(3,4))
qed (simp_all add: elim_right_common)

lemma eliminate_eq_by_common:
  assumes "consistent T v" "\<And>a b. eq a b \<Longrightarrow> calc_value T v a = calc_value T v b"
    and "eliminate_eq_by eq e1 e2 = (a, b)" "calc_value T v a = calc_value T v b"
  shows "calc_value T v e1 = calc_value T v e2"
proof -
  have undo: "calc_value T v c = calc_value T v d"
    if "elim_eq eq ty c d = (c', d')" "calc_value T v c' = calc_value T v d'" for ty c d c' d'
    using elim_eq_common [OF assms(1), of eq ty c d] assms(2) that by (auto simp: common_def)
  from assms(3,4) show ?thesis
    by (auto simp: eliminate_eq_by_def eliminate_yn_rule [OF assms(1)] split: prod.splits if_splits dest: undo)
qed

lemma expr_eq_rule:
  assumes "consistent T v"
  shows "expr_eq e1 e2 \<Longrightarrow> calc_value T v e1 = calc_value T v e2"
proof (induction "size e1 + size e2" arbitrary: e1 e2 rule: less_induct)
  case less
  define eq where "eq a b = (expr_eq a b \<and> size a + size b < size e1 + size e2)" for a b
  have "calc_value T v a = calc_value T v b" if "eq a b" for a b
    using less(1) [of a b] that by (simp add: eq_def)
  note c = eliminate_eq_by_common [where eq = eq, OF assms this]
  have *: "eliminate_eq_by expr_eq e1 e2 = eliminate_eq_by eq e1 e2"
    by (rule eliminate_eq_by_cong) (auto simp: eq_def)
  obtain a b where ab: "eliminate_eq_by eq e1 e2 = (a, b)" by fastforce
  have j: "calc_value T v e1 = calc_value T v e2" if "a = b" using c ab that by blast
  note u = less(2) [unfolded expr_eq.simps [of e1 e2] * ab]
  show ?case
  proof (cases e1)
    case (E_NOT x)
    then obtain y where "e2 = E_NOT y" "expr_eq x y" using less(2) by (cases e2) (auto simp: expr_eq.simps [of "E_NOT x"])
    then show ?thesis using less(1) [of x y] E_NOT by simp
  qed (use u j in \<open>auto split: if_splits\<close>)
qed

section \<open>Common parts\<close>

definition part_value :: "symtab \<Rightarrow> (symbol \<Rightarrow> symbol_value) \<Rightarrow> expr_type \<Rightarrow> expr option \<Rightarrow> tristate" where
  "part_value T v ty ep = (case ep of None \<Rightarrow> unit_of ty | Some e \<Rightarrow> calc_value T v e)"

text \<open>What is taken out of the two expressions is added to the collected part.\<close>

definition taken :: "symtab \<Rightarrow> (symbol \<Rightarrow> symbol_value) \<Rightarrow> expr_type \<Rightarrow> expr option \<times> expr \<times> expr \<Rightarrow> expr option \<times> expr \<times> expr \<Rightarrow> bool" where
  "taken T v ty = (\<lambda>(ep, a, b) (ep', a', b').
     (\<exists>m. part_value T v ty ep' = junction ty (part_value T v ty ep) m
        \<and> calc_value T v a = junction ty m (calc_value T v a') \<and> calc_value T v b = junction ty m (calc_value T v b')))"

lemma taken_refl: "taken T v ty p p"
  unfolding taken_def by (auto intro: exI [of _ "unit_of ty"])

lemma taken_left:
  assumes "taken T v ty (ep, l, e) (ep', l', e')" "taken T v ty (ep', r, e') (ep'', r', e'')"
    and "calc_value T v a = junction ty (calc_value T v l) (calc_value T v r)"
    and "calc_value T v a' = junction ty (calc_value T v l') (calc_value T v r')"
  shows "taken T v ty (ep, a, e) (ep'', a', e'')"
proof -
  from assms(1,2) obtain m n where "part_value T v ty ep' = junction ty (part_value T v ty ep) m"
    "part_value T v ty ep'' = junction ty (part_value T v ty ep') n" "calc_value T v l = junction ty m (calc_value T v l')"
    "calc_value T v e = junction ty m (calc_value T v e')" "calc_value T v r = junction ty n (calc_value T v r')"
    "calc_value T v e' = junction ty n (calc_value T v e'')"
    by (auto simp: taken_def)
  then show ?thesis unfolding taken_def prod.case using assms(3,4)
    by (intro exI [of _ "junction ty m n"]) (simp add: junction_ac)
qed

lemma taken_swap: "taken T v ty (p, a, b) (q, c, d) = taken T v ty (p, b, a) (q, d, c)"
  by (auto simp: taken_def)

lemma taken_right:
  assumes "taken T v ty (ep, e, l) (ep', e', l')" "taken T v ty (ep', e', r) (ep'', e'', r')"
    and "calc_value T v a = junction ty (calc_value T v l) (calc_value T v r)"
    and "calc_value T v a' = junction ty (calc_value T v l') (calc_value T v r')"
  shows "taken T v ty (ep, e, a) (ep'', e'', a')"
  using taken_left [of T v ty ep l e ep' l' e' r ep'' r' e'' a a'] assms by (simp add: taken_swap)

lemma extract_leaf_taken:
  assumes "consistent T v"
  shows "taken T v ty (ep, e1, e2) (extract_leaf ty ep e1 e2)"
proof (cases "expr_eq e1 e2")
  case True
  then show ?thesis using expr_eq_rule [OF assms True] assms
    by (auto simp: extract_leaf_def taken_def part_value_def split: option.splits intro: exI [of _ "calc_value T v e1"])
qed (simp add: extract_leaf_def taken_refl)

lemma extract_right_taken:
  assumes "consistent T v"
  shows "taken T v ty (ep, e1, e2) (extract_right ty ep e1 e2)"
proof (induction ty ep e1 e2 rule: extract_right.induct)
  case (1 ty ep e1 l r)
  obtain p a l' where l: "extract_right ty ep e1 l = (p, a, l')" by (cases "extract_right ty ep e1 l")
  obtain q b r' where r: "extract_right ty p a r = (q, b, r')" by (cases "extract_right ty p a r")
  show ?case
  proof (cases "ty = T_AND")
    case True
    have "taken T v ty (ep, e1, l) (p, a, l')" "taken T v ty (p, a, r) (q, b, r')" using 1 l r True by simp_all
    then show ?thesis using True l r by (auto intro: taken_right)
  qed (simp add: extract_leaf_taken [OF assms])
next
  case (2 ty ep e1 l r)
  obtain p a l' where l: "extract_right ty ep e1 l = (p, a, l')" by (cases "extract_right ty ep e1 l")
  obtain q b r' where r: "extract_right ty p a r = (q, b, r')" by (cases "extract_right ty p a r")
  show ?case
  proof (cases "ty = T_OR")
    case True
    have "taken T v ty (ep, e1, l) (p, a, l')" "taken T v ty (p, a, r) (q, b, r')" using 2 l r True by simp_all
    then show ?thesis using True l r by (auto intro: taken_right)
  qed (simp add: extract_leaf_taken [OF assms])
qed (simp_all add: extract_leaf_taken [OF assms])

lemma extract_eq_taken:
  assumes "consistent T v"
  shows "taken T v ty (ep, e1, e2) (expr_extract_eq ty ep e1 e2)"
proof (induction ty ep e1 e2 rule: expr_extract_eq.induct)
  case (1 ty ep l r e2)
  obtain p l' a where l: "expr_extract_eq ty ep l e2 = (p, l', a)" by (cases "expr_extract_eq ty ep l e2")
  obtain q r' b where r: "expr_extract_eq ty p r a = (q, r', b)" by (cases "expr_extract_eq ty p r a")
  show ?case
  proof (cases "ty = T_AND")
    case True
    have "taken T v ty (ep, l, e2) (p, l', a)" "taken T v ty (p, r, a) (q, r', b)" using 1 l r True by simp_all
    then show ?thesis using True l r by (auto intro: taken_left)
  qed (simp add: extract_right_taken [OF assms])
next
  case (2 ty ep l r e2)
  obtain p l' a where l: "expr_extract_eq ty ep l e2 = (p, l', a)" by (cases "expr_extract_eq ty ep l e2")
  obtain q r' b where r: "expr_extract_eq ty p r a = (q, r', b)" by (cases "expr_extract_eq ty p r a")
  show ?case
  proof (cases "ty = T_OR")
    case True
    have "taken T v ty (ep, l, e2) (p, l', a)" "taken T v ty (p, r, a) (q, r', b)" using 2 l r True by simp_all
    then show ?thesis using True l r by (auto intro: taken_left)
  qed (simp add: extract_right_taken [OF assms])
qed (simp_all add: extract_right_taken [OF assms])

lemma extract_eq_by_rule:
  assumes "consistent T v" "extract_eq_by ty e1 e2 = (ep, a, b)"
  shows "calc_value T v e1 = junction ty (part_value T v ty ep) (calc_value T v a)"
    and "calc_value T v e2 = junction ty (part_value T v ty ep) (calc_value T v b)"
  using extract_eq_taken [OF assms(1), of ty None e1 e2] assms(2)
  by (auto simp: extract_eq_by_def taken_def eliminate_yn_rule [OF assms(1)] part_value_def split: prod.splits if_splits)

section \<open>Symbols and comparisons\<close>

text \<open>Every symbol used as a truth value has one: it is boolean, tristate or a constant.\<close>

definition logical_symbol :: "symtab \<Rightarrow> symbol \<Rightarrow> bool" where
  "logical_symbol T s \<longleftrightarrow> sym_type T s = S_BOOLEAN \<or> sym_type T s = S_TRISTATE \<or> s = symbol_yes \<or> s = symbol_mod \<or> s = symbol_no"

fun logical :: "symtab \<Rightarrow> expr \<Rightarrow> bool" where
  "logical T (E_SYMBOL s) \<longleftrightarrow> logical_symbol T s"
| "logical T (E_AND a b) \<longleftrightarrow> logical T a \<and> logical T b"
| "logical T (E_OR a b) \<longleftrightarrow> logical T a \<and> logical T b"
| "logical T (E_NOT a) \<longleftrightarrow> logical T a"
| "logical T _ \<longleftrightarrow> True"

text \<open>No symbol used as a truth value is \<open>Mod\<close>, everywhere or below negations.\<close>

fun crisp :: "(symbol \<Rightarrow> symbol_value) \<Rightarrow> expr \<Rightarrow> bool" where
  "crisp v (E_SYMBOL s) \<longleftrightarrow> tri (v s) \<noteq> Mod"
| "crisp v (E_AND a b) \<longleftrightarrow> crisp v a \<and> crisp v b"
| "crisp v (E_OR a b) \<longleftrightarrow> crisp v a \<and> crisp v b"
| "crisp v (E_NOT a) \<longleftrightarrow> crisp v a"
| "crisp v _ \<longleftrightarrow> True"

fun crisp_not :: "(symbol \<Rightarrow> symbol_value) \<Rightarrow> expr \<Rightarrow> bool" where
  "crisp_not v (E_AND a b) \<longleftrightarrow> crisp_not v a \<and> crisp_not v b"
| "crisp_not v (E_OR a b) \<longleftrightarrow> crisp_not v a \<and> crisp_not v b"
| "crisp_not v (E_NOT a) \<longleftrightarrow> crisp v a"
| "crisp_not v _ \<longleftrightarrow> True"

lemma crisp_value: "crisp v e \<Longrightarrow> calc_value T v e \<noteq> Mod"
proof (induction e)
  case (E_OR a b) then show ?case by (cases "calc_value T v a"; cases "calc_value T v b") simp_all
next
  case (E_AND a b) then show ?case by (cases "calc_value T v a"; cases "calc_value T v b") simp_all
next
  case (E_NOT a) then show ?case by (cases "calc_value T v a") simp_all
qed auto

lemma crisp_imp_crisp_not: "crisp v e \<Longrightarrow> crisp_not v e"
  by (induction e) auto

lemma logical_compare:
  assumes "consistent T v" "logical_symbol T s"
  shows "sym_get_string_value T v s = ''y'' \<longleftrightarrow> tri (v s) = Yes" "sym_get_string_value T v s = ''n'' \<longleftrightarrow> tri (v s) = No"
    "sym_get_string_value T v s = ''m'' \<longleftrightarrow> tri (v s) = Mod"
  using assms(2) by (auto simp: logical_symbol_def string_value_tristate con_val [OF assms(1)])

lemma junction_extremes [simp]:
  "EXPR_AND a b = Yes \<longleftrightarrow> a = Yes \<and> b = Yes" "EXPR_AND a b = No \<longleftrightarrow> a = No \<or> b = No"
  "EXPR_OR a b = Yes \<longleftrightarrow> a = Yes \<or> b = Yes" "EXPR_OR a b = No \<longleftrightarrow> a = No \<and> b = No"
  "EXPR_NOT a = Yes \<longleftrightarrow> a = No" "EXPR_NOT a = No \<longleftrightarrow> a = Yes"
  by (cases a; cases b; simp add: EXPR_OR_def EXPR_AND_def less_tristate_def tri_num_def)+

definition truth :: "bool \<Rightarrow> tristate" where
  "truth b = (if b then Yes else No)"

lemma truth_simps [simp]: "truth b = Yes \<longleftrightarrow> b" "truth b = No \<longleftrightarrow> \<not> b" "EXPR_NOT (truth b) = truth (\<not> b)"
    "EXPR_AND (truth b) (truth c) = truth (b \<and> c)" "EXPR_OR (truth b) (truth c) = truth (b \<or> c)" "truth b = truth c \<longleftrightarrow> b = c"
  by (auto simp: truth_def)

lemma calc_compare:
  "calc_value T v (E_EQUAL a b) = truth (sym_get_string_value T v a = sym_get_string_value T v b)"
  "calc_value T v (E_UNEQUAL a b) = truth (sym_get_string_value T v a \<noteq> sym_get_string_value T v b)"
  by (simp_all add: truth_def)

lemma trans_compare_rule:
  assumes "consistent T v" "c = symbol_yes \<or> c = symbol_no"
  shows "ty = T_EQUAL \<or> ty = T_UNEQUAL \<Longrightarrow> logical T e \<Longrightarrow> crisp_not v e \<Longrightarrow>
    \<exists>x. trans_compare e ty c = Some x \<and> calc_value T v x = truth ((calc_value T v e = tri (v c)) = (ty = T_EQUAL))"
proof (induction e arbitrary: ty)
  case (E_OR a b)
  from E_OR(1,2) [of T_EQUAL] E_OR(4,5) obtain x y where "trans_compare a T_EQUAL c = Some x" "trans_compare b T_EQUAL c = Some y"
    "calc_value T v x = truth (calc_value T v a = tri (v c))" "calc_value T v y = truth (calc_value T v b = tri (v c))" by auto
  then show ?case using assms(2) E_OR(3) by (auto simp: not_if_def con_val [OF assms(1)])
next
  case (E_AND a b)
  from E_AND(1,2) [of T_EQUAL] E_AND(4,5) obtain x y where "trans_compare a T_EQUAL c = Some x" "trans_compare b T_EQUAL c = Some y"
    "calc_value T v x = truth (calc_value T v a = tri (v c))" "calc_value T v y = truth (calc_value T v b = tri (v c))" by auto
  then show ?case using assms(2) E_AND(3) by (auto simp: not_if_def con_val [OF assms(1)])
next
  case (E_NOT a)
  have "calc_value T v a \<noteq> Mod" using E_NOT crisp_value by simp
  then have flip: "(EXPR_NOT (calc_value T v a) = tri (v c)) = (calc_value T v a \<noteq> tri (v c))"
    using assms(2) by (cases "calc_value T v a") (auto simp: con_val [OF assms(1)])
  obtain x where "trans_compare a (if ty = T_EQUAL then T_UNEQUAL else T_EQUAL) c = Some x"
    "calc_value T v x = truth ((calc_value T v a = tri (v c)) = ((if ty = T_EQUAL then T_UNEQUAL else T_EQUAL) = T_EQUAL))"
    using E_NOT(1) [of "if ty = T_EQUAL then T_UNEQUAL else T_EQUAL"] E_NOT(3,4) crisp_imp_crisp_not [of v a]
    by (metis crisp_not.simps(3) logical.simps(4))
  then show ?case using E_NOT(2) by (auto simp: flip)
next
  case (E_SYMBOL s)
  then show ?case using assms(2)
    by (auto simp: calc_compare logical_compare [OF assms(1)] con_val [OF assms(1)] simp del: calc_value.simps(5,6))
next
  case (E_EQUAL s t)
  then show ?case using assms(2) by (auto simp: calc_compare con_val [OF assms(1)] simp del: calc_value.simps(5,6))
next
  case (E_UNEQUAL s t)
  then show ?case using assms(2) by (auto simp: calc_compare con_val [OF assms(1)] simp del: calc_value.simps(5,6))
qed

lemma trans_bool_rule:
  assumes "consistent T v" "\<And>s. sym_type T s = S_TRISTATE \<Longrightarrow> tri (v s) \<noteq> Mod"
  shows "calc_value T v (expr_trans_bool T e) = calc_value T v e"
proof (induction e)
  case (E_UNEQUAL s t)
  then show ?case using assms(2) [of s] by (cases "tri (v s)") (auto simp: string_value_tristate con_val [OF assms(1)])
qed simp_all

lemma depends_rule:
  assumes "consistent T v" "logical_symbol T c" "tri (v c) = No"
  shows "expr_depends_symbol e c \<Longrightarrow> calc_value T v e = No"
  by (induction e) (use logical_compare [OF assms(1,2)] assms(3) in \<open>auto simp: con_val [OF assms(1)]\<close>)

lemma contains_rule:
  "(\<And>s. expr_contains_symbol e s \<Longrightarrow> v s = w s) \<Longrightarrow> calc_value T v e = calc_value T w e"
  by (induction e) (simp_all add: sym_get_string_value_def)

section \<open>Negation normal form\<close>

text \<open>Negations are left only around plain symbols, and a boolean symbol is not compared with a constant.\<close>

fun normal :: "symtab \<Rightarrow> expr \<Rightarrow> bool" where
  "normal T (E_SYMBOL s) \<longleftrightarrow> True"
| "normal T (E_AND a b) \<longleftrightarrow> normal T a \<and> normal T b"
| "normal T (E_OR a b) \<longleftrightarrow> normal T a \<and> normal T b"
| "normal T (E_NOT a) \<longleftrightarrow> (case a of E_SYMBOL s \<Rightarrow> s \<notin> {symbol_yes, symbol_mod, symbol_no} | _ \<Rightarrow> False)"
| "normal T (E_EQUAL s t) \<longleftrightarrow> \<not> (sym_type T s = S_BOOLEAN \<and> t \<in> {symbol_yes, symbol_mod, symbol_no})"
| "normal T (E_UNEQUAL s t) \<longleftrightarrow> \<not> (sym_type T s = S_BOOLEAN \<and> t \<in> {symbol_yes, symbol_mod, symbol_no})"

lemma transform_leaf_normal:
  assumes "sym_type T symbol_yes \<noteq> S_BOOLEAN" "sym_type T symbol_mod \<noteq> S_BOOLEAN" "sym_type T symbol_no \<noteq> S_BOOLEAN"
  shows "normal T (transform_leaf T (E_EQUAL s t))" "normal T (transform_leaf T (E_UNEQUAL s t))"
  using assms by (auto simp: transform_leaf_def)

lemma transform_normal:
  assumes "sym_type T symbol_yes \<noteq> S_BOOLEAN" "sym_type T symbol_mod \<noteq> S_BOOLEAN" "sym_type T symbol_no \<noteq> S_BOOLEAN"
  shows "normal T (expr_transform T e)"
  using assms
proof (induction T e rule: expr_transform.induct)
  case (6 T e)
  show ?case
    by (cases "expr_transform T e") (use 6 in \<open>auto simp del: expr_transform.simps(4,5)\<close>)
qed (simp_all add: transform_leaf_normal del: normal.simps(4-6))

lemma normal_transform: "normal T e \<Longrightarrow> expr_transform T e = e"
  by (induction e) (auto simp: transform_leaf_def split: expr.splits)

text \<open>
  Claim C11. The normal form that \<^verbatim>\<open>expr_transform\<close> computes has the value of the expression, under every value of the
  symbols, has negations only around plain symbols and no comparison of a boolean symbol with a constant, and is left
  unchanged by a second call.
\<close>

theorem expr_transform_correct:
  assumes "consistent T v"
  shows "calc_value T v (expr_transform T e) = calc_value T v e \<and> normal T (expr_transform T e)
    \<and> expr_transform T (expr_transform T e) = expr_transform T e"
proof -
  have "normal T (expr_transform T e)" by (rule transform_normal) (use assms in \<open>simp_all add: consistent_def\<close>)
  then show ?thesis by (simp add: transform_rule [OF assms] normal_transform)
qed

theorem expr_transform_correct_witness:
  "calc_value demo_table (demo_values Mod No) (expr_transform demo_table (E_NOT (E_OR (E_SYMBOL (Sym 0)) (E_NOT (E_UNEQUAL (Sym 2) symbol_no)))))
     = Mod
   \<and> expr_transform demo_table (E_NOT (E_OR (E_SYMBOL (Sym 0)) (E_NOT (E_UNEQUAL (Sym 2) symbol_no)))) = E_AND (E_NOT (E_SYMBOL (Sym 0))) (E_SYMBOL (Sym 2))"
  using expr_transform_correct [OF demo_consistent [of Mod No], of "E_NOT (E_OR (E_SYMBOL (Sym 0)) (E_NOT (E_UNEQUAL (Sym 2) symbol_no)))"]
  by (simp add: transform_leaf_def)

section \<open>Claims\<close>

text \<open>
  Claim C22. Expressions that \<^verbatim>\<open>expr_eq\<close> finds equal have the same value, whatever the values of the symbols; and
  \<^verbatim>\<open>expr_eliminate_eq\<close> loses nothing: if what is left of two expressions has the same value, so have the two.
\<close>

theorem expr_eq_sound:
  assumes "consistent T v"
  shows "(\<not> expr_eq e1 e2 \<or> calc_value T v e1 = calc_value T v e2)
    \<and> (calc_value T v (fst (expr_eliminate_eq e1 e2)) \<noteq> calc_value T v (snd (expr_eliminate_eq e1 e2))
       \<or> calc_value T v e1 = calc_value T v e2)"
proof -
  obtain a b where ab: "eliminate_eq_by expr_eq e1 e2 = (a, b)" by fastforce
  have "calc_value T v e1 = calc_value T v e2" if "calc_value T v a = calc_value T v b"
    by (rule eliminate_eq_by_common [OF assms expr_eq_rule [OF assms] ab that])
  then show ?thesis using expr_eq_rule [OF assms] by (auto simp: expr_eliminate_eq_def ab)
qed

lemma expr_eq_demo:
  "expr_eq (E_AND (E_SYMBOL (Sym 0)) (E_AND (E_SYMBOL (Sym 1)) (E_SYMBOL (Sym 2)))) (E_AND (E_AND (E_SYMBOL (Sym 2)) (E_SYMBOL (Sym 0))) (E_SYMBOL (Sym 1)))"
  by (simp add: expr_eq.simps eliminate_eq_by_def is_junction_def elim_leaf_def neutral_def)

theorem expr_eq_sound_witness:
  "calc_value demo_table (demo_values Mod Yes) (E_AND (E_SYMBOL (Sym 0)) (E_AND (E_SYMBOL (Sym 1)) (E_SYMBOL (Sym 2))))
   = calc_value demo_table (demo_values Mod Yes) (E_AND (E_AND (E_SYMBOL (Sym 2)) (E_SYMBOL (Sym 0))) (E_SYMBOL (Sym 1)))"
  using expr_eq_sound [OF demo_consistent [of Mod Yes]] expr_eq_demo by blast

text \<open>
  \<^verbatim>\<open>expr_extract_eq_and\<close> and \<^verbatim>\<open>expr_extract_eq_or\<close> factor: either expression is, in value, the conjunction
  (disjunction) of the common part they return and of what they leave of it.
\<close>

theorem expr_extract_eq_factors:
  assumes "consistent T v"
  shows "(case expr_extract_eq_and e1 e2 of (ep, a, b) \<Rightarrow>
      calc_value T v e1 = EXPR_AND (expr_calc_value T v ep) (calc_value T v a)
      \<and> calc_value T v e2 = EXPR_AND (expr_calc_value T v ep) (calc_value T v b))
    \<and> (case expr_extract_eq_or e1 e2 of (ep, a, b) \<Rightarrow>
      calc_value T v e1 = EXPR_OR (case ep of None \<Rightarrow> No | Some e \<Rightarrow> calc_value T v e) (calc_value T v a)
      \<and> calc_value T v e2 = EXPR_OR (case ep of None \<Rightarrow> No | Some e \<Rightarrow> calc_value T v e) (calc_value T v b))"
  using extract_eq_by_rule [OF assms, of T_AND e1 e2] extract_eq_by_rule [OF assms, of T_OR e1 e2]
  by (auto simp: expr_extract_eq_and_def expr_extract_eq_or_def part_value_def expr_calc_value_def unit_of_def
      split: prod.splits option.splits)

theorem expr_extract_eq_factors_witness:
  "calc_value demo_table (demo_values Yes Mod) (E_AND (E_SYMBOL (Sym 0)) (E_SYMBOL (Sym 1)))
    = EXPR_AND (calc_value demo_table (demo_values Yes Mod) (E_SYMBOL (Sym 1))) (calc_value demo_table (demo_values Yes Mod) (E_SYMBOL (Sym 0)))"
  using expr_extract_eq_factors [OF demo_consistent [of Yes Mod], of "E_AND (E_SYMBOL (Sym 0)) (E_SYMBOL (Sym 1))" "E_AND (E_SYMBOL (Sym 1)) (E_SYMBOL (Sym 2))"]
  by (simp add: expr_extract_eq_and_def extract_eq_by_def extract_leaf_def expr_eq.simps neutral_def expr_calc_value_def)

text \<open>
  Claim C32. The comparison of an expression with the constants \<^verbatim>\<open>y\<close> and \<^verbatim>\<open>n\<close>: \<^verbatim>\<open>expr_trans_compare\<close> returns an expression
  that is true exactly when the comparison holds, provided no symbol below a negation has the value \<open>Mod\<close>. The proviso
  is needed, see \<open>trans_compare_not_mod\<close>.
\<close>

theorem expr_trans_compare_correct:
  assumes "consistent T v" "c = symbol_yes \<or> c = symbol_no" "ty = T_EQUAL \<or> ty = T_UNEQUAL" "logical T e" "crisp_not v e"
  shows "\<exists>x. expr_trans_compare (Some e) ty c = Some x
    \<and> calc_value T v x = (if (calc_value T v e = tri (v c)) = (ty = T_EQUAL) then Yes else No)"
  using trans_compare_rule [OF assms(1-5)] by (simp add: expr_trans_compare_def truth_def)

theorem expr_trans_compare_correct_witness:
  "\<exists>x. expr_trans_compare (Some (E_OR (E_SYMBOL (Sym 0)) (E_NOT (E_SYMBOL (Sym 2))))) T_UNEQUAL symbol_no = Some x
    \<and> calc_value demo_table (demo_values Mod No) x = Yes"
  using expr_trans_compare_correct [OF demo_consistent [of Mod No], of symbol_no T_UNEQUAL "E_OR (E_SYMBOL (Sym 0)) (E_NOT (E_SYMBOL (Sym 2)))"]
  by (simp add: logical_symbol_def)

text \<open>Where the routine is wrong: \<^verbatim>\<open>!FOO != n\<close> becomes \<^verbatim>\<open>FOO = n\<close>, which is false when FOO is \<^verbatim>\<open>m\<close>, although \<^verbatim>\<open>!FOO\<close> is \<^verbatim>\<open>m\<close>;
  and a conjunction compared with \<^verbatim>\<open>m\<close> is returned as it is.\<close>

lemma trans_compare_not_mod:
  "expr_trans_compare (Some (E_NOT (E_SYMBOL (Sym 0)))) T_UNEQUAL symbol_no = Some (E_EQUAL (Sym 0) symbol_no)"
  "calc_value demo_table (demo_values Mod b) (E_NOT (E_SYMBOL (Sym 0))) = Mod"
  "calc_value demo_table (demo_values Mod b) (E_EQUAL (Sym 0) symbol_no) = No"
  by (simp_all add: expr_trans_compare_def string_value_tristate)

lemma trans_compare_junction_mod:
  "expr_trans_compare (Some (E_AND a b)) T_EQUAL symbol_mod = Some (E_AND a b)"
  by (simp add: expr_trans_compare_def not_if_def)

text \<open>
  \<^verbatim>\<open>expr_trans_bool\<close> (\<^verbatim>\<open>FOO!=n\<close> to \<^verbatim>\<open>FOO\<close>) keeps the value of an expression as long as no tristate symbol has the
  value \<open>Mod\<close>.
\<close>

theorem expr_trans_bool_value:
  assumes "consistent T v" "\<forall>s. sym_type T s \<noteq> S_TRISTATE \<or> tri (v s) \<noteq> Mod"
  shows "calc_value T v (expr_trans_bool T e) = calc_value T v e"
  by (rule trans_bool_rule) (use assms in auto)

theorem expr_trans_bool_value_witness:
  "expr_trans_bool demo_table (E_AND (E_UNEQUAL (Sym 0) symbol_no) (E_SYMBOL (Sym 2))) = E_AND (E_SYMBOL (Sym 0)) (E_SYMBOL (Sym 2))
   \<and> calc_value demo_table (demo_values Yes No) (E_AND (E_UNEQUAL (Sym 0) symbol_no) (E_SYMBOL (Sym 2))) = Yes"
proof -
  have "sym_type demo_table s \<noteq> S_TRISTATE \<or> tri (demo_values Yes No s) \<noteq> Mod" for s
    by (cases s) (simp_all add: demo_table_def)
  then show ?thesis
    using expr_trans_bool_value [OF demo_consistent [of Yes No], of "E_AND (E_UNEQUAL (Sym 0) symbol_no) (E_SYMBOL (Sym 2))"]
    by (simp add: string_value_tristate)
qed

text \<open>
  If \<^verbatim>\<open>expr_depends_symbol\<close> says that a dependency depends on a symbol, then the dependency is not met while
  that symbol is \<open>No\<close>; if \<^verbatim>\<open>expr_contains_symbol\<close> says that it does not contain the symbol, its value does not depend on it.
\<close>

theorem expr_depends_contains:
  assumes "consistent T v" "logical_symbol T c"
  shows "(\<not> expr_depends_symbol e c \<or> tri (v c) \<noteq> No \<or> calc_value T v e = No)
    \<and> (expr_contains_symbol e c \<or> calc_value T (v(c := x)) e = calc_value T v e)"
proof
  show "\<not> expr_depends_symbol e c \<or> tri (v c) \<noteq> No \<or> calc_value T v e = No"
    using depends_rule [OF assms] by blast
  show "expr_contains_symbol e c \<or> calc_value T (v(c := x)) e = calc_value T v e"
    using contains_rule [of e "v(c := x)" v T] by (metis fun_upd_other)
qed

theorem expr_depends_contains_witness:
  "calc_value demo_table (demo_values No Yes) (E_AND (E_SYMBOL (Sym 2)) (E_EQUAL (Sym 0) symbol_yes)) = No"
  using expr_depends_contains [OF demo_consistent [of No Yes], of "Sym 0" "E_AND (E_SYMBOL (Sym 2)) (E_EQUAL (Sym 0) symbol_yes)"]
  by (simp add: logical_symbol_def)

end
