(* ===== verification/KExprDups.thy ===== *)
theory KExprDups
  imports KExpr
begin

text \<open>
  The simplification of duplicates in \<^verbatim>\<open>expr.c\<close>: \<^verbatim>\<open>expr_join_or\<close>, \<^verbatim>\<open>expr_join_and\<close>, \<^verbatim>\<open>expr_eliminate_dups1\<close>,
  \<^verbatim>\<open>expr_eliminate_dups2\<close> and the loop of \<^verbatim>\<open>expr_eliminate_dups\<close>. The two passes work on one tree through two
  pointers into it. The nodes of the type in question are never changed by a pass, so that the tree is given by its
  shape and the list of the parts below these nodes, a pointer to a part is its index, and equal pointers are equal
  indices.
\<close>

section \<open>Two parts\<close>

definition is_simple :: "expr \<Rightarrow> bool" where
  "is_simple e \<longleftrightarrow> type_of e = T_EQUAL \<or> type_of e = T_UNEQUAL \<or> type_of e = T_SYMBOL \<or> type_of e = T_NOT"

fun left_sym :: "expr \<Rightarrow> symbol option" where
  "left_sym (E_SYMBOL s) = Some s"
| "left_sym (E_EQUAL s t) = Some s"
| "left_sym (E_UNEQUAL s t) = Some s"
| "left_sym _ = None"

definition join_sym1 :: "expr \<Rightarrow> symbol option" where
  "join_sym1 e = (case e of E_NOT tmp \<Rightarrow> left_sym tmp | _ \<Rightarrow> left_sym e)"

definition join_sym2 :: "expr \<Rightarrow> symbol option" where
  "join_sym2 e = (case e of E_NOT tmp \<Rightarrow> (case tmp of E_SYMBOL s \<Rightarrow> Some s | _ \<Rightarrow> None) | _ \<Rightarrow> left_sym e)"

definition is_equal :: "expr \<Rightarrow> symbol \<Rightarrow> bool" where
  "is_equal e c \<longleftrightarrow> (case e of E_EQUAL _ t \<Rightarrow> t = c | _ \<Rightarrow> False)"

definition is_unequal :: "expr \<Rightarrow> symbol \<Rightarrow> bool" where
  "is_unequal e c \<longleftrightarrow> (case e of E_UNEQUAL _ t \<Rightarrow> t = c | _ \<Rightarrow> False)"

definition is_symbol :: "expr \<Rightarrow> bool" where
  "is_symbol e \<longleftrightarrow> type_of e = T_SYMBOL"

definition is_not_symbol :: "expr \<Rightarrow> bool" where
  "is_not_symbol e \<longleftrightarrow> (case e of E_NOT a \<Rightarrow> is_symbol a | _ \<Rightarrow> False)"

text \<open>One condition each, in either order.\<close>

definition either :: "(expr \<Rightarrow> bool) \<Rightarrow> (expr \<Rightarrow> bool) \<Rightarrow> expr \<Rightarrow> expr \<Rightarrow> bool" where
  "either P Q e1 e2 \<longleftrightarrow> (P e1 \<and> Q e2) \<or> (Q e1 \<and> P e2)"

text \<open>The symbol both parts are about, if it is a boolean or tristate one.\<close>

definition join_sym :: "symtab \<Rightarrow> expr \<Rightarrow> expr \<Rightarrow> symbol option" where
  "join_sym T e1 e2 = (if \<not> is_simple e1 \<or> \<not> is_simple e2 then None
     else (case join_sym1 e1 of None \<Rightarrow> None | Some s1 \<Rightarrow> (case join_sym2 e2 of None \<Rightarrow> None
       | Some s2 \<Rightarrow> if s1 \<noteq> s2 \<or> (sym_type T s1 \<noteq> S_BOOLEAN \<and> sym_type T s1 \<noteq> S_TRISTATE) then None else Some s1)))"

definition expr_join_or :: "symtab \<Rightarrow> expr \<Rightarrow> expr \<Rightarrow> expr option" where
  "expr_join_or T e1 e2 =
     (if expr_eq e1 e2 then Some e1
      else (case join_sym T e1 e2 of None \<Rightarrow> None | Some s \<Rightarrow>
        if sym_type T s = S_TRISTATE then
          (if either (\<lambda>e. is_equal e symbol_yes) (\<lambda>e. is_equal e symbol_mod) e1 e2 then Some (E_UNEQUAL s symbol_no)
           else if either (\<lambda>e. is_equal e symbol_yes) (\<lambda>e. is_equal e symbol_no) e1 e2 then Some (E_UNEQUAL s symbol_mod)
           else if either (\<lambda>e. is_equal e symbol_mod) (\<lambda>e. is_equal e symbol_no) e1 e2 then Some (E_UNEQUAL s symbol_yes)
           else None)
        else if either is_not_symbol is_symbol e1 e2 then Some (E_SYMBOL symbol_yes)
        else None))"

text \<open>\<^verbatim>\<open>(a='b') && (a!='c')\<close> for constants.\<close>

definition join_consts :: "symtab \<Rightarrow> symbol \<Rightarrow> expr \<Rightarrow> expr \<Rightarrow> expr option" where
  "join_consts T s e1 e2 = (case (e1, e2) of
     (E_EQUAL _ b, E_UNEQUAL _ c) \<Rightarrow> if sym_const T c \<and> sym_const T b
        then Some (if b \<noteq> c then E_EQUAL s b else E_SYMBOL symbol_no) else None
   | (E_UNEQUAL _ c, E_EQUAL _ b) \<Rightarrow> if sym_const T c \<and> sym_const T b
        then Some (if b \<noteq> c then E_EQUAL s b else E_SYMBOL symbol_no) else None
   | _ \<Rightarrow> None)"

definition expr_join_and :: "symtab \<Rightarrow> expr \<Rightarrow> expr \<Rightarrow> expr option" where
  "expr_join_and T e1 e2 =
     (if expr_eq e1 e2 then Some e1
      else (case join_sym T e1 e2 of None \<Rightarrow> None | Some s \<Rightarrow>
        if either is_symbol (\<lambda>e. is_equal e symbol_yes) e1 e2 then Some (E_EQUAL s symbol_yes)
        else if either is_symbol (\<lambda>e. is_unequal e symbol_no) e1 e2 then Some (E_SYMBOL s)
        else if either is_symbol (\<lambda>e. is_unequal e symbol_mod) e1 e2 then Some (E_EQUAL s symbol_yes)
        else if sym_type T s = S_TRISTATE then
          (case join_consts T s e1 e2 of Some e \<Rightarrow> Some e
           | None \<Rightarrow>
               if either (\<lambda>e. is_unequal e symbol_yes) (\<lambda>e. is_unequal e symbol_no) e1 e2 then Some (E_EQUAL s symbol_mod)
               else if either (\<lambda>e. is_unequal e symbol_yes) (\<lambda>e. is_unequal e symbol_mod) e1 e2 then Some (E_EQUAL s symbol_no)
               else if either (\<lambda>e. is_unequal e symbol_mod) (\<lambda>e. is_unequal e symbol_no) e1 e2 then Some (E_EQUAL s symbol_yes)
               else None)
        else None))"

section \<open>The parts of a tree\<close>

fun leaves :: "expr_type \<Rightarrow> expr \<Rightarrow> expr list" where
  "leaves ty (E_AND l r) = (if ty = T_AND then leaves ty l @ leaves ty r else [E_AND l r])"
| "leaves ty (E_OR l r) = (if ty = T_OR then leaves ty l @ leaves ty r else [E_OR l r])"
| "leaves ty e = [e]"

text \<open>The shape with new parts, and the parts left over.\<close>

fun put_leaves :: "expr_type \<Rightarrow> expr \<Rightarrow> expr list \<Rightarrow> expr \<times> expr list" where
  "put_leaves ty (E_AND l r) ls = (if ty = T_AND then
     (case put_leaves ty l ls of (l, ls) \<Rightarrow> case put_leaves ty r ls of (r, ls) \<Rightarrow> (E_AND l r, ls)) else (hd ls, tl ls))"
| "put_leaves ty (E_OR l r) ls = (if ty = T_OR then
     (case put_leaves ty l ls of (l, ls) \<Rightarrow> case put_leaves ty r ls of (r, ls) \<Rightarrow> (E_OR l r, ls)) else (hd ls, tl ls))"
| "put_leaves ty e ls = (hd ls, tl ls)"

text \<open>The places the second pointer visits in the second pass, children before their node: index of the first
  part, and shape.\<close>

fun spots :: "expr_type \<Rightarrow> nat \<Rightarrow> expr \<Rightarrow> (nat \<times> expr) list" where
  "spots ty k (E_AND l r) = (if ty = T_AND then spots ty k l @ spots ty (k + length (leaves ty l)) r @ [(k, E_AND l r)] else [(k, E_AND l r)])"
| "spots ty k (E_OR l r) = (if ty = T_OR then spots ty k l @ spots ty (k + length (leaves ty l)) r @ [(k, E_OR l r)] else [(k, E_OR l r)])"
| "spots ty k e = [(k, e)]"

section \<open>The passes\<close>

text \<open>A pass returns the new expression and the number of replacements (\<^verbatim>\<open>trans_count\<close>); it first treats the inside of
  a part (argument \<open>inner\<close>).\<close>

definition inner_pass :: "(expr_type \<Rightarrow> expr \<Rightarrow> expr \<times> nat) \<Rightarrow> expr \<Rightarrow> expr \<times> nat" where
  "inner_pass inner e = (if is_junction (type_of e) then inner (type_of e) e else (e, 0))"

definition dups1_pair :: "symtab \<Rightarrow> (expr_type \<Rightarrow> expr \<Rightarrow> expr \<times> nat) \<Rightarrow> expr_type \<Rightarrow> nat \<times> nat \<Rightarrow> expr list \<times> nat \<Rightarrow> expr list \<times> nat" where
  "dups1_pair T inner ty = (\<lambda>(i, j) (ls, c). if i = j then (ls, c)
     else (case inner_pass inner (ls ! i) of (e1, c1) \<Rightarrow>
       (case (if ty = T_OR then expr_join_or T e1 (ls ! j) else expr_join_and T e1 (ls ! j)) of
          None \<Rightarrow> (ls[i := e1], c + c1)
        | Some tmp \<Rightarrow> (ls[i := neutral ty, j := tmp], c + c1 + 1))))"

primrec expr_eliminate_dups1 :: "nat \<Rightarrow> symtab \<Rightarrow> expr_type \<Rightarrow> expr \<Rightarrow> expr \<times> nat" where
  "expr_eliminate_dups1 0 T ty e = (e, 0)"
| "expr_eliminate_dups1 (Suc k) T ty e = (let n = length (leaves ty e) in
     case fold (dups1_pair T (expr_eliminate_dups1 k T) ty) (List.product [0..<n] [0..<n]) (leaves ty e, 0) of
       (ls, c) \<Rightarrow> (fst (put_leaves ty e ls), c))"

text \<open>Whether the parts of the negation of the first expression are all found in the second one.\<close>

definition negation_found :: "symtab \<Rightarrow> expr \<Rightarrow> expr \<Rightarrow> bool" where
  "negation_found T e1 e2 = (let tmp1 = expr_transform T (E_NOT e1) in
     if type_of e1 = T_OR then (case expr_extract_eq_and tmp1 e2 of (_, tmp1, _) \<Rightarrow> expr_is_yes (Some tmp1))
     else (case expr_extract_eq_or tmp1 e2 of (_, tmp1, _) \<Rightarrow> expr_is_no (Some tmp1)))"

definition dups2_spot :: "symtab \<Rightarrow> (expr_type \<Rightarrow> expr \<Rightarrow> expr \<times> nat) \<Rightarrow> expr_type \<Rightarrow> nat \<times> nat \<times> expr \<Rightarrow> expr list \<times> nat \<Rightarrow> expr list \<times> nat" where
  "dups2_spot T inner ty = (\<lambda>(i, k, shape) (ls, c).
     if (i = k \<and> type_of shape \<noteq> ty) \<or> \<not> is_junction (type_of (ls ! i)) then (ls, c)
     else (case inner_pass inner (ls ! i) of (e1, c1) \<Rightarrow>
       let ls = ls[i := e1] in
       if negation_found T e1 (fst (put_leaves ty shape (drop k ls)))
       then (ls[i := (if type_of e1 = T_OR then E_SYMBOL symbol_no else E_SYMBOL symbol_yes)], c + c1 + 1)
       else (ls, c + c1)))"

primrec expr_eliminate_dups2 :: "nat \<Rightarrow> symtab \<Rightarrow> expr_type \<Rightarrow> expr \<Rightarrow> expr \<times> nat" where
  "expr_eliminate_dups2 0 T ty e = (e, 0)"
| "expr_eliminate_dups2 (Suc k) T ty e = (let n = length (leaves ty e) in
     case fold (dups2_spot T (expr_eliminate_dups2 k T) ty) (List.product [0..<n] (spots ty 0 e)) (leaves ty e, 0) of
       (ls, c) \<Rightarrow> (fst (put_leaves ty e ls), c))"

text \<open>Both passes over the whole expression; the nesting of the types is less deep than the size.\<close>

definition dups_round :: "symtab \<Rightarrow> expr \<Rightarrow> expr \<times> nat" where
  "dups_round T e = (if is_junction (type_of e) then
       (case expr_eliminate_dups1 (size e) T (type_of e) e of (e, c1) \<Rightarrow>
        case expr_eliminate_dups2 (size e) T (type_of e) e of (e, c2) \<Rightarrow> (e, c1 + c2))
     else (e, 0))"

section \<open>The loop\<close>

text \<open>The constants that the passes leave behind are removed by \<^verbatim>\<open>expr_eliminate_yn\<close>, so that every round that
  replaced something makes the expression smaller.\<close>

fun has_const :: "expr \<Rightarrow> bool" where
  "has_const (E_AND a b) \<longleftrightarrow> has_const a \<or> has_const b"
| "has_const (E_OR a b) \<longleftrightarrow> has_const a \<or> has_const b"
| "has_const (E_SYMBOL s) \<longleftrightarrow> s = symbol_yes \<or> s = symbol_no"
| "has_const _ \<longleftrightarrow> False"

lemma eliminate_yn_size: "size (expr_eliminate_yn e) \<le> size e"
  by (induction e rule: expr_eliminate_yn.induct) (auto simp: Let_def)

lemma eliminate_yn_symbol: "size e = 0 \<Longrightarrow> expr_eliminate_yn e = e"
  by (cases e) simp_all

lemma eliminate_yn_shrinks: "has_const e \<Longrightarrow> size e \<noteq> 0 \<Longrightarrow> size (expr_eliminate_yn e) < size e"
proof -
  have "size (expr_eliminate_yn e) < size e \<or> expr_eliminate_yn e = E_SYMBOL symbol_yes \<or> expr_eliminate_yn e = E_SYMBOL symbol_no"
    if "has_const e" for e using that
  proof (induction e)
    case (E_OR a b)
    define l r where "l = expr_eliminate_yn a" and "r = expr_eliminate_yn b"
    have "size l \<le> size a" "size r \<le> size b" by (simp_all add: l_def r_def eliminate_yn_size)
    moreover have "size l < size a \<or> l = E_SYMBOL symbol_yes \<or> l = E_SYMBOL symbol_no \<or>
        size r < size b \<or> r = E_SYMBOL symbol_yes \<or> r = E_SYMBOL symbol_no"
      using E_OR unfolding l_def r_def by auto
    ultimately show ?case by (auto simp: l_def [symmetric] r_def [symmetric] Let_def)
  next
    case (E_AND a b)
    define l r where "l = expr_eliminate_yn a" and "r = expr_eliminate_yn b"
    have "size l \<le> size a" "size r \<le> size b" by (simp_all add: l_def r_def eliminate_yn_size)
    moreover have "size l < size a \<or> l = E_SYMBOL symbol_yes \<or> l = E_SYMBOL symbol_no \<or>
        size r < size b \<or> r = E_SYMBOL symbol_yes \<or> r = E_SYMBOL symbol_no"
      using E_AND unfolding l_def r_def by auto
    ultimately show ?case by (auto simp: l_def [symmetric] r_def [symmetric] Let_def)
  qed auto
  then show "has_const e \<Longrightarrow> size e \<noteq> 0 \<Longrightarrow> size (expr_eliminate_yn e) < size e" by fastforce
qed

lemma leaves_nonempty [simp]: "leaves ty e \<noteq> []"
  by (induction e) auto

lemma has_const_leaves: "has_const e \<longleftrightarrow> (\<exists>x \<in> set (leaves ty e). has_const x)"
  by (induction e) auto

lemma snd_put_leaves [simp]: "snd (put_leaves ty e ls) = drop (length (leaves ty e)) ls"
  by (induction e arbitrary: ls) (auto simp: drop_Suc add.commute split: prod.splits, (metis drop_drop snd_conv add.commute)+)

definition fill :: "expr_type \<Rightarrow> expr \<Rightarrow> expr list \<Rightarrow> expr" where
  "fill ty e ls = fst (put_leaves ty e ls)"

lemma fill_simps:
  "fill ty (E_AND l r) ls = (if ty = T_AND then E_AND (fill ty l ls) (fill ty r (drop (length (leaves ty l)) ls)) else hd ls)"
  "fill ty (E_OR l r) ls = (if ty = T_OR then E_OR (fill ty l ls) (fill ty r (drop (length (leaves ty l)) ls)) else hd ls)"
  "fill ty (E_NOT a) ls = hd ls" "fill ty (E_EQUAL s t) ls = hd ls" "fill ty (E_UNEQUAL s t) ls = hd ls" "fill ty (E_SYMBOL s) ls = hd ls"
  by (simp_all add: fill_def case_prod_beta)

text \<open>The size of a tree is that of its parts and the nodes above them.\<close>

definition sizes :: "expr list \<Rightarrow> nat" where
  "sizes ls = sum_list (map size ls)"

lemma sizes_simps [simp]: "sizes [] = 0" "sizes (x # xs) = size x + sizes xs" "sizes (xs @ ys) = sizes xs + sizes ys"
  by (simp_all add: sizes_def)

lemma size_leaves: "size e + 1 = length (leaves ty e) + sizes (leaves ty e)"
  by (induction e) auto

lemma hd_take_sizes: "ls \<noteq> [] \<Longrightarrow> sizes (take (Suc 0) ls) = size (hd ls)"
  by (cases ls) simp_all

lemma sizes_take_add: "sizes (take (n + k) ls) = sizes (take n ls) + sizes (take k (drop n ls))"
  by (simp add: take_add)

lemma size_fill: "length (leaves ty e) \<le> length ls \<Longrightarrow> size (fill ty e ls) + 1 = length (leaves ty e) + sizes (take (length (leaves ty e)) ls)"
proof (induction e arbitrary: ls)
  case (E_OR a b)
  have "size (fill ty a ls) + 1 = length (leaves ty a) + sizes (take (length (leaves ty a)) ls)" if "ty = T_OR"
    using E_OR(1) [of ls] E_OR(3) that by simp
  moreover have "size (fill ty b (drop (length (leaves ty a)) ls)) + 1
      = length (leaves ty b) + sizes (take (length (leaves ty b)) (drop (length (leaves ty a)) ls))" if "ty = T_OR"
    using E_OR(2) [of "drop (length (leaves ty a)) ls"] E_OR(3) that by simp
  ultimately show ?case using E_OR(3) by (cases "ty = T_OR"; cases ls) (auto simp: fill_simps sizes_take_add)
next
  case (E_AND a b)
  have "size (fill ty a ls) + 1 = length (leaves ty a) + sizes (take (length (leaves ty a)) ls)" if "ty = T_AND"
    using E_AND(1) [of ls] E_AND(3) that by simp
  moreover have "size (fill ty b (drop (length (leaves ty a)) ls)) + 1
      = length (leaves ty b) + sizes (take (length (leaves ty b)) (drop (length (leaves ty a)) ls))" if "ty = T_AND"
    using E_AND(2) [of "drop (length (leaves ty a)) ls"] E_AND(3) that by simp
  ultimately show ?case using E_AND(3) by (cases "ty = T_AND"; cases ls) (auto simp: fill_simps sizes_take_add)
qed (case_tac ls; simp add: fill_simps)+

lemma leaves_junction: "is_junction ty \<Longrightarrow> type_of e = ty \<Longrightarrow> 2 \<le> length (leaves ty e)"
proof -
  have "1 \<le> length (leaves ty x)" for ty x by (simp add: Suc_le_eq)
  from add_mono [OF this this] have two: "2 \<le> length (leaves ty x) + length (leaves ty y)" for ty x y by (simp add: numeral_2_eq_2)
  show "is_junction ty \<Longrightarrow> type_of e = ty \<Longrightarrow> 2 \<le> length (leaves ty e)"
    by (cases e) (use two in \<open>auto simp: is_junction_def\<close>)
qed

lemma has_const_hd: "Suc 0 \<le> length ls \<Longrightarrow> has_const (ls ! 0) \<Longrightarrow> has_const (hd ls)"
  by (cases ls) simp_all

lemma type_of_fill: "is_junction ty \<Longrightarrow> type_of e = ty \<Longrightarrow> type_of (fill ty e ls) = ty"
  by (cases e) (auto simp: is_junction_def fill_simps)

lemma has_const_fill:
  "length (leaves ty e) \<le> length ls \<Longrightarrow> k < length (leaves ty e) \<Longrightarrow> has_const (ls ! k) \<Longrightarrow> has_const (fill ty e ls)"
proof (induction e arbitrary: ls k)
  case (E_OR a b)
  show ?case using E_OR(1) [of ls k] E_OR(2) [of "drop (length (leaves ty a)) ls" "k - length (leaves ty a)"] E_OR(3-)
    by (cases "k < length (leaves ty a)") (auto simp: fill_simps has_const_hd split: if_splits)
next
  case (E_AND a b)
  show ?case using E_AND(1) [of ls k] E_AND(2) [of "drop (length (leaves ty a)) ls" "k - length (leaves ty a)"] E_AND(3-)
    by (cases "k < length (leaves ty a)") (auto simp: fill_simps has_const_hd split: if_splits)
qed (case_tac ls; simp add: fill_simps)+

lemma sizes_update: "i < length ls \<Longrightarrow> sizes (ls[i := x]) + size (ls ! i) = sizes ls + size x"
  by (induction ls arbitrary: i) (auto split: nat.splits)

lemma size_nth_sizes: "i < length ls \<Longrightarrow> size (ls ! i) \<le> sizes ls"
  by (induction ls arbitrary: i) (auto simp: nth_Cons trans_le_add2 split: nat.splits)

lemma sizes_update2: "i < length ls \<Longrightarrow> j < length ls \<Longrightarrow> i \<noteq> j \<Longrightarrow>
    sizes (ls[i := x, j := y]) + size (ls ! i) + size (ls ! j) = sizes ls + size x + size y"
  using sizes_update [of j "ls[i := x]" y] sizes_update [of i ls x] by simp

text \<open>A fold whose step agrees with another one, and keeps an invariant.\<close>

lemma fold_agree:
  "(\<And>x s. x \<in> set xs \<Longrightarrow> P s \<Longrightarrow> f x s = g x s \<and> P (g x s)) \<Longrightarrow> P s \<Longrightarrow> fold f xs s = fold g xs s \<and> P (fold g xs s)"
  by (induction xs arbitrary: s) auto

section \<open>What a pass promises\<close>

locale pass =
  fixes run :: "expr_type \<Rightarrow> expr \<Rightarrow> expr \<times> nat"
  assumes run_size: "is_junction (type_of e) \<Longrightarrow> run (type_of e) e = (e', c) \<Longrightarrow> size e' \<le> size e"
    and run_type: "is_junction (type_of e) \<Longrightarrow> run (type_of e) e = (e', c) \<Longrightarrow> type_of e' = type_of e"
    and run_const: "is_junction (type_of e) \<Longrightarrow> run (type_of e) e = (e', c) \<Longrightarrow> 0 < c \<or> has_const e \<Longrightarrow> has_const e'"
    and run_same: "is_junction (type_of e) \<Longrightarrow> run (type_of e) e = (e', 0) \<Longrightarrow> e' = e"
begin

lemma inner_size: "inner_pass run e = (e', c) \<Longrightarrow> size e' \<le> size e"
  by (cases "is_junction (type_of e)") (simp_all add: inner_pass_def run_size)

lemma inner_type: "inner_pass run e = (e', c) \<Longrightarrow> type_of e' = type_of e"
  by (cases "is_junction (type_of e)") (auto simp: inner_pass_def dest: run_type)

lemma inner_const: "inner_pass run e = (e', c) \<Longrightarrow> 0 < c \<or> has_const e \<Longrightarrow> has_const e'"
  by (cases "is_junction (type_of e)") (simp_all add: inner_pass_def run_const)

lemma inner_same: "inner_pass run e = (e', 0) \<Longrightarrow> e' = e"
  by (cases "is_junction (type_of e)") (simp_all add: inner_pass_def run_same)

text \<open>A pass that replaced something, then the constants: the expression is smaller.\<close>

lemma run_then_shrinks:
  assumes "is_junction (type_of e)" "run (type_of e) e = (e', c)" "0 < c"
  shows "size (expr_eliminate_yn e') < size e"
proof -
  have "size e' \<noteq> 0" using run_type [OF assms(1,2)] assms(1) by (cases e') (auto simp: is_junction_def)
  with run_const [OF assms(1,2)] assms(3) have "size (expr_eliminate_yn e') < size e'" by (simp add: eliminate_yn_shrinks)
  also have "\<dots> \<le> size e" by (rule run_size [OF assms(1,2)])
  finally show ?thesis .
qed

end

text \<open>The parts during a pass: there are as many as at the start, together not larger; a replacement leaves a constant.\<close>

definition part_inv :: "expr list \<Rightarrow> expr list \<times> nat \<Rightarrow> bool" where
  "part_inv ls0 = (\<lambda>(ls, c). length ls = length ls0 \<and> sizes ls \<le> sizes ls0 \<and> (c = 0 \<longrightarrow> ls = ls0)
     \<and> (0 < c \<or> (\<exists>x \<in> set ls0. has_const x) \<longrightarrow> (\<exists>k < length ls. has_const (ls ! k))))"

lemma part_inv_start: "part_inv ls (ls, 0)"
  by (auto simp: part_inv_def in_set_conv_nth)

lemma fill_leaves: "fill ty e (leaves ty e @ ls) = e"
  by (induction e arbitrary: ls) (auto simp: fill_simps)

lemma part_inv_fill:
  assumes "part_inv (leaves (type_of e) e) (ls, c)" "is_junction (type_of e)"
  defines "e' \<equiv> fill (type_of e) e ls"
  shows "size e' \<le> size e" "type_of e' = type_of e" "0 < c \<or> has_const e \<Longrightarrow> has_const e'" "c = 0 \<Longrightarrow> e' = e"
proof -
  show "size e' \<le> size e"
    using assms(1) size_fill [of "type_of e" e ls] size_leaves [of e "type_of e"] by (simp add: part_inv_def e'_def)
  show "type_of e' = type_of e" using assms(2) by (simp add: e'_def type_of_fill)
  show "has_const e'" if "0 < c \<or> has_const e"
    using assms(1) that has_const_fill [of "type_of e" e ls] has_const_leaves [of e "type_of e"] by (auto simp: part_inv_def e'_def)
  show "e' = e" if "c = 0"
    using assms(1) that fill_leaves [of "type_of e" e "[]"] by (simp add: part_inv_def e'_def)
qed

text \<open>A part is replaced by its inner pass, or by a constant.\<close>

lemma part_inv_inner:
  assumes "part_inv ls0 (ls, c)" "i < length ls" "size e1 \<le> size (ls ! i)" "0 < c1 \<or> has_const (ls ! i) \<Longrightarrow> has_const e1"
    "c1 = 0 \<Longrightarrow> e1 = ls ! i"
  shows "part_inv ls0 (ls[i := e1], c + c1)"
proof -
  have "\<exists>k < length ls. has_const (ls[i := e1] ! k)" if "0 < c + c1 \<or> (\<exists>x \<in> set ls0. has_const x)"
  proof (cases "has_const e1")
    case True
    then show ?thesis using assms(2) by (intro exI [of _ i]) simp
  next
    case False
    then have "c1 = 0" using assms(4) by (cases c1) auto
    with that assms(1) obtain k where "k < length ls" "has_const (ls ! k)" unfolding part_inv_def prod.case by auto
    moreover from this have "k \<noteq> i" using False assms(4) by (cases "k = i") auto
    ultimately show ?thesis by (intro exI [of _ k]) simp
  qed
  then show ?thesis using assms(1,2,3,5) sizes_update [of i ls e1] by (auto simp: part_inv_def)
qed

lemma part_inv_const:
  assumes "part_inv ls0 (ls, c)" "i < length ls" "has_const e1" "size e1 = 0"
  shows "part_inv ls0 (ls[i := e1], c + Suc k)"
  using assms sizes_update [of i ls e1] by (auto simp: part_inv_def intro: exI [of _ i])

lemma has_const_neutral [simp]: "has_const (neutral ty)"
  by (simp add: neutral_def)

lemma part_inv_join:
  assumes "part_inv ls0 (ls, c)" "i < length ls" "j < length ls" "i \<noteq> j" "size t \<le> size (ls ! i)"
  shows "part_inv ls0 (ls[i := neutral ty, j := t], c + Suc k)"
  using assms sizes_update2 [of i ls j "neutral ty" t]
  unfolding part_inv_def prod.case by (intro conjI impI exI [of _ i]) auto

section \<open>Both passes keep the promise\<close>

lemma join_or_size: "expr_join_or T e1 e2 = Some t \<Longrightarrow> size t \<le> size e1"
  by (auto simp: expr_join_or_def split: if_splits option.splits)

lemma join_consts_size: "join_consts T s e1 e2 = Some t \<Longrightarrow> size t = 0"
  by (cases e1; cases e2) (auto simp: join_consts_def split: if_splits)

lemma join_and_size: "expr_join_and T e1 e2 = Some t \<Longrightarrow> size t \<le> size e1"
  by (auto simp: expr_join_and_def split: if_splits option.splits dest: join_consts_size)

context pass begin

lemma part_inv_dups1:
  assumes "part_inv ls0 s" "i < length ls0" "j < length ls0"
  shows "part_inv ls0 (dups1_pair T run ty (i, j) s)"
proof -
  obtain ls c where s: "s = (ls, c)" by fastforce
  obtain e1 c1 where e1: "inner_pass run (ls ! i) = (e1, c1)" by fastforce
  have len: "length ls = length ls0" using assms(1) by (simp add: part_inv_def s)
  have t: "size t \<le> size (ls ! i)" if "(if ty = T_OR then expr_join_or T e1 (ls ! j) else expr_join_and T e1 (ls ! j)) = Some t" for t
  proof -
    have "size t \<le> size e1" using that join_or_size join_and_size by (auto split: if_splits)
    with inner_size [OF e1] show ?thesis by simp
  qed
  show ?thesis
  proof (cases "if ty = T_OR then expr_join_or T e1 (ls ! j) else expr_join_and T e1 (ls ! j)")
    case None
    have "part_inv ls0 (ls[i := e1], c + c1)"
      by (rule part_inv_inner [OF assms(1) [unfolded s]]) (use assms(2) len e1 inner_size inner_const inner_same in auto)
    with None show ?thesis using assms(1) by (simp add: dups1_pair_def s e1)
  next
    case (Some t)
    have "i \<noteq> j \<Longrightarrow> part_inv ls0 (ls[i := neutral ty, j := t], c + Suc c1)"
      by (rule part_inv_join [OF assms(1) [unfolded s]]) (use assms len t Some in auto)
    with Some show ?thesis using assms(1) by (simp add: dups1_pair_def s e1)
  qed
qed

lemma part_inv_dups2:
  assumes "part_inv ls0 s" "i < length ls0"
  shows "part_inv ls0 (dups2_spot T run ty (i, k, shape) s)"
proof -
  obtain ls c where s: "s = (ls, c)" by fastforce
  obtain e1 c1 where e1: "inner_pass run (ls ! i) = (e1, c1)" by fastforce
  have len: "length ls = length ls0" using assms(1) by (simp add: part_inv_def s)
  have a: "part_inv ls0 (ls[i := e1], c + c1)"
    by (rule part_inv_inner [OF assms(1) [unfolded s]]) (use assms(2) len e1 inner_size inner_const inner_same in auto)
  have b: "part_inv ls0 (ls[i := if type_of e1 = T_OR then E_SYMBOL symbol_no else E_SYMBOL symbol_yes], c + Suc c1)"
    by (rule part_inv_const [OF assms(1) [unfolded s]]) (use assms(2) len in auto)
  show ?thesis using assms(1) a b by (auto simp: dups2_spot_def s e1 Let_def)
qed

end

lemma passI:
  assumes "\<And>e e' c. is_junction (type_of e) \<Longrightarrow> f (type_of e) e = (e', c) \<Longrightarrow> \<exists>ls. part_inv (leaves (type_of e) e) (ls, c) \<and> e' = fill (type_of e) e ls"
  shows "pass f"
  by unfold_locales (use assms part_inv_fill in blast)+

lemma dups1_pass: "pass (expr_eliminate_dups1 k T)"
proof (induction k)
  case 0
  show ?case by unfold_locales (auto simp: is_junction_def)
next
  case (Suc k)
  show ?case
  proof (rule passI)
    fix e e' c
    let ?l = "leaves (type_of e) e"
    assume r: "expr_eliminate_dups1 (Suc k) T (type_of e) e = (e', c)"
    obtain ls c' where f: "fold (dups1_pair T (expr_eliminate_dups1 k T) (type_of e)) (List.product [0..<length ?l] [0..<length ?l]) (?l, 0) = (ls, c')"
      by fastforce
    have "part_inv ?l (fold (dups1_pair T (expr_eliminate_dups1 k T) (type_of e)) (List.product [0..<length ?l] [0..<length ?l]) (?l, 0))"
      by (rule fold_invariant [where Q = "\<lambda>(i, j). i < length ?l \<and> j < length ?l"])
         (auto simp: part_inv_start intro: pass.part_inv_dups1 [OF Suc])
    with r f show "\<exists>ls. part_inv ?l (ls, c) \<and> e' = fill (type_of e) e ls"
      by (auto simp: Let_def fill_def)
  qed
qed

lemma dups2_pass: "pass (expr_eliminate_dups2 k T)"
proof (induction k)
  case 0
  show ?case by unfold_locales (auto simp: is_junction_def)
next
  case (Suc k)
  show ?case
  proof (rule passI)
    fix e e' c
    let ?l = "leaves (type_of e) e"
    assume r: "expr_eliminate_dups2 (Suc k) T (type_of e) e = (e', c)"
    obtain ls c' where f: "fold (dups2_spot T (expr_eliminate_dups2 k T) (type_of e)) (List.product [0..<length ?l] (spots (type_of e) 0 e)) (?l, 0) = (ls, c')"
      by fastforce
    have "part_inv ?l (fold (dups2_spot T (expr_eliminate_dups2 k T) (type_of e)) (List.product [0..<length ?l] (spots (type_of e) 0 e)) (?l, 0))"
      by (rule fold_invariant [where Q = "\<lambda>(i, _). i < length ?l"])
         (auto simp: part_inv_start intro: pass.part_inv_dups2 [OF Suc])
    with r f show "\<exists>ls. part_inv ?l (ls, c) \<and> e' = fill (type_of e) e ls"
      by (auto simp: Let_def fill_def)
  qed
qed

interpretation dups1: pass "expr_eliminate_dups1 k T" for k T
  by (rule dups1_pass)

interpretation dups2: pass "expr_eliminate_dups2 k T" for k T
  by (rule dups2_pass)

lemma dups_round_shrinks: "dups_round T e = (e', c) \<Longrightarrow> 0 < c \<Longrightarrow> size (expr_eliminate_yn e') < size e"
proof (cases "is_junction (type_of e)")
  case True
  assume r: "dups_round T e = (e', c)" "0 < c"
  obtain a m b n where a: "expr_eliminate_dups1 (size e) T (type_of e) e = (a, m)"
    and b: "expr_eliminate_dups2 (size a) T (type_of a) a = (b, n)" by fastforce
  have e': "e' = b" "c = m + n" using r True a b by (simp_all add: dups_round_def)
  have ta: "type_of a = type_of e" by (rule dups1.run_type [OF True a])
  then have j: "is_junction (type_of a)" using True by simp
  have "size a \<le> size e" by (rule dups1.run_size [OF True a])
  moreover have "size b \<le> size a" by (rule dups2.run_size [OF j b])
  moreover have "has_const b"
    using r(2) e' dups1.run_const [OF True a] dups2.run_const [OF j b] by (cases m) auto
  moreover have "size b \<noteq> 0" using dups2.run_type [OF j b] j by (cases b) (auto simp: is_junction_def)
  ultimately show ?thesis using eliminate_yn_shrinks [of b] e' by simp
qed (auto simp: dups_round_def)

function expr_eliminate_dups :: "symtab \<Rightarrow> expr \<Rightarrow> expr" where
  "expr_eliminate_dups T e = (case dups_round T e of (e', c) \<Rightarrow> if c = 0 then e' else expr_eliminate_dups T (expr_eliminate_yn e'))"
  by pat_completeness auto
termination
  by (relation "measure (\<lambda>(T, e). size e)") (auto dest: dups_round_shrinks [OF sym])

declare expr_eliminate_dups.simps [simp del]

end
