(* ===== verification/KExprDupsProps.thy ===== *)
theory KExprDupsProps
  imports KExprProps KExprDups
begin

text \<open>
  Correctness of the simplification of duplicates: joining two parts and the first pass keep the value of an
  expression, the second pass keeps it when no symbol has the value \<open>Mod\<close>, the loop ends, and its result is a fixed
  point of both passes.
\<close>

section \<open>Joining two parts\<close>

lemma join_sym_cases:
  assumes "join_sym T e1 e2 = Some s"
  shows "join_sym1 e1 = Some s" "join_sym2 e2 = Some s" "sym_type T s = S_BOOLEAN \<or> sym_type T s = S_TRISTATE"
  using assms by (auto simp: join_sym_def split: if_splits option.splits)

lemma is_test_cases:
  "is_equal e c \<longleftrightarrow> (\<exists>s. e = E_EQUAL s c)" "is_unequal e c \<longleftrightarrow> (\<exists>s. e = E_UNEQUAL s c)" "is_symbol e \<longleftrightarrow> (\<exists>s. e = E_SYMBOL s)"
  "is_not_symbol e \<longleftrightarrow> (\<exists>s. e = E_NOT (E_SYMBOL s))"
  by (cases e; auto simp: is_equal_def is_unequal_def is_symbol_def is_not_symbol_def type_of_def split: expr.splits)+

lemma join_sym_simps [simp]:
  "join_sym1 (E_SYMBOL s) = Some s" "join_sym1 (E_EQUAL s t) = Some s" "join_sym1 (E_UNEQUAL s t) = Some s" "join_sym1 (E_NOT (E_SYMBOL s)) = Some s"
  "join_sym2 (E_SYMBOL s) = Some s" "join_sym2 (E_EQUAL s t) = Some s" "join_sym2 (E_UNEQUAL s t) = Some s" "join_sym2 (E_NOT (E_SYMBOL s)) = Some s"
  by (simp_all add: join_sym1_def join_sym2_def)

lemma tristate_exhaust: "t = No \<or> t = Mod \<or> t = Yes"
  by (cases t) auto

lemma join_or_rule:
  assumes "consistent T v" "expr_join_or T e1 e2 = Some t"
  shows "calc_value T v t = EXPR_OR (calc_value T v e1) (calc_value T v e2)"
proof (cases "expr_eq e1 e2")
  case True
  then show ?thesis using assms(2) expr_eq_rule [OF assms(1) True] by (simp add: expr_join_or_def)
next
  case False
  then obtain s where s: "join_sym T e1 e2 = Some s" using assms(2) by (auto simp: expr_join_or_def split: option.splits)
  note j = join_sym_cases [OF s]
  show ?thesis using assms(2) False s j consistent_boolean [OF assms(1), of s] tristate_exhaust [of "tri (v s)"]
    by (auto simp: expr_join_or_def either_def is_test_cases string_value_tristate [OF j(3)] con_val [OF assms(1)] split: if_splits)
qed

lemma const_strings:
  assumes "consistent T v" "sym_const T b" "sym_const T c"
  shows "sym_get_string_value T v b = sym_get_string_value T v c \<longleftrightarrow> b = c"
  using assms by (auto simp: consistent_def sym_get_string_value_def)

lemma join_consts_rule:
  assumes "consistent T v" "join_consts T s e1 e2 = Some t" "join_sym1 e1 = Some s" "join_sym2 e2 = Some s"
  shows "calc_value T v t = EXPR_AND (calc_value T v e1) (calc_value T v e2)"
  using assms(2-) const_strings [OF assms(1)]
  by (cases e1; cases e2) (auto simp: join_consts_def con_val [OF assms(1)] split: if_splits)

lemma if_SomeE:
  "(if c then Some a else x) = Some t \<Longrightarrow> (c \<Longrightarrow> t = a \<Longrightarrow> R) \<Longrightarrow> (x = Some t \<Longrightarrow> R) \<Longrightarrow> R"
  "(if c then x else None) = Some t \<Longrightarrow> (x = Some t \<Longrightarrow> R) \<Longrightarrow> R"
  by (cases c; simp)+

lemma case_SomeE:
  "(case d of None \<Rightarrow> x | Some e \<Rightarrow> Some e) = Some t \<Longrightarrow> (d = Some t \<Longrightarrow> R) \<Longrightarrow> (x = Some t \<Longrightarrow> R) \<Longrightarrow> R"
  by (cases d; simp)

text \<open>The rules of \<^verbatim>\<open>expr_join_and\<close> for one symbol: which tests of it, in either order, give which other one.\<close>

lemma join_and_cases:
  assumes "expr_join_and T e1 e2 = Some t" "\<not> expr_eq e1 e2" "join_sym T e1 e2 = Some s"
  obtains "either is_symbol (\<lambda>e. is_equal e symbol_yes) e1 e2" "t = E_EQUAL s symbol_yes"
  | "either is_symbol (\<lambda>e. is_unequal e symbol_no) e1 e2" "t = E_SYMBOL s"
  | "either is_symbol (\<lambda>e. is_unequal e symbol_mod) e1 e2" "t = E_EQUAL s symbol_yes"
  | "join_consts T s e1 e2 = Some t"
  | "either (\<lambda>e. is_unequal e symbol_yes) (\<lambda>e. is_unequal e symbol_no) e1 e2" "t = E_EQUAL s symbol_mod"
  | "either (\<lambda>e. is_unequal e symbol_yes) (\<lambda>e. is_unequal e symbol_mod) e1 e2" "t = E_EQUAL s symbol_no"
  | "either (\<lambda>e. is_unequal e symbol_mod) (\<lambda>e. is_unequal e symbol_no) e1 e2" "t = E_EQUAL s symbol_yes"
proof -
  have "(if either is_symbol (\<lambda>e. is_equal e symbol_yes) e1 e2 then Some (E_EQUAL s symbol_yes)
        else if either is_symbol (\<lambda>e. is_unequal e symbol_no) e1 e2 then Some (E_SYMBOL s)
        else if either is_symbol (\<lambda>e. is_unequal e symbol_mod) e1 e2 then Some (E_EQUAL s symbol_yes)
        else if sym_type T s = S_TRISTATE then
          (case join_consts T s e1 e2 of Some e \<Rightarrow> Some e
           | None \<Rightarrow>
               if either (\<lambda>e. is_unequal e symbol_yes) (\<lambda>e. is_unequal e symbol_no) e1 e2 then Some (E_EQUAL s symbol_mod)
               else if either (\<lambda>e. is_unequal e symbol_yes) (\<lambda>e. is_unequal e symbol_mod) e1 e2 then Some (E_EQUAL s symbol_no)
               else if either (\<lambda>e. is_unequal e symbol_mod) (\<lambda>e. is_unequal e symbol_no) e1 e2 then Some (E_EQUAL s symbol_yes)
               else None)
        else None) = Some t"
    using assms(1) unfolding expr_join_and_def assms(3) option.case if_not_P [OF assms(2)] .
  then show ?thesis
    by (elim if_SomeE case_SomeE) (erule that; assumption | simp)+
qed

lemma either_cases:
  assumes "either P Q e1 e2"
  obtains "P e1" "Q e2" | "Q e1" "P e2"
  using assms by (auto simp: either_def)

lemma join_and_rule:
  assumes "consistent T v" "expr_join_and T e1 e2 = Some t"
  shows "calc_value T v t = EXPR_AND (calc_value T v e1) (calc_value T v e2)"
proof (cases "expr_eq e1 e2")
  case True
  then show ?thesis using assms(2) expr_eq_rule [OF assms(1) True] by (simp add: expr_join_and_def)
next
  case False
  then obtain s where s: "join_sym T e1 e2 = Some s" using assms(2) by (auto simp: expr_join_and_def split: option.splits)
  note j = join_sym_cases [OF s]
  note tests = is_test_cases string_value_tristate [OF j(3)] con_val [OF assms(1)]
  have t: "tri (v s) = No \<or> tri (v s) = Mod \<or> tri (v s) = Yes" by (rule tristate_exhaust)
  from assms(2) False s show ?thesis
  proof (cases rule: join_and_cases)
    case 4
    then show ?thesis by (rule join_consts_rule [OF assms(1) _ j(1,2)])
  qed (use t j(1,2) in \<open>auto simp: tests elim!: either_cases\<close>)
qed

section \<open>The value of the parts\<close>

definition parts_value :: "symtab \<Rightarrow> (symbol \<Rightarrow> symbol_value) \<Rightarrow> expr_type \<Rightarrow> expr list \<Rightarrow> tristate" where
  "parts_value T v ty ls = foldr (junction ty) (map (calc_value T v) ls) (unit_of ty)"

lemma parts_value_simps [simp]:
  "parts_value T v ty [] = unit_of ty"
  "parts_value T v ty (x # xs) = junction ty (calc_value T v x) (parts_value T v ty xs)"
  "parts_value T v ty (xs @ ys) = junction ty (parts_value T v ty xs) (parts_value T v ty ys)"
proof -
  show "parts_value T v ty (xs @ ys) = junction ty (parts_value T v ty xs) (parts_value T v ty ys)"
    by (induction xs) (simp_all add: parts_value_def junction_ac)
qed (simp_all add: parts_value_def)

lemma calc_leaves: "parts_value T v ty (leaves ty e) = calc_value T v e"
proof (induction e)
  case (E_OR a b)
  then show ?case by (cases "ty = T_OR") simp_all
next
  case (E_AND a b)
  then show ?case by (cases "ty = T_AND") simp_all
qed simp_all

lemma calc_fill: "length (leaves ty e) \<le> length ls \<Longrightarrow> calc_value T v (fill ty e ls) = parts_value T v ty (take (length (leaves ty e)) ls)"
proof (induction e arbitrary: ls)
  case (E_OR a b)
  then show ?case by (cases "ty = T_OR"; cases ls) (auto simp: fill_simps take_add)
next
  case (E_AND a b)
  then show ?case by (cases "ty = T_AND"; cases ls) (auto simp: fill_simps take_add)
qed (case_tac ls; simp add: fill_simps)+

lemma junction_absorb: "junction ty a (junction ty a b) = junction ty a b"
  by (simp add: junction_ac(2) [symmetric])

lemma parts_value_update:
  "i < length ls \<Longrightarrow> parts_value T v ty (ls[i := x]) = junction ty (calc_value T v x) (parts_value T v ty (take i ls @ drop (Suc i) ls))"
  by (simp add: upd_conv_take_nth_drop junction_ac)

lemma parts_value_nth: "i < length ls \<Longrightarrow> parts_value T v ty ls = junction ty (calc_value T v (ls ! i)) (parts_value T v ty (take i ls @ drop (Suc i) ls))"
  using parts_value_update [of i ls T v ty "ls ! i"] by simp

lemma parts_value_same:
  "i < length ls \<Longrightarrow> calc_value T v x = calc_value T v (ls ! i) \<Longrightarrow> parts_value T v ty (ls[i := x]) = parts_value T v ty ls"
  by (simp only: parts_value_update parts_value_nth [of i ls])

text \<open>The join of two parts, one of them replaced by the neutral constant.\<close>

lemma parts_value_join:
  assumes "consistent T v" "i < length ls" "j < length ls" "i \<noteq> j"
    and "calc_value T v t = junction ty (calc_value T v (ls ! i)) (calc_value T v (ls ! j))"
  shows "parts_value T v ty (ls[i := neutral ty, j := t]) = parts_value T v ty ls"
proof -
  let ?r = "ls[i := neutral ty]"
  let ?o = "parts_value T v ty (take i ls @ drop (Suc i) ls)"
  have o: "parts_value T v ty ?r = ?o" using assms(1,2) by (simp only: parts_value_update calc_neutral junction_unit)
  have "parts_value T v ty (?r[j := t]) = junction ty (calc_value T v t) (parts_value T v ty (take j ?r @ drop (Suc j) ?r))"
    using assms(3) by (simp only: parts_value_update length_list_update)
  also have "\<dots> = junction ty (calc_value T v (ls ! i)) (parts_value T v ty ?r)"
    using assms(3,5) nth_list_update_neq [OF assms(4), of ls "neutral ty"]
    by (simp only: parts_value_nth [of j ?r] length_list_update junction_ac)
  also have "\<dots> = parts_value T v ty ls" by (simp only: o parts_value_nth [OF assms(2)])
  finally show ?thesis .
qed

lemma parts_value_part: "i < length ls \<Longrightarrow> junction ty (calc_value T v (ls ! i)) (parts_value T v ty ls) = parts_value T v ty ls"
  by (simp only: parts_value_nth [of i ls] junction_absorb)

lemma parts_value_range: "junction ty (parts_value T v ty (take m (drop k ls))) (parts_value T v ty ls) = parts_value T v ty ls"
proof -
  have "ls = take k ls @ take m (drop k ls) @ drop m (drop k ls)" by (simp only: append_take_drop_id)
  then have "parts_value T v ty ls = junction ty (parts_value T v ty (take k ls))
      (junction ty (parts_value T v ty (take m (drop k ls))) (parts_value T v ty (drop m (drop k ls))))"
    by (metis parts_value_simps(3))
  then show ?thesis by (simp add: junction_ac junction_absorb)
qed

section \<open>Parts without the third value\<close>

lemma crisp_leaves: "crisp v e \<longleftrightarrow> (\<forall>x \<in> set (leaves ty e). crisp v x)"
  by (induction e) auto

lemma crisp_fill:
  "length (leaves ty e) \<le> length ls \<Longrightarrow> (\<And>x. x \<in> set ls \<Longrightarrow> crisp v x) \<Longrightarrow> crisp v (fill ty e ls)"
proof (induction e arbitrary: ls)
  case (E_OR a b)
  have "crisp v x" if "x \<in> set (drop n ls)" for x n using E_OR(4) in_set_dropD [OF that] .
  then show ?case using E_OR by (auto simp: fill_simps hd_conv_nth Suc_le_eq)
next
  case (E_AND a b)
  have "crisp v x" if "x \<in> set (drop n ls)" for x n using E_AND(4) in_set_dropD [OF that] .
  then show ?case using E_AND by (auto simp: fill_simps hd_conv_nth Suc_le_eq)
qed (case_tac ls; simp add: fill_simps)+

lemma type_of_leaves: "is_junction ty \<Longrightarrow> x \<in> set (leaves ty e) \<Longrightarrow> type_of x \<noteq> ty"
  by (induction e) (auto simp: is_junction_def split: if_splits)

lemma join_or_type: "expr_join_or T e1 e2 = Some t \<Longrightarrow> t = e1 \<or> type_of t \<in> {T_EQUAL, T_UNEQUAL, T_SYMBOL}"
  unfolding expr_join_or_def by (cases "expr_eq e1 e2"; cases "join_sym T e1 e2") (auto elim!: if_SomeE split: if_split_asm)

lemma join_or_crisp: "consistent T v \<Longrightarrow> expr_join_or T e1 e2 = Some t \<Longrightarrow> crisp v e1 \<Longrightarrow> crisp v t"
  unfolding expr_join_or_def by (cases "expr_eq e1 e2"; cases "join_sym T e1 e2") (auto simp: con_val split: if_split_asm)

lemma join_consts_type:
  "join_consts T s e1 e2 = Some t \<Longrightarrow> type_of t = T_EQUAL \<or> t = E_SYMBOL symbol_no"
  by (cases e1; cases e2) (auto simp: join_consts_def split: if_splits)

lemma join_and_type:
  assumes "expr_join_and T e1 e2 = Some t"
  shows "t = e1 \<or> type_of t \<in> {T_EQUAL, T_UNEQUAL, T_SYMBOL}"
proof (cases "expr_eq e1 e2")
  case False
  then obtain s where s: "join_sym T e1 e2 = Some s" using assms by (auto simp: expr_join_and_def split: option.splits)
  from assms False s show ?thesis by (cases rule: join_and_cases) (auto dest: join_consts_type)
qed (use assms in \<open>simp add: expr_join_and_def\<close>)

lemma join_and_crisp:
  assumes "consistent T v" "expr_join_and T e1 e2 = Some t" "crisp v e1" "crisp v e2"
  shows "crisp v t"
proof (cases "expr_eq e1 e2")
  case False
  then obtain s where s: "join_sym T e1 e2 = Some s" using assms(2) by (auto simp: expr_join_and_def split: option.splits)
  note j = join_sym_cases [OF s]
  from assms(2) False s show ?thesis
  proof (cases rule: join_and_cases)
    case 2
    then show ?thesis using j(1,2) assms(3,4) by (auto simp: is_test_cases elim!: either_cases)
  next
    case 4
    then show ?thesis by (cases t) (auto dest!: join_consts_type simp: con_val [OF assms(1)])
  qed auto
qed (use assms in \<open>simp add: expr_join_and_def\<close>)

section \<open>Passes that keep the value\<close>

text \<open>A pass may keep the value always, or only for expressions in which no symbol is \<open>Mod\<close> (\<open>crisp_only\<close>). The
  invariant is about the parts.\<close>

locale sound_pass = pass +
  fixes T :: symtab and crisp_only :: bool
  assumes run_value: "consistent T v \<Longrightarrow> is_junction (type_of e) \<Longrightarrow> run (type_of e) e = (e', c) \<Longrightarrow> (crisp_only \<longrightarrow> crisp v e) \<Longrightarrow>
      calc_value T v e' = calc_value T v e \<and> (crisp_only \<longrightarrow> crisp v e')"
begin

lemma inner_value:
  "consistent T v \<Longrightarrow> inner_pass run e = (e', c) \<Longrightarrow> (crisp_only \<longrightarrow> crisp v e) \<Longrightarrow> calc_value T v e' = calc_value T v e \<and> (crisp_only \<longrightarrow> crisp v e')"
  by (cases "is_junction (type_of e)") (simp_all add: inner_pass_def run_value)

end

definition value_inv :: "symtab \<Rightarrow> (symbol \<Rightarrow> symbol_value) \<Rightarrow> bool \<Rightarrow> expr_type \<Rightarrow> expr \<Rightarrow> expr list \<times> nat \<Rightarrow> bool" where
  "value_inv T v co ty e = (\<lambda>(ls, c). length ls = length (leaves ty e) \<and> parts_value T v ty ls = calc_value T v e
     \<and> (\<forall>x \<in> set ls. type_of x \<noteq> ty) \<and> (co \<longrightarrow> (\<forall>x \<in> set ls. crisp v x)))"

lemma value_inv_start: "is_junction ty \<Longrightarrow> (co \<longrightarrow> crisp v e) \<Longrightarrow> value_inv T v co ty e (leaves ty e, 0)"
  using crisp_leaves [of v e ty] by (auto simp: value_inv_def calc_leaves dest: type_of_leaves)

lemma value_inv_fill:
  assumes "value_inv T v co ty e (ls, c)"
  shows "calc_value T v (fill ty e ls) = calc_value T v e \<and> (co \<longrightarrow> crisp v (fill ty e ls))"
  using assms calc_fill [of ty e ls T v] crisp_fill [of ty e ls v] by (auto simp: value_inv_def)

lemma value_inv_update:
  assumes "value_inv T v co ty e (ls, c)" "parts_value T v ty (ls[i := x]) = parts_value T v ty ls" "type_of x \<noteq> ty" "co \<longrightarrow> crisp v x"
  shows "value_inv T v co ty e (ls[i := x], c')"
  using assms by (auto simp: value_inv_def dest!: set_update_subset_insert [THEN subsetD])

lemma value_inv_part:
  "value_inv T v co ty e (ls, c) \<Longrightarrow> i < length ls \<Longrightarrow> calc_value T v x = calc_value T v (ls ! i) \<Longrightarrow> type_of x \<noteq> ty \<Longrightarrow>
    (co \<longrightarrow> crisp v x) \<Longrightarrow> value_inv T v co ty e (ls[i := x], c')"
  by (rule value_inv_update) (simp_all add: parts_value_same)

lemma value_inv_join:
  assumes "value_inv T v co ty e (ls, c)" "consistent T v" "is_junction ty" "i < length ls" "j < length ls" "i \<noteq> j"
    and "calc_value T v t = junction ty (calc_value T v (ls ! i)) (calc_value T v (ls ! j))" "type_of t \<noteq> ty" "co \<longrightarrow> crisp v t"
  shows "value_inv T v co ty e (ls[i := neutral ty, j := t], c')"
proof -
  have "type_of (neutral ty) \<noteq> ty" "crisp v (neutral ty)" using assms(2,3) by (auto simp: neutral_def is_junction_def con_val)
  then show ?thesis using assms(1,8,9) parts_value_join [OF assms(2,4-7)]
    by (auto simp: value_inv_def dest!: set_update_subset_insert [THEN subsetD])
qed

context sound_pass begin

lemma value_inv_dups1:
  assumes con: "consistent T v" and "value_inv T v crisp_only ty e s" "i < length (leaves ty e)" "j < length (leaves ty e)" "is_junction ty"
  shows "value_inv T v crisp_only ty e (dups1_pair T run ty (i, j) s)"
proof (cases "i = j")
  case False
  obtain ls c where s: "s = (ls, c)" by fastforce
  note inv = assms(2) [unfolded s]
  have len: "i < length ls" "j < length ls" using assms(3,4) inv by (simp_all add: value_inv_def)
  obtain e1 c1 where e1: "inner_pass run (ls ! i) = (e1, c1)" by fastforce
  have cr: "crisp_only \<longrightarrow> crisp v (ls ! i)" "crisp_only \<longrightarrow> crisp v (ls ! j)" "type_of (ls ! i) \<noteq> ty"
    using inv len by (auto simp: value_inv_def)
  have v1: "calc_value T v e1 = calc_value T v (ls ! i)" "crisp_only \<longrightarrow> crisp v e1" "type_of e1 \<noteq> ty"
    using inner_value [OF con e1 cr(1)] inner_type [OF e1] cr(3) by auto
  show ?thesis
  proof (cases "if ty = T_OR then expr_join_or T e1 (ls ! j) else expr_join_and T e1 (ls ! j)")
    case None
    then show ?thesis using value_inv_part [OF inv len(1) v1(1,3,2)] False by (simp add: dups1_pair_def s e1)
  next
    case (Some t)
    have "calc_value T v t = junction ty (calc_value T v (ls ! i)) (calc_value T v (ls ! j)) \<and> type_of t \<noteq> ty \<and> (crisp_only \<longrightarrow> crisp v t)"
    proof (cases "ty = T_OR")
      case True
      then have "expr_join_or T e1 (ls ! j) = Some t" using Some by simp
      from join_or_rule [OF con this] join_or_type [OF this] join_or_crisp [OF con this] show ?thesis
        using True v1 by auto
    next
      case False
      then have "ty = T_AND" "expr_join_and T e1 (ls ! j) = Some t" using Some assms(5) by (simp_all add: is_junction_def)
      from join_and_rule [OF con this(2)] join_and_type [OF this(2)] join_and_crisp [OF con this(2)] this(1) show ?thesis
        using v1 cr(2) by auto
    qed
    then show ?thesis using value_inv_join [OF inv con assms(5) len False] False Some by (simp add: dups1_pair_def s e1)
  qed
qed (use assms(2) in \<open>simp add: dups1_pair_def split: prod.splits\<close>)

end

section \<open>The second pass\<close>

lemma spots_range: "(k, shape) \<in> set (spots ty k0 e) \<Longrightarrow> k0 \<le> k \<and> k + length (leaves ty shape) \<le> k0 + length (leaves ty e)"
  by (induction ty k0 e rule: spots.induct) (fastforce split: if_splits)+

text \<open>If the parts of the negation are all found, the second expression is below (above) the negation of the first.\<close>

lemma negation_found_value:
  assumes "consistent T v" "negation_found T e1 e2" "ty = (if type_of e1 = T_OR then T_AND else T_OR)"
  shows "junction ty (EXPR_NOT (calc_value T v e1)) (calc_value T v e2) = calc_value T v e2"
proof -
  define tmp where "tmp = expr_transform T (E_NOT e1)"
  obtain ep a b where x: "extract_eq_by ty tmp e2 = (ep, a, b)" by (cases "extract_eq_by ty tmp e2")
  have "calc_value T v a = unit_of ty"
    using assms(2,3) x by (auto simp: negation_found_def Let_def tmp_def [symmetric] expr_extract_eq_and_def expr_extract_eq_or_def
        expr_is_yes_def expr_is_no_def con_val [OF assms(1)] unit_of_def simp del: expr_transform.simps split: if_splits)
  moreover have "calc_value T v tmp = EXPR_NOT (calc_value T v e1)" by (simp only: tmp_def transform_rule [OF assms(1)] calc_value.simps)
  ultimately show ?thesis
    using extract_eq_by_rule [OF assms(1) x] by (simp add: junction_absorb)
qed

text \<open>A two-valued part together with its negation.\<close>

lemma junction_contradiction:
  assumes "is_junction ty" "a \<noteq> Mod" "junction ty a V = V" "junction ty (EXPR_NOT a) V = V"
  shows "V = (if ty = T_AND then No else Yes)"
  using assms by (cases a) (auto simp: is_junction_def)

lemma junction_absorbing: "is_junction ty \<Longrightarrow> junction ty (if ty = T_AND then No else Yes) a = (if ty = T_AND then No else Yes)"
  by (auto simp: is_junction_def)

context sound_pass begin

lemma value_inv_dups2:
  assumes con: "consistent T v" and "value_inv T v crisp_only ty e s" "i < length (leaves ty e)" "is_junction ty" crisp_only
    "(k, shape) \<in> set (spots ty 0 e)"
  shows "value_inv T v crisp_only ty e (dups2_spot T run ty (i, k, shape) s)"
proof -
  obtain ls c where s: "s = (ls, c)" by fastforce
  note inv = assms(2) [unfolded s]
  have len: "i < length ls" "length ls = length (leaves ty e)" using assms(3) inv by (simp_all add: value_inv_def)
  obtain e1 c1 where e1: "inner_pass run (ls ! i) = (e1, c1)" by fastforce
  have cr: "crisp_only \<longrightarrow> crisp v (ls ! i)" "type_of (ls ! i) \<noteq> ty" using inv len by (auto simp: value_inv_def)
  have v1: "calc_value T v e1 = calc_value T v (ls ! i)" "crisp_only \<longrightarrow> crisp v e1" "type_of e1 \<noteq> ty"
    using inner_value [OF con e1 cr(1)] inner_type [OF e1] cr(2) by auto
  define l1 where "l1 = ls[i := e1]"
  have inv1: "value_inv T v crisp_only ty e (l1, n)" for n unfolding l1_def by (rule value_inv_part [OF inv len(1) v1(1,3,2)])
  have l1: "length l1 = length (leaves ty e)" "l1 ! i = e1" "i < length l1" using len by (simp_all add: l1_def)
  define y where "y = (if type_of e1 = T_OR then E_SYMBOL symbol_no else E_SYMBOL symbol_yes)"
  have "value_inv T v crisp_only ty e (l1[i := y], n)"
    if j: "is_junction (type_of (ls ! i))" and f: "negation_found T e1 (fill ty shape (drop k l1))" for n
  proof (rule value_inv_update [OF inv1])
    have te: "type_of e1 = (if ty = T_AND then T_OR else T_AND)"
      using j v1(3) inner_type [OF e1] assms(4) by (auto simp: is_junction_def)
    let ?m = "length (leaves ty shape)"
    have "calc_value T v (fill ty shape (drop k l1)) = parts_value T v ty (take ?m (drop k l1))"
      by (rule calc_fill) (use spots_range [OF assms(6)] l1(1) in simp)
    moreover have "ty = (if type_of e1 = T_OR then T_AND else T_OR)" using te assms(4) by (auto simp: is_junction_def)
    ultimately have n: "junction ty (EXPR_NOT (calc_value T v e1)) (parts_value T v ty (take ?m (drop k l1))) = parts_value T v ty (take ?m (drop k l1))"
      using negation_found_value [OF con f] by simp
    let ?V = "parts_value T v ty l1"
    have "junction ty (EXPR_NOT (calc_value T v e1)) ?V = ?V"
      using n parts_value_range [of ty T v ?m k l1] by (metis junction_ac(2))
    moreover have "junction ty (calc_value T v e1) ?V = ?V" using parts_value_part [OF l1(3), of ty T v] l1(2) by simp
    moreover have "calc_value T v e1 \<noteq> Mod" using v1(2) assms(5) crisp_value by blast
    ultimately have V: "?V = (if ty = T_AND then No else Yes)" using junction_contradiction [OF assms(4)] by blast
    show "type_of y \<noteq> ty" using assms(4) by (auto simp: y_def is_junction_def)
    show "crisp_only \<longrightarrow> crisp v y" by (simp add: y_def con_val [OF con])
    have "calc_value T v y = (if ty = T_AND then No else Yes)" by (simp add: y_def te con_val [OF con])
    then show "parts_value T v ty (l1[i := y]) = ?V"
      using junction_absorbing [OF assms(4)] by (simp add: parts_value_update [OF l1(3)] V)
  qed
  then show ?thesis using inv inv1 by (auto simp: dups2_spot_def s e1 Let_def l1_def [symmetric] y_def [symmetric] fill_def [symmetric])
qed

end

section \<open>The passes and the loop\<close>

lemma dups1_sound: "sound_pass (expr_eliminate_dups1 k T) T co"
proof (induction k)
  case 0
  show ?case by unfold_locales auto
next
  case (Suc k)
  show ?case
  proof unfold_locales
    fix v e e' c
    let ?l = "leaves (type_of e) e"
    let ?s = "fold (dups1_pair T (expr_eliminate_dups1 k T) (type_of e)) (List.product [0..<length ?l] [0..<length ?l]) (?l, 0)"
    assume a: "consistent T v" "is_junction (type_of e)" "expr_eliminate_dups1 (Suc k) T (type_of e) e = (e', c)" "co \<longrightarrow> crisp v e"
    obtain ls c' where f: "?s = (ls, c')" by fastforce
    have "value_inv T v co (type_of e) e ?s"
      by (rule fold_invariant [where Q = "\<lambda>(i, j). i < length ?l \<and> j < length ?l"])
         (auto simp: value_inv_start a(2,4) intro: sound_pass.value_inv_dups1 [OF Suc a(1) _ _ _ a(2)])
    with f have "value_inv T v co (type_of e) e (ls, c')" by simp
    from value_inv_fill [OF this] show "calc_value T v e' = calc_value T v e \<and> (co \<longrightarrow> crisp v e')"
      using a(3) f by (auto simp: Let_def fill_def)
  qed
qed

lemma dups2_sound: "sound_pass (expr_eliminate_dups2 k T) T True"
proof (induction k)
  case 0
  show ?case by unfold_locales auto
next
  case (Suc k)
  show ?case
  proof unfold_locales
    fix v e e' c
    let ?l = "leaves (type_of e) e"
    let ?s = "fold (dups2_spot T (expr_eliminate_dups2 k T) (type_of e)) (List.product [0..<length ?l] (spots (type_of e) 0 e)) (?l, 0)"
    assume a: "consistent T v" "is_junction (type_of e)" "expr_eliminate_dups2 (Suc k) T (type_of e) e = (e', c)" "True \<longrightarrow> crisp v e"
    obtain ls c' where f: "?s = (ls, c')" by fastforce
    have "value_inv T v True (type_of e) e ?s"
      by (rule fold_invariant [where Q = "\<lambda>(i, k, sh). i < length ?l \<and> (k, sh) \<in> set (spots (type_of e) 0 e)"])
         (auto simp: value_inv_start a(2,4) intro!: sound_pass.value_inv_dups2 [OF Suc a(1) _ _ a(2) TrueI] simp del: spots.simps)
    with f have "value_inv T v True (type_of e) e (ls, c')" by simp
    from value_inv_fill [OF this] show "calc_value T v e' = calc_value T v e \<and> (True \<longrightarrow> crisp v e')"
      using a(3) f by (auto simp: Let_def fill_def)
  qed
qed

interpretation dups1_value: sound_pass "expr_eliminate_dups1 k T" T co for k T co
  by (rule dups1_sound)

interpretation dups2_value: sound_pass "expr_eliminate_dups2 k T" T True for k T
  by (rule dups2_sound)

lemma eliminate_yn_crisp: "consistent T v \<Longrightarrow> crisp v e \<Longrightarrow> crisp v (expr_eliminate_yn e)"
  by (induction e rule: expr_eliminate_yn.induct) (auto simp: Let_def con_val)

lemma dups_round_rule:
  assumes "consistent T v" "crisp v e" "dups_round T e = (e', c)"
  shows "calc_value T v e' = calc_value T v e \<and> crisp v e'"
proof (cases "is_junction (type_of e)")
  case True
  obtain a m b n where a: "expr_eliminate_dups1 (size e) T (type_of e) e = (a, m)"
    and b: "expr_eliminate_dups2 (size a) T (type_of a) a = (b, n)" by fastforce
  have "calc_value T v a = calc_value T v e \<and> crisp v a" using dups1_value.run_value [OF assms(1) True a, of True] assms(2) by simp
  moreover have "is_junction (type_of a)" using dups1.run_type [OF True a] True by simp
  ultimately show ?thesis using dups2_value.run_value [OF assms(1) _ b] assms(3) True a b by (simp add: dups_round_def)
qed (use assms in \<open>simp add: dups_round_def\<close>)

lemma eliminate_dups_rule: "consistent T v \<Longrightarrow> crisp v e \<Longrightarrow> calc_value T v (expr_eliminate_dups T e) = calc_value T v e"
proof (induction T e rule: expr_eliminate_dups.induct)
  case (1 T e)
  obtain e' c where r: "dups_round T e = (e', c)" by fastforce
  note v = dups_round_rule [OF 1(2,3) r]
  show ?case
  proof (cases "c = 0")
    case True
    then show ?thesis using v r by (simp add: expr_eliminate_dups.simps [of T e])
  next
    case False
    have "calc_value T v (expr_eliminate_dups T (expr_eliminate_yn e')) = calc_value T v (expr_eliminate_yn e')"
      by (rule 1(1) [OF r [symmetric] False 1(2)]) (use eliminate_yn_crisp [OF 1(2)] v in simp)
    then show ?thesis using False v r by (simp add: expr_eliminate_dups.simps [of T e] eliminate_yn_rule [OF 1(2)])
  qed
qed

text \<open>A round that replaces nothing changes nothing; the loop ends with such a round.\<close>

lemma dups_round_same:
  assumes "dups_round T e = (e', 0)"
  shows "e' = e"
proof (cases "is_junction (type_of e)")
  case True
  obtain a m b n where a: "expr_eliminate_dups1 (size e) T (type_of e) e = (a, m)"
    and b: "expr_eliminate_dups2 (size a) T (type_of a) a = (b, n)" by fastforce
  have "m = 0" "n = 0" "e' = b" using assms True a b by (simp_all add: dups_round_def)
  with a b True show ?thesis using dups1.run_same [of e "size e" T a] dups2.run_same [of a "size a" T b] by simp
qed (use assms in \<open>simp add: dups_round_def\<close>)

lemma eliminate_dups_fixed: "dups_round T (expr_eliminate_dups T e) = (expr_eliminate_dups T e, 0)"
proof (induction T e rule: expr_eliminate_dups.induct)
  case (1 T e)
  obtain e' c where r: "dups_round T e = (e', c)" by fastforce
  show ?case
  proof (cases "c = 0")
    case True
    then show ?thesis using r dups_round_same [of T e e'] by (simp add: expr_eliminate_dups.simps [of T e])
  next
    case False
    then show ?thesis using 1 r by (simp add: expr_eliminate_dups.simps [of T e])
  qed
qed

section \<open>The depth bound of the passes\<close>

lemma inner_pass_agree: "(is_junction (type_of e) \<Longrightarrow> f (type_of e) e = g (type_of e) e) \<Longrightarrow> inner_pass f e = inner_pass g e"
  by (simp add: inner_pass_def)

lemma dups1_pair_agree: "inner_pass f (ls ! i) = inner_pass g (ls ! i) \<Longrightarrow> dups1_pair T f ty (i, j) (ls, c) = dups1_pair T g ty (i, j) (ls, c)"
  by (simp only: dups1_pair_def prod.case)

lemma dups2_spot_agree: "inner_pass f (ls ! i) = inner_pass g (ls ! i) \<Longrightarrow> dups2_spot T f ty (i, k, sh) (ls, c) = dups2_spot T g ty (i, k, sh) (ls, c)"
  by (simp only: dups2_spot_def prod.case)

lemma part_smaller:
  assumes "part_inv (leaves (type_of e) e) (ls, c)" "is_junction (type_of e)" "i < length (leaves (type_of e) e)"
  shows "size (ls ! i) < size e"
  using assms size_nth_sizes [of i ls] size_leaves [of e "type_of e"] leaves_junction [OF assms(2) refl] by (simp add: part_inv_def)

lemma dups1_fuel: "is_junction (type_of e) \<Longrightarrow> size e \<le> k \<Longrightarrow> size e \<le> m \<Longrightarrow> expr_eliminate_dups1 k T (type_of e) e = expr_eliminate_dups1 m T (type_of e) e"
proof (induction k arbitrary: e m)
  case 0
  then show ?case by (cases e) (simp_all add: is_junction_def)
next
  case (Suc k)
  have "size e \<noteq> 0" using Suc(2) by (cases e) (simp_all add: is_junction_def)
  then obtain m' where m: "m = Suc m'" using Suc(4) by (cases m) auto
  let ?l = "leaves (type_of e) e"
  have "fold (dups1_pair T (expr_eliminate_dups1 k T) (type_of e)) (List.product [0..<length ?l] [0..<length ?l]) (?l, 0)
      = fold (dups1_pair T (expr_eliminate_dups1 m' T) (type_of e)) (List.product [0..<length ?l] [0..<length ?l]) (?l, 0)"
  proof (rule conjunct1, rule fold_agree [where P = "part_inv ?l"])
    fix x s assume x: "x \<in> set (List.product [0..<length ?l] [0..<length ?l])" and s: "part_inv ?l s"
    obtain i j ls c where ij: "x = (i, j)" "s = (ls, c)" by fastforce
    have "size (ls ! i) < size e" by (rule part_smaller) (use s x Suc(2) ij in auto)
    then have "inner_pass (expr_eliminate_dups1 k T) (ls ! i) = inner_pass (expr_eliminate_dups1 m' T) (ls ! i)"
      by (intro inner_pass_agree Suc(1)) (use Suc(3,4) m in auto)
    from dups1_pair_agree [OF this] dups1.part_inv_dups1 [OF s]
    show "dups1_pair T (expr_eliminate_dups1 k T) (type_of e) x s = dups1_pair T (expr_eliminate_dups1 m' T) (type_of e) x s
        \<and> part_inv ?l (dups1_pair T (expr_eliminate_dups1 m' T) (type_of e) x s)"
      using x ij by auto
  qed (rule part_inv_start)
  then show ?case by (simp add: m Let_def)
qed

lemma dups2_fuel: "is_junction (type_of e) \<Longrightarrow> size e \<le> k \<Longrightarrow> size e \<le> m \<Longrightarrow> expr_eliminate_dups2 k T (type_of e) e = expr_eliminate_dups2 m T (type_of e) e"
proof (induction k arbitrary: e m)
  case 0
  then show ?case by (cases e) (simp_all add: is_junction_def)
next
  case (Suc k)
  have "size e \<noteq> 0" using Suc(2) by (cases e) (simp_all add: is_junction_def)
  then obtain m' where m: "m = Suc m'" using Suc(4) by (cases m) auto
  let ?l = "leaves (type_of e) e"
  have "fold (dups2_spot T (expr_eliminate_dups2 k T) (type_of e)) (List.product [0..<length ?l] (spots (type_of e) 0 e)) (?l, 0)
      = fold (dups2_spot T (expr_eliminate_dups2 m' T) (type_of e)) (List.product [0..<length ?l] (spots (type_of e) 0 e)) (?l, 0)"
  proof (rule conjunct1, rule fold_agree [where P = "part_inv ?l"])
    fix x s assume x: "x \<in> set (List.product [0..<length ?l] (spots (type_of e) 0 e))" and s: "part_inv ?l s"
    obtain i j sh ls c where ij: "x = (i, j, sh)" "s = (ls, c)" by (cases x; cases s)
    have "size (ls ! i) < size e" by (rule part_smaller) (use s x Suc(2) ij in auto)
    then have "inner_pass (expr_eliminate_dups2 k T) (ls ! i) = inner_pass (expr_eliminate_dups2 m' T) (ls ! i)"
      by (intro inner_pass_agree Suc(1)) (use Suc(3,4) m in auto)
    from dups2_spot_agree [OF this] dups2.part_inv_dups2 [OF s]
    show "dups2_spot T (expr_eliminate_dups2 k T) (type_of e) x s = dups2_spot T (expr_eliminate_dups2 m' T) (type_of e) x s
        \<and> part_inv ?l (dups2_spot T (expr_eliminate_dups2 m' T) (type_of e) x s)"
      using x ij by auto
  qed (rule part_inv_start)
  then show ?case by (simp add: m Let_def)
qed

section \<open>Claims\<close>

text \<open>
  Joining: when \<^verbatim>\<open>expr_join_or\<close> (\<^verbatim>\<open>expr_join_and\<close>) replaces two parts by one, the new one has the value of their
  disjunction (conjunction) under every value of the symbols; this covers all the rules on one boolean or tristate symbol.
\<close>

theorem expr_join_correct:
  assumes "consistent T v"
  shows "(case expr_join_or T e1 e2 of None \<Rightarrow> True | Some t \<Rightarrow> calc_value T v t = EXPR_OR (calc_value T v e1) (calc_value T v e2))
    \<and> (case expr_join_and T e1 e2 of None \<Rightarrow> True | Some t \<Rightarrow> calc_value T v t = EXPR_AND (calc_value T v e1) (calc_value T v e2))"
  using join_or_rule [OF assms] join_and_rule [OF assms] by (auto split: option.split)

theorem expr_join_correct_witness:
  "expr_join_and demo_table (E_UNEQUAL (Sym 0) symbol_yes) (E_UNEQUAL (Sym 0) symbol_no) = Some (E_EQUAL (Sym 0) symbol_mod)
   \<and> calc_value demo_table (demo_values Mod No) (E_EQUAL (Sym 0) symbol_mod)
     = EXPR_AND (calc_value demo_table (demo_values Mod No) (E_UNEQUAL (Sym 0) symbol_yes)) (calc_value demo_table (demo_values Mod No) (E_UNEQUAL (Sym 0) symbol_no))"
proof -
  have "expr_join_and demo_table (E_UNEQUAL (Sym 0) symbol_yes) (E_UNEQUAL (Sym 0) symbol_no) = Some (E_EQUAL (Sym 0) symbol_mod)"
    by (simp add: expr_join_and_def expr_eq.simps join_sym_def is_simple_def either_def is_test_cases join_consts_def)
  then show ?thesis
    using expr_join_correct [OF demo_consistent [of Mod No], of "E_UNEQUAL (Sym 0) symbol_yes" "E_UNEQUAL (Sym 0) symbol_no"] by (simp del: calc_value.simps)
qed

text \<open>
  Claim C6. \<^verbatim>\<open>expr_eliminate_dups\<close> keeps the value of an expression in which no symbol used as a truth value is \<open>Mod\<close>, and
  its first pass keeps the value always. The proviso is needed for the second pass, see \<open>dups_not_mod\<close>.
\<close>

theorem expr_eliminate_dups_value:
  assumes "consistent T v"
  shows "(\<not> crisp v e \<or> calc_value T v (expr_eliminate_dups T e) = calc_value T v e)
    \<and> (\<not> is_junction (type_of e) \<or> calc_value T v (fst (expr_eliminate_dups1 (size e) T (type_of e) e)) = calc_value T v e)"
proof
  show "\<not> crisp v e \<or> calc_value T v (expr_eliminate_dups T e) = calc_value T v e"
    using eliminate_dups_rule [OF assms] by blast
  show "\<not> is_junction (type_of e) \<or> calc_value T v (fst (expr_eliminate_dups1 (size e) T (type_of e) e)) = calc_value T v e"
    using dups1_value.run_value [where co = False and k = "size e", OF assms, of e] by (metis prod.collapse)
qed

definition demo_contradiction :: expr where
  "demo_contradiction = E_AND (E_OR (E_SYMBOL (Sym 0)) (E_SYMBOL (Sym 1))) (E_AND (E_NOT (E_SYMBOL (Sym 0))) (E_NOT (E_SYMBOL (Sym 1))))"

theorem expr_eliminate_dups_value_witness:
  "calc_value demo_table (demo_values Yes No) (expr_eliminate_dups demo_table demo_contradiction) = No"
  using expr_eliminate_dups_value [OF demo_consistent [of Yes No], of demo_contradiction]
  by (simp add: demo_contradiction_def)

lemma demo_round: "dups_round demo_table demo_contradiction = (E_AND (E_SYMBOL symbol_no) (E_AND (E_NOT (E_SYMBOL (Sym 0))) (E_NOT (E_SYMBOL (Sym 1)))), 1)"
  by code_simp

text \<open>\<^verbatim>\<open>(FOO || BAR) && (!FOO && !BAR)\<close> becomes \<^verbatim>\<open>n\<close>, but its value is \<^verbatim>\<open>m\<close> when FOO is \<^verbatim>\<open>m\<close>.\<close>

lemma dups_not_mod:
  "expr_eliminate_yn (fst (dups_round demo_table demo_contradiction)) = E_SYMBOL symbol_no"
  "calc_value demo_table (demo_values Mod No) demo_contradiction = Mod"
  by (simp add: demo_round, simp add: demo_contradiction_def)

text \<open>
  Claim C20. The two passes and their loop end: the nesting depth allowed to a pass, the size of its expression, is
  enough (more makes no difference), every round that replaces something makes the expression smaller, the loop stops
  with an expression in which neither pass finds anything, and simplifying it again changes nothing.
\<close>

theorem expr_eliminate_dups_ends:
  shows "(\<not> is_junction (type_of e)
      \<or> expr_eliminate_dups1 (size e + k) T (type_of e) e = expr_eliminate_dups1 (size e) T (type_of e) e
        \<and> expr_eliminate_dups2 (size e + k) T (type_of e) e = expr_eliminate_dups2 (size e) T (type_of e) e)
    \<and> (snd (dups_round T e) = 0 \<or> size (expr_eliminate_yn (fst (dups_round T e))) < size e)
    \<and> dups_round T (expr_eliminate_dups T e) = (expr_eliminate_dups T e, 0)
    \<and> expr_eliminate_dups T (expr_eliminate_dups T e) = expr_eliminate_dups T e"
proof (intro conjI)
  show "\<not> is_junction (type_of e)
      \<or> expr_eliminate_dups1 (size e + k) T (type_of e) e = expr_eliminate_dups1 (size e) T (type_of e) e
        \<and> expr_eliminate_dups2 (size e + k) T (type_of e) e = expr_eliminate_dups2 (size e) T (type_of e) e"
    using dups1_fuel [of e "size e + k" "size e" T] dups2_fuel [of e "size e + k" "size e" T] by auto
  show "snd (dups_round T e) = 0 \<or> size (expr_eliminate_yn (fst (dups_round T e))) < size e"
    using dups_round_shrinks [of T e] by (metis neq0_conv prod.collapse)
  show "dups_round T (expr_eliminate_dups T e) = (expr_eliminate_dups T e, 0)" by (rule eliminate_dups_fixed)
  then show "expr_eliminate_dups T (expr_eliminate_dups T e) = expr_eliminate_dups T e"
    by (simp add: expr_eliminate_dups.simps [of T "expr_eliminate_dups T e"])
qed

lemma demo_contradiction_facts [simp]: "type_of demo_contradiction = T_AND" "size demo_contradiction = 5" "is_junction T_AND"
  by (simp_all add: demo_contradiction_def is_junction_def)

theorem expr_eliminate_dups_ends_witness:
  "expr_eliminate_dups1 (5 + 3) demo_table T_AND demo_contradiction = expr_eliminate_dups1 5 demo_table T_AND demo_contradiction
   \<and> expr_eliminate_dups2 (5 + 3) demo_table T_AND demo_contradiction = expr_eliminate_dups2 5 demo_table T_AND demo_contradiction
   \<and> size (expr_eliminate_yn (fst (dups_round demo_table demo_contradiction))) < 5"
  using expr_eliminate_dups_ends [of demo_contradiction 3 demo_table]
  unfolding demo_contradiction_facts demo_round by (simp only: fst_conv snd_conv) simp

end
