(* ===== verification/KSymbol.thy ===== *)
theory KSymbol
  imports KExpr
begin

text \<open>
  The symbols of the configuration tool (\<^verbatim>\<open>package/config/expr.h\<close>, \<^verbatim>\<open>lkc.h\<close>, \<^verbatim>\<open>symbol.c\<close>): their records and the table of
  all symbols, the hash table that finds them by name, and the small functions on one symbol. A symbol is known by its
  address; \<open>Sym\<close> numbers the allocated ones in the order of their allocation. The \<^verbatim>\<open>void *val\<close> of a value is a string, except for
  choices, where it is the chosen symbol; these are separate fields here. Of the menu that a property belongs to
  only the flag \<^verbatim>\<open>MENU_CHANGED\<close> is touched by \<^verbatim>\<open>symbol.c\<close>; it tells the user interfaces what to redraw and is left out.
\<close>

section \<open>Data\<close>

datatype sym_flag = SYMBOL_CONST | SYMBOL_CHECK | SYMBOL_CHOICE | SYMBOL_CHOICEVAL | SYMBOL_VALID | SYMBOL_OPTIONAL
  | SYMBOL_WRITE | SYMBOL_CHANGED | SYMBOL_AUTO | SYMBOL_CHECKED | SYMBOL_WARNED | SYMBOL_DEF_USER | SYMBOL_DEF_AUTO

datatype prop_type = P_UNKNOWN | P_PROMPT | P_COMMENT | P_MENU | P_DEFAULT | P_CHOICE | P_SELECT | P_RANGE | P_ENV

text \<open>The expression of a property: a dependency expression, the list (\<^verbatim>\<open>E_LIST\<close>) of the values of a choice, or the two
  ends of a range (\<^verbatim>\<open>E_RANGE\<close>). The menu it belongs to is known by its number; of the pointer \<^verbatim>\<open>file\<close> only whether it is
  not null is known: it is the current file of the lexer, and null outside the files.\<close>

datatype prop_expr = No_Expr | Dep expr | Sym_List "symbol list" | Ends symbol symbol

record property =
  p_type :: prop_type
  p_text :: "string option"
  p_visible :: "expr option"
  p_expr :: prop_expr
  p_menu :: "nat option"
  p_file :: bool

text \<open>A value that was read or set: \<^verbatim>\<open>def[S_DEF_USER]\<close> by the user, \<^verbatim>\<open>def[S_DEF_AUTO]\<close> in \<^verbatim>\<open>auto.conf\<close>.\<close>

record user_value =
  u_val :: "string option"
  u_chosen :: "symbol option"
  u_tri :: tristate

record ksym =
  s_name :: "string option"
  s_type :: symbol_type
  s_curr :: symbol_value
  s_chosen :: "symbol option"
  s_user :: user_value
  s_auto :: user_value
  s_visible :: tristate
  s_flags :: "sym_flag set"
  s_prop :: "property list"
  s_rev_expr :: "expr option"
  s_rev_tri :: tristate

text \<open>All globals of \<^verbatim>\<open>symbol.c\<close>; \<open>zconfnerrs\<close> is the error counter of the parser, and \<open>in_file\<close> tells whether \<^verbatim>\<open>current_file\<close> is
  not null. The field \<open>moved\<close> is not state: it is what the allocator of the C library decides, whether the text
  of a value lies at another address than before (see \<^verbatim>\<open>value_changed\<close> in the theory KCalc).\<close>

record ktab =
  syms :: "symbol \<Rightarrow> ksym"
  next_sym :: nat
  symbol_hash :: "nat \<Rightarrow> symbol list"
  modules_sym :: "symbol option"
  modules_val :: tristate
  sym_env_list :: "symbol list"
  change_count :: int
  zconfnerrs :: int
  in_file :: bool
  moved :: "int \<Rightarrow> symbol \<Rightarrow> bool"

definition empty_value :: symbol_value where
  "empty_value = \<lparr>val = [], tri = No\<rparr>"

definition no_value :: symbol_value where
  "no_value = \<lparr>val = ''n'', tri = No\<rparr>"

definition no_user :: user_value where
  "no_user = \<lparr>u_val = None, u_chosen = None, u_tri = No\<rparr>"

definition new_ksym :: "string option \<Rightarrow> sym_flag set \<Rightarrow> ksym" where
  "new_ksym name flags = \<lparr>s_name = name, s_type = S_UNKNOWN, s_curr = empty_value, s_chosen = None,
     s_user = no_user, s_auto = no_user, s_visible = No, s_flags = flags, s_prop = [], s_rev_expr = None, s_rev_tri = No\<rparr>"

definition const_ksym :: "string \<Rightarrow> tristate \<Rightarrow> ksym" where
  "const_ksym name t = (new_ksym (Some name) {SYMBOL_CONST, SYMBOL_VALID})\<lparr>s_curr := \<lparr>val = name, tri = t\<rparr>\<rparr>"

definition init_ktab :: ktab where
  "init_ktab = \<lparr>syms = (\<lambda>s. case s of symbol_yes \<Rightarrow> const_ksym ''y'' Yes | symbol_mod \<Rightarrow> const_ksym ''m'' Mod
       | symbol_no \<Rightarrow> const_ksym ''n'' No | Sym _ \<Rightarrow> new_ksym None {}),
     next_sym = 0, symbol_hash = (\<lambda>_. []), modules_sym = None, modules_val = No, sym_env_list = [], change_count = 0, zconfnerrs = 0, in_file = False, moved = (\<lambda>_ _. False)\<rparr>"

section \<open>Access\<close>

definition upd :: "symbol \<Rightarrow> (ksym \<Rightarrow> ksym) \<Rightarrow> ktab \<Rightarrow> ktab" where
  "upd s f st = st\<lparr>syms := (syms st)(s := f (syms st s))\<rparr>"

definition has_flag :: "ktab \<Rightarrow> symbol \<Rightarrow> sym_flag \<Rightarrow> bool" where
  "has_flag st s f \<longleftrightarrow> f \<in> s_flags (syms st s)"

definition set_flag :: "sym_flag \<Rightarrow> symbol \<Rightarrow> ktab \<Rightarrow> ktab" where
  "set_flag f s = upd s (\<lambda>k. k\<lparr>s_flags := insert f (s_flags k)\<rparr>)"

definition clear_flag :: "sym_flag \<Rightarrow> symbol \<Rightarrow> ktab \<Rightarrow> ktab" where
  "clear_flag f s = upd s (\<lambda>k. k\<lparr>s_flags := s_flags k - {f}\<rparr>)"

text \<open>What the operations on expressions look up.\<close>

definition tab_of :: "ktab \<Rightarrow> symtab" where
  "tab_of st = \<lparr>sym_type = (\<lambda>s. s_type (syms st s)), sym_const = (\<lambda>s. SYMBOL_CONST \<in> s_flags (syms st s)), sym_name = (\<lambda>s. s_name (syms st s))\<rparr>"

definition values_of :: "ktab \<Rightarrow> symbol \<Rightarrow> symbol_value" where
  "values_of st s = s_curr (syms st s)"

definition sym_is_choice :: "ktab \<Rightarrow> symbol \<Rightarrow> bool" where
  "sym_is_choice st s \<longleftrightarrow> has_flag st s SYMBOL_CHOICE"

definition sym_is_choice_value :: "ktab \<Rightarrow> symbol \<Rightarrow> bool" where
  "sym_is_choice_value st s \<longleftrightarrow> has_flag st s SYMBOL_CHOICEVAL"

definition sym_has_value :: "ktab \<Rightarrow> symbol \<Rightarrow> bool" where
  "sym_has_value st s \<longleftrightarrow> has_flag st s SYMBOL_DEF_USER"

definition sym_get_tristate_value :: "ktab \<Rightarrow> symbol \<Rightarrow> tristate" where
  "sym_get_tristate_value st s = tri (s_curr (syms st s))"

definition sym_get_type :: "ktab \<Rightarrow> symbol \<Rightarrow> symbol_type" where
  "sym_get_type st s = (let ty = s_type (syms st s) in
     if ty = S_TRISTATE then
       (if sym_is_choice_value st s \<and> s_visible (syms st s) = Yes then S_BOOLEAN
        else if modules_val st = No then S_BOOLEAN else ty)
     else ty)"

definition sym_set_changed :: "symbol \<Rightarrow> ktab \<Rightarrow> ktab" where
  "sym_set_changed s = set_flag SYMBOL_CHANGED s"

text \<open>\<^verbatim>\<open>for_all_symbols\<close>: the symbols in the hash table, which the constants are not; as a list in the order of the loop, and as
  an update of all of them at once.\<close>

definition symbol_list :: "ktab \<Rightarrow> symbol list" where
  "symbol_list st = filter (\<lambda>s. s_type (syms st s) \<noteq> S_OTHER) (concat (map (symbol_hash st) [0..<257]))"

definition all_symbols :: "(ksym \<Rightarrow> ksym) \<Rightarrow> ktab \<Rightarrow> ktab" where
  "all_symbols f st = st\<lparr>syms := (\<lambda>s. case s of Sym n \<Rightarrow> if n < next_sym st \<and> s_type (syms st s) \<noteq> S_OTHER then f (syms st s) else syms st s
     | _ \<Rightarrow> syms st s)\<rparr>"

definition sym_set_all_changed :: "ktab \<Rightarrow> ktab" where
  "sym_set_all_changed = all_symbols (\<lambda>k. k\<lparr>s_flags := insert SYMBOL_CHANGED (s_flags k)\<rparr>)"

definition sym_is_changable :: "ktab \<Rightarrow> symbol \<Rightarrow> bool" where
  "sym_is_changable st s \<longleftrightarrow> s_visible (syms st s) > s_rev_tri (syms st s)"

definition sym_tristate_within_range :: "ktab \<Rightarrow> symbol \<Rightarrow> tristate \<Rightarrow> bool" where
  "sym_tristate_within_range st s v = (let ty = sym_get_type st s; vis = s_visible (syms st s); rev = s_rev_tri (syms st s) in
     if vis = No then False
     else if ty \<noteq> S_BOOLEAN \<and> ty \<noteq> S_TRISTATE then False
     else if ty = S_BOOLEAN \<and> v = Mod then False
     else if vis \<le> rev then False
     else if sym_is_choice_value st s \<and> vis = Yes then v = Yes
     else v \<ge> rev \<and> v \<le> vis)"

section \<open>Properties of a symbol\<close>

definition sym_get_choice_prop :: "ktab \<Rightarrow> symbol \<Rightarrow> property option" where
  "sym_get_choice_prop st s = find (\<lambda>p. p_type p = P_CHOICE) (s_prop (syms st s))"

definition sym_get_env_prop :: "ktab \<Rightarrow> symbol \<Rightarrow> property option" where
  "sym_get_env_prop st s = find (\<lambda>p. p_type p = P_ENV) (s_prop (syms st s))"

text \<open>\<^verbatim>\<open>prop_get_symbol\<close> is not called for a list.\<close>

definition prop_get_symbol :: "property \<Rightarrow> symbol option" where
  "prop_get_symbol p = (case p_expr p of Dep (E_SYMBOL s) \<Rightarrow> Some s | _ \<Rightarrow> None)"

text \<open>The values of a choice, and the choice of a value.\<close>

definition choice_values :: "ktab \<Rightarrow> symbol \<Rightarrow> symbol list" where
  "choice_values st s = (case sym_get_choice_prop st s of Some p \<Rightarrow> (case p_expr p of Sym_List l \<Rightarrow> l | _ \<Rightarrow> []) | None \<Rightarrow> [])"

definition choice_of :: "ktab \<Rightarrow> symbol \<Rightarrow> symbol option" where
  "choice_of st s = Option.bind (sym_get_choice_prop st s) prop_get_symbol"

definition prop_alloc :: "property \<Rightarrow> symbol \<Rightarrow> ktab \<Rightarrow> ktab" where
  "prop_alloc p s st = upd s (\<lambda>k. k\<lparr>s_prop := s_prop k @ [p\<lparr>p_file := in_file st\<rparr>]\<rparr>) st"

text \<open>Whether a message can name the place of a symbol, which is that of its first property.\<close>

definition has_place :: "ktab \<Rightarrow> symbol \<Rightarrow> bool" where
  "has_place st s \<longleftrightarrow> (case s_prop (syms st s) of [] \<Rightarrow> False | p # _ \<Rightarrow> p_file p)"

section \<open>Names\<close>

definition name_hash :: "string \<Rightarrow> nat" where
  "name_hash name = sum_list (map of_char name) mod 256"

definition const_named :: "string \<Rightarrow> symbol option" where
  "const_named name = (if name = ''y'' then Some symbol_yes else if name = ''m'' then Some symbol_mod
     else if name = ''n'' then Some symbol_no else None)"

text \<open>Whether a symbol in the table is the one asked for: with flags, one that has one of them; otherwise neither a
  constant nor a choice.\<close>

definition lookup_match :: "ktab \<Rightarrow> string \<Rightarrow> sym_flag set \<Rightarrow> symbol \<Rightarrow> bool" where
  "lookup_match st name flags s \<longleftrightarrow> s_name (syms st s) = Some name \<and>
     (if flags \<noteq> {} then s_flags (syms st s) \<inter> flags \<noteq> {} else s_flags (syms st s) \<inter> {SYMBOL_CONST, SYMBOL_CHOICE} = {})"

definition new_symbol :: "nat \<Rightarrow> string option \<Rightarrow> sym_flag set \<Rightarrow> ktab \<Rightarrow> symbol \<times> ktab" where
  "new_symbol h name flags st = (let s = Sym (next_sym st) in
     (s, st\<lparr>syms := (syms st)(s := new_ksym name flags), next_sym := next_sym st + 1,
            symbol_hash := (symbol_hash st)(h := s # symbol_hash st h)\<rparr>))"

definition sym_lookup :: "string option \<Rightarrow> sym_flag set \<Rightarrow> ktab \<Rightarrow> symbol \<times> ktab" where
  "sym_lookup name flags st = (case name of
     None \<Rightarrow> new_symbol 256 None flags st
   | Some n \<Rightarrow> (case const_named n of Some s \<Rightarrow> (s, st)
     | None \<Rightarrow> (case find (lookup_match st n flags) (symbol_hash st (name_hash n)) of Some s \<Rightarrow> (s, st)
       | None \<Rightarrow> new_symbol (name_hash n) (Some n) flags st)))"

definition sym_find :: "string option \<Rightarrow> ktab \<Rightarrow> symbol option" where
  "sym_find name st = (case name of None \<Rightarrow> None
   | Some n \<Rightarrow> (case const_named n of Some s \<Rightarrow> Some s
     | None \<Rightarrow> find (\<lambda>s. s_name (syms st s) = Some n \<and> SYMBOL_CONST \<notin> s_flags (syms st s)) (symbol_hash st (name_hash n))))"

definition sym_add_default :: "symbol \<Rightarrow> string \<Rightarrow> ktab \<Rightarrow> ktab" where
  "sym_add_default s def st = (case sym_lookup (Some def) {SYMBOL_CONST} st of (d, st) \<Rightarrow>
     prop_alloc \<lparr>p_type = P_DEFAULT, p_text = None, p_visible = None, p_expr = Dep (E_SYMBOL d), p_menu = None, p_file = False\<rparr> s st)"

definition sym_init :: "string \<Rightarrow> ktab \<Rightarrow> ktab" where
  "sym_init release st = (case sym_lookup (Some ''UNAME_RELEASE'') {} st of (s, st) \<Rightarrow>
     sym_add_default s release (upd s (\<lambda>k. k\<lparr>s_type := S_STRING, s_flags := insert SYMBOL_AUTO (s_flags k)\<rparr>) st))"

text \<open>A symbol that takes its value from an environment variable; a second variable for the same symbol is ignored.\<close>

definition prop_add_env :: "(string \<Rightarrow> string option) \<Rightarrow> symbol \<Rightarrow> string \<Rightarrow> ktab \<Rightarrow> ktab" where
  "prop_add_env getenv s env st = (let st = set_flag SYMBOL_AUTO s st in
     if sym_get_env_prop st s \<noteq> None then st
     else (case sym_lookup (Some env) {SYMBOL_CONST} st of (e, st) \<Rightarrow>
       (let st = prop_alloc \<lparr>p_type = P_ENV, p_text = None, p_visible = None, p_expr = Dep (E_SYMBOL e), p_menu = None, p_file = False\<rparr> s st;
            st = st\<lparr>sym_env_list := s # sym_env_list st\<rparr>
        in case getenv env of None \<Rightarrow> st | Some x \<Rightarrow> sym_add_default s x st)))"

text \<open>Searching by a regular expression, which the C library compiles or refuses; the empty list stands for the null pointer.\<close>

definition sym_re_search :: "(string \<Rightarrow> (string \<Rightarrow> bool) option) \<Rightarrow> ktab \<Rightarrow> string \<Rightarrow> symbol list" where
  "sym_re_search regcomp st pattern = (if pattern = [] then [] else
     (case regcomp pattern of None \<Rightarrow> []
      | Some re \<Rightarrow> filter (\<lambda>s. SYMBOL_CONST \<notin> s_flags (syms st s) \<and> (case s_name (syms st s) of None \<Rightarrow> False | Some n \<Rightarrow> re n)) (symbol_list st)))"

section \<open>Names of types\<close>

definition sym_type_name :: "symbol_type \<Rightarrow> string" where
  "sym_type_name ty = (case ty of S_BOOLEAN \<Rightarrow> ''boolean'' | S_TRISTATE \<Rightarrow> ''tristate'' | S_INT \<Rightarrow> ''integer'' | S_HEX \<Rightarrow> ''hex''
     | S_STRING \<Rightarrow> ''string'' | S_UNKNOWN \<Rightarrow> ''unknown'' | S_OTHER \<Rightarrow> ''???'')"

definition prop_get_type_name :: "prop_type \<Rightarrow> string" where
  "prop_get_type_name ty = (case ty of P_PROMPT \<Rightarrow> ''prompt'' | P_ENV \<Rightarrow> ''env'' | P_COMMENT \<Rightarrow> ''comment'' | P_MENU \<Rightarrow> ''menu''
     | P_DEFAULT \<Rightarrow> ''default'' | P_CHOICE \<Rightarrow> ''choice'' | P_SELECT \<Rightarrow> ''select'' | P_RANGE \<Rightarrow> ''range'' | P_UNKNOWN \<Rightarrow> ''unknown'')"

section \<open>Strings as values\<close>

definition c_isxdigit :: "char \<Rightarrow> bool" where
  "c_isxdigit c \<longleftrightarrow> c_isdigit c \<or> (let n = (of_char c :: nat) in (97 \<le> n \<and> n \<le> 102) \<or> (65 \<le> n \<and> n \<le> 70))"

definition int_valid :: "string \<Rightarrow> bool" where
  "int_valid str = (let t = (if str \<noteq> [] \<and> hd str = CHR ''-'' then tl str else str) in
     t \<noteq> [] \<and> c_isdigit (hd t) \<and> \<not> (hd t = CHR ''0'' \<and> tl t \<noteq> []) \<and> list_all c_isdigit (tl t))"

definition hex_valid :: "string \<Rightarrow> bool" where
  "hex_valid str = (let t = (case str of a # b # r \<Rightarrow> if a = CHR ''0'' \<and> (b = CHR ''x'' \<or> b = CHR ''X'') then r else str | _ \<Rightarrow> str) in
     t \<noteq> [] \<and> list_all c_isxdigit t)"

text \<open>The letter of a truth value.\<close>

definition tri_letter :: "string \<Rightarrow> tristate option" where
  "tri_letter str = (case str of [] \<Rightarrow> None
     | c # _ \<Rightarrow> if c = CHR ''y'' \<or> c = CHR ''Y'' then Some Yes else if c = CHR ''m'' \<or> c = CHR ''M'' then Some Mod
         else if c = CHR ''n'' \<or> c = CHR ''N'' then Some No else None)"

definition sym_string_valid :: "ktab \<Rightarrow> symbol \<Rightarrow> string \<Rightarrow> bool" where
  "sym_string_valid st s str = (case s_type (syms st s) of
     S_STRING \<Rightarrow> True
   | S_INT \<Rightarrow> int_valid str
   | S_HEX \<Rightarrow> hex_valid str
   | S_BOOLEAN \<Rightarrow> tri_letter str \<noteq> None
   | S_TRISTATE \<Rightarrow> tri_letter str \<noteq> None
   | _ \<Rightarrow> False)"

end
