(* ===== verification/KTable.thy ===== *)
theory KTable
  imports KSymbol
begin

text \<open>
  The hash table of the symbols: \<^verbatim>\<open>sym_lookup\<close> keeps it well formed, and interns names.
\<close>

section \<open>Well-formed tables\<close>

definition table :: "ktab \<Rightarrow> symbol list" where
  "table st = concat (map (symbol_hash st) [0..<257])"

text \<open>Every allocated symbol is in the table once, in the bucket of its name; the constants keep their names, which no
  allocated symbol has.\<close>

definition bucket_of :: "string option \<Rightarrow> nat" where
  "bucket_of name = (case name of None \<Rightarrow> 256 | Some n \<Rightarrow> name_hash n)"

definition wf_table :: "ktab \<Rightarrow> bool" where
  "wf_table st \<longleftrightarrow> (\<forall>n < next_sym st. Sym n \<in> set (symbol_hash st (bucket_of (s_name (syms st (Sym n))))))
     \<and> (\<forall>h. distinct (symbol_hash st h) \<and> (\<forall>s \<in> set (symbol_hash st h). \<exists>n < next_sym st. s = Sym n \<and> bucket_of (s_name (syms st s)) = h
         \<and> (\<forall>x. s_name (syms st s) = Some x \<longrightarrow> const_named x = None)))
     \<and> s_name (syms st symbol_yes) = Some ''y'' \<and> s_name (syms st symbol_mod) = Some ''m'' \<and> s_name (syms st symbol_no) = Some ''n''"

lemma name_hash_less: "name_hash n < 256"
  by (simp add: name_hash_def)

lemma bucket_less: "bucket_of name < 257"
  by (cases name) (simp_all add: bucket_of_def name_hash_less less_trans [OF name_hash_less])

lemma wf_init: "wf_table init_ktab"
  by (simp add: wf_table_def init_ktab_def const_ksym_def new_ksym_def)

text \<open>The loop over all symbols meets each allocated one exactly once.\<close>

lemma wf_table_list: "wf_table st \<Longrightarrow> distinct (table st) \<and> set (table st) = Sym ` {..< next_sym st}"
proof
  assume w: "wf_table st"
  have b: "s \<in> set (symbol_hash st h) \<Longrightarrow> bucket_of (s_name (syms st s)) = h" for s h using w by (auto simp: wf_table_def)
  have d: "distinct (symbol_hash st h)" for h using w by (simp add: wf_table_def)
  have "distinct (concat (map (symbol_hash st) [0..<k]))" for k
  proof (induction k)
    case (Suc k)
    have "set (concat (map (symbol_hash st) [0..<k])) \<inter> set (symbol_hash st k) = {}"
    proof (rule ccontr)
      assume "set (concat (map (symbol_hash st) [0..<k])) \<inter> set (symbol_hash st k) \<noteq> {}"
      then obtain s i where "i < k" "s \<in> set (symbol_hash st i)" "s \<in> set (symbol_hash st k)" by auto
      then show False using b [of s i] b [of s k] by simp
    qed
    then show ?case using Suc d by simp
  qed simp
  then show "distinct (table st)" by (simp add: table_def)
  show "set (table st) = Sym ` {..< next_sym st}"
  proof
    show "set (table st) \<subseteq> Sym ` {..< next_sym st}" using w by (fastforce simp: wf_table_def table_def)
    show "Sym ` {..< next_sym st} \<subseteq> set (table st)"
    proof
      fix s assume "s \<in> Sym ` {..< next_sym st}"
      then obtain n where n: "s = Sym n" "n < next_sym st" by auto
      then have "s \<in> set (symbol_hash st (bucket_of (s_name (syms st s))))" using w by (simp add: wf_table_def)
      then show "s \<in> set (table st)" using bucket_less [of "s_name (syms st s)"] unfolding table_def by auto
    qed
  qed
qed

lemma fold_upd: "distinct xs \<Longrightarrow> fold (\<lambda>s. upd s f) xs st = st\<lparr>syms := (\<lambda>t. if t \<in> set xs then f (syms st t) else syms st t)\<rparr>"
proof (induction xs arbitrary: st)
  case (Cons x xs)
  then show ?case by (auto simp: upd_def fun_eq_iff intro!: ktab.equality)
qed simp

text \<open>Updating all symbols at once is the loop over them.\<close>

lemma all_symbols_loop: "wf_table st \<Longrightarrow> all_symbols f st = fold (\<lambda>s. upd s f) (symbol_list st) st"
proof -
  assume "wf_table st"
  from wf_table_list [OF this] have d: "distinct (symbol_list st)" and m: "t \<in> set (symbol_list st) \<longleftrightarrow> (\<exists>n < next_sym st. t = Sym n) \<and> s_type (syms st t) \<noteq> S_OTHER" for t
    by (auto simp: symbol_list_def table_def)
  show ?thesis unfolding fold_upd [OF d] m by (auto simp: all_symbols_def fun_eq_iff split: symbol.split)
qed

section \<open>Looking up\<close>

lemma wf_new_symbol:
  assumes "wf_table st" "h = bucket_of name" "\<And>x. name = Some x \<Longrightarrow> const_named x = None"
  shows "wf_table (snd (new_symbol h name flags st))"
proof -
  define st' where "st' = snd (new_symbol h name flags st)"
  let ?s = "Sym (next_sym st)"
  have fresh: "?s \<notin> set (symbol_hash st k)" for k using assms(1) by (auto simp: wf_table_def)
  have n: "next_sym st' = Suc (next_sym st)" "symbol_hash st' = (symbol_hash st)(h := ?s # symbol_hash st h)"
    "s_name (syms st' ?s) = name" "\<And>t. t \<noteq> ?s \<Longrightarrow> syms st' t = syms st t"
    by (simp_all add: st'_def new_symbol_def Let_def new_ksym_def)
  have 1: "Sym m \<in> set (symbol_hash st' (bucket_of (s_name (syms st' (Sym m)))))" if "m < next_sym st'" for m
    using that assms(1,2) n(3) n(4) [of "Sym m"] by (cases "m = next_sym st") (auto simp: n(1,2) wf_table_def less_Suc_eq)
  have 2: "distinct (symbol_hash st' k)" for k using assms(1) fresh by (simp add: n(2) wf_table_def)
  have 3: "\<exists>m < next_sym st'. s = Sym m \<and> bucket_of (s_name (syms st' s)) = k \<and> (\<forall>x. s_name (syms st' s) = Some x \<longrightarrow> const_named x = None)"
    if "s \<in> set (symbol_hash st' k)" for s k
  proof (cases "s = ?s")
    case True
    then have "k = h" using that fresh by (auto simp: n(2) split: if_splits)
    then show ?thesis using True assms(2,3) n(1,3) by auto
  next
    case False
    then have "s \<in> set (symbol_hash st k)" using that by (auto simp: n(2) split: if_splits)
    then have "\<exists>m < next_sym st. s = Sym m \<and> bucket_of (s_name (syms st s)) = k \<and> (\<forall>x. s_name (syms st s) = Some x \<longrightarrow> const_named x = None)"
      using assms(1) by (simp add: wf_table_def)
    then show ?thesis unfolding n(1) n(4) [OF False] using less_SucI by blast
  qed
  have "syms st' symbol_yes = syms st symbol_yes" "syms st' symbol_mod = syms st symbol_mod" "syms st' symbol_no = syms st symbol_no"
    by (simp_all add: n(4))
  then show ?thesis using 1 2 3 assms(1) unfolding wf_table_def st'_def [symmetric] by simp
qed

lemma const_named_name: "wf_table st \<Longrightarrow> const_named n = Some s \<Longrightarrow> s_name (syms st s) = Some n"
  by (auto simp: const_named_def wf_table_def split: if_splits)

lemma find_SomeD: "find P xs = Some x \<Longrightarrow> P x \<and> x \<in> set xs"
  by (induction xs) (auto split: if_splits)

text \<open>
  Claim C29. \<^verbatim>\<open>sym_lookup\<close> interns names. On a well-formed table it gives the table's symbol of that name and keeps the table
  well formed; asked again it gives the same symbol and allocates nothing; no symbol that was allocated before changes, and
  \<^verbatim>\<open>sym_find\<close> finds the name afterwards if it was looked up without flags.
\<close>

theorem sym_lookup_interns:
  assumes "wf_table st" "sym_lookup (Some n) flags st = (s, st')"
  shows "wf_table st' \<and> s_name (syms st' s) = Some n \<and> sym_lookup (Some n) flags st' = (s, st')
    \<and> (\<forall>t. t \<noteq> Sym (next_sym st) \<longrightarrow> syms st' t = syms st t) \<and> next_sym st' \<le> next_sym st + 1
    \<and> (flags = {} \<longrightarrow> sym_find (Some n) st' \<noteq> None)"
proof (cases "const_named n")
  case (Some c)
  then show ?thesis using assms const_named_name by (auto simp: sym_lookup_def sym_find_def)
next
  case None
  show ?thesis
  proof (cases "find (lookup_match st n flags) (symbol_hash st (name_hash n))")
    case (Some x)
    then have x: "s = x" "st' = st" using assms(2) None by (simp_all add: sym_lookup_def)
    from find_SomeD [OF Some] have m: "lookup_match st n flags x" "x \<in> set (symbol_hash st (name_hash n))" by simp_all
    have "find (\<lambda>s. s_name (syms st s) = Some n \<and> SYMBOL_CONST \<notin> s_flags (syms st s)) (symbol_hash st (name_hash n)) \<noteq> None" if "flags = {}"
      using m that by (auto simp: find_None_iff lookup_match_def)
    then show ?thesis using assms m(1) x None Some by (simp add: sym_find_def lookup_match_def sym_lookup_def)
  next
    case n: None
    have e: "(s, st') = new_symbol (name_hash n) (Some n) flags st" using assms(2) None n by (simp add: sym_lookup_def)
    then have w: "wf_table st'" using wf_new_symbol [OF assms(1), of "name_hash n" "Some n" flags] None by (metis bucket_of_def option.inject option.simps(5) snd_conv)
    have f: "s = Sym (next_sym st)" "syms st' s = new_ksym (Some n) flags" "symbol_hash st' (name_hash n) = s # symbol_hash st (name_hash n)"
      "next_sym st' = next_sym st + 1" "t \<noteq> s \<Longrightarrow> syms st' t = syms st t" for t
      using e by (simp_all add: new_symbol_def Let_def)
    have "lookup_match st' n flags s" using f(2) by (auto simp: lookup_match_def new_ksym_def)
    then have "sym_lookup (Some n) flags st' = (s, st')" using None f(3) by (simp add: sym_lookup_def)
    moreover have "sym_find (Some n) st' \<noteq> None" if "flags = {}" using None f(2,3) that by (simp add: sym_find_def new_ksym_def)
    ultimately show ?thesis using w f by (auto simp: new_ksym_def)
  qed
qed

theorem sym_lookup_interns_witness:
  "sym_lookup (Some ''BR2_ARM'') {} (snd (sym_lookup (Some ''BR2_ARM'') {} init_ktab)) = sym_lookup (Some ''BR2_ARM'') {} init_ktab"
  using sym_lookup_interns [OF wf_init surjective_pairing, of "''BR2_ARM''" "{}"] by simp

end
