(* ===== verification/KCheck.thy ===== *)
theory KCheck
  imports KSymbol
begin

text \<open>
  The search for recursive dependencies (\<^verbatim>\<open>sym_check_deps\<close> and its helpers in \<^verbatim>\<open>symbol.c\<close>): a depth-first search in which
  \<^verbatim>\<open>SYMBOL_CHECK\<close> marks the symbols on the stack and \<^verbatim>\<open>SYMBOL_CHECKED\<close> those that were visited. A check returns the symbol
  that closes a cycle, or \<open>None\<close> for the null pointer. The recursion is bounded by an argument; the outer \<open>None\<close> says that it
  was too small, or that a null pointer is followed: the choice of a value that has none, or the file of the first property of
  the symbol that closes a cycle, which the message names. The messages themselves are left out.
\<close>

type_synonym check = "ktab \<Rightarrow> (symbol option \<times> ktab) option"

text \<open>The second check only if the first one found nothing.\<close>

definition and_then :: "check \<Rightarrow> check \<Rightarrow> check" where
  "and_then c d st = do { (r, st) \<leftarrow> c st; if r \<noteq> None then Some (r, st) else d st }"

definition nothing :: check where
  "nothing st = Some (None, st)"

fun check_expr :: "(symbol \<Rightarrow> check) \<Rightarrow> expr \<Rightarrow> check" where
  "check_expr rec (E_OR a b) = and_then (check_expr rec a) (check_expr rec b)"
| "check_expr rec (E_AND a b) = and_then (check_expr rec a) (check_expr rec b)"
| "check_expr rec (E_NOT a) = check_expr rec a"
| "check_expr rec (E_EQUAL s t) = and_then (rec s) (rec t)"
| "check_expr rec (E_UNEQUAL s t) = and_then (rec s) (rec t)"
| "check_expr rec (E_SYMBOL s) = rec s"

definition sym_check_expr_deps :: "(symbol \<Rightarrow> check) \<Rightarrow> expr option \<Rightarrow> check" where
  "sym_check_expr_deps rec e = (case e of None \<Rightarrow> nothing | Some e \<Rightarrow> check_expr rec e)"

definition dep_of :: "prop_expr \<Rightarrow> expr option" where
  "dep_of e = (case e of Dep e \<Rightarrow> Some e | _ \<Rightarrow> None)"

fun check_props :: "(symbol \<Rightarrow> check) \<Rightarrow> bool \<Rightarrow> property list \<Rightarrow> check" where
  "check_props rec choice [] = nothing"
| "check_props rec choice (p # ps) =
     (if p_type p = P_CHOICE \<or> p_type p = P_SELECT then check_props rec choice ps
      else and_then (sym_check_expr_deps rec (p_visible p))
        (if p_type p \<noteq> P_DEFAULT \<or> choice then check_props rec choice ps
         else and_then (sym_check_expr_deps rec (dep_of (p_expr p))) (check_props rec choice ps)))"

definition sym_check_sym_deps :: "(symbol \<Rightarrow> check) \<Rightarrow> symbol \<Rightarrow> check" where
  "sym_check_sym_deps rec s st =
     and_then (sym_check_expr_deps rec (s_rev_expr (syms st s))) (check_props rec (sym_is_choice st s) (s_prop (syms st s))) st"

definition enter :: "symbol \<Rightarrow> ktab \<Rightarrow> ktab" where
  "enter s st = set_flag SYMBOL_CHECKED s (set_flag SYMBOL_CHECK s st)"

definition leave :: "symbol \<Rightarrow> ktab \<Rightarrow> ktab" where
  "leave s = clear_flag SYMBOL_CHECK s"

fun check_values :: "(symbol \<Rightarrow> check) \<Rightarrow> symbol list \<Rightarrow> check" where
  "check_values rec [] = nothing"
| "check_values rec (s # ss) = and_then (sym_check_sym_deps rec s) (check_values rec ss)"

definition sym_check_choice_deps :: "(symbol \<Rightarrow> check) \<Rightarrow> symbol \<Rightarrow> check" where
  "sym_check_choice_deps rec choice st = (let vals = choice_values st choice in do {
     (r, st) \<leftarrow> sym_check_sym_deps rec choice (enter choice (fold enter vals st));
     let st = leave choice st;
     (r, st) \<leftarrow> (if r \<noteq> None then Some (r, st) else check_values rec vals st);
     let st = fold leave vals st;
     Some (case r of None \<Rightarrow> None
       | Some s2 \<Rightarrow> if sym_is_choice_value st s2 \<and> choice_of st s2 = Some choice then Some choice else Some s2, st) })"

fun sym_check_deps :: "nat \<Rightarrow> symbol \<Rightarrow> check" where
  "sym_check_deps 0 s st = None"
| "sym_check_deps (Suc n) s st =
     (if has_flag st s SYMBOL_CHECK then (if has_place st s then Some (Some s, st) else None)
      else if has_flag st s SYMBOL_CHECKED then Some (None, st)
      else do {
        (r, st) \<leftarrow> (if sym_is_choice_value st s
            then (case choice_of st s of None \<Rightarrow> None | Some c \<Rightarrow> sym_check_deps n c st)
          else if sym_is_choice st s then sym_check_choice_deps (sym_check_deps n) s st
          else map_option (\<lambda>(r, st). (r, leave s st)) (sym_check_sym_deps (sym_check_deps n) s (enter s st)));
        if r = Some s then Some (None, st\<lparr>zconfnerrs := zconfnerrs st + 1\<rparr>) else Some (r, st) })"

text \<open>The loop of the parser over all symbols (\<^verbatim>\<open>conf_parse\<close>).\<close>

fun check_all :: "nat \<Rightarrow> symbol list \<Rightarrow> ktab \<Rightarrow> ktab option" where
  "check_all n [] st = Some st"
| "check_all n (s # ss) st = do {
     (r, st) \<leftarrow> sym_check_deps n s st;
     check_all n ss (if r \<noteq> None then st\<lparr>zconfnerrs := zconfnerrs st + 1\<rparr> else st) }"

end
