(* ===== verification/KCalc.thy ===== *)
theory KCalc
  imports KCheck Sysfs
begin

text \<open>
  The evaluation of symbols in \<^verbatim>\<open>symbol.c\<close>: \<^verbatim>\<open>sym_calc_value\<close> with the functions it calls, and the setting of values. The value of
  a symbol is computed once, guarded by \<^verbatim>\<open>SYMBOL_VALID\<close>, and its dependencies are computed on the way by recursive calls; the
  functions here get these calls as their argument \<open>rec\<close>. \<open>None\<close> says that the depth was not enough, or that a null pointer
  is followed (a value of a choice without its choice, a default of a choice without a symbol).
\<close>

type_synonym calc = "symbol \<Rightarrow> ktab \<Rightarrow> ktab option"

section \<open>Numbers\<close>

definition digit_value :: "char \<Rightarrow> int" where
  "digit_value c = (let n = (of_char c :: int) in
     if 48 \<le> n \<and> n \<le> 57 then n - 48 else if 97 \<le> n \<and> n \<le> 102 then n - 87 else if 65 \<le> n \<and> n \<le> 70 then n - 55 else 99)"

fun digits_base :: "int \<Rightarrow> int \<Rightarrow> string \<Rightarrow> int" where
  "digits_base base acc [] = acc"
| "digits_base base acc (c # s) = (if digit_value c < base then digits_base base (base * acc + digit_value c) s else acc)"

text \<open>\<^verbatim>\<open>strtol\<close> for base 10 or 16 on the host, where \<^verbatim>\<open>long\<close> has 64 bits; the callers keep 32 of them.\<close>

definition c_strtol :: "int \<Rightarrow> string \<Rightarrow> int" where
  "c_strtol base s = (case strip_sign (dropWhile c_isspace s) of (neg, u) \<Rightarrow>
     let u = (if base = 16 \<and> (take 2 u = ''0x'' \<or> take 2 u = ''0X'') then drop 2 u else u);
         v = digits_base base 0 u in
     max (- (2 ^ 63)) (min (2 ^ 63 - 1) (if neg then - v else v)))"

definition to_int :: "int \<Rightarrow> int" where
  "to_int v = sint (word_of_int v :: 32 word)"

function show_hex :: "nat \<Rightarrow> string" where
  "show_hex n = (if n < 16 then [''0123456789abcdef'' ! n] else show_hex (n div 16) @ [''0123456789abcdef'' ! (n mod 16)])"
  by pat_completeness auto
termination
  by (relation "measure id") auto

declare show_hex.simps [simp del]

section \<open>Expressions\<close>

fun calc_expr :: "calc \<Rightarrow> expr \<Rightarrow> ktab \<Rightarrow> (tristate \<times> ktab) option" where
  "calc_expr rec (E_SYMBOL s) st = do { st \<leftarrow> rec s st; Some (tri (s_curr (syms st s)), st) }"
| "calc_expr rec (E_AND a b) st = do { (v1, st) \<leftarrow> calc_expr rec a st; (v2, st) \<leftarrow> calc_expr rec b st; Some (EXPR_AND v1 v2, st) }"
| "calc_expr rec (E_OR a b) st = do { (v1, st) \<leftarrow> calc_expr rec a st; (v2, st) \<leftarrow> calc_expr rec b st; Some (EXPR_OR v1 v2, st) }"
| "calc_expr rec (E_NOT a) st = do { (v, st) \<leftarrow> calc_expr rec a st; Some (EXPR_NOT v, st) }"
| "calc_expr rec (E_EQUAL a b) st = do { st \<leftarrow> rec a st; st \<leftarrow> rec b st; Some (calc_value (tab_of st) (values_of st) (E_EQUAL a b), st) }"
| "calc_expr rec (E_UNEQUAL a b) st = do { st \<leftarrow> rec a st; st \<leftarrow> rec b st; Some (calc_value (tab_of st) (values_of st) (E_UNEQUAL a b), st) }"

definition calc_opt :: "calc \<Rightarrow> expr option \<Rightarrow> ktab \<Rightarrow> (tristate \<times> ktab) option" where
  "calc_opt rec e st = (case e of None \<Rightarrow> Some (Yes, st) | Some e \<Rightarrow> calc_expr rec e st)"

text \<open>The first property of a type whose condition is not \<open>No\<close>, with the value of the condition
  (\<^verbatim>\<open>sym_get_default_prop\<close>, \<^verbatim>\<open>sym_get_range_prop\<close>).\<close>

fun first_visible :: "calc \<Rightarrow> prop_type \<Rightarrow> property list \<Rightarrow> ktab \<Rightarrow> ((property \<times> tristate) option \<times> ktab) option" where
  "first_visible rec ty [] st = Some (None, st)"
| "first_visible rec ty (p # ps) st =
     (if p_type p = ty then do { (t, st) \<leftarrow> calc_opt rec (p_visible p) st; if t \<noteq> No then Some (Some (p, t), st) else first_visible rec ty ps st }
      else first_visible rec ty ps st)"

definition sym_get_default_prop :: "calc \<Rightarrow> symbol \<Rightarrow> ktab \<Rightarrow> ((property \<times> tristate) option \<times> ktab) option" where
  "sym_get_default_prop rec s st = first_visible rec P_DEFAULT (s_prop (syms st s)) st"

definition sym_get_range_prop :: "calc \<Rightarrow> symbol \<Rightarrow> ktab \<Rightarrow> ((property \<times> tristate) option \<times> ktab) option" where
  "sym_get_range_prop rec s st = first_visible rec P_RANGE (s_prop (syms st s)) st"

section \<open>Ranges\<close>

definition range_base :: "symbol_type \<Rightarrow> int \<Rightarrow> int" where
  "range_base ty base = (if ty = S_INT then 10 else if ty = S_HEX then 16 else base)"

definition sym_get_range_val :: "calc \<Rightarrow> symbol \<Rightarrow> int \<Rightarrow> ktab \<Rightarrow> (int \<times> ktab) option" where
  "sym_get_range_val rec s base st = do { st \<leftarrow> rec s st;
     Some (to_int (c_strtol (range_base (s_type (syms st s)) base) (val (s_curr (syms st s)))), st) }"

definition range_ends :: "property \<Rightarrow> (symbol \<times> symbol) option" where
  "range_ends p = (case p_expr p of Ends l r \<Rightarrow> Some (l, r) | _ \<Rightarrow> None)"

definition show_bound :: "symbol_type \<Rightarrow> int \<Rightarrow> string" where
  "show_bound ty v = (if ty = S_INT then show_int v else ''0x'' @ show_hex (nat (v mod 2 ^ 32)))"

definition set_val :: "string \<Rightarrow> ksym \<Rightarrow> ksym" where
  "set_val x k = k\<lparr>s_curr := (s_curr k)\<lparr>val := x\<rparr>\<rparr>"

definition sym_validate_range :: "calc \<Rightarrow> symbol \<Rightarrow> ktab \<Rightarrow> ktab option" where
  "sym_validate_range rec s st = (let ty = s_type (syms st s) in
     if ty \<noteq> S_INT \<and> ty \<noteq> S_HEX then Some st
     else let base = range_base ty 0 in do {
       (p, st) \<leftarrow> sym_get_range_prop rec s st;
       case p of None \<Rightarrow> Some st
       | Some (p, _) \<Rightarrow> do {
           let cur = to_int (c_strtol base (val (s_curr (syms st s))));
           (l, r) \<leftarrow> range_ends p;
           (v, st) \<leftarrow> sym_get_range_val rec l base st;
           if cur \<ge> v then do {
             (v, st) \<leftarrow> sym_get_range_val rec r base st;
             if cur \<le> v then Some st else Some (upd s (set_val (show_bound ty v)) st) }
           else Some (upd s (set_val (show_bound ty v)) st) } })"

section \<open>Visibility\<close>

fun prompts_visible :: "calc \<Rightarrow> property list \<Rightarrow> tristate \<Rightarrow> ktab \<Rightarrow> (tristate \<times> ktab) option" where
  "prompts_visible rec [] t st = Some (t, st)"
| "prompts_visible rec (p # ps) t st =
     (if p_text p \<noteq> None then do { (v, st) \<leftarrow> calc_opt rec (p_visible p) st; prompts_visible rec ps (EXPR_OR t v) st }
      else prompts_visible rec ps t st)"

definition set_visible :: "symbol \<Rightarrow> tristate \<Rightarrow> ktab \<Rightarrow> ktab" where
  "set_visible s t st = (if s_visible (syms st s) \<noteq> t then sym_set_changed s (upd s (\<lambda>k. k\<lparr>s_visible := t\<rparr>) st) else st)"

definition set_rev :: "symbol \<Rightarrow> tristate \<Rightarrow> ktab \<Rightarrow> ktab" where
  "set_rev s t st = (if s_rev_tri (syms st s) \<noteq> t then sym_set_changed s (upd s (\<lambda>k. k\<lparr>s_rev_tri := t\<rparr>) st) else st)"

definition sym_calc_visibility :: "calc \<Rightarrow> symbol \<Rightarrow> ktab \<Rightarrow> ktab option" where
  "sym_calc_visibility rec s st = do {
     (t, st) \<leftarrow> prompts_visible rec (s_prop (syms st s)) No st;
     let t = (if t = Mod \<and> (s_type (syms st s) \<noteq> S_TRISTATE \<or> modules_val st = No) then Yes else t);
     let st = set_visible s t st;
     if sym_is_choice_value st s then Some st
     else do {
       (t, st) \<leftarrow> (case s_rev_expr (syms st s) of None \<Rightarrow> Some (No, st) | Some e \<Rightarrow> calc_expr rec e st);
       let t = (if t = Mod \<and> sym_get_type st s = S_BOOLEAN then Yes else t);
       Some (set_rev s t st) } }"

section \<open>Choices\<close>

text \<open>The first visible symbol of a list; the first visible default.\<close>

fun first_choice :: "calc \<Rightarrow> symbol list \<Rightarrow> ktab \<Rightarrow> (symbol option \<times> ktab) option" where
  "first_choice rec [] st = Some (None, st)"
| "first_choice rec (d # ds) st = do { st \<leftarrow> sym_calc_visibility rec d st;
     if s_visible (syms st d) \<noteq> No then Some (Some d, st) else first_choice rec ds st }"

fun default_choice :: "calc \<Rightarrow> property list \<Rightarrow> ktab \<Rightarrow> (symbol option \<times> ktab) option" where
  "default_choice rec [] st = Some (None, st)"
| "default_choice rec (p # ps) st =
     (if p_type p \<noteq> P_DEFAULT then default_choice rec ps st
      else do { (t, st) \<leftarrow> calc_opt rec (p_visible p) st;
        if t = No then default_choice rec ps st
        else do { d \<leftarrow> prop_get_symbol p;
          st \<leftarrow> sym_calc_visibility rec d st;
          if s_visible (syms st d) \<noteq> No then Some (Some d, st) else default_choice rec ps st } })"

definition sym_calc_choice :: "calc \<Rightarrow> symbol \<Rightarrow> ktab \<Rightarrow> (symbol option \<times> ktab) option" where
  "sym_calc_choice rec s st = do {
     (d, st) \<leftarrow> (case u_chosen (s_user (syms st s)) of None \<Rightarrow> Some (None, st) | Some d \<Rightarrow> first_choice rec [d] st);
     if d \<noteq> None then Some (d, st)
     else do {
       (d, st) \<leftarrow> default_choice rec (s_prop (syms st s)) st;
       if d \<noteq> None then Some (d, st)
       else do {
         (d, st) \<leftarrow> first_choice rec (choice_values st s) st;
         if d \<noteq> None then Some (d, st)
         else Some (None, upd s (\<lambda>k. k\<lparr>s_curr := (s_curr k)\<lparr>tri := No\<rparr>\<rparr>) st) } } }"

section \<open>Values\<close>

text \<open>The truth value of a boolean or tristate symbol that is not the visible value of a choice.\<close>

definition calc_default :: "calc \<Rightarrow> symbol \<Rightarrow> ktab \<Rightarrow> (tristate \<times> ktab) option" where
  "calc_default rec s st = (if sym_is_choice st s then Some (No, st)
     else do { (p, st) \<leftarrow> sym_get_default_prop rec s st;
       case p of None \<Rightarrow> Some (No, st)
       | Some (p, vis) \<Rightarrow> do { (v, st) \<leftarrow> calc_opt rec (dep_of (p_expr p)) (set_flag SYMBOL_WRITE s st); Some (EXPR_AND v vis, st) } })"

definition calc_tristate :: "calc \<Rightarrow> symbol \<Rightarrow> ktab \<Rightarrow> (tristate \<times> ktab) option" where
  "calc_tristate rec s st = do {
     (t, st) \<leftarrow>
       (if sym_is_choice_value st s \<and> s_visible (syms st s) = Yes
        then do { c \<leftarrow> choice_of st s; Some (if s_chosen (syms st c) = Some s then Yes else No, st) }
        else (let vis = s_visible (syms st s); st = (if vis \<noteq> No then set_flag SYMBOL_WRITE s st else st) in do {
          (t, st) \<leftarrow> (if vis \<noteq> No \<and> sym_has_value st s then Some (EXPR_AND (u_tri (s_user (syms st s))) vis, st)
            else calc_default rec s (if s_rev_tri (syms st s) \<noteq> No then set_flag SYMBOL_WRITE s st else st));
          Some (EXPR_OR t (s_rev_tri (syms st s)), st) }));
     Some (if t = Mod \<and> sym_get_type st s = S_BOOLEAN then Yes else t, st) }"

definition calc_string :: "calc \<Rightarrow> symbol \<Rightarrow> ktab \<Rightarrow> (string \<times> ktab) option" where
  "calc_string rec s st =
     (let vis = s_visible (syms st s); st = (if vis \<noteq> No then set_flag SYMBOL_WRITE s st else st) in
      if vis \<noteq> No \<and> sym_has_value st s then Some (case u_val (s_user (syms st s)) of None \<Rightarrow> [] | Some x \<Rightarrow> x, st)
      else do { (p, st) \<leftarrow> sym_get_default_prop rec s st;
        case p of None \<Rightarrow> Some ([], st)
        | Some (p, _) \<Rightarrow> (case prop_get_symbol p of None \<Rightarrow> Some ([], st)
            | Some d \<Rightarrow> do { st \<leftarrow> rec d (set_flag SYMBOL_WRITE s st); Some (val (s_curr (syms st d)), st) }) })"

definition is_logical :: "symbol_type \<Rightarrow> bool" where
  "is_logical ty \<longleftrightarrow> ty = S_BOOLEAN \<or> ty = S_TRISTATE"

definition is_textual :: "symbol_type \<Rightarrow> bool" where
  "is_textual ty \<longleftrightarrow> ty = S_INT \<or> ty = S_HEX \<or> ty = S_STRING"

text \<open>Afterwards: tell that the value has changed, and give the values of a choice its flags. The code compares the bytes of the
  old and of the new value, that is the truth value and the address of the text. For a boolean or tristate symbol the text is a
  constant, or the chosen symbol. The text of other symbols is allocated, and may be freed and allocated again at the
  same place, so that the field \<open>moved\<close> tells whether the address is another one, by the number of the change and the symbol.\<close>

definition value_changed :: "symbol_value \<times> symbol option \<Rightarrow> symbol \<Rightarrow> ktab \<Rightarrow> bool" where
  "value_changed old s st = (if is_textual (s_type (syms st s)) then moved st (change_count st) s
     else old \<noteq> (s_curr (syms st s), s_chosen (syms st s)))"

definition note_change :: "symbol_value \<times> symbol option \<Rightarrow> symbol \<Rightarrow> ktab \<Rightarrow> ktab" where
  "note_change old s st = (if \<not> value_changed old s st then st
     else (let st = sym_set_changed s st in
       if modules_sym st = Some s then (sym_set_all_changed st)\<lparr>modules_val := tri (s_curr (syms st s))\<rparr> else st))"

definition share_flags :: "symbol \<Rightarrow> ktab \<Rightarrow> ktab" where
  "share_flags s st = (if sym_is_choice st s
     then (let flags = s_flags (syms st s) \<inter> {SYMBOL_CHANGED, SYMBOL_WRITE} in
       fold (\<lambda>c. upd c (\<lambda>k. k\<lparr>s_flags := s_flags k \<union> flags\<rparr>)) (choice_values st s) st)
     else st)"

definition set_curr :: "symbol_value \<Rightarrow> ksym \<Rightarrow> ksym" where
  "set_curr v k = k\<lparr>s_curr := v, s_chosen := None\<rparr>"

definition calc_step :: "calc \<Rightarrow> symbol \<Rightarrow> ktab \<Rightarrow> ktab option" where
  "calc_step rec s st = (let ty = s_type (syms st s); old = (s_curr (syms st s), s_chosen (syms st s)) in
     if \<not> is_logical ty \<and> \<not> is_textual ty
     then Some (upd s (set_curr \<lparr>val = (case s_name (syms st s) of None \<Rightarrow> [] | Some n \<Rightarrow> n), tri = No\<rparr>) st)
     else (let newval = (if is_textual ty then empty_value else no_value);
               st = (if sym_is_choice_value st s then st else clear_flag SYMBOL_WRITE s st) in do {
       st \<leftarrow> sym_calc_visibility rec s st;
       let st = upd s (set_curr newval) st;
       (newval, st) \<leftarrow> (if is_logical (sym_get_type st s)
           then do { (t, st) \<leftarrow> calc_tristate rec s st; Some (newval\<lparr>tri := t\<rparr>, st) }
           else do { (x, st) \<leftarrow> calc_string rec s st; Some (newval\<lparr>val := x\<rparr>, st) });
       let st = upd s (set_curr newval) st;
       st \<leftarrow> (if sym_is_choice st s \<and> tri newval = Yes
           then do { (d, st) \<leftarrow> sym_calc_choice rec s st; Some (upd s (\<lambda>k. k\<lparr>s_chosen := d\<rparr>) st) } else Some st);
       st \<leftarrow> sym_validate_range rec s st;
       let st = share_flags s (note_change old s st);
       Some (if has_flag st s SYMBOL_AUTO then clear_flag SYMBOL_WRITE s st else st) }))"

fun sym_calc_value :: "nat \<Rightarrow> calc" where
  "sym_calc_value 0 s st = None"
| "sym_calc_value (Suc n) s st = (if has_flag st s SYMBOL_VALID then Some st
     else calc_step (sym_calc_value n) s (set_flag SYMBOL_VALID s st))"

section \<open>Setting values\<close>

definition sym_clear_all_valid :: "nat \<Rightarrow> ktab \<Rightarrow> ktab option" where
  "sym_clear_all_valid n st = (let st = all_symbols (\<lambda>k. k\<lparr>s_flags := s_flags k - {SYMBOL_VALID}\<rparr>) st;
       st = st\<lparr>change_count := change_count st + 1\<rparr> in
     case modules_sym st of None \<Rightarrow> Some st | Some m \<Rightarrow> sym_calc_value n m st)"

definition set_user :: "(user_value \<Rightarrow> user_value) \<Rightarrow> ksym \<Rightarrow> ksym" where
  "set_user f k = k\<lparr>s_user := f (s_user k)\<rparr>"

text \<open>Setting a value of a choice also resets the choice and the new flag of its other values.\<close>

definition choose_value :: "symbol \<Rightarrow> ktab \<Rightarrow> ktab option" where
  "choose_value s st = do { c \<leftarrow> choice_of st s;
     let st = set_flag SYMBOL_DEF_USER c (upd c (set_user (\<lambda>u. u\<lparr>u_chosen := Some s\<rparr>)) st);
     Some (fold (\<lambda>d st. if s_visible (syms st d) \<noteq> No then set_flag SYMBOL_DEF_USER d st else st) (choice_values st c) st) }"

definition mark_user :: "symbol \<Rightarrow> ktab \<Rightarrow> ktab" where
  "mark_user s st = (if has_flag st s SYMBOL_DEF_USER then st else sym_set_changed s (set_flag SYMBOL_DEF_USER s st))"

definition sym_set_tristate_value :: "nat \<Rightarrow> symbol \<Rightarrow> tristate \<Rightarrow> ktab \<Rightarrow> (bool \<times> ktab) option" where
  "sym_set_tristate_value n s v st = (let oldval = sym_get_tristate_value st s in
     if oldval \<noteq> v \<and> \<not> sym_tristate_within_range st s v then Some (False, st)
     else (let st = mark_user s st in do {
       st \<leftarrow> (if sym_is_choice_value st s \<and> v = Yes then choose_value s st else Some st);
       let st = upd s (set_user (\<lambda>u. u\<lparr>u_tri := v\<rparr>)) st;
       st \<leftarrow> (if oldval \<noteq> v then sym_clear_all_valid n st else Some st);
       Some (True, st) }))"

definition next_value :: "tristate \<Rightarrow> tristate" where
  "next_value t = (case t of No \<Rightarrow> Mod | Mod \<Rightarrow> Yes | Yes \<Rightarrow> No)"

text \<open>The loop of \<^verbatim>\<open>sym_toggle_tristate_value\<close> goes round the three values at most once.\<close>

primrec toggle_loop :: "nat \<Rightarrow> nat \<Rightarrow> symbol \<Rightarrow> tristate \<Rightarrow> tristate \<Rightarrow> ktab \<Rightarrow> (tristate \<times> ktab) option" where
  "toggle_loop 0 n s oldval newval st = None"
| "toggle_loop (Suc k) n s oldval newval st = (let newval = next_value newval in do {
     (ok, st) \<leftarrow> sym_set_tristate_value n s newval st;
     if ok \<or> oldval = newval then Some (newval, st) else toggle_loop k n s oldval newval st })"

definition sym_toggle_tristate_value :: "nat \<Rightarrow> symbol \<Rightarrow> ktab \<Rightarrow> (tristate \<times> ktab) option" where
  "sym_toggle_tristate_value n s st = (let v = sym_get_tristate_value st s in toggle_loop 3 n s v v st)"

definition sym_string_within_range :: "nat \<Rightarrow> symbol \<Rightarrow> string \<Rightarrow> ktab \<Rightarrow> (bool \<times> ktab) option" where
  "sym_string_within_range n s str st = (let ty = s_type (syms st s) in
     if ty = S_STRING then Some (sym_string_valid st s str, st)
     else if ty = S_INT \<or> ty = S_HEX then
       (if \<not> sym_string_valid st s str then Some (False, st)
        else do { (p, st) \<leftarrow> sym_get_range_prop (sym_calc_value n) s st;
          case p of None \<Rightarrow> Some (True, st)
          | Some (p, _) \<Rightarrow> do {
              let base = range_base ty 0;
              let v = to_int (c_strtol base str);
              (l, r) \<leftarrow> range_ends p;
              (lo, st) \<leftarrow> sym_get_range_val (sym_calc_value n) l base st;
              if v \<ge> lo then do { (hi, st) \<leftarrow> sym_get_range_val (sym_calc_value n) r base st; Some (v \<le> hi, st) }
              else Some (False, st) } })
     else if is_logical ty then Some (case tri_letter str of None \<Rightarrow> False | Some t \<Rightarrow> sym_tristate_within_range st s t, st)
     else Some (False, st))"

text \<open>The string stored for a value: hexadecimal numbers get their prefix.\<close>

definition has_0x :: "string \<Rightarrow> bool" where
  "has_0x x \<longleftrightarrow> take 2 x = ''0x'' \<or> take 2 x = ''0X''"

definition sym_set_string_value :: "nat \<Rightarrow> symbol \<Rightarrow> string \<Rightarrow> ktab \<Rightarrow> (bool \<times> ktab) option" where
  "sym_set_string_value n s newval st = (let ty = s_type (syms st s) in
     if is_logical ty then (case tri_letter newval of None \<Rightarrow> Some (False, st) | Some t \<Rightarrow> sym_set_tristate_value n s t st)
     else do {
       (ok, st) \<leftarrow> sym_string_within_range n s newval st;
       if \<not> ok then Some (False, st)
       else (let st = mark_user s st; oldval = u_val (s_user (syms st s)) in
         if ty = S_HEX \<and> \<not> has_0x newval
         then do { st \<leftarrow> sym_clear_all_valid n (upd s (set_user (\<lambda>u. u\<lparr>u_val := Some (''0x'' @ newval)\<rparr>)) st); Some (True, st) }
         else if oldval \<noteq> Some newval
         then do { st \<leftarrow> sym_clear_all_valid n (upd s (set_user (\<lambda>u. u\<lparr>u_val := Some newval\<rparr>)) st); Some (True, st) }
         else Some (True, st)) })"

end
