(* ===== verification/KCheckProps.thy ===== *)
theory KCheckProps
  imports KCheck
begin

text \<open>
  Correctness of the search for recursive dependencies, for tables without choices: it ends, unless a symbol on a
  cycle has no place in a file, it never returns a symbol at the outermost level, and it counts an error exactly if the dependencies of the symbol have a cycle. What it checks are
  the visibilities of the properties, the reverse dependency and the defaults; the ends of a range are not among them.
\<close>

section \<open>The graph\<close>

fun expr_symbols :: "expr \<Rightarrow> symbol list" where
  "expr_symbols (E_OR a b) = expr_symbols a @ expr_symbols b"
| "expr_symbols (E_AND a b) = expr_symbols a @ expr_symbols b"
| "expr_symbols (E_NOT a) = expr_symbols a"
| "expr_symbols (E_EQUAL s t) = [s, t]"
| "expr_symbols (E_UNEQUAL s t) = [s, t]"
| "expr_symbols (E_SYMBOL s) = [s]"

definition opt_symbols :: "expr option \<Rightarrow> symbol list" where
  "opt_symbols e = (case e of None \<Rightarrow> [] | Some e \<Rightarrow> expr_symbols e)"

definition prop_symbols :: "property \<Rightarrow> symbol list" where
  "prop_symbols p = (if p_type p = P_CHOICE \<or> p_type p = P_SELECT then []
     else opt_symbols (p_visible p) @ (if p_type p = P_DEFAULT then opt_symbols (dep_of (p_expr p)) else []))"

definition dep_symbols :: "ksym \<Rightarrow> symbol list" where
  "dep_symbols k = opt_symbols (s_rev_expr k) @ concat (map prop_symbols (s_prop k))"

definition plain :: "ktab \<Rightarrow> bool" where
  "plain st \<longleftrightarrow> (\<forall>s. SYMBOL_CHOICE \<notin> s_flags (syms st s) \<and> SYMBOL_CHOICEVAL \<notin> s_flags (syms st s))"

definition deps :: "ktab \<Rightarrow> symbol \<Rightarrow> symbol list" where
  "deps st s = dep_symbols (syms st s)"

definition edges :: "ktab \<Rightarrow> (symbol \<times> symbol) set" where
  "edges st = {(a, b). b \<in> set (deps st a)}"

fun check_list :: "(symbol \<Rightarrow> check) \<Rightarrow> symbol list \<Rightarrow> check" where
  "check_list rec [] = nothing"
| "check_list rec (s # ss) = and_then (rec s) (check_list rec ss)"

lemma and_then_assoc: "and_then (and_then a b) c = and_then a (and_then b c)"
  by (rule ext) (auto simp: and_then_def bind_eq_None_conv split: option.splits Option.bind_split)

lemma and_then_nothing [simp]: "and_then nothing c = c" "and_then c nothing = c"
  by (rule ext; auto simp: and_then_def nothing_def split: option.splits Option.bind_split)+

lemma check_list_append [simp]: "check_list rec (xs @ ys) = and_then (check_list rec xs) (check_list rec ys)"
  by (induction xs) (simp_all add: and_then_assoc)

lemma check_expr_list: "check_expr rec e = check_list rec (expr_symbols e)"
  by (induction e) simp_all

lemma check_opt_list: "sym_check_expr_deps rec e = check_list rec (opt_symbols e)"
  by (cases e) (simp_all add: sym_check_expr_deps_def opt_symbols_def check_expr_list)

lemma check_props_list: "check_props rec False ps = check_list rec (concat (map prop_symbols ps))"
  by (induction ps) (auto simp: prop_symbols_def check_opt_list and_then_assoc)

lemma check_sym_list: "plain st \<Longrightarrow> sym_check_sym_deps rec s st = check_list rec (deps st s) st"
  by (simp add: sym_check_sym_deps_def check_opt_list check_props_list deps_def dep_symbols_def sym_is_choice_def has_flag_def plain_def)

section \<open>The outcome of a check\<close>

definition stack :: "ktab \<Rightarrow> symbol set" where
  "stack st = {s. has_flag st s SYMBOL_CHECK}"

definition visited :: "ktab \<Rightarrow> symbol set" where
  "visited st = {s. has_flag st s SYMBOL_CHECKED}"

definition finished :: "ktab \<Rightarrow> symbol set" where
  "finished st = visited st - stack st"

text \<open>A check changes nothing but its two flags and the error counter.\<close>

definition unmarked :: "ksym \<Rightarrow> ksym" where
  "unmarked k = k\<lparr>s_flags := s_flags k - {SYMBOL_CHECK, SYMBOL_CHECKED}\<rparr>"

definition same_table :: "ktab \<Rightarrow> ktab \<Rightarrow> bool" where
  "same_table st st' \<longleftrightarrow> (\<forall>s. unmarked (syms st' s) = unmarked (syms st s)) \<and> modules_sym st' = modules_sym st
     \<and> modules_val st' = modules_val st \<and> next_sym st' = next_sym st \<and> symbol_hash st' = symbol_hash st
     \<and> sym_env_list st' = sym_env_list st \<and> change_count st' = change_count st \<and> in_file st' = in_file st \<and> moved st' = moved st"

lemma same_table_refl: "same_table st st"
  by (simp add: same_table_def)

lemma same_table_trans: "same_table a b \<Longrightarrow> same_table b c \<Longrightarrow> same_table a c"
  by (simp add: same_table_def)

lemma deps_unmarked: "dep_symbols (unmarked k) = dep_symbols k"
  by (simp add: dep_symbols_def unmarked_def)

lemma same_table_deps: "same_table st st' \<Longrightarrow> deps st' = deps st"
  by (rule ext) (metis deps_def deps_unmarked same_table_def)

lemma same_table_edges: "same_table st st' \<Longrightarrow> edges st' = edges st"
  by (simp add: edges_def same_table_deps)

lemma plain_unmarked: "plain st \<longleftrightarrow> (\<forall>s. s_flags (unmarked (syms st s)) \<inter> {SYMBOL_CHOICE, SYMBOL_CHOICEVAL} = {})"
  by (auto simp: plain_def unmarked_def)

lemma same_table_plain: "same_table st st' \<Longrightarrow> plain st' = plain st"
  by (simp only: plain_unmarked same_table_def)

lemma same_table_place: "same_table st st' \<Longrightarrow> has_place st' s = has_place st s"
proof -
  assume "same_table st st'"
  then have "unmarked (syms st' s) = unmarked (syms st s)" by (simp add: same_table_def)
  from arg_cong [OF this, of s_prop] show ?thesis by (simp add: unmarked_def has_place_def)
qed

text \<open>The finished symbols can be ranked along their dependencies.\<close>

definition ranked :: "ktab \<Rightarrow> bool" where
  "ranked st \<longleftrightarrow> (\<exists>f :: symbol \<Rightarrow> nat. \<forall>a \<in> finished st. \<forall>b \<in> set (deps st a). b \<in> finished st \<and> f b < f a)"

definition outcome :: "symbol set \<Rightarrow> ktab \<Rightarrow> symbol option \<Rightarrow> ktab \<Rightarrow> bool" where
  "outcome S st r st' \<longleftrightarrow> same_table st st' \<and> stack st' = stack st \<and> visited st \<subseteq> visited st' \<and> zconfnerrs st \<le> zconfnerrs st'
     \<and> (\<forall>z. r = Some z \<longrightarrow> z \<in> stack st \<and> (\<exists>s \<in> S. (s, z) \<in> (edges st)\<^sup>*))
     \<and> (zconfnerrs st < zconfnerrs st' \<longrightarrow> (\<exists>s \<in> S. \<exists>x. (s, x) \<in> (edges st)\<^sup>* \<and> (x, x) \<in> (edges st)\<^sup>+))
     \<and> (r = None \<and> zconfnerrs st' = zconfnerrs st \<and> ranked st \<longrightarrow> ranked st' \<and> S \<subseteq> finished st')"

lemma outcome_nothing: "outcome {} st None st"
  by (simp add: outcome_def same_table_refl)

lemma outcome_mono: "outcome S st (Some z) st' \<Longrightarrow> S \<subseteq> S' \<Longrightarrow> outcome S' st (Some z) st'"
  unfolding outcome_def by blast

lemma outcome_Un:
  assumes "outcome A st None st1" "outcome B st1 r st2"
  shows "outcome (A \<union> B) st r st2"
proof -
  have e: "edges st1 = edges st" using assms(1) by (simp add: outcome_def same_table_edges)
  have f: "finished st1 \<subseteq> finished st2" using assms(2) by (auto simp: outcome_def finished_def)
  note a = assms(1) [unfolded outcome_def] and b = assms(2) [unfolded outcome_def e]
  show ?thesis unfolding outcome_def
  proof (intro conjI impI)
    show "same_table st st2" using a b same_table_trans by blast
    show "stack st2 = stack st" "visited st \<subseteq> visited st2" "zconfnerrs st \<le> zconfnerrs st2" using a b by auto
    show "\<forall>z. r = Some z \<longrightarrow> z \<in> stack st \<and> (\<exists>s \<in> A \<union> B. (s, z) \<in> (edges st)\<^sup>*)" using a b by blast
    show "\<exists>s \<in> A \<union> B. \<exists>x. (s, x) \<in> (edges st)\<^sup>* \<and> (x, x) \<in> (edges st)\<^sup>+" if "zconfnerrs st < zconfnerrs st2"
    proof (cases "zconfnerrs st < zconfnerrs st1")
      case True then show ?thesis using a by blast
    next
      case False
      then have "zconfnerrs st1 < zconfnerrs st2" using that by simp
      then show ?thesis using b by blast
    qed
    assume n: "r = None \<and> zconfnerrs st2 = zconfnerrs st \<and> ranked st"
    then have "zconfnerrs st1 = zconfnerrs st" "zconfnerrs st2 = zconfnerrs st1" using a b by auto
    with n a b f show "ranked st2" "A \<union> B \<subseteq> finished st2" by auto
  qed
qed

locale checker =
  fixes rec :: "symbol \<Rightarrow> check"
  assumes rec_outcome: "plain st \<Longrightarrow> stack st \<subseteq> visited st \<Longrightarrow> rec s st = Some (r, st') \<Longrightarrow> outcome {s} st r st'"
begin

lemma list_outcome: "plain st \<Longrightarrow> stack st \<subseteq> visited st \<Longrightarrow> check_list rec ss st = Some (r, st') \<Longrightarrow> outcome (set ss) st r st'"
proof (induction ss arbitrary: st r st')
  case Nil
  then show ?case using outcome_nothing by (simp add: nothing_def)
next
  case (Cons s ss)
  obtain r1 st1 where a: "rec s st = Some (r1, st1)" using Cons(4) by (cases "rec s st") (auto simp: and_then_def)
  note o1 = rec_outcome [OF Cons(2,3) a]
  show ?case
  proof (cases r1)
    case (Some z)
    then show ?thesis using Cons(4) a o1 outcome_mono [of "{s}" st z st1 "set (s # ss)"] by (simp add: and_then_def)
  next
    case None
    have "check_list rec ss st1 = Some (r, st')" using Cons(4) a None by (simp add: and_then_def)
    moreover have "plain st1" "stack st1 \<subseteq> visited st1" using o1 Cons(2,3) by (auto simp: outcome_def same_table_plain)
    ultimately have "outcome (set ss) st1 r st'" by (rule Cons(1) [rotated 2])
    from outcome_Un [OF o1 [unfolded None] this] show ?thesis by simp
  qed
qed

end

section \<open>One symbol\<close>

lemma syms_upd [simp]: "syms (upd s f st) t = (if t = s then f (syms st s) else syms st t)"
  by (simp add: upd_def)

lemma upd_frame [simp]:
  "modules_sym (upd s f st) = modules_sym st" "modules_val (upd s f st) = modules_val st" "next_sym (upd s f st) = next_sym st"
  "symbol_hash (upd s f st) = symbol_hash st" "sym_env_list (upd s f st) = sym_env_list st" "change_count (upd s f st) = change_count st" "zconfnerrs (upd s f st) = zconfnerrs st"
  "in_file (upd s f st) = in_file st" "moved (upd s f st) = moved st"
  by (simp_all add: upd_def)

lemma same_table_enter: "same_table st (enter s st)"
  by (auto simp: same_table_def enter_def set_flag_def unmarked_def)

lemma same_table_leave: "same_table st (leave s st)"
proof -
  have "A - {SYMBOL_CHECK} - {SYMBOL_CHECK, SYMBOL_CHECKED} = A - {SYMBOL_CHECK, SYMBOL_CHECKED}" for A by blast
  then show ?thesis unfolding same_table_def leave_def clear_flag_def unmarked_def by simp
qed

lemma enter_sets: "stack (enter s st) = insert s (stack st)" "visited (enter s st) = insert s (visited st)" "zconfnerrs (enter s st) = zconfnerrs st"
  by (auto simp: stack_def visited_def enter_def set_flag_def has_flag_def)

lemma leave_sets: "stack (leave s st) = stack st - {s}" "visited (leave s st) = visited st" "zconfnerrs (leave s st) = zconfnerrs st"
  by (auto simp: stack_def visited_def leave_def clear_flag_def has_flag_def)

text \<open>A symbol whose dependencies are finished can be ranked above them.\<close>

lemma ranked_insert:
  assumes "ranked st" "set (deps st s) \<subseteq> finished st" "s \<notin> finished st" "finished st' = insert s (finished st)" "deps st' = deps st"
  shows "ranked st'"
proof -
  obtain f :: "symbol \<Rightarrow> nat" where f: "\<And>a b. a \<in> finished st \<Longrightarrow> b \<in> set (deps st a) \<Longrightarrow> b \<in> finished st \<and> f b < f a"
    using assms(1) by (auto simp: ranked_def)
  define g where "g = f(s := Suc (sum_list (map f (deps st s))))"
  have "b \<in> finished st' \<and> g b < g a" if "a \<in> finished st'" "b \<in> set (deps st' a)" for a b
  proof (cases "a = s")
    case True
    with that assms(2,5) have b: "b \<in> finished st" "b \<in> set (deps st s)" by auto
    then have "f b \<le> sum_list (map f (deps st s))" by (intro member_le_sum_list) auto
    with b assms(3,4) True show ?thesis by (auto simp: g_def)
  next
    case False
    with that assms(4,5) f [of a b] have "b \<in> finished st \<and> f b < f a" by auto
    with False assms(3,4) show ?thesis by (auto simp: g_def)
  qed
  then show ?thesis by (auto simp: ranked_def)
qed

context checker begin

lemma symbol_outcome:
  assumes "plain st" "stack st \<subseteq> visited st" "s \<notin> visited st"
    "sym_check_sym_deps rec s (enter s st) = Some (r, st1)"
  shows "outcome {s} st (if r = Some s then None else r)
    (if r = Some s then (leave s st1)\<lparr>zconfnerrs := zconfnerrs st1 + 1\<rparr> else leave s st1)"
proof -
  let ?e = "enter s st"
  have pe: "plain ?e" using assms(1) same_table_plain [OF same_table_enter] by simp
  have E: "edges ?e = edges st" "deps ?e = deps st" by (simp_all add: same_table_edges same_table_deps same_table_enter)
  have l: "check_list rec (deps ?e s) ?e = Some (r, st1)" using assms(4) check_sym_list [OF pe] by simp
  have "outcome (set (deps ?e s)) ?e r st1"
    by (rule list_outcome [OF pe _ l]) (use assms(2) in \<open>auto simp: enter_sets\<close>)
  note o = this [unfolded outcome_def E enter_sets]
  have same: "same_table st st1" using o same_table_trans [OF same_table_enter] by blast
  have step: "(s, t) \<in> edges st" if "t \<in> set (deps st s)" for t using that by (simp add: edges_def)
  have s: "s \<notin> stack st" using assms(2,3) by auto
  define st2 where "st2 = leave s st1"
  have t2: "same_table st st2" using same same_table_trans same_table_leave unfolding st2_def by blast
  have st2: "stack st2 = stack st" "visited st2 = visited st1" "zconfnerrs st2 = zconfnerrs st1"
    using o s by (auto simp: st2_def leave_sets)
  have res: "z \<in> insert s (stack st) \<and> (\<exists>t \<in> set (deps st s). (t, z) \<in> (edges st)\<^sup>*)" if "r = Some z" for z
    using o that by simp
  have errs: "\<exists>t \<in> set (deps st s). \<exists>x. (t, x) \<in> (edges st)\<^sup>* \<and> (x, x) \<in> (edges st)\<^sup>+" if "zconfnerrs st < zconfnerrs st1"
    using o that by simp
  have cyc: "(s, s) \<in> (edges st)\<^sup>+" if rs: "r = Some s"
  proof -
    obtain t where "t \<in> set (deps st s)" "(t, s) \<in> (edges st)\<^sup>*" using res [OF rs] by blast
    with step show ?thesis by (blast intro: rtrancl_into_trancl2)
  qed
  have deep: "\<exists>x. (s, x) \<in> (edges st)\<^sup>* \<and> (x, x) \<in> (edges st)\<^sup>+" if ze: "zconfnerrs st < zconfnerrs st1"
  proof -
    obtain t x where "t \<in> set (deps st s)" "(t, x) \<in> (edges st)\<^sup>*" "(x, x) \<in> (edges st)\<^sup>+" using errs [OF ze] by blast
    with step show ?thesis by (blast intro: converse_rtrancl_into_rtrancl)
  qed
  show ?thesis
  proof (cases "r = Some s")
    case True
    define st3 where "st3 = st2\<lparr>zconfnerrs := zconfnerrs st1 + 1\<rparr>"
    have "same_table st st3" using t2 by (simp add: same_table_def st3_def)
    moreover have "stack st3 = stack st" "visited st3 = visited st1" "zconfnerrs st3 = zconfnerrs st1 + 1"
      using st2 by (simp_all add: st3_def stack_def visited_def has_flag_def)
    moreover have "visited st \<subseteq> visited st1" "zconfnerrs st \<le> zconfnerrs st1" using o by auto
    ultimately have "outcome {s} st None st3" unfolding outcome_def using cyc [OF True] by auto
    then show ?thesis using True by (simp add: st3_def st2_def)
  next
    case False
    have "ranked st2 \<and> {s} \<subseteq> finished st2" if n: "r = None" "zconfnerrs st2 = zconfnerrs st" "ranked st"
    proof -
      have "finished ?e = finished st" using s assms(3) by (auto simp: finished_def enter_sets)
      then have "ranked ?e" using n(3) E by (simp add: ranked_def)
      with o n st2 have d: "ranked st1" "set (deps st s) \<subseteq> finished st1" by auto
      have f: "finished st2 = insert s (finished st1)" "s \<notin> finished st1" using o s by (auto simp: finished_def st2_def leave_sets)
      have "ranked st2"
        by (rule ranked_insert [OF d(1) _ f(2,1)]) (use d(2) in \<open>simp_all add: same_table_deps [OF same] same_table_deps [OF t2]\<close>)
      with f show ?thesis by simp
    qed
    moreover have "z \<in> stack st \<and> (s, z) \<in> (edges st)\<^sup>*" if z: "r = Some z" for z
    proof -
      obtain t where "t \<in> set (deps st s)" "(t, z) \<in> (edges st)\<^sup>*" "z \<in> insert s (stack st)" using res [OF z] by blast
      with step False z show ?thesis by (auto intro: converse_rtrancl_into_rtrancl)
    qed
    moreover have "visited st \<subseteq> visited st2" "zconfnerrs st \<le> zconfnerrs st2" using o st2 by auto
    ultimately have "outcome {s} st r st2" unfolding outcome_def using t2 st2(1,3) deep by auto
    then show ?thesis using False by (simp add: st2_def)
  qed
qed

end

lemma check_deps_unfold:
  assumes "plain st" "stack st \<subseteq> visited st" "s \<notin> visited st"
  shows "sym_check_deps (Suc n) s st = do {
        (r, st) \<leftarrow> map_option (\<lambda>(r, st). (r, leave s st)) (sym_check_sym_deps (sym_check_deps n) s (enter s st));
        if r = Some s then Some (None, st\<lparr>zconfnerrs := zconfnerrs st + 1\<rparr>) else Some (r, st) }"
proof -
  have "s \<notin> stack st" using assms by auto
  then show ?thesis using assms by (simp add: stack_def visited_def plain_def sym_is_choice_def sym_is_choice_value_def has_flag_def)
qed

lemma check_deps_outcome:
  "plain st \<Longrightarrow> stack st \<subseteq> visited st \<Longrightarrow> sym_check_deps n s st = Some (r, st') \<Longrightarrow> outcome {s} st r st'"
proof (induction n arbitrary: s st r st')
  case (Suc n)
  have c: "checker (sym_check_deps n)" by unfold_locales (rule Suc(1))
  show ?case
  proof (cases "s \<in> visited st")
    case True
    then show ?thesis using Suc(2-4) by (auto simp: outcome_def same_table_refl finished_def stack_def visited_def has_flag_def split: if_splits)
  next
    case False
    note u = check_deps_unfold [OF Suc(2,3) False, of n]
    obtain r1 st1 where d: "sym_check_sym_deps (sym_check_deps n) s (enter s st) = Some (r1, st1)"
      using Suc(4) unfolding u by (cases "sym_check_sym_deps (sym_check_deps n) s (enter s st)") auto
    have "zconfnerrs (leave s st1) = zconfnerrs st1" by (simp add: leave_sets)
    then show ?thesis using checker.symbol_outcome [OF c Suc(2,3) False d] Suc(4) d unfolding u by (auto split: if_splits)
  qed
qed simp

interpretation deps_check: checker "sym_check_deps n" for n
  by unfold_locales (rule check_deps_outcome)

section \<open>Termination\<close>

text \<open>With enough depth a check only fails to return because a symbol that closes a cycle has no place: the symbol is on the
  stack already, or the cycle is found on the way.\<close>

definition crash :: "ktab \<Rightarrow> symbol set \<Rightarrow> bool" where
  "crash st S \<longleftrightarrow> (\<exists>s \<in> S. \<exists>x. (s, x) \<in> (edges st)\<^sup>* \<and> \<not> has_place st x \<and> (x \<in> stack st \<or> (x, x) \<in> (edges st)\<^sup>+))"

lemma crash_mono: "crash st S \<Longrightarrow> S \<subseteq> S' \<Longrightarrow> crash st S'"
  by (auto simp: crash_def)

lemma crash_same: "same_table st st' \<Longrightarrow> stack st' = stack st \<Longrightarrow> crash st' S = crash st S"
  by (simp add: crash_def same_table_edges same_table_place)

lemma crash_enter:
  assumes "crash (enter s st) (set (deps st s))"
  shows "crash st {s}"
proof -
  have E: "edges (enter s st) = edges st" "has_place (enter s st) x = has_place st x" for x
    by (simp_all add: same_table_edges same_table_place [OF same_table_enter] same_table_enter)
  obtain t x where x: "t \<in> set (deps st s)" "(t, x) \<in> (edges st)\<^sup>*" "\<not> has_place st x" "x \<in> insert s (stack st) \<or> (x, x) \<in> (edges st)\<^sup>+"
    using assms unfolding crash_def E enter_sets by auto
  have st: "(s, t) \<in> edges st" using x(1) by (simp add: edges_def)
  then have "(s, x) \<in> (edges st)\<^sup>*" "x = s \<Longrightarrow> (x, x) \<in> (edges st)\<^sup>+" using x(2) by (auto intro: converse_rtrancl_into_rtrancl rtrancl_into_trancl2)
  then show ?thesis using x(3,4) by (auto simp: crash_def)
qed

lemma list_defined:
  assumes "\<And>s st. plain st \<Longrightarrow> stack st \<subseteq> visited st \<Longrightarrow> s \<in> U \<Longrightarrow> (\<And>a. a \<in> U \<Longrightarrow> set (deps st a) \<subseteq> U) \<Longrightarrow> card (U - visited st) < n \<Longrightarrow>
      sym_check_deps n s st = None \<Longrightarrow> crash st {s}"
    and "finite U"
  shows "plain st \<Longrightarrow> stack st \<subseteq> visited st \<Longrightarrow> set ss \<subseteq> U \<Longrightarrow> (\<And>a. a \<in> U \<Longrightarrow> set (deps st a) \<subseteq> U) \<Longrightarrow> card (U - visited st) < n \<Longrightarrow>
    check_list (sym_check_deps n) ss st = None \<Longrightarrow> crash st (set ss)"
proof (induction ss arbitrary: st)
  case (Cons s ss)
  have s: "s \<in> U" using Cons(4) by simp
  show ?case
  proof (cases "sym_check_deps n s st")
    case None
    then show ?thesis using assms(1) [OF Cons(2,3) s Cons(5,6)] crash_mono [of st "{s}"] by simp
  next
    case (Some p)
    then obtain r st1 where a: "sym_check_deps n s st = Some (r, st1)" by (cases p) auto
    note o = check_deps_outcome [OF Cons(2,3) a, unfolded outcome_def]
    have "card (U - visited st1) \<le> card (U - visited st)" using o assms(2) by (intro card_mono) auto
    moreover have "plain st1" "stack st1 \<subseteq> visited st1" "deps st1 = deps st"
      using o Cons(2,3) by (auto simp: same_table_plain same_table_deps)
    moreover have "check_list (sym_check_deps n) ss st1 = None" using Cons(7) a by (auto simp: and_then_def split: if_splits)
    ultimately have "crash st1 (set ss)" using Cons(1) [of st1] Cons(4-6) by simp
    then have "crash st (set ss)" using crash_same [of st st1 "set ss"] o by simp
    then show ?thesis by (rule crash_mono) auto
  qed
qed (simp add: nothing_def)

lemma check_deps_defined:
  assumes "finite U"
  shows "plain st \<Longrightarrow> stack st \<subseteq> visited st \<Longrightarrow> s \<in> U \<Longrightarrow> (\<And>a. a \<in> U \<Longrightarrow> set (deps st a) \<subseteq> U) \<Longrightarrow> card (U - visited st) < n \<Longrightarrow>
    sym_check_deps n s st = None \<Longrightarrow> crash st {s}"
proof (induction n arbitrary: s st)
  case (Suc n)
  show ?case
  proof (cases "s \<in> visited st")
    case True
    then show ?thesis using Suc(7) by (auto simp: visited_def stack_def crash_def split: if_splits)
  next
    case False
    let ?e = "enter s st"
    have p: "plain ?e" "deps ?e = deps st" using Suc(2) same_table_plain [OF same_table_enter] same_table_deps [OF same_table_enter] by simp_all
    have "U - visited st = insert s (U - visited ?e)" "s \<notin> U - visited ?e" using Suc(4) False by (auto simp: enter_sets)
    then have c: "card (U - visited ?e) < n" using Suc(6) assms by simp
    have k: "stack ?e \<subseteq> visited ?e" using Suc(3) by (auto simp: enter_sets)
    have d: "set (deps ?e a) \<subseteq> U" if "a \<in> U" for a using Suc(5) [OF that] p(2) by simp
    have "sym_check_sym_deps (sym_check_deps n) s ?e = None"
      using Suc(7) unfolding check_deps_unfold [OF Suc(2,3) False] by (cases "sym_check_sym_deps (sym_check_deps n) s ?e") (auto split: if_splits)
    then have "check_list (sym_check_deps n) (deps ?e s) ?e = None" unfolding check_sym_list [OF p(1)] .
    from list_defined [OF Suc(1) assms p(1) k d [OF Suc(4)] d c this] have "crash ?e (set (deps st s))" unfolding p(2) .
    then show ?thesis by (rule crash_enter)
  qed
qed simp

section \<open>All symbols\<close>

lemma check_all_list: "plain st \<Longrightarrow> stack st = {} \<Longrightarrow> check_list (sym_check_deps n) ss st = Some (r, st') \<Longrightarrow> check_all n ss st = Some st' \<and> r = None"
proof (induction ss arbitrary: st)
  case (Cons s ss)
  obtain r1 st1 where a: "sym_check_deps n s st = Some (r1, st1)" using Cons(4) by (cases "sym_check_deps n s st") (auto simp: and_then_def)
  have "stack st \<subseteq> visited st" using Cons(3) by simp
  note o = check_deps_outcome [OF Cons(2) this a, unfolded outcome_def]
  have "r1 = None" using o Cons(3) by (cases r1) auto
  moreover have "plain st1" "stack st1 = {}" using o Cons(2,3) by (auto simp: same_table_plain)
  ultimately show ?case using Cons(1) [of st1] Cons(4) a by (simp add: and_then_def)
qed (simp add: nothing_def)

lemma check_all_None: "plain st \<Longrightarrow> stack st = {} \<Longrightarrow> check_all n ss st = None \<Longrightarrow> check_list (sym_check_deps n) ss st = None"
proof (induction ss arbitrary: st)
  case (Cons s ss)
  show ?case
  proof (cases "sym_check_deps n s st")
    case None
    then show ?thesis by (simp add: and_then_def)
  next
    case (Some p)
    then obtain r1 st1 where a: "sym_check_deps n s st = Some (r1, st1)" by (cases p) auto
    have "stack st \<subseteq> visited st" using Cons(3) by simp
    note o = check_deps_outcome [OF Cons(2) this a, unfolded outcome_def]
    have "r1 = None" using o Cons(3) by (cases r1) auto
    moreover have "plain st1" "stack st1 = {}" using o Cons(2,3) by (auto simp: same_table_plain)
    ultimately show ?thesis using Cons(1) [of st1] Cons(4) a by (simp add: and_then_def)
  qed
qed simp

lemma ranked_acyclic:
  assumes "ranked st" "s \<in> finished st" "(s, x) \<in> (edges st)\<^sup>*"
  shows "(x, x) \<notin> (edges st)\<^sup>+"
proof -
  obtain f :: "symbol \<Rightarrow> nat" where f: "\<And>a b. a \<in> finished st \<Longrightarrow> b \<in> set (deps st a) \<Longrightarrow> b \<in> finished st \<and> f b < f a"
    using assms(1) by (auto simp: ranked_def)
  have x: "x \<in> finished st" using assms(3,2) by (induction) (use f in \<open>auto simp: edges_def\<close>)
  have "y \<in> finished st \<and> f y < f x" if "(x, y) \<in> (edges st)\<^sup>+" for y
    using that by induction (use x f in \<open>fastforce simp: edges_def\<close>)+
  then show ?thesis by blast
qed

lemma sym_check_deps_spec:
  assumes "plain st" "stack st = {}" "visited st = {}" "finite U" "set ss \<subseteq> U" "\<And>a. a \<in> U \<Longrightarrow> set (deps st a) \<subseteq> U" "card U < n"
  shows "(check_all n ss st \<noteq> None \<or> (\<exists>s \<in> set ss. \<exists>x. (s, x) \<in> (edges st)\<^sup>* \<and> (x, x) \<in> (edges st)\<^sup>+ \<and> \<not> has_place st x))
    \<and> (\<forall>st'. check_all n ss st = Some st' \<longrightarrow> same_table st st' \<and> stack st' = {} \<and> zconfnerrs st \<le> zconfnerrs st'
      \<and> (zconfnerrs st' = zconfnerrs st \<longleftrightarrow> (\<forall>s \<in> set ss. \<forall>x. (s, x) \<in> (edges st)\<^sup>* \<longrightarrow> (x, x) \<notin> (edges st)\<^sup>+))
      \<and> (zconfnerrs st' = zconfnerrs st \<longrightarrow> ranked st' \<and> set ss \<subseteq> finished st'))"
proof -
  have sv: "stack st \<subseteq> visited st" using assms(2) by simp
  show ?thesis
  proof (cases "check_list (sym_check_deps n) ss st")
    case None
    have "crash st (set ss)"
      by (rule list_defined [OF check_deps_defined [OF assms(4)] assms(4,1) sv assms(5,6) _ None]) (simp_all add: assms(3,7))
    moreover have "check_all n ss st \<noteq> Some st'" for st'
    proof
      assume "check_all n ss st = Some st'"
      then show False using None assms(1,2)
      proof (induction ss arbitrary: st)
        case (Cons s ss)
        then obtain r1 st1 where a: "sym_check_deps n s st = Some (r1, st1)" by (auto simp: bind_eq_Some_conv)
        have "stack st \<subseteq> visited st" using Cons(5) by simp
        note o = check_deps_outcome [OF Cons(4) this a, unfolded outcome_def]
        have "r1 = None" using o Cons(5) by (cases r1) auto
        moreover have "plain st1" "stack st1 = {}" using o Cons(4,5) by (auto simp: same_table_plain)
        ultimately show ?case using Cons(1) [of st1] Cons(2,3) a by (simp add: and_then_def)
      qed (simp add: nothing_def)
    qed
    ultimately show ?thesis using assms(2) unfolding crash_def by auto
  next
    case (Some p)
    then obtain r st' where l: "check_list (sym_check_deps n) ss st = Some (r, st')" by (cases p) auto
    have r: "check_all n ss st = Some st'" "r = None" using check_all_list [OF assms(1,2) l] by simp_all
    note o = deps_check.list_outcome [OF assms(1) sv l, unfolded outcome_def]
    have "ranked st" using assms(3) by (simp add: ranked_def finished_def)
    then have ok: "ranked st' \<and> set ss \<subseteq> finished st'" if "zconfnerrs st' = zconfnerrs st" using o r that by simp
    have e: "edges st' = edges st" using o same_table_edges by simp
    have "(x, x) \<notin> (edges st)\<^sup>+" if "zconfnerrs st' = zconfnerrs st" "s \<in> set ss" "(s, x) \<in> (edges st)\<^sup>*" for s x
      using ranked_acyclic [of st' s x] ok [OF that(1)] that(2,3) e by auto
    moreover have "zconfnerrs st' = zconfnerrs st" if "\<And>s x. s \<in> set ss \<Longrightarrow> (s, x) \<in> (edges st)\<^sup>* \<Longrightarrow> (x, x) \<notin> (edges st)\<^sup>+"
    proof (rule ccontr)
      assume "zconfnerrs st' \<noteq> zconfnerrs st"
      moreover have "zconfnerrs st \<le> zconfnerrs st'" using o by simp
      ultimately have "zconfnerrs st < zconfnerrs st'" by simp
      then have "\<exists>s \<in> set ss. \<exists>x. (s, x) \<in> (edges st)\<^sup>* \<and> (x, x) \<in> (edges st)\<^sup>+" using o by simp
      with that show False by blast
    qed
    ultimately have "zconfnerrs st' = zconfnerrs st \<longleftrightarrow> (\<forall>s \<in> set ss. \<forall>x. (s, x) \<in> (edges st)\<^sup>* \<longrightarrow> (x, x) \<notin> (edges st)\<^sup>+)" by blast
    then show ?thesis using r(1) o ok assms(2) by auto
  qed
qed

text \<open>
  Claim C9. The search for recursive dependencies, run over all symbols of a table without choices: with a depth above
  the number of symbols it ends, unless a symbol on a cycle that can be reached has no property read from a file, whose place the
  message would name through a null pointer. If it ends, it leaves no symbol marked as being on the stack and changes nothing else; it reports no
  error exactly if no dependency cycle can be reached from the symbols, and then all of them can be ranked so that
  every dependency has a smaller rank.
\<close>

theorem sym_check_deps_correct:
  assumes "plain st" "stack st = {}" "visited st = {}" "finite U" "set ss \<subseteq> U" "\<And>a. a \<in> U \<Longrightarrow> set (deps st a) \<subseteq> U" "card U < n"
  shows "(check_all n ss st \<noteq> None \<or> (\<exists>s \<in> set ss. \<exists>x. (s, x) \<in> (edges st)\<^sup>* \<and> (x, x) \<in> (edges st)\<^sup>+ \<and> \<not> has_place st x))
    \<and> (\<forall>st'. check_all n ss st = Some st' \<longrightarrow> same_table st st' \<and> stack st' = {} \<and> zconfnerrs st \<le> zconfnerrs st'
      \<and> (zconfnerrs st' = zconfnerrs st \<longleftrightarrow> (\<forall>s \<in> set ss. \<forall>x. (s, x) \<in> (edges st)\<^sup>* \<longrightarrow> (x, x) \<notin> (edges st)\<^sup>+))
      \<and> (zconfnerrs st' = zconfnerrs st \<longrightarrow> ranked st' \<and> set ss \<subseteq> finished st'))"
  by (rule sym_check_deps_spec [OF assms])

text \<open>Two tables with the symbols 0, 1 and 2: in the first, 0 depends on 1 and 1 on 2; in the second, 2 depends on 0 too.\<close>

definition demo_prop :: "nat \<Rightarrow> property" where
  "demo_prop n = \<lparr>p_type = P_PROMPT, p_text = Some ''prompt'', p_visible = Some (E_SYMBOL (Sym n)), p_expr = No_Expr, p_menu = None, p_file = False\<rparr>"

definition chain :: ktab where
  "chain = prop_alloc (demo_prop 2) (Sym 1) (prop_alloc (demo_prop 1) (Sym 0) (init_ktab\<lparr>next_sym := 3, in_file := True\<rparr>))"

definition ring :: ktab where
  "ring = prop_alloc (demo_prop 0) (Sym 2) chain"

lemma demo_table_facts:
  "plain chain" "plain ring" "stack chain = {}" "stack ring = {}" "visited chain = {}" "visited ring = {}"
  by (auto simp: plain_def stack_def visited_def has_flag_def ring_def chain_def prop_alloc_def init_ktab_def new_ksym_def const_ksym_def split: symbol.splits)

lemma demo_deps:
  "set (deps chain a) \<subseteq> {Sym 1, Sym 2}" "set (deps ring a) \<subseteq> {Sym 0, Sym 1, Sym 2}"
  by (auto simp: deps_def dep_symbols_def prop_symbols_def opt_symbols_def ring_def chain_def prop_alloc_def init_ktab_def new_ksym_def
      const_ksym_def demo_prop_def split: symbol.splits)

lemma ring_edges: "(Sym 0, Sym 1) \<in> edges ring" "(Sym 1, Sym 2) \<in> edges ring" "(Sym 2, Sym 0) \<in> edges ring"
  by (simp_all add: edges_def deps_def dep_symbols_def prop_symbols_def opt_symbols_def ring_def chain_def prop_alloc_def init_ktab_def
      new_ksym_def demo_prop_def)

lemma ring_parts:
  "s_prop (syms ring a) = (if a \<in> {Sym 0, Sym 1} then [demo_prop (case a of Sym n \<Rightarrow> Suc n)\<lparr>p_file := True\<rparr>] else if a = Sym 2 then [demo_prop 0\<lparr>p_file := True\<rparr>] else [])"
  "s_rev_expr (syms ring a) = None"
  by (auto simp: numeral_2_eq_2 ring_def chain_def prop_alloc_def init_ktab_def new_ksym_def const_ksym_def split: symbol.splits)

lemma ring_places: "(x, y) \<in> edges ring \<Longrightarrow> has_place ring x"
  by (cases "x \<in> {Sym 0, Sym 1, Sym 2}") (auto simp: edges_def deps_def dep_symbols_def has_place_def opt_symbols_def ring_parts)

theorem sym_check_deps_correct_witness:
  "\<exists>st. check_all 4 [Sym 0, Sym 1, Sym 2] ring = Some st \<and> zconfnerrs st \<noteq> zconfnerrs ring \<and> stack st = {}"
proof -
  let ?ss = "[Sym 0, Sym 1, Sym 2]"
  have "set (deps ring a) \<subseteq> {Sym 0, Sym 1, Sym 2}" for a by (rule demo_deps)
  then have c: "(check_all 4 ?ss ring \<noteq> None \<or> (\<exists>s \<in> set ?ss. \<exists>x. (s, x) \<in> (edges ring)\<^sup>* \<and> (x, x) \<in> (edges ring)\<^sup>+ \<and> \<not> has_place ring x))
    \<and> (\<forall>st'. check_all 4 ?ss ring = Some st' \<longrightarrow> same_table ring st' \<and> stack st' = {} \<and> zconfnerrs ring \<le> zconfnerrs st'
      \<and> (zconfnerrs st' = zconfnerrs ring \<longleftrightarrow> (\<forall>s \<in> set ?ss. \<forall>x. (s, x) \<in> (edges ring)\<^sup>* \<longrightarrow> (x, x) \<notin> (edges ring)\<^sup>+))
      \<and> (zconfnerrs st' = zconfnerrs ring \<longrightarrow> ranked st' \<and> set ?ss \<subseteq> finished st'))"
    by (intro sym_check_deps_correct [where U = "{Sym 0, Sym 1, Sym 2}"]) (use demo_table_facts in auto)
  have "has_place ring x" if "(x, x) \<in> (edges ring)\<^sup>+" for x using that by (rule converse_tranclE) (auto intro: ring_places)
  with c obtain st where st: "check_all 4 ?ss ring = Some st" by blast
  moreover have "(Sym 0, Sym 0) \<in> (edges ring)\<^sup>+" using ring_edges by (meson trancl.simps)
  ultimately show ?thesis using c by (intro exI [of _ st]) auto
qed

text \<open>Symbol 1 depends on symbol 0 and selects it, and symbol 0 has no entry of its own: the program crashes instead of reporting
  the cycle.\<close>

definition nameless_ring :: ktab where
  "nameless_ring = upd (Sym 0) (\<lambda>k. k\<lparr>s_rev_expr := Some (E_SYMBOL (Sym 1))\<rparr>) (prop_alloc (demo_prop 0) (Sym 1) (init_ktab\<lparr>next_sym := 2, in_file := True\<rparr>))"

lemma nameless_ring_crashes: "check_all 4 [Sym 0, Sym 1] nameless_ring = None"
  by code_simp

end
