(* ===== verification/KCalcProps.thy ===== *)
theory KCalcProps
  imports KCalc KCheckProps KExprProps
begin

text \<open>
  Correctness of the evaluation of symbols, for tables without choices whose dependencies can be ranked: with a depth
  above the rank of the symbol \<^verbatim>\<open>sym_calc_value\<close> returns, and the visibility, reverse dependency and value it leaves in the symbol are
  those that the equations below give for the values of its dependencies; the result does not depend on the order in
  which symbols are evaluated.
\<close>

section \<open>The equations\<close>

text \<open>Everything as a function of the symbols' static data \<open>T\<close>, the values \<open>v\<close> and the value \<open>mv\<close> of the modules symbol.\<close>

fun prompts_of :: "symtab \<Rightarrow> (symbol \<Rightarrow> symbol_value) \<Rightarrow> property list \<Rightarrow> tristate \<Rightarrow> tristate" where
  "prompts_of T v [] t = t"
| "prompts_of T v (p # ps) t = prompts_of T v ps (if p_text p \<noteq> None then EXPR_OR t (expr_calc_value T v (p_visible p)) else t)"

fun first_of :: "symtab \<Rightarrow> (symbol \<Rightarrow> symbol_value) \<Rightarrow> prop_type \<Rightarrow> property list \<Rightarrow> (property \<times> tristate) option" where
  "first_of T v ty [] = None"
| "first_of T v ty (p # ps) = (if p_type p = ty \<and> expr_calc_value T v (p_visible p) \<noteq> No
     then Some (p, expr_calc_value T v (p_visible p)) else first_of T v ty ps)"

definition type_in :: "tristate \<Rightarrow> ksym \<Rightarrow> symbol_type" where
  "type_in mv k = (if s_type k = S_TRISTATE \<and> mv = No then S_BOOLEAN else s_type k)"

definition round_up :: "bool \<Rightarrow> tristate \<Rightarrow> tristate" where
  "round_up b t = (if t = Mod \<and> b then Yes else t)"

definition visible_of :: "symtab \<Rightarrow> (symbol \<Rightarrow> symbol_value) \<Rightarrow> tristate \<Rightarrow> ksym \<Rightarrow> tristate" where
  "visible_of T v mv k = round_up (s_type k \<noteq> S_TRISTATE \<or> mv = No) (prompts_of T v (s_prop k) No)"

definition rev_of :: "symtab \<Rightarrow> (symbol \<Rightarrow> symbol_value) \<Rightarrow> tristate \<Rightarrow> ksym \<Rightarrow> tristate" where
  "rev_of T v mv k = round_up (type_in mv k = S_BOOLEAN) (case s_rev_expr k of None \<Rightarrow> No | Some e \<Rightarrow> calc_value T v e)"

definition default_of :: "symtab \<Rightarrow> (symbol \<Rightarrow> symbol_value) \<Rightarrow> ksym \<Rightarrow> tristate" where
  "default_of T v k = (case first_of T v P_DEFAULT (s_prop k) of None \<Rightarrow> No
     | Some (p, vis) \<Rightarrow> EXPR_AND (expr_calc_value T v (dep_of (p_expr p))) vis)"

definition tristate_of :: "symtab \<Rightarrow> (symbol \<Rightarrow> symbol_value) \<Rightarrow> tristate \<Rightarrow> ksym \<Rightarrow> tristate" where
  "tristate_of T v mv k = (let vis = visible_of T v mv k in
     round_up (type_in mv k = S_BOOLEAN)
       (EXPR_OR (if vis \<noteq> No \<and> SYMBOL_DEF_USER \<in> s_flags k then EXPR_AND (u_tri (s_user k)) vis else default_of T v k) (rev_of T v mv k)))"

definition string_of :: "symtab \<Rightarrow> (symbol \<Rightarrow> symbol_value) \<Rightarrow> tristate \<Rightarrow> ksym \<Rightarrow> string" where
  "string_of T v mv k = (if visible_of T v mv k \<noteq> No \<and> SYMBOL_DEF_USER \<in> s_flags k
       then (case u_val (s_user k) of None \<Rightarrow> [] | Some x \<Rightarrow> x)
     else (case first_of T v P_DEFAULT (s_prop k) of None \<Rightarrow> []
       | Some (p, _) \<Rightarrow> (case prop_get_symbol p of None \<Rightarrow> [] | Some d \<Rightarrow> val (v d))))"

definition bound_of :: "symtab \<Rightarrow> (symbol \<Rightarrow> symbol_value) \<Rightarrow> int \<Rightarrow> symbol \<Rightarrow> int" where
  "bound_of T v base s = to_int (c_strtol (range_base (sym_type T s) base) (val (v s)))"

definition clamp_of :: "symtab \<Rightarrow> (symbol \<Rightarrow> symbol_value) \<Rightarrow> ksym \<Rightarrow> string \<Rightarrow> string" where
  "clamp_of T v k x = (if s_type k \<noteq> S_INT \<and> s_type k \<noteq> S_HEX then x
     else (case first_of T v P_RANGE (s_prop k) of None \<Rightarrow> x
       | Some (p, _) \<Rightarrow> (case range_ends p of None \<Rightarrow> x
         | Some (l, r) \<Rightarrow> (let base = range_base (s_type k) 0; cur = to_int (c_strtol base x) in
             if cur < bound_of T v base l then show_bound (s_type k) (bound_of T v base l)
             else if cur > bound_of T v base r then show_bound (s_type k) (bound_of T v base r) else x))))"

text \<open>Whether the symbol is to be saved.\<close>

definition write_of :: "symtab \<Rightarrow> (symbol \<Rightarrow> symbol_value) \<Rightarrow> tristate \<Rightarrow> ksym \<Rightarrow> bool" where
  "write_of T v mv k \<longleftrightarrow> SYMBOL_AUTO \<notin> s_flags k \<and> (visible_of T v mv k \<noteq> No \<or> (is_logical (s_type k) \<and> rev_of T v mv k \<noteq> No)
     \<or> (case first_of T v P_DEFAULT (s_prop k) of None \<Rightarrow> False | Some (p, _) \<Rightarrow> is_logical (s_type k) \<or> prop_get_symbol p \<noteq> None))"

definition value_of :: "symtab \<Rightarrow> (symbol \<Rightarrow> symbol_value) \<Rightarrow> tristate \<Rightarrow> ksym \<Rightarrow> symbol_value" where
  "value_of T v mv k = (if is_logical (s_type k) then no_value\<lparr>tri := tristate_of T v mv k\<rparr>
     else if is_textual (s_type k) then empty_value\<lparr>val := clamp_of T v k (string_of T v mv k)\<rparr>
     else \<lparr>val = (case s_name k of None \<Rightarrow> [] | Some n \<Rightarrow> n), tri = No\<rparr>)"

section \<open>What is needed, and what stays\<close>

text \<open>The symbols an evaluation reads: those the search for recursive dependencies follows, and the ends of ranges.\<close>

definition range_symbols :: "property \<Rightarrow> symbol list" where
  "range_symbols p = (case p_expr p of Ends l r \<Rightarrow> if p_type p = P_RANGE then [l, r] else [] | _ \<Rightarrow> [])"

definition read_symbols :: "ksym \<Rightarrow> symbol list" where
  "read_symbols k = dep_symbols k @ concat (map range_symbols (s_prop k))"

text \<open>A property with a text is not a choice or a selection, and a range has two ends.\<close>

definition wf_prop :: "property \<Rightarrow> bool" where
  "wf_prop p \<longleftrightarrow> (p_text p \<noteq> None \<longrightarrow> p_type p \<noteq> P_CHOICE \<and> p_type p \<noteq> P_SELECT) \<and> (p_type p = P_RANGE \<longrightarrow> range_ends p \<noteq> None)"

definition static :: "ksym \<Rightarrow> ksym" where
  "static k = k\<lparr>s_curr := empty_value, s_chosen := None, s_visible := No, s_rev_tri := No, s_flags := s_flags k - {SYMBOL_VALID, SYMBOL_WRITE, SYMBOL_CHANGED}\<rparr>"

lemma static_fields:
  assumes "static k = static k'"
  shows "s_name k = s_name k'" "s_type k = s_type k'" "s_user k = s_user k'" "s_prop k = s_prop k'" "s_rev_expr k = s_rev_expr k'"
    "f \<noteq> SYMBOL_VALID \<Longrightarrow> f \<noteq> SYMBOL_WRITE \<Longrightarrow> f \<noteq> SYMBOL_CHANGED \<Longrightarrow> f \<in> s_flags k \<longleftrightarrow> f \<in> s_flags k'"
proof -
  have "s_name (static k) = s_name (static k')" "s_type (static k) = s_type (static k')" "s_user (static k) = s_user (static k')"
    "s_prop (static k) = s_prop (static k')" "s_rev_expr (static k) = s_rev_expr (static k')" "s_flags (static k) = s_flags (static k')"
    using assms by simp_all
  then show "s_name k = s_name k'" "s_type k = s_type k'" "s_user k = s_user k'" "s_prop k = s_prop k'" "s_rev_expr k = s_rev_expr k'"
    "f \<noteq> SYMBOL_VALID \<Longrightarrow> f \<noteq> SYMBOL_WRITE \<Longrightarrow> f \<noteq> SYMBOL_CHANGED \<Longrightarrow> f \<in> s_flags k \<longleftrightarrow> f \<in> s_flags k'"
    by (auto simp: static_def)
qed

definition same_static :: "ktab \<Rightarrow> ktab \<Rightarrow> bool" where
  "same_static st st' \<longleftrightarrow> (\<forall>s. static (syms st' s) = static (syms st s)) \<and> modules_sym st' = modules_sym st \<and> modules_val st' = modules_val st
     \<and> next_sym st' = next_sym st"

definition valid :: "ktab \<Rightarrow> symbol \<Rightarrow> bool" where
  "valid st s \<longleftrightarrow> has_flag st s SYMBOL_VALID"

text \<open>A symbol with a type is marked for saving exactly if it is in \<open>W\<close>.\<close>

definition marked :: "(symbol \<Rightarrow> bool) \<Rightarrow> symbol \<Rightarrow> ksym \<Rightarrow> bool" where
  "marked W s k \<longleftrightarrow> (is_logical (s_type k) \<or> is_textual (s_type k) \<longrightarrow> (SYMBOL_WRITE \<in> s_flags k \<longleftrightarrow> W s))"

text \<open>What was evaluated before is untouched; what is new is marked.\<close>

definition keeps :: "(symbol \<Rightarrow> bool) \<Rightarrow> ktab \<Rightarrow> ktab \<Rightarrow> bool" where
  "keeps W st st' \<longleftrightarrow> (\<forall>s. valid st s \<longrightarrow> syms st' s = syms st s) \<and> (\<forall>s. valid st' s \<and> \<not> valid st s \<longrightarrow> marked W s (syms st' s))"

section \<open>The reference semantics\<close>

text \<open>The value of a symbol by iterating the equations; symbols that have been evaluated already, like the constants, are
  inputs. \<open>meaning\<close> iterates as often as the rank of the symbol asks for.\<close>

primrec approx :: "nat \<Rightarrow> ktab \<Rightarrow> symbol \<Rightarrow> symbol_value" where
  "approx 0 st s = s_curr (syms st s)"
| "approx (Suc n) st s = (if valid st s then s_curr (syms st s)
     else value_of (tab_of st) (approx n st) (modules_val st) (syms st s))"

definition meaning :: "ktab \<Rightarrow> (symbol \<Rightarrow> nat) \<Rightarrow> symbol \<Rightarrow> symbol_value" where
  "meaning st f s = approx (Suc (f s)) st s"

definition wanted :: "ktab \<Rightarrow> (symbol \<Rightarrow> nat) \<Rightarrow> symbol \<Rightarrow> bool" where
  "wanted st f s = write_of (tab_of st) (meaning st f) (modules_val st) (syms st s)"

text \<open>A table without choices whose symbols \<open>U\<close> read symbols of \<open>U\<close> of smaller rank only.\<close>

definition rankable :: "ktab \<Rightarrow> symbol set \<Rightarrow> (symbol \<Rightarrow> nat) \<Rightarrow> bool" where
  "rankable st U f \<longleftrightarrow> plain st \<and> (\<forall>a \<in> U. \<forall>b \<in> set (read_symbols (syms st a)). b \<in> U \<and> f b < f a)
     \<and> (\<forall>a \<in> U. \<forall>p \<in> set (s_prop (syms st a)). wf_prop p)"

section \<open>Agreement\<close>

lemma tab_of_static: "same_static st st' \<Longrightarrow> tab_of st' = tab_of st"
proof -
  assume a: "same_static st st'"
  then have "static (syms st' s) = static (syms st s)" for s by (simp add: same_static_def)
  from static_fields [OF this] show ?thesis by (auto simp: tab_of_def)
qed

lemma contains_symbols: "expr_contains_symbol e s \<longleftrightarrow> s \<in> set (expr_symbols e)"
  by (induction e) auto

lemma calc_agree: "(\<And>s. s \<in> set (expr_symbols e) \<Longrightarrow> v s = w s) \<Longrightarrow> calc_value T v e = calc_value T w e"
  by (rule contains_rule) (simp add: contains_symbols)

lemma calc_opt_agree: "(\<And>s. s \<in> set (opt_symbols e) \<Longrightarrow> v s = w s) \<Longrightarrow> expr_calc_value T v e = expr_calc_value T w e"
  by (auto simp: expr_calc_value_def opt_symbols_def split: option.splits intro: calc_agree)

lemma prompts_agree:
  assumes "\<And>p s. p \<in> set ps \<Longrightarrow> p_text p \<noteq> None \<Longrightarrow> s \<in> set (opt_symbols (p_visible p)) \<Longrightarrow> v s = w s"
  shows "prompts_of T v ps t = prompts_of T w ps t"
  using assms
proof (induction ps arbitrary: t)
  case (Cons p ps)
  have "expr_calc_value T v (p_visible p) = expr_calc_value T w (p_visible p)" if "p_text p \<noteq> None"
    by (rule calc_opt_agree) (use Cons(2) that in auto)
  moreover have "prompts_of T v ps u = prompts_of T w ps u" for u
    by (rule Cons(1)) (use Cons(2) in auto)
  ultimately show ?case by auto
qed simp

lemma first_agree:
  assumes "\<And>p s. p \<in> set ps \<Longrightarrow> p_type p = ty \<Longrightarrow> s \<in> set (opt_symbols (p_visible p)) \<Longrightarrow> v s = w s"
  shows "first_of T v ty ps = first_of T w ty ps"
  using assms
proof (induction ps)
  case (Cons p ps)
  have "expr_calc_value T v (p_visible p) = expr_calc_value T w (p_visible p)" if "p_type p = ty"
    by (rule calc_opt_agree) (use Cons(2) that in auto)
  moreover have "first_of T v ty ps = first_of T w ty ps"
    by (rule Cons(1)) (use Cons(2) in auto)
  ultimately show ?case by auto
qed simp

lemma first_of_mem: "first_of T v ty ps = Some (p, t) \<Longrightarrow> p \<in> set ps \<and> p_type p = ty"
  by (induction ps) (auto split: if_splits)

text \<open>Which symbols are read by which part.\<close>

lemma read_prop:
  assumes "p \<in> set (s_prop k)"
  shows "set (prop_symbols p) \<subseteq> set (read_symbols k)" "set (range_symbols p) \<subseteq> set (read_symbols k)"
  using assms by (auto simp: read_symbols_def dep_symbols_def)

lemma read_rev: "set (opt_symbols (s_rev_expr k)) \<subseteq> set (read_symbols k)"
  by (auto simp: read_symbols_def dep_symbols_def)

lemma read_visible:
  "p \<in> set (s_prop k) \<Longrightarrow> p_type p \<noteq> P_CHOICE \<Longrightarrow> p_type p \<noteq> P_SELECT \<Longrightarrow> s \<in> set (opt_symbols (p_visible p)) \<Longrightarrow> s \<in> set (read_symbols k)"
  using read_prop(1) [of p k] by (auto simp: prop_symbols_def)

lemma read_default:
  "p \<in> set (s_prop k) \<Longrightarrow> p_type p = P_DEFAULT \<Longrightarrow> s \<in> set (opt_symbols (dep_of (p_expr p))) \<Longrightarrow> s \<in> set (read_symbols k)"
  using read_prop(1) [of p k] by (auto simp: prop_symbols_def)

lemma read_range:
  assumes "p \<in> set (s_prop k)" "p_type p = P_RANGE" "range_ends p = Some (l, r)"
  shows "l \<in> set (read_symbols k)" "r \<in> set (read_symbols k)"
  using assms read_prop(2) [of p k] by (auto simp: range_symbols_def range_ends_def split: prop_expr.splits)

lemma prop_symbol_default: "prop_get_symbol p = Some d \<Longrightarrow> d \<in> set (opt_symbols (dep_of (p_expr p)))"
  by (auto simp: prop_get_symbol_def opt_symbols_def dep_of_def split: prop_expr.splits expr.splits)

text \<open>The equations depend on what is read only.\<close>

lemma value_of_agree:
  assumes "\<And>s. s \<in> set (read_symbols k) \<Longrightarrow> v s = w s" "\<And>p. p \<in> set (s_prop k) \<Longrightarrow> wf_prop p"
  shows "visible_of T v mv k = visible_of T w mv k" "rev_of T v mv k = rev_of T w mv k" "value_of T v mv k = value_of T w mv k"
proof -
  have first: "first_of T v ty (s_prop k) = first_of T w ty (s_prop k)" if "ty \<noteq> P_CHOICE" "ty \<noteq> P_SELECT" for ty
    by (rule first_agree) (use assms(1) that in \<open>auto intro: read_visible\<close>)
  show vis: "visible_of T v mv k = visible_of T w mv k"
    unfolding visible_of_def using prompts_agree [of "s_prop k" v w T No] assms read_visible
    by (metis wf_prop_def)
  have "calc_value T v e = calc_value T w e" if e: "s_rev_expr k = Some e" for e
    by (rule calc_agree) (use assms(1) read_rev [of k] e in \<open>auto simp: opt_symbols_def\<close>)
  then have "(case s_rev_expr k of None \<Rightarrow> No | Some e \<Rightarrow> calc_value T v e) = (case s_rev_expr k of None \<Rightarrow> No | Some e \<Rightarrow> calc_value T w e)"
    by (simp split: option.split)
  then show rev: "rev_of T v mv k = rev_of T w mv k" by (simp add: rev_of_def)
  have def: "expr_calc_value T v (dep_of (p_expr p)) = expr_calc_value T w (dep_of (p_expr p))"
    if "first_of T w P_DEFAULT (s_prop k) = Some (p, t)" for p t
    by (rule calc_opt_agree) (use first_of_mem [OF that] assms(1) in \<open>auto intro: read_default\<close>)
  have d: "default_of T v k = default_of T w k"
    using first [of P_DEFAULT] def by (auto simp: default_of_def split: option.splits)
  have ds: "val (v d) = val (w d)" if "first_of T w P_DEFAULT (s_prop k) = Some (p, t)" "prop_get_symbol p = Some d" for p t d
    using assms(1) [OF read_default [OF _ _ prop_symbol_default [OF that(2)]]] first_of_mem [OF that(1)] by simp
  have str: "string_of T v mv k = string_of T w mv k"
    using first [of P_DEFAULT] ds by (auto simp: string_of_def vis split: option.splits)
  have b: "bound_of T v base l = bound_of T w base l" "bound_of T v base r = bound_of T w base r"
    if "first_of T w P_RANGE (s_prop k) = Some (p, t)" "range_ends p = Some (l, r)" for p t l r base
    using first_of_mem [OF that(1)] assms(1) that(2) by (auto simp: bound_of_def dest: read_range)
  have "clamp_of T v k x = clamp_of T w k x" for x
  proof (cases "first_of T w P_RANGE (s_prop k)")
    case None
    then show ?thesis using first [of P_RANGE] by (simp add: clamp_of_def)
  next
    case (Some pt)
    obtain p t where p: "pt = (p, t)" by (cases pt)
    show ?thesis
    proof (cases "range_ends p")
      case None
      then show ?thesis using first [of P_RANGE] Some p by (simp add: clamp_of_def)
    next
      case (Some lr)
      obtain l r where lr: "lr = (l, r)" by (cases lr)
      note e = b [OF \<open>first_of T w P_RANGE (s_prop k) = Some pt\<close> [unfolded p] Some [unfolded lr]]
      show ?thesis using first [of P_RANGE] \<open>first_of T w P_RANGE (s_prop k) = Some pt\<close>
        by (simp add: clamp_of_def p Some lr e Let_def)
    qed
  qed
  then show "value_of T v mv k = value_of T w mv k"
    by (simp add: value_of_def tristate_of_def Let_def vis rev d str cong: if_cong)
qed

lemma write_of_agree:
  assumes "\<And>s. s \<in> set (read_symbols k) \<Longrightarrow> v s = w s" "\<And>p. p \<in> set (s_prop k) \<Longrightarrow> wf_prop p"
  shows "write_of T v mv k = write_of T w mv k"
proof -
  have "first_of T v P_DEFAULT (s_prop k) = first_of T w P_DEFAULT (s_prop k)"
    by (rule first_agree) (use assms(1) read_visible in auto)
  then show ?thesis using value_of_agree(1,2) [OF assms] by (simp add: write_of_def)
qed

lemma approx_stable: "rankable st U f \<Longrightarrow> s \<in> U \<Longrightarrow> f s < n \<Longrightarrow> f s < m \<Longrightarrow> approx n st s = approx m st s"
proof (induction n arbitrary: m s)
  case (Suc n)
  then obtain m' where m: "m = Suc m'" by (cases m) auto
  have "approx n st b = approx m' st b" if "b \<in> set (read_symbols (syms st s))" for b
  proof -
    have "b \<in> U" "f b < f s" using Suc(2,3) that by (auto simp: rankable_def)
    then show ?thesis using Suc(1) [OF Suc(2), of b m'] Suc(4,5) m by simp
  qed
  moreover have "wf_prop p" if "p \<in> set (s_prop (syms st s))" for p using Suc(2,3) that by (auto simp: rankable_def)
  ultimately have "value_of T (approx n st) mv (syms st s) = value_of T (approx m' st) mv (syms st s)" for T mv
    by (rule value_of_agree(3))
  then show ?case by (simp add: m)
qed simp

text \<open>The meaning solves the equations.\<close>

theorem meaning_solves:
  assumes "rankable st U f" "s \<in> U" "\<not> valid st s"
  shows "meaning st f s = value_of (tab_of st) (meaning st f) (modules_val st) (syms st s)"
proof -
  have "approx (f s) st b = meaning st f b" if "b \<in> set (read_symbols (syms st s))" for b
  proof -
    have "b \<in> U" "f b < f s" using assms that by (auto simp: rankable_def)
    then show ?thesis using approx_stable [OF assms(1), of b "f s" "Suc (f b)"] by (simp add: meaning_def)
  qed
  moreover have "wf_prop p" if "p \<in> set (s_prop (syms st s))" for p using assms that by (auto simp: rankable_def)
  ultimately have "value_of T (approx (f s) st) mv (syms st s) = value_of T (meaning st f) mv (syms st s)" for T mv
    by (rule value_of_agree(3))
  then show ?thesis using assms(3) by (simp add: meaning_def)
qed

lemma meaning_input: "valid st s \<Longrightarrow> meaning st f s = s_curr (syms st s)"
  by (simp add: meaning_def)

end
