(* ===== verification/KCalcEval.thy ===== *)
theory KCalcEval
  imports KCalcProps
begin

text \<open>
  \<^verbatim>\<open>sym_calc_value\<close> computes the meaning of a symbol: the recursive calls are an interface (\<open>evaluator\<close>), whose law the
  functions on expressions, properties and ranges rest on; induction on the depth gives the law for \<^verbatim>\<open>sym_calc_value\<close> itself.
\<close>

section \<open>States during an evaluation\<close>

text \<open>What the evaluation has left in a symbol.\<close>

definition settled :: "ktab \<Rightarrow> (symbol \<Rightarrow> nat) \<Rightarrow> symbol \<Rightarrow> ksym \<Rightarrow> bool" where
  "settled st0 f s k \<longleftrightarrow> s_curr k = meaning st0 f s
     \<and> (is_logical (s_type k) \<or> is_textual (s_type k) \<longrightarrow>
          s_visible k = visible_of (tab_of st0) (meaning st0 f) (modules_val st0) (syms st0 s)
          \<and> s_rev_tri k = rev_of (tab_of st0) (meaning st0 f) (modules_val st0) (syms st0 s))"

text \<open>The modules symbol, which every tristate symbol needs, is evaluated before the others (\<^verbatim>\<open>sym_clear_all_valid\<close> does so).\<close>

definition modules_done :: "ktab \<Rightarrow> bool" where
  "modules_done st \<longleftrightarrow> (\<forall>m. modules_sym st = Some m \<longrightarrow> valid st m)"

text \<open>A state reached from \<open>st0\<close> while the symbols \<open>P\<close> are being evaluated.\<close>

definition ready :: "ktab \<Rightarrow> symbol set \<Rightarrow> (symbol \<Rightarrow> nat) \<Rightarrow> symbol set \<Rightarrow> ktab \<Rightarrow> bool" where
  "ready st0 U f P st \<longleftrightarrow> rankable st0 U f \<and> same_static st0 st \<and> modules_done st
     \<and> (\<forall>t. valid st t \<longrightarrow> valid st0 t \<or> t \<in> U) \<and> (\<forall>t. valid st0 t \<longrightarrow> syms st t = syms st0 t)
     \<and> (\<forall>t. valid st t \<and> \<not> valid st0 t \<and> t \<notin> P \<longrightarrow> settled st0 f t (syms st t))
     \<and> (\<forall>p \<in> P. p \<in> U \<and> valid st p \<and> \<not> valid st0 p)"

text \<open>The symbols that may be evaluated next, with depth \<open>n\<close>.\<close>

definition below :: "symbol set \<Rightarrow> (symbol \<Rightarrow> nat) \<Rightarrow> nat \<Rightarrow> symbol set \<Rightarrow> symbol \<Rightarrow> bool" where
  "below U f n P s \<longleftrightarrow> s \<in> U \<and> f s < n \<and> (\<forall>p \<in> P. f s < f p)"

definition along :: "(symbol \<Rightarrow> bool) \<Rightarrow> symbol \<Rightarrow> ktab \<Rightarrow> ktab \<Rightarrow> bool" where
  "along W s st st' \<longleftrightarrow> (\<forall>t. valid st t \<and> t \<noteq> s \<longrightarrow> syms st' t = syms st t)
     \<and> (\<forall>t. valid st' t \<and> \<not> valid st t \<and> t \<noteq> s \<longrightarrow> marked W t (syms st' t))"

lemma keeps_refl: "keeps W st st"
  by (simp add: keeps_def)

lemma keeps_valid: "keeps W st st' \<Longrightarrow> valid st s \<Longrightarrow> valid st' s"
  by (simp add: keeps_def valid_def has_flag_def)

lemma keeps_trans:
  assumes "keeps W a b" "keeps W b c"
  shows "keeps W a c"
proof -
  have "marked W t (syms c t)" if "valid c t" "\<not> valid a t" for t
    using assms that by (cases "valid b t") (simp_all add: keeps_def)
  moreover have "syms c t = syms a t" if "valid a t" for t using assms keeps_valid [OF assms(1) that] that by (simp add: keeps_def)
  ultimately show ?thesis by (simp add: keeps_def)
qed

lemma keeps_along: "keeps W a b \<Longrightarrow> along W s a b"
  by (simp add: keeps_def along_def)

lemma along_refl: "along W s a a"
  by (auto simp: along_def)

lemma along_trans:
  assumes "along W s a b" "along W s b c"
  shows "along W s a c"
proof -
  have "syms c t = syms a t" if "valid a t" "t \<noteq> s" for t
  proof -
    have "syms b t = syms a t" using assms(1) that by (simp add: along_def)
    moreover then have "valid b t" using that by (simp add: valid_def has_flag_def)
    ultimately show ?thesis using assms(2) that by (simp add: along_def)
  qed
  moreover have "marked W t (syms c t)" if "valid c t" "\<not> valid a t" "t \<noteq> s" for t
    using assms that by (cases "valid b t") (simp_all add: along_def)
  ultimately show ?thesis by (simp add: along_def)
qed

lemma along_upd: "along W s st (upd s g st)"
  by (simp add: along_def valid_def has_flag_def)

text \<open>The symbol being evaluated may be changed where it is not static.\<close>

definition loose :: "(ksym \<Rightarrow> ksym) \<Rightarrow> bool" where
  "loose g \<longleftrightarrow> (\<forall>k. static (g k) = static k \<and> (SYMBOL_VALID \<in> s_flags (g k) \<longleftrightarrow> SYMBOL_VALID \<in> s_flags k))"

lemma ready_upd:
  assumes "ready st0 U f P st" "s \<in> P" "loose g"
  shows "ready st0 U f P (upd s g st)"
proof -
  have v: "valid (upd s g st) t \<longleftrightarrow> valid st t" for t using assms(3) by (simp add: valid_def has_flag_def loose_def)
  have s: "\<not> valid st0 s" using assms(1,2) by (simp add: ready_def)
  have "same_static st0 (upd s g st)" using assms(1,3) by (simp add: ready_def same_static_def loose_def)
  moreover have "syms (upd s g st) t = syms st0 t" if "valid st0 t" for t using assms(1) s that by (auto simp: ready_def)
  moreover have "settled st0 f t (syms (upd s g st) t)" if "valid (upd s g st) t" "\<not> valid st0 t" "t \<notin> P" for t
    using assms(1,2) that v by (auto simp: ready_def)
  moreover have "modules_done (upd s g st)" using assms(1) v by (simp add: ready_def modules_done_def)
  ultimately show ?thesis using assms(1) v by (simp add: ready_def)
qed

lemma loose_updates:
  "loose (\<lambda>k. k\<lparr>s_visible := t\<rparr>)" "loose (\<lambda>k. k\<lparr>s_rev_tri := t\<rparr>)" "loose (set_curr v)" "loose (set_val x)"
  by (simp_all add: loose_def static_def set_curr_def set_val_def)

lemma loose_flags:
  assumes "x = SYMBOL_WRITE \<or> x = SYMBOL_CHANGED"
  shows "loose (\<lambda>k. k\<lparr>s_flags := insert x (s_flags k)\<rparr>)" "loose (\<lambda>k. k\<lparr>s_flags := s_flags k - {x}\<rparr>)"
proof -
  have "insert x A - {SYMBOL_VALID, SYMBOL_WRITE, SYMBOL_CHANGED} = A - {SYMBOL_VALID, SYMBOL_WRITE, SYMBOL_CHANGED}"
    "A - {x} - {SYMBOL_VALID, SYMBOL_WRITE, SYMBOL_CHANGED} = A - {SYMBOL_VALID, SYMBOL_WRITE, SYMBOL_CHANGED}" for A
    using assms by auto
  then show "loose (\<lambda>k. k\<lparr>s_flags := insert x (s_flags k)\<rparr>)" "loose (\<lambda>k. k\<lparr>s_flags := s_flags k - {x}\<rparr>)"
    using assms by (auto simp: loose_def static_def)
qed

lemmas ready_flags =
  ready_upd [OF _ _ loose_flags(1) [OF disjI1 [OF refl]]] ready_upd [OF _ _ loose_flags(2) [OF disjI1 [OF refl]]]
  ready_upd [OF _ _ loose_flags(1) [OF disjI2 [OF refl]]]

lemma ready_value:
  assumes "ready st0 U f P st" "valid st s" "s \<notin> P"
  shows "s_curr (syms st s) = meaning st0 f s"
  using assms by (cases "valid st0 s") (auto simp: ready_def settled_def meaning_input)

lemma ready_fields:
  assumes "ready st0 U f P st"
  shows "tab_of st = tab_of st0" "modules_val st = modules_val st0" "s_type (syms st s) = s_type (syms st0 s)"
    "s_user (syms st s) = s_user (syms st0 s)" "s_prop (syms st s) = s_prop (syms st0 s)"
    "s_rev_expr (syms st s) = s_rev_expr (syms st0 s)" "s_name (syms st s) = s_name (syms st0 s)"
    "sym_has_value st s \<longleftrightarrow> SYMBOL_DEF_USER \<in> s_flags (syms st0 s)"
    "\<not> sym_is_choice st s" "\<not> sym_is_choice_value st s"
proof -
  have t: "same_static st0 st" using assms by (simp add: ready_def)
  then have k: "static (syms st s) = static (syms st0 s)" by (simp add: same_static_def)
  note e = static_fields [OF k]
  show "tab_of st = tab_of st0" by (rule tab_of_static [OF t])
  show "modules_val st = modules_val st0" using t by (simp add: same_static_def)
  show "s_type (syms st s) = s_type (syms st0 s)" "s_user (syms st s) = s_user (syms st0 s)" "s_prop (syms st s) = s_prop (syms st0 s)"
    "s_rev_expr (syms st s) = s_rev_expr (syms st0 s)" "s_name (syms st s) = s_name (syms st0 s)" using e by simp_all
  show "sym_has_value st s \<longleftrightarrow> SYMBOL_DEF_USER \<in> s_flags (syms st0 s)" using e by (simp add: sym_has_value_def has_flag_def)
  show "\<not> sym_is_choice st s" "\<not> sym_is_choice_value st s"
    using assms e by (simp_all add: sym_is_choice_def sym_is_choice_value_def has_flag_def ready_def rankable_def plain_def)
qed

section \<open>Reading expressions\<close>

definition yields :: "ktab \<Rightarrow> symbol set \<Rightarrow> (symbol \<Rightarrow> nat) \<Rightarrow> symbol set \<Rightarrow> ktab \<Rightarrow> 'a \<Rightarrow> ('a \<times> ktab) option \<Rightarrow> bool" where
  "yields st0 U f P st x m \<longleftrightarrow> (\<exists>st'. m = Some (x, st') \<and> ready st0 U f P st' \<and> keeps (wanted st0 f) st st')"

lemma yields_Some: "ready st0 U f P st' \<Longrightarrow> keeps (wanted st0 f) st st' \<Longrightarrow> yields st0 U f P st x (Some (x, st'))"
  by (simp add: yields_def)

lemma yields_bind:
  assumes "yields st0 U f P st x m" "\<And>st'. ready st0 U f P st' \<Longrightarrow> keeps (wanted st0 f) st st' \<Longrightarrow> yields st0 U f P st' y (g x st')"
  shows "yields st0 U f P st y (do { (x, st') \<leftarrow> m; g x st' })"
proof -
  obtain st' where m: "m = Some (x, st')" "ready st0 U f P st'" "keeps (wanted st0 f) st st'" using assms(1) by (auto simp: yields_def)
  then show ?thesis using assms(2) [OF m(2,3)] keeps_trans by (auto simp: yields_def)
qed

text \<open>The law of the recursive calls: a symbol below those being evaluated gets evaluated, and nothing evaluated changes.\<close>

locale evaluator =
  fixes rec :: calc and n :: nat
  assumes rec_ok: "ready st0 U f P st \<Longrightarrow> below U f n P s \<Longrightarrow> \<exists>st'. rec s st = Some st' \<and> ready st0 U f P st' \<and> keeps (wanted st0 f) st st' \<and> valid st' s"
begin

lemma rec_bind:
  assumes "ready st0 U f P st" "below U f n P s"
    "\<And>st'. ready st0 U f P st' \<Longrightarrow> keeps (wanted st0 f) st st' \<Longrightarrow> valid st' s \<Longrightarrow> s_curr (syms st' s) = meaning st0 f s \<Longrightarrow> yields st0 U f P st' y (g st')"
  shows "yields st0 U f P st y (do { st' \<leftarrow> rec s st; g st' })"
proof -
  obtain st' where r: "rec s st = Some st'" "ready st0 U f P st'" "keeps (wanted st0 f) st st'" "valid st' s" using rec_ok [OF assms(1,2)] by blast
  have "s \<notin> P" using assms(2) by (auto simp: below_def)
  then have "yields st0 U f P st' y (g st')" using assms(3) r ready_value by blast
  then show ?thesis using r keeps_trans by (auto simp: yields_def)
qed

lemma pair_yields:
  assumes "ready st0 U f P st" "below U f n P a" "below U f n P b" "expr_symbols e = [a, b]"
  shows "yields st0 U f P st (calc_value (tab_of st0) (meaning st0 f) e)
    (do { st \<leftarrow> rec a st; st \<leftarrow> rec b st; Some (calc_value (tab_of st) (values_of st) e, st) })"
proof (rule rec_bind [OF assms(1,2)])
  fix st1 assume 1: "ready st0 U f P st1" "valid st1 a" "s_curr (syms st1 a) = meaning st0 f a"
  show "yields st0 U f P st1 (calc_value (tab_of st0) (meaning st0 f) e) (do { st \<leftarrow> rec b st1; Some (calc_value (tab_of st) (values_of st) e, st) })"
  proof (rule rec_bind [OF 1(1) assms(3)])
    fix st2 assume 2: "ready st0 U f P st2" "keeps (wanted st0 f) st1 st2" "s_curr (syms st2 b) = meaning st0 f b"
    have "s_curr (syms st2 a) = meaning st0 f a" using 1(2,3) 2(2) by (simp add: keeps_def)
    then have "calc_value (tab_of st2) (values_of st2) e = calc_value (tab_of st0) (meaning st0 f) e"
      unfolding ready_fields(1) [OF 2(1)] by (intro calc_agree) (use assms(4) 2(3) in \<open>auto simp: values_of_def\<close>)
    then show "yields st0 U f P st2 (calc_value (tab_of st0) (meaning st0 f) e) (Some (calc_value (tab_of st2) (values_of st2) e, st2))"
      using 2(1) by (simp add: yields_def keeps_refl)
  qed
qed

lemma calc_expr_yields:
  "ready st0 U f P st \<Longrightarrow> (\<And>s. s \<in> set (expr_symbols e) \<Longrightarrow> below U f n P s) \<Longrightarrow>
    yields st0 U f P st (calc_value (tab_of st0) (meaning st0 f) e) (calc_expr rec e st)"
proof (induction e arbitrary: st)
  case (E_SYMBOL s)
  show ?case unfolding calc_expr.simps
    by (rule rec_bind [OF E_SYMBOL(1)]) (use E_SYMBOL(2) in \<open>auto simp: yields_def keeps_refl\<close>)
next
  case (E_NOT e)
  have "yields st0 U f P st (calc_value (tab_of st0) (meaning st0 f) e) (calc_expr rec e st)"
    using E_NOT by simp
  then show ?case unfolding calc_expr.simps calc_value.simps
    by (rule yields_bind) (simp add: yields_Some keeps_refl)
next
  case (E_AND a b)
  have "yields st0 U f P st' (calc_value (tab_of st0) (meaning st0 f) a) (calc_expr rec a st')"
    "yields st0 U f P st' (calc_value (tab_of st0) (meaning st0 f) b) (calc_expr rec b st')" if "ready st0 U f P st'" for st'
    using E_AND that by simp_all
  then show ?case unfolding calc_expr.simps calc_value.simps using E_AND(3)
    by (intro yields_bind) (auto intro: yields_Some keeps_refl)
next
  case (E_OR a b)
  have "yields st0 U f P st' (calc_value (tab_of st0) (meaning st0 f) a) (calc_expr rec a st')"
    "yields st0 U f P st' (calc_value (tab_of st0) (meaning st0 f) b) (calc_expr rec b st')" if "ready st0 U f P st'" for st'
    using E_OR that by simp_all
  then show ?case unfolding calc_expr.simps calc_value.simps using E_OR(3)
    by (intro yields_bind) (auto intro: yields_Some keeps_refl)
next
  case (E_EQUAL a b)
  then show ?case unfolding calc_expr.simps by (intro pair_yields) auto
next
  case (E_UNEQUAL a b)
  then show ?case unfolding calc_expr.simps by (intro pair_yields) auto
qed

lemma calc_opt_yields:
  assumes "ready st0 U f P st" "\<And>s. s \<in> set (opt_symbols e) \<Longrightarrow> below U f n P s"
  shows "yields st0 U f P st (expr_calc_value (tab_of st0) (meaning st0 f) e) (calc_opt rec e st)"
proof (cases e)
  case None
  then show ?thesis using assms(1) by (simp add: calc_opt_def expr_calc_value_def yields_Some keeps_refl)
next
  case (Some x)
  then show ?thesis using calc_expr_yields [OF assms(1), of x] assms(2) by (simp add: calc_opt_def expr_calc_value_def opt_symbols_def)
qed

lemma prompts_yields:
  "ready st0 U f P st \<Longrightarrow> (\<And>p s. p \<in> set ps \<Longrightarrow> p_text p \<noteq> None \<Longrightarrow> s \<in> set (opt_symbols (p_visible p)) \<Longrightarrow> below U f n P s) \<Longrightarrow>
    yields st0 U f P st (prompts_of (tab_of st0) (meaning st0 f) ps t) (prompts_visible rec ps t st)"
proof (induction ps arbitrary: t st)
  case Nil
  then show ?case by (simp add: yields_Some keeps_refl)
next
  case (Cons p ps)
  have rest: "yields st0 U f P st' (prompts_of (tab_of st0) (meaning st0 f) ps u) (prompts_visible rec ps u st')" if "ready st0 U f P st'" for st' u
    by (rule Cons(1) [OF that]) (use Cons(3) in auto)
  show ?case
  proof (cases "p_text p = None")
    case True
    then show ?thesis using rest Cons(2) by simp
  next
    case False
    have "yields st0 U f P st (expr_calc_value (tab_of st0) (meaning st0 f) (p_visible p)) (calc_opt rec (p_visible p) st)"
      by (rule calc_opt_yields [OF Cons(2)]) (use Cons(3) False in auto)
    then show ?thesis unfolding prompts_visible.simps prompts_of.simps using False rest by (simp add: yields_bind)
  qed
qed

lemma first_yields:
  "ready st0 U f P st \<Longrightarrow> (\<And>p s. p \<in> set ps \<Longrightarrow> p_type p = ty \<Longrightarrow> s \<in> set (opt_symbols (p_visible p)) \<Longrightarrow> below U f n P s) \<Longrightarrow>
    yields st0 U f P st (first_of (tab_of st0) (meaning st0 f) ty ps) (first_visible rec ty ps st)"
proof (induction ps arbitrary: st)
  case Nil
  then show ?case by (simp add: yields_Some keeps_refl)
next
  case (Cons p ps)
  have rest: "yields st0 U f P st' (first_of (tab_of st0) (meaning st0 f) ty ps) (first_visible rec ty ps st')" if "ready st0 U f P st'" for st'
    by (rule Cons(1) [OF that]) (use Cons(3) in auto)
  show ?case
  proof (cases "p_type p = ty")
    case False
    then show ?thesis using rest Cons(2) by simp
  next
    case True
    have "yields st0 U f P st (expr_calc_value (tab_of st0) (meaning st0 f) (p_visible p)) (calc_opt rec (p_visible p) st)"
      by (rule calc_opt_yields [OF Cons(2)]) (use Cons(3) True in auto)
    then show ?thesis unfolding first_visible.simps first_of.simps if_P [OF True]
      by (rule yields_bind) (use True rest in \<open>auto intro: yields_Some keeps_refl\<close>)
  qed
qed

lemma range_val_yields:
  assumes "ready st0 U f P st" "below U f n P s"
  shows "yields st0 U f P st (bound_of (tab_of st0) (meaning st0 f) base s) (sym_get_range_val rec s base st)"
  unfolding sym_get_range_val_def
proof (rule rec_bind [OF assms])
  fix st' assume r: "ready st0 U f P st'" "s_curr (syms st' s) = meaning st0 f s"
  have "sym_type (tab_of st0) s = s_type (syms st' s)" using ready_fields(3) [OF r(1)] by (simp add: tab_of_def)
  then show "yields st0 U f P st' (bound_of (tab_of st0) (meaning st0 f) base s)
    (Some (to_int (c_strtol (range_base (s_type (syms st' s)) base) (val (s_curr (syms st' s)))), st'))"
    using r by (simp add: yields_def bound_of_def keeps_refl)
qed

end

section \<open>The symbol being evaluated\<close>

lemma ready_set_flag: "ready st0 U f P st \<Longrightarrow> s \<in> P \<Longrightarrow> ready st0 U f P (set_flag SYMBOL_WRITE s st)"
  "ready st0 U f P st \<Longrightarrow> s \<in> P \<Longrightarrow> ready st0 U f P (clear_flag SYMBOL_WRITE s st)"
  "ready st0 U f P st \<Longrightarrow> s \<in> P \<Longrightarrow> ready st0 U f P (sym_set_changed s st)"
  by (simp_all add: set_flag_def clear_flag_def sym_set_changed_def ready_flags)

lemma flag_fields [simp]:
  "s_visible (syms (set_flag x s st) t) = s_visible (syms st t)" "s_rev_tri (syms (set_flag x s st) t) = s_rev_tri (syms st t)"
  "s_curr (syms (set_flag x s st) t) = s_curr (syms st t)" "s_prop (syms (set_flag x s st) t) = s_prop (syms st t)"
  "s_user (syms (set_flag x s st) t) = s_user (syms st t)" "s_type (syms (set_flag x s st) t) = s_type (syms st t)"
  "s_visible (syms (clear_flag x s st) t) = s_visible (syms st t)" "s_rev_tri (syms (clear_flag x s st) t) = s_rev_tri (syms st t)"
  "s_curr (syms (clear_flag x s st) t) = s_curr (syms st t)"
  by (simp_all add: set_flag_def clear_flag_def)

lemma along_flag: "along (wanted st0 f) s st (set_flag x s st)" "along (wanted st0 f) s st (clear_flag x s st)"
  by (simp_all add: along_upd set_flag_def clear_flag_def)

text \<open>Visibility and reverse dependency are as they were.\<close>

definition same_vis :: "symbol \<Rightarrow> ktab \<Rightarrow> ktab \<Rightarrow> bool" where
  "same_vis s st st' \<longleftrightarrow> s_visible (syms st' s) = s_visible (syms st s) \<and> s_rev_tri (syms st' s) = s_rev_tri (syms st s)"

lemma ready_keeps_self: "ready st0 U f P st \<Longrightarrow> s \<in> P \<Longrightarrow> keeps (wanted st0 f) st st' \<Longrightarrow> syms st' s = syms st s"
  by (simp add: ready_def keeps_def)

lemma set_visible_ok:
  assumes "ready st0 U f P st" "s \<in> P"
  shows "ready st0 U f P (set_visible s t st)" "along (wanted st0 f) s st (set_visible s t st)"
    "s_visible (syms (set_visible s t st) s) = t" "s_rev_tri (syms (set_visible s t st) s) = s_rev_tri (syms st s)"
    "has_flag (set_visible s t st) s SYMBOL_WRITE = has_flag st s SYMBOL_WRITE"
  using assms ready_upd [OF assms loose_updates(1)] ready_set_flag(3) [OF ready_upd [OF assms loose_updates(1)] assms(2)]
  by (auto simp: set_visible_def along_refl sym_set_changed_def along_def set_flag_def valid_def has_flag_def)

lemma set_rev_ok:
  assumes "ready st0 U f P st" "s \<in> P"
  shows "ready st0 U f P (set_rev s t st)" "along (wanted st0 f) s st (set_rev s t st)"
    "s_rev_tri (syms (set_rev s t st) s) = t" "s_visible (syms (set_rev s t st) s) = s_visible (syms st s)"
    "has_flag (set_rev s t st) s SYMBOL_WRITE = has_flag st s SYMBOL_WRITE"
  using assms ready_upd [OF assms loose_updates(2)] ready_set_flag(3) [OF ready_upd [OF assms loose_updates(2)] assms(2)]
  by (auto simp: set_rev_def along_refl sym_set_changed_def along_def set_flag_def valid_def has_flag_def)

lemma type_in_now: "ready st0 U f P st \<Longrightarrow> sym_get_type st s = type_in (modules_val st0) (syms st0 s)"
  using ready_fields(10) [of st0 U f P st s] ready_fields(2,3) [of st0 U f P st]
  by (simp add: sym_get_type_def type_in_def Let_def)

lemma ready_wf: "ready st0 U f P st \<Longrightarrow> s \<in> P \<Longrightarrow> p \<in> set (s_prop (syms st0 s)) \<Longrightarrow> wf_prop p"
  by (auto simp: ready_def rankable_def)

context evaluator begin

lemma visibility_ok:
  assumes "ready st0 U f P st" "s \<in> P" "\<And>r. r \<in> set (read_symbols (syms st0 s)) \<Longrightarrow> below U f n P r"
  shows "\<exists>st'. sym_calc_visibility rec s st = Some st' \<and> ready st0 U f P st' \<and> along (wanted st0 f) s st st'
    \<and> s_visible (syms st' s) = visible_of (tab_of st0) (meaning st0 f) (modules_val st0) (syms st0 s)
    \<and> s_rev_tri (syms st' s) = rev_of (tab_of st0) (meaning st0 f) (modules_val st0) (syms st0 s)
    \<and> has_flag st' s SYMBOL_WRITE = has_flag st s SYMBOL_WRITE"
proof -
  let ?T = "tab_of st0" and ?v = "meaning st0 f" and ?k = "syms st0 s"
  have "yields st0 U f P st (prompts_of ?T ?v (s_prop ?k) No) (prompts_visible rec (s_prop ?k) No st)"
  proof (rule prompts_yields [OF assms(1)])
    fix p r assume p: "p \<in> set (s_prop ?k)" "p_text p \<noteq> None" "r \<in> set (opt_symbols (p_visible p))"
    then have "p_type p \<noteq> P_CHOICE" "p_type p \<noteq> P_SELECT" using ready_wf [OF assms(1,2) p(1)] by (simp_all add: wf_prop_def)
    with p show "below U f n P r" using assms(3) read_visible by blast
  qed
  then obtain st1 where 1: "prompts_visible rec (s_prop ?k) No st = Some (prompts_of ?T ?v (s_prop ?k) No, st1)"
    "ready st0 U f P st1" "keeps (wanted st0 f) st st1" by (auto simp: yields_def)
  let ?V = "visible_of ?T ?v (modules_val st0) ?k"
  define st2 where "st2 = set_visible s ?V st1"
  note 2 = set_visible_ok [OF 1(2) assms(2), of ?V, folded st2_def]
  have "yields st0 U f P st2 (case s_rev_expr ?k of None \<Rightarrow> No | Some e \<Rightarrow> calc_value ?T ?v e)
    (case s_rev_expr ?k of None \<Rightarrow> Some (No, st2) | Some e \<Rightarrow> calc_expr rec e st2)"
  proof (cases "s_rev_expr ?k")
    case None
    then show ?thesis using 2(1) by (simp add: yields_Some keeps_refl)
  next
    case (Some e)
    then show ?thesis using calc_expr_yields [OF 2(1), of e] assms(3) read_rev [of ?k] by (auto simp: opt_symbols_def)
  qed
  then obtain st3 where 3: "(case s_rev_expr ?k of None \<Rightarrow> Some (No, st2) | Some e \<Rightarrow> calc_expr rec e st2)
      = Some (case s_rev_expr ?k of None \<Rightarrow> No | Some e \<Rightarrow> calc_value ?T ?v e, st3)"
    "ready st0 U f P st3" "keeps (wanted st0 f) st2 st3" by (auto simp: yields_def)
  let ?R = "rev_of ?T ?v (modules_val st0) ?k"
  note 4 = set_rev_ok [OF 3(2) assms(2), of ?R]
  have "s_prop (syms st s) = s_prop ?k" "s_type (syms st1 s) = s_type ?k" "modules_val st1 = modules_val st0"
    "s_rev_expr (syms st2 s) = s_rev_expr ?k" "\<not> sym_is_choice_value st2 s" "sym_get_type st3 s = type_in (modules_val st0) ?k"
    using ready_fields(5) [OF assms(1)] ready_fields(2,3) [OF 1(2)] ready_fields(6,10) [OF 2(1)] type_in_now [OF 3(2)] by simp_all
  note fields = this
  let ?p = "prompts_of ?T ?v (s_prop ?k) No" and ?r = "case s_rev_expr ?k of None \<Rightarrow> No | Some e \<Rightarrow> calc_value ?T ?v e"
  have V: "(if ?p = Mod \<and> (s_type ?k \<noteq> S_TRISTATE \<or> modules_val st0 = No) then Yes else ?p) = ?V"
    by (simp add: visible_of_def round_up_def)
  have R: "(if ?r = Mod \<and> type_in (modules_val st0) ?k = S_BOOLEAN then Yes else ?r) = ?R"
    by (simp add: rev_of_def round_up_def)
  have "sym_calc_visibility rec s st = Some (set_rev s ?R st3)"
    by (simp only: sym_calc_visibility_def fields 1(1) bind.bind_lunit prod.case Let_def V st2_def [symmetric] if_False 3(1) R)
  moreover have "along (wanted st0 f) s st (set_rev s ?R st3)"
    by (rule along_trans [OF along_trans [OF along_trans [OF keeps_along [OF 1(3)] 2(2)] keeps_along [OF 3(3)]] 4(2)])
  moreover have "s_visible (syms st3 s) = ?V" using ready_keeps_self [OF 2(1) assms(2) 3(3)] 2(3) by simp
  moreover have "has_flag st3 s SYMBOL_WRITE = has_flag st s SYMBOL_WRITE"
    using ready_keeps_self [OF assms(1,2) 1(3)] 2(5) ready_keeps_self [OF 2(1) assms(2) 3(3)] by (simp add: has_flag_def)
  ultimately show ?thesis using 4 by simp
qed

end

section \<open>The value\<close>

text \<open>A part of the evaluation of \<open>s\<close> after its visibility is known.\<close>

definition stage :: "ktab \<Rightarrow> symbol set \<Rightarrow> (symbol \<Rightarrow> nat) \<Rightarrow> symbol set \<Rightarrow> symbol \<Rightarrow> ktab \<Rightarrow> ktab \<Rightarrow> bool" where
  "stage st0 U f P s st st' \<longleftrightarrow> ready st0 U f P st' \<and> along (wanted st0 f) s st st' \<and> same_vis s st st'"

lemma stage_trans: "stage st0 U f P s a b \<Longrightarrow> stage st0 U f P s b c \<Longrightarrow> stage st0 U f P s a c"
  using along_trans [of "wanted st0 f" s a b c] by (simp add: stage_def same_vis_def)

lemma stage_refl: "ready st0 U f P st \<Longrightarrow> stage st0 U f P s st st"
  by (simp add: stage_def along_refl same_vis_def)

lemma stage_keeps: "ready st0 U f P st \<Longrightarrow> s \<in> P \<Longrightarrow> ready st0 U f P st' \<Longrightarrow> keeps (wanted st0 f) st st' \<Longrightarrow> stage st0 U f P s st st'"
  using ready_keeps_self [of st0 U f P st s st'] by (simp add: stage_def keeps_along same_vis_def)

lemma stage_flag:
  assumes "ready st0 U f P st" "s \<in> P"
  shows "stage st0 U f P s st (set_flag SYMBOL_WRITE s st)" "stage st0 U f P s st (if b then set_flag SYMBOL_WRITE s st else st)"
    "stage st0 U f P s st (if b then clear_flag SYMBOL_WRITE s st else st)"
  using assms by (simp_all add: stage_def ready_set_flag along_flag along_refl same_vis_def)

lemma stage_upd:
  assumes "ready st0 U f P st" "s \<in> P"
  shows "stage st0 U f P s st (upd s (set_curr v) st)" "stage st0 U f P s st (upd s (set_val x) st)"
  using ready_upd [OF assms loose_updates(3)] ready_upd [OF assms loose_updates(4)]
  by (simp_all add: stage_def along_upd same_vis_def set_curr_def set_val_def)

lemma stage_ready: "stage st0 U f P s st st' \<Longrightarrow> ready st0 U f P st'"
  by (simp add: stage_def)

context evaluator begin

lemma default_prop_ok:
  assumes "ready st0 U f P st" "s \<in> P" "\<And>r. r \<in> set (read_symbols (syms st0 s)) \<Longrightarrow> below U f n P r" "ty \<noteq> P_CHOICE" "ty \<noteq> P_SELECT"
  shows "\<exists>st'. first_visible rec ty (s_prop (syms st s)) st = Some (first_of (tab_of st0) (meaning st0 f) ty (s_prop (syms st0 s)), st')
    \<and> stage st0 U f P s st st' \<and> keeps (wanted st0 f) st st'"
proof -
  have "yields st0 U f P st (first_of (tab_of st0) (meaning st0 f) ty (s_prop (syms st0 s))) (first_visible rec ty (s_prop (syms st0 s)) st)"
    by (rule first_yields [OF assms(1)]) (use assms(3,4,5) read_visible in blast)
  then show ?thesis using stage_keeps [OF assms(1,2)] ready_fields(5) [OF assms(1)] by (auto simp: yields_def)
qed

lemma calc_default_ok:
  assumes "ready st0 U f P st" "s \<in> P" "\<And>r. r \<in> set (read_symbols (syms st0 s)) \<Longrightarrow> below U f n P r"
  shows "\<exists>st'. calc_default rec s st = Some (default_of (tab_of st0) (meaning st0 f) (syms st0 s), st') \<and> stage st0 U f P s st st'
    \<and> has_flag st' s SYMBOL_WRITE = (has_flag st s SYMBOL_WRITE \<or> first_of (tab_of st0) (meaning st0 f) P_DEFAULT (s_prop (syms st0 s)) \<noteq> None)"
proof -
  let ?d = "first_of (tab_of st0) (meaning st0 f) P_DEFAULT (s_prop (syms st0 s))"
  obtain st1 where 1: "sym_get_default_prop rec s st = Some (?d, st1)" "stage st0 U f P s st st1" "keeps (wanted st0 f) st st1"
    using default_prop_ok [OF assms, of P_DEFAULT] by (auto simp: sym_get_default_prop_def)
  have w1: "has_flag st1 s SYMBOL_WRITE = has_flag st s SYMBOL_WRITE" using ready_keeps_self [OF assms(1,2) 1(3)] by (simp add: has_flag_def)
  have c: "\<not> sym_is_choice st s" by (rule ready_fields(9) [OF assms(1)])
  show ?thesis
  proof (cases ?d)
    case None
    then show ?thesis using 1 c w1 by (simp add: calc_default_def default_of_def)
  next
    case (Some d)
    obtain p vis where d: "d = (p, vis)" by (cases d)
    note p = first_of_mem [OF Some [unfolded d]]
    note 2 = stage_flag(1) [OF stage_ready [OF 1(2)] assms(2)]
    have "yields st0 U f P (set_flag SYMBOL_WRITE s st1) (expr_calc_value (tab_of st0) (meaning st0 f) (dep_of (p_expr p)))
        (calc_opt rec (dep_of (p_expr p)) (set_flag SYMBOL_WRITE s st1))"
      by (rule calc_opt_yields [OF stage_ready [OF 2]]) (use assms(3) p read_default in blast)
    then obtain st2 where 3: "calc_opt rec (dep_of (p_expr p)) (set_flag SYMBOL_WRITE s st1)
        = Some (expr_calc_value (tab_of st0) (meaning st0 f) (dep_of (p_expr p)), st2)"
      "ready st0 U f P st2" "keeps (wanted st0 f) (set_flag SYMBOL_WRITE s st1) st2" by (auto simp: yields_def)
    have "stage st0 U f P s st st2"
      by (rule stage_trans [OF stage_trans [OF 1(2) 2] stage_keeps [OF stage_ready [OF 2] assms(2) 3(2,3)]])
    moreover have "has_flag st2 s SYMBOL_WRITE" using ready_keeps_self [OF stage_ready [OF 2] assms(2) 3(3)] by (simp add: has_flag_def set_flag_def)
    ultimately show ?thesis using 1(1) c 3(1) Some d by (simp add: calc_default_def default_of_def)
  qed
qed

lemma calc_tristate_ok:
  assumes "ready st0 U f P st" "s \<in> P" "\<And>r. r \<in> set (read_symbols (syms st0 s)) \<Longrightarrow> below U f n P r"
    "s_visible (syms st s) = visible_of (tab_of st0) (meaning st0 f) (modules_val st0) (syms st0 s)"
    "s_rev_tri (syms st s) = rev_of (tab_of st0) (meaning st0 f) (modules_val st0) (syms st0 s)"
  shows "\<exists>st'. calc_tristate rec s st = Some (tristate_of (tab_of st0) (meaning st0 f) (modules_val st0) (syms st0 s), st') \<and> stage st0 U f P s st st'
    \<and> has_flag st' s SYMBOL_WRITE = (has_flag st s SYMBOL_WRITE \<or> s_visible (syms st s) \<noteq> No \<or> s_rev_tri (syms st s) \<noteq> No
        \<or> first_of (tab_of st0) (meaning st0 f) P_DEFAULT (s_prop (syms st0 s)) \<noteq> None)"
proof -
  let ?V = "visible_of (tab_of st0) (meaning st0 f) (modules_val st0) (syms st0 s)"
    and ?R = "rev_of (tab_of st0) (meaning st0 f) (modules_val st0) (syms st0 s)" and ?k = "syms st0 s"
  define st1 where "st1 = (if ?V \<noteq> No then set_flag SYMBOL_WRITE s st else st)"
  have 1: "stage st0 U f P s st st1" unfolding st1_def by (rule stage_flag(2) [OF assms(1,2)])
  have w1: "has_flag st1 s SYMBOL_WRITE = (has_flag st s SYMBOL_WRITE \<or> ?V \<noteq> No)" by (simp add: st1_def has_flag_def set_flag_def)
  let ?W = "has_flag st s SYMBOL_WRITE \<or> ?V \<noteq> No \<or> ?R \<noteq> No \<or> first_of (tab_of st0) (meaning st0 f) P_DEFAULT (s_prop ?k) \<noteq> None"
  define t where "t = (if ?V \<noteq> No \<and> SYMBOL_DEF_USER \<in> s_flags ?k then EXPR_AND (u_tri (s_user ?k)) ?V
    else default_of (tab_of st0) (meaning st0 f) ?k)"
  note h = ready_fields(8) [OF stage_ready [OF 1], of s] and u = ready_fields(4) [OF stage_ready [OF 1], of s]
  obtain st2 where 2: "(if ?V \<noteq> No \<and> sym_has_value st1 s then Some (EXPR_AND (u_tri (s_user (syms st1 s))) ?V, st1)
      else calc_default rec s (if ?R \<noteq> No then set_flag SYMBOL_WRITE s st1 else st1)) = Some (t, st2)" "stage st0 U f P s st1 st2" "has_flag st2 s SYMBOL_WRITE = ?W"
  proof (cases "?V \<noteq> No \<and> SYMBOL_DEF_USER \<in> s_flags ?k")
    case True
    assume r: "\<And>st2. (if ?V \<noteq> No \<and> sym_has_value st1 s then Some (EXPR_AND (u_tri (s_user (syms st1 s))) ?V, st1)
      else calc_default rec s (if ?R \<noteq> No then set_flag SYMBOL_WRITE s st1 else st1)) = Some (t, st2) \<Longrightarrow> stage st0 U f P s st1 st2 \<Longrightarrow> has_flag st2 s SYMBOL_WRITE = ?W \<Longrightarrow> thesis"
    show thesis by (rule r [OF _ stage_refl [OF stage_ready [OF 1]]]) (use True w1 in \<open>simp_all add: h u t_def\<close>)
  next
    case False
    assume r: "\<And>st2. (if ?V \<noteq> No \<and> sym_has_value st1 s then Some (EXPR_AND (u_tri (s_user (syms st1 s))) ?V, st1)
      else calc_default rec s (if ?R \<noteq> No then set_flag SYMBOL_WRITE s st1 else st1)) = Some (t, st2) \<Longrightarrow> stage st0 U f P s st1 st2 \<Longrightarrow> has_flag st2 s SYMBOL_WRITE = ?W \<Longrightarrow> thesis"
    note w = stage_flag(2) [OF stage_ready [OF 1] assms(2), of "?R \<noteq> No"]
    obtain st2 where d: "calc_default rec s (if ?R \<noteq> No then set_flag SYMBOL_WRITE s st1 else st1) = Some (default_of (tab_of st0) (meaning st0 f) ?k, st2)"
      "stage st0 U f P s (if ?R \<noteq> No then set_flag SYMBOL_WRITE s st1 else st1) st2"
      "has_flag st2 s SYMBOL_WRITE = (has_flag (if ?R \<noteq> No then set_flag SYMBOL_WRITE s st1 else st1) s SYMBOL_WRITE
         \<or> first_of (tab_of st0) (meaning st0 f) P_DEFAULT (s_prop ?k) \<noteq> None)"
      using calc_default_ok [OF stage_ready [OF w] assms(2,3)] by blast
    have "has_flag (if ?R \<noteq> No then set_flag SYMBOL_WRITE s st1 else st1) s SYMBOL_WRITE = (has_flag st1 s SYMBOL_WRITE \<or> ?R \<noteq> No)"
      by (simp add: has_flag_def set_flag_def)
    then have "has_flag st2 s SYMBOL_WRITE = ?W" unfolding d(3) w1 by blast
    then show thesis by (intro r [OF _ stage_trans [OF w d(2)]]) (use False d(1) in \<open>simp_all add: h t_def if_not_P\<close>)
  qed
  have 12: "stage st0 U f P s st st2" by (rule stage_trans [OF 1 2(2)])
  have v: "s_visible (syms st s) = ?V" "s_rev_tri (syms st1 s) = ?R" "s_rev_tri (syms st2 s) = ?R"
    using assms(4,5) 1 12 by (simp_all add: stage_def same_vis_def)
  have T: "round_up (type_in (modules_val st0) ?k = S_BOOLEAN) (EXPR_OR t ?R) = tristate_of (tab_of st0) (meaning st0 f) (modules_val st0) ?k"
    by (simp add: tristate_of_def Let_def t_def)
  have "calc_tristate rec s st = Some (round_up (type_in (modules_val st0) ?k = S_BOOLEAN) (EXPR_OR t ?R), st2)"
    by (simp only: calc_tristate_def ready_fields(10) [OF assms(1)] v(1,2) Let_def st1_def [symmetric] 2(1) bind.bind_lunit prod.case
        v(3) simp_thms if_False type_in_now [OF stage_ready [OF 12]] round_up_def)
  then show ?thesis using 12 2(3) by (simp only: T assms(4,5)) blast
qed

lemma calc_string_ok:
  assumes "ready st0 U f P st" "s \<in> P" "\<And>r. r \<in> set (read_symbols (syms st0 s)) \<Longrightarrow> below U f n P r"
    "s_visible (syms st s) = visible_of (tab_of st0) (meaning st0 f) (modules_val st0) (syms st0 s)"
  shows "\<exists>st'. calc_string rec s st = Some (string_of (tab_of st0) (meaning st0 f) (modules_val st0) (syms st0 s), st') \<and> stage st0 U f P s st st'
    \<and> has_flag st' s SYMBOL_WRITE = (has_flag st s SYMBOL_WRITE \<or> s_visible (syms st s) \<noteq> No
        \<or> (\<exists>p vis d. first_of (tab_of st0) (meaning st0 f) P_DEFAULT (s_prop (syms st0 s)) = Some (p, vis) \<and> prop_get_symbol p = Some d))"
proof -
  let ?V = "visible_of (tab_of st0) (meaning st0 f) (modules_val st0) (syms st0 s)" and ?k = "syms st0 s"
  define st1 where "st1 = (if ?V \<noteq> No then set_flag SYMBOL_WRITE s st else st)"
  have 1: "stage st0 U f P s st st1" unfolding st1_def by (rule stage_flag(2) [OF assms(1,2)])
  have w1: "has_flag st1 s SYMBOL_WRITE = (has_flag st s SYMBOL_WRITE \<or> ?V \<noteq> No)" by (simp add: st1_def has_flag_def set_flag_def)
  have eq: "calc_string rec s st = (if ?V \<noteq> No \<and> SYMBOL_DEF_USER \<in> s_flags ?k then Some (case u_val (s_user ?k) of None \<Rightarrow> [] | Some x \<Rightarrow> x, st1)
      else do { (p, st) \<leftarrow> sym_get_default_prop rec s st1;
        case p of None \<Rightarrow> Some ([], st)
        | Some (p, _) \<Rightarrow> (case prop_get_symbol p of None \<Rightarrow> Some ([], st)
            | Some d \<Rightarrow> do { st \<leftarrow> rec d (set_flag SYMBOL_WRITE s st); Some (val (s_curr (syms st d)), st) }) })"
    by (simp only: calc_string_def assms(4) Let_def st1_def [symmetric] ready_fields(4,8) [OF stage_ready [OF 1]])
  show ?thesis
  proof (cases "?V \<noteq> No \<and> SYMBOL_DEF_USER \<in> s_flags ?k")
    case True
    then show ?thesis unfolding eq string_of_def if_P [OF True] assms(4) using 1 w1 by blast
  next
    case False
    let ?d = "first_of (tab_of st0) (meaning st0 f) P_DEFAULT (s_prop ?k)"
    obtain st2 where 2: "sym_get_default_prop rec s st1 = Some (?d, st2)" "stage st0 U f P s st1 st2" "keeps (wanted st0 f) st1 st2"
      using default_prop_ok [OF stage_ready [OF 1] assms(2,3), of P_DEFAULT] by (auto simp: sym_get_default_prop_def)
    have w2: "has_flag st2 s SYMBOL_WRITE = (has_flag st s SYMBOL_WRITE \<or> ?V \<noteq> No)"
      using ready_keeps_self [OF stage_ready [OF 1] assms(2) 2(3)] w1 by (simp add: has_flag_def)
    have 12: "stage st0 U f P s st st2" by (rule stage_trans [OF 1 2(2)])
    show ?thesis
    proof (cases "\<exists>p vis d. ?d = Some (p, vis) \<and> prop_get_symbol p = Some d")
      case n: False
      then have "calc_string rec s st = Some ([], st2)" "string_of (tab_of st0) (meaning st0 f) (modules_val st0) ?k = []"
        unfolding eq string_of_def if_not_P [OF False] 2(1) by (auto split: option.splits)
      moreover have "has_flag st2 s SYMBOL_WRITE = (has_flag st s SYMBOL_WRITE \<or> s_visible (syms st s) \<noteq> No
          \<or> (\<exists>p vis d. ?d = Some (p, vis) \<and> prop_get_symbol p = Some d))" unfolding w2 assms(4) using n by blast
      ultimately show ?thesis using 12 by auto
    next
      case True
      then obtain p vis d where d: "?d = Some (p, vis)" "prop_get_symbol p = Some d" by blast
      have "d \<in> set (read_symbols ?k)" using first_of_mem [OF d(1)] read_default [OF _ _ prop_symbol_default [OF d(2)]] by blast
      note b = assms(3) [OF this]
      note 3 = stage_flag(1) [OF stage_ready [OF 2(2)] assms(2)]
      obtain st3 where r: "rec d (set_flag SYMBOL_WRITE s st2) = Some st3" "ready st0 U f P st3" "keeps (wanted st0 f) (set_flag SYMBOL_WRITE s st2) st3" "valid st3 d"
        using rec_ok [OF stage_ready [OF 3] b] by blast
      have "d \<notin> P" using b by (auto simp: below_def)
      then have v: "s_curr (syms st3 d) = meaning st0 f d" by (rule ready_value [OF r(2,4)])
      have "stage st0 U f P s st st3"
        by (rule stage_trans [OF stage_trans [OF 12 3] stage_keeps [OF stage_ready [OF 3] assms(2) r(2,3)]])
      moreover have "has_flag st3 s SYMBOL_WRITE" using ready_keeps_self [OF stage_ready [OF 3] assms(2) r(3)] by (simp add: has_flag_def set_flag_def)
      moreover have "calc_string rec s st = Some (string_of (tab_of st0) (meaning st0 f) (modules_val st0) ?k, st3)"
        unfolding eq string_of_def if_not_P [OF False] 2(1) d by (simp add: d(2) r(1) v)
      ultimately show ?thesis using d by blast
    qed
  qed
qed

lemma validate_range_ok:
  assumes "ready st0 U f P st" "s \<in> P" "\<And>r. r \<in> set (read_symbols (syms st0 s)) \<Longrightarrow> below U f n P r"
  shows "\<exists>st'. sym_validate_range rec s st = Some st' \<and> stage st0 U f P s st st'
    \<and> s_curr (syms st' s) = (s_curr (syms st s))\<lparr>val := clamp_of (tab_of st0) (meaning st0 f) (syms st0 s) (val (s_curr (syms st s)))\<rparr>
    \<and> has_flag st' s SYMBOL_WRITE = has_flag st s SYMBOL_WRITE"
proof -
  let ?k = "syms st0 s" and ?x = "val (s_curr (syms st s))" and ?r = "first_of (tab_of st0) (meaning st0 f) P_RANGE (s_prop (syms st0 s))"
  note ty = ready_fields(3) [OF assms(1), of s]
  show ?thesis
  proof (cases "s_type ?k \<noteq> S_INT \<and> s_type ?k \<noteq> S_HEX")
    case True
    then show ?thesis using stage_refl [OF assms(1)] ty by (simp add: sym_validate_range_def clamp_of_def)
  next
    case False
    obtain st1 where 1: "sym_get_range_prop rec s st = Some (?r, st1)" "stage st0 U f P s st st1" "keeps (wanted st0 f) st st1"
      using default_prop_ok [OF assms, of P_RANGE] by (auto simp: sym_get_range_prop_def)
    have s1: "syms st1 s = syms st s" by (rule ready_keeps_self [OF assms(1,2) 1(3)])
    show ?thesis
    proof (cases ?r)
      case None
      then show ?thesis using 1 s1 False ty by (auto simp: sym_validate_range_def clamp_of_def Let_def has_flag_def)
    next
      case (Some pv)
      obtain p vis where pv: "?r = Some (p, vis)" using Some by (cases pv) auto
      note m = first_of_mem [OF pv]
      have "range_ends p \<noteq> None" using ready_wf [OF assms(1,2)] m by (simp add: wf_prop_def)
      then obtain l r where lr: "range_ends p = Some (l, r)" by auto
      have b: "below U f n P l" "below U f n P r" using read_range [OF _ _ lr] m assms(3) by simp_all
      let ?b = "range_base (s_type ?k) 0" and ?c = "to_int (c_strtol (range_base (s_type ?k) 0) ?x)"
      let ?l = "bound_of (tab_of st0) (meaning st0 f) ?b l" and ?h = "bound_of (tab_of st0) (meaning st0 f) ?b r"
      obtain st2 where 2: "sym_get_range_val rec l ?b st1 = Some (?l, st2)" "ready st0 U f P st2" "keeps (wanted st0 f) st1 st2"
        using range_val_yields [OF stage_ready [OF 1(2)] b(1)] by (auto simp: yields_def)
      obtain st3 where 3: "sym_get_range_val rec r ?b st2 = Some (?h, st3)" "ready st0 U f P st3" "keeps (wanted st0 f) st2 st3"
        using range_val_yields [OF 2(2) b(2)] by (auto simp: yields_def)
      have s2: "syms st2 s = syms st s" using ready_keeps_self [OF stage_ready [OF 1(2)] assms(2) 2(3)] s1 by simp
      have s3: "syms st3 s = syms st s" using ready_keeps_self [OF 2(2) assms(2) 3(3)] s2 by simp
      have S2: "stage st0 U f P s st st2" by (rule stage_trans [OF 1(2) stage_keeps [OF stage_ready [OF 1(2)] assms(2) 2(2,3)]])
      have S3: "stage st0 U f P s st st3" by (rule stage_trans [OF S2 stage_keeps [OF 2(2) assms(2) 3(2,3)]])
      have eq: "sym_validate_range rec s st = (if ?c \<ge> ?l then (if ?c \<le> ?h then Some st3 else Some (upd s (set_val (show_bound (s_type ?k) ?h)) st3))
          else Some (upd s (set_val (show_bound (s_type ?k) ?l)) st2))"
        using False by (auto simp: sym_validate_range_def ty Let_def 1(1) pv s1 lr 2(1) 3(1))
      have cl: "clamp_of (tab_of st0) (meaning st0 f) ?k ?x = (if ?c < ?l then show_bound (s_type ?k) ?l
          else if ?c > ?h then show_bound (s_type ?k) ?h else ?x)"
        using False by (auto simp: clamp_of_def pv lr Let_def)
      note u2 = stage_trans [OF S2 stage_upd(2) [OF 2(2) assms(2)]] and u3 = stage_trans [OF S3 stage_upd(2) [OF 3(2) assms(2)]]
      consider "?c < ?l" | "?l \<le> ?c" "?h < ?c" | "?l \<le> ?c" "?c \<le> ?h" by linarith
      then show ?thesis
      proof cases
        case 1 then show ?thesis unfolding eq cl using u2 s2 by (simp add: set_val_def has_flag_def)
      next
        case 2 then show ?thesis unfolding eq cl using u3 s3 by (simp add: set_val_def has_flag_def)
      next
        case 3 then show ?thesis unfolding eq cl using S3 s3 by (simp add: has_flag_def)
      qed
    qed
  qed
qed

end

section \<open>One symbol, and all of them\<close>

lemma note_change_ok:
  assumes "ready st0 U f P st" "s \<in> P" "modules_sym st \<noteq> Some s"
  shows "stage st0 U f P s st (note_change old s st)" "s_curr (syms (note_change old s st) s) = s_curr (syms st s)"
    "has_flag (note_change old s st) s SYMBOL_WRITE = has_flag st s SYMBOL_WRITE"
proof -
  have "note_change old s st = st \<or> note_change old s st = sym_set_changed s st"
    using assms(3) by (simp add: note_change_def Let_def sym_set_changed_def set_flag_def)
  moreover have "stage st0 U f P s st (sym_set_changed s st)"
    using ready_set_flag(3) [OF assms(1,2)] by (simp add: stage_def sym_set_changed_def along_flag same_vis_def)
  ultimately show "stage st0 U f P s st (note_change old s st)" "s_curr (syms (note_change old s st) s) = s_curr (syms st s)"
    "has_flag (note_change old s st) s SYMBOL_WRITE = has_flag st s SYMBOL_WRITE"
    using stage_refl [OF assms(1)] by (auto simp: sym_set_changed_def has_flag_def set_flag_def)
qed

text \<open>What comes after the value: only flags change.\<close>

definition finish :: "symbol \<Rightarrow> symbol_value \<times> symbol option \<Rightarrow> ktab \<Rightarrow> ktab" where
  "finish s old st = (let st = share_flags s (note_change old s st) in if has_flag st s SYMBOL_AUTO then clear_flag SYMBOL_WRITE s st else st)"

lemma finish_ok:
  assumes "ready st0 U f P st" "s \<in> P" "modules_sym st \<noteq> Some s"
  shows "stage st0 U f P s st (finish s old st)" "s_curr (syms (finish s old st) s) = s_curr (syms st s)"
    "has_flag (finish s old st) s SYMBOL_WRITE \<longleftrightarrow> has_flag st s SYMBOL_WRITE \<and> SYMBOL_AUTO \<notin> s_flags (syms st0 s)"
proof -
  let ?n = "note_change old s st"
  note n = note_change_ok [OF assms, of old]
  have "share_flags s ?n = ?n" using ready_fields(9) [OF stage_ready [OF n(1)]] by (simp add: share_flags_def)
  then have f: "finish s old st = (if has_flag ?n s SYMBOL_AUTO then clear_flag SYMBOL_WRITE s ?n else ?n)" by (simp add: finish_def Let_def)
  show "stage st0 U f P s st (finish s old st)" unfolding f
    by (rule stage_trans [OF n(1) stage_flag(3) [OF stage_ready [OF n(1)] assms(2)]])
  show "s_curr (syms (finish s old st) s) = s_curr (syms st s)" using n(2) by (simp add: f)
  have k: "static (syms ?n s) = static (syms st0 s)" using stage_ready [OF n(1)] by (simp add: ready_def same_static_def)
  have "has_flag ?n s SYMBOL_AUTO \<longleftrightarrow> SYMBOL_AUTO \<in> s_flags (syms st0 s)" unfolding has_flag_def by (rule static_fields(6) [OF k]) auto
  then show "has_flag (finish s old st) s SYMBOL_WRITE \<longleftrightarrow> has_flag st s SYMBOL_WRITE \<and> SYMBOL_AUTO \<notin> s_flags (syms st0 s)"
    using n(3) by (simp add: f) (simp add: clear_flag_def has_flag_def)
qed

lemma logical_type_in: "is_logical (type_in mv k) \<longleftrightarrow> is_logical (s_type k)"
  by (simp add: is_logical_def type_in_def)

lemma clamp_logical: "is_logical (s_type k) \<Longrightarrow> clamp_of T v k x = x"
  by (auto simp: is_logical_def clamp_of_def)

lemma textual_not_logical: "is_textual ty \<Longrightarrow> \<not> is_logical ty"
  by (auto simp: is_logical_def is_textual_def)

context evaluator begin

lemma newval_ok:
  assumes "ready st0 U f P st" "s \<in> P" "\<And>r. r \<in> set (read_symbols (syms st0 s)) \<Longrightarrow> below U f n P r"
    "s_visible (syms st s) = visible_of (tab_of st0) (meaning st0 f) (modules_val st0) (syms st0 s)"
    "s_rev_tri (syms st s) = rev_of (tab_of st0) (meaning st0 f) (modules_val st0) (syms st0 s)"
    "is_logical (s_type (syms st0 s)) \<or> is_textual (s_type (syms st0 s))"
    "nv = (if is_textual (s_type (syms st0 s)) then empty_value else no_value)"
  shows "\<exists>v st'. (if is_logical (sym_get_type st s)
           then do { (t, st) \<leftarrow> calc_tristate rec s st; Some (nv\<lparr>tri := t\<rparr>, st) }
           else do { (x, st) \<leftarrow> calc_string rec s st; Some (nv\<lparr>val := x\<rparr>, st) }) = Some (v, st')
    \<and> stage st0 U f P s st st'
    \<and> v\<lparr>val := clamp_of (tab_of st0) (meaning st0 f) (syms st0 s) (val v)\<rparr> = value_of (tab_of st0) (meaning st0 f) (modules_val st0) (syms st0 s)
    \<and> (\<not> has_flag st s SYMBOL_WRITE \<longrightarrow> (has_flag st' s SYMBOL_WRITE \<and> SYMBOL_AUTO \<notin> s_flags (syms st0 s) \<longleftrightarrow> wanted st0 f s))"
proof (cases "is_logical (s_type (syms st0 s))")
  case True
  then have "\<not> is_textual (s_type (syms st0 s))" using textual_not_logical by blast
  then have nv: "nv = no_value" using assms(7) by simp
  have "is_logical (sym_get_type st s)" using True by (simp add: type_in_now [OF assms(1)] logical_type_in)
  moreover obtain st' where "calc_tristate rec s st = Some (tristate_of (tab_of st0) (meaning st0 f) (modules_val st0) (syms st0 s), st')"
    "stage st0 U f P s st st'" "has_flag st' s SYMBOL_WRITE = (has_flag st s SYMBOL_WRITE \<or> s_visible (syms st s) \<noteq> No \<or> s_rev_tri (syms st s) \<noteq> No
        \<or> first_of (tab_of st0) (meaning st0 f) P_DEFAULT (s_prop (syms st0 s)) \<noteq> None)"
    using calc_tristate_ok [OF assms(1-5)] by blast
  ultimately show ?thesis using True
    by (auto simp: nv value_of_def clamp_logical wanted_def write_of_def assms(4,5) split: option.splits)
next
  case False
  then have t: "is_textual (s_type (syms st0 s))" using assms(6) by blast
  then have nv: "nv = empty_value" using assms(7) by simp
  have "\<not> is_logical (sym_get_type st s)" using False by (simp add: type_in_now [OF assms(1)] logical_type_in)
  moreover obtain st' where "calc_string rec s st = Some (string_of (tab_of st0) (meaning st0 f) (modules_val st0) (syms st0 s), st')"
    "stage st0 U f P s st st'" "has_flag st' s SYMBOL_WRITE = (has_flag st s SYMBOL_WRITE \<or> s_visible (syms st s) \<noteq> No
        \<or> (\<exists>p vis d. first_of (tab_of st0) (meaning st0 f) P_DEFAULT (s_prop (syms st0 s)) = Some (p, vis) \<and> prop_get_symbol p = Some d))"
    using calc_string_ok [OF assms(1-4)] by blast
  ultimately show ?thesis using False t
    by (auto simp: nv value_of_def wanted_def write_of_def assms(4) split: option.splits)
qed

text \<open>Up to the value, and then to the end.\<close>

lemma calc_step_value:
  assumes "ready st0 U f P st" "s \<in> P" "\<And>r. r \<in> set (read_symbols (syms st0 s)) \<Longrightarrow> below U f n P r"
    "is_logical (s_type (syms st0 s)) \<or> is_textual (s_type (syms st0 s))"
  shows "\<exists>st'. calc_step rec s st = Some (finish s (s_curr (syms st s), s_chosen (syms st s)) st')
    \<and> ready st0 U f P st' \<and> along (wanted st0 f) s st st' \<and> settled st0 f s (syms st' s)
    \<and> (has_flag st' s SYMBOL_WRITE \<and> SYMBOL_AUTO \<notin> s_flags (syms st0 s) \<longleftrightarrow> wanted st0 f s)"
proof -
  let ?k = "syms st0 s"
  have m: "meaning st0 f s = value_of (tab_of st0) (meaning st0 f) (modules_val st0) ?k"
    by (rule meaning_solves [of st0 U]) (use assms(1,2) in \<open>auto simp: ready_def\<close>)
  note ty = ready_fields(3) [OF assms(1), of s] and nm = ready_fields(7) [OF assms(1), of s]
    let ?V = "visible_of (tab_of st0) (meaning st0 f) (modules_val st0) ?k"
      and ?R = "rev_of (tab_of st0) (meaning st0 f) (modules_val st0) ?k"
    define nv where "nv = (if is_textual (s_type ?k) then empty_value else no_value)"
    define st1 where "st1 = clear_flag SYMBOL_WRITE s st"
    have 1: "ready st0 U f P st1" "along (wanted st0 f) s st st1" unfolding st1_def by (rule ready_set_flag(2) [OF assms(1,2)], rule along_flag(2))
    obtain st2 where 2: "sym_calc_visibility rec s st1 = Some st2" "ready st0 U f P st2" "along (wanted st0 f) s st1 st2"
      "s_visible (syms st2 s) = ?V" "s_rev_tri (syms st2 s) = ?R" "has_flag st2 s SYMBOL_WRITE = has_flag st1 s SYMBOL_WRITE"
      using visibility_ok [OF 1(1) assms(2,3)] by blast
    define st3 where "st3 = upd s (set_curr nv) st2"
    have 3: "stage st0 U f P s st2 st3" unfolding st3_def by (rule stage_upd(1) [OF 2(2) assms(2)])
    have w3: "\<not> has_flag st3 s SYMBOL_WRITE" using 2(6) by (simp add: st3_def st1_def has_flag_def set_curr_def clear_flag_def)
    have w: "s_visible (syms st3 s) = ?V" "s_rev_tri (syms st3 s) = ?R" using 3 2(4,5) by (simp_all add: stage_def same_vis_def)
    obtain v st4 where 4: "(if is_logical (sym_get_type st3 s)
           then do { (t, st) \<leftarrow> calc_tristate rec s st3; Some (nv\<lparr>tri := t\<rparr>, st) }
           else do { (x, st) \<leftarrow> calc_string rec s st3; Some (nv\<lparr>val := x\<rparr>, st) }) = Some (v, st4)"
      "stage st0 U f P s st3 st4" "v\<lparr>val := clamp_of (tab_of st0) (meaning st0 f) ?k (val v)\<rparr> = meaning st0 f s"
      "has_flag st4 s SYMBOL_WRITE \<and> SYMBOL_AUTO \<notin> s_flags ?k \<longleftrightarrow> wanted st0 f s"
      using newval_ok [OF stage_ready [OF 3] assms(2,3) w assms(4) nv_def] m w3 by auto
    define st5 where "st5 = upd s (set_curr v) st4"
    have 5: "stage st0 U f P s st4 st5" unfolding st5_def by (rule stage_upd(1) [OF stage_ready [OF 4(2)] assms(2)])
    have v5: "s_curr (syms st5 s) = v" by (simp add: st5_def set_curr_def)
    obtain st6 where 6: "sym_validate_range rec s st5 = Some st6" "stage st0 U f P s st5 st6" "s_curr (syms st6 s) = meaning st0 f s"
      "has_flag st6 s SYMBOL_WRITE = has_flag st5 s SYMBOL_WRITE"
      using validate_range_ok [OF stage_ready [OF 5] assms(2,3)] v5 4(3) by auto
    let ?old = "(s_curr (syms st s), s_chosen (syms st s))"
    have n: "\<not> (\<not> is_logical (s_type ?k) \<and> \<not> is_textual (s_type ?k))" using assms(4) by blast
    have "calc_step rec s st = Some (finish s ?old st6)"
      by (simp only: calc_step_def Let_def ty if_not_P [OF n] nv_def [symmetric] if_not_P [OF ready_fields(10) [OF assms(1)]]
          st1_def [symmetric] 2(1) bind.bind_lunit st3_def [symmetric] 4(1) prod.case st5_def [symmetric]
          ready_fields(9) [OF stage_ready [OF 5]] simp_thms if_False 6(1) finish_def)
    moreover have 36: "stage st0 U f P s st2 st6"
      by (rule stage_trans [OF stage_trans [OF stage_trans [OF 3 4(2)] 5] 6(2)])
    moreover have "along (wanted st0 f) s st st6" by (rule along_trans [OF along_trans [OF 1(2) 2(3)]]) (use 36 in \<open>simp add: stage_def\<close>)
    moreover have "settled st0 f s (syms st6 s)" using 36 2(4,5) 6(3) by (simp add: settled_def stage_def same_vis_def)
    moreover have "has_flag st6 s SYMBOL_WRITE = has_flag st4 s SYMBOL_WRITE" using 6(4) by (simp add: st5_def has_flag_def set_curr_def)
    ultimately show ?thesis using 4(4) by (auto simp: stage_def)
qed

lemma calc_step_ok:
  assumes "ready st0 U f P st" "s \<in> P" "\<And>r. r \<in> set (read_symbols (syms st0 s)) \<Longrightarrow> below U f n P r" "modules_sym st0 \<noteq> Some s"
  shows "\<exists>st'. calc_step rec s st = Some st' \<and> ready st0 U f P st' \<and> along (wanted st0 f) s st st' \<and> settled st0 f s (syms st' s)
    \<and> marked (wanted st0 f) s (syms st' s)"
proof (cases "is_logical (s_type (syms st0 s)) \<or> is_textual (s_type (syms st0 s))")
  case False
  let ?k = "syms st0 s" and ?v = "\<lparr>val = (case s_name (syms st0 s) of None \<Rightarrow> [] | Some n \<Rightarrow> n), tri = No\<rparr>"
  have m: "meaning st0 f s = value_of (tab_of st0) (meaning st0 f) (modules_val st0) ?k"
    by (rule meaning_solves [of st0 U]) (use assms(1,2) in \<open>auto simp: ready_def\<close>)
  note ty = ready_fields(3) [OF assms(1), of s] and nm = ready_fields(7) [OF assms(1), of s]
  have "calc_step rec s st = Some (upd s (set_curr ?v) st)" using False by (simp add: calc_step_def ty nm Let_def)
  moreover have "settled st0 f s (syms (upd s (set_curr ?v) st) s)" using False ty by (simp add: settled_def m value_of_def set_curr_def)
  moreover have "marked (wanted st0 f) s (syms (upd s (set_curr ?v) st) s)" using False ty by (simp add: marked_def set_curr_def)
  ultimately show ?thesis using ready_upd [OF assms(1,2) loose_updates(3)] along_upd by blast
next
  case True
  obtain st1 where 1: "calc_step rec s st = Some (finish s (s_curr (syms st s), s_chosen (syms st s)) st1)"
    "ready st0 U f P st1" "along (wanted st0 f) s st st1" "settled st0 f s (syms st1 s)"
    "has_flag st1 s SYMBOL_WRITE \<and> SYMBOL_AUTO \<notin> s_flags (syms st0 s) \<longleftrightarrow> wanted st0 f s"
    using calc_step_value [OF assms(1,2,3) True] by blast
  have "modules_sym st1 \<noteq> Some s" using 1(2) assms(4) by (simp add: ready_def same_static_def)
  note f = finish_ok [OF 1(2) assms(2) this, of "(s_curr (syms st s), s_chosen (syms st s))"]
  have "along (wanted st0 f) s st (finish s (s_curr (syms st s), s_chosen (syms st s)) st1)"
    by (rule along_trans [OF 1(3)]) (use f(1) in \<open>simp add: stage_def\<close>)
  moreover have "settled st0 f s (syms (finish s (s_curr (syms st s), s_chosen (syms st s)) st1) s)"
    using 1(4) f ready_fields(3) [OF 1(2), of s] ready_fields(3) [OF stage_ready [OF f(1)], of s] by (simp add: settled_def stage_def same_vis_def)
  moreover have "marked (wanted st0 f) s (syms (finish s (s_curr (syms st s), s_chosen (syms st s)) st1) s)"
    using f(3) 1(5) by (simp add: marked_def has_flag_def)
  ultimately show ?thesis using 1(1) stage_ready [OF f(1)] by blast
qed

end

text \<open>Entering a symbol: the modules symbol is done, or it is the one that is entered.\<close>

lemma enter_valid: "valid (set_flag SYMBOL_VALID s st) t \<longleftrightarrow> valid st t \<or> t = s"
  by (simp add: valid_def has_flag_def set_flag_def)

lemma enter_same_static: "same_static st0 st \<Longrightarrow> same_static st0 (set_flag SYMBOL_VALID s st)"
proof -
  assume a: "same_static st0 st"
  have "insert SYMBOL_VALID A - {SYMBOL_VALID, SYMBOL_WRITE, SYMBOL_CHANGED} = A - {SYMBOL_VALID, SYMBOL_WRITE, SYMBOL_CHANGED}" for A by auto
  then have "static (syms (set_flag SYMBOL_VALID s st) t) = static (syms st t)" for t by (simp add: set_flag_def static_def)
  then show ?thesis using a by (simp add: same_static_def set_flag_def)
qed

lemma enter_ready:
  assumes "ready st0 U f P st" "below U f n P s" "\<not> valid st s"
  shows "ready st0 U f (insert s P) (set_flag SYMBOL_VALID s st)"
proof -
  let ?st = "set_flag SYMBOL_VALID s st"
  have o: "syms ?st t = syms st t" if "t \<noteq> s" for t using that by (simp add: set_flag_def)
  have s: "\<not> valid st0 s" using assms(1,3) by (auto simp: ready_def valid_def has_flag_def)
  have "same_static st0 ?st" using assms(1) enter_same_static by (simp add: ready_def)
  moreover have "syms ?st t = syms st0 t" if "valid st0 t" for t using assms(1) s that o [of t] by (auto simp: ready_def)
  moreover have "settled st0 f t (syms ?st t)" if "valid ?st t" "\<not> valid st0 t" "t \<notin> insert s P" for t
    using assms(1) that enter_valid o [of t] by (simp add: ready_def)
  moreover have "p \<in> U \<and> valid ?st p \<and> \<not> valid st0 p" if "p \<in> insert s P" for p
    using assms(1,2) s enter_valid that by (auto simp: ready_def below_def)
  moreover have "rankable st0 U f" using assms(1) by (simp add: ready_def)
  moreover have "modules_done ?st" using assms(1) enter_valid by (auto simp: ready_def modules_done_def set_flag_def)
  moreover have "valid st0 t \<or> t \<in> U" if "valid ?st t" for t using assms(1,2) enter_valid that by (auto simp: ready_def below_def)
  ultimately show ?thesis unfolding ready_def by blast
qed

lemma enter_modules:
  assumes "rankable st U f" "s \<in> U" "\<not> valid st s" "modules_sym st = Some s"
  shows "ready st U f {s} (set_flag SYMBOL_VALID s st)"
proof -
  let ?st = "set_flag SYMBOL_VALID s st"
  have "same_static st ?st" by (rule enter_same_static) (simp add: same_static_def)
  moreover have "syms ?st t = syms st t" if "t \<noteq> s" for t using that by (simp add: set_flag_def)
  moreover have "modules_done ?st" using assms(4) enter_valid by (simp add: modules_done_def set_flag_def)
  moreover have "t \<noteq> s" if "valid st t" for t using that assms(3) by blast
  ultimately show ?thesis using assms(1-3) by (auto simp: ready_def enter_valid)
qed

lemma leave_ready:
  assumes "ready st0 U f (insert s P) st" "settled st0 f s (syms st s)"
  shows "ready st0 U f P st"
  using assms by (auto simp: ready_def)

lemma reads_below:
  assumes "ready st0 U f P st" "below U f (Suc n) P s" "r \<in> set (read_symbols (syms st0 s))"
  shows "below U f n (insert s P) r"
proof -
  have "r \<in> U" "f r < f s" using assms by (auto simp: ready_def rankable_def below_def)
  then show ?thesis using assms(2) by (auto simp: below_def)
qed

lemma calc_value_rec:
  "ready st0 U f P st \<Longrightarrow> below U f n P s \<Longrightarrow> \<exists>st'. sym_calc_value n s st = Some st' \<and> ready st0 U f P st' \<and> keeps (wanted st0 f) st st' \<and> valid st' s"
proof (induction n arbitrary: st0 U f P s st)
  case (Suc n)
  have e: "evaluator (sym_calc_value n) n" by (rule evaluator.intro) (rule Suc(1))
  show ?case
  proof (cases "valid st s")
    case True
    then show ?thesis using Suc(2) by (simp add: valid_def keeps_refl)
  next
    case False
    let ?st = "set_flag SYMBOL_VALID s st"
    note r = enter_ready [OF Suc(2,3) False]
    have ms: "modules_sym st0 \<noteq> Some s" using Suc(2) False by (auto simp: ready_def modules_done_def same_static_def)
    obtain st' where st': "calc_step (sym_calc_value n) s ?st = Some st'" "ready st0 U f (insert s P) st'" "along (wanted st0 f) s ?st st'" "settled st0 f s (syms st' s)"
      "marked (wanted st0 f) s (syms st' s)"
      using evaluator.calc_step_ok [OF e r insertI1 reads_below [OF Suc(2,3)] ms] by blast
    have "keeps (wanted st0 f) st st'" unfolding keeps_def
    proof (intro conjI allI impI)
      fix t assume t: "valid st t"
      with False have "t \<noteq> s" by blast
      then show "syms st' t = syms st t" using st'(3) t by (simp add: along_def valid_def has_flag_def set_flag_def)
    next
      fix t assume t: "valid st' t \<and> \<not> valid st t"
      show "marked (wanted st0 f) t (syms st' t)"
      proof (cases "t = s")
        case True
        then show ?thesis using st'(5) by simp
      next
        case False
        then show ?thesis using st'(3) t by (simp add: along_def enter_valid)
      qed
    qed
    moreover have "valid st' s" using st'(2) by (simp add: ready_def)
    ultimately show ?thesis using st'(1) leave_ready [OF st'(2,4)] False by (simp add: valid_def)
  qed
qed (simp add: below_def)

interpretation sym_calc_value_eval: evaluator "sym_calc_value n" n for n
  by unfold_locales (rule calc_value_rec)

lemma ready_start: "rankable st U f \<Longrightarrow> modules_done st \<Longrightarrow> ready st U f {} st"
  by (simp add: ready_def same_static_def)

text \<open>
  Claim C7. Evaluating a symbol: with a depth above its rank \<^verbatim>\<open>sym_calc_value\<close> returns, the value it leaves in the symbol is its
  meaning (the solution of the equations), every symbol evaluated on the way has its meaning, visibility and reverse
  dependency too, what was evaluated before is untouched, a symbol with a type that is evaluated now is marked for saving exactly
  if it is to be saved (\<open>wanted\<close>), and nothing but values, visibilities and the flags of the evaluation changes.
\<close>

theorem sym_calc_value_correct:
  assumes "rankable st U f" "modules_done st" "s \<in> U" "f s < n"
  shows "\<exists>st'. sym_calc_value n s st = Some st' \<and> valid st' s \<and> s_curr (syms st' s) = meaning st f s
    \<and> (\<forall>t. valid st' t \<and> \<not> valid st t \<longrightarrow> settled st f t (syms st' t)) \<and> keeps (wanted st f) st st' \<and> same_static st st'"
proof -
  have "below U f n {} s" using assms(3,4) by (simp add: below_def)
  then obtain st' where st': "sym_calc_value n s st = Some st'" "ready st U f {} st'" "keeps (wanted st f) st st'" "valid st' s"
    using sym_calc_value_eval.rec_ok [OF ready_start [OF assms(1,2)]] by blast
  moreover have "s_curr (syms st' s) = meaning st f s" using ready_value [OF st'(2,4)] by simp
  ultimately show ?thesis by (simp add: ready_def)
qed

text \<open>A tristate symbol that the user has set to \<^verbatim>\<open>m\<close>, and a boolean one whose default is \<^verbatim>\<open>y\<close> if the first is not \<^verbatim>\<open>n\<close>.\<close>

definition demo_pair :: ktab where
  "demo_pair = upd (Sym 1) (\<lambda>k. k\<lparr>s_type := S_BOOLEAN,
       s_prop := [\<lparr>p_type = P_DEFAULT, p_text = None, p_visible = Some (E_SYMBOL (Sym 0)), p_expr = Dep (E_SYMBOL symbol_yes), p_menu = None, p_file = False\<rparr>]\<rparr>)
     (upd (Sym 0) (\<lambda>k. k\<lparr>s_type := S_TRISTATE, s_flags := {SYMBOL_DEF_USER}, s_user := \<lparr>u_val = None, u_chosen = None, u_tri = Mod\<rparr>,
       s_prop := [\<lparr>p_type = P_PROMPT, p_text = Some ''prompt'', p_visible = None, p_expr = No_Expr, p_menu = None, p_file = False\<rparr>]\<rparr>)
     (init_ktab\<lparr>next_sym := 2\<rparr>))"

definition demo_rank :: "symbol \<Rightarrow> nat" where
  "demo_rank s = (if s = Sym 1 then 1 else 0)"

lemmas demo_pair_defs = demo_pair_def init_ktab_def new_ksym_def no_user_def const_ksym_def

lemma demo_pair_rankable: "rankable demo_pair {Sym 0, Sym 1, symbol_yes} demo_rank"
  by (simp add: rankable_def plain_def demo_pair_defs demo_rank_def read_symbols_def dep_symbols_def prop_symbols_def opt_symbols_def
      range_symbols_def wf_prop_def dep_of_def split: symbol.split)

lemma demo_pair_modules: "modules_done demo_pair"
  by (simp add: modules_done_def demo_pair_defs)

lemma demo_pair_meaning: "tri (meaning demo_pair demo_rank (Sym 1)) = Yes"
  by (simp add: meaning_def demo_rank_def valid_def has_flag_def demo_pair_defs value_of_def tristate_of_def visible_of_def rev_of_def
      default_of_def round_up_def type_in_def is_logical_def is_textual_def dep_of_def expr_calc_value_def empty_value_def no_value_def Let_def
      tab_of_def)

theorem sym_calc_value_correct_witness:
  "\<exists>st. sym_calc_value 2 (Sym 1) demo_pair = Some st \<and> tri (s_curr (syms st (Sym 1))) = Yes"
  using sym_calc_value_correct [OF demo_pair_rankable demo_pair_modules, of "Sym 1" 2] demo_pair_meaning by (auto simp: demo_rank_def)

end
