(* ===== verification/KCalcSet.thy ===== *)
theory KCalcSet
  imports KCalcEval
begin

text \<open>
  A consequence for the users of \<^verbatim>\<open>sym_calc_value\<close>: the values do not depend on the order in which symbols are asked for.
\<close>

section \<open>The order of evaluation\<close>

text \<open>The loops of \<^verbatim>\<open>conf_read\<close> and \<^verbatim>\<open>conf_write\<close> over the symbols, as far as they evaluate them.\<close>

primrec calc_each :: "nat \<Rightarrow> symbol list \<Rightarrow> ktab \<Rightarrow> ktab option" where
  "calc_each n [] st = Some st"
| "calc_each n (s # ss) st = do { st \<leftarrow> sym_calc_value n s st; calc_each n ss st }"

lemma calc_each_ready:
  assumes "ready st0 U f {} st" "set ss \<subseteq> U" "\<And>s. s \<in> set ss \<Longrightarrow> f s < n"
  shows "\<exists>st'. calc_each n ss st = Some st' \<and> ready st0 U f {} st' \<and> keeps (wanted st0 f) st st' \<and> (\<forall>s \<in> set ss. valid st' s)"
  using assms
proof (induction ss arbitrary: st)
  case (Cons s ss)
  have "below U f n {} s" using Cons(3,4) by (simp add: below_def)
  then obtain st1 where 1: "sym_calc_value n s st = Some st1" "ready st0 U f {} st1" "keeps (wanted st0 f) st st1" "valid st1 s"
    using sym_calc_value_eval.rec_ok [OF Cons(2)] by blast
  obtain st2 where 2: "calc_each n ss st1 = Some st2" "keeps (wanted st0 f) st1 st2" "ready st0 U f {} st2" "\<forall>t \<in> set ss. valid st2 t"
    using Cons(1) [OF 1(2)] Cons(3,4) by auto
  have "valid st2 s" by (rule keeps_valid [OF 2(2) 1(4)])
  then show ?case using 1(1) 2 keeps_trans [OF 1(3) 2(2)] by simp
qed (simp add: keeps_refl)

text \<open>
  The values of the symbols do not depend on the order of evaluation: two runs over lists of symbols both
  return, and leave the same value, visibility and reverse dependency in every symbol that both have asked for.
\<close>

theorem sym_calc_order_irrelevant:
  assumes "rankable st U f" "modules_done st" "set xs \<subseteq> U" "set ys \<subseteq> U" "\<And>s. s \<in> U \<Longrightarrow> f s < n"
  shows "\<exists>a b. calc_each n xs st = Some a \<and> calc_each n ys st = Some b \<and> (\<forall>s \<in> set xs \<inter> set ys.
    s_curr (syms a s) = s_curr (syms b s) \<and> (is_logical (s_type (syms st s)) \<or> is_textual (s_type (syms st s)) \<longrightarrow>
      s_visible (syms a s) = s_visible (syms b s) \<and> s_rev_tri (syms a s) = s_rev_tri (syms b s)))"
proof -
  note r = ready_start [OF assms(1,2)]
  obtain a where a: "calc_each n xs st = Some a" "ready st U f {} a" "\<forall>s \<in> set xs. valid a s"
    using calc_each_ready [OF r assms(3)] assms(3,5) by blast
  obtain b where b: "calc_each n ys st = Some b" "ready st U f {} b" "\<forall>s \<in> set ys. valid b s"
    using calc_each_ready [OF r assms(4)] assms(4,5) by blast
  have "s_curr (syms a s) = s_curr (syms b s) \<and> (is_logical (s_type (syms st s)) \<or> is_textual (s_type (syms st s)) \<longrightarrow>
      s_visible (syms a s) = s_visible (syms b s) \<and> s_rev_tri (syms a s) = s_rev_tri (syms b s))" if s: "s \<in> set xs \<inter> set ys" for s
  proof (cases "valid st s")
    case True
    then show ?thesis using a(2) b(2) by (simp add: ready_def)
  next
    case False
    have "settled st f s (syms a s)" "settled st f s (syms b s)" using a(2,3) b(2,3) s False by (auto simp: ready_def)
    then show ?thesis using ready_fields(3) [OF a(2)] ready_fields(3) [OF b(2)] by (simp add: settled_def)
  qed
  then show ?thesis using a(1) b(1) by blast
qed

theorem sym_calc_order_irrelevant_witness:
  "\<exists>a b. calc_each 2 [Sym 0, Sym 1] demo_pair = Some a \<and> calc_each 2 [Sym 1] demo_pair = Some b \<and> s_curr (syms a (Sym 1)) = s_curr (syms b (Sym 1))"
proof -
  have "demo_rank s < 2" if "s \<in> {Sym 0, Sym 1, symbol_yes}" for s using that by (auto simp: demo_rank_def)
  from sym_calc_order_irrelevant [OF demo_pair_rankable demo_pair_modules _ _ this, of "[Sym 0, Sym 1]" "[Sym 1]"] show ?thesis by auto
qed

end
