(* ===== verification/KSession.thy ===== *)
theory KSession
  imports KCalcSet
begin

text \<open>
  The states of the configuration tool between its operations (\<open>session\<close>): all that has been evaluated has the meaning it has in a
  base table, in which only the user's values matter. \<^verbatim>\<open>sym_clear_all_valid\<close> starts a session, evaluating a symbol keeps it, and
  setting a value leads to the session of the changed table, where the symbol gets the value that was set.
\<close>

section \<open>Tables that differ in the value of the modules symbol\<close>

lemma static_flag: "static k = static k' \<Longrightarrow> SYMBOL_DEF_USER \<in> s_flags k \<longleftrightarrow> SYMBOL_DEF_USER \<in> s_flags k'"
  by (rule static_fields(6)) auto

text \<open>The equations of a symbol use its static part only.\<close>

lemma value_of_static:
  assumes "static k = static k'"
  shows "value_of T v mv k = value_of T v mv k'"
proof -
  note e = static_fields(1-5) [OF assms] static_flag [OF assms]
  show ?thesis
    unfolding value_of_def tristate_of_def string_of_def clamp_of_def visible_of_def rev_of_def default_of_def type_in_def e ..
qed

lemma read_static: "static k = static k' \<Longrightarrow> read_symbols k = read_symbols k'"
  using static_fields(4,5) [of k k'] by (simp add: read_symbols_def dep_symbols_def)

lemma non_tristate:
  assumes "s_type k \<noteq> S_TRISTATE"
  shows "visible_of T v mv k = visible_of T v mv' k" "rev_of T v mv k = rev_of T v mv' k" "value_of T v mv k = value_of T v mv' k"
  using assms by (simp_all add: value_of_def tristate_of_def string_of_def visible_of_def rev_of_def type_in_def Let_def)

lemma modules_val_fields [simp]: "tab_of (st\<lparr>modules_val := x\<rparr>) = tab_of st" "valid (st\<lparr>modules_val := x\<rparr>) t = valid st t"
  "rankable (st\<lparr>modules_val := x\<rparr>) U f = rankable st U f"
  by (simp_all add: tab_of_def valid_def has_flag_def rankable_def plain_def)

lemma approx_modules:
  assumes "rankable st U f" "\<And>t. t \<in> U \<Longrightarrow> f t \<le> c \<Longrightarrow> s_type (syms st t) \<noteq> S_TRISTATE"
  shows "t \<in> U \<Longrightarrow> f t \<le> c \<Longrightarrow> approx n (st\<lparr>modules_val := x\<rparr>) t = approx n st t"
proof (induction n arbitrary: t)
  case (Suc n)
  have "approx n (st\<lparr>modules_val := x\<rparr>) b = approx n st b" if "b \<in> set (read_symbols (syms st t))" for b
  proof -
    have "b \<in> U" "f b < f t" using assms(1) Suc(2) that by (auto simp: rankable_def)
    then show ?thesis using Suc(1) Suc(3) by simp
  qed
  moreover have "wf_prop p" if "p \<in> set (s_prop (syms st t))" for p using assms(1) Suc(2) that by (auto simp: rankable_def)
  ultimately have e: "value_of T (approx n (st\<lparr>modules_val := x\<rparr>)) mv (syms st t) = value_of T (approx n st) mv (syms st t)" for T mv
    by (rule value_of_agree(3))
  show ?case using e non_tristate(3) [OF assms(2) [OF Suc(2,3)], of "tab_of st" "approx n st" x "modules_val st"] by simp
qed simp

lemma settled_modules:
  assumes "rankable st U f" "\<And>t. t \<in> U \<Longrightarrow> f t \<le> c \<Longrightarrow> s_type (syms st t) \<noteq> S_TRISTATE" "t \<in> U" "f t \<le> c"
  shows "settled (st\<lparr>modules_val := x\<rparr>) f t k \<longleftrightarrow> settled st f t k"
proof -
  have m: "meaning (st\<lparr>modules_val := x\<rparr>) f b = meaning st f b" if "b \<in> U" "f b \<le> c" for b
    using approx_modules [OF assms(1,2) that] by (simp add: meaning_def del: approx.simps)
  have e: "meaning (st\<lparr>modules_val := x\<rparr>) f b = meaning st f b" if "b \<in> set (read_symbols (syms st t))" for b
  proof -
    have "b \<in> U" "f b < f t" using assms(1,3) that by (auto simp: rankable_def)
    then show ?thesis using m assms(4) by simp
  qed
  have w: "wf_prop p" if "p \<in> set (s_prop (syms st t))" for p using assms(1,3) that by (auto simp: rankable_def)
  have "visible_of T (meaning (st\<lparr>modules_val := x\<rparr>) f) mv (syms st t) = visible_of T (meaning st f) mv (syms st t)"
    "rev_of T (meaning (st\<lparr>modules_val := x\<rparr>) f) mv (syms st t) = rev_of T (meaning st f) mv (syms st t)" for T mv
    using value_of_agree(1,2) [OF e w] by simp_all
  then show ?thesis
    using m [OF assms(3,4)] non_tristate(1,2) [OF assms(2) [OF assms(3,4)], of "tab_of st" "meaning st f" x "modules_val st"]
    by (simp add: settled_def)
qed

lemma wanted_modules:
  assumes "rankable st U f" "\<And>t. t \<in> U \<Longrightarrow> f t \<le> c \<Longrightarrow> s_type (syms st t) \<noteq> S_TRISTATE" "t \<in> U" "f t \<le> c"
  shows "wanted (st\<lparr>modules_val := x\<rparr>) f t = wanted st f t"
proof -
  have e: "meaning (st\<lparr>modules_val := x\<rparr>) f b = meaning st f b" if "b \<in> set (read_symbols (syms st t))" for b
  proof -
    have "b \<in> U" "f b \<le> c" using assms(1,3,4) that by (fastforce simp: rankable_def)+
    then show ?thesis using approx_modules [OF assms(1,2)] by (simp add: meaning_def del: approx.simps)
  qed
  have w: "wf_prop p" if "p \<in> set (s_prop (syms st t))" for p using assms(1,3) that by (auto simp: rankable_def)
  have "s_type (syms st t) \<noteq> S_TRISTATE" by (rule assms(2) [OF assms(3,4)])
  then have "write_of T v mv (syms st t) = write_of T v mv' (syms st t)" for T v mv mv'
    using non_tristate(1,2) [of "syms st t" T v mv mv'] by (simp add: write_of_def)
  then show ?thesis using write_of_agree [OF e w] by (simp add: wanted_def)
qed

section \<open>Changes of flags\<close>

definition allocated :: "ktab \<Rightarrow> symbol \<Rightarrow> bool" where
  "allocated st t \<longleftrightarrow> (\<exists>n < next_sym st. t = Sym n) \<and> s_type (syms st t) \<noteq> S_OTHER"

lemma all_symbols_syms: "syms (all_symbols g st) t = (if allocated st t then g (syms st t) else syms st t)"
  by (auto simp: all_symbols_def allocated_def split: symbol.split)

lemma all_symbols_frame [simp]: "modules_sym (all_symbols g st) = modules_sym st" "modules_val (all_symbols g st) = modules_val st"
  "next_sym (all_symbols g st) = next_sym st" "change_count (all_symbols g st) = change_count st"
  by (simp_all add: all_symbols_def)

text \<open>Only the flags \<^verbatim>\<open>SYMBOL_WRITE\<close> and \<^verbatim>\<open>SYMBOL_CHANGED\<close> of allocated symbols differ.\<close>

definition only_flags :: "ktab \<Rightarrow> ktab \<Rightarrow> bool" where
  "only_flags st st' \<longleftrightarrow> (\<forall>t. static (syms st' t) = static (syms st t) \<and> s_curr (syms st' t) = s_curr (syms st t)
       \<and> s_visible (syms st' t) = s_visible (syms st t) \<and> s_rev_tri (syms st' t) = s_rev_tri (syms st t) \<and> valid st' t = valid st t
       \<and> (\<not> allocated st t \<longrightarrow> syms st' t = syms st t)) \<and> modules_sym st' = modules_sym st \<and> next_sym st' = next_sym st"

lemma only_flags_refl: "only_flags st st"
  by (simp add: only_flags_def)

lemma only_flags_allocated:
  assumes "only_flags st st'"
  shows "allocated st' t = allocated st t"
  using assms static_fields(2) [of "syms st' t" "syms st t"] by (simp add: only_flags_def allocated_def)

lemma only_flags_trans: "only_flags a b \<Longrightarrow> only_flags b c \<Longrightarrow> only_flags a c"
  using only_flags_allocated [of a b] by (simp add: only_flags_def)

lemma flags_static:
  assumes "A - {SYMBOL_WRITE, SYMBOL_CHANGED} = s_flags k - {SYMBOL_WRITE, SYMBOL_CHANGED}"
  shows "static (k\<lparr>s_flags := A\<rparr>) = static k" "SYMBOL_VALID \<in> A \<longleftrightarrow> SYMBOL_VALID \<in> s_flags k"
proof -
  have "x \<in> A \<longleftrightarrow> x \<in> s_flags k" if "x \<noteq> SYMBOL_WRITE" "x \<noteq> SYMBOL_CHANGED" for x
    using assms that by blast
  then have "A - {SYMBOL_VALID, SYMBOL_WRITE, SYMBOL_CHANGED} = s_flags k - {SYMBOL_VALID, SYMBOL_WRITE, SYMBOL_CHANGED}"
    "SYMBOL_VALID \<in> A \<longleftrightarrow> SYMBOL_VALID \<in> s_flags k" by auto
  then show "static (k\<lparr>s_flags := A\<rparr>) = static k" "SYMBOL_VALID \<in> A \<longleftrightarrow> SYMBOL_VALID \<in> s_flags k" by (simp_all add: static_def)
qed

lemma only_flags_set: "x \<in> {SYMBOL_WRITE, SYMBOL_CHANGED} \<Longrightarrow> allocated st s \<Longrightarrow> only_flags st (set_flag x s st)"
  "x \<in> {SYMBOL_WRITE, SYMBOL_CHANGED} \<Longrightarrow> allocated st s \<Longrightarrow> only_flags st (clear_flag x s st)"
  using flags_static [of "insert x (s_flags (syms st s))" "syms st s"] flags_static [of "s_flags (syms st s) - {x}" "syms st s"]
  by (auto simp: only_flags_def set_flag_def clear_flag_def valid_def has_flag_def)

lemma only_flags_all: "only_flags st (sym_set_all_changed st)"
  using flags_static [of "insert SYMBOL_CHANGED (s_flags (syms st t))" "syms st t" for t]
  by (auto simp: only_flags_def sym_set_all_changed_def all_symbols_syms valid_def has_flag_def)

lemma only_flags_modules: "only_flags st (st'\<lparr>modules_val := x\<rparr>) = only_flags st st'"
  by (simp add: only_flags_def valid_def has_flag_def)

section \<open>Sessions\<close>

text \<open>A table before an evaluation: the symbols in the hash table are to be evaluated, the others, like the constants, are
  inputs; the modules symbol has a truth value, and neither it nor what it reads is tristate (every tristate symbol reads
  the value of the modules symbol).\<close>

definition layerable :: "symbol set \<Rightarrow> (symbol \<Rightarrow> nat) \<Rightarrow> ktab \<Rightarrow> bool" where
  "layerable U f st \<longleftrightarrow> rankable st U f \<and> (\<forall>t \<in> U. allocated st t \<or> valid st t)
     \<and> (\<forall>m. modules_sym st = Some m \<longrightarrow> m \<in> U \<and> allocated st m \<and> is_logical (s_type (syms st m))
          \<and> (\<forall>t \<in> U. f t \<le> f m \<longrightarrow> s_type (syms st t) \<noteq> S_TRISTATE))"

definition layered :: "symbol set \<Rightarrow> (symbol \<Rightarrow> nat) \<Rightarrow> ktab \<Rightarrow> bool" where
  "layered U f st \<longleftrightarrow> layerable U f st \<and> (\<forall>t. allocated st t \<longrightarrow> \<not> valid st t)"

text \<open>The value of the modules symbol and its copy agree.\<close>

definition modules_agree :: "ktab \<Rightarrow> bool" where
  "modules_agree st \<longleftrightarrow> (\<forall>m. modules_sym st = Some m \<longrightarrow> modules_val st = tri (s_curr (syms st m)))"

definition session :: "symbol set \<Rightarrow> (symbol \<Rightarrow> nat) \<Rightarrow> ktab \<Rightarrow> ktab \<Rightarrow> bool" where
  "session U f st0 st \<longleftrightarrow> layered U f st0 \<and> ready st0 U f {} st \<and> modules_agree st"

lemma layered_modules: "layered U f (st\<lparr>modules_val := x\<rparr>) = layered U f st"
  by (simp add: layered_def layerable_def allocated_def)

text \<open>What has been evaluated is marked for saving if it is to be saved.\<close>

definition all_marked :: "ktab \<Rightarrow> (symbol \<Rightarrow> nat) \<Rightarrow> ktab \<Rightarrow> bool" where
  "all_marked st0 f st \<longleftrightarrow> (\<forall>t. valid st t \<and> \<not> valid st0 t \<longrightarrow> marked (wanted st0 f) t (syms st t))"

lemma all_marked_keeps: "all_marked st0 f st \<Longrightarrow> keeps (wanted st0 f) st st' \<Longrightarrow> all_marked st0 f st'"
  by (auto simp: all_marked_def keeps_def)

text \<open>What the end of the evaluation of the modules symbol does.\<close>

lemma finish_modules:
  assumes "ready st0 U f P st" "allocated st m" "modules_sym st = Some m"
  shows "only_flags st (finish m old st)"
    "modules_val (finish m old st) = tri (s_curr (syms st m)) \<or> modules_val (finish m old st) = modules_val st \<and> (\<not> is_textual (s_type (syms st m)) \<longrightarrow> old = (s_curr (syms st m), s_chosen (syms st m)))"
    "has_flag (finish m old st) t SYMBOL_WRITE \<longleftrightarrow> has_flag st t SYMBOL_WRITE \<and> (t = m \<longrightarrow> SYMBOL_AUTO \<notin> s_flags (syms st m))"
proof -
  let ?n = "note_change old m st"
  have w: "x \<noteq> SYMBOL_CHANGED \<Longrightarrow> has_flag ?n t x = has_flag st t x" for x t
    by (simp add: note_change_def Let_def has_flag_def sym_set_changed_def set_flag_def sym_set_all_changed_def all_symbols_syms)
  have 1: "only_flags st (sym_set_changed m st)" using assms(2) by (simp add: sym_set_changed_def only_flags_set)
  have n: "only_flags st ?n"
    using 1 only_flags_trans [OF 1 only_flags_all] assms(3)
    by (simp add: note_change_def Let_def only_flags_refl only_flags_modules sym_set_changed_def set_flag_def)
  have c: "\<not> sym_is_choice ?n m"
  proof -
    have k: "static (syms ?n m) = static (syms st m)" using n by (simp add: only_flags_def)
    have "SYMBOL_CHOICE \<in> s_flags (syms ?n m) \<longleftrightarrow> SYMBOL_CHOICE \<in> s_flags (syms st m)" by (rule static_fields(6) [OF k]) auto
    then show ?thesis using ready_fields(9) [OF assms(1), of m] by (simp add: sym_is_choice_def has_flag_def)
  qed
  then have f: "finish m old st = (if has_flag ?n m SYMBOL_AUTO then clear_flag SYMBOL_WRITE m ?n else ?n)"
    by (simp add: finish_def share_flags_def Let_def)
  show "has_flag (finish m old st) t SYMBOL_WRITE \<longleftrightarrow> has_flag st t SYMBOL_WRITE \<and> (t = m \<longrightarrow> SYMBOL_AUTO \<notin> s_flags (syms st m))"
    unfolding f using w [of SYMBOL_WRITE] w [of SYMBOL_AUTO m] by (auto simp: clear_flag_def has_flag_def)
  show "only_flags st (finish m old st)"
    unfolding f using n only_flags_trans [OF n only_flags_set(2)] only_flags_allocated [OF n] assms(2) by simp
  show "modules_val (finish m old st) = tri (s_curr (syms st m)) \<or> modules_val (finish m old st) = modules_val st \<and> (\<not> is_textual (s_type (syms st m)) \<longrightarrow> old = (s_curr (syms st m), s_chosen (syms st m)))"
    unfolding f using assms(3) by (simp add: note_change_def value_changed_def Let_def clear_flag_def sym_set_changed_def set_flag_def sym_set_all_changed_def all_symbols_def)
qed

text \<open>A state that differs from an evaluated one in flags and in the copy of the modules value.\<close>

lemma ready_modules:
  assumes "ready st0 U0 f {} st" "rankable st0 U f" "U0 \<subseteq> U" "\<And>t. t \<in> U0 \<Longrightarrow> f t \<le> c"
    "\<And>t. t \<in> U \<Longrightarrow> f t \<le> c \<Longrightarrow> s_type (syms st0 t) \<noteq> S_TRISTATE" "\<And>t. valid st0 t \<Longrightarrow> \<not> allocated st0 t"
    "only_flags st st'"
  shows "ready (st0\<lparr>modules_val := modules_val st'\<rparr>) U f {} st'"
proof -
  note o = assms(7) [unfolded only_flags_def]
  have sst: "same_static st0 st" using assms(1) by (simp add: ready_def)
  then have al: "allocated st t = allocated st0 t" for t
    using static_fields(2) [of "syms st t" "syms st0 t"] by (simp add: same_static_def allocated_def)
  have "same_static (st0\<lparr>modules_val := modules_val st'\<rparr>) st'" using sst o by (simp add: same_static_def)
  moreover have "modules_done st'" using assms(1) o by (simp add: ready_def modules_done_def)
  moreover have "valid st0 t \<or> t \<in> U" if "valid st' t" for t using assms(1,3) o that by (auto simp: ready_def)
  moreover have "syms st' t = syms st0 t" if "valid st0 t" for t using assms(1,6) o that al by (simp add: ready_def)
  moreover have "settled (st0\<lparr>modules_val := modules_val st'\<rparr>) f t (syms st' t)" if "valid st' t" "\<not> valid st0 t" for t
  proof -
    have v: "valid st t" using o that by simp
    then have t: "t \<in> U0" using assms(1) that(2) by (auto simp: ready_def)
    have "settled st0 f t (syms st t)" using assms(1) v that(2) by (simp add: ready_def)
    then have "settled st0 f t (syms st' t)"
      using o static_fields(2) [of "syms st' t" "syms st t"] by (simp add: settled_def)
    then show ?thesis using settled_modules [OF assms(2,5) _ assms(4) [OF t]] assms(3) t by blast
  qed
  ultimately show ?thesis using assms(2) by (simp add: ready_def)
qed

lemma start_session:
  assumes "layered U f st" "modules_agree st" "modules_sym st = Some m" "f m < n"
  shows "\<exists>st1. sym_calc_value n m st = Some st1 \<and> session U f (st\<lparr>modules_val := modules_val st1\<rparr>) st1 \<and> modules_val st1 = tri (meaning st f m)
    \<and> all_marked (st\<lparr>modules_val := modules_val st1\<rparr>) f st1"
proof -
  have m: "m \<in> U" "allocated st m" "is_logical (s_type (syms st m))" "\<not> valid st m"
    "\<And>t. t \<in> U \<Longrightarrow> f t \<le> f m \<Longrightarrow> s_type (syms st t) \<noteq> S_TRISTATE" and r: "rankable st U f"
    using assms(1,3) by (auto simp: layered_def layerable_def)
  obtain n' where n: "n = Suc n'" using assms(4) by (cases n) auto
  define U0 where "U0 = {t \<in> U. f t \<le> f m}"
  have r0: "rankable st U0 f" using r by (fastforce simp: rankable_def U0_def)
  have m0: "m \<in> U0" using m(1) by (simp add: U0_def)
  let ?st = "set_flag SYMBOL_VALID m st"
  note e = enter_modules [OF r0 m0 m(4) assms(3)]
  have b: "below U0 f n' {m} t" if "t \<in> set (read_symbols (syms st m))" for t
  proof -
    have "t \<in> U0" "f t < f m" using r0 m0 that by (auto simp: rankable_def)
    then show ?thesis using assms(4) n by (simp add: below_def)
  qed
  let ?old = "(s_curr (syms ?st m), s_chosen (syms ?st m))"
  obtain st2 where 2: "calc_step (sym_calc_value n') m ?st = Some (finish m ?old st2)" "ready st U0 f {m} st2" "settled st f m (syms st2 m)"
      "along (wanted st f) m ?st st2" "has_flag st2 m SYMBOL_WRITE \<and> SYMBOL_AUTO \<notin> s_flags (syms st m) \<longleftrightarrow> wanted st f m"
    using sym_calc_value_eval.calc_step_value [OF e insertI1 b] m(3) by blast
  have mm: "modules_sym st2 = Some m" and mv: "modules_val st2 = modules_val st"
    using 2(2) assms(3) by (simp_all add: ready_def same_static_def)
  have al: "allocated st2 m"
    using m(2) ready_fields(3) [OF 2(2), of m] 2(2) by (simp add: allocated_def ready_def same_static_def)
  note fin = finish_modules [OF 2(2) al mm, of ?old]
  have r2: "ready st U0 f {} st2" by (rule leave_ready [OF _ 2(3)]) (use 2(2) in simp)
  let ?f = "finish m ?old st2"
  have "\<And>t. valid st t \<Longrightarrow> \<not> allocated st t" using assms(1) by (auto simp: layered_def)
  then have rf: "ready (st\<lparr>modules_val := modules_val ?f\<rparr>) U f {} ?f"
    by (intro ready_modules [OF r2 r _ _ m(5) _ fin(1)]) (auto simp: U0_def)
  have ty: "\<not> is_textual (s_type (syms st2 m))" using ready_fields(3) [OF 2(2), of m] m(3) textual_not_logical by auto
  have cm: "s_curr (syms st2 m) = meaning st f m" using 2(3) by (simp add: settled_def)
  have "modules_val ?f = tri (meaning st f m)"
    using fin(2) assms(2,3) mv cm ty by (auto simp: modules_agree_def)
  moreover have "modules_sym ?f = Some m" "s_curr (syms ?f m) = meaning st f m" using fin(1) mm cm by (simp_all add: only_flags_def)
  ultimately have ag: "modules_agree ?f" "modules_val ?f = tri (meaning st f m)" by (simp_all add: modules_agree_def)
  let ?b = "st\<lparr>modules_val := modules_val ?f\<rparr>"
  have k: "static (syms st2 m) = static (syms st m)" using 2(2) by (simp add: ready_def same_static_def)
  have au: "SYMBOL_AUTO \<in> s_flags (syms st2 m) \<longleftrightarrow> SYMBOL_AUTO \<in> s_flags (syms st m)" by (rule static_fields(6) [OF k]) auto
  have "marked (wanted ?b f) t (syms ?f t)" if t: "valid ?f t" "\<not> valid st t" for t
  proof -
    have "valid st2 t" using fin(1) t(1) by (simp add: only_flags_def)
    then have t0: "t \<in> U0" using r2 t(2) by (auto simp: ready_def)
    have "static (syms ?f t) = static (syms st2 t)" using fin(1) by (simp add: only_flags_def)
    from static_fields(2) [OF this] have ty: "s_type (syms ?f t) = s_type (syms st2 t)" .
    have "marked (wanted st f) t (syms ?f t)"
    proof (cases "t = m")
      case True
      then show ?thesis using fin(3) [of m] 2(5) au by (simp add: marked_def has_flag_def)
    next
      case False
      then have "marked (wanted st f) t (syms st2 t)" using 2(4) \<open>valid st2 t\<close> t(2) by (simp add: along_def enter_valid)
      then show ?thesis using False fin(3) [of t] ty by (simp add: marked_def has_flag_def)
    qed
    moreover have "wanted ?b f t = wanted st f t" by (rule wanted_modules [OF r m(5)]) (use t0 in \<open>auto simp: U0_def\<close>)
    ultimately show ?thesis by (simp add: marked_def)
  qed
  then have "all_marked ?b f ?f" by (simp add: all_marked_def)
  with ag have "modules_agree ?f" "modules_val ?f = tri (meaning st f m)" "all_marked ?b f ?f" by simp_all
  moreover have "sym_calc_value n m st = Some ?f" using m(4) 2(1) by (simp add: n valid_def)
  ultimately show ?thesis using rf assms(1) by (simp add: session_def layered_modules)
qed

text \<open>Evaluating keeps the session.\<close>

lemma session_calc:
  assumes "session U f st0 st" "s \<in> U" "f s < n"
  shows "\<exists>st'. sym_calc_value n s st = Some st' \<and> session U f st0 st' \<and> keeps (wanted st0 f) st st' \<and> valid st' s"
proof -
  have "below U f n {} s" using assms(2,3) by (simp add: below_def)
  then obtain st' where st': "sym_calc_value n s st = Some st'" "ready st0 U f {} st'" "keeps (wanted st0 f) st st'" "valid st' s"
    using sym_calc_value_eval.rec_ok assms(1) unfolding session_def by blast
  have r: "ready st0 U f {} st" and a: "modules_agree st" using assms(1) by (simp_all add: session_def)
  have "modules_agree st'"
    using a st'(2,3) r by (auto simp: modules_agree_def ready_def same_static_def modules_done_def keeps_def)
  then show ?thesis using st' assms(1) by (auto simp: session_def)
qed

section \<open>Another value of the user\<close>

text \<open>A table that differs from another in what the user has set for the symbol \<open>s\<close>, and in what has been evaluated.\<close>

definition reset :: "symbol \<Rightarrow> symbol set \<Rightarrow> ktab \<Rightarrow> ktab \<Rightarrow> bool" where
  "reset s U st st' \<longleftrightarrow> (\<forall>t. t \<noteq> s \<longrightarrow> static (syms st' t) = static (syms st t)) \<and> (\<forall>t \<in> U. valid st' t = valid st t)
     \<and> (\<forall>t. valid st t \<and> t \<in> U \<longrightarrow> syms st' t = syms st t) \<and> tab_of st' = tab_of st
     \<and> s_prop (syms st' s) = s_prop (syms st s) \<and> s_rev_expr (syms st' s) = s_rev_expr (syms st s)
     \<and> modules_val st' = modules_val st \<and> plain st'"

lemma reset_reads: "reset s U st st' \<Longrightarrow> read_symbols (syms st' t) = read_symbols (syms st t)"
  using read_static [of "syms st' t" "syms st t"] by (cases "t = s") (simp_all add: reset_def, simp add: read_symbols_def dep_symbols_def)

lemma reset_rankable:
  assumes "reset s U st st'" "rankable st U f"
  shows "rankable st' U f"
proof -
  have "s_prop (syms st' t) = s_prop (syms st t)" for t
    using assms(1) static_fields(4) [of "syms st' t" "syms st t"] by (cases "t = s") (auto simp: reset_def)
  then show ?thesis using assms reset_reads [OF assms(1)] by (simp add: rankable_def reset_def)
qed

lemma reset_below:
  assumes "reset s U st st'" "rankable st U f"
  shows "t \<in> U \<Longrightarrow> f t < f s \<Longrightarrow> f t < n \<Longrightarrow> approx n st' t = approx n st t"
proof (induction n arbitrary: t)
  case (Suc n)
  show ?case
  proof (cases "valid st t")
    case True
    then show ?thesis using assms(1) Suc(2) by (simp add: reset_def)
  next
    case False
    have v: "\<not> valid st' t" using False assms(1) Suc(2) by (simp add: reset_def)
    have "t \<noteq> s" using Suc(3) by blast
    then have k: "static (syms st' t) = static (syms st t)" using assms(1) by (simp add: reset_def)
    have "approx n st' b = approx n st b" if "b \<in> set (read_symbols (syms st t))" for b
    proof -
      have "b \<in> U" "f b < f t" using assms(2) Suc(2) that by (auto simp: rankable_def)
      then show ?thesis using Suc by simp
    qed
    moreover have "wf_prop p" if "p \<in> set (s_prop (syms st t))" for p using assms(2) Suc(2) that by (auto simp: rankable_def)
    ultimately have "value_of T (approx n st') mv (syms st t) = value_of T (approx n st) mv (syms st t)" for T mv
      by (rule value_of_agree(3))
    then show ?thesis using False v assms(1) by (simp add: reset_def value_of_static [OF k])
  qed
qed simp

lemma reset_meaning:
  assumes "reset s U st st'" "rankable st U f" "s \<in> U" "r \<in> set (read_symbols (syms st s))"
  shows "meaning st' f r = meaning st f r"
proof -
  have "r \<in> U" "f r < f s" using assms by (auto simp: rankable_def)
  then show ?thesis using reset_below [OF assms(1,2)] by (simp add: meaning_def del: approx.simps)
qed

text \<open>Visibility and reverse dependency of the symbol are as before.\<close>

lemma reset_visible:
  assumes "reset s U st st'" "rankable st U f" "s \<in> U"
  shows "visible_of T (meaning st' f) mv (syms st' s) = visible_of T (meaning st f) mv (syms st s)"
    "rev_of T (meaning st' f) mv (syms st' s) = rev_of T (meaning st f) mv (syms st s)"
proof -
  have "s_type (syms st' s) = s_type (syms st s)" using assms(1) unfolding reset_def tab_of_def by (metis symtab.ext_inject)
  then have e: "visible_of T v mv (syms st' s) = visible_of T v mv (syms st s)" "rev_of T v mv (syms st' s) = rev_of T v mv (syms st s)" for v
    using assms(1) by (simp_all add: visible_of_def rev_of_def type_in_def reset_def)
  have w: "wf_prop p" if "p \<in> set (s_prop (syms st s))" for p using assms(2,3) that by (auto simp: rankable_def)
  show "visible_of T (meaning st' f) mv (syms st' s) = visible_of T (meaning st f) mv (syms st s)"
    "rev_of T (meaning st' f) mv (syms st' s) = rev_of T (meaning st f) mv (syms st s)"
    unfolding e by (rule value_of_agree [OF reset_meaning [OF assms] w], assumption+)+
qed

lemma mark_user_syms:
  "t \<noteq> s \<Longrightarrow> syms (mark_user s st) t = syms st t" "next_sym (mark_user s st) = next_sym st"
  "modules_sym (mark_user s st) = modules_sym st" "modules_val (mark_user s st) = modules_val st"
  "SYMBOL_DEF_USER \<in> s_flags (syms (mark_user s st) s)"
  "x \<noteq> SYMBOL_DEF_USER \<Longrightarrow> x \<noteq> SYMBOL_CHANGED \<Longrightarrow> x \<in> s_flags (syms (mark_user s st) s) \<longleftrightarrow> x \<in> s_flags (syms st s)"
  "s_type (syms (mark_user s st) s) = s_type (syms st s)" "s_prop (syms (mark_user s st) s) = s_prop (syms st s)"
  "s_rev_expr (syms (mark_user s st) s) = s_rev_expr (syms st s)" "s_name (syms (mark_user s st) s) = s_name (syms st s)"
  by (simp_all add: mark_user_def sym_set_changed_def set_flag_def has_flag_def)

lemma static_clear: "static (k\<lparr>s_flags := s_flags k - {SYMBOL_VALID}\<rparr>) = static k"
proof -
  have "A - {SYMBOL_VALID} - {SYMBOL_VALID, SYMBOL_WRITE, SYMBOL_CHANGED} = A - {SYMBOL_VALID, SYMBOL_WRITE, SYMBOL_CHANGED}" for A by auto
  then show ?thesis by (simp add: static_def)
qed

section \<open>Clearing and setting\<close>

definition cleared :: "ktab \<Rightarrow> ktab" where
  "cleared st = (all_symbols (\<lambda>k. k\<lparr>s_flags := s_flags k - {SYMBOL_VALID}\<rparr>) st)\<lparr>change_count := change_count st + 1\<rparr>"

lemma cleared_syms:
  "syms (cleared st) t = (if allocated st t then (syms st t)\<lparr>s_flags := s_flags (syms st t) - {SYMBOL_VALID}\<rparr> else syms st t)"
  "modules_sym (cleared st) = modules_sym st" "modules_val (cleared st) = modules_val st" "next_sym (cleared st) = next_sym st"
  by (simp_all add: cleared_def all_symbols_syms)

lemma cleared_facts:
  "static (syms (cleared st) t) = static (syms st t)" "s_curr (syms (cleared st) t) = s_curr (syms st t)"
  "allocated (cleared st) t = allocated st t" "valid (cleared st) t \<longleftrightarrow> valid st t \<and> \<not> allocated st t"
  by (simp_all add: cleared_syms static_clear allocated_def valid_def has_flag_def)

text \<open>Tables with the same static part can be layered alike.\<close>

lemma layerable_static:
  assumes "layerable U f st" "\<And>t. s_type (syms st' t) = s_type (syms st t)" "\<And>t. s_prop (syms st' t) = s_prop (syms st t)"
    "\<And>t. s_rev_expr (syms st' t) = s_rev_expr (syms st t)" "plain st'" "modules_sym st' = modules_sym st" "next_sym st' = next_sym st"
    "\<And>t. valid st t \<Longrightarrow> valid st' t \<or> allocated st t"
  shows "layerable U f st'"
proof -
  have r: "read_symbols (syms st' t) = read_symbols (syms st t)" for t using assms(3,4) by (simp add: read_symbols_def dep_symbols_def)
  have "allocated st' t = allocated st t" for t using assms(2,7) by (simp add: allocated_def)
  moreover have "allocated st t \<or> valid st' t" if "t \<in> U" for t using assms(1,8) that by (auto simp: layerable_def)
  ultimately show ?thesis using assms(1,2,5,6) by (simp add: layerable_def rankable_def r assms(3))
qed

lemma layered_cleared:
  assumes "layerable U f st"
  shows "layered U f (cleared st)"
proof -
  note e = static_fields(2,4,5) [OF cleared_facts(1)]
  have "x \<in> s_flags (syms (cleared st) t) \<longleftrightarrow> x \<in> s_flags (syms st t)" if "x \<noteq> SYMBOL_VALID" for x t
    using that by (simp add: cleared_syms)
  then have "plain (cleared st)" using assms by (simp add: layerable_def rankable_def plain_def)
  then have "layerable U f (cleared st)"
    by (intro layerable_static [OF assms]) (simp_all add: e cleared_syms(2-4), simp add: cleared_facts)
  then show ?thesis by (simp add: layered_def cleared_facts)
qed

text \<open>The modules symbol, if there is one, is evaluated first.\<close>

lemma begin_session:
  assumes "layered U f st" "modules_agree st" "\<And>t. t \<in> U \<Longrightarrow> f t < n"
  shows "\<exists>st1. (case modules_sym st of None \<Rightarrow> Some st | Some m \<Rightarrow> sym_calc_value n m st) = Some st1
    \<and> session U f (st\<lparr>modules_val := modules_val st1\<rparr>) st1
    \<and> modules_val st1 = (case modules_sym st of None \<Rightarrow> modules_val st | Some m \<Rightarrow> tri (meaning st f m))
    \<and> all_marked (st\<lparr>modules_val := modules_val st1\<rparr>) f st1"
proof (cases "modules_sym st")
  case None
  have "ready st U f {} st" by (rule ready_start) (use assms(1) None in \<open>simp_all add: layered_def layerable_def modules_done_def\<close>)
  then have "session U f st st" using assms(1) None by (simp add: session_def modules_agree_def)
  then show ?thesis using None by (simp add: all_marked_def)
next
  case (Some m)
  then have "f m < n" using assms(1,3) by (auto simp: layered_def layerable_def)
  from start_session [OF assms(1,2) Some this] Some show ?thesis by auto
qed

lemma clear_session:
  assumes "layerable U f st" "modules_agree st" "\<And>t. t \<in> U \<Longrightarrow> f t < n"
  shows "\<exists>st1. sym_clear_all_valid n st = Some st1 \<and> session U f ((cleared st)\<lparr>modules_val := modules_val st1\<rparr>) st1
    \<and> modules_val st1 = (case modules_sym st of None \<Rightarrow> modules_val st | Some m \<Rightarrow> tri (meaning (cleared st) f m))
    \<and> all_marked ((cleared st)\<lparr>modules_val := modules_val st1\<rparr>) f st1"
proof -
  have ag: "modules_agree (cleared st)" using assms(2) by (simp add: modules_agree_def cleared_syms(2,3) cleared_facts)
  have e: "sym_clear_all_valid n st = (case modules_sym st of None \<Rightarrow> Some (cleared st) | Some m \<Rightarrow> sym_calc_value n m (cleared st))"
    by (simp add: sym_clear_all_valid_def cleared_def Let_def split: option.split)
  show ?thesis using begin_session [OF layered_cleared [OF assms(1)] ag assms(3)] unfolding e cleared_syms(2,3) .
qed

text \<open>Setting a tristate value first changes the user's value, and then clears.\<close>

definition chosen_tri :: "symbol \<Rightarrow> tristate \<Rightarrow> ktab \<Rightarrow> ktab" where
  "chosen_tri s v st = upd s (set_user (\<lambda>u. u\<lparr>u_tri := v\<rparr>)) (mark_user s st)"

lemma chosen_facts:
  "t \<noteq> s \<Longrightarrow> syms (chosen_tri s v st) t = syms st t"
  "s_type (syms (chosen_tri s v st) t) = s_type (syms st t)" "s_prop (syms (chosen_tri s v st) t) = s_prop (syms st t)"
  "s_rev_expr (syms (chosen_tri s v st) t) = s_rev_expr (syms st t)" "s_name (syms (chosen_tri s v st) t) = s_name (syms st t)"
  "s_curr (syms (chosen_tri s v st) t) = s_curr (syms st t)"
  "u_tri (s_user (syms (chosen_tri s v st) s)) = v" "SYMBOL_DEF_USER \<in> s_flags (syms (chosen_tri s v st) s)"
  "x \<noteq> SYMBOL_DEF_USER \<Longrightarrow> x \<noteq> SYMBOL_CHANGED \<Longrightarrow> x \<in> s_flags (syms (chosen_tri s v st) t) \<longleftrightarrow> x \<in> s_flags (syms st t)"
  "modules_sym (chosen_tri s v st) = modules_sym st" "modules_val (chosen_tri s v st) = modules_val st" "next_sym (chosen_tri s v st) = next_sym st"
  by (cases "t = s"; simp add: chosen_tri_def set_user_def mark_user_def sym_set_changed_def set_flag_def has_flag_def)+

lemma set_tristate_unfold:
  "\<not> sym_is_choice_value st s \<Longrightarrow> sym_get_tristate_value st s \<noteq> v \<Longrightarrow> sym_tristate_within_range st s v \<Longrightarrow>
    sym_set_tristate_value n s v st = map_option (Pair True) (sym_clear_all_valid n (chosen_tri s v st))"
  using mark_user_syms(6) [of SYMBOL_CHOICEVAL s st]
  by (cases "sym_clear_all_valid n (chosen_tri s v st)") (simp_all add: sym_set_tristate_value_def Let_def chosen_tri_def sym_is_choice_value_def has_flag_def)

lemma session_layerable:
  assumes "session U f st0 st"
  shows "layerable U f st"
proof -
  have l: "layerable U f st0" and r: "ready st0 U f {} st" using assms by (simp_all add: session_def layered_def)
  have "plain st" using ready_fields(9,10) [OF r] by (simp add: plain_def sym_is_choice_def sym_is_choice_value_def has_flag_def)
  moreover have "valid st0 t \<Longrightarrow> valid st t" for t using r by (simp add: ready_def valid_def has_flag_def)
  moreover have "modules_sym st = modules_sym st0" "next_sym st = next_sym st0" using r by (simp_all add: ready_def same_static_def)
  ultimately show ?thesis by (intro layerable_static [OF l]) (simp_all add: ready_fields(3,5,6) [OF r])
qed

lemma chosen_layerable:
  assumes "layerable U f st"
  shows "layerable U f (chosen_tri s v st)"
proof -
  have "plain st" using assms by (simp add: layerable_def rankable_def)
  then have "plain (chosen_tri s v st)" by (simp add: plain_def chosen_facts)
  moreover have "valid (chosen_tri s v st) t = valid st t" for t by (simp add: valid_def has_flag_def chosen_facts)
  ultimately show ?thesis by (intro layerable_static [OF assms]) (simp_all add: chosen_facts)
qed

lemma chosen_reset:
  assumes "session U f st0 st" "allocated st0 s"
  shows "reset s U st0 (cleared (chosen_tri s v st))"
proof -
  let ?c = "chosen_tri s v st" and ?d = "cleared (chosen_tri s v st)"
  have r: "ready st0 U f {} st" and l: "layered U f st0" using assms(1) by (simp_all add: session_def)
  have sst: "same_static st0 st" using r by (simp add: ready_def)
  have al: "allocated ?c t = allocated st0 t" for t
    using sst ready_fields(3) [OF r, of t] by (simp add: allocated_def chosen_facts same_static_def)
  have same: "static (syms ?d t) = static (syms st0 t)" if "t \<noteq> s" for t
    using sst that by (simp add: cleared_facts(1) chosen_facts(1) same_static_def)
  have in0: "valid st0 t \<Longrightarrow> \<not> allocated st0 t" for t using l by (auto simp: layered_def)
  have out: "syms ?d t = syms st0 t" if "valid st0 t" for t
  proof -
    have "\<not> allocated st0 t" "t \<noteq> s" using in0 [OF that] assms(2) by auto
    then show ?thesis using r that by (simp add: cleared_syms al chosen_facts(1) ready_def)
  qed
  have val: "valid ?d t = valid st0 t" if "t \<in> U" for t
  proof (cases "allocated st0 t")
    case True
    then show ?thesis using in0 by (auto simp: cleared_facts(4) al)
  next
    case False
    then have "valid st0 t" using l that by (auto simp: layered_def layerable_def)
    then show ?thesis using out [of t] by (simp add: valid_def has_flag_def)
  qed
  have fields: "s_type (syms ?d t) = s_type (syms st0 t)" "s_prop (syms ?d t) = s_prop (syms st0 t)"
    "s_rev_expr (syms ?d t) = s_rev_expr (syms st0 t)" "s_name (syms ?d t) = s_name (syms st0 t)" for t
    using static_fields(1,2,4,5) [OF cleared_facts(1) [of ?c t]] by (simp_all add: chosen_facts ready_fields(3,5,6,7) [OF r])
  have flags: "x \<in> s_flags (syms ?d t) \<longleftrightarrow> x \<in> s_flags (syms st0 t)" if "x \<in> {SYMBOL_CONST, SYMBOL_CHOICE, SYMBOL_CHOICEVAL}" for x t
  proof -
    have k: "static (syms st t) = static (syms st0 t)" using sst by (simp add: same_static_def)
    have "x \<in> s_flags (syms st t) \<longleftrightarrow> x \<in> s_flags (syms st0 t)" by (rule static_fields(6) [OF k]) (use that in auto)
    then show ?thesis using that chosen_facts(9) [of x s v st t] by (auto simp: cleared_syms)
  qed
  have "plain st0" using l by (simp add: layered_def layerable_def rankable_def)
  then have "plain ?d" using flags by (simp add: plain_def)
  moreover have "tab_of ?d = tab_of st0" by (simp add: tab_of_def fields flags)
  moreover have "modules_val ?d = modules_val st0" using sst by (simp add: cleared_syms(3) chosen_facts same_static_def)
  ultimately show ?thesis using same val out fields by (simp add: reset_def)
qed

end
