(* ===== verification/KSessionProps.thy ===== *)
theory KSessionProps
  imports KSession
begin

text \<open>
  Properties of whole sessions of the configuration tool: setting and toggling values, evaluating all symbols, and what the
  search for recursive dependencies guarantees.
\<close>

section \<open>A value that was set\<close>

lemma in_range_value: "r \<le> v \<Longrightarrow> v \<le> vis \<Longrightarrow> EXPR_OR (EXPR_AND v vis) r = v"
  by (auto simp: EXPR_OR_def EXPR_AND_def)

text \<open>The symbols whose values may be set: not the modules symbol and what it reads.\<close>

definition settable :: "symbol set \<Rightarrow> (symbol \<Rightarrow> nat) \<Rightarrow> ktab \<Rightarrow> symbol \<Rightarrow> bool" where
  "settable U f st s \<longleftrightarrow> s \<in> U \<and> allocated st s \<and> valid st s \<and> (\<forall>m. modules_sym st = Some m \<longrightarrow> f m < f s)"

lemma set_session:
  assumes "session U f st0 st" "settable U f st s" "\<And>t. t \<in> U \<Longrightarrow> f t < n"
  shows "\<exists>st1. sym_clear_all_valid n (chosen_tri s v st) = Some st1 \<and> session U f (cleared (chosen_tri s v st)) st1"
proof -
  let ?c = "chosen_tri s v st" and ?d = "cleared (chosen_tri s v st)"
  have r: "ready st0 U f {} st" and rk: "rankable st0 U f" and ag: "modules_agree st"
    using assms(1) by (simp_all add: session_def layered_def layerable_def)
  have al: "allocated st0 s" using assms(2) ready_fields(3) [OF r, of s] r by (simp add: settable_def allocated_def ready_def same_static_def)
  note rs = chosen_reset [OF assms(1) al, of v]
  have "modules_agree ?c" using ag by (simp add: modules_agree_def chosen_facts)
  then obtain st1 where 1: "sym_clear_all_valid n ?c = Some st1" "session U f (?d\<lparr>modules_val := modules_val st1\<rparr>) st1"
    "modules_val st1 = (case modules_sym ?c of None \<Rightarrow> modules_val ?c | Some m \<Rightarrow> tri (meaning ?d f m))"
    using clear_session [OF chosen_layerable [OF session_layerable [OF assms(1)]] _ assms(3)] by blast
  have "modules_val st1 = modules_val ?d"
  proof (cases "modules_sym st")
    case None
    then show ?thesis using 1(3) by (simp add: chosen_facts cleared_syms(3))
  next
    case (Some m)
    then have m: "m \<in> U" "f m < f s" "valid st m" "modules_val st = tri (s_curr (syms st m))"
      using assms(2) session_layerable [OF assms(1)] r ag by (auto simp: settable_def layerable_def ready_def modules_done_def modules_agree_def)
    have "meaning ?d f m = meaning st0 f m" using reset_below [OF rs rk m(1,2)] by (simp add: meaning_def del: approx.simps)
    moreover have "s_curr (syms st m) = meaning st0 f m" using ready_value [OF r m(3)] by simp
    ultimately show ?thesis using 1(3) Some m(4) by (simp add: chosen_facts cleared_syms(3))
  qed
  then have "?d\<lparr>modules_val := modules_val st1\<rparr> = ?d" by simp
  then show ?thesis using 1(1,2) by auto
qed

lemma set_effect:
  assumes "session U f st0 st" "settable U f st s" "\<And>t. t \<in> U \<Longrightarrow> f t < n"
    "sym_get_tristate_value st s \<noteq> v" "sym_tristate_within_range st s v"
  shows "\<exists>st1 st2. sym_set_tristate_value n s v st = Some (True, st1) \<and> session U f (cleared (chosen_tri s v st)) st1
    \<and> sym_calc_value n s st1 = Some st2 \<and> sym_get_tristate_value st2 s = v
    \<and> s_visible (syms st2 s) = s_visible (syms st s) \<and> s_rev_tri (syms st2 s) = s_rev_tri (syms st s)"
proof -
  let ?d = "cleared (chosen_tri s v st)"
  have r: "ready st0 U f {} st" and rk: "rankable st0 U f" and lay: "layered U f st0"
    using assms(1) by (simp_all add: session_def layered_def layerable_def)
  have s: "s \<in> U" and vs: "valid st s" using assms(2) by (simp_all add: settable_def)
  have al: "allocated st0 s" using assms(2) ready_fields(3) [OF r, of s] r by (simp add: settable_def allocated_def ready_def same_static_def)
  note rs = chosen_reset [OF assms(1) al, of v]
  have ns: "\<not> valid st0 s" using lay al by (simp add: layered_def)
  let ?T = "tab_of st0" and ?mv = "modules_val st0" and ?k = "syms st0 s"
  note ty = ready_fields(3) [OF r, of s] and cv = ready_fields(10) [OF r, of s] and tn = type_in_now [OF r, of s]
  have range: "s_visible (syms st s) \<noteq> No" "is_logical (type_in ?mv ?k)" "\<not> (type_in ?mv ?k = S_BOOLEAN \<and> v = Mod)"
    "s_rev_tri (syms st s) \<le> v" "v \<le> s_visible (syms st s)"
    using assms(5) cv unfolding sym_tristate_within_range_def tn by (auto simp: Let_def is_logical_def split: if_splits)
  have lg: "is_logical (s_type ?k)" using range(2) by (simp add: logical_type_in)
  have "settled st0 f s (syms st s)" using r ns vs by (simp add: ready_def)
  then have V: "s_visible (syms st s) = visible_of ?T (meaning st0 f) ?mv ?k" and R: "s_rev_tri (syms st s) = rev_of ?T (meaning st0 f) ?mv ?k"
    using lg ty by (simp_all add: settled_def)
  obtain st1 where 1: "sym_clear_all_valid n (chosen_tri s v st) = Some st1" "session U f ?d st1"
    using set_session [OF assms(1-3)] by blast
  have set: "sym_set_tristate_value n s v st = Some (True, st1)" using set_tristate_unfold [OF cv assms(4,5)] 1(1) by simp
  obtain st2 where 2: "sym_calc_value n s st1 = Some st2" "session U f ?d st2" "valid st2 s"
    using session_calc [OF 1(2) s assms(3) [OF s]] by blast
  have r2: "ready ?d U f {} st2" and rk2: "rankable ?d U f" using 2(2) by (simp_all add: session_def layered_def layerable_def)
  have n2: "\<not> valid ?d s" using rs ns s by (simp add: reset_def)
  have set2: "settled ?d f s (syms st2 s)" using r2 2(3) n2 by (simp add: ready_def)
  have same: "tab_of ?d = ?T" "modules_val ?d = ?mv" using rs by (simp_all add: reset_def)
  have t1: "s_type (syms ?d s) = s_type ?k" using same(1) unfolding tab_of_def by (metis symtab.ext_inject)
  have t2: "s_type (syms st2 s) = s_type ?k" using ready_fields(3) [OF r2, of s] t1 by simp
  note vis = reset_visible [OF rs rk s, of ?T ?mv]
  have out: "s_visible (syms st2 s) = s_visible (syms st s)" "s_rev_tri (syms st2 s) = s_rev_tri (syms st s)"
    using set2 lg t2 by (simp_all add: settled_def same vis V R)
  have u: "u_tri (s_user (syms ?d s)) = v" "SYMBOL_DEF_USER \<in> s_flags (syms ?d s)" by (simp_all add: cleared_syms chosen_facts)
  have "tristate_of ?T (meaning ?d f) ?mv (syms ?d s) = round_up (type_in ?mv ?k = S_BOOLEAN) (EXPR_OR (EXPR_AND v (s_visible (syms st s))) (s_rev_tri (syms st s)))"
    using range(1) u by (simp add: tristate_of_def Let_def vis V R type_in_def t1)
  also have "\<dots> = v" using in_range_value [OF range(4,5)] range(3) by (auto simp: round_up_def)
  finally have "tri (meaning ?d f s) = v"
    using meaning_solves [OF rk2 s n2] lg t1 by (simp add: same value_of_def)
  then have "sym_get_tristate_value st2 s = v" using set2 by (simp add: settled_def sym_get_tristate_value_def)
  then show ?thesis using set 1(2) 2(1) out by blast
qed

text \<open>
  Claim C17. Setting the value of a boolean or tristate symbol that has been evaluated, to another value than it has, refuses
  exactly the values out of range, and then changes nothing. A value in range starts a new session, in which the symbol gets
  that value when it is evaluated again, although everything else has to be evaluated again too, and is visible as before.
\<close>

theorem set_value_takes_effect:
  assumes "session U f st0 st" "settable U f st s" "\<And>t. t \<in> U \<Longrightarrow> f t < n" "sym_get_tristate_value st s \<noteq> v"
  shows "if sym_tristate_within_range st s v
    then \<exists>st1 st2. sym_set_tristate_value n s v st = Some (True, st1) \<and> (\<exists>st'. session U f st' st1)
      \<and> sym_calc_value n s st1 = Some st2 \<and> sym_get_tristate_value st2 s = v
      \<and> s_visible (syms st2 s) = s_visible (syms st s) \<and> s_rev_tri (syms st2 s) = s_rev_tri (syms st s)
    else sym_set_tristate_value n s v st = Some (False, st)"
proof (cases "sym_tristate_within_range st s v")
  case True
  then show ?thesis using set_effect [OF assms True] by auto
next
  case False
  then show ?thesis using assms(4) by (simp add: sym_set_tristate_value_def)
qed

text \<open>An example: a tristate symbol that the user has set to \<^verbatim>\<open>m\<close>, a boolean one whose default is \<^verbatim>\<open>y\<close> if the first is not
  \<^verbatim>\<open>n\<close>, and the modules symbol, whose default is the symbol \<^verbatim>\<open>MODULES\<close>, which is not defined.\<close>

definition default_if :: "expr option \<Rightarrow> symbol \<Rightarrow> property" where
  "default_if e d = \<lparr>p_type = P_DEFAULT, p_text = None, p_visible = e, p_expr = Dep (E_SYMBOL d), p_menu = None, p_file = False\<rparr>"

definition demo_conf :: ktab where
  "demo_conf = (init_ktab\<lparr>next_sym := 4, modules_sym := Some (Sym 2)\<rparr>)\<lparr>syms := (syms init_ktab)
     (Sym 0 := (new_ksym (Some ''BR2_A'') {SYMBOL_DEF_USER})\<lparr>s_type := S_TRISTATE, s_user := \<lparr>u_val = None, u_chosen = None, u_tri = Mod\<rparr>,
        s_prop := [\<lparr>p_type = P_PROMPT, p_text = Some ''prompt'', p_visible = None, p_expr = No_Expr, p_menu = None, p_file = False\<rparr>]\<rparr>,
      Sym 1 := (new_ksym (Some ''BR2_B'') {})\<lparr>s_type := S_BOOLEAN, s_prop := [default_if (Some (E_SYMBOL (Sym 0))) symbol_yes]\<rparr>,
      Sym 2 := (new_ksym None {SYMBOL_AUTO})\<lparr>s_type := S_BOOLEAN, s_prop := [default_if None (Sym 3)]\<rparr>,
      Sym 3 := new_ksym (Some ''MODULES'') {})\<rparr>"

definition demo_layer :: "symbol \<Rightarrow> nat" where
  "demo_layer s = (if s = Sym 1 then 3 else if s = Sym 0 then 2 else if s = Sym 2 then 1 else 0)"

definition demo_set :: "symbol set" where
  "demo_set = {Sym 0, Sym 1, Sym 2, Sym 3, symbol_yes}"

lemmas demo_conf_defs = demo_conf_def init_ktab_def new_ksym_def no_user_def const_ksym_def default_if_def

lemma demo_layerable: "layerable demo_set demo_layer demo_conf"
  unfolding layerable_def
proof (intro conjI allI impI)
  show "rankable demo_conf demo_set demo_layer"
    by (simp add: rankable_def plain_def demo_conf_defs demo_layer_def demo_set_def read_symbols_def dep_symbols_def prop_symbols_def
        opt_symbols_def range_symbols_def wf_prop_def dep_of_def split: symbol.split)
  show "\<forall>t \<in> demo_set. allocated demo_conf t \<or> valid demo_conf t"
    by (auto simp: demo_set_def allocated_def valid_def has_flag_def demo_conf_defs)
  fix m assume "modules_sym demo_conf = Some m"
  then have m: "m = Sym 2" by (simp add: demo_conf_defs)
  show "m \<in> demo_set" "allocated demo_conf m" "is_logical (s_type (syms demo_conf m))"
    by (auto simp: m demo_set_def allocated_def demo_conf_defs is_logical_def)
  show "\<forall>t \<in> demo_set. demo_layer t \<le> demo_layer m \<longrightarrow> s_type (syms demo_conf t) \<noteq> S_TRISTATE"
    by (auto simp: m demo_set_def demo_layer_def demo_conf_defs)
qed

lemma demo_depth: "t \<in> demo_set \<Longrightarrow> demo_layer t < 4"
  by (auto simp: demo_set_def demo_layer_def)

lemma demo_agree: "modules_agree demo_conf"
  by (simp add: modules_agree_def demo_conf_defs empty_value_def)

lemma demo_symbols:
  "syms (cleared demo_conf) (Sym 0) = syms demo_conf (Sym 0)" "syms (cleared demo_conf) (Sym 2) = syms demo_conf (Sym 2)"
  "syms (cleared demo_conf) (Sym 3) = syms demo_conf (Sym 3)" "modules_val (cleared demo_conf) = No"
  by (simp_all add: cleared_syms demo_conf_defs)

lemma demo_equations:
  "visible_of T v No (syms (cleared demo_conf) (Sym 0)) = Yes" "rev_of T v No (syms (cleared demo_conf) (Sym 0)) = No"
  "tri (value_of T v No (syms (cleared demo_conf) (Sym 0))) = Yes"
  "tri (value_of T v No (syms (cleared demo_conf) (Sym 2))) = (if tri (v (Sym 3)) = Mod then Yes else tri (v (Sym 3)))"
  "tri (value_of T v No (syms (cleared demo_conf) (Sym 3))) = No"
  unfolding demo_symbols
  by (cases "tri (v (Sym 3))"; simp add: demo_conf_defs value_of_def tristate_of_def visible_of_def rev_of_def default_of_def round_up_def
      type_in_def is_logical_def is_textual_def dep_of_def expr_calc_value_def no_value_def Let_def EXPR_OR_def EXPR_AND_def
      less_tristate_def tri_num_def)+

lemma demo_meaning:
  "tri (meaning (cleared demo_conf) demo_layer (Sym 2)) = No" "tri (meaning (cleared demo_conf) demo_layer (Sym 0)) = Yes"
proof -
  have "layered demo_set demo_layer (cleared demo_conf)" by (rule layered_cleared [OF demo_layerable])
  then have r: "rankable (cleared demo_conf) demo_set demo_layer" by (simp add: layered_def layerable_def)
  have s: "tri (meaning (cleared demo_conf) demo_layer s)
      = tri (value_of (tab_of (cleared demo_conf)) (meaning (cleared demo_conf) demo_layer) No (syms (cleared demo_conf) s))"
    if "s \<in> {Sym 0, Sym 2, Sym 3}" for s
  proof -
    have "s \<in> demo_set" "\<not> valid (cleared demo_conf) s" using that by (auto simp: demo_set_def cleared_facts allocated_def demo_conf_defs)
    then show ?thesis using meaning_solves [OF r] demo_symbols(4) by simp
  qed
  show "tri (meaning (cleared demo_conf) demo_layer (Sym 2)) = No" "tri (meaning (cleared demo_conf) demo_layer (Sym 0)) = Yes"
    using s by (simp_all add: demo_equations)
qed

lemma demo_session:
  "\<exists>st. calc_each 4 [Sym 0] (the (sym_clear_all_valid 4 demo_conf)) = Some st \<and> session demo_set demo_layer (cleared demo_conf) st
    \<and> settable demo_set demo_layer st (Sym 0) \<and> sym_get_tristate_value st (Sym 0) = Yes \<and> sym_tristate_within_range st (Sym 0) No
    \<and> \<not> sym_tristate_within_range st (Sym 0) Mod"
proof -
  obtain st1 where 1: "sym_clear_all_valid 4 demo_conf = Some st1" "session demo_set demo_layer ((cleared demo_conf)\<lparr>modules_val := modules_val st1\<rparr>) st1"
    "modules_val st1 = (case modules_sym demo_conf of None \<Rightarrow> modules_val demo_conf | Some m \<Rightarrow> tri (meaning (cleared demo_conf) demo_layer m))"
    using clear_session [OF demo_layerable demo_agree demo_depth] by blast
  have "modules_sym demo_conf = Some (Sym 2)" "modules_val demo_conf = No" by (simp_all add: demo_conf_defs)
  then have mv: "modules_val st1 = modules_val (cleared demo_conf)" "modules_val (cleared demo_conf) = No"
    using 1(3) demo_meaning(1) by (simp_all add: cleared_syms(3))
  then have "(cleared demo_conf)\<lparr>modules_val := modules_val st1\<rparr> = cleared demo_conf" by simp
  then have s1: "session demo_set demo_layer (cleared demo_conf) st1" using 1(2) by simp
  have "Sym 0 \<in> demo_set" "demo_layer (Sym 0) < 4" by (simp_all add: demo_set_def demo_layer_def)
  then obtain st where st: "sym_calc_value 4 (Sym 0) st1 = Some st" "session demo_set demo_layer (cleared demo_conf) st" "valid st (Sym 0)"
    using session_calc [OF s1] by blast
  have r: "ready (cleared demo_conf) demo_set demo_layer {} st" using st(2) by (simp add: session_def)
  have ty: "s_type (syms (cleared demo_conf) (Sym 0)) = S_TRISTATE" "allocated demo_conf (Sym 0)" "next_sym (cleared demo_conf) = 4"
    "modules_sym (cleared demo_conf) = Some (Sym 2)" by (simp_all add: cleared_syms allocated_def demo_conf_defs)
  have "\<not> valid (cleared demo_conf) (Sym 0)" using ty(2) by (simp add: cleared_facts)
  then have "settled (cleared demo_conf) demo_layer (Sym 0) (syms st (Sym 0))" using r st(3) by (simp add: ready_def)
  then have f: "sym_get_tristate_value st (Sym 0) = Yes" "s_visible (syms st (Sym 0)) = Yes" "s_rev_tri (syms st (Sym 0)) = No"
    using ready_fields(3) [OF r, of "Sym 0"] ty(1) mv(2) by (simp_all add: settled_def is_logical_def sym_get_tristate_value_def demo_meaning demo_equations)
  have "sym_tristate_within_range st (Sym 0) No" "\<not> sym_tristate_within_range st (Sym 0) Mod"
    using f(2,3) ready_fields(10) [OF r, of "Sym 0"] type_in_now [OF r, of "Sym 0"] ty(1) mv(2)
    by (simp_all add: sym_tristate_within_range_def Let_def type_in_def less_eq_tristate_def tri_num_def)
  moreover have "settable demo_set demo_layer st (Sym 0)"
    using st(3) ready_fields(3) [OF r, of "Sym 0"] ty r
    by (auto simp: settable_def demo_set_def demo_layer_def allocated_def ready_def same_static_def)
  moreover have "calc_each 4 [Sym 0] (the (sym_clear_all_valid 4 demo_conf)) = Some st" using 1(1) st(1) by simp
  ultimately show ?thesis using st(2) f(1) by blast
qed

theorem set_value_takes_effect_witness:
  "\<exists>st st1 st2. calc_each 4 [Sym 0] (the (sym_clear_all_valid 4 demo_conf)) = Some st \<and> sym_get_tristate_value st (Sym 0) = Yes
    \<and> sym_set_tristate_value 4 (Sym 0) No st = Some (True, st1) \<and> sym_calc_value 4 (Sym 0) st1 = Some st2 \<and> sym_get_tristate_value st2 (Sym 0) = No"
proof -
  obtain st where st: "calc_each 4 [Sym 0] (the (sym_clear_all_valid 4 demo_conf)) = Some st" "session demo_set demo_layer (cleared demo_conf) st"
    "settable demo_set demo_layer st (Sym 0)" "sym_get_tristate_value st (Sym 0) = Yes" "sym_tristate_within_range st (Sym 0) No"
    using demo_session by blast
  have ne: "sym_get_tristate_value st (Sym 0) \<noteq> No" using st(4) by simp
  show ?thesis using set_value_takes_effect [OF st(2,3) demo_depth ne] st(1,4,5) by auto
qed

section \<open>Toggling\<close>

lemma toggle_cases:
  assumes "v = sym_get_tristate_value st s" "\<not> sym_is_choice_value st s"
  shows "sym_toggle_tristate_value n s st =
    (if sym_tristate_within_range st s (next_value v) then map_option (\<lambda>(b, st). (next_value v, st)) (sym_set_tristate_value n s (next_value v) st)
     else if sym_tristate_within_range st s (next_value (next_value v))
       then map_option (\<lambda>(b, st). (next_value (next_value v), st)) (sym_set_tristate_value n s (next_value (next_value v)) st)
     else map_option (\<lambda>(b, st). (v, st)) (sym_set_tristate_value n s v st))"
proof -
  have n: "next_value v \<noteq> v" "next_value (next_value v) \<noteq> v" "next_value (next_value (next_value v)) = v"
    by (cases v; simp add: next_value_def)+
  have f: "sym_set_tristate_value n s w st = Some (False, st)" if "w \<noteq> v" "\<not> sym_tristate_within_range st s w" for w
    using that assms(1) by (simp add: sym_set_tristate_value_def)
  have t: "sym_set_tristate_value n s w st = map_option (Pair True) (sym_clear_all_valid n (chosen_tri s w st))" if "w \<noteq> v" "sym_tristate_within_range st s w" for w
    by (rule set_tristate_unfold [OF assms(2)]) (use that assms(1) in auto)
  have e: "\<exists>st'. sym_set_tristate_value n s v st = Some (True, st')"
    using assms mark_user_syms(6) [of SYMBOL_CHOICEVAL s st]
    by (simp add: sym_set_tristate_value_def Let_def sym_is_choice_value_def has_flag_def)
  obtain c where c: "sym_set_tristate_value n s v st = Some (True, c)" using e by blast
  show ?thesis
    using n f [OF n(1)] f [OF n(2)] t [OF n(1)] t [OF n(2)] assms(1) c
    by (auto simp: sym_toggle_tristate_value_def Let_def numeral_3_eq_3 map_option_case split: option.splits)
qed

text \<open>
  Toggling a symbol that has been evaluated returns, at the next value in the order \<^verbatim>\<open>n\<close>, \<^verbatim>\<open>m\<close>, \<^verbatim>\<open>y\<close>, \<^verbatim>\<open>n\<close> that is in range, or
  at the old value if no other one is; the symbol then has the value that is returned.
\<close>

theorem toggle_next_in_range:
  assumes "session U f st0 st" "settable U f st s" "\<And>t. t \<in> U \<Longrightarrow> f t < n"
  shows "let v = sym_get_tristate_value st s; ok = sym_tristate_within_range st s;
      w = (if ok (next_value v) then next_value v else if ok (next_value (next_value v)) then next_value (next_value v) else v)
    in \<exists>st1. sym_toggle_tristate_value n s st = Some (w, st1) \<and>
      (if w = v then sym_get_tristate_value st1 s = v
       else \<exists>st2. sym_calc_value n s st1 = Some st2 \<and> sym_get_tristate_value st2 s = w)"
proof -
  define v where "v = sym_get_tristate_value st s"
  have r: "ready st0 U f {} st" using assms(1) by (simp add: session_def)
  note cv = ready_fields(10) [OF r, of s]
  have n: "next_value v \<noteq> v" "next_value (next_value v) \<noteq> v" by (cases v; simp add: next_value_def)+
  have set: "\<exists>st1 st2. sym_set_tristate_value n s w st = Some (True, st1) \<and> sym_calc_value n s st1 = Some st2 \<and> sym_get_tristate_value st2 s = w"
    if "w \<noteq> v" "sym_tristate_within_range st s w" for w
    using set_effect [OF assms, of w] that by (auto simp: v_def)
  have same: "\<exists>st1. sym_set_tristate_value n s v st = Some (True, st1) \<and> sym_get_tristate_value st1 s = v"
    using cv mark_user_syms(6) [of SYMBOL_CHOICEVAL s st] chosen_facts(6) [of s v st s]
    by (simp add: sym_set_tristate_value_def Let_def v_def sym_is_choice_value_def has_flag_def chosen_tri_def sym_get_tristate_value_def)
  show ?thesis unfolding toggle_cases [OF v_def cv] v_def [symmetric] Let_def
    using n set [OF n(1)] set [OF n(2)] same by auto
qed

theorem toggle_next_in_range_witness:
  "\<exists>st st1 st2. calc_each 4 [Sym 0] (the (sym_clear_all_valid 4 demo_conf)) = Some st \<and> sym_toggle_tristate_value 4 (Sym 0) st = Some (No, st1)
    \<and> sym_calc_value 4 (Sym 0) st1 = Some st2 \<and> sym_get_tristate_value st2 (Sym 0) = No"
proof -
  obtain st where st: "calc_each 4 [Sym 0] (the (sym_clear_all_valid 4 demo_conf)) = Some st" "session demo_set demo_layer (cleared demo_conf) st"
    "settable demo_set demo_layer st (Sym 0)" "sym_get_tristate_value st (Sym 0) = Yes" "sym_tristate_within_range st (Sym 0) No"
    using demo_session by blast
  show ?thesis using toggle_next_in_range [OF st(2,3) demo_depth] st(1,4,5) by (auto simp: Let_def next_value_def)
qed

section \<open>Whole evaluations\<close>

lemma session_calc_each:
  "session U f st0 st \<Longrightarrow> set xs \<subseteq> U \<Longrightarrow> (\<And>s. s \<in> U \<Longrightarrow> f s < n) \<Longrightarrow>
    \<exists>st'. calc_each n xs st = Some st' \<and> session U f st0 st' \<and> keeps (wanted st0 f) st st' \<and> (\<forall>s \<in> set xs. valid st' s)"
proof (induction xs arbitrary: st)
  case (Cons s xs)
  obtain st1 where 1: "sym_calc_value n s st = Some st1" "session U f st0 st1" "keeps (wanted st0 f) st st1" "valid st1 s"
    using session_calc [OF Cons(2), of s n] Cons(3,4) by auto
  obtain st2 where 2: "calc_each n xs st1 = Some st2" "session U f st0 st2" "keeps (wanted st0 f) st1 st2" "\<forall>t \<in> set xs. valid st2 t"
    using Cons(1) [OF 1(2)] Cons(3,4) by auto
  have "valid st2 s" by (rule keeps_valid [OF 2(3) 1(4)])
  then show ?case using 1(1) 2 keeps_trans [OF 1(3) 2(3)] by simp
qed (simp add: keeps_refl)

text \<open>
  A whole evaluation: on a table with layers, clearing all symbols, which evaluates the modules symbol, and then
  evaluating any list of symbols returns, and leaves in each of them its meaning in one fixed base table; the states on
  the way are states of one session, so the order and the grouping of the evaluations do not matter.
\<close>

theorem session_evaluates:
  assumes "layerable U f st" "modules_agree st" "\<And>t. t \<in> U \<Longrightarrow> f t < n"
  shows "\<exists>st0 st1. sym_clear_all_valid n st = Some st1 \<and> session U f st0 st1
    \<and> (\<forall>xs. set xs \<subseteq> U \<longrightarrow> (\<exists>st2. calc_each n xs st1 = Some st2 \<and> session U f st0 st2
         \<and> (\<forall>s \<in> set xs. valid st2 s \<and> s_curr (syms st2 s) = meaning st0 f s)))"
proof -
  obtain st1 where 1: "sym_clear_all_valid n st = Some st1" "session U f ((cleared st)\<lparr>modules_val := modules_val st1\<rparr>) st1"
    using clear_session [OF assms] by blast
  let ?b = "(cleared st)\<lparr>modules_val := modules_val st1\<rparr>"
  have "\<exists>st2. calc_each n xs st1 = Some st2 \<and> session U f ?b st2 \<and> (\<forall>s \<in> set xs. valid st2 s \<and> s_curr (syms st2 s) = meaning ?b f s)"
    if xs: "set xs \<subseteq> U" for xs
  proof -
    obtain st2 where 2: "calc_each n xs st1 = Some st2" "session U f ?b st2" "\<forall>s \<in> set xs. valid st2 s"
      using session_calc_each [OF 1(2) xs, of n] assms(3) by blast
    have "ready ?b U f {} st2" using 2(2) by (simp add: session_def)
    then have "s_curr (syms st2 s) = meaning ?b f s" if "s \<in> set xs" for s using ready_value 2(3) that by simp
    then show ?thesis using 2 by blast
  qed
  then show ?thesis using 1 by blast
qed

theorem session_evaluates_witness:
  "\<exists>st1 st2. sym_clear_all_valid 4 demo_conf = Some st1 \<and> calc_each 4 [Sym 1, Sym 0] st1 = Some st2 \<and> valid st2 (Sym 1)"
proof -
  have "set [Sym 1, Sym 0] \<subseteq> demo_set" by (simp add: demo_set_def)
  then show ?thesis using session_evaluates [OF demo_layerable demo_agree demo_depth]
    by (metis list.set_intros(1))
qed

section \<open>After the check for recursive dependencies\<close>

text \<open>Ranks can be changed so that the symbols that one symbol depends on come before all others.\<close>

lemma rank_first:
  assumes "finite U" "\<And>a b. a \<in> U \<Longrightarrow> b \<in> g a \<Longrightarrow> b \<in> U \<and> f b < (f a :: nat)" "m \<in> U" "R = {(a, b). b \<in> g a}"
  shows "\<exists>h :: symbol \<Rightarrow> nat. (\<forall>a \<in> U. \<forall>b \<in> g a. h b < h a) \<and> (\<forall>t \<in> U. h t \<le> h m \<longrightarrow> (m, t) \<in> R\<^sup>*)"
proof -
  define c where "c = Suc (sum f U)"
  define h where "h t = (if (m, t) \<in> R\<^sup>* then f t else c + f t)" for t
  have fc: "f t < c" if "t \<in> U" for t using member_le_sum [OF that _ assms(1), of f] by (simp add: c_def)
  have "h b < h a" if "a \<in> U" "b \<in> g a" for a b
  proof (cases "(m, a) \<in> R\<^sup>*")
    case True
    then have "(m, b) \<in> R\<^sup>*" using assms(4) that(2) by (auto intro: rtrancl_into_rtrancl)
    then show ?thesis using True assms(2) [OF that] by (simp add: h_def)
  next
    case False
    then show ?thesis using assms(2) [OF that] fc [of b] by (auto simp: h_def)
  qed
  moreover have "(m, t) \<in> R\<^sup>*" if "t \<in> U" "h t \<le> h m" for t
    using that fc [OF assms(3)] by (auto simp: h_def split: if_splits)
  ultimately show ?thesis by blast
qed

text \<open>
  Claim C18. The check of the parser protects the evaluation. Let a table have neither choices nor ranges, and let the modules
  symbol depend on no tristate symbol. If the search for recursive dependencies has reported nothing, then with some depth the
  symbols can be cleared and any list of the checked symbols can be evaluated, and every symbol has one value: it gets the same value
  in whatever order and together with whichever other symbols it is evaluated. Without the check a symbol on a cycle can get
  different values.
\<close>

theorem checked_table_evaluates:
  assumes "plain st" "stack st = {}" "visited st = {}" "set ss = U" "\<And>a. a \<in> U \<Longrightarrow> set (deps st a) \<subseteq> U" "card U < n"
    "\<And>a p. a \<in> U \<Longrightarrow> p \<in> set (s_prop (syms st a)) \<Longrightarrow> wf_prop p \<and> p_type p \<noteq> P_RANGE"
    "\<And>t. t \<in> U \<Longrightarrow> allocated st t \<or> valid st t" "modules_agree st"
    "modules_sym st = Some m" "m \<in> U" "allocated st m" "is_logical (s_type (syms st m))"
    "\<And>t. (m, t) \<in> (edges st)\<^sup>* \<Longrightarrow> s_type (syms st t) \<noteq> S_TRISTATE"
    "check_all n ss st = Some st'" "zconfnerrs st' = zconfnerrs st"
  shows "\<exists>k st1 v. sym_clear_all_valid k st' = Some st1 \<and> (\<forall>xs. set xs \<subseteq> U \<longrightarrow>
    (\<exists>st2. calc_each k xs st1 = Some st2 \<and> (\<forall>s \<in> set xs. valid st2 s \<and> s_curr (syms st2 s) = v s)))"
proof -
  have fin: "finite U" using assms(4) by auto
  have c: "same_table st st'" "ranked st'" "U \<subseteq> finished st'"
    using sym_check_deps_spec [OF assms(1-3) fin _ assms(5,6), of ss] assms(4,15,16) by auto
  have d: "deps st' = deps st" by (rule same_table_deps [OF c(1)])
  have u: "unmarked (syms st' a) = unmarked (syms st a)" for a using c(1) by (simp add: same_table_def)
  have k: "s_prop (syms st' a) = s_prop (syms st a)" "s_type (syms st' a) = s_type (syms st a)" "s_curr (syms st' a) = s_curr (syms st a)" for a
    using arg_cong [OF u [of a], of s_prop] arg_cong [OF u [of a], of s_type] arg_cong [OF u [of a], of s_curr] by (simp_all add: unmarked_def)
  have v: "valid st' a = valid st a" for a
    using arg_cong [OF u [of a], of s_flags] by (auto simp: unmarked_def valid_def has_flag_def)
  have sm: "modules_sym st' = Some m" "modules_val st' = modules_val st" "next_sym st' = next_sym st"
    using c(1) assms(10) by (simp_all add: same_table_def)
  then have al: "allocated st' a = allocated st a" for a by (simp add: allocated_def k)
  obtain f :: "symbol \<Rightarrow> nat" where f: "\<And>a b. a \<in> finished st' \<Longrightarrow> b \<in> set (deps st' a) \<Longrightarrow> b \<in> finished st' \<and> f b < f a"
    using c(2) by (auto simp: ranked_def)
  have fU: "b \<in> U \<and> f b < f a" if "a \<in> U" "b \<in> set (deps st a)" for a b
    using f [of a b] c(3) assms(5) that by (auto simp: d)
  obtain h :: "symbol \<Rightarrow> nat" where h: "\<And>a b. a \<in> U \<Longrightarrow> b \<in> set (deps st a) \<Longrightarrow> h b < h a" "\<And>t. t \<in> U \<Longrightarrow> h t \<le> h m \<Longrightarrow> (m, t) \<in> (edges st)\<^sup>*"
    using rank_first [OF fin fU assms(11) edges_def] by blast
  have reads: "read_symbols (syms st' a) = deps st a" if "a \<in> U" for a
  proof -
    have "range_symbols q = []" if "q \<in> set (s_prop (syms st' a))" for q
      using assms(7) [OF \<open>a \<in> U\<close>] that by (auto simp: k range_symbols_def split: prop_expr.split)
    then have "concat (map range_symbols (s_prop (syms st' a))) = []" by simp
    then show ?thesis by (simp add: read_symbols_def deps_def flip: d)
  qed
  have "plain st'" using same_table_plain [OF c(1)] assms(1) by simp
  then have "rankable st' U h" using assms(5,7) h(1) reads by (auto simp: rankable_def k)
  then have l: "layerable U h st'" using assms(8,11-14) h(2) by (auto simp: layerable_def al v k sm)
  have ag: "modules_agree st'" using assms(9,10) by (simp add: modules_agree_def sm k)
  define n' where "n' = Suc (sum h U)"
  have "h t < n'" if "t \<in> U" for t using member_le_sum [OF that _ fin, of h] by (simp add: n'_def)
  then obtain st0 st1 where s: "sym_clear_all_valid n' st' = Some st1"
    "\<And>xs. set xs \<subseteq> U \<Longrightarrow> \<exists>st2. calc_each n' xs st1 = Some st2 \<and> session U h st0 st2 \<and> (\<forall>s \<in> set xs. valid st2 s \<and> s_curr (syms st2 s) = meaning st0 h s)"
    using session_evaluates [OF l ag] by blast
  show ?thesis by (intro exI [of _ n'] exI [of _ st1] exI [of _ "meaning st0 h"]) (use s in blast)
qed

lemma demo_deps_conf:
  "set (deps demo_conf (Sym 1)) = {Sym 0, symbol_yes}" "set (deps demo_conf (Sym 2)) = {Sym 3}"
  "s \<noteq> Sym 1 \<Longrightarrow> s \<noteq> Sym 2 \<Longrightarrow> deps demo_conf s = []"
  by (auto simp: deps_def dep_symbols_def prop_symbols_def opt_symbols_def dep_of_def demo_conf_defs split: symbol.split)

lemma demo_edges: "(a, b) \<in> edges demo_conf \<longleftrightarrow> a = Sym 1 \<and> (b = Sym 0 \<or> b = symbol_yes) \<or> a = Sym 2 \<and> b = Sym 3"
  using demo_deps_conf by (cases "a = Sym 1"; cases "a = Sym 2") (auto simp: edges_def)

lemma demo_acyclic: "(x, x) \<notin> (edges demo_conf)\<^sup>+"
proof -
  have "demo_layer b < demo_layer a" if "(a, b) \<in> (edges demo_conf)\<^sup>+" for a b
    using that by induction (auto simp: demo_edges demo_layer_def split: if_splits)
  then show ?thesis by blast
qed

lemma demo_checked:
  "\<exists>st. check_all 6 [Sym 0, Sym 1, Sym 2, Sym 3, symbol_yes] demo_conf = Some st \<and> zconfnerrs st = zconfnerrs demo_conf"
proof -
  have p: "plain demo_conf" using demo_layerable by (simp add: layerable_def rankable_def)
  have "stack demo_conf = {}" "visited demo_conf = {}"
    by (auto simp: stack_def visited_def has_flag_def demo_conf_defs split: symbol.splits if_splits)
  moreover have "set (deps demo_conf a) \<subseteq> demo_set" for a
    using demo_deps_conf by (cases "a = Sym 1"; cases "a = Sym 2") (auto simp: demo_set_def)
  moreover have "set [Sym 0, Sym 1, Sym 2, Sym 3, symbol_yes] = demo_set" "finite demo_set" "card demo_set < 6"
    by (auto simp: demo_set_def card_insert_if)
  ultimately show ?thesis
    using sym_check_deps_spec [OF p, of demo_set "[Sym 0, Sym 1, Sym 2, Sym 3, symbol_yes]" 6] demo_acyclic by auto
qed

theorem checked_table_evaluates_witness:
  "\<exists>st k st1 v. check_all 6 [Sym 0, Sym 1, Sym 2, Sym 3, symbol_yes] demo_conf = Some st \<and> sym_clear_all_valid k st = Some st1
    \<and> (\<forall>xs. set xs \<subseteq> demo_set \<longrightarrow> (\<exists>st2. calc_each k xs st1 = Some st2 \<and> (\<forall>s \<in> set xs. valid st2 s \<and> s_curr (syms st2 s) = v s)))"
proof -
  obtain st where st: "check_all 6 [Sym 0, Sym 1, Sym 2, Sym 3, symbol_yes] demo_conf = Some st" "zconfnerrs st = zconfnerrs demo_conf"
    using demo_checked by blast
  have r: "rankable demo_conf demo_set demo_layer" and l: "\<And>t. t \<in> demo_set \<Longrightarrow> allocated demo_conf t \<or> valid demo_conf t"
    using demo_layerable by (auto simp: layerable_def)
  have p: "plain demo_conf" using r by (simp add: rankable_def)
  have e: "stack demo_conf = {}" "visited demo_conf = {}"
    by (auto simp: stack_def visited_def has_flag_def demo_conf_defs split: symbol.splits if_splits)
  have u: "set [Sym 0, Sym 1, Sym 2, Sym 3, symbol_yes] = demo_set" "card demo_set < 6" by (auto simp: demo_set_def card_insert_if)
  have d: "set (deps demo_conf a) \<subseteq> demo_set" for a
    using demo_deps_conf by (cases "a = Sym 1"; cases "a = Sym 2") (auto simp: demo_set_def)
  have w: "wf_prop q \<and> p_type q \<noteq> P_RANGE" if "a \<in> demo_set" "q \<in> set (s_prop (syms demo_conf a))" for a q
    using that by (auto simp: demo_set_def wf_prop_def demo_conf_defs)
  have m: "modules_sym demo_conf = Some (Sym 2)" "Sym 2 \<in> demo_set" "allocated demo_conf (Sym 2)" "is_logical (s_type (syms demo_conf (Sym 2)))"
    by (simp_all add: demo_conf_defs demo_set_def allocated_def is_logical_def)
  have n: "s_type (syms demo_conf t) \<noteq> S_TRISTATE" if "(Sym 2, t) \<in> (edges demo_conf)\<^sup>*" for t
  proof -
    have "t = Sym 2 \<or> t = Sym 3" using that by induction (auto simp: demo_edges)
    then show ?thesis by (auto simp: demo_conf_defs)
  qed
  have "\<exists>k st1 v. sym_clear_all_valid k st = Some st1 \<and> (\<forall>xs. set xs \<subseteq> demo_set \<longrightarrow>
      (\<exists>st2. calc_each k xs st1 = Some st2 \<and> (\<forall>s \<in> set xs. valid st2 s \<and> s_curr (syms st2 s) = v s)))"
    by (rule checked_table_evaluates [OF p e u(1) d u(2) _ _ demo_agree m _ st]) (use w l n in blast)+
  then show ?thesis using st(1) by blast
qed

text \<open>Two symbols, each with the default \<^verbatim>\<open>y\<close> if the other one is \<^verbatim>\<open>n\<close>: the check reports them, and the one whose
  evaluation starts first is \<^verbatim>\<open>n\<close> in the end.\<close>

definition rivals :: ktab where
  "rivals = (init_ktab\<lparr>next_sym := 4, modules_sym := Some (Sym 2), in_file := True\<rparr>)\<lparr>syms := (syms init_ktab)
     (Sym 0 := (new_ksym (Some ''BR2_A'') {})\<lparr>s_type := S_BOOLEAN, s_prop := [(default_if (Some (E_NOT (E_SYMBOL (Sym 1)))) symbol_yes)\<lparr>p_file := True\<rparr>]\<rparr>,
      Sym 1 := (new_ksym (Some ''BR2_B'') {})\<lparr>s_type := S_BOOLEAN, s_prop := [(default_if (Some (E_NOT (E_SYMBOL (Sym 0)))) symbol_yes)\<lparr>p_file := True\<rparr>]\<rparr>,
      Sym 2 := (new_ksym None {SYMBOL_AUTO})\<lparr>s_type := S_BOOLEAN, s_prop := [default_if None (Sym 3)]\<rparr>,
      Sym 3 := new_ksym (Some ''MODULES'') {})\<rparr>"

lemma rivals_reported: "map_option zconfnerrs (check_all 6 [Sym 0, Sym 1, Sym 2, Sym 3, symbol_yes] rivals) = Some 1"
  by code_simp

lemma rivals_order:
  "map_option (\<lambda>st. sym_get_tristate_value st (Sym 0)) (calc_each 3 [Sym 0] rivals) = Some No"
  "map_option (\<lambda>st. sym_get_tristate_value st (Sym 0)) (calc_each 3 [Sym 1] rivals) = Some Yes"
  by code_simp+

end
