(* ===== verification/KMenu.thy ===== *)
theory KMenu
  imports KCalc
begin

text \<open>
  The tree of menus (\<^verbatim>\<open>package/config/menu.c\<close>): its nodes linked by pointers as the parser builds them, and the loop over all
  menus that \<^verbatim>\<open>conf_write\<close> and the user interfaces run. A node is known by its number, the root menu is 0.
\<close>

section \<open>Data\<close>

text \<open>The prompt of a menu is a property of its own, or one of the properties of its symbol, by position.\<close>

datatype prompt = Own property | Of_Symbol nat

record menu =
  m_next :: "nat option"
  m_parent :: "nat option"
  m_list :: "nat option"
  m_sym :: "symbol option"
  m_prompt :: "prompt option"
  m_dep :: "expr option"
  m_help :: "string option"

text \<open>The place \<^verbatim>\<open>last_entry_ptr\<close> points to: the field \<^verbatim>\<open>next\<close> or the field \<^verbatim>\<open>list\<close> of a menu.\<close>

datatype link = Next_of nat | List_of nat

record menus =
  node :: "nat \<Rightarrow> menu"
  next_menu :: nat
  current_entry :: nat
  current_menu :: nat
  last_entry_ptr :: link

definition new_menu :: "nat option \<Rightarrow> symbol option \<Rightarrow> menu" where
  "new_menu parent s = \<lparr>m_next = None, m_parent = parent, m_list = None, m_sym = s, m_prompt = None, m_dep = None, m_help = None\<rparr>"

definition upd_menu :: "nat \<Rightarrow> (menu \<Rightarrow> menu) \<Rightarrow> menus \<Rightarrow> menus" where
  "upd_menu m f ms = ms\<lparr>node := (node ms)(m := f (node ms m))\<rparr>"

definition put_link :: "link \<Rightarrow> nat option \<Rightarrow> menus \<Rightarrow> menus" where
  "put_link l p ms = (case l of Next_of m \<Rightarrow> upd_menu m (\<lambda>x. x\<lparr>m_next := p\<rparr>) ms | List_of m \<Rightarrow> upd_menu m (\<lambda>x. x\<lparr>m_list := p\<rparr>) ms)"

section \<open>Building\<close>

definition no_menus :: menus where
  "no_menus = \<lparr>node = (\<lambda>_. new_menu None None), next_menu = 1, current_entry = 0, current_menu = 0, last_entry_ptr = List_of 0\<rparr>"

definition menu_init :: "menus \<Rightarrow> menus" where
  "menu_init ms = ms\<lparr>current_entry := 0, current_menu := 0, last_entry_ptr := List_of 0\<rparr>"

definition menu_add_entry :: "symbol option \<Rightarrow> menus \<Rightarrow> menus" where
  "menu_add_entry s ms = (let m = next_menu ms;
       ms = ms\<lparr>node := (node ms)(m := new_menu (Some (current_menu ms)) s), next_menu := m + 1\<rparr>;
       ms = put_link (last_entry_ptr ms) (Some m) ms
     in ms\<lparr>last_entry_ptr := Next_of m, current_entry := m\<rparr>)"

definition menu_add_menu :: "menus \<Rightarrow> menus" where
  "menu_add_menu ms = ms\<lparr>last_entry_ptr := List_of (current_entry ms), current_menu := current_entry ms\<rparr>"

text \<open>The root menu is never ended: \<open>None\<close> would be the null pointer as current menu.\<close>

definition menu_end_menu :: "menus \<Rightarrow> menus option" where
  "menu_end_menu ms = map_option (\<lambda>p. ms\<lparr>last_entry_ptr := Next_of (current_menu ms), current_menu := p\<rparr>) (m_parent (node ms (current_menu ms)))"

section \<open>Dependencies and properties\<close>

text \<open>A tristate constant \<^verbatim>\<open>m\<close> in a condition also needs modules.\<close>

fun menu_check_dep :: "symbol \<Rightarrow> expr \<Rightarrow> expr" where
  "menu_check_dep md (E_NOT e) = E_NOT (menu_check_dep md e)"
| "menu_check_dep md (E_OR a b) = E_OR (menu_check_dep md a) (menu_check_dep md b)"
| "menu_check_dep md (E_AND a b) = E_AND (menu_check_dep md a) (menu_check_dep md b)"
| "menu_check_dep md (E_SYMBOL s) = (if s = symbol_mod then E_AND (E_SYMBOL s) (E_SYMBOL md) else E_SYMBOL s)"
| "menu_check_dep md e = e"

definition menu_add_dep :: "symbol \<Rightarrow> expr option \<Rightarrow> menus \<Rightarrow> menus" where
  "menu_add_dep md dep ms = upd_menu (current_entry ms) (\<lambda>x. x\<lparr>m_dep := expr_alloc_and (m_dep x) (map_option (menu_check_dep md) dep)\<rparr>) ms"

text \<open>The type of a symbol is set once; another type is refused with a warning.\<close>

definition menu_set_type :: "symbol_type \<Rightarrow> menus \<Rightarrow> ktab \<Rightarrow> ktab option" where
  "menu_set_type ty ms st = map_option (\<lambda>s. if s_type (syms st s) = S_UNKNOWN then upd s (\<lambda>k. k\<lparr>s_type := ty\<rparr>) st else st)
     (m_sym (node ms (current_entry ms)))"

definition menu_add_prop :: "prop_type \<Rightarrow> string option \<Rightarrow> prop_expr \<Rightarrow> expr option \<Rightarrow> symbol \<Rightarrow> menus \<Rightarrow> ktab \<Rightarrow> menus \<times> ktab" where
  "menu_add_prop ty prompt e dep md ms st =
     (let x = node ms (current_entry ms);
          text = map_option (dropWhile c_isspace) prompt;
          p = \<lparr>p_type = ty, p_text = text, p_visible = map_option (menu_check_dep md) dep, p_expr = e, p_menu = Some (current_entry ms), p_file = in_file st\<rparr>;
          ref = (case m_sym x of None \<Rightarrow> Own p | Some s \<Rightarrow> Of_Symbol (length (s_prop (syms st s))))
      in (if prompt \<noteq> None then upd_menu (current_entry ms) (\<lambda>x. x\<lparr>m_prompt := Some ref\<rparr>) ms else ms,
          case m_sym x of None \<Rightarrow> st | Some s \<Rightarrow> prop_alloc p s st))"

definition menu_add_prompt :: "prop_type \<Rightarrow> string \<Rightarrow> expr option \<Rightarrow> symbol \<Rightarrow> menus \<Rightarrow> ktab \<Rightarrow> menus \<times> ktab" where
  "menu_add_prompt ty prompt dep = menu_add_prop ty (Some prompt) No_Expr dep"

definition menu_add_expr :: "prop_type \<Rightarrow> prop_expr \<Rightarrow> expr option \<Rightarrow> symbol \<Rightarrow> menus \<Rightarrow> ktab \<Rightarrow> menus \<times> ktab" where
  "menu_add_expr ty e dep = menu_add_prop ty None e dep"

definition menu_add_symbol :: "prop_type \<Rightarrow> symbol \<Rightarrow> expr option \<Rightarrow> symbol \<Rightarrow> menus \<Rightarrow> ktab \<Rightarrow> menus \<times> ktab" where
  "menu_add_symbol ty s dep = menu_add_prop ty None (Dep (E_SYMBOL s)) dep"

text \<open>The options of a symbol; \<^verbatim>\<open>sym_defconfig_list\<close> is set once.\<close>

datatype option_token = T_OPT_MODULES | T_OPT_DEFCONFIG_LIST | T_OPT_ENV

definition menu_add_option ::
  "(string \<Rightarrow> string option) \<Rightarrow> option_token \<Rightarrow> string \<Rightarrow> symbol \<Rightarrow> symbol option \<Rightarrow> ktab \<Rightarrow> (symbol option \<times> ktab) option" where
  "menu_add_option getenv token arg s defconfig_list st = (case token of
     T_OPT_MODULES \<Rightarrow> map_option (\<lambda>m. (defconfig_list,
       prop_alloc \<lparr>p_type = P_DEFAULT, p_text = None, p_visible = None, p_expr = Dep (E_SYMBOL s), p_menu = None, p_file = False\<rparr> m st)) (modules_sym st)
   | T_OPT_DEFCONFIG_LIST \<Rightarrow> Some (case defconfig_list of None \<Rightarrow> Some s | Some d \<Rightarrow> Some d,
       if defconfig_list \<noteq> None \<and> defconfig_list \<noteq> Some s then st\<lparr>zconfnerrs := zconfnerrs st + 1\<rparr> else st)
   | T_OPT_ENV \<Rightarrow> Some (defconfig_list, prop_add_env getenv s arg st))"

definition menu_range_valid_sym :: "ktab \<Rightarrow> symbol \<Rightarrow> symbol \<Rightarrow> bool" where
  "menu_range_valid_sym st s s2 \<longleftrightarrow> s_type (syms st s2) = S_INT \<or> s_type (syms st s2) = S_HEX
     \<or> (s_type (syms st s2) = S_UNKNOWN \<and> (case s_name (syms st s2) of None \<Rightarrow> False | Some x \<Rightarrow> sym_string_valid st s x))"

section \<open>Reading\<close>

definition prompt_of :: "ktab \<Rightarrow> menu \<Rightarrow> property option" where
  "prompt_of st x = (case m_prompt x of None \<Rightarrow> None | Some (Own p) \<Rightarrow> Some p
     | Some (Of_Symbol i) \<Rightarrow> map_option (\<lambda>s. s_prop (syms st s) ! i) (m_sym x))"

definition menu_get_prompt :: "ktab \<Rightarrow> menu \<Rightarrow> string option" where
  "menu_get_prompt st x = (case prompt_of st x of Some p \<Rightarrow> p_text p
     | None \<Rightarrow> (case m_sym x of None \<Rightarrow> None | Some s \<Rightarrow> s_name (syms st s)))"

definition menu_has_help :: "menu \<Rightarrow> bool" where
  "menu_has_help x \<longleftrightarrow> m_help x \<noteq> None"

definition menu_get_help :: "menu \<Rightarrow> string" where
  "menu_get_help x = (case m_help x of Some h \<Rightarrow> h | None \<Rightarrow> [])"

text \<open>The innermost enclosing menu, or the root; not returning (a ring of parents) is \<open>None\<close>, as is the null pointer.\<close>

partial_function (option) menu_get_parent_menu :: "ktab \<Rightarrow> menus \<Rightarrow> nat \<Rightarrow> nat option" where
  "menu_get_parent_menu st ms m = (if m = 0 then Some m
     else if map_option p_type (prompt_of st (node ms m)) = Some P_MENU then Some m
     else case m_parent (node ms m) of None \<Rightarrow> None | Some q \<Rightarrow> menu_get_parent_menu st ms q)"

text \<open>The visibility of an entry without symbol.\<close>

definition comment_visible :: "nat \<Rightarrow> menu \<Rightarrow> ktab \<Rightarrow> (bool \<times> ktab) option" where
  "comment_visible n x st = (case prompt_of st x of None \<Rightarrow> Some (False, st)
     | Some p \<Rightarrow> do { (t, st) \<leftarrow> calc_opt (sym_calc_value n) (p_visible p) st; Some (t \<noteq> No, st) })"

text \<open>The visibility of any entry. What the evaluation of the symbol leaves in the prompt is evaluated again here, which gives the same
  as long as the symbols it depends on are evaluated. An entry that is hidden itself but whose symbol is set is shown for an
  entry below it.\<close>

datatype shown = Shown | Hidden | Ask_Below

definition own_visible :: "nat \<Rightarrow> menu \<Rightarrow> ktab \<Rightarrow> (shown \<times> ktab) option" where
  "own_visible n x st = (case m_sym x of
     None \<Rightarrow> map_option (map_prod (\<lambda>b. if b then Shown else Hidden) id) (comment_visible n x st)
   | Some s \<Rightarrow> if prompt_of st x = None then Some (Hidden, st) else do {
       st \<leftarrow> sym_calc_value n s st;
       (b, st) \<leftarrow> comment_visible n x st;
       Some (if b then Shown else if sym_get_tristate_value st s = No then Hidden else Ask_Below, st) })"

partial_function (option) any_visible :: "nat \<Rightarrow> menus \<Rightarrow> nat option \<Rightarrow> ktab \<Rightarrow> (bool \<times> ktab) option" where
  "any_visible n ms p st = (case p of None \<Rightarrow> Some (False, st) | Some m \<Rightarrow> do {
     (r, st) \<leftarrow> own_visible n (node ms m) st;
     (b, st) \<leftarrow> (if r = Ask_Below then any_visible n ms (m_list (node ms m)) st else Some (r = Shown, st));
     if b then Some (True, st) else any_visible n ms (m_next (node ms m)) st })"

definition menu_is_visible :: "nat \<Rightarrow> menus \<Rightarrow> nat \<Rightarrow> ktab \<Rightarrow> (bool \<times> ktab) option" where
  "menu_is_visible n ms m st = do {
     (r, st) \<leftarrow> own_visible n (node ms m) st;
     if r = Ask_Below then any_visible n ms (m_list (node ms m)) st else Some (r = Shown, st) }"

section \<open>The loop over all menus\<close>

text \<open>From a menu without \<^verbatim>\<open>list\<close> and \<^verbatim>\<open>next\<close> the loop climbs to the first parent with a \<^verbatim>\<open>next\<close>. Not ending is \<open>None\<close>.\<close>

partial_function (option) climb :: "menus \<Rightarrow> nat \<Rightarrow> nat option option" where
  "climb ms m = (case m_parent (node ms m) of None \<Rightarrow> Some None
     | Some q \<Rightarrow> (case m_next (node ms q) of Some x \<Rightarrow> Some (Some x) | None \<Rightarrow> climb ms q))"

definition succ_menu :: "menus \<Rightarrow> nat \<Rightarrow> nat option option" where
  "succ_menu ms m = (case m_list (node ms m) of Some x \<Rightarrow> Some (Some x)
     | None \<Rightarrow> (case m_next (node ms m) of Some x \<Rightarrow> Some (Some x) | None \<Rightarrow> climb ms m))"

partial_function (option) walk :: "menus \<Rightarrow> nat option \<Rightarrow> nat list option" where
  "walk ms p = (case p of None \<Rightarrow> Some [] | Some m \<Rightarrow> do { q \<leftarrow> succ_menu ms m; l \<leftarrow> walk ms q; Some (m # l) })"

end
