(* ===== verification/KFinalize.thy ===== *)
theory KFinalize
  imports KMenu KExprDups
begin

text \<open>
  What is done with the menus after the parser has built them: \<^verbatim>\<open>menu_finalize\<close> of \<^verbatim>\<open>package/config/menu.c\<close>. It propagates the dependencies
  of a menu to the menus below it and to their properties, adds the reverse dependencies of \<^verbatim>\<open>select\<close>, moves the entries that
  depend on the entry before them into a list below it, completes choices, and lifts the entries of lists without a prompt.
  The recursion gets a depth; the loops along the pointers are partial functions. \<open>None\<close> is a null pointer that is followed, a loop that
  does not end, or the end of the depth. Warnings are left out.
\<close>

section \<open>Loops over a list of menus\<close>

text \<open>The menus from \<open>p\<close> on, following \<^verbatim>\<open>next\<close>.\<close>

partial_function (option) chain :: "menus \<Rightarrow> nat option \<Rightarrow> nat list option" where
  "chain ms p = (case p of None \<Rightarrow> Some [] | Some m \<Rightarrow> do { l \<leftarrow> chain ms (m_next (node ms m)); Some (m # l) })"

text \<open>A choice without a type takes the type of its first value that has one; values without a type take the type of the choice.\<close>

fun first_type :: "menus \<Rightarrow> ktab \<Rightarrow> nat list \<Rightarrow> symbol_type option" where
  "first_type ms st [] = None"
| "first_type ms st (m # l) = (case m_sym (node ms m) of None \<Rightarrow> first_type ms st l
     | Some v \<Rightarrow> if s_type (syms st v) \<noteq> S_UNKNOWN then Some (s_type (syms st v)) else first_type ms st l)"

fun set_types :: "symbol \<Rightarrow> nat list \<Rightarrow> menus \<Rightarrow> ktab \<Rightarrow> (menus \<times> ktab) option" where
  "set_types s [] ms st = Some (ms, st)"
| "set_types s (m # l) ms st = (let ms = ms\<lparr>current_entry := m\<rparr> in
     if (case m_sym (node ms m) of None \<Rightarrow> False | Some v \<Rightarrow> s_type (syms st v) = S_UNKNOWN)
     then do { st \<leftarrow> menu_set_type (s_type (syms st s)) ms st; set_types s l ms st }
     else set_types s l ms st)"

definition choice_types :: "nat \<Rightarrow> symbol \<Rightarrow> nat list \<Rightarrow> menus \<Rightarrow> ktab \<Rightarrow> (menus \<times> ktab) option" where
  "choice_types q s l ms st = do {
     (ms, st) \<leftarrow> (if s_type (syms st s) \<noteq> S_UNKNOWN then Some (ms, st)
       else let ms = ms\<lparr>current_entry := q\<rparr> in case first_type ms st l of None \<Rightarrow> Some (ms, st)
         | Some ty \<Rightarrow> map_option (Pair ms) (menu_set_type ty ms st));
     set_types s l ms st }"

section \<open>Dependencies\<close>

definition parent_dep :: "menus \<Rightarrow> ktab \<Rightarrow> nat \<Rightarrow> expr option" where
  "parent_dep ms st q = (case m_sym (node ms q) of
     Some s \<Rightarrow> if sym_is_choice st s then Some (E_SYMBOL s)
       else (case prompt_of st (node ms q) of Some p \<Rightarrow> p_visible p | None \<Rightarrow> m_dep (node ms q))
   | None \<Rightarrow> (case prompt_of st (node ms q) of Some p \<Rightarrow> p_visible p | None \<Rightarrow> m_dep (node ms q)))"

definition base_dep :: "symtab \<Rightarrow> expr option \<Rightarrow> expr option \<Rightarrow> expr option" where
  "base_dep T up e = map_option (expr_eliminate_dups T) (expr_alloc_and up (map_option (expr_transform T) e))"

text \<open>The selected symbol gets the selecting one and the condition as reverse dependency.\<close>

definition add_select :: "symbol option \<Rightarrow> property \<Rightarrow> ktab \<Rightarrow> ktab option" where
  "add_select s p st = do { s \<leftarrow> s; es \<leftarrow> prop_get_symbol p;
     Some (upd es (\<lambda>k. k\<lparr>s_rev_expr := expr_alloc_or (s_rev_expr k) (expr_alloc_and (Some (E_SYMBOL s)) (p_visible p))\<rparr>) st) }"

definition add_dep :: "ktab \<Rightarrow> symbol option \<Rightarrow> expr option \<Rightarrow> property \<Rightarrow> property" where
  "add_dep st s base p = (let dep = base_dep (tab_of st) base (p_visible p) in
     p\<lparr>p_visible := if (case s of None \<Rightarrow> False | Some v \<Rightarrow> s_type (syms st v) \<noteq> S_TRISTATE) then map_option (expr_trans_bool (tab_of st)) dep else dep\<rparr>)"

fun prop_deps :: "nat \<Rightarrow> symbol option \<Rightarrow> expr option \<Rightarrow> property list \<Rightarrow> ktab \<Rightarrow> (property list \<times> ktab) option" where
  "prop_deps m s base [] st = Some ([], st)"
| "prop_deps m s base (p # ps) st =
     (if p_menu p \<noteq> Some m then do { (qs, st) \<leftarrow> prop_deps m s base ps st; Some (p # qs, st) }
      else let p = add_dep st s base p in do {
        st \<leftarrow> (if p_type p = P_SELECT then add_select s p st else Some st);
        (qs, st) \<leftarrow> prop_deps m s base ps st;
        Some (p # qs, st) })"

text \<open>One menu of the list: its dependency, and the conditions of the properties that belong to it.\<close>

definition propagate :: "expr option \<Rightarrow> nat \<Rightarrow> menus \<Rightarrow> ktab \<Rightarrow> (menus \<times> ktab) option" where
  "propagate up m ms st =
     (let base = base_dep (tab_of st) up (m_dep (node ms m)); ms = upd_menu m (\<lambda>x. x\<lparr>m_dep := base\<rparr>) ms in
      case m_sym (node ms m) of
        Some v \<Rightarrow> do { (ps, st) \<leftarrow> prop_deps m (Some v) base (s_prop (syms st v)) st; Some (ms, upd v (\<lambda>k. k\<lparr>s_prop := ps\<rparr>) st) }
      | None \<Rightarrow> (case m_prompt (node ms m) of
          Some (Own p) \<Rightarrow> do { (ps, st) \<leftarrow> prop_deps m None base [p] st; Some (upd_menu m (\<lambda>x. x\<lparr>m_prompt := Some (Own (hd ps))\<rparr>) ms, st) }
        | _ \<Rightarrow> Some (ms, st)))"

fun propagate_all :: "expr option \<Rightarrow> nat list \<Rightarrow> menus \<Rightarrow> ktab \<Rightarrow> (menus \<times> ktab) option" where
  "propagate_all up [] ms st = Some (ms, st)"
| "propagate_all up (m # l) ms st = do { (ms, st) \<leftarrow> propagate up m ms st; propagate_all up l ms st }"

section \<open>Entries that depend on the one before\<close>

type_synonym finalizer = "nat \<Rightarrow> menus \<Rightarrow> ktab \<Rightarrow> (menus \<times> ktab) option"

definition entry_dep :: "ktab \<Rightarrow> menu \<Rightarrow> expr option" where
  "entry_dep st x = (case prompt_of st x of Some p \<Rightarrow> p_visible p | None \<Rightarrow> m_dep x)"

text \<open>The condition that an expression is not \<^verbatim>\<open>n\<close>, in normal form.\<close>

definition not_no :: "symtab \<Rightarrow> expr option \<Rightarrow> expr option" where
  "not_no T e = map_option (\<lambda>e. expr_eliminate_dups T (expr_transform T e)) (expr_trans_compare e T_UNEQUAL symbol_no)"

definition eliminate_eq_opt :: "expr option \<Rightarrow> expr option \<Rightarrow> expr option \<times> expr option" where
  "eliminate_eq_opt e1 e2 = (case (e1, e2) of (Some a, Some b) \<Rightarrow> map_prod Some Some (expr_eliminate_eq a b) | _ \<Rightarrow> (e1, e2))"

definition depends_on :: "symtab \<Rightarrow> symbol \<Rightarrow> expr option \<Rightarrow> expr option \<Rightarrow> bool" where
  "depends_on T s base dep \<longleftrightarrow> (case dep of None \<Rightarrow> False | Some e \<Rightarrow> expr_contains_symbol e s
     \<and> (expr_depends_symbol e s \<or> expr_is_yes (snd (eliminate_eq_opt (not_no T dep) base))))"

text \<open>The entries after \<open>q\<close> that depend on its symbol \<open>s\<close> get \<open>q\<close> as parent; the first result is the last of them.\<close>

partial_function (option) absorb ::
  "finalizer \<Rightarrow> nat \<Rightarrow> symbol \<Rightarrow> expr option \<Rightarrow> nat option \<Rightarrow> nat option \<Rightarrow> menus \<Rightarrow> ktab \<Rightarrow> (nat option \<times> menus \<times> ktab) option" where
  "absorb rec q s base p found ms st = (case p of None \<Rightarrow> Some (found, ms, st)
     | Some m \<Rightarrow> if \<not> depends_on (tab_of st) s base (entry_dep st (node ms m)) then Some (found, ms, st)
         else do {
           (ms, st) \<leftarrow> rec m ms st;
           let ms = upd_menu m (\<lambda>x. x\<lparr>m_parent := Some q\<rparr>) ms;
           absorb rec q s base (m_next (node ms m)) (Some m) ms st })"

definition cut_list :: "nat \<Rightarrow> nat option \<Rightarrow> menus \<Rightarrow> menus" where
  "cut_list q found ms = (case found of None \<Rightarrow> ms
     | Some l \<Rightarrow> upd_menu l (\<lambda>x. x\<lparr>m_next := None\<rparr>) (upd_menu q (\<lambda>x. x\<lparr>m_list := m_next x, m_next := m_next (node ms l)\<rparr>) ms))"

definition make_submenu :: "finalizer \<Rightarrow> nat \<Rightarrow> symbol \<Rightarrow> menus \<Rightarrow> ktab \<Rightarrow> (menus \<times> ktab) option" where
  "make_submenu rec q s ms st = do {
     let base = not_no (tab_of st) (Option.bind (prompt_of st (node ms q)) p_visible);
     (found, ms, st) \<leftarrow> absorb rec q s base (m_next (node ms q)) None ms st;
     Some (cut_list q found ms, st) }"

section \<open>Choices, and lists without a prompt\<close>

fun append_value :: "symbol \<Rightarrow> property list \<Rightarrow> property list option" where
  "append_value v [] = None"
| "append_value v (p # ps) = (if p_type p \<noteq> P_CHOICE then map_option (Cons p) (append_value v ps)
     else case p_expr p of No_Expr \<Rightarrow> Some (p\<lparr>p_expr := Sym_List [v]\<rparr> # ps)
       | Sym_List l \<Rightarrow> Some (p\<lparr>p_expr := Sym_List (l @ [v])\<rparr> # ps)
       | _ \<Rightarrow> None)"

definition is_new_value :: "ktab \<Rightarrow> symbol option \<Rightarrow> menu \<Rightarrow> bool" where
  "is_new_value st s x \<longleftrightarrow> (case s of None \<Rightarrow> False | Some s \<Rightarrow> sym_is_choice st s)
     \<and> (case m_sym x of None \<Rightarrow> False | Some v \<Rightarrow> \<not> sym_is_choice_value st v)"

text \<open>A value that is not tristate depends on a tristate choice being \<^verbatim>\<open>y\<close>.\<close>

definition needs_yes :: "symbol \<Rightarrow> symbol \<Rightarrow> nat \<Rightarrow> menus \<Rightarrow> ktab \<Rightarrow> menus \<times> ktab" where
  "needs_yes s v m ms st = (if s_type (syms st s) = S_TRISTATE \<and> s_type (syms st v) \<noteq> S_TRISTATE
     then (let base = Some (E_EQUAL s symbol_yes) in
       (upd_menu m (\<lambda>x. x\<lparr>m_dep := expr_alloc_and base (m_dep x)\<rparr>) ms,
        upd v (\<lambda>k. k\<lparr>s_prop := map (\<lambda>p. if p_menu p \<noteq> Some m then p else p\<lparr>p_visible := expr_alloc_and base (p_visible p)\<rparr>) (s_prop k)\<rparr>) st))
     else (ms, st))"

definition add_choice_value :: "symbol option \<Rightarrow> nat \<Rightarrow> menus \<Rightarrow> ktab \<Rightarrow> (menus \<times> ktab) option" where
  "add_choice_value s m ms st = (if \<not> is_new_value st s (node ms m) then Some (ms, st) else do {
     s \<leftarrow> s;
     v \<leftarrow> m_sym (node ms m);
     let ms = ms\<lparr>current_entry := m\<rparr>;
     let (ms, st) = needs_yes s v m ms (set_flag SYMBOL_CHOICEVAL v st);
     let (ms, st) = menu_add_symbol P_CHOICE s None symbol_mod ms st;
     ps \<leftarrow> append_value v (s_prop (syms st s));
     Some (ms, upd s (\<lambda>k. k\<lparr>s_prop := ps\<rparr>) st) })"

text \<open>The entries below a menu without prompt come after it.\<close>

definition no_text :: "ktab \<Rightarrow> menu \<Rightarrow> bool" where
  "no_text st x \<longleftrightarrow> (case prompt_of st x of None \<Rightarrow> True | Some p \<Rightarrow> p_text p = None)"

definition set_parents :: "nat \<Rightarrow> nat list \<Rightarrow> menus \<Rightarrow> menus" where
  "set_parents q l ms = fold (\<lambda>m. upd_menu m (\<lambda>x. x\<lparr>m_parent := Some q\<rparr>)) l ms"

definition lift_list :: "nat \<Rightarrow> nat \<Rightarrow> menus \<Rightarrow> ktab \<Rightarrow> menus option" where
  "lift_list q m ms st = (if m_list (node ms m) = None \<or> \<not> no_text st (node ms m) then Some ms else do {
     l \<leftarrow> chain ms (m_list (node ms m));
     let ms = set_parents q l ms;
     let ms = upd_menu (last l) (\<lambda>x. x\<lparr>m_next := m_next (node ms m)\<rparr>) ms;
     Some (upd_menu m (\<lambda>x. x\<lparr>m_next := m_list x, m_list := None\<rparr>) ms) })"

partial_function (option) adopt :: "nat \<Rightarrow> symbol option \<Rightarrow> nat option \<Rightarrow> menus \<Rightarrow> ktab \<Rightarrow> (menus \<times> ktab) option" where
  "adopt q s p ms st = (case p of None \<Rightarrow> Some (ms, st) | Some m \<Rightarrow> do {
     (ms, st) \<leftarrow> add_choice_value s m ms st;
     ms \<leftarrow> lift_list q m ms st;
     adopt q s (m_next (node ms m)) ms st })"

section \<open>The whole\<close>

text \<open>An entry that is not optional is at least \<^verbatim>\<open>m\<close> where its prompt is visible.\<close>

definition not_optional :: "nat \<Rightarrow> menus \<Rightarrow> ktab \<Rightarrow> ktab" where
  "not_optional q ms st = (case (m_sym (node ms q), prompt_of st (node ms q)) of
     (Some s, Some p) \<Rightarrow> if has_flag st s SYMBOL_OPTIONAL then st
       else upd s (\<lambda>k. k\<lparr>s_rev_expr := expr_alloc_or (s_rev_expr k) (expr_alloc_and (p_visible p) (Some (E_SYMBOL symbol_mod)))\<rparr>) st
   | _ \<Rightarrow> st)"

partial_function (option) finalize_each :: "finalizer \<Rightarrow> nat option \<Rightarrow> menus \<Rightarrow> ktab \<Rightarrow> (menus \<times> ktab) option" where
  "finalize_each rec p ms st = (case p of None \<Rightarrow> Some (ms, st) | Some m \<Rightarrow> do {
     (ms, st) \<leftarrow> rec m ms st;
     finalize_each rec (m_next (node ms m)) ms st })"

definition finalize_list :: "finalizer \<Rightarrow> nat \<Rightarrow> menus \<Rightarrow> ktab \<Rightarrow> (menus \<times> ktab) option" where
  "finalize_list rec q ms st = do {
     l \<leftarrow> chain ms (m_list (node ms q));
     (ms, st) \<leftarrow> (case m_sym (node ms q) of None \<Rightarrow> Some (ms, st)
       | Some s \<Rightarrow> if sym_is_choice st s then choice_types q s l ms st else Some (ms, st));
     (ms, st) \<leftarrow> propagate_all (parent_dep ms st q) l ms st;
     finalize_each rec (m_list (node ms q)) ms st }"

fun menu_finalize :: "nat \<Rightarrow> finalizer" where
  "menu_finalize 0 q ms st = None"
| "menu_finalize (Suc n) q ms st = do {
     (ms, st) \<leftarrow> (if m_list (node ms q) \<noteq> None then finalize_list (menu_finalize n) q ms st
       else case m_sym (node ms q) of None \<Rightarrow> Some (ms, st) | Some s \<Rightarrow> make_submenu (menu_finalize n) q s ms st);
     (ms, st) \<leftarrow> adopt q (m_sym (node ms q)) (m_list (node ms q)) ms st;
     let st = (case m_sym (node ms q) of None \<Rightarrow> st | Some s \<Rightarrow> set_flag SYMBOL_WARNED s st);
     Some (ms, not_optional q ms st) }"

end
