(* ===== verification/KMenuProps.thy ===== *)
theory KMenuProps
  imports KMenu
begin

text \<open>
  The loop over all menus visits the tree in preorder, and the tree that the parser builds is visited in the order in
  which its entries were added.
\<close>

section \<open>Forests\<close>

datatype mtree = Node nat "mtree list"

fun preorders :: "mtree list \<Rightarrow> nat list" where
  "preorders [] = []"
| "preorders (Node m cs # ts) = m # preorders cs @ preorders ts"

text \<open>The list of menus that begins at \<open>p\<close> under the parent \<open>q\<close> is the forest.\<close>

fun forest :: "menus \<Rightarrow> nat \<Rightarrow> nat option \<Rightarrow> mtree list \<Rightarrow> bool" where
  "forest ms q p [] \<longleftrightarrow> p = None"
| "forest ms q p (Node m cs # ts) \<longleftrightarrow> p = Some m \<and> m_parent (node ms m) = Some q
     \<and> forest ms m (m_list (node ms m)) cs \<and> forest ms q (m_next (node ms m)) ts"

lemma forest_frame: "forest ms q p ts \<Longrightarrow> (\<And>m. m \<in> set (preorders ts) \<Longrightarrow> node ms' m = node ms m) \<Longrightarrow> forest ms' q p ts"
  by (induction ms q p ts rule: forest.induct) auto

section \<open>Walking\<close>

text \<open>Where the loop goes on when the list under a menu is done.\<close>

definition after_list :: "menus \<Rightarrow> nat \<Rightarrow> nat option option" where
  "after_list ms q = (case m_next (node ms q) of Some x \<Rightarrow> Some (Some x) | None \<Rightarrow> climb ms q)"

lemma climb_parent: "m_parent (node ms m) = Some q \<Longrightarrow> climb ms m = after_list ms q"
  by (subst climb.simps) (simp add: after_list_def)

lemma walk_None [simp]: "walk ms None = Some []"
  by (subst walk.simps) simp

lemma walk_Some: "walk ms (Some m) = do { q \<leftarrow> succ_menu ms m; l \<leftarrow> walk ms q; Some (m # l) }"
  by (subst walk.simps) simp

definition first_or :: "nat option \<Rightarrow> nat option \<Rightarrow> nat option" where
  "first_or r p = (case p of None \<Rightarrow> r | Some m \<Rightarrow> Some m)"

lemma walk_forest:
  "forest ms q p ts \<Longrightarrow> after_list ms q = Some r \<Longrightarrow> walk ms r = Some l \<Longrightarrow> walk ms (first_or r p) = Some (preorders ts @ l)"
proof (induction ms q p ts arbitrary: r l rule: forest.induct)
  case (1 ms q p)
  then show ?case by (simp add: first_or_def)
next
  case (2 ms q p m cs ts)
  have p: "p = Some m" and cs: "forest ms m (m_list (node ms m)) cs" and ts: "forest ms q (m_next (node ms m)) ts"
    and q: "m_parent (node ms m) = Some q" using 2(3) by simp_all
  let ?r = "first_or r (m_next (node ms m))"
  have a: "after_list ms m = Some ?r"
    using 2(4) climb_parent [OF q] by (simp add: after_list_def [of ms m] first_or_def split: option.split)
  have "walk ms ?r = Some (preorders ts @ l)" by (rule 2(2) [OF ts 2(4,5)])
  note w = 2(1) [OF cs a this]
  have "succ_menu ms m = Some (first_or ?r (m_list (node ms m)))"
    using a by (simp add: succ_menu_def first_or_def [of ?r] after_list_def split: option.split)
  then show ?case using w by (simp add: p first_or_def [of r "Some m"] walk_Some)
qed

theorem walk_preorder:
  assumes "forest ms 0 (m_list (node ms 0)) ts" "m_next (node ms 0) = None" "m_parent (node ms 0) = None"
  shows "walk ms (m_list (node ms 0)) = Some (preorders ts)"
proof -
  have "after_list ms 0 = Some None" using assms(2,3) by (subst after_list_def, subst climb.simps) simp
  from walk_forest [OF assms(1) this] show ?thesis by (simp add: first_or_def split: option.splits)
qed

section \<open>Building\<close>

text \<open>What the parser does for a file: entries, and entries with a list of their own.\<close>

datatype item = Entry "symbol option" | Group "symbol option" "item list"

fun build :: "item list \<Rightarrow> menus \<Rightarrow> menus option" where
  "build [] ms = Some ms"
| "build (Entry s # js) ms = build js (menu_add_entry s ms)"
| "build (Group s is # js) ms = do {
     ms \<leftarrow> build is (menu_add_menu (menu_add_entry s ms));
     ms \<leftarrow> menu_end_menu ms;
     build js ms }"

fun entries :: "item list \<Rightarrow> symbol option list" where
  "entries [] = []"
| "entries (Entry s # js) = s # entries js"
| "entries (Group s is # js) = s # entries is @ entries js"

text \<open>Between two entries: the place for the next one is free.\<close>

definition link_menu :: "link \<Rightarrow> nat" where
  "link_menu l = (case l of Next_of m \<Rightarrow> m | List_of m \<Rightarrow> m)"

definition link_value :: "menus \<Rightarrow> link \<Rightarrow> nat option" where
  "link_value ms l = (case l of Next_of m \<Rightarrow> m_next (node ms m) | List_of m \<Rightarrow> m_list (node ms m))"

definition building :: "menus \<Rightarrow> bool" where
  "building ms \<longleftrightarrow> link_value ms (last_entry_ptr ms) = None \<and> link_menu (last_entry_ptr ms) < next_menu ms \<and> current_menu ms < next_menu ms"

text \<open>The forest \<open>ts\<close> was appended; older menus are unchanged but for the link to it.\<close>

definition appended :: "menus \<Rightarrow> mtree list \<Rightarrow> menus \<Rightarrow> bool" where
  "appended ms ts ms' \<longleftrightarrow> building ms' \<and> current_menu ms' = current_menu ms \<and> next_menu ms \<le> next_menu ms'
     \<and> preorders ts = [next_menu ms ..< next_menu ms']
     \<and> (\<exists>p. forest ms' (current_menu ms) p ts \<and> (\<forall>x < next_menu ms. node ms' x = node (put_link (last_entry_ptr ms) p ms) x))"

lemma node_put_link: "node (put_link l p ms) x = (if x = link_menu l
    then (case l of Next_of m \<Rightarrow> (node ms x)\<lparr>m_next := p\<rparr> | List_of m \<Rightarrow> (node ms x)\<lparr>m_list := p\<rparr>) else node ms x)"
  by (cases l) (auto simp: put_link_def upd_menu_def link_menu_def)

lemma put_link_frame [simp]: "next_menu (put_link l p ms) = next_menu ms" "current_menu (put_link l p ms) = current_menu ms"
  "last_entry_ptr (put_link l p ms) = last_entry_ptr ms" "current_entry (put_link l p ms) = current_entry ms"
  by (cases l; simp add: put_link_def upd_menu_def)+

lemma add_entry_frame:
  shows "next_menu (menu_add_entry s ms) = Suc (next_menu ms)" "current_menu (menu_add_entry s ms) = current_menu ms"
    "current_entry (menu_add_entry s ms) = next_menu ms" "last_entry_ptr (menu_add_entry s ms) = Next_of (next_menu ms)"
  by (simp_all add: menu_add_entry_def Let_def)

lemma add_entry_new: "building ms \<Longrightarrow> node (menu_add_entry s ms) (next_menu ms) = new_menu (Some (current_menu ms)) s"
  by (auto simp: menu_add_entry_def Let_def node_put_link building_def)

lemma add_entry_old: "x < next_menu ms \<Longrightarrow>
    node (menu_add_entry s ms) x = node (put_link (last_entry_ptr ms) (Some (next_menu ms)) ms) x"
  by (simp add: menu_add_entry_def Let_def node_put_link split: link.split)

lemmas new_menu_simps = new_menu_def menu.simps

lemma building_add: "building ms \<Longrightarrow> building (menu_add_entry s ms)"
  unfolding building_def [of "menu_add_entry s ms"]
  by (simp add: add_entry_frame link_value_def add_entry_new link_menu_def new_menu_simps) (simp add: building_def)

lemma building_menu: "building ms \<Longrightarrow> building (menu_add_menu (menu_add_entry s ms))"
  by (subst building_def) (simp add: menu_add_menu_def add_entry_frame link_value_def add_entry_new link_menu_def new_menu_simps)

lemma appended_nil: "building ms \<Longrightarrow> appended ms [] ms"
  unfolding appended_def
  by (intro conjI exI [of _ None] allI impI) (auto simp: building_def node_put_link link_value_def link_menu_def split: link.splits)

text \<open>The end of the list under the new menu.\<close>

lemma end_menu:
  assumes b: "building ms" and a: "appended (menu_add_menu (menu_add_entry s ms)) cs ms'"
  obtains p where "menu_end_menu ms' = Some (ms'\<lparr>last_entry_ptr := Next_of (next_menu ms), current_menu := current_menu ms\<rparr>)"
    "building (ms'\<lparr>last_entry_ptr := Next_of (next_menu ms), current_menu := current_menu ms\<rparr>)"
    "node ms' (next_menu ms) = (new_menu (Some (current_menu ms)) s)\<lparr>m_list := p\<rparr>"
    "forest ms' (next_menu ms) p cs" "preorders cs = [Suc (next_menu ms) ..< next_menu ms']" "next_menu ms < next_menu ms'"
    "\<And>x. x < next_menu ms \<Longrightarrow> node ms' x = node (put_link (last_entry_ptr ms) (Some (next_menu ms)) ms) x"
proof -
  let ?k = "next_menu ms" and ?ms1 = "menu_add_menu (menu_add_entry s ms)"
  have 1: "node ?ms1 = node (menu_add_entry s ms)" "next_menu ?ms1 = Suc ?k" "current_menu ?ms1 = ?k" "last_entry_ptr ?ms1 = List_of ?k"
    by (simp_all add: menu_add_menu_def add_entry_frame)
  obtain p where p: "forest ms' ?k p cs" "\<And>x. x < Suc ?k \<Longrightarrow> node ms' x = node (put_link (List_of ?k) p ?ms1) x"
    using a unfolding appended_def 1 by blast
  have n: "next_menu ms' > ?k" "preorders cs = [Suc ?k ..< next_menu ms']" "current_menu ms' = ?k"
    using a unfolding appended_def 1 by simp_all
  have k: "node ms' ?k = (new_menu (Some (current_menu ms)) s)\<lparr>m_list := p\<rparr>"
    using p(2) [of ?k] by (simp add: node_put_link link_menu_def 1 add_entry_new [OF b])
  have old: "node ms' x = node (put_link (last_entry_ptr ms) (Some ?k) ms) x" if "x < ?k" for x
    using p(2) [of x] that by (simp add: node_put_link link_menu_def 1 add_entry_old)
  have e: "menu_end_menu ms' = Some (ms'\<lparr>last_entry_ptr := Next_of ?k, current_menu := current_menu ms\<rparr>)"
    unfolding menu_end_menu_def n(3) k by (simp add: new_menu_simps)
  have "building (ms'\<lparr>last_entry_ptr := Next_of ?k, current_menu := current_menu ms\<rparr>)"
    using n(1) b k by (simp add: building_def link_value_def link_menu_def new_menu_simps)
  then show ?thesis using that [OF e _ k p(1) n(2,1) old] by blast
qed

lemma appended_cons:
  assumes b: "building ms" and a: "appended (menu_add_menu (menu_add_entry s ms)) cs ms1" and e: "menu_end_menu ms1 = Some ms2"
    and r: "appended ms2 ts ms'"
  shows "building ms2" "appended ms (Node (next_menu ms) cs # ts) ms'"
    "m_sym (node ms' (next_menu ms)) = s" "\<forall>x \<in> set (preorders cs). m_sym (node ms' x) = m_sym (node ms1 x)"
proof -
  let ?k = "next_menu ms"
  from end_menu [OF b a] e obtain p where
    ms2: "ms2 = ms1\<lparr>last_entry_ptr := Next_of ?k, current_menu := current_menu ms\<rparr>" and b2: "building ms2"
    and k: "node ms1 ?k = (new_menu (Some (current_menu ms)) s)\<lparr>m_list := p\<rparr>"
    and cs: "forest ms1 ?k p cs" "preorders cs = [Suc ?k ..< next_menu ms1]" and n1: "?k < next_menu ms1"
    and old: "\<And>x. x < ?k \<Longrightarrow> node ms1 x = node (put_link (last_entry_ptr ms) (Some ?k) ms) x" by (metis option.inject)
  show "building ms2" by (rule b2)
  have 2: "node ms2 = node ms1" "next_menu ms2 = next_menu ms1" "current_menu ms2 = current_menu ms" "last_entry_ptr ms2 = Next_of ?k"
    by (simp_all add: ms2)
  from r obtain p2 where ts: "forest ms' (current_menu ms) p2 ts"
    and old2: "\<And>x. x < next_menu ms1 \<Longrightarrow> node ms' x = node (put_link (Next_of ?k) p2 ms2) x"
    and n2: "next_menu ms1 \<le> next_menu ms'" "preorders ts = [next_menu ms1 ..< next_menu ms']" "building ms'" "current_menu ms' = current_menu ms"
    unfolding appended_def 2 by auto
  have keep: "node ms' x = node ms1 x" if "x < next_menu ms1" "x \<noteq> ?k" for x
    using old2 [OF that(1)] that(2) by (simp add: node_put_link link_menu_def 2)
  have k2: "node ms' ?k = (new_menu (Some (current_menu ms)) s)\<lparr>m_list := p, m_next := p2\<rparr>"
    using old2 [OF n1] by (simp add: node_put_link link_menu_def 2 k)
  then show "m_sym (node ms' ?k) = s" by (simp add: new_menu_simps)
  have keep_cs: "node ms' x = node ms1 x" if "x \<in> set (preorders cs)" for x
    using that by (intro keep) (auto simp: cs(2))
  then show "\<forall>x \<in> set (preorders cs). m_sym (node ms' x) = m_sym (node ms1 x)" by simp
  have f: "forest ms' (current_menu ms) (Some ?k) (Node ?k cs # ts)"
    using forest_frame [OF cs(1) keep_cs] ts by (simp add: k2 new_menu_simps)
  have "node ms' x = node (put_link (last_entry_ptr ms) (Some ?k) ms) x" if "x < ?k" for x
    using keep [of x] old [OF that] that n1 by simp
  with f have "\<exists>q. forest ms' (current_menu ms) q (Node ?k cs # ts) \<and> (\<forall>x < ?k. node ms' x = node (put_link (last_entry_ptr ms) q ms) x)"
    by blast
  moreover have "preorders (Node ?k cs # ts) = [?k ..< next_menu ms']"
    using n1 n2(1) upt_add_eq_append [of "Suc ?k" "next_menu ms1" "next_menu ms' - next_menu ms1"]
    by (simp add: cs(2) n2(2) upt_conv_Cons [of ?k])
  ultimately show "appended ms (Node ?k cs # ts) ms'"
    unfolding appended_def using n1 n2 by simp
qed

lemma build_appended:
  "building ms \<Longrightarrow> \<exists>ms' ts. build is ms = Some ms' \<and> appended ms ts ms' \<and> map (\<lambda>x. m_sym (node ms' x)) (preorders ts) = entries is"
proof (induction "is" ms rule: build.induct)
  case (1 ms)
  then show ?case using appended_nil [of ms] by (intro exI [of _ ms] exI [of _ "[]"]) simp
next
  case (2 s js ms)
  let ?ms1 = "menu_add_menu (menu_add_entry s ms)"
  have a: "appended ?ms1 [] ?ms1" by (intro appended_nil building_menu 2)
  have e: "menu_end_menu ?ms1 = Some (menu_add_entry s ms)"
    using add_entry_new [OF 2(2), of s]
    by (simp add: menu_add_menu_def add_entry_frame menu_end_menu_def new_menu_simps)
  from 2(1) [OF building_add [OF 2(2)]] obtain ms' ts where r: "build js (menu_add_entry s ms) = Some ms'"
    "appended (menu_add_entry s ms) ts ms'" "map (\<lambda>x. m_sym (node ms' x)) (preorders ts) = entries js" by blast
  note c = appended_cons [OF 2(2) a e r(2)]
  show ?case using r c by (intro exI [of _ ms'] exI [of _ "Node (next_menu ms) [] # ts"]) simp
next
  case (3 s "is" js ms)
  let ?ms1 = "menu_add_menu (menu_add_entry s ms)"
  from 3(1) [OF building_menu [OF 3(3)]] obtain ms1 cs where i: "build is ?ms1 = Some ms1" "appended ?ms1 cs ms1"
    "map (\<lambda>x. m_sym (node ms1 x)) (preorders cs) = entries is" by blast
  from end_menu [OF 3(3) i(2)] obtain ms2 where e: "menu_end_menu ms1 = Some ms2" "building ms2" by metis
  from 3(2) [OF i(1) e] obtain ms' ts where r: "build js ms2 = Some ms'"
    "appended ms2 ts ms'" "map (\<lambda>x. m_sym (node ms' x)) (preorders ts) = entries js" by blast
  note c = appended_cons [OF 3(3) i(2) e(1) r(2)]
  have "map (\<lambda>x. m_sym (node ms' x)) (preorders cs) = entries is" using c(4) i(3) by (metis (mono_tags, lifting) map_eq_conv)
  then show ?case using i(1) e(1) r c by (intro exI [of _ ms'] exI [of _ "Node (next_menu ms) cs # ts"]) simp
qed

text \<open>From the empty tree: the whole forest below the root.\<close>

lemma build_tree:
  obtains ms ts where "build is no_menus = Some ms" "forest ms 0 (m_list (node ms 0)) ts" "preorders ts = [1..<next_menu ms]"
    "m_next (node ms 0) = None" "m_parent (node ms 0) = None" "map (\<lambda>m. m_sym (node ms m)) [1..<next_menu ms] = entries is"
proof -
  have b: "building no_menus" by (simp add: building_def no_menus_def link_value_def link_menu_def new_menu_simps)
  from build_appended [OF this, of "is"] obtain ms ts where ms: "build is no_menus = Some ms" "appended no_menus ts ms"
    "map (\<lambda>x. m_sym (node ms x)) (preorders ts) = entries is" by blast
  from ms(2) obtain p where p: "forest ms 0 p ts" "preorders ts = [1..<next_menu ms]"
      "node ms 0 = node (put_link (List_of 0) p no_menus) 0"
    unfolding appended_def by (auto simp: no_menus_def)
  have 0: "m_list (node ms 0) = p" "m_next (node ms 0) = None" "m_parent (node ms 0) = None"
    unfolding p(3) by (simp_all add: node_put_link link_menu_def no_menus_def new_menu_simps)
  show ?thesis using that [OF ms(1)] ms p 0 by simp
qed

text \<open>Claim C36. Whatever nesting of entries the parser adds to the empty tree with \<^verbatim>\<open>menu_add_entry\<close>, \<^verbatim>\<open>menu_add_menu\<close> and
  \<^verbatim>\<open>menu_end_menu\<close>, no step fails, and the loop over all menus that follows the pointers \<^verbatim>\<open>list\<close>, \<^verbatim>\<open>next\<close> and \<^verbatim>\<open>parent\<close> ends and
  visits exactly the menus that were added, each once and in the order of the file.\<close>

theorem menus_in_file_order:
  "\<exists>ms. build is (menu_init no_menus) = Some ms
     \<and> walk ms (m_list (node ms 0)) = Some [1..<next_menu ms]
     \<and> map (\<lambda>m. m_sym (node ms m)) [1..<next_menu ms] = entries is"
proof -
  have init: "menu_init no_menus = no_menus" by (simp add: menu_init_def no_menus_def)
  show ?thesis by (rule build_tree [of "is"]) (use walk_preorder in \<open>auto simp: init\<close>)
qed

end
