(* ===== verification/KFinalizeProps.thy ===== *)
theory KFinalizeProps
  imports KFinalize KMenuProps
begin

text \<open>
  \<^verbatim>\<open>menu_finalize\<close> ends, and although it moves entries into lists below other entries and lifts the entries of lists without prompt,
  the loop over all menus still visits them in the order of the file.
\<close>

section \<open>Parts of a list\<close>

fun root :: "mtree \<Rightarrow> nat" where
  "root (Node m cs) = m"

text \<open>The part of a list from \<open>p\<close> up to the pointer \<open>e\<close>.\<close>

fun part :: "menus \<Rightarrow> nat \<Rightarrow> nat option \<Rightarrow> mtree list \<Rightarrow> nat option \<Rightarrow> bool" where
  "part ms q p [] e \<longleftrightarrow> p = e"
| "part ms q p (Node m cs # ts) e \<longleftrightarrow> p = Some m \<and> m_parent (node ms m) = Some q
     \<and> forest ms m (m_list (node ms m)) cs \<and> part ms q (m_next (node ms m)) ts e"

lemma part_forest: "part ms q p ts None = forest ms q p ts"
  by (induction ts arbitrary: p rule: preorders.induct) simp_all

lemma part_append: "part ms q p as e \<Longrightarrow> part ms q e bs e' \<Longrightarrow> part ms q p (as @ bs) e'"
  by (induction as arbitrary: p rule: preorders.induct) auto

lemma preorders_append [simp]: "preorders (as @ bs) = preorders as @ preorders bs"
  by (induction as rule: preorders.induct) simp_all

lemma roots_in: "set (map root ts) \<subseteq> set (preorders ts)"
  by (induction ts rule: preorders.induct) auto

lemma chain_forest: "forest ms q p ts \<Longrightarrow> chain ms p = Some (map root ts)"
proof (induction ts arbitrary: p rule: preorders.induct)
  case 1
  then show ?case by (subst chain.simps) simp
next
  case (2 m cs ts)
  then show ?case by (subst chain.simps) simp
qed

text \<open>Links of menus.\<close>

definition links :: "menus \<Rightarrow> nat \<Rightarrow> nat option \<times> nat option \<times> nat option" where
  "links ms x = (m_next (node ms x), m_list (node ms x), m_parent (node ms x))"

lemma links_eq: "links ms' x = links ms x \<longleftrightarrow>
    m_next (node ms' x) = m_next (node ms x) \<and> m_list (node ms' x) = m_list (node ms x) \<and> m_parent (node ms' x) = m_parent (node ms x)"
  by (simp add: links_def)

lemma forest_links: "forest ms q p ts \<Longrightarrow> (\<And>x. x \<in> set (preorders ts) \<Longrightarrow> links ms' x = links ms x) \<Longrightarrow> forest ms' q p ts"
  by (induction ms q p ts rule: forest.induct) (auto simp: links_eq)

lemma part_links: "part ms q p ts e \<Longrightarrow> (\<And>x. x \<in> set (preorders ts) \<Longrightarrow> links ms' x = links ms x) \<Longrightarrow> part ms' q p ts e"
proof (induction ts arbitrary: p rule: preorders.induct)
  case (2 m cs ts)
  have "forest ms' m (m_list (node ms m)) cs" by (rule forest_links [of ms]) (use 2(3,4) in auto)
  moreover have "part ms' q (m_next (node ms m)) ts e" by (rule 2(2)) (use 2(3,4) in auto)
  ultimately show ?case using 2(3) 2(4) [of m] by (simp add: links_eq)
qed simp

lemma links_upd: "x \<noteq> m \<Longrightarrow> links (upd_menu m f ms) x = links ms x"
  by (simp add: links_def upd_menu_def)

lemma node_upd [simp]: "node (upd_menu m f ms) x = (if x = m then f (node ms m) else node ms x)"
  by (simp add: upd_menu_def)

text \<open>The end of a part is the pointer in its last menu.\<close>

lemma part_end: "part ms q p ts e \<Longrightarrow> ts \<noteq> [] \<Longrightarrow> m_next (node ms (root (last ts))) = e"
  by (induction ts arbitrary: p rule: preorders.induct) (auto split: if_splits)

lemma last_root: "ts \<noteq> [] \<Longrightarrow> root (last ts) \<in> set (preorders ts)"
  using roots_in [of ts] by (auto simp: subset_iff)

lemma part_retarget:
  "part ms q p ts e \<Longrightarrow> ts \<noteq> [] \<Longrightarrow> distinct (preorders ts) \<Longrightarrow> part (upd_menu (root (last ts)) (\<lambda>x. x\<lparr>m_next := e'\<rparr>) ms) q p ts e'"
proof (induction ts arbitrary: p rule: preorders.induct)
  case (2 m cs ts)
  show ?case
  proof (cases "ts = []")
    case True
    have "forest (upd_menu m (\<lambda>x. x\<lparr>m_next := e'\<rparr>) ms) m (m_list (node ms m)) cs"
      by (rule forest_links [of ms]) (use 2(3,5) in \<open>auto intro: links_upd\<close>)
    then show ?thesis using 2(3) True by simp
  next
    case False
    let ?ms = "upd_menu (root (last ts)) (\<lambda>x. x\<lparr>m_next := e'\<rparr>) ms"
    have l: "root (last ts) \<in> set (preorders ts)" by (rule last_root [OF False])
    then have ne: "root (last ts) \<noteq> m" "root (last ts) \<notin> set (preorders cs)" using 2(5) by auto
    have "forest ?ms m (m_list (node ms m)) cs" by (rule forest_links [of ms]) (use 2(3) ne(2) in \<open>auto intro: links_upd\<close>)
    moreover have "part ?ms q (m_next (node ms m)) ts e'" using 2(2-5) False by simp
    ultimately show ?thesis using 2(3) False ne(1) by simp
  qed
qed simp

section \<open>Lifting a list\<close>

lemma node_parents: "node (set_parents q l ms) x = (if x \<in> set l then (node ms x)\<lparr>m_parent := Some q\<rparr> else node ms x)"
  by (induction l arbitrary: ms) (auto simp: set_parents_def)

lemma forest_parents:
  "forest ms r p cs \<Longrightarrow> distinct (preorders cs) \<Longrightarrow>
    (\<And>x. x \<in> set (preorders cs) \<Longrightarrow> links ms' x = (if x \<in> set (map root cs) then (m_next (node ms x), m_list (node ms x), Some q) else links ms x))
    \<Longrightarrow> forest ms' q p cs"
proof (induction cs arbitrary: p rule: preorders.induct)
  case (2 m cs ts)
  have r: "set (map root ts) \<subseteq> set (preorders ts)" by (rule roots_in)
  have "links ms' m = (m_next (node ms m), m_list (node ms m), Some q)" using 2(5) [of m] by simp
  moreover have "forest ms' m (m_list (node ms m)) cs"
  proof (rule forest_links)
    fix x assume x: "x \<in> set (preorders cs)"
    then have "x \<notin> set (map root (Node m cs # ts))" using 2(4) r by auto
    then show "links ms' x = links ms x" using 2(5) [of x] x by simp
  qed (use 2(3) in simp)
  moreover have "forest ms' q (m_next (node ms m)) ts"
  proof (rule 2(2))
    fix x assume x: "x \<in> set (preorders ts)"
    then have "x \<noteq> m" using 2(4) by auto
    then show "links ms' x = (if x \<in> set (map root ts) then (m_next (node ms x), m_list (node ms x), Some q) else links ms x)"
      using 2(5) [of x] x by simp
  qed (use 2(3,4) in simp_all)
  ultimately show ?case using 2(3) by (simp add: links_def)
qed simp

text \<open>The list below \<open>m\<close> goes between \<open>m\<close> and what follows it.\<close>

lemma lift_forest:
  assumes f: "forest ms q (Some m) (Node m cs # ts)" and d: "distinct (preorders (Node m cs # ts))"
  shows "\<exists>ms' cs' ts'. lift_list q m ms st = Some ms' \<and> forest ms' q (Some m) (Node m cs' # ts') \<and> preorders cs' @ preorders ts' = preorders cs @ preorders ts
    \<and> (\<forall>x. x \<notin> set (preorders (Node m cs # ts)) \<longrightarrow> links ms' x = links ms x)
    \<and> (\<forall>x. m_sym (node ms' x) = m_sym (node ms x) \<and> m_prompt (node ms' x) = m_prompt (node ms x))"
proof (cases "m_list (node ms m) = None \<or> \<not> no_text st (node ms m)")
  case True
  then have "lift_list q m ms st = Some ms" by (simp add: lift_list_def)
  then show ?thesis using f by (intro exI [of _ ms] exI [of _ cs] exI [of _ ts]) simp
next
  case False
  have F: "m_parent (node ms m) = Some q" "forest ms m (m_list (node ms m)) cs" "forest ms q (m_next (node ms m)) ts" using f by simp_all
  have ne: "cs \<noteq> []" using False F(2) by auto
  let ?l = "map root cs" and ?z = "root (last cs)"
  have c: "chain ms (m_list (node ms m)) = Some ?l" by (rule chain_forest [OF F(2)])
  have dm: "m \<notin> set (preorders cs)" "m \<notin> set (preorders ts)" "set (preorders cs) \<inter> set (preorders ts) = {}" "distinct (preorders cs)"
    using d by auto
  have ml: "m \<notin> set ?l" using roots_in dm(1) by blast
  have z: "?z \<in> set (preorders cs)" "last ?l = ?z" using last_root [OF ne] ne by (simp_all add: last_map)
  define ms1 where "ms1 = set_parents q ?l ms"
  define ms2 where "ms2 = upd_menu ?z (\<lambda>x. x\<lparr>m_next := m_next (node ms m)\<rparr>) ms1"
  define ms3 where "ms3 = upd_menu m (\<lambda>x. x\<lparr>m_next := m_list x, m_list := None\<rparr>) ms2"
  have n1: "node ms1 m = node ms m" using ml by (simp add: ms1_def node_parents)
  have e: "lift_list q m ms st = Some ms3"
    by (simp add: lift_list_def False c z(2) ms1_def [symmetric] n1 Let_def) (simp add: ms2_def ms3_def)
  have "forest ms1 q (m_list (node ms m)) cs"
    by (rule forest_parents [OF F(2) dm(4)]) (simp add: ms1_def links_def node_parents)
  then have "part ms1 q (m_list (node ms m)) cs None" by (simp add: part_forest)
  from part_retarget [OF this ne dm(4)] have p2: "part ms2 q (m_list (node ms m)) cs (m_next (node ms m))" by (simp add: ms2_def)
  have l3: "links ms3 x = links ms2 x" if "x \<noteq> m" for x using that by (simp add: ms3_def links_upd)
  have l2: "links ms2 x = links ms x" if "x \<notin> set (preorders cs)" for x
    using that z(1) roots_in [of cs] by (auto simp: ms2_def ms1_def links_def node_parents)
  have l23: "links ms3 x = links ms x" if "x \<noteq> m" "x \<notin> set (preorders cs)" for x using l2 [OF that(2)] l3 [OF that(1)] by simp
  have p3: "part ms3 q (m_list (node ms m)) cs (m_next (node ms m))" by (rule part_links [OF p2]) (rule l3, use dm(1) in auto)
  have "forest ms3 q (m_next (node ms m)) ts"
    by (rule forest_links [OF F(3)]) (rule l23, use dm(2,3) in auto)
  then have "part ms3 q (m_list (node ms m)) (cs @ ts) None" by (intro part_append [OF p3]) (simp add: part_forest)
  moreover have "links ms2 m = links ms m" by (rule l2 [OF dm(1)])
  then have "links ms3 m = (m_list (node ms m), None, Some q)" using F(1) by (simp add: ms3_def links_def)
  ultimately have "forest ms3 q (Some m) (Node m [] # (cs @ ts))" by (simp add: part_forest links_def)
  moreover have "links ms3 x = links ms x" if "x \<notin> set (preorders (Node m cs # ts))" for x using that l2 [of x] l3 [of x] by simp
  moreover have "m_sym (node ms3 x) = m_sym (node ms x) \<and> m_prompt (node ms3 x) = m_prompt (node ms x)" for x
    by (simp add: ms3_def ms2_def ms1_def node_parents)
  ultimately show ?thesis using e by (intro exI [of _ ms3] exI [of _ "[]"] exI [of _ "cs @ ts"]) simp
qed

section \<open>The properties\<close>

text \<open>What the code takes for granted: a \<^verbatim>\<open>select\<close> names a symbol and belongs to one, and a choice has the list of its values.\<close>

definition choice_ready :: "property list \<Rightarrow> bool" where
  "choice_ready ps \<longleftrightarrow> (case find (\<lambda>p. p_type p = P_CHOICE) ps of None \<Rightarrow> False
     | Some p \<Rightarrow> (case p_expr p of No_Expr \<Rightarrow> True | Sym_List _ \<Rightarrow> True | _ \<Rightarrow> False))"

definition sane :: "menus \<Rightarrow> ktab \<Rightarrow> bool" where
  "sane ms st \<longleftrightarrow> (\<forall>v. \<forall>p \<in> set (s_prop (syms st v)). p_type p = P_SELECT \<longrightarrow> prop_get_symbol p \<noteq> None)
     \<and> (\<forall>x p. m_prompt (node ms x) = Some (Own p) \<longrightarrow> p_type p \<noteq> P_SELECT)
     \<and> (\<forall>v. sym_is_choice st v \<longrightarrow> choice_ready (s_prop (syms st v)))"

text \<open>A step that only touches what \<open>sane\<close> does not see, and no links.\<close>

definition calm :: "menus \<Rightarrow> ktab \<Rightarrow> menus \<Rightarrow> ktab \<Rightarrow> bool" where
  "calm ms st ms' st' \<longleftrightarrow> (\<forall>x. links ms' x = links ms x \<and> m_sym (node ms' x) = m_sym (node ms x)) \<and> sane ms' st'"

lemma calm_refl: "sane ms st \<Longrightarrow> calm ms st ms st"
  by (simp add: calm_def)

lemma calm_trans: "calm a s b t \<Longrightarrow> calm b t c u \<Longrightarrow> calm a s c u"
  by (simp add: calm_def)

lemma sane_upd:
  assumes "sane ms st" "\<And>k. SYMBOL_CHOICE \<in> s_flags (g k) \<longleftrightarrow> SYMBOL_CHOICE \<in> s_flags k" "\<And>k. s_prop (g k) = s_prop k"
  shows "sane ms (upd s g st)"
  using assms by (auto simp: sane_def KSymbol.upd_def sym_is_choice_def has_flag_def)

lemma sane_current: "sane (ms\<lparr>current_entry := m\<rparr>) st = sane ms st" "links (ms\<lparr>current_entry := m\<rparr>) x = links ms x"
  by (simp_all add: sane_def links_def)

lemma set_type_calm:
  assumes "sane ms st" "m_sym (node ms (current_entry ms)) \<noteq> None"
  shows "\<exists>st'. menu_set_type ty ms st = Some st' \<and> calm ms st ms st' \<and> (\<forall>v. sym_is_choice st' v = sym_is_choice st v)"
proof -
  obtain v where v: "m_sym (node ms (current_entry ms)) = Some v" using assms(2) by auto
  have "sane ms (upd v (\<lambda>k. k\<lparr>s_type := ty\<rparr>) st)" by (rule sane_upd [OF assms(1)]) simp_all
  moreover have "sym_is_choice (upd v (\<lambda>k. k\<lparr>s_type := ty\<rparr>) st) w = sym_is_choice st w" for w
    by (simp add: KSymbol.upd_def sym_is_choice_def has_flag_def)
  ultimately show ?thesis using v assms(1) by (simp add: menu_set_type_def calm_def)
qed

lemma set_types_calm: "sane ms st \<Longrightarrow> \<exists>ms' st'. set_types s l ms st = Some (ms', st') \<and> calm ms st ms' st'"
proof (induction s l ms st rule: set_types.induct)
  case (1 s ms st)
  then show ?case by (simp add: calm_refl)
next
  case (2 s m l ms st)
  let ?ms = "ms\<lparr>current_entry := m\<rparr>"
  have sn: "sane ?ms st" using 2(3) by (simp add: sane_current)
  have c0: "calm ms st ?ms st" using sn by (simp add: calm_def sane_current)
  show ?case
  proof (cases "case m_sym (node ms m) of None \<Rightarrow> False | Some v \<Rightarrow> s_type (syms st v) = S_UNKNOWN")
    case True
    then have "m_sym (node ?ms (current_entry ?ms)) \<noteq> None" by (auto split: option.splits)
    then obtain st1 where 1: "menu_set_type (s_type (syms st s)) ?ms st = Some st1" "calm ?ms st ?ms st1" using set_type_calm [OF sn] by blast
    then have "sane ?ms st1" by (simp add: calm_def)
    from 2(1) [OF refl _ 1(1) this] True obtain ms' st' where "set_types s l ?ms st1 = Some (ms', st')" "calm ?ms st1 ms' st'" by auto
    then show ?thesis using True 1 calm_trans [OF c0 calm_trans [OF 1(2)]] by (auto simp: Let_def)
  next
    case False
    from 2(2) [OF refl _ sn] False obtain ms' st' where "set_types s l ?ms st = Some (ms', st')" "calm ?ms st ms' st'" by auto
    then show ?thesis using False calm_trans [OF c0] by (auto simp: Let_def)
  qed
qed

lemma choice_types_calm:
  assumes "sane ms st" "m_sym (node ms q) \<noteq> None"
  shows "\<exists>ms' st'. choice_types q s l ms st = Some (ms', st') \<and> calm ms st ms' st'"
proof -
  let ?ms = "ms\<lparr>current_entry := q\<rparr>"
  have sn: "sane ?ms st" using assms(1) by (simp add: sane_current)
  have c0: "calm ms st ?ms st" using sn by (simp add: calm_def sane_current)
  have m: "m_sym (node ?ms (current_entry ?ms)) \<noteq> None" using assms(2) by simp
  have "\<exists>ms1 st1. (if s_type (syms st s) \<noteq> S_UNKNOWN then Some (ms, st)
       else let ms = ms\<lparr>current_entry := q\<rparr> in case first_type ms st l of None \<Rightarrow> Some (ms, st)
         | Some ty \<Rightarrow> map_option (Pair ms) (menu_set_type ty ms st)) = Some (ms1, st1) \<and> calm ms st ms1 st1"
  proof (cases "s_type (syms st s) \<noteq> S_UNKNOWN")
    case True
    then show ?thesis using assms(1) by (simp add: calm_refl)
  next
    case False
    show ?thesis
    proof (cases "first_type ?ms st l")
      case None
      then show ?thesis using False c0 by (simp add: Let_def)
    next
      case (Some ty)
      obtain st1 where "menu_set_type ty ?ms st = Some st1" "calm ?ms st ?ms st1" using set_type_calm [OF sn m] by blast
      then show ?thesis using False Some calm_trans [OF c0] by (auto simp: Let_def)
    qed
  qed
  then obtain ms1 st1 where 1: "(if s_type (syms st s) \<noteq> S_UNKNOWN then Some (ms, st)
       else let ms = ms\<lparr>current_entry := q\<rparr> in case first_type ms st l of None \<Rightarrow> Some (ms, st)
         | Some ty \<Rightarrow> map_option (Pair ms) (menu_set_type ty ms st)) = Some (ms1, st1)" "calm ms st ms1 st1" by blast
  then have "sane ms1 st1" by (simp add: calm_def)
  from set_types_calm [OF this, of s l] obtain ms' st' where "set_types s l ms1 st1 = Some (ms', st')" "calm ms1 st1 ms' st'" by blast
  then show ?thesis using calm_trans [OF 1(2)] unfolding choice_types_def 1(1) by auto
qed

text \<open>Propagation.\<close>

definition keeps_props :: "property list \<Rightarrow> property list \<Rightarrow> bool" where
  "keeps_props ps qs \<longleftrightarrow> list_all2 (\<lambda>p q. p_type q = p_type p \<and> p_expr q = p_expr p) ps qs"

lemma keeps_props_facts:
  assumes "keeps_props ps qs"
  shows "choice_ready ps \<Longrightarrow> choice_ready qs"
    "\<forall>p \<in> set ps. p_type p = P_SELECT \<longrightarrow> prop_get_symbol p \<noteq> None \<Longrightarrow> \<forall>p \<in> set qs. p_type p = P_SELECT \<longrightarrow> prop_get_symbol p \<noteq> None"
proof -
  have "(case find (\<lambda>p. p_type p = P_CHOICE) qs of None \<Rightarrow> None | Some q \<Rightarrow> Some (p_expr q))
      = (case find (\<lambda>p. p_type p = P_CHOICE) ps of None \<Rightarrow> None | Some q \<Rightarrow> Some (p_expr q))"
    using assms unfolding keeps_props_def by (induction rule: list_all2_induct) auto
  then show "choice_ready ps \<Longrightarrow> choice_ready qs" by (auto simp: choice_ready_def split: option.splits)
  show "\<forall>p \<in> set ps. p_type p = P_SELECT \<longrightarrow> prop_get_symbol p \<noteq> None \<Longrightarrow> \<forall>p \<in> set qs. p_type p = P_SELECT \<longrightarrow> prop_get_symbol p \<noteq> None"
    using assms unfolding keeps_props_def by (induction rule: list_all2_induct) (auto simp: prop_get_symbol_def)
qed

lemma keeps_props_refl: "keeps_props ps ps"
  by (simp add: keeps_props_def list.rel_refl)

text \<open>Two tables that agree in the properties and in which symbols are choices.\<close>

definition same_props :: "ktab \<Rightarrow> ktab \<Rightarrow> bool" where
  "same_props st st' \<longleftrightarrow> (\<forall>v. s_prop (syms st' v) = s_prop (syms st v) \<and> sym_is_choice st' v = sym_is_choice st v)"

lemma same_props_sane: "same_props st st' \<Longrightarrow> sane ms st \<Longrightarrow> sane ms st'"
  by (simp add: same_props_def sane_def)

lemma prop_deps_total:
  "(\<forall>p \<in> set ps. p_type p = P_SELECT \<longrightarrow> prop_get_symbol p \<noteq> None \<and> s \<noteq> None) \<Longrightarrow>
    \<exists>qs st'. prop_deps m s base ps st = Some (qs, st') \<and> keeps_props ps qs \<and> same_props st st'"
proof (induction ps arbitrary: st)
  case Nil
  then show ?case by (simp add: keeps_props_def same_props_def)
next
  case (Cons p ps)
  have sel: "\<forall>p \<in> set ps. p_type p = P_SELECT \<longrightarrow> prop_get_symbol p \<noteq> None \<and> s \<noteq> None" using Cons(2) by (metis list.set_intros(2))
  show ?case
  proof (cases "p_menu p \<noteq> Some m")
    case True
    from Cons(1) [OF sel] obtain qs st' where "prop_deps m s base ps st = Some (qs, st')" "keeps_props ps qs" "same_props st st'" by blast
    then show ?thesis using True by (simp add: keeps_props_def)
  next
    case False
    let ?p = "add_dep st s base p"
    have e: "p_type ?p = p_type p" "p_expr ?p = p_expr p" by (simp_all add: add_dep_def Let_def)
    have "\<exists>st1. (if p_type p = P_SELECT then add_select s ?p st else Some st) = Some st1 \<and> same_props st st1"
    proof (cases "p_type p = P_SELECT")
      case True
      then obtain v es where "s = Some v" "prop_get_symbol ?p = Some es" using Cons(2) e(2) by (auto simp: prop_get_symbol_def)
      then show ?thesis using True by (simp add: add_select_def same_props_def KSymbol.upd_def sym_is_choice_def has_flag_def)
    qed (simp add: same_props_def)
    then obtain st1 where 1: "(if p_type p = P_SELECT then add_select s ?p st else Some st) = Some st1" "same_props st st1" by blast
    obtain qs st' where 2: "prop_deps m s base ps st1 = Some (qs, st')" "keeps_props ps qs" "same_props st1 st'" using Cons(1) [OF sel] by blast
    have "prop_deps m s base (p # ps) st = Some (?p # qs, st')"
      using False 1(1) 2(1) e(1) by (cases "p_type p = P_SELECT") (simp_all add: Let_def)
    then show ?thesis using 1(2) 2(2,3) e by (auto simp: keeps_props_def same_props_def)
  qed
qed

lemma sane_props:
  assumes "sane ms st" "same_props st st'" "keeps_props (s_prop (syms st v)) ps"
  shows "sane ms (upd v (\<lambda>k. k\<lparr>s_prop := ps\<rparr>) st')"
proof -
  have "sane ms st'" by (rule same_props_sane [OF assms(2,1)])
  moreover have "s_prop (syms st v) = s_prop (syms st' v)" using assms(2) by (simp add: same_props_def)
  ultimately show ?thesis using keeps_props_facts [OF assms(3)] by (auto simp: sane_def KSymbol.upd_def sym_is_choice_def has_flag_def)
qed

lemma sane_node:
  assumes "sane ms st" "\<And>p. m_prompt (f (node ms m)) = Some (Own p) \<Longrightarrow> p_type p \<noteq> P_SELECT"
  shows "sane (upd_menu m f ms) st"
  using assms by (simp add: sane_def)

lemma propagate_calm: "sane ms st \<Longrightarrow> \<exists>ms' st'. propagate up m ms st = Some (ms', st') \<and> calm ms st ms' st'"
proof -
  assume sn: "sane ms st"
  define base where "base = base_dep (tab_of st) up (m_dep (node ms m))"
  let ?ms = "upd_menu m (\<lambda>x. x\<lparr>m_dep := base\<rparr>) ms"
  have s0: "sane ?ms st" by (rule sane_node [OF sn]) (use sn in \<open>auto simp: sane_def\<close>)
  have c0: "calm ms st ?ms st" using s0 by (simp add: calm_def links_def)
  consider v where "m_sym (node ms m) = Some v" | p where "m_sym (node ms m) = None" "m_prompt (node ms m) = Some (Own p)"
    | "m_sym (node ms m) = None" "\<And>p. m_prompt (node ms m) \<noteq> Some (Own p)" by (cases "m_sym (node ms m)") auto
  then show ?thesis
  proof cases
    case 1
    have sel: "\<forall>p \<in> set (s_prop (syms st v)). p_type p = P_SELECT \<longrightarrow> prop_get_symbol p \<noteq> None \<and> Some v \<noteq> None" using sn by (simp add: sane_def)
    obtain ps st' where 2: "prop_deps m (Some v) base (s_prop (syms st v)) st = Some (ps, st')" "keeps_props (s_prop (syms st v)) ps" "same_props st st'"
      using prop_deps_total [OF sel] by blast
    have "sane ?ms (upd v (\<lambda>k. k\<lparr>s_prop := ps\<rparr>) st')" by (rule sane_props [OF s0 2(3,2)])
    then have "calm ms st ?ms (upd v (\<lambda>k. k\<lparr>s_prop := ps\<rparr>) st')" by (simp add: calm_def links_def)
    then show ?thesis using 1 2(1) by (simp add: propagate_def base_def [symmetric] Let_def)
  next
    case 2
    then have "p_type p \<noteq> P_SELECT" using sn by (simp add: sane_def)
    then obtain ps st' where 3: "prop_deps m None base [p] st = Some (ps, st')" "keeps_props [p] ps" "same_props st st'"
      using prop_deps_total [of "[p]" None m base st] by auto
    then obtain q where q: "ps = [q]" "p_type q = p_type p" by (auto simp: keeps_props_def list_all2_Cons1)
    let ?ms2 = "upd_menu m (\<lambda>x. x\<lparr>m_prompt := Some (Own q)\<rparr>) ?ms"
    have "sane ?ms2 st'" by (rule sane_node [OF same_props_sane [OF 3(3) s0]]) (use q(2) \<open>p_type p \<noteq> P_SELECT\<close> in simp)
    then have "calm ms st ?ms2 st'" by (simp add: calm_def links_def)
    then show ?thesis using 2 3(1) q(1) by (simp add: propagate_def base_def [symmetric] Let_def)
  next
    case 3
    then have "propagate up m ms st = Some (?ms, st)"
      by (cases "m_prompt (node ms m)") (auto simp: propagate_def base_def [symmetric] Let_def split: prompt.split)
    then show ?thesis using c0 by blast
  qed
qed

lemma propagate_all_calm: "sane ms st \<Longrightarrow> \<exists>ms' st'. propagate_all up l ms st = Some (ms', st') \<and> calm ms st ms' st'"
proof (induction l arbitrary: ms st)
  case Nil
  then show ?case by (simp add: calm_refl)
next
  case (Cons m l)
  obtain ms1 st1 where 1: "propagate up m ms st = Some (ms1, st1)" "calm ms st ms1 st1" using propagate_calm [OF Cons(2)] by blast
  then have "sane ms1 st1" by (simp add: calm_def)
  from Cons(1) [OF this] obtain ms' st' where "propagate_all up l ms1 st1 = Some (ms', st')" "calm ms1 st1 ms' st'" by blast
  then show ?case using 1 calm_trans [OF 1(2)] by simp
qed

text \<open>Choice values.\<close>

lemma append_value_ready: "choice_ready ps \<Longrightarrow> \<exists>qs. append_value v ps = Some qs \<and> choice_ready qs
    \<and> (\<forall>p \<in> set qs. p \<in> set ps \<or> p_type p = P_CHOICE)"
proof (induction ps)
  case (Cons p ps)
  show ?case
  proof (cases "p_type p = P_CHOICE")
    case True
    then show ?thesis using Cons(2) by (auto simp: choice_ready_def split: prop_expr.splits)
  next
    case False
    then have "choice_ready ps" using Cons(2) by (simp add: choice_ready_def)
    from Cons(1) [OF this] obtain qs where "append_value v ps = Some qs" "choice_ready qs" "\<forall>p \<in> set qs. p \<in> set ps \<or> p_type p = P_CHOICE" by blast
    then show ?thesis using False by (auto simp: choice_ready_def)
  qed
qed (simp add: choice_ready_def)

lemma needs_yes_calm:
  assumes "sane ms st"
  shows "\<exists>ms' st'. needs_yes s v m ms st = (ms', st') \<and> calm ms st ms' st' \<and> (\<forall>w. sym_is_choice st' w = sym_is_choice st w)
    \<and> current_entry ms' = current_entry ms"
proof (cases "s_type (syms st s) = S_TRISTATE \<and> s_type (syms st v) \<noteq> S_TRISTATE")
  case True
  let ?b = "Some (E_EQUAL s symbol_yes)"
  let ?ms = "upd_menu m (\<lambda>x. x\<lparr>m_dep := expr_alloc_and ?b (m_dep x)\<rparr>) ms"
  let ?ps = "map (\<lambda>p. if p_menu p \<noteq> Some m then p else p\<lparr>p_visible := expr_alloc_and ?b (p_visible p)\<rparr>) (s_prop (syms st v))"
  have "keeps_props ps (map (\<lambda>p. if p_menu p \<noteq> Some m then p else p\<lparr>p_visible := expr_alloc_and ?b (p_visible p)\<rparr>) ps)" for ps
    by (induction ps) (simp_all add: keeps_props_def)
  moreover have "same_props st st" by (simp add: same_props_def)
  moreover have "sane ?ms st" by (rule sane_node [OF assms]) (use assms in \<open>auto simp: sane_def\<close>)
  ultimately have "sane ?ms (upd v (\<lambda>k. k\<lparr>s_prop := ?ps\<rparr>) st)" by (intro sane_props)
  moreover have "upd v (\<lambda>k. k\<lparr>s_prop := ?ps\<rparr>) st = upd v (\<lambda>k. k\<lparr>s_prop := map (\<lambda>p. if p_menu p \<noteq> Some m then p
      else p\<lparr>p_visible := expr_alloc_and ?b (p_visible p)\<rparr>) (s_prop k)\<rparr>) st" by (simp add: KSymbol.upd_def)
  ultimately show ?thesis using True
    by (simp add: needs_yes_def Let_def calm_def links_def sym_is_choice_def has_flag_def upd_menu_def) (simp add: KSymbol.upd_def)
next
  case False
  then show ?thesis using assms by (auto simp: needs_yes_def calm_refl)
qed

lemma add_choice_value_calm: "sane ms st \<Longrightarrow> \<exists>ms' st'. add_choice_value s m ms st = Some (ms', st') \<and> calm ms st ms' st'"
proof (cases "is_new_value st s (node ms m)")
  case False
  assume "sane ms st"
  then show ?thesis using False by (simp add: add_choice_value_def calm_refl)
next
  case True
  assume sn: "sane ms st"
  from True obtain c v where c: "s = Some c" "sym_is_choice st c" and v: "m_sym (node ms m) = Some v"
    by (auto simp: is_new_value_def split: option.splits)
  let ?ms = "ms\<lparr>current_entry := m\<rparr>" and ?st = "set_flag SYMBOL_CHOICEVAL v st"
  have ch: "sym_is_choice ?st w = sym_is_choice st w" for w by (simp add: set_flag_def KSymbol.upd_def sym_is_choice_def has_flag_def)
  have "sane ms ?st" unfolding set_flag_def by (rule sane_upd [OF sn]) simp_all
  then have sn1: "sane ?ms ?st" by (simp add: sane_current)
  have c0: "calm ms st ?ms ?st" using sn1 by (simp add: calm_def sane_current)
  obtain ms1 st1 where 1: "needs_yes c v m ?ms ?st = (ms1, st1)" "calm ?ms ?st ms1 st1" "\<forall>w. sym_is_choice st1 w = sym_is_choice ?st w"
    "current_entry ms1 = m" using needs_yes_calm [OF sn1, of c v m] by auto
  have v1: "m_sym (node ms1 m) = Some v" using 1(2) v by (simp add: calm_def)
  let ?p = "\<lparr>p_type = P_CHOICE, p_text = None, p_visible = None, p_expr = Dep (E_SYMBOL c), p_menu = Some m, p_file = in_file st1\<rparr>"
  let ?st2 = "prop_alloc ?p v st1"
  have 2: "menu_add_symbol P_CHOICE c None symbol_mod ms1 st1 = (ms1, ?st2)"
    by (simp add: menu_add_symbol_def menu_add_prop_def 1(4) v1 Let_def)
  have ap: "choice_ready ps \<Longrightarrow> choice_ready (ps @ [?p])" for ps
    by (induction ps) (simp_all add: choice_ready_def split: if_splits)
  have sn2: "sane ms1 ?st2" using 1(2) ap by (auto simp: calm_def sane_def prop_alloc_def KSymbol.upd_def sym_is_choice_def has_flag_def)
  have "sym_is_choice ?st2 w = sym_is_choice st1 w" for w by (simp add: prop_alloc_def KSymbol.upd_def sym_is_choice_def has_flag_def)
  then have "sym_is_choice ?st2 c" using 1(3) ch c(2) by simp
  then have "choice_ready (s_prop (syms ?st2 c))" using sn2 by (simp add: sane_def)
  from append_value_ready [OF this] obtain qs where q: "append_value v (s_prop (syms ?st2 c)) = Some qs" "choice_ready qs"
    "\<forall>p \<in> set qs. p \<in> set (s_prop (syms ?st2 c)) \<or> p_type p = P_CHOICE" by blast
  let ?st3 = "upd c (\<lambda>k. k\<lparr>s_prop := qs\<rparr>) ?st2"
  have "sane ms1 ?st3" using sn2 q(2,3) unfolding sane_def
    by (auto simp: KSymbol.upd_def [of c] sym_is_choice_def has_flag_def)
  then have "calm ms st ms1 ?st3" using 1(2) by (simp add: calm_def sane_current)
  moreover have "add_choice_value s m ms st = Some (ms1, ?st3)"
    using True c v 1(1) 2 q(1) by (simp add: add_choice_value_def Let_def)
  ultimately show ?thesis by blast
qed

section \<open>The recursion\<close>

text \<open>Nothing changes outside of \<open>X\<close>, and menus keep their symbols.\<close>

definition outside :: "nat set \<Rightarrow> menus \<Rightarrow> menus \<Rightarrow> bool" where
  "outside X ms ms' \<longleftrightarrow> (\<forall>x. x \<notin> X \<longrightarrow> links ms' x = links ms x) \<and> (\<forall>x. m_sym (node ms' x) = m_sym (node ms x))"

lemma outside_trans: "outside X a b \<Longrightarrow> outside Y b c \<Longrightarrow> X \<subseteq> Z \<Longrightarrow> Y \<subseteq> Z \<Longrightarrow> outside Z a c"
  unfolding outside_def by (metis subsetD)

lemma outside_forest: "outside X ms ms' \<Longrightarrow> forest ms q p ts \<Longrightarrow> X \<inter> set (preorders ts) = {} \<Longrightarrow> forest ms' q p ts"
  by (erule forest_links [of ms]) (auto simp: outside_def)

lemma outside_part: "outside X ms ms' \<Longrightarrow> part ms q p ts e \<Longrightarrow> X \<inter> set (preorders ts) = {} \<Longrightarrow> part ms' q p ts e"
  by (erule part_links [of ms]) (auto simp: outside_def)

lemma calm_outside: "calm ms st ms' st' \<Longrightarrow> outside X ms ms' \<and> sane ms' st'"
  by (simp add: calm_def outside_def)

lemma calm_forest: "calm ms st ms' st' \<Longrightarrow> forest ms q p ts \<Longrightarrow> forest ms' q p ts"
  by (erule forest_links [of ms]) (auto simp: calm_def)

text \<open>The list below a menu and what follows it may be divided differently, but in all they are the same.\<close>

definition finalizes :: "finalizer \<Rightarrow> nat \<Rightarrow> bool" where
  "finalizes rec k \<longleftrightarrow> (\<forall>m q cs ts ms st. sane ms st \<and> forest ms m (m_list (node ms m)) cs \<and> forest ms q (m_next (node ms m)) ts
     \<and> distinct (m # preorders cs @ preorders ts) \<and> length (preorders cs @ preorders ts) < k
     \<longrightarrow> (\<exists>ms' st' cs' ts'. rec m ms st = Some (ms', st') \<and> sane ms' st' \<and> forest ms' m (m_list (node ms' m)) cs'
       \<and> forest ms' q (m_next (node ms' m)) ts' \<and> preorders cs' @ preorders ts' = preorders cs @ preorders ts
       \<and> length (preorders ts') \<le> length (preorders ts)
       \<and> m_parent (node ms' m) = m_parent (node ms m) \<and> outside (set (m # preorders cs @ preorders ts)) ms ms'))"

lemma finalizes_at:
  assumes "finalizes rec k" "sane ms st" "forest ms m (m_list (node ms m)) cs" "forest ms q (m_next (node ms m)) ts"
    "distinct (m # preorders cs @ preorders ts)" "length (preorders cs @ preorders ts) < k"
  obtains ms' st' cs' ts' where "rec m ms st = Some (ms', st')" "sane ms' st'" "forest ms' m (m_list (node ms' m)) cs'"
    "forest ms' q (m_next (node ms' m)) ts'" "preorders cs' @ preorders ts' = preorders cs @ preorders ts" "length (preorders ts') \<le> length (preorders ts)"
    "m_parent (node ms' m) = m_parent (node ms m)" "outside (set (m # preorders cs @ preorders ts)) ms ms'"
proof -
  note a = assms(1) [unfolded finalizes_def, rule_format, OF conjI [OF assms(2) conjI [OF assms(3) conjI [OF assms(4) conjI [OF assms(5,6)]]]]]
  show ?thesis using a that by (elim exE conjE)
qed

lemma finalizesD:
  assumes "finalizes rec k" "sane ms st" "forest ms q (Some m) (Node m cs # ts)" "distinct (preorders (Node m cs # ts))"
    "length (preorders (Node m cs # ts)) \<le> k"
  obtains ms' st' cs' ts' where "rec m ms st = Some (ms', st')" "sane ms' st'" "forest ms' m (m_list (node ms' m)) cs'"
    "forest ms' q (m_next (node ms' m)) ts'" "preorders cs' @ preorders ts' = preorders cs @ preorders ts"
    "m_parent (node ms' m) = Some q" "outside (set (preorders (Node m cs # ts))) ms ms'"
proof -
  have f: "forest ms m (m_list (node ms m)) cs" "forest ms q (m_next (node ms m)) ts" "m_parent (node ms m) = Some q" using assms(3) by simp_all
  have "distinct (m # preorders cs @ preorders ts)" "length (preorders cs @ preorders ts) < k" using assms(4,5) by simp_all
  from finalizes_at [OF assms(1,2) f(1,2) this] show ?thesis using that f(3) by (metis preorders.simps(2))
qed

lemma same_size: "preorders cs' @ preorders ts' = preorders cs @ preorders ts \<Longrightarrow>
    distinct (preorders (Node m cs # ts)) \<Longrightarrow> distinct (preorders (Node m cs' # ts')) \<and> length (preorders ts') < length (preorders (Node m cs # ts))
    \<and> set (preorders (Node m cs' # ts')) = set (preorders (Node m cs # ts))"
proof -
  assume e: "preorders cs' @ preorders ts' = preorders cs @ preorders ts" and d: "distinct (preorders (Node m cs # ts))"
  have "preorders (Node m cs' # ts') = preorders (Node m cs # ts)" using e by simp
  moreover have "length (preorders ts') \<le> length (preorders cs' @ preorders ts')" by simp
  ultimately show ?thesis using d e by simp
qed

lemma finalize_each_ok:
  assumes rec: "finalizes rec k"
  shows "length (preorders ts) = n \<Longrightarrow> n \<le> k \<Longrightarrow> sane ms st \<Longrightarrow> forest ms q p ts \<Longrightarrow> distinct (preorders ts) \<Longrightarrow>
    \<exists>ms' st' ts'. finalize_each rec p ms st = Some (ms', st') \<and> sane ms' st' \<and> forest ms' q p ts' \<and> preorders ts' = preorders ts
      \<and> outside (set (preorders ts)) ms ms'"
proof (induction n arbitrary: p ts ms st rule: less_induct)
  case (less n)
  show ?case
  proof (cases ts)
    case Nil
    then have "p = None" using less(5) by simp
    then show ?thesis using Nil less(4) by (subst finalize_each.simps) (auto simp: outside_def intro!: exI [of _ "[]"])
  next
    case (Cons t ts0)
    obtain m cs where t: "t = Node m cs" by (cases t)
    have ts: "ts = Node m cs # ts0" by (simp add: Cons t)
    have p: "p = Some m" using less(5) by (simp add: ts)
    have d: "distinct (preorders (Node m cs # ts0))" and sz: "length (preorders (Node m cs # ts0)) \<le> k" using less(2,3,6) by (simp_all add: ts)
    from less(5) have f: "forest ms q (Some m) (Node m cs # ts0)" by (simp add: ts)
    obtain ms1 st1 cs1 ts1 where 1: "rec m ms st = Some (ms1, st1)" "sane ms1 st1" "forest ms1 m (m_list (node ms1 m)) cs1"
      "forest ms1 q (m_next (node ms1 m)) ts1" "preorders cs1 @ preorders ts1 = preorders cs @ preorders ts0"
      "m_parent (node ms1 m) = Some q" "outside (set (preorders (Node m cs # ts0))) ms ms1" by (rule finalizesD [OF rec less(4) f d sz])
    note sz1 = same_size [OF 1(5) d]
    have "length (preorders ts1) < n" using sz1 less(2) by (simp add: ts)
    from less(1) [OF this refl _ 1(2,4)] sz1 less(2,3) obtain ms2 st2 ts2 where
      2: "finalize_each rec (m_next (node ms1 m)) ms1 st1 = Some (ms2, st2)" "sane ms2 st2" "forest ms2 q (m_next (node ms1 m)) ts2"
        "preorders ts2 = preorders ts1" "outside (set (preorders ts1)) ms1 ms2" by (auto simp: ts)
    have dj: "m \<notin> set (preorders ts1)" "set (preorders ts1) \<inter> set (preorders cs1) = {}" using sz1 by auto
    have "links ms2 m = links ms1 m" using 2(5) dj(1) by (simp add: outside_def)
    moreover have "forest ms2 m (m_list (node ms1 m)) cs1" by (rule outside_forest [OF 2(5) 1(3) dj(2)])
    ultimately have "forest ms2 q (Some m) (Node m cs1 # ts2)" using 1(6) 2(3) by (simp add: links_eq)
    moreover have "preorders (Node m cs1 # ts2) = preorders ts" using 1(5) 2(4) by (simp add: ts)
    moreover have "outside (set (preorders ts)) ms ms2" by (rule outside_trans [OF 1(7) 2(5)]) (use sz1 in \<open>auto simp: ts\<close>)
    moreover have "finalize_each rec p ms st = Some (ms2, st2)" using 1(1) 2(1) p by (subst finalize_each.simps) simp
    ultimately show ?thesis using 2(2) p by blast
  qed
qed

lemma sane_links: "sane ms st \<Longrightarrow> (\<And>k. m_prompt (f k) = m_prompt k) \<Longrightarrow> sane (upd_menu m f ms) st"
  unfolding sane_def by simp

text \<open>The first of a list, and what comes after it.\<close>

lemma first_rest:
  assumes "forest ms1 m (m_list (node ms1 m)) cs1" "m_parent (node ms1 m) = Some q" "part ms2 q (m_next (node ms1 m)) ds e"
    "outside X ms1 ms2" "m \<notin> X" "X \<inter> set (preorders cs1) = {}"
  shows "part ms2 q (Some m) (Node m cs1 # ds) e"
proof -
  have "links ms2 m = links ms1 m" using assms(4,5) by (simp add: outside_def)
  then show ?thesis using assms(2,3) outside_forest [OF assms(4,1,6)] by (simp add: links_eq)
qed

lemma absorb_ok:
  assumes rec: "finalizes rec k"
  shows "length (preorders ts) = n \<Longrightarrow> n \<le> k \<Longrightarrow> sane ms st \<Longrightarrow> forest ms g p ts \<Longrightarrow> distinct (preorders ts) \<Longrightarrow>
    \<exists>found' ms' st' ds us e. absorb rec q s base p found ms st = Some (found', ms', st') \<and> sane ms' st' \<and> part ms' q p ds e \<and> forest ms' g e us
      \<and> preorders ds @ preorders us = preorders ts \<and> found' = (if ds = [] then found else Some (root (last ds))) \<and> outside (set (preorders ts)) ms ms'"
proof (induction n arbitrary: p ts ms st found rule: less_induct)
  case (less n)
  let ?R = "\<lambda>found' ms' st' ds us e. absorb rec q s base p found ms st = Some (found', ms', st') \<and> sane ms' st' \<and> part ms' q p ds e \<and> forest ms' g e us
      \<and> preorders ds @ preorders us = preorders ts \<and> found' = (if ds = [] then found else Some (root (last ds))) \<and> outside (set (preorders ts)) ms ms'"
  have stop: "absorb rec q s base p found ms st = Some (found, ms, st) \<Longrightarrow> ?R found ms st [] ts p" using less(4,5) by (simp add: outside_def)
  show ?case
  proof (cases ts)
    case Nil
    then have "absorb rec q s base p found ms st = Some (found, ms, st)" using less(5) by (subst absorb.simps) simp
    then show ?thesis using stop by blast
  next
    case (Cons t ts0)
    obtain m cs where t: "t = Node m cs" by (cases t)
    have ts: "ts = Node m cs # ts0" by (simp add: Cons t)
    have p: "p = Some m" using less(5) by (simp add: ts)
    show ?thesis
    proof (cases "depends_on (tab_of st) s base (entry_dep st (node ms m))")
      case False
      then have "absorb rec q s base p found ms st = Some (found, ms, st)" by (subst absorb.simps) (simp add: p)
      then show ?thesis using stop by blast
    next
      case dep: True
      have d: "distinct (preorders (Node m cs # ts0))" and sz: "length (preorders (Node m cs # ts0)) \<le> k" using less(2,3,6) by (simp_all add: ts)
      from less(5) have f: "forest ms g (Some m) (Node m cs # ts0)" by (simp add: ts)
      obtain ms1 st1 cs1 ts1 where 1: "rec m ms st = Some (ms1, st1)" "sane ms1 st1" "forest ms1 m (m_list (node ms1 m)) cs1"
        "forest ms1 g (m_next (node ms1 m)) ts1" "preorders cs1 @ preorders ts1 = preorders cs @ preorders ts0"
        "m_parent (node ms1 m) = Some g" "outside (set (preorders (Node m cs # ts0))) ms ms1" by (rule finalizesD [OF rec less(4) f d sz])
      note sz1 = same_size [OF 1(5) d]
      define ms2 where "ms2 = upd_menu m (\<lambda>x. x\<lparr>m_parent := Some q\<rparr>) ms1"
      have dj: "m \<notin> set (preorders ts1)" "m \<notin> set (preorders cs1)" "set (preorders ts1) \<inter> set (preorders cs1) = {}" "distinct (preorders ts1)" using sz1 by auto
      have o2: "outside {m} ms1 ms2" by (simp add: outside_def ms2_def links_upd)
      have s2: "sane ms2 st1" unfolding ms2_def by (rule sane_links [OF 1(2)]) simp
      have f2: "forest ms2 g (m_next (node ms1 m)) ts1" by (rule outside_forest [OF o2 1(4)]) (use dj(1) in simp)
      have c2: "forest ms2 m (m_list (node ms2 m)) cs1" "m_next (node ms2 m) = m_next (node ms1 m)" "m_parent (node ms2 m) = Some q"
        using outside_forest [OF o2 1(3)] dj(2) by (simp_all add: ms2_def)
      have "length (preorders ts1) < n" using sz1 less(2) by (simp add: ts)
      from less(1) [OF this refl _ s2 f2 dj(4), of "Some m"] sz1 less(2,3) obtain found' ms3 st3 ds us e where
        3: "absorb rec q s base (m_next (node ms1 m)) (Some m) ms2 st1 = Some (found', ms3, st3)" "sane ms3 st3" "part ms3 q (m_next (node ms1 m)) ds e"
          "forest ms3 g e us" "preorders ds @ preorders us = preorders ts1" "found' = (if ds = [] then Some m else Some (root (last ds)))"
          "outside (set (preorders ts1)) ms2 ms3" by (auto simp: ts)
      have "part ms3 q (Some m) (Node m cs1 # ds) e" by (rule first_rest [OF c2(1,3) _ 3(7) dj(1,3)]) (simp add: c2(2) 3(3))
      moreover have "preorders (Node m cs1 # ds) @ preorders us = preorders ts" using 1(5) 3(5) by (simp add: ts)
      moreover have "outside (set (preorders (Node m cs1 # ts1))) ms1 ms3" by (rule outside_trans [OF o2 3(7)]) auto
      then have "outside (set (preorders ts)) ms ms3" by (rule outside_trans [OF 1(7)]) (use sz1 in \<open>auto simp: ts\<close>)
      moreover have "absorb rec q s base p found ms st = Some (found', ms3, st3)"
        using dep 1(1) 3(1) c2(2) by (subst absorb.simps) (simp add: p ms2_def [symmetric])
      moreover have "found' = (if Node m cs1 # ds = [] then found else Some (root (last (Node m cs1 # ds))))" using 3(6) by simp
      ultimately have "?R found' ms3 st3 (Node m cs1 # ds) us e" using 3(2,4) p by blast
      then show ?thesis by blast
    qed
  qed
qed

lemma make_submenu_ok:
  assumes rec: "finalizes rec k" and sn: "sane ms st" and f: "forest ms g (m_next (node ms q)) ts" and l: "m_list (node ms q) = None"
    and d: "distinct (q # preorders ts)" and sz: "length (preorders ts) \<le> k"
  shows "\<exists>ms' st' cs' ts'. make_submenu rec q s ms st = Some (ms', st') \<and> sane ms' st' \<and> forest ms' q (m_list (node ms' q)) cs'
    \<and> forest ms' g (m_next (node ms' q)) ts' \<and> preorders cs' @ preorders ts' = preorders ts \<and> m_parent (node ms' q) = m_parent (node ms q)
    \<and> outside (set (q # preorders ts)) ms ms'"
proof -
  let ?b = "not_no (tab_of st) (Option.bind (prompt_of st (node ms q)) p_visible)"
  have "distinct (preorders ts)" using d by simp
  from absorb_ok [OF rec refl sz sn f this, of q s ?b None] obtain ms1 st1 ds us e found where
    1: "absorb rec q s ?b (m_next (node ms q)) None ms st = Some (found, ms1, st1)" "sane ms1 st1" "part ms1 q (m_next (node ms q)) ds e" "forest ms1 g e us"
      "preorders ds @ preorders us = preorders ts" "found = (if ds = [] then None else Some (root (last ds)))" "outside (set (preorders ts)) ms ms1" by blast
  have e: "make_submenu rec q s ms st = Some (cut_list q found ms1, st1)" using 1(1) by (simp add: make_submenu_def)
  have lq: "links ms1 q = links ms q" using 1(7) d by (simp add: outside_def)
  have dd: "distinct (preorders ds @ preorders us)" "q \<notin> set (preorders ds @ preorders us)" using d by (simp_all add: 1(5) del: set_append)
  show ?thesis
  proof (cases "ds = []")
    case True
    then have "cut_list q found ms1 = ms1" "e = m_next (node ms q)" "preorders us = preorders ts" using 1(3,5,6) by (simp_all add: cut_list_def)
    then show ?thesis using e 1(2,4) lq l 1(7)
      by (intro exI [of _ ms1] exI [of _ st1] exI [of _ "[]"] exI [of _ us]) (auto simp: links_eq outside_def)
  next
    case False
    let ?z = "root (last ds)"
    have z: "?z \<in> set (preorders ds)" by (rule last_root [OF False])
    then have zq: "?z \<noteq> q" "?z \<notin> set (preorders us)" using dd by auto
    define ms2 where "ms2 = upd_menu q (\<lambda>x. x\<lparr>m_list := m_next x, m_next := m_next (node ms1 ?z)\<rparr>) ms1"
    define ms3 where "ms3 = upd_menu ?z (\<lambda>x. x\<lparr>m_next := None\<rparr>) ms2"
    have e3: "make_submenu rec q s ms st = Some (ms3, st1)" using e 1(6) False by (simp add: cut_list_def ms2_def ms3_def)
    have "sane ms2 st1" unfolding ms2_def by (rule sane_links [OF 1(2)]) simp
    then have s3: "sane ms3 st1" unfolding ms3_def by (rule sane_links) simp
    have o2: "outside {q} ms1 ms2" and o3: "outside {?z} ms2 ms3" by (simp_all add: outside_def ms2_def ms3_def links_upd)
    have "part ms2 q (m_next (node ms q)) ds e" by (rule outside_part [OF o2 1(3)]) (use dd(2) in simp)
    then have "part ms3 q (m_next (node ms q)) ds None" unfolding ms3_def by (rule part_retarget) (use False dd(1) in simp_all)
    moreover have "forest ms3 g e us"
      by (rule outside_forest [OF o3 outside_forest [OF o2 1(4)]]) (use dd(2) zq(2) in auto)
    moreover have "m_list (node ms3 q) = m_next (node ms q)" "m_next (node ms3 q) = e" "m_parent (node ms3 q) = m_parent (node ms q)"
      using zq(1) lq part_end [OF 1(3) False] by (simp_all add: ms3_def ms2_def links_eq)
    moreover have "outside (set (q # preorders ts)) ms ms3"
    proof -
      have "outside (insert q (set (preorders ds))) ms1 ms3" by (rule outside_trans [OF o2 o3]) (use z in auto)
      then show ?thesis by (rule outside_trans [OF 1(7)]) (auto simp: 1(5) [symmetric])
    qed
    ultimately show ?thesis using e3 s3 1(5) by (intro exI [of _ ms3] exI [of _ st1] exI [of _ ds] exI [of _ us]) (simp add: part_forest)
  qed
qed

lemma adopt_ok:
  "length (preorders ts) = n \<Longrightarrow> sane ms st \<Longrightarrow> forest ms q p ts \<Longrightarrow> distinct (preorders ts) \<Longrightarrow>
    \<exists>ms' st' ts'. adopt q s p ms st = Some (ms', st') \<and> sane ms' st' \<and> forest ms' q p ts' \<and> preorders ts' = preorders ts
      \<and> outside (set (preorders ts)) ms ms'"
proof (induction n arbitrary: p ts ms st rule: less_induct)
  case (less n)
  show ?case
  proof (cases ts)
    case Nil
    then have "p = None" using less(4) by simp
    then show ?thesis using Nil less(3) by (subst adopt.simps) (auto simp: outside_def intro!: exI [of _ "[]"])
  next
    case (Cons t ts0)
    obtain m cs where t: "t = Node m cs" by (cases t)
    have ts: "ts = Node m cs # ts0" by (simp add: Cons t)
    have p: "p = Some m" using less(4) by (simp add: ts)
    have d: "distinct (preorders (Node m cs # ts0))" using less(5) by (simp add: ts)
    obtain ms1 st1 where 1: "add_choice_value s m ms st = Some (ms1, st1)" "calm ms st ms1 st1" using add_choice_value_calm [OF less(3)] by blast
    have "forest ms1 q (Some m) (Node m cs # ts0)" using calm_forest [OF 1(2) less(4)] by (simp add: ts p)
    from lift_forest [OF this d, of st1] obtain ms2 cs2 ts2 where
      2: "lift_list q m ms1 st1 = Some ms2" "forest ms2 q (Some m) (Node m cs2 # ts2)" "preorders cs2 @ preorders ts2 = preorders cs @ preorders ts0"
        "outside (set (preorders (Node m cs # ts0))) ms1 ms2" "\<forall>x. m_prompt (node ms2 x) = m_prompt (node ms1 x)"
      unfolding outside_def by blast
    have s2: "sane ms2 st1" using 1(2) 2(5) by (simp add: calm_def sane_def)
    note sz = same_size [OF 2(3) d]
    have f2: "forest ms2 q (m_next (node ms2 m)) ts2" "forest ms2 m (m_list (node ms2 m)) cs2" "m_parent (node ms2 m) = Some q" using 2(2) by simp_all
    have dj: "m \<notin> set (preorders ts2)" "set (preorders ts2) \<inter> set (preorders cs2) = {}" "distinct (preorders ts2)" using sz by auto
    have "length (preorders ts2) < n" using sz less(2) by (simp add: ts)
    from less(1) [OF this refl s2 f2(1) dj(3)] obtain ms3 st3 ts3 where
      3: "adopt q s (m_next (node ms2 m)) ms2 st1 = Some (ms3, st3)" "sane ms3 st3" "forest ms3 q (m_next (node ms2 m)) ts3"
        "preorders ts3 = preorders ts2" "outside (set (preorders ts2)) ms2 ms3" by blast
    have "part ms3 q (Some m) (Node m cs2 # ts3) None"
      by (rule first_rest [OF f2(2,3) _ 3(5) dj(1,2)]) (simp add: part_forest 3(3))
    then have "forest ms3 q p (Node m cs2 # ts3)" by (simp only: part_forest p)
    moreover have "preorders (Node m cs2 # ts3) = preorders ts" using 2(3) 3(4) by (simp add: ts)
    moreover have "outside (set (preorders (Node m cs2 # ts2))) ms1 ms3" by (rule outside_trans [OF 2(4) 3(5)]) (use sz in auto)
    then have "outside (set (preorders ts)) ms ms3"
      by (rule outside_trans [OF calm_outside [OF 1(2), THEN conjunct1]]) (use sz in \<open>auto simp: ts\<close>)
    moreover have "adopt q s p ms st = Some (ms3, st3)" using 1(1) 2(1) 3(1) by (subst adopt.simps) (simp add: p)
    ultimately show ?thesis using 3(2) by blast
  qed
qed

lemma finalize_list_ok:
  assumes rec: "finalizes rec k" and sn: "sane ms st" and f: "forest ms q (m_list (node ms q)) cs"
    and d: "distinct (q # preorders cs)" and sz: "length (preorders cs) \<le> k"
  shows "\<exists>ms' st' cs'. finalize_list rec q ms st = Some (ms', st') \<and> sane ms' st' \<and> forest ms' q (m_list (node ms' q)) cs'
    \<and> preorders cs' = preorders cs \<and> outside (set (preorders cs)) ms ms'"
proof -
  let ?l = "map root cs"
  have c: "chain ms (m_list (node ms q)) = Some ?l" by (rule chain_forest [OF f])
  have "\<exists>ms1 st1. (case m_sym (node ms q) of None \<Rightarrow> Some (ms, st)
       | Some s \<Rightarrow> if sym_is_choice st s then choice_types q s ?l ms st else Some (ms, st)) = Some (ms1, st1) \<and> calm ms st ms1 st1"
    using choice_types_calm [OF sn] calm_refl [OF sn] by (auto split: option.split)
  then obtain ms1 st1 where 1: "(case m_sym (node ms q) of None \<Rightarrow> Some (ms, st)
       | Some s \<Rightarrow> if sym_is_choice st s then choice_types q s ?l ms st else Some (ms, st)) = Some (ms1, st1)" "calm ms st ms1 st1" by blast
  have "sane ms1 st1" using 1(2) by (simp add: calm_def)
  from propagate_all_calm [OF this] obtain ms2 st2 where
    2: "propagate_all (parent_dep ms1 st1 q) ?l ms1 st1 = Some (ms2, st2)" "calm ms1 st1 ms2 st2" by blast
  have c2: "calm ms st ms2 st2" by (rule calm_trans [OF 1(2) 2(2)])
  have q2: "m_list (node ms2 q) = m_list (node ms q)" using c2 by (simp add: calm_def links_eq)
  have f2: "forest ms2 q (m_list (node ms q)) cs" by (rule calm_forest [OF c2 f])
  have s2: "sane ms2 st2" "distinct (preorders cs)" using c2 d by (simp_all add: calm_def)
  from finalize_each_ok [OF rec refl sz s2(1) f2 s2(2)] obtain ms3 st3 cs3 where
    3: "finalize_each rec (m_list (node ms q)) ms2 st2 = Some (ms3, st3)" "sane ms3 st3" "forest ms3 q (m_list (node ms q)) cs3"
      "preorders cs3 = preorders cs" "outside (set (preorders cs)) ms2 ms3" by blast
  have "links ms3 q = links ms2 q" using 3(5) d by (simp add: outside_def)
  then have "m_list (node ms3 q) = m_list (node ms q)" using q2 by (simp add: links_eq)
  moreover have "outside (set (preorders cs)) ms ms3"
    by (rule outside_trans [OF calm_outside [OF c2, THEN conjunct1] 3(5)]) auto
  moreover have "finalize_list rec q ms st = Some (ms3, st3)"
    unfolding finalize_list_def c bind.bind_lunit 1(1) using 2(1) 3(1) q2 by simp
  ultimately show ?thesis using 3(2-4) by auto
qed

lemma sane_flag: "sane ms st \<Longrightarrow> sane ms (set_flag SYMBOL_WARNED s st)"
  unfolding set_flag_def by (rule sane_upd) simp_all

lemma sane_optional: "sane ms st \<Longrightarrow> sane ms (not_optional q ms st)"
  by (auto simp: not_optional_def intro: sane_upd split: option.split)

lemma menu_finalize_ok: "finalizes (menu_finalize n) n"
proof (induction n)
  case 0
  then show ?case by (simp add: finalizes_def)
next
  case (Suc n)
  show ?case unfolding finalizes_def
  proof (intro allI impI, elim conjE)
    fix m q cs ts ms st
    assume sn: "sane ms st" and fc: "forest ms m (m_list (node ms m)) cs" and ft: "forest ms q (m_next (node ms m)) ts"
      and d: "distinct (m # preorders cs @ preorders ts)" and sz: "length (preorders cs @ preorders ts) < Suc n"
    let ?N = "set (m # preorders cs @ preorders ts)"
    have "\<exists>ms1 st1 cs1 ts1. (if m_list (node ms m) \<noteq> None then finalize_list (menu_finalize n) m ms st
         else case m_sym (node ms m) of None \<Rightarrow> Some (ms, st) | Some s \<Rightarrow> make_submenu (menu_finalize n) m s ms st) = Some (ms1, st1)
      \<and> sane ms1 st1 \<and> forest ms1 m (m_list (node ms1 m)) cs1 \<and> forest ms1 q (m_next (node ms1 m)) ts1
      \<and> preorders cs1 @ preorders ts1 = preorders cs @ preorders ts \<and> length (preorders ts1) \<le> length (preorders ts) \<and> m_parent (node ms1 m) = m_parent (node ms m) \<and> outside ?N ms ms1"
    proof (cases "m_list (node ms m)")
      case None
      then have cs: "cs = []" using fc by (cases cs rule: preorders.cases) simp_all
      show ?thesis
      proof (cases "m_sym (node ms m)")
        case N: None
        then show ?thesis using None sn fc ft by (intro exI [of _ ms] exI [of _ st] exI [of _ cs] exI [of _ ts]) (simp add: outside_def)
      next
        case (Some s)
        have "distinct (m # preorders ts)" "length (preorders ts) \<le> n" using d sz by simp_all
        from make_submenu_ok [OF Suc sn ft None this, of s] obtain ms1 st1 cs1 ts1 where
          1: "make_submenu (menu_finalize n) m s ms st = Some (ms1, st1)" "sane ms1 st1" "forest ms1 m (m_list (node ms1 m)) cs1"
            "forest ms1 q (m_next (node ms1 m)) ts1" "preorders cs1 @ preorders ts1 = preorders ts" "m_parent (node ms1 m) = m_parent (node ms m)"
            "outside (set (m # preorders ts)) ms ms1" by blast
        have "length (preorders ts1) \<le> length (preorders ts)" using arg_cong [OF 1(5), of length] by simp
        then show ?thesis using None Some cs 1 by (intro exI [of _ ms1] exI [of _ st1] exI [of _ cs1] exI [of _ ts1]) simp
      qed
    next
      case (Some z)
      have "distinct (m # preorders cs)" "length (preorders cs) \<le> n" using d sz by simp_all
      from finalize_list_ok [OF Suc sn fc this] obtain ms1 st1 cs1 where
        1: "finalize_list (menu_finalize n) m ms st = Some (ms1, st1)" "sane ms1 st1" "forest ms1 m (m_list (node ms1 m)) cs1"
          "preorders cs1 = preorders cs" "outside (set (preorders cs)) ms ms1" by blast
      have "links ms1 m = links ms m" using 1(5) d by (simp add: outside_def)
      moreover have "forest ms1 q (m_next (node ms m)) ts" by (rule outside_forest [OF 1(5) ft]) (use d in auto)
      moreover have "outside ?N ms ms1" using 1(5) by (auto simp: outside_def)
      ultimately show ?thesis using 1 Some by (intro exI [of _ ms1] exI [of _ st1] exI [of _ cs1] exI [of _ ts]) (simp add: links_eq)
    qed
    then obtain ms1 st1 cs1 ts1 where
      1: "(if m_list (node ms m) \<noteq> None then finalize_list (menu_finalize n) m ms st
         else case m_sym (node ms m) of None \<Rightarrow> Some (ms, st) | Some s \<Rightarrow> make_submenu (menu_finalize n) m s ms st) = Some (ms1, st1)"
        "sane ms1 st1" "forest ms1 m (m_list (node ms1 m)) cs1" "forest ms1 q (m_next (node ms1 m)) ts1"
        "preorders cs1 @ preorders ts1 = preorders cs @ preorders ts" "m_parent (node ms1 m) = m_parent (node ms m)" "outside ?N ms ms1"
        "length (preorders ts1) \<le> length (preorders ts)" by blast
    have dj: "distinct (preorders cs1)" "m \<notin> set (preorders cs1)" "set (preorders cs1) \<inter> set (preorders ts1) = {}"
      and N1: "set (preorders cs1) \<subseteq> ?N"
    proof -
      have e: "distinct (preorders cs1 @ preorders ts1)" "m \<notin> set (preorders cs1 @ preorders ts1)" using d by (simp_all only: 1(5)) simp_all
      then show "distinct (preorders cs1)" "m \<notin> set (preorders cs1)" "set (preorders cs1) \<inter> set (preorders ts1) = {}" by simp_all
      have "set (preorders cs1 @ preorders ts1) \<subseteq> ?N" unfolding 1(5) by auto
      then show "set (preorders cs1) \<subseteq> ?N" by simp
    qed
    from adopt_ok [OF refl 1(2,3) dj(1), of "m_sym (node ms m)"] obtain ms2 st2 cs2 where
      2: "adopt m (m_sym (node ms m)) (m_list (node ms1 m)) ms1 st1 = Some (ms2, st2)" "sane ms2 st2" "forest ms2 m (m_list (node ms1 m)) cs2"
        "preorders cs2 = preorders cs1" "outside (set (preorders cs1)) ms1 ms2" by blast
    have l2: "links ms2 m = links ms1 m" using 2(5) dj(2) by (simp add: outside_def)
    have f2: "forest ms2 q (m_next (node ms1 m)) ts1" by (rule outside_forest [OF 2(5) 1(4) dj(3)])
    have sy: "m_sym (node ms2 m) = m_sym (node ms m)" "m_sym (node ms1 m) = m_sym (node ms m)" using 1(7) 2(5) by (simp_all add: outside_def)
    define st3 where "st3 = not_optional m ms2 (case m_sym (node ms2 m) of None \<Rightarrow> st2 | Some s \<Rightarrow> set_flag SYMBOL_WARNED s st2)"
    have "sane ms2 st3" unfolding st3_def by (rule sane_optional) (use 2(2) sane_flag in \<open>auto split: option.split\<close>)
    moreover have "menu_finalize (Suc n) m ms st = Some (ms2, st3)"
      unfolding menu_finalize.simps 1(1) bind.bind_lunit using 2(1) sy(2) by (simp add: st3_def)
    moreover have "outside ?N ms ms2" by (rule outside_trans [OF 1(7) 2(5) subset_refl N1])
    ultimately show "\<exists>ms' st' cs' ts'. menu_finalize (Suc n) m ms st = Some (ms', st') \<and> sane ms' st' \<and> forest ms' m (m_list (node ms' m)) cs'
       \<and> forest ms' q (m_next (node ms' m)) ts' \<and> preorders cs' @ preorders ts' = preorders cs @ preorders ts
       \<and> length (preorders ts') \<le> length (preorders ts) \<and> m_parent (node ms' m) = m_parent (node ms m) \<and> outside ?N ms ms'"
      using 1(5,6,8) 2(3,4) f2 l2 by (intro exI [of _ ms2] exI [of _ st3] exI [of _ cs2] exI [of _ ts1]) (simp add: links_eq)
  qed
qed

lemma menu_finalize_order:
  assumes "forest ms 0 (m_list (node ms 0)) ts" "distinct (0 # preorders ts)" "m_next (node ms 0) = None" "m_parent (node ms 0) = None"
    "sane ms st" "length (preorders ts) < n"
  shows "\<exists>ms' st'. menu_finalize n 0 ms st = Some (ms', st') \<and> walk ms (m_list (node ms 0)) = Some (preorders ts)
    \<and> walk ms' (m_list (node ms' 0)) = Some (preorders ts) \<and> (\<forall>x. m_sym (node ms' x) = m_sym (node ms x)) \<and> sane ms' st'"
proof -
  have "forest ms 0 (m_next (node ms 0)) []" "length (preorders ts @ preorders []) < n" "distinct (0 # preorders ts @ preorders [])"
    using assms(2,3,6) by simp_all
  from finalizes_at [OF menu_finalize_ok assms(5,1) this(1,3,2)] obtain ms' st' cs' ts' where 1: "menu_finalize n 0 ms st = Some (ms', st')" "sane ms' st'"
    "forest ms' 0 (m_list (node ms' 0)) cs'" "forest ms' 0 (m_next (node ms' 0)) ts'" "preorders cs' @ preorders ts' = preorders ts @ preorders []"
    "length (preorders ts') \<le> length (preorders [])" "m_parent (node ms' 0) = m_parent (node ms 0)" "outside (set (0 # preorders ts @ preorders [])) ms ms'" .
  have "ts' = []" using 1(6) by (cases ts' rule: preorders.cases) simp_all
  then have "m_next (node ms' 0) = None" "preorders cs' = preorders ts" using 1(4,5) by simp_all
  then have "walk ms' (m_list (node ms' 0)) = Some (preorders ts)" using walk_preorder [OF 1(3)] 1(7) assms(4) by simp
  then show ?thesis using 1(1,2,8) walk_preorder [OF assms(1,3,4)] by (auto simp: outside_def)
qed

text \<open>Claim C24. After the parser, \<^verbatim>\<open>menu_finalize\<close> ends on every tree of menus (with the number of menus as depth) without following a null
  pointer. It moves entries that depend on the one before into a list below it and lifts the entries of lists without prompt, but the loop
  over all menus visits the same menus in the same order as before, with the same symbols: \<^verbatim>\<open>conf_write\<close> writes them in the order
  of the files. This needs that a \<^verbatim>\<open>select\<close> names a symbol and a choice has its list of values (\<open>sane\<close>), which still holds afterwards.\<close>

theorem menu_finalize_keeps_order:
  assumes "forest ms 0 (m_list (node ms 0)) ts" "distinct (0 # preorders ts)" "m_next (node ms 0) = None" "m_parent (node ms 0) = None"
    "sane ms st" "length (preorders ts) < n"
  shows "\<exists>ms' st'. menu_finalize n 0 ms st = Some (ms', st') \<and> walk ms (m_list (node ms 0)) = Some (preorders ts)
    \<and> walk ms' (m_list (node ms' 0)) = Some (preorders ts) \<and> (\<forall>x. m_sym (node ms' x) = m_sym (node ms x)) \<and> sane ms' st'"
  by (rule menu_finalize_order [OF assms])

text \<open>Three entries and a menu without prompt around a fourth; the second entry depends on the first.\<close>

definition demo_tree :: menus where
  "demo_tree = \<lparr>node = (\<lambda>_. new_menu None None)(0 := (new_menu None None)\<lparr>m_list := Some 1\<rparr>,
     1 := (new_menu (Some 0) (Some (Sym 0)))\<lparr>m_next := Some 2\<rparr>, 2 := (new_menu (Some 0) (Some (Sym 1)))\<lparr>m_next := Some 3, m_dep := Some (E_SYMBOL (Sym 0))\<rparr>,
     3 := (new_menu (Some 0) None)\<lparr>m_list := Some 4\<rparr>, 4 := new_menu (Some 3) (Some (Sym 2))),
     next_menu = 5, current_entry = 4, current_menu = 0, last_entry_ptr = Next_of 3\<rparr>"

lemma menu_finalize_keeps_order_witness:
  "\<exists>ms' st'. menu_finalize 5 0 demo_tree init_ktab = Some (ms', st') \<and> walk ms' (m_list (node ms' 0)) = Some [1, 2, 3, 4]
    \<and> m_sym (node ms' 2) = Some (Sym 1)"
proof -
  let ?ts = "[Node 1 [], Node 2 [], Node 3 [Node 4 []]]"
  have f: "forest demo_tree 0 (m_list (node demo_tree 0)) ?ts" by (simp add: demo_tree_def new_menu_def)
  have z: "m_next (node demo_tree 0) = None" "m_parent (node demo_tree 0) = None" "m_sym (node demo_tree 2) = Some (Sym 1)"
    by (simp_all add: demo_tree_def new_menu_def)
  have "SYMBOL_CHOICE \<notin> s_flags (syms init_ktab t)" "s_prop (syms init_ktab t) = []" for t
    by (simp_all add: init_ktab_def const_ksym_def new_ksym_def split: symbol.split)
  then have s: "sane demo_tree init_ktab" by (simp add: sane_def sym_is_choice_def has_flag_def demo_tree_def new_menu_def)
  have "distinct (0 # preorders ?ts)" "length (preorders ?ts) < 5" by simp_all
  from menu_finalize_keeps_order [OF f this(1) z(1,2) s this(2)] show ?thesis using z(3) by auto
qed

end
