(* ===== verification/KPropagate.thy ===== *)
theory KPropagate
  imports KFinalizeProps KExprDupsProps
begin

text \<open>
  What the propagation of dependencies in \<^verbatim>\<open>menu_finalize\<close> means: with the simplifications of \<^verbatim>\<open>expr.c\<close> the new conditions have the value of
  the conjunctions they stand for.
\<close>

definition crisp_opt :: "(symbol \<Rightarrow> symbol_value) \<Rightarrow> expr option \<Rightarrow> bool" where
  "crisp_opt v e \<longleftrightarrow> (case e of None \<Rightarrow> True | Some e \<Rightarrow> crisp v e)"

lemma crisp_transform: "consistent T v \<Longrightarrow> crisp v e \<Longrightarrow> crisp v (expr_transform T e)"
proof (induction T e rule: expr_transform.induct)
  case (6 T e)
  then have e: "crisp v (expr_transform T e)" by simp
  show ?case
  proof (cases "expr_transform T e")
    case (E_OR a b)
    then show ?thesis using 6(2) [OF E_OR 6(5)] e by simp
  next
    case (E_AND a b)
    then show ?thesis using 6(3) [OF E_AND 6(5)] e by simp
  next
    case (E_NOT a)
    then show ?thesis using 6(4) [OF E_NOT 6(5)] e by simp
  qed (use e con_val [OF 6(5)] in auto)
next
  case (2 T s t)
  then show ?case using consistent_boolean [of T v s] by (auto simp: transform_leaf_def con_val)
next
  case (3 T s t)
  then show ?case using consistent_boolean [of T v s] by (auto simp: transform_leaf_def con_val)
qed simp_all

lemma and_value:
  assumes "crisp_opt v a" "crisp_opt v b"
  shows "expr_calc_value T v (expr_alloc_and a b) = EXPR_AND (expr_calc_value T v a) (expr_calc_value T v b) \<and> crisp_opt v (expr_alloc_and a b)"
  using assms by (cases a; cases b) (auto simp: expr_alloc_and_def expr_calc_value_def crisp_opt_def EXPR_AND_def less_tristate_def tri_num_def split: tristate.split)

lemma dups_crisp: "consistent T v \<Longrightarrow> crisp v e \<Longrightarrow> crisp v (expr_eliminate_dups T e)"
proof (induction T e rule: expr_eliminate_dups.induct)
  case (1 T e)
  obtain e' c where r: "dups_round T e = (e', c)" by fastforce
  note v = dups_round_rule [OF 1(2,3) r]
  show ?case
  proof (cases "c = 0")
    case True
    then show ?thesis using v r by (simp add: expr_eliminate_dups.simps [of T e])
  next
    case False
    have "crisp v (expr_eliminate_dups T (expr_eliminate_yn e'))"
      by (rule 1(1) [OF r [symmetric] False 1(2)]) (use eliminate_yn_crisp [OF 1(2)] v in simp)
    then show ?thesis using False v r by (simp add: expr_eliminate_dups.simps [of T e])
  qed
qed

lemma base_dep_value:
  assumes "consistent T v" "crisp_opt v up" "crisp_opt v e"
  shows "expr_calc_value T v (base_dep T up e) = EXPR_AND (expr_calc_value T v up) (expr_calc_value T v e) \<and> crisp_opt v (base_dep T up e)"
proof -
  have t: "expr_calc_value T v (map_option (expr_transform T) e) = expr_calc_value T v e \<and> crisp_opt v (map_option (expr_transform T) e)"
    using assms crisp_transform [OF assms(1)] transform_rule [OF assms(1)] by (cases e) (simp_all add: expr_calc_value_def crisp_opt_def)
  have d: "expr_calc_value T v (map_option (expr_eliminate_dups T) x) = expr_calc_value T v x \<and> crisp_opt v (map_option (expr_eliminate_dups T) x)"
    if "crisp_opt v x" for x
    using that eliminate_dups_rule [OF assms(1)] dups_crisp [OF assms(1)] by (cases x) (simp_all add: expr_calc_value_def crisp_opt_def)
  show ?thesis using and_value [OF assms(2), of "map_option (expr_transform T) e" T] t d by (simp add: base_dep_def)
qed

section \<open>The properties of a menu\<close>

text \<open>A missing reverse dependency is \<^verbatim>\<open>n\<close>.\<close>

definition rev_value :: "symtab \<Rightarrow> (symbol \<Rightarrow> symbol_value) \<Rightarrow> expr option \<Rightarrow> tristate" where
  "rev_value T v e = (case e of None \<Rightarrow> No | Some e \<Rightarrow> calc_value T v e)"

text \<open>What the \<^verbatim>\<open>select\<close> properties of the menu add to the reverse dependency of \<open>t\<close>.\<close>

definition selected :: "symtab \<Rightarrow> (symbol \<Rightarrow> symbol_value) \<Rightarrow> nat \<Rightarrow> symbol \<Rightarrow> property list \<Rightarrow> symbol \<Rightarrow> tristate list" where
  "selected T v m s ps t = map (\<lambda>p. EXPR_AND (tri (v s)) (expr_calc_value T v (p_visible p)))
     (filter (\<lambda>p. p_menu p = Some m \<and> p_type p = P_SELECT \<and> prop_get_symbol p = Some t) ps)"

text \<open>The condition of a property that belongs to the menu.\<close>

definition narrowed :: "symtab \<Rightarrow> (symbol \<Rightarrow> symbol_value) \<Rightarrow> nat \<Rightarrow> expr option \<Rightarrow> property \<Rightarrow> property \<Rightarrow> bool" where
  "narrowed T v m base p q \<longleftrightarrow> p_type q = p_type p \<and> p_expr q = p_expr p \<and> p_text q = p_text p \<and> p_menu q = p_menu p
     \<and> (if p_menu p = Some m then expr_calc_value T v (p_visible q) = EXPR_AND (expr_calc_value T v base) (expr_calc_value T v (p_visible p)) else q = p)"

lemma narrowed_same: "p_menu p \<noteq> Some m \<Longrightarrow> narrowed T v m base p p"
  by (simp add: narrowed_def)

lemma add_dep_value:
  assumes con: "consistent (tab_of st) v" and tri: "\<forall>t. s_type (syms st t) \<noteq> S_TRISTATE \<or> tri (v t) \<noteq> Mod"
    and c: "crisp_opt v base" "crisp_opt v (p_visible p)" and m: "p_menu p = Some m"
  shows "narrowed (tab_of st) v m base p (add_dep st s base p)"
proof -
  note b = base_dep_value [OF con c]
  have ty: "sym_type (tab_of st) t = S_TRISTATE \<Longrightarrow> tri (v t) \<noteq> Mod" for t using tri by (simp add: tab_of_def)
  have "expr_calc_value (tab_of st) v (map_option (expr_trans_bool (tab_of st)) e) = expr_calc_value (tab_of st) v e" for e
    using trans_bool_rule [OF con ty] by (cases e) (simp_all add: expr_calc_value_def)
  then show ?thesis using b m by (simp add: narrowed_def add_dep_def Let_def)
qed

lemma rev_or: "rev_value T v (expr_alloc_or a b) = EXPR_OR (rev_value T v a) (rev_value T v b)"
  by (cases a; cases b) (auto simp: expr_alloc_or_def rev_value_def EXPR_OR_def less_tristate_def tri_num_def split: tristate.split)

lemma rev_and_symbol: "rev_value T v (expr_alloc_and (Some (E_SYMBOL s)) e) = EXPR_AND (tri (v s)) (expr_calc_value T v e)"
  by (cases e; cases "tri (v s)") (auto simp: expr_alloc_and_def rev_value_def expr_calc_value_def EXPR_AND_def less_tristate_def tri_num_def)

text \<open>All but reverse dependencies stays as it is while the properties are gone through.\<close>

definition only_rev :: "ktab \<Rightarrow> ktab \<Rightarrow> bool" where
  "only_rev st st' \<longleftrightarrow> (\<forall>t. s_type (syms st' t) = s_type (syms st t) \<and> s_prop (syms st' t) = s_prop (syms st t)
     \<and> s_name (syms st' t) = s_name (syms st t) \<and> s_flags (syms st' t) = s_flags (syms st t))"

lemma only_rev_tab: "only_rev st st' \<Longrightarrow> tab_of st' = tab_of st"
  by (simp add: only_rev_def tab_of_def)

lemma prop_deps_value:
  assumes con: "consistent T v" and tri: "\<forall>t. sym_type T t \<noteq> S_TRISTATE \<or> tri (v t) \<noteq> Mod" and base: "crisp_opt v base"
  shows "tab_of st = T \<Longrightarrow> \<forall>p \<in> set ps. p_type p = P_SELECT \<longrightarrow> prop_get_symbol p \<noteq> None \<Longrightarrow>
    \<forall>p \<in> set ps. p_menu p = Some m \<longrightarrow> crisp_opt v (p_visible p) \<Longrightarrow>
    \<exists>qs st'. prop_deps m (Some s) base ps st = Some (qs, st') \<and> list_all2 (narrowed T v m base) ps qs \<and> only_rev st st'
      \<and> (\<forall>t. rev_value T v (s_rev_expr (syms st' t)) = foldl EXPR_OR (rev_value T v (s_rev_expr (syms st t))) (selected T v m s qs t))"
proof (induction ps arbitrary: st)
  case Nil
  then show ?case by (simp add: only_rev_def selected_def)
next
  case (Cons p ps)
  have rest: "\<forall>p \<in> set ps. p_type p = P_SELECT \<longrightarrow> prop_get_symbol p \<noteq> None" "\<forall>p \<in> set ps. p_menu p = Some m \<longrightarrow> crisp_opt v (p_visible p)"
    using Cons(3,4) by simp_all
  show ?case
  proof (cases "p_menu p = Some m")
    case False
    from Cons(1) [OF Cons(2) rest] obtain qs st' where "prop_deps m (Some s) base ps st = Some (qs, st')" "list_all2 (narrowed T v m base) ps qs" "only_rev st st'"
      "\<forall>t. rev_value T v (s_rev_expr (syms st' t)) = foldl EXPR_OR (rev_value T v (s_rev_expr (syms st t))) (selected T v m s qs t)" by blast
    then show ?thesis using False narrowed_same [OF False] by (intro exI [of _ "p # qs"] exI [of _ st']) (simp add: selected_def)
  next
    case True
    let ?p = "add_dep st (Some s) base p"
    have tr: "\<forall>t. s_type (syms st t) \<noteq> S_TRISTATE \<or> tri (v t) \<noteq> Mod" using tri Cons(2) by (auto simp: tab_of_def)
    have cp: "crisp_opt v (p_visible p)" using Cons(4) True by simp
    have n: "narrowed T v m base p ?p" using add_dep_value [of st v base p m "Some s"] con tr base cp True Cons(2) by simp
    have f: "p_type ?p = p_type p" "prop_get_symbol ?p = prop_get_symbol p" "p_menu ?p = Some m"
      using True by (simp_all add: add_dep_def Let_def prop_get_symbol_def)
    have "\<exists>st1. (if p_type p = P_SELECT then add_select (Some s) ?p st else Some st) = Some st1 \<and> only_rev st st1
      \<and> (\<forall>t. rev_value T v (s_rev_expr (syms st1 t)) = foldl EXPR_OR (rev_value T v (s_rev_expr (syms st t))) (selected T v m s [?p] t))"
    proof (cases "p_type p = P_SELECT")
      case sel: True
      then obtain es where es: "prop_get_symbol ?p = Some es" using Cons(3) f(2) by auto
      let ?g = "\<lambda>k. k\<lparr>s_rev_expr := expr_alloc_or (s_rev_expr k) (expr_alloc_and (Some (E_SYMBOL s)) (p_visible ?p))\<rparr>"
      have "add_select (Some s) ?p st = Some (upd es ?g st)" by (simp add: add_select_def es)
      moreover have "only_rev st (upd es ?g st)" by (simp add: only_rev_def KSymbol.upd_def)
      moreover have "rev_value T v (s_rev_expr (syms (upd es ?g st) t))
          = foldl EXPR_OR (rev_value T v (s_rev_expr (syms st t))) (selected T v m s [?p] t)" for t
        using sel es f by (simp add: KSymbol.upd_def selected_def rev_or rev_and_symbol)
      ultimately show ?thesis using sel by auto
    next
      case False
      then show ?thesis using f(1) by (simp add: only_rev_def selected_def)
    qed
    then obtain st1 where 1: "(if p_type p = P_SELECT then add_select (Some s) ?p st else Some st) = Some st1" "only_rev st st1"
      "\<And>t. rev_value T v (s_rev_expr (syms st1 t)) = foldl EXPR_OR (rev_value T v (s_rev_expr (syms st t))) (selected T v m s [?p] t)" by blast
    have t1: "tab_of st1 = T" using only_rev_tab [OF 1(2)] Cons(2) by simp
    from Cons(1) [OF t1 rest] obtain qs st' where 2: "prop_deps m (Some s) base ps st1 = Some (qs, st')" "list_all2 (narrowed T v m base) ps qs" "only_rev st1 st'"
      "\<And>t. rev_value T v (s_rev_expr (syms st' t)) = foldl EXPR_OR (rev_value T v (s_rev_expr (syms st1 t))) (selected T v m s qs t)" by blast
    have "prop_deps m (Some s) base (p # ps) st = Some (?p # qs, st')"
      using True 1(1) 2(1) f(1) by (cases "p_type p = P_SELECT") (simp_all add: Let_def)
    moreover have "only_rev st st'" using 1(2) 2(3) by (simp add: only_rev_def)
    moreover have "selected T v m s (?p # qs) t = selected T v m s [?p] t @ selected T v m s qs t" for t by (simp add: selected_def)
    then have "rev_value T v (s_rev_expr (syms st' t)) = foldl EXPR_OR (rev_value T v (s_rev_expr (syms st t))) (selected T v m s (?p # qs) t)" for t
      by (simp only: foldl_append 2(4) 1(3))
    ultimately show ?thesis using n 2(2) by blast
  qed
qed

text \<open>Claim C30. The step of \<^verbatim>\<open>menu_finalize\<close> that propagates dependencies to an entry returns, and under all values of the symbols in which
  no symbol is \<^verbatim>\<open>m\<close> its result means what it should, despite the simplifications on the way: the dependency of the entry becomes the
  conjunction of the dependency from above and its own; the condition of each of its properties becomes the conjunction of that and its own
  condition, properties that belong to other entries of the symbol are untouched; and the reverse dependency of every symbol is or-ed with
  the entry's symbol and the condition, once for each \<^verbatim>\<open>select\<close> of it.\<close>

theorem propagation_value:
  assumes "consistent (tab_of st) v" "\<forall>t. s_type (syms st t) \<noteq> S_TRISTATE \<or> tri (v t) \<noteq> Mod" "crisp_opt v up" "crisp_opt v (m_dep (node ms m))"
    "m_sym (node ms m) = Some s" "\<forall>p \<in> set (s_prop (syms st s)). p_type p = P_SELECT \<longrightarrow> prop_get_symbol p \<noteq> None"
    "\<forall>p \<in> set (s_prop (syms st s)). p_menu p = Some m \<longrightarrow> crisp_opt v (p_visible p)"
  shows "\<exists>ms' st'. propagate up m ms st = Some (ms', st')
    \<and> expr_calc_value (tab_of st) v (m_dep (node ms' m)) = EXPR_AND (expr_calc_value (tab_of st) v up) (expr_calc_value (tab_of st) v (m_dep (node ms m)))
    \<and> list_all2 (narrowed (tab_of st) v m (m_dep (node ms' m))) (s_prop (syms st s)) (s_prop (syms st' s))
    \<and> (\<forall>t. rev_value (tab_of st) v (s_rev_expr (syms st' t))
        = foldl EXPR_OR (rev_value (tab_of st) v (s_rev_expr (syms st t))) (selected (tab_of st) v m s (s_prop (syms st' s)) t))"
proof -
  let ?T = "tab_of st"
  define base where "base = base_dep ?T up (m_dep (node ms m))"
  note b = base_dep_value [OF assms(1,3,4), folded base_def]
  have tri: "\<forall>t. sym_type ?T t \<noteq> S_TRISTATE \<or> tri (v t) \<noteq> Mod" using assms(2) by (simp add: tab_of_def)
  from prop_deps_value [OF assms(1) tri conjunct2 [OF b] refl assms(6,7)] obtain qs st1 where
    1: "prop_deps m (Some s) base (s_prop (syms st s)) st = Some (qs, st1)" "list_all2 (narrowed ?T v m base) (s_prop (syms st s)) qs" "only_rev st st1"
      "\<And>t. rev_value ?T v (s_rev_expr (syms st1 t)) = foldl EXPR_OR (rev_value ?T v (s_rev_expr (syms st t))) (selected ?T v m s qs t)" by blast
  let ?ms = "upd_menu m (\<lambda>x. x\<lparr>m_dep := base\<rparr>) ms" and ?st = "upd s (\<lambda>k. k\<lparr>s_prop := qs\<rparr>) st1"
  have "propagate up m ms st = Some (?ms, ?st)" using 1(1) assms(5) by (simp add: propagate_def base_def [symmetric] Let_def)
  moreover have "s_prop (syms ?st s) = qs" "s_rev_expr (syms ?st t) = s_rev_expr (syms st1 t)" for t by (simp_all add: KSymbol.upd_def)
  ultimately show ?thesis using b 1(2,4) by (intro exI [of _ ?ms] exI [of _ ?st]) simp
qed

text \<open>An entry that selects a symbol, below a dependency that is met; its own dependency is met too.\<close>

definition demo_select :: ktab where
  "demo_select = init_ktab\<lparr>next_sym := 3, syms := (syms init_ktab)
     (Sym 0 := (new_ksym (Some ''BR2_A'') {})\<lparr>s_type := S_BOOLEAN,
        s_prop := [\<lparr>p_type = P_SELECT, p_text = None, p_visible = Some (E_NOT (E_SYMBOL (Sym 2))), p_expr = Dep (E_SYMBOL (Sym 1)), p_menu = Some 1, p_file = False\<rparr>]\<rparr>,
      Sym 1 := (new_ksym (Some ''BR2_B'') {})\<lparr>s_type := S_BOOLEAN\<rparr>, Sym 2 := (new_ksym (Some ''BR2_C'') {})\<lparr>s_type := S_BOOLEAN\<rparr>)\<rparr>"

definition yes_values :: "symbol \<Rightarrow> symbol_value" where
  "yes_values s = (case s of symbol_yes \<Rightarrow> \<lparr>val = ''y'', tri = Yes\<rparr> | symbol_mod \<Rightarrow> \<lparr>val = ''m'', tri = Mod\<rparr> | symbol_no \<Rightarrow> \<lparr>val = ''n'', tri = No\<rparr>
     | Sym n \<Rightarrow> if n = 2 then \<lparr>val = ''n'', tri = No\<rparr> else \<lparr>val = ''y'', tri = Yes\<rparr>)"

lemma propagation_value_witness:
  "\<exists>ms' st'. propagate (Some (E_SYMBOL (Sym 1))) 1 (upd_menu 1 (\<lambda>x. x\<lparr>m_sym := Some (Sym 0)\<rparr>) no_menus) demo_select = Some (ms', st')
    \<and> rev_value (tab_of demo_select) yes_values (s_rev_expr (syms st' (Sym 1))) = Yes"
proof -
  let ?ms = "upd_menu 1 (\<lambda>x. x\<lparr>m_sym := Some (Sym 0)\<rparr>) no_menus" and ?T = "tab_of demo_select" and ?up = "Some (E_SYMBOL (Sym 1))"
  have p: "s_prop (syms demo_select (Sym 0)) = [\<lparr>p_type = P_SELECT, p_text = None, p_visible = Some (E_NOT (E_SYMBOL (Sym 2))), p_expr = Dep (E_SYMBOL (Sym 1)), p_menu = Some 1, p_file = False\<rparr>]"
    and r: "s_rev_expr (syms demo_select (Sym 1)) = None" by (simp_all add: demo_select_def new_ksym_def)
  have ty: "s_type (syms demo_select t) = (if t \<in> {Sym 0, Sym 1, Sym 2} then S_BOOLEAN else S_UNKNOWN)" for t
    by (simp add: demo_select_def init_ktab_def new_ksym_def const_ksym_def split: symbol.split)
  have co: "SYMBOL_CONST \<in> s_flags (syms demo_select t) \<longleftrightarrow> t \<in> {symbol_yes, symbol_mod, symbol_no}" for t
    by (simp add: demo_select_def init_ktab_def new_ksym_def const_ksym_def split: symbol.split)
  have con: "consistent ?T yes_values" by (auto simp: consistent_def tab_of_def ty co yes_values_def)
  have tri: "\<forall>t. s_type (syms demo_select t) \<noteq> S_TRISTATE \<or> tri (yes_values t) \<noteq> Mod" by (simp add: ty)
  have ms: "m_sym (node ?ms 1) = Some (Sym 0)" "m_dep (node ?ms 1) = None" by (simp_all add: no_menus_def new_menu_def)
  have cr: "crisp_opt yes_values ?up" "crisp_opt yes_values (m_dep (node ?ms 1))" unfolding ms(2) by (simp_all add: crisp_opt_def yes_values_def)
  have ps: "\<forall>q \<in> set (s_prop (syms demo_select (Sym 0))). p_type q = P_SELECT \<longrightarrow> prop_get_symbol q \<noteq> None"
    "\<forall>q \<in> set (s_prop (syms demo_select (Sym 0))). p_menu q = Some 1 \<longrightarrow> crisp_opt yes_values (p_visible q)"
    by (simp_all add: p prop_get_symbol_def crisp_opt_def yes_values_def)
  from propagation_value [OF con tri cr ms(1) ps] obtain ms' st' where
    1: "propagate ?up 1 ?ms demo_select = Some (ms', st')"
      "expr_calc_value ?T yes_values (m_dep (node ms' 1)) = EXPR_AND (expr_calc_value ?T yes_values ?up) (expr_calc_value ?T yes_values (m_dep (node ?ms 1)))"
      "list_all2 (narrowed ?T yes_values 1 (m_dep (node ms' 1))) (s_prop (syms demo_select (Sym 0))) (s_prop (syms st' (Sym 0)))"
      "rev_value ?T yes_values (s_rev_expr (syms st' (Sym 1)))
        = foldl EXPR_OR (rev_value ?T yes_values (s_rev_expr (syms demo_select (Sym 1)))) (selected ?T yes_values 1 (Sym 0) (s_prop (syms st' (Sym 0))) (Sym 1))"
    by blast
  have y: "expr_calc_value ?T yes_values (m_dep (node ms' 1)) = Yes"
    using 1(2) unfolding ms(2) by (simp add: expr_calc_value_def yes_values_def EXPR_AND_def less_tristate_def tri_num_def)
  from 1(3) obtain q where q: "s_prop (syms st' (Sym 0)) = [q]" "narrowed ?T yes_values 1 (m_dep (node ms' 1)) (hd (s_prop (syms demo_select (Sym 0)))) q"
    by (auto simp: p list_all2_Cons1)
  have "p_type q = P_SELECT" "prop_get_symbol q = Some (Sym 1)" "p_menu q = Some 1" "expr_calc_value ?T yes_values (p_visible q) = Yes"
    using q(2) y by (simp_all add: p narrowed_def prop_get_symbol_def)
      (simp add: expr_calc_value_def yes_values_def EXPR_AND_def EXPR_NOT_def less_tristate_def tri_num_def)
  then have "rev_value ?T yes_values (s_rev_expr (syms st' (Sym 1))) = Yes" using 1(4) unfolding r q(1)
    by (simp add: selected_def rev_value_def yes_values_def EXPR_AND_def EXPR_OR_def less_tristate_def tri_num_def)
  then show ?thesis using 1(1) by blast
qed

end
