(* ===== verification/KConf.thy ===== *)
theory KConf
  imports KCalc
begin

text \<open>
  Configuration files (\<^verbatim>\<open>package/config/confdata.c\<close>), reading: \<^verbatim>\<open>conf_set_sym_val\<close>, the lines of a file, \<^verbatim>\<open>conf_read_simple\<close> and
  \<^verbatim>\<open>conf_read\<close>. A file is a string; warnings are counted, their texts are left out. \<open>None\<close> is a null pointer that is followed or a
  buffer that is overrun, or a depth that was not enough.
\<close>

section \<open>State\<close>

text \<open>The value that is set: by the user, or from \<^verbatim>\<open>auto.conf\<close>.\<close>

datatype def_index = S_DEF_USER | S_DEF_AUTO

record conf =
  tab :: ktab
  conf_warnings :: int
  conf_unsaved :: int

definition def_flag :: "def_index \<Rightarrow> sym_flag" where
  "def_flag d = (case d of S_DEF_USER \<Rightarrow> SYMBOL_DEF_USER | S_DEF_AUTO \<Rightarrow> SYMBOL_DEF_AUTO)"

definition def_of :: "def_index \<Rightarrow> ksym \<Rightarrow> user_value" where
  "def_of d k = (case d of S_DEF_USER \<Rightarrow> s_user k | S_DEF_AUTO \<Rightarrow> s_auto k)"

definition upd_def :: "def_index \<Rightarrow> (user_value \<Rightarrow> user_value) \<Rightarrow> ksym \<Rightarrow> ksym" where
  "upd_def d f k = (case d of S_DEF_USER \<Rightarrow> k\<lparr>s_user := f (s_user k)\<rparr> | S_DEF_AUTO \<Rightarrow> k\<lparr>s_auto := f (s_auto k)\<rparr>)"

definition on_tab :: "(ktab \<Rightarrow> ktab) \<Rightarrow> conf \<Rightarrow> conf" where
  "on_tab f c = c\<lparr>tab := f (tab c)\<rparr>"

definition conf_warning :: "conf \<Rightarrow> conf" where
  "conf_warning c = c\<lparr>conf_warnings := conf_warnings c + 1\<rparr>"

definition sym_add_change_count :: "int \<Rightarrow> ktab \<Rightarrow> ktab" where
  "sym_add_change_count k st = st\<lparr>change_count := change_count st + k\<rparr>"

section \<open>Values\<close>

text \<open>The text up to the closing quote, a backslash taking the next character as it is; \<open>None\<close> if there is no closing quote.\<close>

fun unquote :: "string \<Rightarrow> string option" where
  "unquote [] = None"
| "unquote (c # s) = (if c = CHR 0x22 then Some []
     else if c = CHR 0x5C then (case s of [] \<Rightarrow> None | e # s \<Rightarrow> map_option ((#) e) (unquote s))
     else map_option ((#) c) (unquote s))"

definition give_tri :: "def_index \<Rightarrow> symbol \<Rightarrow> tristate \<Rightarrow> conf \<Rightarrow> conf" where
  "give_tri d s t = on_tab (\<lambda>st. set_flag (def_flag d) s (upd s (upd_def d (\<lambda>u. u\<lparr>u_tri := t\<rparr>)) st))"

text \<open>\<open>True\<close> is the result 1: the line is given up.\<close>

definition store_string :: "def_index \<Rightarrow> symbol \<Rightarrow> string \<Rightarrow> conf \<Rightarrow> bool \<times> conf" where
  "store_string d s x c = (if sym_string_valid (tab c) s x
     then (False, on_tab (\<lambda>st. set_flag (def_flag d) s (upd s (upd_def d (\<lambda>u. u\<lparr>u_val := Some x\<rparr>)) st)) c)
     else (True, conf_warning c))"

definition set_bool :: "def_index \<Rightarrow> symbol \<Rightarrow> string \<Rightarrow> conf \<Rightarrow> bool \<times> conf" where
  "set_bool d s p c = (if take 1 p = ''y'' then (False, give_tri d s Yes c) else if take 1 p = ''n'' then (False, give_tri d s No c)
     else (False, conf_warning c))"

definition store_quoted :: "def_index \<Rightarrow> symbol \<Rightarrow> string \<Rightarrow> conf \<Rightarrow> bool \<times> conf" where
  "store_quoted d s p c = (case unquote (tl p) of None \<Rightarrow> (True, conf_warning c) | Some x \<Rightarrow> store_string d s x c)"

definition conf_set_sym_val :: "def_index \<Rightarrow> symbol \<Rightarrow> string \<Rightarrow> conf \<Rightarrow> bool \<times> conf" where
  "conf_set_sym_val d s p c = (let quoted = (take 1 p = [CHR 0x22]) in case s_type (syms (tab c) s) of
     S_TRISTATE \<Rightarrow> if take 1 p = ''m'' then (False, give_tri d s Mod c) else set_bool d s p c
   | S_BOOLEAN \<Rightarrow> set_bool d s p c
   | S_OTHER \<Rightarrow> if quoted then store_quoted d s p c else store_string d s p (on_tab (upd s (\<lambda>k. k\<lparr>s_type := S_STRING\<rparr>)) c)
   | S_STRING \<Rightarrow> if quoted then store_quoted d s p c else (False, c)
   | S_INT \<Rightarrow> store_string d s p c
   | S_HEX \<Rightarrow> store_string d s p c
   | S_UNKNOWN \<Rightarrow> (False, c))"

section \<open>Lines\<close>

text \<open>\<^verbatim>\<open>fgets\<close> with a buffer of 1024 bytes; a NUL ends the string that is in the buffer.\<close>

definition file_lines :: "string \<Rightarrow> string list" where
  "file_lines s = map (takeWhile (\<lambda>c. c \<noteq> CHR 0x00)) (fgets_lines 1023 s)"

text \<open>The symbol a line is for. For \<^verbatim>\<open>auto.conf\<close> unknown names get a symbol.\<close>

definition line_symbol :: "def_index \<Rightarrow> string \<Rightarrow> symbol_type \<Rightarrow> conf \<Rightarrow> symbol option \<times> conf" where
  "line_symbol d name ty c = (case d of
     S_DEF_USER \<Rightarrow> (case sym_find (Some name) (tab c) of None \<Rightarrow> (None, on_tab (sym_add_change_count 1) c) | Some s \<Rightarrow> (Some s, c))
   | S_DEF_AUTO \<Rightarrow> (case sym_lookup (Some name) {} (tab c) of (s, st) \<Rightarrow>
       (Some s, c\<lparr>tab := if s_type (syms st s) = S_UNKNOWN then upd s (\<lambda>k. k\<lparr>s_type := ty\<rparr>) st else st\<rparr>)))"

definition warn_override :: "def_index \<Rightarrow> symbol \<Rightarrow> conf \<Rightarrow> conf" where
  "warn_override d s c = (if has_flag (tab c) s (def_flag d) then conf_warning c else c)"

text \<open>A value of a choice also sets the choice.\<close>

definition set_choice :: "def_index \<Rightarrow> symbol \<Rightarrow> conf \<Rightarrow> conf option" where
  "set_choice d s c = (if \<not> sym_is_choice_value (tab c) s then Some c else do {
     cs \<leftarrow> choice_of (tab c) s;
     let t = u_tri (def_of d (syms (tab c) s));
     let ct = u_tri (def_of d (syms (tab c) cs));
     let c = (case t of No \<Rightarrow> c
       | Mod \<Rightarrow> if ct = Yes then on_tab (clear_flag (def_flag d) cs) (conf_warning c) else c
       | Yes \<Rightarrow> on_tab (upd cs (upd_def d (\<lambda>u. u\<lparr>u_chosen := Some s\<rparr>))) (if ct \<noteq> No then conf_warning c else c));
     Some (on_tab (upd cs (upd_def d (\<lambda>u. u\<lparr>u_tri := EXPR_OR ct t\<rparr>))) c) })"

definition read_unset :: "def_index \<Rightarrow> string \<Rightarrow> conf \<Rightarrow> conf option" where
  "read_unset d r c =
     (let t = drop 1 r; name = takeWhile (\<lambda>x. x \<noteq> CHR '' '') t; rest = dropWhile (\<lambda>x. x \<noteq> CHR '' '') t in
      if take 1 r \<noteq> '' '' \<or> rest = [] \<or> take 10 (tl rest) \<noteq> ''is not set'' then Some c
      else case line_symbol d name S_BOOLEAN c of
        (None, c) \<Rightarrow> Some c
      | (Some s, c) \<Rightarrow> (let c = warn_override d s c in
          set_choice d s (if is_logical (s_type (syms (tab c) s)) then give_tri d s No c else c)))"

text \<open>A value ends before the newline, and before a carriage return in front of it.\<close>

definition strip_eol :: "string \<Rightarrow> string" where
  "strip_eol p = (let q = takeWhile (\<lambda>x. x \<noteq> CHR 0x0A) p in
     if CHR 0x0A \<in> set p \<and> q \<noteq> [] \<and> last q = CHR 0x0D then butlast q else q)"

definition read_value :: "def_index \<Rightarrow> string \<Rightarrow> conf \<Rightarrow> conf option" where
  "read_value d line c =
     (let name = takeWhile (\<lambda>x. x \<noteq> CHR ''='') line; rest = dropWhile (\<lambda>x. x \<noteq> CHR ''='') line in
      if rest = [] then Some c
      else case line_symbol d name S_OTHER c of
        (None, c) \<Rightarrow> Some c
      | (Some s, c) \<Rightarrow> (case conf_set_sym_val d s (strip_eol (tl rest)) (warn_override d s c) of
          (given_up, c) \<Rightarrow> if given_up then Some c else set_choice d s c))"

definition c_isupper :: "char \<Rightarrow> bool" where
  "c_isupper c \<longleftrightarrow> 65 \<le> (of_char c :: nat) \<and> (of_char c :: nat) \<le> 90"

definition read_line :: "def_index \<Rightarrow> string \<Rightarrow> conf \<Rightarrow> conf option" where
  "read_line d line c = (case line of [] \<Rightarrow> Some (conf_warning c)
     | x # r \<Rightarrow> if x = CHR ''#'' then read_unset d r c
         else if c_isupper x then read_value d line c
         else if x = CHR 0x0D \<or> x = CHR 0x0A then Some c
         else Some (conf_warning c))"

fun read_lines :: "def_index \<Rightarrow> string list \<Rightarrow> conf \<Rightarrow> conf option" where
  "read_lines d [] c = Some c"
| "read_lines d (l # ls) c = do { c \<leftarrow> read_line d l c; read_lines d ls c }"

section \<open>Files\<close>

definition forget :: "def_index \<Rightarrow> ksym \<Rightarrow> ksym" where
  "forget d k = (let flags = insert SYMBOL_CHANGED (s_flags k) - {def_flag d, SYMBOL_VALID} in
     upd_def d (\<lambda>_. no_user) (k\<lparr>s_flags := if SYMBOL_CHOICE \<in> flags then insert (def_flag d) flags else flags\<rparr>))"

text \<open>\<^verbatim>\<open>conf_read_simple\<close> from the label \<^verbatim>\<open>load\<close> on.\<close>

definition conf_load :: "nat \<Rightarrow> def_index \<Rightarrow> string \<Rightarrow> conf \<Rightarrow> conf option" where
  "conf_load n d content c = do {
     c \<leftarrow> read_lines d (file_lines content) \<lparr>tab = all_symbols (forget d) (tab c), conf_warnings = 0, conf_unsaved = 0\<rparr>;
     st \<leftarrow> (case modules_sym (tab c) of None \<Rightarrow> Some (tab c) | Some m \<Rightarrow> sym_calc_value n m (tab c));
     Some (c\<lparr>tab := st\<rparr>) }"

text \<open>References to symbols in file names; name and result have buffers of 256 bytes.\<close>

definition name_char :: "char \<Rightarrow> bool" where
  "name_char c \<longleftrightarrow> c_isdigit c \<or> c_isupper c \<or> (97 \<le> (of_char c :: nat) \<and> (of_char c :: nat) \<le> 122) \<or> c = CHR ''_''"

function expand :: "nat \<Rightarrow> string \<Rightarrow> string \<Rightarrow> ktab \<Rightarrow> (string \<times> ktab) option" where
  "expand n res s st = (let pre = takeWhile (\<lambda>x. x \<noteq> CHR ''$'') s; rest = dropWhile (\<lambda>x. x \<noteq> CHR ''$'') s in
     if rest = [] then (if length res + length pre < 256 then Some (res @ pre, st) else None)
     else let name = takeWhile name_char (tl rest) in
       if length res + length pre \<ge> 256 \<or> length name \<ge> 256 then None
       else case sym_lookup (Some name) {} st of (sy, st) \<Rightarrow> do {
         st \<leftarrow> sym_calc_value n sy st;
         let res = res @ pre @ sym_get_string_value (tab_of st) (values_of st) sy;
         if length res \<ge> 256 then None else expand n res (dropWhile name_char (tl rest)) st })"
  by pat_completeness auto

termination expand
proof (relation "measure (\<lambda>(n, res, s, st). length s)")
  fix s :: string and rest
  assume r: "rest = dropWhile (\<lambda>x. x \<noteq> CHR ''$'') s" "rest \<noteq> []"
  have "length (dropWhile name_char (tl rest)) \<le> length (tl rest)" by (rule length_dropWhile_le)
  also have "\<dots> < length rest" using r(2) by simp
  also have "\<dots> \<le> length s" unfolding r(1) by (rule length_dropWhile_le)
  finally have "length (dropWhile name_char (tl rest)) < length s" .
  then show "((n, res', dropWhile name_char (tl rest), st'), (n, res, s, st)) \<in> measure (\<lambda>(n, res, s, st). length s)" for n res res' st st' by simp
qed simp

declare expand.simps [simp del]

definition conf_expand_value :: "nat \<Rightarrow> string \<Rightarrow> ktab \<Rightarrow> (string \<times> ktab) option" where
  "conf_expand_value n s st = expand n [] s st"

definition conf_get_configname :: "(string \<Rightarrow> string option) \<Rightarrow> string" where
  "conf_get_configname getenv = (case getenv ''BUILDROOT_CONFIG'' of None \<Rightarrow> ''.config'' | Some n \<Rightarrow> n)"

definition conf_get_autoconfig_name :: "(string \<Rightarrow> string option) \<Rightarrow> string option" where
  "conf_get_autoconfig_name getenv = getenv ''KCONFIG_AUTOCONFIG''"

definition conf_get_default_confname :: "nat \<Rightarrow> (string \<Rightarrow> string option) \<Rightarrow> (string \<Rightarrow> bool) \<Rightarrow> ktab \<Rightarrow> (string \<times> ktab) option" where
  "conf_get_default_confname n getenv exists st = do {
     (name, st) \<leftarrow> conf_expand_value n ''.defconfig'' st;
     case getenv ''srctree'' of None \<Rightarrow> Some (name, st)
     | Some env \<Rightarrow> (let full = env @ ''/'' @ name in
         if length full > 4096 then None else Some (if exists full then full else name, st)) }"

text \<open>The first default of \<^verbatim>\<open>sym_defconfig_list\<close> that names a file that exists.\<close>

fun try_defaults :: "nat \<Rightarrow> (string \<Rightarrow> string option) \<Rightarrow> property list \<Rightarrow> ktab \<Rightarrow> (string option \<times> ktab) option" where
  "try_defaults n files [] st = Some (None, st)"
| "try_defaults n files (p # ps) st = (if p_type p \<noteq> P_DEFAULT then try_defaults n files ps st else do {
     (t, st) \<leftarrow> calc_opt (sym_calc_value n) (p_visible p) st;
     if t = No then try_defaults n files ps st
     else case prop_get_symbol p of None \<Rightarrow> try_defaults n files ps st
     | Some s \<Rightarrow> do {
         x \<leftarrow> s_name (syms st s);
         (name, st) \<leftarrow> conf_expand_value n x st;
         case files name of None \<Rightarrow> try_defaults n files ps st | Some content \<Rightarrow> Some (Some content, st) } })"

text \<open>The result \<open>True\<close> is 1: no file could be read.\<close>

definition conf_read_simple ::
  "nat \<Rightarrow> def_index \<Rightarrow> (string \<Rightarrow> string option) \<Rightarrow> (string \<Rightarrow> string option) \<Rightarrow> symbol option \<Rightarrow> string option \<Rightarrow> conf \<Rightarrow> (bool \<times> conf) option" where
  "conf_read_simple n d getenv files defconfig_list name c = do {
     (content, c) \<leftarrow> (case name of Some x \<Rightarrow> Some (files x, c)
       | None \<Rightarrow> (case files (conf_get_configname getenv) of Some content \<Rightarrow> Some (Some content, c)
         | None \<Rightarrow> (let c = on_tab (sym_add_change_count 1) c in
             case defconfig_list of None \<Rightarrow> Some (None, c)
             | Some s \<Rightarrow> do { (content, st) \<leftarrow> try_defaults n files (s_prop (syms (tab c) s)) (tab c); Some (content, c\<lparr>tab := st\<rparr>) })));
     case content of None \<Rightarrow> Some (True, c)
     | Some x \<Rightarrow> map_option (Pair False) (conf_load n d x c) }"

section \<open>Reading the configuration\<close>

text \<open>Whether the value of a symbol is the saved one.\<close>

definition value_saved :: "ktab \<Rightarrow> symbol \<Rightarrow> bool" where
  "value_saved st s = (let k = syms st s in
     if sym_is_choice st s \<or> has_flag st s SYMBOL_AUTO then True
     else if sym_has_value st s \<and> has_flag st s SYMBOL_WRITE
       then (if is_logical (s_type k) then u_tri (s_user k) = tri (s_curr k) else u_val (s_user k) = Some (val (s_curr k)))
     else \<not> sym_has_value st s \<and> \<not> has_flag st s SYMBOL_WRITE)"

text \<open>A choice counts as set only if all its visible values do.\<close>

definition choice_has_value :: "symbol \<Rightarrow> ktab \<Rightarrow> ktab" where
  "choice_has_value s st = (if sym_is_choice st s \<and> \<not> list_all (\<lambda>v. s_visible (syms st v) = No \<or> has_flag st v SYMBOL_DEF_USER) (choice_values st s)
     then clear_flag SYMBOL_DEF_USER s st else st)"

fun check_saved :: "nat \<Rightarrow> symbol list \<Rightarrow> conf \<Rightarrow> conf option" where
  "check_saved n [] c = Some c"
| "check_saved n (s # ss) c = do {
     st \<leftarrow> sym_calc_value n s (tab c);
     check_saved n ss (c\<lparr>tab := choice_has_value s st, conf_unsaved := conf_unsaved c + (if value_saved st s then 0 else 1)\<rparr>) }"

fun reset_values :: "nat \<Rightarrow> symbol list \<Rightarrow> conf \<Rightarrow> conf option" where
  "reset_values n [] c = Some c"
| "reset_values n (s # ss) c =
     (if \<not> (sym_has_value (tab c) s \<and> \<not> sym_is_choice_value (tab c) s) then reset_values n ss c
      else let c = (if s_visible (syms (tab c) s) = No \<and> conf_unsaved c = 0 then on_tab (clear_flag SYMBOL_DEF_USER s) c else c) in
        if \<not> is_textual (s_type (syms (tab c) s)) then reset_values n ss c
        else do {
          x \<leftarrow> u_val (s_user (syms (tab c) s));
          (ok, st) \<leftarrow> sym_string_within_range n s x (tab c);
          reset_values n ss (if ok then c\<lparr>tab := st\<rparr>
            else c\<lparr>tab := clear_flag SYMBOL_VALID s (clear_flag SYMBOL_DEF_USER s st), conf_unsaved := conf_unsaved c + 1\<rparr>) })"

definition conf_read ::
  "nat \<Rightarrow> (string \<Rightarrow> string option) \<Rightarrow> (string \<Rightarrow> string option) \<Rightarrow> symbol option \<Rightarrow> string option \<Rightarrow> conf \<Rightarrow> (bool \<times> conf) option" where
  "conf_read n getenv files defconfig_list name c = do {
     (failed, c) \<leftarrow> conf_read_simple n S_DEF_USER getenv files defconfig_list name (on_tab (\<lambda>st. st\<lparr>change_count := 0\<rparr>) c);
     if failed then Some (True, c)
     else do {
       c \<leftarrow> check_saved n (symbol_list (tab c)) c;
       c \<leftarrow> reset_values n (symbol_list (tab c)) c;
       Some (False, on_tab (sym_add_change_count (if conf_warnings c \<noteq> 0 \<or> conf_unsaved c \<noteq> 0 then 1 else 0)) c) } }"

end
