(* ===== verification/KConfWrite.thy ===== *)
theory KConfWrite
  imports KConf KMenu
begin

text \<open>
  Configuration files (\<^verbatim>\<open>package/config/confdata.c\<close>), writing: \<^verbatim>\<open>conf_write\<close>, \<^verbatim>\<open>conf_write_autoconf\<close> with \<^verbatim>\<open>conf_split_config\<close>, and
  \<^verbatim>\<open>conf_set_all_new_symbols\<close>. The menus come as \<open>walk\<close> of the tree. The files are a map from names to contents; which of them can be
  opened is a parameter, as are the environment and the date. \<open>None\<close> is a null pointer that is followed or a buffer that is overrun, or
  a depth that was not enough. Messages for the terminal are left out.
\<close>

section \<open>Lines\<close>

fun escape :: "string \<Rightarrow> string" where
  "escape [] = []"
| "escape (c # s) = (if c = CHR 0x22 \<or> c = CHR 0x5C then CHR 0x5C # c # escape s else c # escape s)"

definition quoted :: "string \<Rightarrow> string" where
  "quoted x = [CHR 0x22] @ escape x @ [CHR 0x22]"

definition newline :: string where
  "newline = [CHR 0x0A]"

definition value_line :: "string \<Rightarrow> string \<Rightarrow> string" where
  "value_line name x = name @ ''='' @ x @ newline"

text \<open>What a symbol is saved as; nothing for a type without values.\<close>

definition symbol_text :: "symbol_type \<Rightarrow> string \<Rightarrow> tristate \<Rightarrow> string \<Rightarrow> string" where
  "symbol_text ty name t x = (case ty of
     S_BOOLEAN \<Rightarrow> if t = No then ''# '' @ name @ '' is not set'' @ newline else value_line name (tri_string t)
   | S_TRISTATE \<Rightarrow> if t = No then ''# '' @ name @ '' is not set'' @ newline else value_line name (tri_string t)
   | S_STRING \<Rightarrow> value_line name (quoted x)
   | S_HEX \<Rightarrow> value_line name x
   | S_INT \<Rightarrow> value_line name x
   | _ \<Rightarrow> [])"

section \<open>The configuration\<close>

definition comment_text :: "string \<Rightarrow> string" where
  "comment_text p = newline @ ''#'' @ newline @ ''# '' @ p @ newline @ ''#'' @ newline"

text \<open>One menu. A symbol is written once, even if it has several menus.\<close>

definition write_symbol :: "nat \<Rightarrow> symbol \<Rightarrow> ktab \<Rightarrow> (string \<times> ktab) option" where
  "write_symbol n s st = (if sym_is_choice st s then Some ([], st) else do {
     st \<leftarrow> sym_calc_value n s st;
     if \<not> has_flag st s SYMBOL_WRITE then Some ([], st)
     else do {
       let st = clear_flag SYMBOL_WRITE s st;
       st \<leftarrow> (if s_type (syms st s) = S_TRISTATE then Option.bind (modules_sym st) (\<lambda>m. sym_calc_value n m st) else Some st);
       name \<leftarrow> s_name (syms st s);
       Some (symbol_text (s_type (syms st s)) name (sym_get_tristate_value st s) (sym_get_string_value (tab_of st) (values_of st) s), st) } })"

definition write_menu :: "nat \<Rightarrow> menu \<Rightarrow> ktab \<Rightarrow> (string \<times> ktab) option" where
  "write_menu n x st = (case m_sym x of
     Some s \<Rightarrow> write_symbol n s st
   | None \<Rightarrow> do {
       (v, st) \<leftarrow> comment_visible n x st;
       if v then map_option (\<lambda>p. (comment_text p, st)) (menu_get_prompt st x) else Some ([], st) })"

fun write_menus :: "nat \<Rightarrow> menu list \<Rightarrow> ktab \<Rightarrow> (string \<times> ktab) option" where
  "write_menus n [] st = Some ([], st)"
| "write_menus n (x # xs) st = do {
     (a, st) \<leftarrow> write_menu n x st;
     (b, st) \<leftarrow> write_menus n xs st;
     Some (a @ b, st) }"

definition config_header :: "(string \<Rightarrow> string option) \<Rightarrow> string \<Rightarrow> string" where
  "config_header getenv ctime = (let stamp = (case getenv ''KCONFIG_NOTIMESTAMP'' of None \<Rightarrow> True | Some x \<Rightarrow> x = []) in
     ''#'' @ newline @ ''# Automatically generated make config: don'' @ [CHR 0x27] @ ''t edit'' @ newline
     @ (if stamp then ''# '' @ ctime else []) @ ''#'' @ newline)"

text \<open>The text of the configuration and the table after it was written.\<close>

definition config_text :: "nat \<Rightarrow> (string \<Rightarrow> string option) \<Rightarrow> string \<Rightarrow> menus \<Rightarrow> ktab \<Rightarrow> (string \<times> ktab) option" where
  "config_text n getenv ctime ms st = (case sym_lookup (Some ''BR2_VERSION'') {} st of (s, st) \<Rightarrow> do {
     st \<leftarrow> sym_calc_value n s st;
     st \<leftarrow> (if change_count st = 0 then sym_clear_all_valid n st else Some st);
     l \<leftarrow> walk ms (m_list (node ms 0));
     (text, st) \<leftarrow> write_menus n (map (node ms) l) st;
     Some (config_header getenv ctime @ text, st) })"

section \<open>Files\<close>

text \<open>Directory and file name; the directory is a buffer of 128 bytes.\<close>

definition fits :: "string \<Rightarrow> string option" where
  "fits x = (if length x < 128 then Some x else None)"

definition last_slash :: "string \<Rightarrow> string \<times> string" where
  "last_slash name = (rev (dropWhile (\<lambda>c. c \<noteq> CHR ''/'') (rev name)), rev (takeWhile (\<lambda>c. c \<noteq> CHR ''/'') (rev name)))"

definition config_place :: "(string \<Rightarrow> string option) \<Rightarrow> (string \<Rightarrow> bool) \<Rightarrow> string option \<Rightarrow> (string \<times> string) option" where
  "config_place getenv is_dir name = (case name of None \<Rightarrow> Some ([], conf_get_configname getenv)
     | Some x \<Rightarrow> if x = [] then Some ([], conf_get_configname getenv)
         else if is_dir x then map_option (\<lambda>d. (d, conf_get_configname getenv)) (fits (x @ ''/''))
         else if CHR ''/'' \<in> set x then (case last_slash x of (d, b) \<Rightarrow>
           map_option (\<lambda>d. (d, if b \<noteq> [] then b else conf_get_configname getenv)) (fits d))
         else Some ([], x))"

text \<open>\<^verbatim>\<open>rename\<close>; it fails if there is no such file or it is not allowed.\<close>

type_synonym files = "string \<Rightarrow> string option"

definition rename_file :: "(string \<Rightarrow> bool) \<Rightarrow> string \<Rightarrow> string \<Rightarrow> files \<Rightarrow> bool \<times> files" where
  "rename_file may a b fs = (if fs a = None \<or> \<not> may b then (False, fs) else (True, if a = b then fs else fs(b := fs a, a := None)))"

record place =
  getenv_of :: "string \<Rightarrow> string option"
  is_dir_of :: "string \<Rightarrow> bool"
  may_write :: "string \<Rightarrow> bool"
  ctime_now :: string
  pid_text :: string

text \<open>The first result \<open>True\<close> is 1: the file was not written. The configuration goes to a temporary file first, and the
  old one is kept, unless \<^verbatim>\<open>KCONFIG_OVERWRITECONFIG\<close> is set.\<close>

definition conf_write :: "nat \<Rightarrow> place \<Rightarrow> menus \<Rightarrow> string option \<Rightarrow> files \<Rightarrow> ktab \<Rightarrow> (bool \<times> files \<times> ktab) option" where
  "conf_write n w ms name fs st = do {
     (dir, base) \<leftarrow> config_place (getenv_of w) (is_dir_of w) name;
     new \<leftarrow> fits (dir @ base);
     let over = (case getenv_of w ''KCONFIG_OVERWRITECONFIG'' of None \<Rightarrow> False | Some x \<Rightarrow> x \<noteq> []);
     tmp \<leftarrow> (if over then Some new else fits (dir @ ''.tmpconfig.'' @ pid_text w));
     if \<not> may_write w tmp then Some (True, fs, st)
     else do {
       (text, st) \<leftarrow> config_text n (getenv_of w) (ctime_now w) ms st;
       let fs = fs(tmp := Some text);
       if over then Some (False, fs, st\<lparr>change_count := 0\<rparr>)
       else do {
         old \<leftarrow> fits (dir @ base @ ''.old'');
         (case rename_file (may_write w) tmp new (snd (rename_file (may_write w) new old fs)) of (ok, fs) \<Rightarrow>
           Some (\<not> ok, fs, if ok then st\<lparr>change_count := 0\<rparr> else st)) } } }"

section \<open>Telling make what has changed\<close>

text \<open>Whether the value differs from that in \<^verbatim>\<open>auto.conf\<close>.\<close>

definition value_changed :: "ktab \<Rightarrow> symbol \<Rightarrow> bool option" where
  "value_changed st s = (let k = syms st s in
     if has_flag st s SYMBOL_WRITE then
       (if has_flag st s SYMBOL_DEF_AUTO then
          (if is_logical (s_type k) then Some (tri (s_curr k) \<noteq> u_tri (s_auto k))
           else if is_textual (s_type k) then map_option (\<lambda>x. sym_get_string_value (tab_of st) (values_of st) s \<noteq> x) (u_val (s_auto k))
           else Some True)
        else Some (is_logical (s_type k) \<longrightarrow> tri (s_curr k) \<noteq> No))
     else Some (has_flag st s SYMBOL_DEF_AUTO))"

definition c_tolower :: "char \<Rightarrow> char" where
  "c_tolower c = (if c_isupper c then char_of ((of_char c :: nat) + 32) else c)"

definition touch_path :: "string \<Rightarrow> string option" where
  "touch_path name = (let p = map (\<lambda>c. let c = c_tolower c in if c = CHR ''_'' then CHR ''/'' else c) name @ ''.h'' in fits p)"

text \<open>The directory: creating an empty file, or finding that its directory is missing; and a directory, unless it is there.\<close>

datatype touched = Touched | No_Directory | Touch_Failed

record 'w disk =
  touch_file :: "string \<Rightarrow> 'w \<Rightarrow> touched \<times> 'w"
  have_dir :: "string \<Rightarrow> 'w \<Rightarrow> bool \<times> 'w"

fun make_dirs :: "'w disk \<Rightarrow> string list \<Rightarrow> 'w \<Rightarrow> bool \<times> 'w" where
  "make_dirs D [] w = (True, w)"
| "make_dirs D (p # ps) w = (case have_dir D p w of (ok, w) \<Rightarrow> if ok then make_dirs D ps w else (False, w))"

definition dirs_of :: "string \<Rightarrow> string list" where
  "dirs_of path = map (\<lambda>i. take i path) (filter (\<lambda>i. path ! i = CHR ''/'') [0..<length path])"

definition touch :: "'w disk \<Rightarrow> string \<Rightarrow> 'w \<Rightarrow> bool \<times> 'w" where
  "touch D path w = (case touch_file D path w of
     (Touched, w) \<Rightarrow> (True, w)
   | (Touch_Failed, w) \<Rightarrow> (False, w)
   | (No_Directory, w) \<Rightarrow> (case make_dirs D (dirs_of path) w of
       (False, w) \<Rightarrow> (False, w)
     | (True, w) \<Rightarrow> (case touch_file D path w of (r, w) \<Rightarrow> (r = Touched, w))))"

fun touch_changed :: "nat \<Rightarrow> 'w disk \<Rightarrow> symbol list \<Rightarrow> ktab \<Rightarrow> 'w \<Rightarrow> (bool \<times> ktab \<times> 'w) option" where
  "touch_changed n D [] st w = Some (True, st, w)"
| "touch_changed n D (s # ss) st w = do {
     st \<leftarrow> sym_calc_value n s st;
     (case s_name (syms st s) of None \<Rightarrow> touch_changed n D ss st w
      | Some name \<Rightarrow> if has_flag st s SYMBOL_AUTO then touch_changed n D ss st w else do {
          changed \<leftarrow> value_changed st s;
          if \<not> changed then touch_changed n D ss st w
          else do {
            path \<leftarrow> touch_path name;
            (case touch D path w of (ok, w) \<Rightarrow> if ok then touch_changed n D ss st w else Some (False, st, w)) } }) }"

text \<open>The first result \<open>False\<close> is the value 1. Whether the directory of the file can be entered is a parameter.\<close>

definition conf_split_config ::
  "nat \<Rightarrow> (string \<Rightarrow> string option) \<Rightarrow> files \<Rightarrow> symbol option \<Rightarrow> bool \<Rightarrow> 'w disk \<Rightarrow> conf \<Rightarrow> 'w \<Rightarrow> (bool \<times> conf \<times> 'w) option" where
  "conf_split_config n getenv fs defconfig_list entered D c w = do {
     name \<leftarrow> conf_get_autoconfig_name getenv;
     (_, c) \<leftarrow> conf_read_simple n S_DEF_AUTO getenv fs defconfig_list (Some name) c;
     if \<not> entered then Some (False, c, w)
     else do {
       (ok, st, w) \<leftarrow> touch_changed n D (symbol_list (tab c)) (tab c) w;
       Some (ok, c\<lparr>tab := st\<rparr>, w) } }"

section \<open>The files for make and for C\<close>

definition define_line :: "string \<Rightarrow> string \<Rightarrow> string" where
  "define_line name x = ''#define '' @ name @ '' '' @ x @ newline"

definition auto_text :: "symbol_type \<Rightarrow> string \<Rightarrow> tristate \<Rightarrow> string \<Rightarrow> string \<times> string" where
  "auto_text ty name t x =
     (if is_logical ty then (case t of No \<Rightarrow> ([], []) | Mod \<Rightarrow> (value_line name ''m'', define_line (name @ ''_MODULE'') ''1'')
        | Yes \<Rightarrow> (value_line name ''y'', define_line name ''1''))
      else if ty = S_STRING then (value_line name (quoted x), define_line name (quoted x))
      else if ty = S_HEX then (value_line name x, define_line name (if has_0x x then x else ''0x'' @ x))
      else if ty = S_INT then (value_line name x, define_line name x)
      else ([], []))"

fun auto_lines :: "nat \<Rightarrow> symbol list \<Rightarrow> ktab \<Rightarrow> (string \<times> string \<times> ktab) option" where
  "auto_lines n [] st = Some ([], [], st)"
| "auto_lines n (s # ss) st = do {
     st \<leftarrow> sym_calc_value n s st;
     let (a, h) = (case s_name (syms st s) of None \<Rightarrow> ([], [])
       | Some name \<Rightarrow> if has_flag st s SYMBOL_WRITE
           then auto_text (s_type (syms st s)) name (sym_get_tristate_value st s) (sym_get_string_value (tab_of st) (values_of st) s) else ([], []));
     (b, k, st) \<leftarrow> auto_lines n ss st;
     Some (a @ b, h @ k, st) }"

definition auto_header :: "string \<Rightarrow> string" where
  "auto_header ctime = ''#'' @ newline @ ''# Automatically generated make config: don'' @ [CHR 0x27] @ ''t edit'' @ newline
     @ ''# '' @ ctime @ ''#'' @ newline"

definition c_header :: "string \<Rightarrow> string" where
  "c_header ctime = ''/*'' @ newline @ '' * Automatically generated C config: don'' @ [CHR 0x27] @ ''t edit'' @ newline
     @ '' * '' @ ctime @ '' */'' @ newline"

text \<open>Both texts, for \<^verbatim>\<open>auto.conf\<close> and the C header.\<close>

definition autoconf_texts :: "nat \<Rightarrow> string \<Rightarrow> ktab \<Rightarrow> (string \<times> string \<times> ktab) option" where
  "autoconf_texts n ctime st = (case sym_lookup (Some ''BR2_VERSION'') {} st of (s, st) \<Rightarrow> do {
     st \<leftarrow> sym_calc_value n s st;
     (a, h, st) \<leftarrow> auto_lines n (symbol_list st) st;
     Some (auto_header ctime @ a, c_header ctime @ h, st) })"

text \<open>The first result \<open>True\<close> is the value 1. \<^verbatim>\<open>file_write_dep\<close> writes the file \<^verbatim>\<open>.config.cmd\<close>, which is left out.\<close>

definition conf_write_autoconf ::
  "nat \<Rightarrow> place \<Rightarrow> symbol option \<Rightarrow> bool \<Rightarrow> 'w disk \<Rightarrow> files \<Rightarrow> conf \<Rightarrow> 'w \<Rightarrow> (bool \<times> files \<times> conf \<times> 'w) option" where
  "conf_write_autoconf n p defconfig_list entered D fs c w = do {
     st \<leftarrow> sym_clear_all_valid n (tab c);
     (ok, c, w) \<leftarrow> conf_split_config n (getenv_of p) fs defconfig_list entered D (c\<lparr>tab := st\<rparr>) w;
     if \<not> ok \<or> \<not> may_write p ''.tmpconfig'' then Some (True, fs, c, w)
     else if \<not> may_write p ''.tmpconfig.h'' then Some (True, fs(''.tmpconfig'' := Some []), c, w)
     else do {
       (a, h, st) \<leftarrow> autoconf_texts n (ctime_now p) (tab c);
       let fs = fs(''.tmpconfig'' := Some a, ''.tmpconfig.h'' := Some h);
       let header = (case getenv_of p ''KCONFIG_AUTOHEADER'' of None \<Rightarrow> ''include/linux/autoconf.h'' | Some x \<Rightarrow> x);
       (case rename_file (may_write p) ''.tmpconfig.h'' header fs of (ok, fs) \<Rightarrow>
         if \<not> ok then Some (True, fs, c\<lparr>tab := st\<rparr>, w)
         else do {
           name \<leftarrow> conf_get_autoconfig_name (getenv_of p);
           (case rename_file (may_write p) ''.tmpconfig'' name fs of (ok, fs) \<Rightarrow> Some (\<not> ok, fs, c\<lparr>tab := st\<rparr>, w)) }) } }"

section \<open>New symbols\<close>

datatype conf_def_mode = def_default | def_yes | def_mod | def_no | def_random

text \<open>\<^verbatim>\<open>rand\<close> is a stream of numbers and the position in it.\<close>

definition new_value :: "conf_def_mode \<Rightarrow> (nat \<Rightarrow> nat) \<Rightarrow> nat \<Rightarrow> (tristate \<times> nat) option" where
  "new_value mode rand i = (case mode of def_yes \<Rightarrow> Some (Yes, i) | def_mod \<Rightarrow> Some (Mod, i) | def_no \<Rightarrow> Some (No, i)
     | def_random \<Rightarrow> Some ([No, Mod, Yes] ! (rand i mod 3), i + 1) | def_default \<Rightarrow> None)"

fun set_new :: "conf_def_mode \<Rightarrow> (nat \<Rightarrow> nat) \<Rightarrow> nat \<Rightarrow> symbol list \<Rightarrow> ktab \<Rightarrow> nat \<times> ktab" where
  "set_new mode rand i [] st = (i, st)"
| "set_new mode rand i (s # ss) st =
     (if sym_has_value st s \<or> \<not> is_logical (sym_get_type st s) then set_new mode rand i ss st
      else case new_value mode rand i of None \<Rightarrow> set_new mode rand i ss st
      | Some (t, i) \<Rightarrow> (let st = upd s (set_user (\<lambda>u. u\<lparr>u_tri := t\<rparr>)) st;
          st = (if sym_is_choice st s \<and> mode = def_random then st else set_flag SYMBOL_DEF_USER s st) in set_new mode rand i ss st))"

text \<open>The random value of a choice gets \<^verbatim>\<open>yes\<close>, the others \<^verbatim>\<open>no\<close>; a choice without values is a division by zero.\<close>

fun give_values :: "nat \<Rightarrow> nat \<Rightarrow> symbol \<Rightarrow> symbol list \<Rightarrow> ktab \<Rightarrow> ktab" where
  "give_values j k c [] st = st"
| "give_values j k c (s # ss) st = give_values j (k + 1) c ss (if j = k
     then upd c (set_user (\<lambda>u. u\<lparr>u_chosen := Some s\<rparr>)) (upd s (set_user (\<lambda>u. u\<lparr>u_tri := Yes\<rparr>)) st)
     else upd s (set_user (\<lambda>u. u\<lparr>u_tri := No\<rparr>)) st)"

fun random_choices :: "nat \<Rightarrow> (nat \<Rightarrow> nat) \<Rightarrow> nat \<Rightarrow> symbol list \<Rightarrow> ktab \<Rightarrow> ktab option" where
  "random_choices n rand i [] st = Some st"
| "random_choices n rand i (c # cs) st =
     (if sym_has_value st c \<or> \<not> sym_is_choice st c then random_choices n rand i cs st
      else do {
        st \<leftarrow> sym_calc_value n c st;
        if tri (s_curr (syms st c)) \<noteq> Yes then random_choices n rand i cs st
        else let vs = choice_values st c in
          if vs = [] then None
          else random_choices n rand (i + 1) cs
            (clear_flag SYMBOL_VALID c (set_flag SYMBOL_DEF_USER c (give_values (rand i mod length vs) 0 c vs st))) })"

definition conf_set_all_new_symbols :: "nat \<Rightarrow> conf_def_mode \<Rightarrow> (nat \<Rightarrow> nat) \<Rightarrow> ktab \<Rightarrow> ktab option" where
  "conf_set_all_new_symbols n mode rand st = (case set_new mode rand 0 (symbol_list st) st of (i, st) \<Rightarrow> do {
     st \<leftarrow> sym_clear_all_valid n st;
     if mode = def_random then random_choices n rand i (symbol_list st) st else Some st })"

end
