(* ===== verification/KAsk.thy ===== *)
theory KAsk
  imports KFinalize KConfWrite
begin

text \<open>
  The interface on lines of text (\<^verbatim>\<open>package/config/conf.c\<close>): the questions about symbols and choices, the pass over all menus that
  asks them (\<^verbatim>\<open>conf\<close>), the search for symbols without a value (\<^verbatim>\<open>check_conf\<close>), and \<^verbatim>\<open>main\<close>. Standard input is a string, what is
  printed is left out. An \<^verbatim>\<open>exit\<close> is a value; \<open>None\<close> is a loop that does not end, undefined behaviour, or a depth that was not enough.
\<close>

section \<open>State\<close>

datatype input_mode = ask_all | ask_new | ask_silent | set_default | set_yes | set_mod | set_no | set_random

text \<open>The table of symbols, the static variables, and what is left of standard input. \<open>line\<close> is the buffer up to the
  terminating null byte.\<close>

record ask =
  a_tab :: ktab
  input_mode :: input_mode
  valid_stdin :: bool
  conf_cnt :: nat
  line :: string
  rootEntry :: nat
  stdin :: string

datatype 'a ran = Exits int | Returns 'a

type_synonym 'a run = "ask \<Rightarrow> ('a \<times> ask) ran option"

definition ret :: "'a \<Rightarrow> 'a run" where
  "ret x a = Some (Returns (x, a))"

definition followed_by :: "'a run \<Rightarrow> ('a \<Rightarrow> 'b run) \<Rightarrow> 'b run" where
  "followed_by m g a = (case m a of None \<Rightarrow> None | Some (Exits c) \<Rightarrow> Some (Exits c) | Some (Returns (x, b)) \<Rightarrow> g x b)"

text \<open>A function on the table that may fail, and one that cannot.\<close>

definition on_table :: "(ktab \<Rightarrow> ('a \<times> ktab) option) \<Rightarrow> 'a run" where
  "on_table g a = map_option (\<lambda>(x, st). Returns (x, a\<lparr>a_tab := st\<rparr>)) (g (a_tab a))"

definition look :: "(ask \<Rightarrow> 'a) \<Rightarrow> 'a run" where
  "look g a = ret (g a) a"

fun for_each :: "('x \<Rightarrow> unit run) \<Rightarrow> 'x list \<Rightarrow> unit run" where
  "for_each g [] = ret ()"
| "for_each g (x # xs) = followed_by (g x) (\<lambda>_. for_each g xs)"

text \<open>\<^verbatim>\<open>while (1)\<close>: a round ends the loop with a result or goes on (\<open>Inl\<close>).\<close>

partial_function (option) while_true :: "('s \<Rightarrow> ('s + 'r) option) \<Rightarrow> 's \<Rightarrow> 'r option" where
  "while_true body s = (case body s of None \<Rightarrow> None | Some (Inr r) \<Rightarrow> Some r | Some (Inl s) \<Rightarrow> while_true body s)"

text \<open>A round as a computation: \<open>None\<close> as its result goes on.\<close>

definition asking :: "'a option run \<Rightarrow> 'a run" where
  "asking m = while_true (\<lambda>a. case m a of None \<Rightarrow> None
     | Some (Exits c) \<Rightarrow> Some (Inr (Exits c))
     | Some (Returns (Some x, b)) \<Rightarrow> Some (Inr (Returns (x, b)))
     | Some (Returns (None, b)) \<Rightarrow> Some (Inl b))"

section \<open>Reading a line\<close>

definition strip :: "string \<Rightarrow> string" where
  "strip s = rev (dropWhile c_isspace (rev (dropWhile c_isspace s)))"

definition check_stdin :: "unit run" where
  "check_stdin a = (if valid_stdin a then ret () a else Some (Exits 1))"

text \<open>\<^verbatim>\<open>fgets\<close> leaves the buffer alone at the end of the input.\<close>

definition get_line :: "unit run" where
  "get_line a = (case take_line 127 (stdin a) of (l, r) \<Rightarrow>
     ret () (if l = [] then a else a\<lparr>line := takeWhile (\<lambda>c. c \<noteq> CHR 0x00) l, stdin := r\<rparr>))"

text \<open>The result \<open>True\<close> is 1: the value is to be set.\<close>

definition conf_askvalue :: "symbol \<Rightarrow> bool run" where
  "conf_askvalue s a = (let a = a\<lparr>line := newline\<rparr> in
     if \<not> sym_is_changable (a_tab a) s then ret False a
     else if input_mode a = ask_new \<or> input_mode a = ask_silent
       then (if sym_has_value (a_tab a) s then ret False a else followed_by check_stdin (\<lambda>_. followed_by get_line (\<lambda>_. ret True)) a)
     else if input_mode a = ask_all then followed_by get_line (\<lambda>_. ret True) a
     else ret True a)"

section \<open>Strings and numbers\<close>

text \<open>The answer: \<open>None\<close> is the write before the buffer when the line is empty (it begins with a null byte), \<open>Some None\<close> asks for help.
  The last character of the line is cut off, whether it is the end of the line or not.\<close>

definition string_answer :: "string \<Rightarrow> string \<Rightarrow> string option option" where
  "string_answer def l = (if l = [] then None
     else if hd l = CHR 0x0A then Some (Some def)
     else if take 2 l = ''?'' @ newline then Some None
     else Some (Some (butlast l)))"

definition string_round :: "nat \<Rightarrow> symbol \<Rightarrow> unit option run" where
  "string_round n s a = (let def = sym_get_string_value (tab_of (a_tab a)) (values_of (a_tab a)) s in
     followed_by (conf_askvalue s) (\<lambda>ok. if \<not> ok then ret (Some ()) else (\<lambda>a. case string_answer def (line a) of
         None \<Rightarrow> None
       | Some None \<Rightarrow> ret None a
       | Some (Some x) \<Rightarrow> followed_by (on_table (sym_set_string_value n s x)) (\<lambda>ok. ret (if ok then Some () else None)) a)) a)"

definition conf_string :: "nat \<Rightarrow> symbol \<Rightarrow> unit run" where
  "conf_string n s = asking (string_round n s)"

section \<open>Truth values\<close>

text \<open>\<open>None\<close>: help is printed or the question is asked again.\<close>

definition tri_answer :: "tristate \<Rightarrow> string \<Rightarrow> tristate option" where
  "tri_answer old l = (case l of [] \<Rightarrow> Some old
     | c # r \<Rightarrow> if c = CHR ''n'' \<or> c = CHR ''N'' then (if r = [] \<or> r = ''o'' then Some No else None)
       else if c = CHR ''m'' \<or> c = CHR ''M'' then (if r = [] then Some Mod else None)
       else if c = CHR ''y'' \<or> c = CHR ''Y'' then (if r = [] \<or> r = ''es'' then Some Yes else None)
       else None)"

definition strip_line :: "unit run" where
  "strip_line a = ret () (a\<lparr>line := strip (line a)\<rparr>)"

definition sym_round :: "nat \<Rightarrow> symbol \<Rightarrow> unit option run" where
  "sym_round n s a = (let old = sym_get_tristate_value (a_tab a) s in
     followed_by (conf_askvalue s) (\<lambda>ok. if \<not> ok then ret (Some ()) else followed_by strip_line (\<lambda>_ a. case tri_answer old (line a) of
         None \<Rightarrow> ret None a
       | Some v \<Rightarrow> followed_by (on_table (sym_set_tristate_value n s v)) (\<lambda>ok. ret (if ok then Some () else None)) a)) a)"

definition conf_sym :: "nat \<Rightarrow> symbol \<Rightarrow> unit run" where
  "conf_sym n s = asking (sym_round n s)"

section \<open>Choices\<close>

definition children :: "menus \<Rightarrow> nat \<Rightarrow> nat list run" where
  "children ms m a = map_option (\<lambda>l. Returns (l, a)) (chain ms (m_list (node ms m)))"

text \<open>The loop that prints the visible values: their number, and the number of the one that is chosen.\<close>

fun count_values :: "nat \<Rightarrow> menus \<Rightarrow> symbol option \<Rightarrow> nat list \<Rightarrow> int \<Rightarrow> int \<Rightarrow> (int \<times> int) run" where
  "count_values n ms chosen [] cnt def = ret (cnt, def)"
| "count_values n ms chosen (m # l) cnt def = followed_by (on_table (menu_is_visible n ms m)) (\<lambda>vis.
     if \<not> vis then count_values n ms chosen l cnt def
     else case m_sym (node ms m) of None \<Rightarrow> count_values n ms chosen l cnt def
       | Some v \<Rightarrow> count_values n ms chosen l (cnt + 1) (if chosen = Some v then cnt + 1 else def))"

text \<open>The visible value with this number.\<close>

fun pick_value :: "nat \<Rightarrow> menus \<Rightarrow> nat list \<Rightarrow> int \<Rightarrow> (nat \<times> symbol) option run" where
  "pick_value n ms [] cnt = ret None"
| "pick_value n ms (m # l) cnt = (case m_sym (node ms m) of None \<Rightarrow> pick_value n ms l cnt
     | Some v \<Rightarrow> followed_by (on_table (menu_is_visible n ms m)) (\<lambda>vis.
         if \<not> vis then pick_value n ms l cnt
         else if cnt - 1 = 0 then ret (Some (m, v)) else pick_value n ms l (cnt - 1)))"

text \<open>Which number is taken; \<open>None\<close> asks again.\<close>

definition choice_number :: "bool \<Rightarrow> int \<Rightarrow> int \<Rightarrow> int option run" where
  "choice_number is_new cnt def a = (let asks = followed_by get_line (\<lambda>_. followed_by strip_line (\<lambda>_. look (\<lambda>a. case line a of
         [] \<Rightarrow> Some def
       | c # _ \<Rightarrow> if c = CHR ''?'' then None else if c_isdigit c then Some (c_atoi (line a)) else None))) in
     if cnt = 1 then ret (Some cnt) a
     else if input_mode a = ask_new \<or> input_mode a = ask_silent
       then (if \<not> is_new then ret (Some def) a else followed_by check_stdin (\<lambda>_. asks) a)
     else if input_mode a = ask_all then asks a
     else ret (Some cnt) a)"

text \<open>The test for a question mark at the end of the line reads the byte before the buffer if the line is empty: \<open>before\<close>.\<close>

definition choice_round :: "nat \<Rightarrow> menus \<Rightarrow> char \<Rightarrow> (nat \<Rightarrow> unit run) \<Rightarrow> nat \<Rightarrow> symbol \<Rightarrow> bool \<Rightarrow> unit option run" where
  "choice_round n ms before conf m s is_new a = (let chosen = s_chosen (syms (a_tab a) s) in
     followed_by (children ms m) (\<lambda>l.
     followed_by (count_values n ms chosen l 0 0) (\<lambda>(cnt, def).
     followed_by (choice_number is_new cnt def) (\<lambda>num. case num of None \<Rightarrow> ret None | Some k \<Rightarrow>
     followed_by (pick_value n ms l k) (\<lambda>p. case p of None \<Rightarrow> ret None | Some (x, v) \<Rightarrow>
     followed_by (look line) (\<lambda>ln. if last (before # ln) = CHR ''?'' then ret None else
     followed_by (on_table (sym_set_tristate_value n v Yes)) (\<lambda>_.
     followed_by (children ms x) (\<lambda>below.
     followed_by (for_each conf below) (\<lambda>_. ret (Some ()))))))))) (a\<lparr>line := []\<rparr>))"

definition conf_choice :: "nat \<Rightarrow> menus \<Rightarrow> char \<Rightarrow> (nat \<Rightarrow> unit run) \<Rightarrow> nat \<Rightarrow> symbol \<Rightarrow> unit run" where
  "conf_choice n ms before conf m s a = (let is_new = \<not> sym_has_value (a_tab a) s in
     followed_by (if sym_is_changable (a_tab a) s
       then followed_by (conf_sym n s) (\<lambda>_. on_table (\<lambda>st. map_option (Pair ()) (sym_calc_value n s st)))
       else ret ()) (\<lambda>_.
     followed_by (look (\<lambda>a. sym_get_tristate_value (a_tab a) s)) (\<lambda>t.
     if t = Yes then asking (choice_round n ms before conf m s is_new) else ret ())) a)"

section \<open>All menus\<close>

definition conf_menu :: "nat \<Rightarrow> menus \<Rightarrow> char \<Rightarrow> (nat \<Rightarrow> unit run) \<Rightarrow> (nat \<Rightarrow> unit run) \<Rightarrow> nat \<Rightarrow> unit run" where
  "conf_menu n ms before conf check m = followed_by (on_table (menu_is_visible n ms m)) (\<lambda>vis. if \<not> vis then ret () else (\<lambda>a.
     let below = followed_by (children ms m) (for_each conf) in
     if map_option p_type (prompt_of (a_tab a) (node ms m)) = Some P_MENU \<and> input_mode a = ask_silent \<and> rootEntry a \<noteq> m then check m a
     else case m_sym (node ms m) of None \<Rightarrow> below a
       | Some s \<Rightarrow> if sym_is_choice (a_tab a) s
           then followed_by (conf_choice n ms before conf m s) (\<lambda>_. followed_by (look (\<lambda>a. sym_get_tristate_value (a_tab a) s)) (\<lambda>t.
             if t \<noteq> Mod then ret () else below)) a
           else followed_by (if is_textual (s_type (syms (a_tab a) s)) then conf_string n s else conf_sym n s) (\<lambda>_. below) a))"

definition count_restart :: "unit run" where
  "count_restart a = ret () (a\<lparr>conf_cnt := conf_cnt a + 1\<rparr>)"

definition unanswered :: "ktab \<Rightarrow> symbol \<Rightarrow> bool" where
  "unanswered st s \<longleftrightarrow> \<not> sym_has_value st s \<and> (sym_is_changable st s \<or> sym_is_choice st s \<and> sym_get_tristate_value st s = Yes)"

text \<open>A symbol without a value restarts the questions in the menu around it.\<close>

definition check_menu :: "nat \<Rightarrow> menus \<Rightarrow> (nat \<Rightarrow> unit run) \<Rightarrow> (nat \<Rightarrow> unit run) \<Rightarrow> nat \<Rightarrow> unit run" where
  "check_menu n ms conf check m = followed_by (on_table (menu_is_visible n ms m)) (\<lambda>vis. if \<not> vis then ret () else
     followed_by (look (\<lambda>a. case m_sym (node ms m) of None \<Rightarrow> False | Some s \<Rightarrow> unanswered (a_tab a) s)) (\<lambda>new.
     followed_by (if \<not> new then ret () else followed_by count_restart (\<lambda>_ a. case menu_get_parent_menu (a_tab a) ms m of
         None \<Rightarrow> None
       | Some r \<Rightarrow> conf r (a\<lparr>rootEntry := r\<rparr>))) (\<lambda>_.
     followed_by (children ms m) (for_each check))))"

fun conf :: "nat \<Rightarrow> menus \<Rightarrow> char \<Rightarrow> nat \<Rightarrow> nat \<Rightarrow> unit run"
  and check_conf :: "nat \<Rightarrow> menus \<Rightarrow> char \<Rightarrow> nat \<Rightarrow> nat \<Rightarrow> unit run" where
  "conf n ms before 0 = (\<lambda>m a. None)"
| "conf n ms before (Suc d) = conf_menu n ms before (conf n ms before d) (check_conf n ms before d)"
| "check_conf n ms before 0 = (\<lambda>m a. None)"
| "check_conf n ms before (Suc d) = check_menu n ms (conf n ms before d) (check_conf n ms before d)"

text \<open>Until a pass over all menus restarts nothing.\<close>

definition check_round :: "nat \<Rightarrow> menus \<Rightarrow> char \<Rightarrow> nat \<Rightarrow> unit option run" where
  "check_round n ms before d a = followed_by (check_conf n ms before d 0) (\<lambda>_. look (\<lambda>a. if conf_cnt a = 0 then Some () else None)) (a\<lparr>conf_cnt := 0\<rparr>)"

definition check_all :: "nat \<Rightarrow> menus \<Rightarrow> char \<Rightarrow> nat \<Rightarrow> unit run" where
  "check_all n ms before d = asking (check_round n ms before d)"

section \<open>The program\<close>

record conf_setup =
  mode :: input_mode
  sync_kconfig :: bool
  defconfig_file :: "string option"

text \<open>The options as \<^verbatim>\<open>getopt\<close> returns them; \<open>Inl\<close> is an exit.\<close>

fun conf_options :: "conf_setup \<Rightarrow> (char \<times> string) list \<Rightarrow> int + conf_setup" where
  "conf_options o1 [] = Inr o1"
| "conf_options o1 ((c, optarg) # r) =
     (if c = CHR ''o'' then conf_options (o1\<lparr>mode := ask_silent\<rparr>) r
      else if c = CHR ''s'' then conf_options (o1\<lparr>mode := ask_silent, sync_kconfig := True\<rparr>) r
      else if c = CHR ''d'' then conf_options (o1\<lparr>mode := set_default\<rparr>) r
      else if c = CHR ''D'' then conf_options (o1\<lparr>mode := set_default, defconfig_file := Some optarg\<rparr>) r
      else if c = CHR ''n'' then conf_options (o1\<lparr>mode := set_no\<rparr>) r
      else if c = CHR ''m'' then conf_options (o1\<lparr>mode := set_mod\<rparr>) r
      else if c = CHR ''y'' then conf_options (o1\<lparr>mode := set_yes\<rparr>) r
      else if c = CHR ''r'' then conf_options (o1\<lparr>mode := set_random\<rparr>) r
      else Inl (if c = CHR ''h'' then 0 else 1))"

text \<open>Reading the configuration; the modes that set all values read only a file that overrides them.\<close>

definition override_file :: "(string \<Rightarrow> string option) \<Rightarrow> files \<Rightarrow> input_mode \<Rightarrow> string option" where
  "override_file getenv fs md = (let there = (\<lambda>x. fs x \<noteq> None);
       name = (case md of set_no \<Rightarrow> ''allno.config'' | set_mod \<Rightarrow> ''allmod.config'' | set_yes \<Rightarrow> ''allyes.config'' | _ \<Rightarrow> ''allrandom.config'') in
     case getenv ''KCONFIG_ALLCONFIG'' of Some x \<Rightarrow>
         if there x then Some x else if there name then Some name else if there ''all.config'' then Some ''all.config'' else None
     | None \<Rightarrow> if there name then Some name else if there ''all.config'' then Some ''all.config'' else None)"

definition read_configuration ::
  "nat \<Rightarrow> (string \<Rightarrow> string option) \<Rightarrow> files \<Rightarrow> symbol option \<Rightarrow> conf_setup \<Rightarrow> conf \<Rightarrow> (int + conf) option" where
  "read_configuration n getenv fs dl o1 c =
     (if mode o1 = set_default then do {
        (name, st) \<leftarrow> (case defconfig_file o1 of Some x \<Rightarrow> Some (x, tab c)
          | None \<Rightarrow> conf_get_default_confname n getenv (\<lambda>x. fs x \<noteq> None) (tab c));
        (failed, c) \<leftarrow> conf_read n getenv fs dl (Some name) (c\<lparr>tab := st\<rparr>);
        Some (if failed then Inl 1 else Inr c) }
      else if mode o1 = ask_all \<or> mode o1 = ask_new \<or> mode o1 = ask_silent
        then map_option (\<lambda>(_, c). Inr c) (conf_read n getenv fs dl None c)
      else case override_file getenv fs (mode o1) of None \<Rightarrow> Some (Inr c)
        | Some x \<Rightarrow> map_option (\<lambda>(_, c). Inr c) (conf_read_simple n S_DEF_USER getenv fs dl (Some x) c))"

definition conf_get_changed :: "ktab \<Rightarrow> bool" where
  "conf_get_changed st \<longleftrightarrow> change_count st \<noteq> 0"

text \<open>New values for all symbols, or questions.\<close>

definition ask_symbols :: "nat \<Rightarrow> menus \<Rightarrow> char \<Rightarrow> nat \<Rightarrow> unit run" where
  "ask_symbols n ms before d a = (if input_mode a = ask_silent then check_all n ms before d a
     else followed_by (conf n ms before d 0) (\<lambda>_ a. check_all n ms before d (a\<lparr>input_mode := ask_silent\<rparr>)) (a\<lparr>rootEntry := 0\<rparr>))"

definition update_configuration ::
  "nat \<Rightarrow> menus \<Rightarrow> char \<Rightarrow> nat \<Rightarrow> (nat \<Rightarrow> nat) \<Rightarrow> bool \<Rightarrow> string \<Rightarrow> input_mode \<Rightarrow> ktab \<Rightarrow> (int + ktab) option" where
  "update_configuration n ms before d rand valid inp md st = (case md of
     set_no \<Rightarrow> map_option Inr (conf_set_all_new_symbols n def_no rand st)
   | set_yes \<Rightarrow> map_option Inr (conf_set_all_new_symbols n def_yes rand st)
   | set_mod \<Rightarrow> map_option Inr (conf_set_all_new_symbols n def_mod rand st)
   | set_random \<Rightarrow> map_option Inr (conf_set_all_new_symbols n def_random rand st)
   | set_default \<Rightarrow> map_option Inr (conf_set_all_new_symbols n def_default rand st)
   | _ \<Rightarrow> map_option (\<lambda>r. case r of Exits c \<Rightarrow> Inl c | Returns (_, a) \<Rightarrow> Inr (a_tab a))
       (ask_symbols n ms before d \<lparr>a_tab = st, input_mode = md, valid_stdin = valid, conf_cnt = 0, line = [], rootEntry = 0, stdin = inp\<rparr>))"

definition write_configuration ::
  "nat \<Rightarrow> place \<Rightarrow> menus \<Rightarrow> symbol option \<Rightarrow> bool \<Rightarrow> 'w disk \<Rightarrow> bool \<Rightarrow> files \<Rightarrow> conf \<Rightarrow> 'w \<Rightarrow> (int \<times> files \<times> conf \<times> 'w) option" where
  "write_configuration n p ms dl entered D sync fs c w = do {
     (failed, fs, st) \<leftarrow> (if sync \<and> \<not> conf_get_changed (tab c) then Some (False, fs, tab c) else conf_write n p ms None fs (tab c));
     let c = c\<lparr>tab := st\<rparr>;
     if failed then Some (1, fs, c, w) else do {
       (failed, fs, c, w) \<leftarrow> conf_write_autoconf n p dl entered D fs c w;
       Some (if failed then 1 else 0, fs, c, w) } }"

text \<open>What the parser delivers for the file is a parameter (\<open>Inl\<close> is its exit), as are the terminal, standard input, the
  numbers of \<^verbatim>\<open>rand\<close> and what \<^verbatim>\<open>conf_write\<close> and \<^verbatim>\<open>conf_write_autoconf\<close> need. The result is the exit code and the files.\<close>

definition conf_main ::
  "nat \<Rightarrow> nat \<Rightarrow> char \<Rightarrow> (string \<Rightarrow> int + menus \<times> ktab \<times> symbol option) \<Rightarrow> place \<Rightarrow> (nat \<Rightarrow> nat) \<Rightarrow> bool \<Rightarrow> string \<Rightarrow> bool \<Rightarrow> 'w disk
    \<Rightarrow> (char \<times> string) list \<Rightarrow> string list \<Rightarrow> files \<Rightarrow> 'w \<Rightarrow> (int \<times> files \<times> 'w) option" where
  "conf_main n d before parse p rand tty inp entered D opts operands fs w =
     (case conf_options \<lparr>mode = ask_all, sync_kconfig = False, defconfig_file = None\<rparr> opts of Inl code \<Rightarrow> Some (code, fs, w)
      | Inr o1 \<Rightarrow> (case operands of [] \<Rightarrow> Some (1, fs, w)
      | file # _ \<Rightarrow> (case parse file of Inl code \<Rightarrow> Some (code, fs, w)
      | Inr (ms, st, dl) \<Rightarrow>
          if sync_kconfig o1 \<and> fs (conf_get_configname (getenv_of p)) = None then Some (1, fs, w)
          else do {
            r \<leftarrow> read_configuration n (getenv_of p) fs dl o1 \<lparr>tab = st, conf_warnings = 0, conf_unsaved = 0\<rparr>;
            (case r of Inl code \<Rightarrow> Some (code, fs, w)
             | Inr c \<Rightarrow>
                 if sync_kconfig o1 \<and> conf_get_changed (tab c) \<and> (case getenv_of p ''KCONFIG_NOSILENTUPDATE'' of None \<Rightarrow> False | Some x \<Rightarrow> x \<noteq> [])
                 then Some (1, fs, w)
                 else do {
                   r \<leftarrow> update_configuration n ms before d rand (sync_kconfig o1 \<longrightarrow> tty) inp (mode o1) (tab c);
                   (case r of Inl code \<Rightarrow> Some (code, fs, w)
                    | Inr st \<Rightarrow> map_option (\<lambda>(code, fs, _, w). (code, fs, w))
                        (write_configuration n p ms dl entered D (sync_kconfig o1) fs (c\<lparr>tab := st\<rparr>) w)) }) })))"

end
