(* ===== verification/KFrame.thy ===== *)
theory KFrame
  imports KCalcEval
begin

text \<open>
  What evaluating a symbol never touches, whatever the table (choices and recursive dependencies included): names, types, properties,
  the values that were read or set, the hash table and the counters. The recursive calls are an interface again.
\<close>

definition typed :: "ksym \<Rightarrow> bool" where
  "typed k \<longleftrightarrow> is_logical (s_type k) \<or> is_textual (s_type k)"

definition globals :: "ktab \<Rightarrow> nat \<times> (nat \<Rightarrow> symbol list) \<times> symbol option \<times> symbol list \<times> int \<times> int" where
  "globals st = (next_sym st, symbol_hash st, modules_sym st, sym_env_list st, change_count st, zconfnerrs st)"

text \<open>Without choices, a symbol without type is not marked for saving either.\<close>

definition steady :: "ktab \<Rightarrow> ktab \<Rightarrow> bool" where
  "steady st st' \<longleftrightarrow> (\<forall>t. static (syms st' t) = static (syms st t)) \<and> globals st' = globals st
     \<and> ((\<forall>t. \<not> sym_is_choice st t) \<longrightarrow> (\<forall>t. \<not> typed (syms st t) \<longrightarrow> has_flag st' t SYMBOL_WRITE = has_flag st t SYMBOL_WRITE))"

lemma steady_refl: "steady st st"
  by (simp add: steady_def)

lemma static_choice: "static k = static k' \<Longrightarrow> SYMBOL_CHOICE \<in> s_flags k \<longleftrightarrow> SYMBOL_CHOICE \<in> s_flags k'"
  by (rule static_fields(6)) auto

lemma steady_facts:
  assumes "steady st st'"
  shows "s_name (syms st' t) = s_name (syms st t)" "s_type (syms st' t) = s_type (syms st t)" "s_user (syms st' t) = s_user (syms st t)"
    "s_prop (syms st' t) = s_prop (syms st t)" "typed (syms st' t) = typed (syms st t)" "sym_is_choice st' t = sym_is_choice st t"
    "x \<noteq> SYMBOL_VALID \<Longrightarrow> x \<noteq> SYMBOL_WRITE \<Longrightarrow> x \<noteq> SYMBOL_CHANGED \<Longrightarrow> has_flag st' t x = has_flag st t x"
    "s_auto (syms st' t) = s_auto (syms st t)" "s_rev_expr (syms st' t) = s_rev_expr (syms st t)"
proof -
  have k: "static (syms st' t) = static (syms st t)" using assms by (simp add: steady_def)
  note e = static_fields [OF k]
  show "s_name (syms st' t) = s_name (syms st t)" "s_type (syms st' t) = s_type (syms st t)" "s_user (syms st' t) = s_user (syms st t)"
    "s_prop (syms st' t) = s_prop (syms st t)" "typed (syms st' t) = typed (syms st t)" "sym_is_choice st' t = sym_is_choice st t"
    "x \<noteq> SYMBOL_VALID \<Longrightarrow> x \<noteq> SYMBOL_WRITE \<Longrightarrow> x \<noteq> SYMBOL_CHANGED \<Longrightarrow> has_flag st' t x = has_flag st t x"
    "s_rev_expr (syms st' t) = s_rev_expr (syms st t)"
    using e static_choice [OF k] by (simp_all add: typed_def sym_is_choice_def has_flag_def)
  show "s_auto (syms st' t) = s_auto (syms st t)" using arg_cong [OF k, of s_auto] by (simp add: static_def)
qed

lemma steady_trans: "steady a b \<Longrightarrow> steady b c \<Longrightarrow> steady a c"
  using steady_facts(5,6) [of a b] by (simp add: steady_def)

text \<open>Updates of one symbol.\<close>

lemma steady_upd:
  assumes "\<And>k. static (g k) = static k" "typed (syms st s) \<or> (\<forall>k. SYMBOL_WRITE \<in> s_flags (g k) \<longleftrightarrow> SYMBOL_WRITE \<in> s_flags k)"
  shows "steady st (upd s g st)"
  using assms by (auto simp: steady_def globals_def has_flag_def)

lemma static_updates [simp]:
  "static (k\<lparr>s_visible := t\<rparr>) = static k" "static (k\<lparr>s_rev_tri := t\<rparr>) = static k" "static (set_curr v k) = static k" "static (set_val x k) = static k"
  "static (k\<lparr>s_curr := w\<rparr>) = static k" "static (k\<lparr>s_chosen := d\<rparr>) = static k"
  by (simp_all add: static_def set_curr_def set_val_def)

lemma static_flags [simp]:
  "x \<in> {SYMBOL_VALID, SYMBOL_WRITE, SYMBOL_CHANGED} \<Longrightarrow> static (k\<lparr>s_flags := insert x (s_flags k)\<rparr>) = static k"
  "x \<in> {SYMBOL_VALID, SYMBOL_WRITE, SYMBOL_CHANGED} \<Longrightarrow> static (k\<lparr>s_flags := s_flags k - {x}\<rparr>) = static k"
proof -
  assume x: "x \<in> {SYMBOL_VALID, SYMBOL_WRITE, SYMBOL_CHANGED}"
  have "insert x A - {SYMBOL_VALID, SYMBOL_WRITE, SYMBOL_CHANGED} = A - {SYMBOL_VALID, SYMBOL_WRITE, SYMBOL_CHANGED}"
    "A - {x} - {SYMBOL_VALID, SYMBOL_WRITE, SYMBOL_CHANGED} = A - {SYMBOL_VALID, SYMBOL_WRITE, SYMBOL_CHANGED}" for A
    using x by auto
  then show "static (k\<lparr>s_flags := insert x (s_flags k)\<rparr>) = static k" "static (k\<lparr>s_flags := s_flags k - {x}\<rparr>) = static k"
    by (simp_all add: static_def)
qed

lemma steady_fields:
  "steady st (upd s (\<lambda>k. k\<lparr>s_visible := t\<rparr>) st)" "steady st (upd s (\<lambda>k. k\<lparr>s_rev_tri := t\<rparr>) st)" "steady st (upd s (set_curr v) st)"
  "steady st (upd s (set_val x) st)" "steady st (upd s (\<lambda>k. k\<lparr>s_curr := (s_curr k)\<lparr>tri := No\<rparr>\<rparr>) st)" "steady st (upd s (\<lambda>k. k\<lparr>s_chosen := d\<rparr>) st)"
  by (rule steady_upd; simp add: set_curr_def set_val_def)+

lemma steady_flag:
  "steady st (set_flag SYMBOL_CHANGED s st)" "steady st (set_flag SYMBOL_VALID s st)" "typed (syms st s) \<Longrightarrow> steady st (set_flag SYMBOL_WRITE s st)"
  "typed (syms st s) \<Longrightarrow> steady st (clear_flag SYMBOL_WRITE s st)" "steady st (clear_flag SYMBOL_VALID s st)"
  unfolding set_flag_def clear_flag_def by (rule steady_upd; simp)+

lemma steady_changed: "steady st (sym_set_changed s st)" "steady st (sym_set_all_changed st)" "steady st (st\<lparr>modules_val := v\<rparr>)"
proof -
  show "steady st (sym_set_changed s st)" by (simp add: sym_set_changed_def steady_flag)
  show "steady st (st\<lparr>modules_val := v\<rparr>)" by (simp add: steady_def globals_def has_flag_def)
  have "static (syms (sym_set_all_changed st) t) = static (syms st t)" "has_flag (sym_set_all_changed st) t SYMBOL_WRITE = has_flag st t SYMBOL_WRITE" for t
    by (simp_all add: sym_set_all_changed_def all_symbols_def has_flag_def split: symbol.split)
  then show "steady st (sym_set_all_changed st)" by (simp add: steady_def globals_def sym_set_all_changed_def all_symbols_def)
qed

lemma steady_ite: "(b \<Longrightarrow> steady st x) \<Longrightarrow> (\<not> b \<Longrightarrow> steady st y) \<Longrightarrow> steady st (if b then x else y)"
  by simp

lemma steady_set: "steady st (set_visible s t st)" "steady st (set_rev s t st)"
  unfolding set_visible_def set_rev_def by (auto intro!: steady_ite steady_refl intro: steady_trans [OF steady_fields(1) steady_changed(1)]
      steady_trans [OF steady_fields(2) steady_changed(1)])

lemma steady_note: "steady st (note_change old s st)"
proof -
  have "steady st (sym_set_all_changed (sym_set_changed s st))" "steady st (sym_set_changed s st)"
    by (rule steady_trans [OF steady_changed(1,2)], rule steady_changed(1))
  then show ?thesis using steady_trans [OF _ steady_changed(3)] by (auto simp: note_change_def Let_def steady_refl)
qed

lemma static_share: "F \<subseteq> {SYMBOL_CHANGED, SYMBOL_WRITE} \<Longrightarrow> static (k\<lparr>s_flags := s_flags k \<union> F\<rparr>) = static k"
proof -
  assume "F \<subseteq> {SYMBOL_CHANGED, SYMBOL_WRITE}"
  then have "s_flags k \<union> F - {SYMBOL_VALID, SYMBOL_WRITE, SYMBOL_CHANGED} = s_flags k - {SYMBOL_VALID, SYMBOL_WRITE, SYMBOL_CHANGED}" by auto
  then show ?thesis by (simp add: static_def)
qed

lemma steady_share: "steady st (share_flags s st)"
proof (cases "sym_is_choice st s")
  case True
  define F where "F = s_flags (syms st s) \<inter> {SYMBOL_CHANGED, SYMBOL_WRITE}"
  have "static (syms (fold (\<lambda>c. upd c (\<lambda>k. k\<lparr>s_flags := s_flags k \<union> F\<rparr>)) cs x) t) = static (syms x t)
    \<and> globals (fold (\<lambda>c. upd c (\<lambda>k. k\<lparr>s_flags := s_flags k \<union> F\<rparr>)) cs x) = globals x" for cs x t
    by (induction cs arbitrary: x) (auto simp: static_share F_def globals_def)
  then show ?thesis using True by (auto simp: share_flags_def Let_def steady_def F_def)
qed (simp add: share_flags_def steady_refl)

section \<open>The functions of the evaluation\<close>

text \<open>A computation that has been steady since \<open>a\<close> stays so.\<close>

definition ends :: "ktab \<Rightarrow> ktab option \<Rightarrow> bool" where
  "ends a m \<longleftrightarrow> (\<forall>st'. m = Some st' \<longrightarrow> steady a st')"

definition gives :: "ktab \<Rightarrow> ('a \<times> ktab) option \<Rightarrow> bool" where
  "gives a m \<longleftrightarrow> (\<forall>v st'. m = Some (v, st') \<longrightarrow> steady a st')"

named_theorems steady_intros

lemma steady_leaf [steady_intros]: "steady a st \<Longrightarrow> ends a (Some st)" "steady a st \<Longrightarrow> gives a (Some (v, st))" "ends a None" "gives a None"
  by (simp_all add: ends_def gives_def)

lemma steady_bind [steady_intros]:
  "ends a m \<Longrightarrow> (\<And>x. steady a x \<Longrightarrow> ends a (g x)) \<Longrightarrow> ends a (Option.bind m g)"
  "ends a m \<Longrightarrow> (\<And>x. steady a x \<Longrightarrow> gives a (h x)) \<Longrightarrow> gives a (Option.bind m h)"
  "gives a m' \<Longrightarrow> (\<And>v x. steady a x \<Longrightarrow> ends a (g' v x)) \<Longrightarrow> ends a (Option.bind m' (\<lambda>(v, x). g' v x))"
  "gives a m' \<Longrightarrow> (\<And>v x. steady a x \<Longrightarrow> gives a (h' v x)) \<Longrightarrow> gives a (Option.bind m' (\<lambda>(v, x). h' v x))"
  by (force simp: ends_def gives_def bind_eq_Some_conv)+

lemma steady_pure:
  "(\<And>v. ends a (g v)) \<Longrightarrow> ends a (Option.bind m g)" "(\<And>v. gives a (h v)) \<Longrightarrow> gives a (Option.bind m h)"
  by (cases m; simp add: ends_def gives_def)+

lemma steady_if [steady_intros]:
  "(b \<Longrightarrow> ends a x) \<Longrightarrow> (\<not> b \<Longrightarrow> ends a y) \<Longrightarrow> ends a (if b then x else y)"
  "(b \<Longrightarrow> gives a x') \<Longrightarrow> (\<not> b \<Longrightarrow> gives a y') \<Longrightarrow> gives a (if b then x' else y')"
  "(b \<Longrightarrow> steady a x'') \<Longrightarrow> (\<not> b \<Longrightarrow> steady a y'') \<Longrightarrow> steady a (if b then x'' else y'')"
  by simp_all

lemma steady_case [steady_intros]:
  "(o' = None \<Longrightarrow> ends a x) \<Longrightarrow> (\<And>v. o' = Some v \<Longrightarrow> ends a (g v)) \<Longrightarrow> ends a (case o' of None \<Rightarrow> x | Some v \<Rightarrow> g v)"
  "(o' = None \<Longrightarrow> gives a x') \<Longrightarrow> (\<And>v. o' = Some v \<Longrightarrow> gives a (g' v)) \<Longrightarrow> gives a (case o' of None \<Rightarrow> x' | Some v \<Rightarrow> g' v)"
  "(\<And>u v. pr = (u, v) \<Longrightarrow> ends a (h u v)) \<Longrightarrow> ends a (case pr of (u, v) \<Rightarrow> h u v)"
  "(\<And>u v. pr = (u, v) \<Longrightarrow> gives a (h' u v)) \<Longrightarrow> gives a (case pr of (u, v) \<Rightarrow> h' u v)"
  by (simp_all split: option.split prod.split)

text \<open>The updates, from a state that was reached from \<open>a\<close>.\<close>

lemmas steady_after [steady_intros] = steady_fields [THEN steady_trans [rotated]] steady_changed [THEN steady_trans [rotated]]
  steady_set [THEN steady_trans [rotated]] steady_note [THEN steady_trans [rotated]] steady_share [THEN steady_trans [rotated]]
  steady_flag(1,2,5) [THEN steady_trans [rotated]]

lemma steady_write [steady_intros]:
  "steady a st \<Longrightarrow> typed (syms a s) \<Longrightarrow> steady a (set_flag SYMBOL_WRITE s st)" "steady a st \<Longrightarrow> typed (syms a s) \<Longrightarrow> steady a (clear_flag SYMBOL_WRITE s st)"
  using steady_facts(5) [of a st s] steady_trans [OF _ steady_flag(3)] steady_trans [OF _ steady_flag(4)] by blast+

locale steady_calls =
  fixes rec :: calc
  assumes rec_steady: "rec t st = Some st' \<Longrightarrow> steady st st'"
begin

lemma rec_ends: "steady a st \<Longrightarrow> ends a (rec t st)"
  using rec_steady steady_trans by (auto simp: ends_def)

lemmas steps = steady_intros rec_ends

lemma calc_expr: "steady a st \<Longrightarrow> gives a (calc_expr rec e st)"
  by (induction e arbitrary: st) (simp_all only: calc_expr.simps, (intro steps; assumption?)+)

lemma calc_opt: "steady a st \<Longrightarrow> gives a (calc_opt rec e st)"
  unfolding calc_opt_def by (intro steps calc_expr)

lemma first_visible: "steady a st \<Longrightarrow> gives a (first_visible rec ty ps st)"
  by (induction ps arbitrary: st) (simp_all only: first_visible.simps, (intro steps calc_opt; assumption?)+)

lemma range_val: "steady a st \<Longrightarrow> gives a (sym_get_range_val rec r base st)"
  unfolding sym_get_range_val_def by (intro steps)

lemma validate_range: "steady a st \<Longrightarrow> ends a (sym_validate_range rec s st)"
  unfolding sym_validate_range_def Let_def sym_get_range_prop_def
  by (intro steps first_visible range_val steady_pure)

lemma prompts: "steady a st \<Longrightarrow> gives a (prompts_visible rec ps t st)"
  by (induction ps arbitrary: st t) (simp_all only: prompts_visible.simps, (intro steps calc_opt; assumption?)+)

lemma visibility: "steady a st \<Longrightarrow> ends a (sym_calc_visibility rec s st)"
  unfolding sym_calc_visibility_def Let_def by (intro steps prompts calc_expr)

lemma first_choice: "steady a st \<Longrightarrow> gives a (first_choice rec ds st)"
  by (induction ds arbitrary: st) (simp_all only: first_choice.simps, (intro steps visibility; assumption?)+)

lemma default_choice: "steady a st \<Longrightarrow> gives a (default_choice rec ps st)"
  by (induction ps arbitrary: st) (simp_all only: default_choice.simps Let_def, (intro steps visibility calc_opt steady_pure; assumption?)+)

lemma calc_choice: "steady a st \<Longrightarrow> gives a (sym_calc_choice rec s st)"
  unfolding sym_calc_choice_def by (intro steps first_choice default_choice)

lemma calc_default: "steady a st \<Longrightarrow> typed (syms a s) \<Longrightarrow> gives a (calc_default rec s st)"
  unfolding calc_default_def sym_get_default_prop_def by (intro steps first_visible calc_opt)

lemma calc_tristate: "steady a st \<Longrightarrow> typed (syms a s) \<Longrightarrow> gives a (calc_tristate rec s st)"
  unfolding calc_tristate_def Let_def by (intro steps calc_default steady_pure)

lemma calc_string: "steady a st \<Longrightarrow> typed (syms a s) \<Longrightarrow> gives a (calc_string rec s st)"
  unfolding calc_string_def sym_get_default_prop_def Let_def by (intro steps first_visible)

lemma calc_step: "steady a st \<Longrightarrow> ends a (calc_step rec s st)"
proof (cases "typed (syms st s)")
  case False
  assume a: "steady a st"
  have "calc_step rec s st = Some (upd s (set_curr \<lparr>val = (case s_name (syms st s) of None \<Rightarrow> [] | Some n \<Rightarrow> n), tri = No\<rparr>) st)"
    using False by (simp add: calc_step_def Let_def typed_def)
  then show ?thesis using a by (simp add: steps)
next
  case True
  assume a: "steady a st"
  have t: "typed (syms a s)" using True steady_facts(5) [OF a] by simp
  show ?thesis unfolding calc_step_def Let_def
    by (intro steps visibility calc_tristate calc_string calc_choice validate_range a t)
qed

end

lemma sym_calc_value_steady: "sym_calc_value n t st = Some st' \<Longrightarrow> steady st st'"
proof (induction n arbitrary: t st st')
  case (Suc n)
  have "steady_calls (sym_calc_value n)" by (rule steady_calls.intro) (rule Suc(1))
  note step = steady_calls.calc_step [OF this]
  show ?case using Suc(2) step [OF steady_flag(2) [of st t], of t] by (auto simp: ends_def steady_refl split: if_splits)
qed simp

interpretation eval_steady: steady_calls "sym_calc_value n" for n
  by (rule steady_calls.intro) (rule sym_calc_value_steady)

end
