(* ===== verification/KConfLines.thy ===== *)
theory KConfLines
  imports KConfWrite
begin

text \<open>
  The lines of a configuration file: what is written for a symbol is read as the value it was written for, comments and the header
  are read as nothing.
\<close>

section \<open>Strings\<close>

definition clean :: "string \<Rightarrow> bool" where
  "clean x \<longleftrightarrow> CHR 0x0A \<notin> set x \<and> CHR 0x00 \<notin> set x"

lemma clean_append [simp]: "clean (a @ b) \<longleftrightarrow> clean a \<and> clean b"
  by (auto simp: clean_def)

lemma clean_Cons [simp]: "clean (c # x) \<longleftrightarrow> c \<noteq> CHR 0x0A \<and> c \<noteq> CHR 0x00 \<and> clean x"
  by (auto simp: clean_def)

lemma clean_Nil [simp]: "clean []"
  by (simp add: clean_def)

lemma unquote_escape [simp]: "unquote (escape x @ CHR 0x22 # r) = Some x"
  by (induction x) auto

lemma clean_escape [simp]: "clean (escape x) \<longleftrightarrow> clean x"
  by (induction x) auto

lemma digit_codes: "c_isdigit c \<Longrightarrow> c \<noteq> CHR 0x0A \<and> c \<noteq> CHR 0x00 \<and> c \<noteq> CHR 0x0D"
  by (auto simp: c_isdigit_def)

lemma xdigit_codes: "c_isxdigit c \<Longrightarrow> c \<noteq> CHR 0x0A \<and> c \<noteq> CHR 0x00 \<and> c \<noteq> CHR 0x0D"
  using digit_codes by (auto simp: c_isxdigit_def Let_def)

definition number_char :: "char \<Rightarrow> bool" where
  "number_char c \<longleftrightarrow> c \<noteq> CHR 0x0A \<and> c \<noteq> CHR 0x00 \<and> c \<noteq> CHR 0x0D"

lemma number_chars: "list_all number_char x \<Longrightarrow> clean x \<and> (x = [] \<or> last x \<noteq> CHR 0x0D)"
  by (induction x) (auto simp: number_char_def)

lemma digits_number: "list_all c_isdigit x \<Longrightarrow> list_all number_char x"
  using digit_codes by (simp add: list_all_iff number_char_def)

lemma int_valid_chars:
  assumes "int_valid x"
  shows "list_all number_char x"
proof (cases x)
  case (Cons c y)
  then have "list_all c_isdigit y \<and> (c_isdigit c \<or> c = CHR ''-'')"
    using assms by (cases y) (auto simp: int_valid_def Let_def split: if_splits)
  then show ?thesis using Cons digits_number [of y] digits_number [of "[c]"] by (auto simp: number_char_def)
qed simp

lemma hex_valid_chars: "hex_valid x \<Longrightarrow> list_all number_char x"
  by (auto simp: hex_valid_def Let_def list_all_iff number_char_def dest: xdigit_codes split: if_splits list.splits)

section \<open>Bodies of lines\<close>

definition body :: "string \<Rightarrow> bool" where
  "body b \<longleftrightarrow> clean b \<and> length b \<le> 1022"

text \<open>A text of such lines is read as these lines.\<close>

lemma file_lines_bodies:
  assumes "\<forall>b \<in> set bs. body b"
  shows "file_lines (concat (map (\<lambda>b. b @ newline) bs)) = map (\<lambda>b. b @ newline) bs"
proof -
  have "is_line 1023 (b @ newline)" if "b \<in> set bs" for b
    using assms that by (auto simp: is_line_def newline_def body_def clean_def)
  then have "fgets_lines 1023 (concat (map (\<lambda>b. b @ newline) bs)) = map (\<lambda>b. b @ newline) bs"
    by (intro fgets_lines_concat) auto
  moreover have "takeWhile (\<lambda>c. c \<noteq> CHR 0x00) (b @ newline) = b @ newline" if "b \<in> set bs" for b
  proof -
    have "\<forall>c \<in> set (b @ newline). c \<noteq> CHR 0x00" using assms that by (auto simp: body_def clean_def newline_def)
    then show ?thesis by (simp only: takeWhile_eq_all_conv)
  qed
  ultimately show ?thesis by (simp add: file_lines_def)
qed

text \<open>A comment that is not taken for a symbol that is not set.\<close>

definition remark :: "string \<Rightarrow> bool" where
  "remark p \<longleftrightarrow> take 10 (tl (dropWhile (\<lambda>c. c \<noteq> CHR '' '') (p @ newline))) \<noteq> ''is not set''"

lemma read_remark: "remark p \<Longrightarrow> read_line d (''# '' @ p @ newline) c = Some c"
  by (simp add: read_line_def read_unset_def Let_def remark_def)

lemma read_hash: "read_line d (''#'' @ newline) c = Some c"
  by (simp add: read_line_def read_unset_def Let_def newline_def)

lemma read_empty: "read_line d newline c = Some c"
  by (simp add: read_line_def newline_def c_isupper_def)

section \<open>Symbols\<close>

definition good_name :: "string \<Rightarrow> bool" where
  "good_name n \<longleftrightarrow> n \<noteq> [] \<and> c_isupper (hd n) \<and> clean n \<and> CHR '' '' \<notin> set n \<and> CHR ''='' \<notin> set n"

text \<open>A symbol that is found by its name.\<close>

definition known :: "ktab \<Rightarrow> symbol \<Rightarrow> string \<Rightarrow> bool" where
  "known st s n \<longleftrightarrow> s_name (syms st s) = Some n \<and> good_name n \<and> sym_find (Some n) st = Some s \<and> \<not> sym_is_choice st s \<and> \<not> sym_is_choice_value st s"

text \<open>Values that can be saved.\<close>

definition storable :: "symbol_type \<Rightarrow> tristate \<Rightarrow> string \<Rightarrow> bool" where
  "storable ty t x = (case ty of S_BOOLEAN \<Rightarrow> t \<noteq> Mod | S_TRISTATE \<Rightarrow> True | S_STRING \<Rightarrow> clean x | S_INT \<Rightarrow> int_valid x | S_HEX \<Rightarrow> hex_valid x
     | _ \<Rightarrow> False)"

definition store :: "def_index \<Rightarrow> symbol \<Rightarrow> tristate \<Rightarrow> string \<Rightarrow> ktab \<Rightarrow> ktab" where
  "store d s t x st = set_flag (def_flag d) s (upd s (upd_def d (\<lambda>u. if is_logical (s_type (syms st s)) then u\<lparr>u_tri := t\<rparr> else u\<lparr>u_val := Some x\<rparr>)) st)"

definition symbol_body :: "symbol_type \<Rightarrow> string \<Rightarrow> tristate \<Rightarrow> string \<Rightarrow> string" where
  "symbol_body ty name t x = (if is_logical ty then (if t = No then ''# '' @ name @ '' is not set'' else name @ ''='' @ tri_string t)
     else if ty = S_STRING then name @ ''='' @ quoted x else name @ ''='' @ x)"

lemma storable_types: "storable ty t x \<Longrightarrow> is_logical ty \<or> is_textual ty"
  by (cases ty) (simp_all add: storable_def is_logical_def is_textual_def)

lemma symbol_text_body: "storable ty t x \<Longrightarrow> symbol_text ty n t x = symbol_body ty n t x @ newline"
  by (cases ty) (simp_all add: symbol_text_def symbol_body_def storable_def is_logical_def value_line_def)

lemma clean_tri_string [simp]: "clean (tri_string t)"
  by (cases t) (simp_all add: tri_string_def)

lemma clean_symbol_body: "storable ty t x \<Longrightarrow> good_name n \<Longrightarrow> clean (symbol_body ty n t x)"
  using number_chars int_valid_chars hex_valid_chars
  by (cases ty) (auto simp: symbol_body_def storable_def good_name_def is_logical_def quoted_def)

lemma upper_not_const: "good_name n \<Longrightarrow> const_named n = None"
  by (auto simp: good_name_def const_named_def c_isupper_def)

lemma find_stronger: "find P xs = Some x \<Longrightarrow> Q x \<Longrightarrow> (\<And>y. Q y \<Longrightarrow> P y) \<Longrightarrow> find Q xs = Some x"
  by (induction xs) (auto split: if_splits)

lemma known_lookup:
  assumes "known st s n"
  shows "sym_lookup (Some n) {} st = (s, st)"
proof -
  let ?P = "\<lambda>s. s_name (syms st s) = Some n \<and> SYMBOL_CONST \<notin> s_flags (syms st s)"
  have c: "const_named n = None" by (rule upper_not_const) (use assms in \<open>simp add: known_def\<close>)
  then have f: "find ?P (symbol_hash st (name_hash n)) = Some s" using assms by (simp add: known_def sym_find_def)
  then have "?P s" unfolding find_Some_iff by auto
  then have "lookup_match st n {} s" using assms by (simp add: lookup_match_def known_def sym_is_choice_def has_flag_def)
  then have "find (lookup_match st n {}) (symbol_hash st (name_hash n)) = Some s"
    by (rule find_stronger [OF f]) (simp add: lookup_match_def)
  then show ?thesis using c by (simp add: sym_lookup_def)
qed

lemma line_symbol_known:
  assumes "known (tab c) s n" "storable (s_type (syms (tab c) s)) t x"
  shows "line_symbol d n ty c = (Some s, c)"
proof -
  have "s_type (syms (tab c) s) \<noteq> S_UNKNOWN" using assms(2) by (auto simp: storable_def)
  then show ?thesis using assms(1) known_lookup [OF assms(1)] by (cases d) (simp_all add: line_symbol_def known_def)
qed

lemma store_syms:
  "syms (store d s t x st) z = (if z \<noteq> s then syms st z else (upd_def d (\<lambda>u. if is_logical (s_type (syms st s)) then u\<lparr>u_tri := t\<rparr> else u\<lparr>u_val := Some x\<rparr>)
     (syms st s))\<lparr>s_flags := insert (def_flag d) (s_flags (syms st s))\<rparr>)"
  by (cases d) (simp_all add: store_def set_flag_def KSymbol.upd_def upd_def_def)

lemma store_choice_value: "known st s n \<Longrightarrow> \<not> sym_is_choice_value (store d s t x st) s"
  by (cases d) (simp_all add: known_def sym_is_choice_value_def has_flag_def store_syms def_flag_def upd_def_def)

lemma conf_eta: "c\<lparr>tab := f (tab c)\<rparr> = on_tab f c"
  by (simp add: on_tab_def)

text \<open>Setting the value that was written.\<close>

lemma set_saved:
  assumes "storable (s_type (syms (tab c) s)) t x" "t \<noteq> No \<or> \<not> is_logical (s_type (syms (tab c) s))"
  shows "conf_set_sym_val d s (if is_logical (s_type (syms (tab c) s)) then tri_string t
      else if s_type (syms (tab c) s) = S_STRING then quoted x else x) c = (False, on_tab (store d s t x) c)"
  using assms
  by (cases "s_type (syms (tab c) s)"; cases t)
     (simp_all add: conf_set_sym_val_def Let_def is_logical_def storable_def tri_string_def set_bool_def give_tri_def store_def quoted_def
        store_quoted_def store_string_def sym_string_valid_def on_tab_def)

lemma name_parts:
  assumes "good_name n"
  shows "takeWhile (\<lambda>c. c \<noteq> CHR '' '') (n @ '' is not set'' @ r) = n" "dropWhile (\<lambda>c. c \<noteq> CHR '' '') (n @ '' is not set'' @ r) = '' is not set'' @ r"
    "takeWhile (\<lambda>c. c \<noteq> CHR ''='') (n @ ''='' @ r) = n" "dropWhile (\<lambda>c. c \<noteq> CHR ''='') (n @ ''='' @ r) = ''='' @ r"
  using assms by (auto simp: good_name_def takeWhile_append dropWhile_append)

lemma strip_newline: "CHR 0x0A \<notin> set v \<Longrightarrow> v = [] \<or> last v \<noteq> CHR 0x0D \<Longrightarrow> strip_eol (v @ newline) = v"
  by (auto simp: strip_eol_def Let_def newline_def takeWhile_append)

lemma read_value_line:
  assumes "good_name n" "CHR 0x0A \<notin> set v" "v = [] \<or> last v \<noteq> CHR 0x0D"
  shows "read_line d ((n @ ''='' @ v) @ newline) c = (case line_symbol d n S_OTHER c of (None, c) \<Rightarrow> Some c
     | (Some s, c) \<Rightarrow> (case conf_set_sym_val d s v (warn_override d s c) of (given_up, c) \<Rightarrow> if given_up then Some c else set_choice d s c))"
proof -
  obtain h r where n: "n = h # r" "c_isupper h" using assms(1) by (cases n) (auto simp: good_name_def)
  then have "h \<noteq> CHR ''#''" by (auto simp: c_isupper_def)
  then have "read_line d ((n @ ''='' @ v) @ newline) c = read_value d ((n @ ''='' @ v) @ newline) c" using n by (simp add: read_line_def)
  then show ?thesis using name_parts(3,4) [OF assms(1), of "v @ newline"] strip_newline [OF assms(2,3)]
    by (simp add: read_value_def Let_def split: option.split prod.split)
qed

text \<open>A line that was written for a symbol.\<close>

theorem read_symbol_body:
  assumes "known (tab c) s n" "storable (s_type (syms (tab c) s)) t x" "\<not> has_flag (tab c) s (def_flag d)"
  shows "read_line d (symbol_body (s_type (syms (tab c) s)) n t x @ newline) c = Some (on_tab (store d s t x) c)"
proof -
  let ?ty = "s_type (syms (tab c) s)"
  have n: "good_name n" using assms(1) by (simp add: known_def)
  note l = line_symbol_known [OF assms(1,2)]
  have w: "warn_override d s c = c" using assms(3) by (simp add: warn_override_def)
  have ch: "set_choice d s (on_tab (store d s t x) c) = Some (on_tab (store d s t x) c)"
    using store_choice_value [OF assms(1)] by (simp add: set_choice_def on_tab_def)
  show ?thesis
  proof (cases "is_logical ?ty \<and> t = No")
    case True
    have "give_tri d s No c = on_tab (store d s t x) c" using True by (simp add: give_tri_def store_def on_tab_def)
    then show ?thesis using True l [of d S_BOOLEAN] w ch name_parts(1,2) [OF n, of newline]
      by (simp add: symbol_body_def read_line_def read_unset_def Let_def)
  next
    case False
    define v where "v = (if is_logical ?ty then tri_string t else if ?ty = S_STRING then quoted x else x)"
    have b: "symbol_body ?ty n t x = n @ ''='' @ v" using False by (auto simp: symbol_body_def v_def)
    have "clean v" using clean_symbol_body [OF assms(2) n] by (simp add: b)
    moreover have "v = [] \<or> last v \<noteq> CHR 0x0D"
    proof (cases "is_logical ?ty \<or> ?ty = S_STRING")
      case True
      then show ?thesis by (auto simp: v_def tri_string_def quoted_def split: tristate.split)
    next
      case False
      then have "list_all number_char x" using assms(2) int_valid_chars hex_valid_chars by (auto simp: storable_def is_logical_def split: symbol_type.splits)
      then show ?thesis using number_chars [of x] False by (simp add: v_def)
    qed
    ultimately have e: "CHR 0x0A \<notin> set v" "v = [] \<or> last v \<noteq> CHR 0x0D" by (simp_all add: clean_def)
    have "conf_set_sym_val d s v c = (False, on_tab (store d s t x) c)"
      unfolding v_def by (rule set_saved [OF assms(2)]) (use False in blast)
    then show ?thesis unfolding b using read_value_line [OF n, of v d c] e l [of d S_OTHER] w ch by simp
  qed
qed

section \<open>Whole files\<close>

text \<open>What the lines of a file are: comments and saved symbols.\<close>

datatype piece = Plain string | Saved symbol tristate string

definition piece_body :: "ktab \<Rightarrow> piece \<Rightarrow> string" where
  "piece_body st p = (case p of Plain b \<Rightarrow> b | Saved s t x \<Rightarrow> symbol_body (s_type (syms st s)) (the (s_name (syms st s))) t x)"

definition plain_body :: "string \<Rightarrow> bool" where
  "plain_body b \<longleftrightarrow> b = [] \<or> b = ''#'' \<or> (\<exists>p. b = ''# '' @ p \<and> remark p)"

definition saved_symbols :: "piece list \<Rightarrow> symbol list" where
  "saved_symbols ps = concat (map (\<lambda>p. case p of Plain b \<Rightarrow> [] | Saved s t x \<Rightarrow> [s]) ps)"

definition good_piece :: "ktab \<Rightarrow> piece \<Rightarrow> bool" where
  "good_piece st p \<longleftrightarrow> body (piece_body st p) \<and> (case p of Plain b \<Rightarrow> plain_body b
     | Saved s t x \<Rightarrow> (\<exists>n. known st s n) \<and> storable (s_type (syms st s)) t x)"

fun restore :: "def_index \<Rightarrow> piece list \<Rightarrow> ktab \<Rightarrow> ktab" where
  "restore d [] st = st"
| "restore d (Plain b # ps) st = restore d ps st"
| "restore d (Saved s t x # ps) st = restore d ps (store d s t x st)"

text \<open>Two tables that agree in what the lines of a file depend on.\<close>

definition alike :: "ktab \<Rightarrow> ktab \<Rightarrow> bool" where
  "alike st st' \<longleftrightarrow> symbol_hash st' = symbol_hash st \<and> (\<forall>s. s_name (syms st' s) = s_name (syms st s) \<and> s_type (syms st' s) = s_type (syms st s)
     \<and> (\<forall>x \<in> {SYMBOL_CONST, SYMBOL_CHOICE, SYMBOL_CHOICEVAL}. x \<in> s_flags (syms st' s) \<longleftrightarrow> x \<in> s_flags (syms st s)))"

lemma alike_refl: "alike st st"
  by (simp add: alike_def)

lemma alike_trans: "alike a b \<Longrightarrow> alike b c \<Longrightarrow> alike a c"
  by (simp add: alike_def)

lemma alike_store: "alike st (store d s t x st)"
proof -
  have "symbol_hash (store d s t x st) = symbol_hash st" by (simp add: store_def set_flag_def KSymbol.upd_def)
  moreover have "s_name (upd_def d g k) = s_name k" "s_type (upd_def d g k) = s_type k" "def_flag d \<notin> {SYMBOL_CONST, SYMBOL_CHOICE, SYMBOL_CHOICEVAL}" for g k
    by (cases d; simp add: upd_def_def def_flag_def)+
  ultimately show ?thesis by (auto simp: alike_def store_syms)
qed

lemma alike_known:
  assumes "alike st st'"
  shows "known st' s n = known st s n"
proof -
  have "find (\<lambda>s. s_name (syms st' s) = Some n \<and> SYMBOL_CONST \<notin> s_flags (syms st' s)) (symbol_hash st' (name_hash n))
    = find (\<lambda>s. s_name (syms st s) = Some n \<and> SYMBOL_CONST \<notin> s_flags (syms st s)) (symbol_hash st (name_hash n))"
    using assms by (simp add: alike_def)
  then have "sym_find (Some n) st' = sym_find (Some n) st" by (simp add: sym_find_def split: option.split)
  then show ?thesis using assms by (simp add: known_def alike_def sym_is_choice_def sym_is_choice_value_def has_flag_def)
qed

lemma alike_body: "alike st st' \<Longrightarrow> piece_body st' p = piece_body st p"
  by (simp add: alike_def piece_body_def split: piece.split)

lemma alike_good: "alike st st' \<Longrightarrow> good_piece st' p = good_piece st p"
proof -
  assume a: "alike st st'"
  have "s_type (syms st' s) = s_type (syms st s)" for s using a by (simp add: alike_def)
  moreover have "known st' = known st" using alike_known [OF a] by (intro ext)
  ultimately show ?thesis by (simp add: good_piece_def alike_body [OF a] split: piece.split)
qed

lemma read_plain: "plain_body b \<Longrightarrow> read_line d (b @ newline) c = Some c"
  using read_empty read_hash read_remark by (auto simp: plain_body_def)

lemma read_pieces:
  assumes "\<forall>p \<in> set ps. good_piece (tab c) p" "distinct (saved_symbols ps)" "\<forall>s \<in> set (saved_symbols ps). \<not> has_flag (tab c) s (def_flag d)"
  shows "read_lines d (map (\<lambda>p. piece_body (tab c) p @ newline) ps) c = Some (on_tab (restore d ps) c)"
  using assms
proof (induction ps arbitrary: c)
  case Nil
  then show ?case by (simp add: on_tab_def)
next
  case (Cons p ps)
  show ?case
  proof (cases p)
    case (Plain b)
    then have b: "plain_body b" using Cons(2) by (simp add: good_piece_def)
    have "read_lines d (map (\<lambda>p. piece_body (tab c) p @ newline) ps) c = Some (on_tab (restore d ps) c)"
      by (rule Cons(1)) (use Cons(2-4) Plain in \<open>auto simp: saved_symbols_def\<close>)
    then show ?thesis using Plain read_plain [OF b] by (simp add: piece_body_def on_tab_def)
  next
    case (Saved s t x)
    then obtain n where n: "known (tab c) s n" and v: "storable (s_type (syms (tab c) s)) t x" using Cons(2) by (auto simp: good_piece_def)
    have nn: "the (s_name (syms (tab c) s)) = n" using n by (simp add: known_def)
    let ?c = "on_tab (store d s t x) c"
    have al: "alike (tab c) (tab ?c)" using alike_store by (simp add: on_tab_def)
    have s: "s \<notin> set (saved_symbols ps)" "distinct (saved_symbols ps)" using Cons(3) Saved by (simp_all add: saved_symbols_def)
    have "has_flag (tab ?c) z f = has_flag (tab c) z f" if "z \<noteq> s" for z f
      using that by (simp add: on_tab_def has_flag_def store_syms)
    then have f: "\<forall>z \<in> set (saved_symbols ps). \<not> has_flag (tab ?c) z (def_flag d)"
      using Cons(4) s(1) Saved by (auto simp: saved_symbols_def)
    have "read_lines d (map (\<lambda>p. piece_body (tab ?c) p @ newline) ps) ?c = Some (on_tab (restore d ps) ?c)"
      by (rule Cons(1) [OF _ s(2) f]) (use Cons(2) alike_good [OF al] in auto)
    moreover have "read_line d (symbol_body (s_type (syms (tab c) s)) n t x @ newline) c = Some ?c"
      by (rule read_symbol_body [OF n v]) (use Cons(4) Saved in \<open>simp add: saved_symbols_def\<close>)
    ultimately show ?thesis using Saved nn alike_body [OF al] by (simp add: piece_body_def) (simp add: on_tab_def)
  qed
qed

lemma read_text:
  assumes "\<forall>p \<in> set ps. good_piece (tab c) p" "distinct (saved_symbols ps)" "\<forall>s \<in> set (saved_symbols ps). \<not> has_flag (tab c) s (def_flag d)"
  shows "read_lines d (file_lines (concat (map (\<lambda>p. piece_body (tab c) p @ newline) ps))) c = Some (on_tab (restore d ps) c)"
proof -
  have "\<forall>b \<in> set (map (piece_body (tab c)) ps). body b" using assms(1) by (auto simp: good_piece_def)
  from file_lines_bodies [OF this] have "file_lines (concat (map (\<lambda>p. piece_body (tab c) p @ newline) ps)) = map (\<lambda>p. piece_body (tab c) p @ newline) ps"
    by (simp add: comp_def)
  then show ?thesis using read_pieces [OF assms] by simp
qed

lemma restore_other: "s \<notin> set (saved_symbols ps) \<Longrightarrow> syms (restore d ps st) s = syms st s"
  by (induction d ps st rule: restore.induct) (auto simp: saved_symbols_def store_syms)

lemma restore_saved: "distinct (saved_symbols ps) \<Longrightarrow> Saved s t x \<in> set ps \<Longrightarrow> syms (restore d ps st) s = syms (store d s t x st) s"
proof (induction d ps st rule: restore.induct)
  case (3 d z u y ps st)
  show ?case
  proof (cases "Saved s t x = Saved z u y")
    case True
    moreover have "z \<notin> set (saved_symbols ps)" using 3(2) by (auto simp: saved_symbols_def)
    ultimately show ?thesis using restore_other by simp
  next
    case False
    then have m: "Saved s t x \<in> set ps" using 3(3) by auto
    then have "s \<in> set (saved_symbols ps)" by (force simp: saved_symbols_def)
    then have "z \<noteq> s" using 3(2) by (auto simp: saved_symbols_def)
    moreover have "syms (restore d ps (store d z u y st)) s = syms (store d s t x (store d z u y st)) s"
      by (rule 3(1)) (use 3(2) m in \<open>simp_all add: saved_symbols_def\<close>)
    ultimately show ?thesis by (simp add: store_syms)
  qed
qed (auto simp: saved_symbols_def)

lemma restore_frame: "next_sym (restore d ps st) = next_sym st" "symbol_hash (restore d ps st) = symbol_hash st"
  "modules_sym (restore d ps st) = modules_sym st" "modules_val (restore d ps st) = modules_val st" "change_count (restore d ps st) = change_count st"
  by (induction d ps st rule: restore.induct) (auto simp: store_def set_flag_def KSymbol.upd_def)

text \<open>Claim C27. Reading a configuration file that consists of comments and of the lines written for distinct symbols stores exactly
  the values that were written: each saved symbol gets its value and is marked as set, every other symbol and everything else stays as
  it is, and there is no warning. Strings may contain quotes and backslashes.\<close>

theorem config_lines_roundtrip:
  assumes "\<forall>p \<in> set ps. good_piece (tab c) p" "distinct (saved_symbols ps)" "\<forall>s \<in> set (saved_symbols ps). \<not> has_flag (tab c) s (def_flag d)"
  shows "\<exists>c'. read_lines d (file_lines (concat (map (\<lambda>p. piece_body (tab c) p @ newline) ps))) c = Some c'
    \<and> conf_warnings c' = conf_warnings c \<and> conf_unsaved c' = conf_unsaved c \<and> change_count (tab c') = change_count (tab c)
    \<and> (\<forall>s t x. Saved s t x \<in> set ps \<longrightarrow> syms (tab c') s = syms (store d s t x (tab c)) s)
    \<and> (\<forall>s. s \<notin> set (saved_symbols ps) \<longrightarrow> syms (tab c') s = syms (tab c) s)"
proof -
  have "conf_warnings (on_tab (restore d ps) c) = conf_warnings c" "conf_unsaved (on_tab (restore d ps) c) = conf_unsaved c"
    "tab (on_tab (restore d ps) c) = restore d ps (tab c)" by (simp_all add: on_tab_def)
  then show ?thesis using restore_saved [OF assms(2)] restore_other
    by (intro exI [of _ "on_tab (restore d ps) c"]) (simp add: read_text [OF assms] restore_frame)
qed

end
