(* ===== verification/KConfSave.thy ===== *)
theory KConfSave
  imports KFrame KConfLines KSessionProps
begin

text \<open>
  Saving the configuration in a session: what \<^verbatim>\<open>conf_write\<close> writes are the lines of the symbols that are to be saved, each once, with the
  values they mean, and the comments that are visible.
\<close>

section \<open>Sessions and flags\<close>

lemma session_input:
  assumes "session U f st0 st"
  shows "valid st0 t \<Longrightarrow> \<not> allocated st0 t" "allocated st t = allocated st0 t"
proof -
  show "valid st0 t \<Longrightarrow> \<not> allocated st0 t" using assms by (auto simp: session_def layered_def)
  have r: "ready st0 U f {} st" using assms by (simp add: session_def)
  then show "allocated st t = allocated st0 t" using ready_fields(3) [OF r, of t] by (simp add: allocated_def ready_def same_static_def)
qed

lemma session_clear_write:
  assumes "session U f st0 st" "allocated st0 s"
  shows "session U f st0 (clear_flag SYMBOL_WRITE s st)"
proof -
  have r: "ready st0 U f {} st" using assms(1) by (simp add: session_def)
  let ?st = "clear_flag SYMBOL_WRITE s st"
  have "allocated st s" using session_input(2) [OF assms(1)] assms(2) by simp
  then have o: "only_flags st ?st" by (intro only_flags_set) auto
  have "syms ?st t = syms st0 t" if "valid st0 t" for t
  proof -
    have "t \<noteq> s" using session_input(1) [OF assms(1) that] assms(2) by blast
    then show ?thesis using r that by (simp add: ready_def clear_flag_def)
  qed
  moreover have "settled st0 f t (syms ?st t)" if "valid ?st t" "\<not> valid st0 t" for t
  proof -
    have "valid st t" using o that by (simp add: only_flags_def)
    then have "settled st0 f t (syms st t)" using r that by (simp add: ready_def)
    then show ?thesis by (cases "t = s") (simp_all add: settled_def clear_flag_def)
  qed
  moreover have "same_static st0 ?st" using r o by (simp add: ready_def same_static_def only_flags_def clear_flag_def)
  ultimately have "ready st0 U f {} ?st" using r o by (simp add: ready_def modules_done_def only_flags_def clear_flag_def)
  moreover have "modules_agree ?st" using assms(1) by (simp add: session_def modules_agree_def clear_flag_def)
  ultimately show ?thesis using assms(1) by (simp add: session_def)
qed

text \<open>Evaluating a valid symbol does nothing.\<close>

lemma calc_valid: "valid st s \<Longrightarrow> 0 < n \<Longrightarrow> sym_calc_value n s st = Some st"
  by (cases n) (simp_all add: valid_def)

lemma session_keeps:
  assumes "session U f st0 st" "ready st0 U f {} st'" "keeps (wanted st0 f) st st'"
  shows "session U f st0 st'"
proof -
  have "ready st0 U f {} st" "modules_agree st" using assms(1) by (simp_all add: session_def)
  then have "modules_agree st'" using assms(2,3) by (auto simp: modules_agree_def ready_def same_static_def modules_done_def keeps_def)
  then show ?thesis using assms by (auto simp: session_def)
qed

section \<open>What is saved\<close>

text \<open>The lines for a list of menus, when the symbols \<open>D\<close> have been written.\<close>

fun saved_pieces :: "ktab \<Rightarrow> (symbol \<Rightarrow> nat) \<Rightarrow> symbol set \<Rightarrow> menu list \<Rightarrow> piece list" where
  "saved_pieces st f D [] = []"
| "saved_pieces st f D (x # xs) = (case m_sym x of
     None \<Rightarrow> (case m_prompt x of
         Some (Own p) \<Rightarrow> if expr_calc_value (tab_of st) (meaning st f) (p_visible p) \<noteq> No
           then map Plain [[], ''#'', ''# '' @ the (p_text p), ''#''] else []
       | _ \<Rightarrow> []) @ saved_pieces st f D xs
   | Some s \<Rightarrow> (if s \<notin> D \<and> typed (syms st s) \<and> wanted st f s then [Saved s (tri (meaning st f s)) (val (meaning st f s))] else [])
       @ saved_pieces st f (insert s D) xs)"

text \<open>A menu whose lines can be read back: its symbol is found by its name, and the line fits into the buffer of the reader.\<close>

definition savable :: "symbol set \<Rightarrow> (symbol \<Rightarrow> nat) \<Rightarrow> ktab \<Rightarrow> menu \<Rightarrow> bool" where
  "savable U f st x \<longleftrightarrow> (case m_sym x of
     Some s \<Rightarrow> s \<in> U \<and> allocated st s \<and> (\<exists>n. known st s n \<and> (let v = meaning st f s; ty = s_type (syms st s) in
         (is_textual ty \<longrightarrow> storable ty No (val v)) \<and> length (symbol_body ty n (tri v) (val v)) \<le> 1022))
       \<and> (s_type (syms st s) = S_TRISTATE \<longrightarrow> modules_sym st \<noteq> None)
   | None \<Rightarrow> (case m_prompt x of
         Some (Own p) \<Rightarrow> set (opt_symbols (p_visible p)) \<subseteq> U \<and> (\<exists>q. p_text p = Some q \<and> clean q \<and> remark q \<and> length q \<le> 1020)
       | _ \<Rightarrow> True))"

definition pieces_text :: "ktab \<Rightarrow> piece list \<Rightarrow> string" where
  "pieces_text st ps = concat (map (\<lambda>p. piece_body st p @ newline) ps)"

lemma pieces_text_append [simp]: "pieces_text st (ps @ qs) = pieces_text st ps @ pieces_text st qs"
  by (simp add: pieces_text_def)

lemma pieces_text_Nil [simp]: "pieces_text st [] = []"
  by (simp add: pieces_text_def)

section \<open>The loop of \<^verbatim>\<open>conf_write\<close>\<close>

definition writing :: "ktab \<Rightarrow> symbol set \<Rightarrow> (symbol \<Rightarrow> nat) \<Rightarrow> symbol set \<Rightarrow> ktab \<Rightarrow> bool" where
  "writing st0 U f D st \<longleftrightarrow> session U f st0 st \<and> (\<forall>t \<in> D. valid st t)
     \<and> (\<forall>t. valid st t \<and> \<not> valid st0 t \<longrightarrow> marked (\<lambda>t. wanted st0 f t \<and> t \<notin> D) t (syms st t))"

lemma writing_start: "session U f st0 st \<Longrightarrow> all_marked st0 f st \<Longrightarrow> writing st0 U f {} st"
  by (simp add: writing_def all_marked_def marked_def)

lemma writing_keeps:
  assumes "writing st0 U f D st" "session U f st0 st'" "keeps (wanted st0 f) st st'"
  shows "writing st0 U f D st'"
proof -
  have "marked (\<lambda>t. wanted st0 f t \<and> t \<notin> D) t (syms st' t)" if "valid st' t" "\<not> valid st0 t" for t
  proof (cases "valid st t")
    case True
    then show ?thesis using assms that by (simp add: writing_def keeps_def)
  next
    case False
    then have "t \<notin> D" "marked (wanted st0 f) t (syms st' t)" using assms that by (auto simp: writing_def keeps_def)
    then show ?thesis by (simp add: marked_def)
  qed
  then show ?thesis using assms keeps_valid [OF assms(3)] by (simp add: writing_def)
qed

lemma writing_clear:
  assumes "writing st0 U f D st" "valid st s" "allocated st0 s"
  shows "writing st0 U f (insert s D) (clear_flag SYMBOL_WRITE s st)"
proof -
  have v: "valid (clear_flag SYMBOL_WRITE s st) t = valid st t" for t by (simp add: valid_def has_flag_def clear_flag_def)
  have "session U f st0 (clear_flag SYMBOL_WRITE s st)" using session_clear_write assms by (simp add: writing_def)
  moreover have "marked (\<lambda>t. wanted st0 f t \<and> t \<notin> insert s D) t (syms (clear_flag SYMBOL_WRITE s st) t)"
    if "valid st t" "\<not> valid st0 t" for t
    using assms that by (cases "t = s") (simp_all add: writing_def marked_def clear_flag_def)
  ultimately show ?thesis using assms v by (simp add: writing_def)
qed

lemma writing_skip:
  assumes "writing st0 U f D st" "valid st s" "\<not> has_flag st s SYMBOL_WRITE"
  shows "writing st0 U f (insert s D) st"
proof -
  have "marked (\<lambda>t. wanted st0 f t \<and> t \<notin> insert s D) t (syms st t)" if "valid st t" "\<not> valid st0 t" for t
    using assms that by (cases "t = s") (simp_all add: writing_def marked_def has_flag_def)
  then show ?thesis using assms by (simp add: writing_def)
qed

lemma bool_not_mod:
  assumes "rankable st U f" "s \<in> U" "\<not> valid st s" "s_type (syms st s) = S_BOOLEAN"
  shows "tri (meaning st f s) \<noteq> Mod"
proof -
  have "type_in mv (syms st s) = S_BOOLEAN" for mv using assms(4) by (simp add: type_in_def)
  then show ?thesis unfolding meaning_solves [OF assms(1-3)] using assms(4)
    by (simp add: value_of_def is_logical_def tristate_of_def Let_def round_up_def)
qed

lemma savable_storable:
  assumes "session U f st0 st" "savable U f st0 x" "m_sym x = Some s" "typed (syms st0 s)"
  shows "storable (s_type (syms st0 s)) (tri (meaning st0 f s)) (val (meaning st0 f s))"
proof -
  have s: "s \<in> U" "allocated st0 s" using assms(2,3) by (auto simp: savable_def)
  have r: "rankable st0 U f" using assms(1) by (simp add: session_def layered_def layerable_def)
  have nv: "\<not> valid st0 s" using session_input(1) [OF assms(1)] s(2) by blast
  show ?thesis
  proof (cases "is_logical (s_type (syms st0 s))")
    case True
    then show ?thesis using bool_not_mod [OF r s(1) nv] by (auto simp: storable_def is_logical_def)
  next
    case False
    then have "is_textual (s_type (syms st0 s))" using assms(4) by (simp add: typed_def)
    then show ?thesis using assms(2,3) by (auto simp: savable_def Let_def storable_def is_textual_def)
  qed
qed

text \<open>One symbol.\<close>

lemma write_symbol_ok:
  assumes "writing st0 U f D st" "savable U f st0 x" "m_sym x = Some s" "f s < n"
  shows "\<exists>st'. write_symbol n s st = Some (pieces_text st0 (if s \<notin> D \<and> typed (syms st0 s) \<and> wanted st0 f s
      then [Saved s (tri (meaning st0 f s)) (val (meaning st0 f s))] else []), st') \<and> writing st0 U f (insert s D) st'"
proof -
  have ses: "session U f st0 st" using assms(1) by (simp add: writing_def)
  have s: "s \<in> U" "allocated st0 s" using assms(2,3) by (auto simp: savable_def)
  obtain name where nm: "known st0 s name" using assms(2,3) by (auto simp: savable_def)
  obtain st1 where 1: "sym_calc_value n s st = Some st1" "session U f st0 st1" "keeps (wanted st0 f) st st1" "valid st1 s"
    using session_calc [OF ses s(1) assms(4)] by blast
  have w1: "writing st0 U f D st1" by (rule writing_keeps [OF assms(1) 1(2,3)])
  have r1: "ready st0 U f {} st1" and r: "ready st0 U f {} st" using 1(2) ses by (simp_all add: session_def)
  note fl = ready_fields [OF r1]
  have nv: "\<not> valid st0 s" using session_input(1) [OF ses] s(2) by blast
  have cur: "s_curr (syms st1 s) = meaning st0 f s" using ready_value [OF r1 1(4)] by simp
  have mk: "marked (\<lambda>t. wanted st0 f t \<and> t \<notin> D) s (syms st1 s)" using w1 1(4) nv by (simp add: writing_def)
  have choice: "\<not> sym_is_choice st s" by (rule ready_fields(9) [OF r])
  let ?ty = "s_type (syms st0 s)" and ?v = "meaning st0 f s"
  show ?thesis
  proof (cases "has_flag st1 s SYMBOL_WRITE")
    case False
    then have "\<not> (s \<notin> D \<and> typed (syms st0 s) \<and> wanted st0 f s)" using mk fl(3) by (auto simp: marked_def typed_def has_flag_def)
    moreover have "write_symbol n s st = Some ([], st1)" using choice 1(1) False by (simp add: write_symbol_def)
    ultimately show ?thesis using writing_skip [OF w1 1(4) False] by auto
  next
    case True
    let ?st2 = "clear_flag SYMBOL_WRITE s st1"
    have w2: "writing st0 U f (insert s D) ?st2" by (rule writing_clear [OF w1 1(4) s(2)])
    have r2: "ready st0 U f {} ?st2" using w2 by (simp add: writing_def session_def)
    have e: "(if ?ty = S_TRISTATE then Option.bind (modules_sym ?st2) (\<lambda>m. sym_calc_value n m ?st2) else Some ?st2) = Some ?st2"
    proof (cases "?ty = S_TRISTATE")
      case True
      then obtain m where m: "modules_sym st0 = Some m" using assms(2,3) by (auto simp: savable_def)
      then have "modules_sym ?st2 = Some m" "valid ?st2 m" using r2 by (auto simp: ready_def same_static_def modules_done_def)
      then show ?thesis using calc_valid assms(4) by simp
    qed simp
    have t2: "s_type (syms ?st2 s) = ?ty" "s_name (syms ?st2 s) = Some name" "sym_get_tristate_value ?st2 s = tri ?v"
      "values_of ?st2 s = ?v" "tab_of ?st2 = tab_of st0"
      using ready_fields(3,7) [OF r2, of s] ready_fields(1) [OF r2] nm cur by (simp_all add: known_def sym_get_tristate_value_def values_of_def)
    define y where "y = sym_get_string_value (tab_of ?st2) (values_of ?st2) s"
    have eq: "write_symbol n s st = Some (symbol_text ?ty name (tri ?v) y, ?st2)"
      using choice 1(1) True e t2(1-3) by (simp add: write_symbol_def y_def Let_def)
    have "symbol_text ?ty name (tri ?v) y = pieces_text st0 (if s \<notin> D \<and> typed (syms st0 s) \<and> wanted st0 f s then [Saved s (tri ?v) (val ?v)] else [])"
    proof (cases "typed (syms st0 s)")
      case False
      then show ?thesis by (auto simp: symbol_text_def typed_def is_logical_def is_textual_def split: symbol_type.split)
    next
      case ty: True
      then have w: "s \<notin> D \<and> wanted st0 f s" using mk True fl(3) by (simp add: marked_def typed_def has_flag_def)
      have "symbol_text ?ty name (tri ?v) y = symbol_text ?ty name (tri ?v) (val ?v)"
        using t2(4,5) by (auto simp: y_def sym_get_string_value_def tab_of_def symbol_text_def split: symbol_type.split)
      also have "\<dots> = symbol_body ?ty name (tri ?v) (val ?v) @ newline"
        by (rule symbol_text_body [OF savable_storable [OF ses assms(2,3) ty]])
      finally show ?thesis using w ty nm by (simp add: pieces_text_def piece_body_def known_def)
    qed
    then show ?thesis using eq w2 by simp
  qed
qed

lemma write_comment_ok:
  assumes "writing st0 U f D st" "savable U f st0 x" "m_sym x = None" "\<And>t. t \<in> U \<Longrightarrow> f t < n"
  shows "\<exists>st'. write_menu n x st = Some (pieces_text st0 (case m_prompt x of
         Some (Own p) \<Rightarrow> if expr_calc_value (tab_of st0) (meaning st0 f) (p_visible p) \<noteq> No
           then map Plain [[], ''#'', ''# '' @ the (p_text p), ''#''] else []
       | _ \<Rightarrow> []), st') \<and> writing st0 U f D st'"
proof (cases "\<exists>p. m_prompt x = Some (Own p)")
  case False
  then have "prompt_of st x = None" using assms(3) by (auto simp: prompt_of_def split: option.split prompt.split)
  then have "write_menu n x st = Some ([], st)" using assms(3) by (simp add: write_menu_def comment_visible_def)
  moreover have "(case m_prompt x of Some (Own p) \<Rightarrow> P p | _ \<Rightarrow> ([] :: piece list)) = []" for P
    using False by (auto split: option.split prompt.split)
  ultimately show ?thesis using assms(1) by simp
next
  case True
  then obtain p where p: "m_prompt x = Some (Own p)" by blast
  then obtain q where q: "p_text p = Some q" "set (opt_symbols (p_visible p)) \<subseteq> U" using assms(2,3) by (auto simp: savable_def)
  have po: "prompt_of st' x = Some p" for st' using p by (simp add: prompt_of_def)
  have ses: "session U f st0 st" and r: "ready st0 U f {} st" using assms(1) by (simp_all add: writing_def session_def)
  let ?t = "expr_calc_value (tab_of st0) (meaning st0 f) (p_visible p)"
  have "yields st0 U f {} st ?t (calc_opt (sym_calc_value n) (p_visible p) st)"
    by (rule sym_calc_value_eval.calc_opt_yields [OF r]) (use q(2) assms(4) in \<open>auto simp: below_def\<close>)
  then obtain st' where st': "calc_opt (sym_calc_value n) (p_visible p) st = Some (?t, st')" "ready st0 U f {} st'" "keeps (wanted st0 f) st st'"
    by (auto simp: yields_def)
  have w: "writing st0 U f D st'" by (rule writing_keeps [OF assms(1) session_keeps [OF ses st'(2,3)] st'(3)])
  have "write_menu n x st = Some (if ?t \<noteq> No then comment_text q else [], st')"
    using assms(3) q(1) by (simp add: write_menu_def comment_visible_def po st'(1) menu_get_prompt_def)
  then show ?thesis using w p q(1) by (simp add: pieces_text_def piece_body_def comment_text_def)
qed

lemma write_menus_ok:
  assumes "\<And>t. t \<in> U \<Longrightarrow> f t < n"
  shows "writing st0 U f D st \<Longrightarrow> \<forall>x \<in> set xs. savable U f st0 x \<Longrightarrow>
    \<exists>st' D'. write_menus n xs st = Some (pieces_text st0 (saved_pieces st0 f D xs), st') \<and> writing st0 U f D' st'"
proof (induction xs arbitrary: D st)
  case Nil
  then show ?case by auto
next
  case (Cons x xs)
  have x: "savable U f st0 x" using Cons(3) by simp
  show ?case
  proof (cases "m_sym x")
    case None
    from write_comment_ok [OF Cons(2) x None assms] obtain st1 where 1: "write_menu n x st = Some (pieces_text st0 (case m_prompt x of
         Some (Own p) \<Rightarrow> if expr_calc_value (tab_of st0) (meaning st0 f) (p_visible p) \<noteq> No
           then map Plain [[], ''#'', ''# '' @ the (p_text p), ''#''] else []
       | _ \<Rightarrow> []), st1)" "writing st0 U f D st1" by blast
    then show ?thesis using Cons(1) [OF 1(2)] Cons(3) None by auto
  next
    case (Some s)
    have "f s < n" using x Some assms by (auto simp: savable_def)
    from write_symbol_ok [OF Cons(2) x Some this] obtain st1 where 1: "write_menu n x st = Some (pieces_text st0
        (if s \<notin> D \<and> typed (syms st0 s) \<and> wanted st0 f s then [Saved s (tri (meaning st0 f s)) (val (meaning st0 f s))] else []), st1)"
      "writing st0 U f (insert s D) st1" using Some by (auto simp: write_menu_def)
    then show ?thesis using Cons(1) [OF 1(2)] Cons(3) Some by auto
  qed
qed

section \<open>The lines\<close>

lemma saved_Cons: "saved_symbols (Saved s t x # ps) = s # saved_symbols ps" "saved_symbols (Plain b # ps) = saved_symbols ps"
  "saved_symbols [] = []" "saved_symbols (ps @ qs) = saved_symbols ps @ saved_symbols qs"
  by (simp_all add: saved_symbols_def)

lemma remark_simps: "remark p \<Longrightarrow> clean p \<Longrightarrow> length p \<le> 1020 \<Longrightarrow> good_piece st (Plain (''# '' @ p))" "good_piece st (Plain [])" "good_piece st (Plain ''#'')"
  by (auto simp: good_piece_def piece_body_def body_def plain_body_def)

lemma saved_plain: "saved_symbols (map Plain bs) = []"
  by (induction bs) (simp_all add: saved_Cons)

text \<open>Which symbols are saved: those of the menus that are to be saved.\<close>

lemma saved_pieces_symbols:
  "distinct (saved_symbols (saved_pieces st f D xs)) \<and> set (saved_symbols (saved_pieces st f D xs))
     = {s. s \<notin> D \<and> (\<exists>x \<in> set xs. m_sym x = Some s) \<and> typed (syms st s) \<and> wanted st f s}"
proof (induction st f D xs rule: saved_pieces.induct)
  case (2 st f D x xs)
  show ?case
  proof (cases "m_sym x")
    case None
    then show ?thesis using 2(1) by (auto simp: saved_Cons saved_plain split: option.split prompt.split)
  next
    case (Some s)
    then show ?thesis using 2(2) by (auto simp: saved_Cons)
  qed
qed (simp add: saved_Cons)

lemma saved_pieces_good:
  assumes "session U f st0 st"
  shows "\<forall>x \<in> set xs. savable U f st0 x \<Longrightarrow> \<forall>p \<in> set (saved_pieces st0 f D xs). good_piece st0 p"
proof (induction xs arbitrary: D)
  case (Cons x xs)
  have x: "savable U f st0 x" using Cons(2) by simp
  show ?case
  proof (cases "m_sym x")
    case None
    have "good_piece st0 p" if "p \<in> set (case m_prompt x of Some (Own p) \<Rightarrow> if b p then map Plain [[], ''#'', ''# '' @ the (p_text p), ''#''] else [] | _ \<Rightarrow> [])"
      for p b using that x None remark_simps by (auto simp: savable_def split: option.splits prompt.splits if_splits)
    then show ?thesis using Cons None by auto
  next
    case (Some s)
    obtain n where n: "known st0 s n" "length (symbol_body (s_type (syms st0 s)) n (tri (meaning st0 f s)) (val (meaning st0 f s))) \<le> 1022"
      using x Some by (auto simp: savable_def Let_def)
    have "good_piece st0 (Saved s (tri (meaning st0 f s)) (val (meaning st0 f s)))" if "typed (syms st0 s)"
    proof -
      note v = savable_storable [OF assms x Some that]
      have "good_name n" "s_name (syms st0 s) = Some n" using n(1) by (simp_all add: known_def)
      then show ?thesis using n v clean_symbol_body [OF v] by (auto simp: good_piece_def piece_body_def body_def)
    qed
    then show ?thesis using Cons Some by auto
  qed
qed simp

text \<open>The values that are saved are those the symbols mean.\<close>

lemma saved_pieces_values: "Saved s t x \<in> set (saved_pieces st f D xs) \<Longrightarrow> t = tri (meaning st f s) \<and> x = val (meaning st f s)"
  by (induction st f D xs rule: saved_pieces.induct) (auto split: option.splits prompt.splits if_splits)

text \<open>The header, with a date that is one line.\<close>

definition header_pieces :: "(string \<Rightarrow> string option) \<Rightarrow> string \<Rightarrow> piece list" where
  "header_pieces getenv date = map Plain ([''#'', ''# Automatically generated make config: don'' @ [CHR 0x27] @ ''t edit'']
     @ (if (case getenv ''KCONFIG_NOTIMESTAMP'' of None \<Rightarrow> True | Some x \<Rightarrow> x = []) then [''# '' @ date] else []) @ [''#''])"

definition plain_date :: "string \<Rightarrow> bool" where
  "plain_date date \<longleftrightarrow> clean date \<and> remark date \<and> length date \<le> 1020"

lemma header_text: "config_header getenv (date @ newline) = pieces_text st (header_pieces getenv date)"
  by (simp add: config_header_def header_pieces_def pieces_text_def piece_body_def Let_def)

lemma header_good: "plain_date date \<Longrightarrow> \<forall>p \<in> set (header_pieces getenv date). good_piece st p"
proof -
  assume d: "plain_date date"
  let ?t = "''Automatically generated make config: don'' @ [CHR 0x27] @ ''t edit''"
  have "good_piece st (Plain (''# '' @ ?t))" by (rule remark_simps(1)) (simp_all add: remark_def newline_def)
  then show ?thesis using remark_simps(1) [of date st] remark_simps(2,3) [of st] d by (auto simp: header_pieces_def plain_date_def)
qed

section \<open>Tables with the same meaning\<close>

text \<open>Two tables whose symbols have the same equations, or at least the same values by their own equations.\<close>

definition same_equations :: "symbol set \<Rightarrow> (symbol \<Rightarrow> nat) \<Rightarrow> ktab \<Rightarrow> ktab \<Rightarrow> bool" where
  "same_equations U f a b \<longleftrightarrow> tab_of b = tab_of a \<and> modules_val b = modules_val a \<and> (\<forall>t \<in> U. valid b t = valid a t
     \<and> (valid a t \<longrightarrow> s_curr (syms b t) = s_curr (syms a t))
     \<and> (\<not> valid a t \<longrightarrow> value_of (tab_of a) (meaning a f) (modules_val a) (syms b t) = value_of (tab_of a) (meaning a f) (modules_val a) (syms a t)
         \<and> s_prop (syms b t) = s_prop (syms a t) \<and> s_rev_expr (syms b t) = s_rev_expr (syms a t)))"

lemma same_approx:
  assumes "same_equations U f a b" "rankable a U f"
  shows "t \<in> U \<Longrightarrow> f t < n \<Longrightarrow> approx n b t = meaning a f t"
proof (induction n arbitrary: t)
  case (Suc n)
  show ?case
  proof (cases "valid a t")
    case True
    then show ?thesis using assms(1) Suc(2) by (simp add: same_equations_def meaning_input)
  next
    case False
    note e = assms(1) [unfolded same_equations_def]
    have rd: "read_symbols (syms b t) = read_symbols (syms a t)" using e Suc(2) False by (simp add: read_symbols_def dep_symbols_def)
    have "approx n b z = meaning a f z" if "z \<in> set (read_symbols (syms b t))" for z
    proof -
      have "z \<in> U" "f z < f t" using assms(2) Suc(2) that rd by (auto simp: rankable_def)
      then show ?thesis using Suc by simp
    qed
    moreover have "wf_prop p" if "p \<in> set (s_prop (syms b t))" for p using assms(2) Suc(2) that e False by (auto simp: rankable_def)
    ultimately have "value_of T (approx n b) mv (syms b t) = value_of T (meaning a f) mv (syms b t)" for T mv
      by (rule value_of_agree(3))
    then show ?thesis using meaning_solves [OF assms(2) Suc(2) False] e Suc(2) False by simp
  qed
qed simp

lemma same_meaning:
  assumes "same_equations U f a b" "rankable a U f" "t \<in> U"
  shows "meaning b f t = meaning a f t"
  using same_approx [OF assms, of "Suc (f t)"] by (simp add: meaning_def del: approx.simps)

lemma same_wanted:
  assumes "same_equations U f a b" "rankable a U f" "t \<in> U" "\<not> valid a t"
    "SYMBOL_AUTO \<in> s_flags (syms b t) \<longleftrightarrow> SYMBOL_AUTO \<in> s_flags (syms a t)"
  shows "wanted b f t = wanted a f t"
proof -
  note e = assms(1) [unfolded same_equations_def]
  have ty: "s_type (syms b t) = s_type (syms a t)" using e unfolding tab_of_def by (metis symtab.ext_inject)
  have p: "s_prop (syms b t) = s_prop (syms a t)" "s_rev_expr (syms b t) = s_rev_expr (syms a t)" using e assms(3,4) by simp_all
  have "meaning b f z = meaning a f z" if "z \<in> set (read_symbols (syms a t))" for z
    using assms(2,3) that by (intro same_meaning [OF assms(1,2)]) (auto simp: rankable_def)
  moreover have "wf_prop q" if "q \<in> set (s_prop (syms a t))" for q using assms(2,3) that by (auto simp: rankable_def)
  ultimately have "write_of T (meaning b f) mv (syms a t) = write_of T (meaning a f) mv (syms a t)" for T mv
    by (rule write_of_agree)
  moreover have "visible_of T v mv (syms b t) = visible_of T v mv (syms a t)" "rev_of T v mv (syms b t) = rev_of T v mv (syms a t)" for T v mv
    by (simp_all add: visible_of_def rev_of_def type_in_def ty p)
  then have "write_of T v mv (syms b t) = write_of T v mv (syms a t)" for T v mv
    unfolding write_of_def ty p assms(5) by simp
  ultimately show ?thesis using e by (simp add: wanted_def)
qed

text \<open>Clearing all symbols starts a session with the same meanings.\<close>

lemma clear_same_session:
  assumes "session U f st0 st" "\<And>t. t \<in> U \<Longrightarrow> f t < n"
  shows "same_equations U f st0 (cleared st) \<and> (\<exists>st1. sym_clear_all_valid n st = Some st1 \<and> session U f (cleared st) st1 \<and> all_marked (cleared st) f st1)"
proof -
  have r: "ready st0 U f {} st" and rk: "rankable st0 U f" and ag: "modules_agree st" and l0: "layerable U f st0"
    using assms(1) by (simp_all add: session_def layered_def layerable_def)
  have k: "static (syms (cleared st) t) = static (syms st0 t)" for t
    using r cleared_facts(1) [of st t] by (simp add: ready_def same_static_def)
  note e = static_fields(1-5) [OF k]
  have fl: "x \<in> s_flags (syms (cleared st) t) \<longleftrightarrow> x \<in> s_flags (syms st0 t)" if "x \<notin> {SYMBOL_VALID, SYMBOL_WRITE, SYMBOL_CHANGED}" for x t
    by (rule static_fields(6) [OF k]) (use that in auto)
  have t: "tab_of (cleared st) = tab_of st0" by (simp add: tab_of_def e fl)
  have mv: "modules_val (cleared st) = modules_val st0" using r by (simp add: cleared_syms ready_def same_static_def)
  have eq: "same_equations U f st0 (cleared st)"
    unfolding same_equations_def
  proof (intro conjI ballI impI)
    fix z assume z: "z \<in> U"
    have v: "valid st0 z \<longleftrightarrow> \<not> allocated st0 z" using l0 z session_input(1) [OF assms(1), of z] by (auto simp: layerable_def)
    have al: "allocated st z = allocated st0 z" by (rule session_input(2) [OF assms(1)])
    have inp: "syms (cleared st) z = syms st0 z" if "\<not> allocated st0 z" using r v that by (simp add: cleared_syms al ready_def)
    have nv: "\<not> valid (cleared st) z" if "allocated st0 z" using that by (simp add: cleared_facts(4) al)
    show "valid (cleared st) z = valid st0 z" using v nv inp by (cases "allocated st0 z") (auto simp: valid_def has_flag_def)
    show "valid st0 z \<Longrightarrow> s_curr (syms (cleared st) z) = s_curr (syms st0 z)" using v inp by simp
  qed (simp_all add: t mv e(4,5) value_of_static [OF k])
  obtain st1 where 1: "sym_clear_all_valid n st = Some st1" "session U f ((cleared st)\<lparr>modules_val := modules_val st1\<rparr>) st1"
    "modules_val st1 = (case modules_sym st of None \<Rightarrow> modules_val st | Some m \<Rightarrow> tri (meaning (cleared st) f m))"
    "all_marked ((cleared st)\<lparr>modules_val := modules_val st1\<rparr>) f st1"
    using clear_session [OF session_layerable [OF assms(1)] ag assms(2)] by blast
  have "modules_val st1 = modules_val (cleared st)"
  proof (cases "modules_sym st")
    case (Some m)
    then have m: "m \<in> U" "valid st m" using r l0 by (auto simp: ready_def same_static_def modules_done_def layerable_def)
    have "tri (meaning (cleared st) f m) = tri (s_curr (syms st m))" using same_meaning [OF eq rk m(1)] ready_value [OF r m(2)] by simp
    then show ?thesis using 1(3) Some ag by (simp add: modules_agree_def cleared_syms)
  qed (use 1(3) in \<open>simp add: cleared_syms\<close>)
  then have "(cleared st)\<lparr>modules_val := modules_val st1\<rparr> = cleared st" by simp
  then show ?thesis using 1 eq by metis
qed

section \<open>The whole file\<close>

lemma same_savable:
  assumes "same_equations U f a b" "rankable a U f" "\<And>t. static (syms b t) = static (syms a t)" "symbol_hash b = symbol_hash a"
    "modules_sym b = modules_sym a" "next_sym b = next_sym a"
  shows "savable U f a x \<Longrightarrow> savable U f b x"
proof -
  assume x: "savable U f a x"
  note k = static_fields(1,2) [OF assms(3)]
  have fl: "y \<in> s_flags (syms b t) \<longleftrightarrow> y \<in> s_flags (syms a t)" if "y \<notin> {SYMBOL_VALID, SYMBOL_WRITE, SYMBOL_CHANGED}" for y t
    by (rule static_fields(6) [OF assms(3)]) (use that in auto)
  have "alike a b" by (simp add: alike_def k assms(4) fl)
  note kn = alike_known [OF this]
  have al: "allocated b t = allocated a t" for t by (simp add: allocated_def k assms(6))
  show ?thesis
  proof (cases "m_sym x")
    case None
    then show ?thesis using x by (simp add: savable_def)
  next
    case (Some s)
    then have "meaning b f s = meaning a f s" using x same_meaning [OF assms(1,2)] by (simp add: savable_def)
    then show ?thesis using x Some by (simp add: savable_def al kn k assms(5) Let_def)
  qed
qed

lemma same_pieces:
  assumes "same_equations U f a b" "rankable a U f" "\<And>t. allocated a t \<Longrightarrow> \<not> valid a t"
    "\<And>t. SYMBOL_AUTO \<in> s_flags (syms b t) \<longleftrightarrow> SYMBOL_AUTO \<in> s_flags (syms a t)"
  shows "\<forall>x \<in> set xs. savable U f a x \<Longrightarrow> saved_pieces b f D xs = saved_pieces a f D xs"
proof (induction xs arbitrary: D)
  case (Cons x xs)
  note e = assms(1) [unfolded same_equations_def]
  have ty: "typed (syms b t) = typed (syms a t)" for t using e unfolding tab_of_def typed_def by (metis symtab.ext_inject)
  show ?case
  proof (cases "m_sym x")
    case None
    have "expr_calc_value (tab_of b) (meaning b f) (p_visible p) = expr_calc_value (tab_of a) (meaning a f) (p_visible p)"
      if "m_prompt x = Some (Own p)" for p
    proof -
      have "set (opt_symbols (p_visible p)) \<subseteq> U" using Cons(2) None that by (auto simp: savable_def)
      then show ?thesis using e same_meaning [OF assms(1,2)] by (auto intro!: calc_opt_agree)
    qed
    then show ?thesis using Cons None by (auto split: option.split prompt.split)
  next
    case (Some s)
    then have s: "s \<in> U" "allocated a s" using Cons(2) by (auto simp: savable_def)
    then show ?thesis using Cons Some ty same_meaning [OF assms(1,2) s(1)] same_wanted [OF assms(1,2) s(1) assms(3) assms(4)] by auto
  qed
qed simp

lemma same_text:
  assumes "\<And>t. s_name (syms b t) = s_name (syms a t)" "\<And>t. s_type (syms b t) = s_type (syms a t)"
  shows "pieces_text b ps = pieces_text a ps"
proof -
  have "piece_body b p = piece_body a p" for p by (cases p) (simp_all add: piece_body_def assms)
  then show ?thesis by (simp add: pieces_text_def)
qed

lemma config_text_in_session:
  assumes "session U f st0 st" "all_marked st0 f st" "\<And>t. t \<in> U \<Longrightarrow> f t < n" "known st v ''BR2_VERSION''" "v \<in> U"
    "walk ms (m_list (node ms 0)) = Some l" "\<forall>x \<in> set l. savable U f st0 (node ms x)" "symbol_hash st0 = symbol_hash st"
  shows "\<exists>st'. config_text n getenv (date @ newline) ms st
    = Some (pieces_text st0 (header_pieces getenv date @ saved_pieces st0 f {} (map (node ms) l)), st')"
proof -
  have rk: "rankable st0 U f" using assms(1) by (simp add: session_def layered_def layerable_def)
  let ?xs = "map (node ms) l"
  have sv: "\<forall>x \<in> set ?xs. savable U f st0 x" using assms(7) by simp
  obtain st1 where 1: "sym_calc_value n v st = Some st1" "session U f st0 st1" "keeps (wanted st0 f) st st1"
    using session_calc [OF assms(1,5) assms(3) [OF assms(5)]] by blast
  have m1: "all_marked st0 f st1" by (rule all_marked_keeps [OF assms(2) 1(3)])
  have g1: "symbol_hash st1 = symbol_hash st0" "change_count st1 = change_count st"
    using sym_calc_value_steady [OF 1(1)] assms(8) by (simp_all add: steady_def globals_def)
  note lk = known_lookup [OF assms(4)]
  have hd: "config_header getenv (date @ newline) = pieces_text st0 (header_pieces getenv date)" by (rule header_text)
  show ?thesis
  proof (cases "change_count st = 0")
    case False
    obtain st2 where "write_menus n ?xs st1 = Some (pieces_text st0 (saved_pieces st0 f {} ?xs), st2)"
      using write_menus_ok [OF assms(3) writing_start [OF 1(2) m1] sv] by blast
    then show ?thesis using False by (simp add: config_text_def lk 1(1) g1(2) assms(6) hd)
  next
    case True
    let ?c = "cleared st1"
    from clear_same_session [OF 1(2) assms(3)] obtain st2 where 2: "same_equations U f st0 ?c" "sym_clear_all_valid n st1 = Some st2"
      "session U f ?c st2" "all_marked ?c f st2" by blast
    have r1: "ready st0 U f {} st1" using 1(2) by (simp add: session_def)
    have k: "static (syms ?c t) = static (syms st0 t)" for t using r1 cleared_facts(1) [of st1 t] by (simp add: ready_def same_static_def)
    have "symbol_hash ?c = symbol_hash st0" "modules_sym ?c = modules_sym st0" "next_sym ?c = next_sym st0"
      using g1 r1 by (simp_all add: cleared_def all_symbols_def ready_def same_static_def)
    note sc = same_savable [OF 2(1) rk k this]
    obtain st3 where w: "write_menus n ?xs st2 = Some (pieces_text ?c (saved_pieces ?c f {} ?xs), st3)"
      using write_menus_ok [OF assms(3) writing_start [OF 2(3,4)], of ?xs] sv sc by blast
    have au: "SYMBOL_AUTO \<in> s_flags (syms ?c t) \<longleftrightarrow> SYMBOL_AUTO \<in> s_flags (syms st0 t)" for t by (rule static_fields(6) [OF k]) auto
    have na: "allocated st0 t \<Longrightarrow> \<not> valid st0 t" for t using assms(1) by (simp add: session_def layered_def)
    have "pieces_text ?c (saved_pieces ?c f {} ?xs) = pieces_text st0 (saved_pieces st0 f {} ?xs)"
      using same_pieces [OF 2(1) rk na au sv] same_text [OF static_fields(1) [OF k] static_fields(2) [OF k]] by simp
    then show ?thesis using True w 2(2) by (simp add: config_text_def lk 1(1) g1(2) assms(6) hd)
  qed
qed

text \<open>Claim C25. Writing the configuration in a session returns, and the text is the header followed by the comments that are visible
  and by one line for each symbol of the menus that is to be saved, with the value the symbol means: symbols that are visible,
  selected or have a default, and whose value does not come from the environment. This is so whether or not all symbols are evaluated
  anew (\<^verbatim>\<open>sym_clear_all_valid\<close>) before.\<close>

theorem config_text_saves:
  assumes "session U f st0 st" "all_marked st0 f st" "\<And>t. t \<in> U \<Longrightarrow> f t < n" "known st v ''BR2_VERSION''" "v \<in> U"
    "walk ms (m_list (node ms 0)) = Some l" "\<forall>x \<in> set l. savable U f st0 (node ms x)" "symbol_hash st0 = symbol_hash st"
  shows "\<exists>st'. config_text n getenv (date @ newline) ms st
    = Some (pieces_text st0 (header_pieces getenv date @ saved_pieces st0 f {} (map (node ms) l)), st')"
  by (rule config_text_in_session [OF assms(1,2)]) (use assms(3-8) in simp_all)

end
