(* ===== verification/KConfReload.thy ===== *)
theory KConfReload
  imports KConfSave
begin

text \<open>
  Reading back what was saved: every symbol gets the value it had, and \<^verbatim>\<open>conf_read\<close> finds nothing that would have to be saved again.
\<close>

section \<open>A value that was saved and read\<close>

lemmas tristate_simps = EXPR_OR_def EXPR_AND_def less_eq_tristate_def less_tristate_def tri_num_def

lemma saved_tristate:
  assumes "V = round_up b (EXPR_OR x r)" "V \<le> EXPR_OR vis r"
  shows "round_up b (EXPR_OR (EXPR_AND V vis) r) = V"
  using assms by (cases x; cases r; cases vis; cases b) (auto simp: round_up_def tristate_simps)

text \<open>A value is not above the visibility and the reverse dependency, unless it is a default of a tristate symbol.\<close>

definition default_fits :: "symtab \<Rightarrow> (symbol \<Rightarrow> symbol_value) \<Rightarrow> tristate \<Rightarrow> ksym \<Rightarrow> bool" where
  "default_fits T v mv k \<longleftrightarrow> s_type k \<noteq> S_TRISTATE \<or> SYMBOL_DEF_USER \<in> s_flags k \<or> visible_of T v mv k = No
     \<or> default_of T v k \<le> EXPR_OR (visible_of T v mv k) (rev_of T v mv k)"

lemma value_bound:
  assumes "is_logical (s_type k)" "visible_of T v mv k \<noteq> No" "default_fits T v mv k"
  shows "tristate_of T v mv k \<le> EXPR_OR (visible_of T v mv k) (rev_of T v mv k)"
proof (cases "type_in mv k = S_BOOLEAN")
  case True
  then have "s_type k \<noteq> S_TRISTATE \<or> mv = No" by (auto simp: type_in_def split: if_splits)
  then have "visible_of T v mv k = Yes" using assms(2) by (cases "prompts_of T v (s_prop k) No") (auto simp: visible_of_def round_up_def)
  then show ?thesis by (cases "tristate_of T v mv k"; cases "rev_of T v mv k") (auto simp: tristate_simps)
next
  case False
  then have ty: "s_type k = S_TRISTATE" using assms(1) by (auto simp: type_in_def is_logical_def split: if_splits)
  let ?vis = "visible_of T v mv k" and ?r = "rev_of T v mv k"
  have V: "tristate_of T v mv k = EXPR_OR (if SYMBOL_DEF_USER \<in> s_flags k then EXPR_AND (u_tri (s_user k)) ?vis else default_of T v k) ?r"
    using False assms(2) by (simp add: tristate_of_def Let_def round_up_def)
  have b: "x \<le> EXPR_OR vis r \<Longrightarrow> EXPR_OR x r \<le> EXPR_OR vis r" "EXPR_AND u vis \<le> EXPR_OR vis r" for x u vis r
    by (cases x; cases vis; cases r; cases u; auto simp: tristate_simps)+
  show ?thesis unfolding V using assms(2,3) ty by (auto simp: default_fits_def intro: b)
qed

text \<open>A number is in the range of its symbol.\<close>

definition in_range :: "symtab \<Rightarrow> (symbol \<Rightarrow> symbol_value) \<Rightarrow> ksym \<Rightarrow> string \<Rightarrow> bool" where
  "in_range T v k x \<longleftrightarrow> s_type k \<noteq> S_INT \<and> s_type k \<noteq> S_HEX \<or> (case first_of T v P_RANGE (s_prop k) of None \<Rightarrow> True
     | Some (p, _) \<Rightarrow> (case range_ends p of None \<Rightarrow> True
         | Some (l, r) \<Rightarrow> (let base = range_base (s_type k) 0; cur = to_int (c_strtol base x) in
             bound_of T v base l \<le> cur \<and> cur \<le> bound_of T v base r)))"

lemma clamp_in_range: "in_range T v k x \<Longrightarrow> clamp_of T v k x = x"
  by (auto simp: in_range_def clamp_of_def Let_def split: option.splits)

text \<open>The symbol \<open>k'\<close> has the value of \<open>k\<close> as its user value, where that counts.\<close>

lemma restored_value:
  assumes same: "s_name k' = s_name k" "s_type k' = s_type k" "s_prop k' = s_prop k" "s_rev_expr k' = s_rev_expr k"
    and V: "V = value_of T v mv k" and fits: "default_fits T v mv k" "in_range T v k (val V)"
    and user: "typed k \<Longrightarrow> visible_of T v mv k \<noteq> No \<Longrightarrow> SYMBOL_DEF_USER \<in> s_flags k' \<and> (is_logical (s_type k) \<longrightarrow> u_tri (s_user k') = tri V)
      \<and> (is_textual (s_type k) \<longrightarrow> u_val (s_user k') = Some (val V))"
  shows "value_of T v mv k' = V"
proof -
  have e: "visible_of T v mv k' = visible_of T v mv k" "rev_of T v mv k' = rev_of T v mv k" "default_of T v k' = default_of T v k"
    "clamp_of T v k' x = clamp_of T v k x" "type_in mv k' = type_in mv k" for x
    unfolding visible_of_def rev_of_def default_of_def clamp_of_def type_in_def same by (rule refl)+
  consider "is_logical (s_type k)" | "\<not> is_logical (s_type k)" "is_textual (s_type k)" | "\<not> typed k" by (auto simp: typed_def)
  then show ?thesis
  proof cases
    case 1
    then have t: "tri V = tristate_of T v mv k" by (simp add: V value_of_def)
    have "tristate_of T v mv k' = tri V"
    proof (cases "visible_of T v mv k = No")
      case True
      then show ?thesis by (simp add: t tristate_of_def e)
    next
      case False
      have "round_up (type_in mv k = S_BOOLEAN) (EXPR_OR (EXPR_AND (tri V) (visible_of T v mv k)) (rev_of T v mv k)) = tri V"
        by (rule saved_tristate [OF t [unfolded tristate_of_def Let_def] value_bound [OF 1 False fits(1), folded t]])
      then show ?thesis using False user 1 by (simp add: tristate_of_def Let_def e typed_def)
    qed
    then show ?thesis using 1 by (simp add: V value_of_def same)
  next
    case 2
    then have x: "val V = clamp_of T v k (string_of T v mv k)" by (simp add: V value_of_def)
    have "clamp_of T v k (string_of T v mv k') = val V"
    proof (cases "visible_of T v mv k = No")
      case True
      then show ?thesis by (simp add: x string_of_def e same)
    next
      case False
      then have "string_of T v mv k' = val V" using user 2 by (simp add: string_of_def e typed_def)
      then show ?thesis by (simp add: clamp_in_range [OF fits(2)])
    qed
    then show ?thesis using 2 by (simp add: V value_of_def same e)
  next
    case 3
    then show ?thesis by (simp add: V value_of_def same typed_def)
  qed
qed

section \<open>The table that is read into\<close>

text \<open>A table for the same configuration language files, whatever the user's values in it.\<close>

definition same_kconfig :: "ktab \<Rightarrow> ktab \<Rightarrow> bool" where
  "same_kconfig a r \<longleftrightarrow> symbol_hash r = symbol_hash a \<and> modules_sym r = modules_sym a \<and> next_sym r = next_sym a \<and> modules_agree r
     \<and> (modules_sym a = None \<longrightarrow> modules_val r = modules_val a)
     \<and> (\<forall>t. s_name (syms r t) = s_name (syms a t) \<and> s_type (syms r t) = s_type (syms a t) \<and> s_prop (syms r t) = s_prop (syms a t)
         \<and> s_rev_expr (syms r t) = s_rev_expr (syms a t)
         \<and> (\<forall>x \<in> {SYMBOL_CONST, SYMBOL_CHOICE, SYMBOL_CHOICEVAL, SYMBOL_AUTO}. x \<in> s_flags (syms r t) \<longleftrightarrow> x \<in> s_flags (syms a t))
         \<and> (\<not> allocated a t \<longrightarrow> syms r t = syms a t) \<and> (\<not> typed (syms a t) \<longrightarrow> \<not> has_flag r t SYMBOL_WRITE))"

definition forgotten :: "ktab \<Rightarrow> ktab" where
  "forgotten r = all_symbols (forget S_DEF_USER) r"

definition loaded :: "piece list \<Rightarrow> ktab \<Rightarrow> ktab" where
  "loaded ps r = restore S_DEF_USER ps (forgotten r)"

lemma forget_user: "forget S_DEF_USER k = k\<lparr>s_user := no_user, s_flags := (let flags = insert SYMBOL_CHANGED (s_flags k) - {SYMBOL_DEF_USER, SYMBOL_VALID} in
    if SYMBOL_CHOICE \<in> flags then insert SYMBOL_DEF_USER flags else flags)\<rparr>"
  by (simp add: forget_def upd_def_def def_flag_def Let_def)

lemma store_user: "syms (store S_DEF_USER s t x st) s = (syms st s)\<lparr>s_user := (if is_logical (s_type (syms st s)) then (s_user (syms st s))\<lparr>u_tri := t\<rparr>
    else (s_user (syms st s))\<lparr>u_val := Some x\<rparr>), s_flags := insert SYMBOL_DEF_USER (s_flags (syms st s))\<rparr>"
  by (simp add: store_syms upd_def_def def_flag_def)

lemma saved_in: "s \<in> set (saved_symbols ps) \<Longrightarrow> \<exists>t x. Saved s t x \<in> set ps"
  by (force simp: saved_symbols_def split: piece.splits)

lemma loaded_syms:
  assumes "distinct (saved_symbols ps)"
  shows "s \<notin> set (saved_symbols ps) \<Longrightarrow> syms (loaded ps r) s = syms (forgotten r) s"
    "Saved s t x \<in> set ps \<Longrightarrow> syms (loaded ps r) s = syms (store S_DEF_USER s t x (forgotten r)) s"
  using restore_other restore_saved [OF assms] by (simp_all add: loaded_def)

lemma loaded_same:
  assumes "same_kconfig a r" "distinct (saved_symbols ps)"
  shows "s_name (syms (loaded ps r) t) = s_name (syms a t)" "s_type (syms (loaded ps r) t) = s_type (syms a t)"
    "s_prop (syms (loaded ps r) t) = s_prop (syms a t)" "s_rev_expr (syms (loaded ps r) t) = s_rev_expr (syms a t)"
    "x \<in> {SYMBOL_CONST, SYMBOL_CHOICE, SYMBOL_CHOICEVAL, SYMBOL_AUTO} \<Longrightarrow> x \<in> s_flags (syms (loaded ps r) t) \<longleftrightarrow> x \<in> s_flags (syms a t)"
    "allocated a t \<Longrightarrow> \<not> valid (loaded ps r) t" "s_curr (syms (loaded ps r) t) = s_curr (syms r t)"
    "\<not> typed (syms a t) \<Longrightarrow> \<not> has_flag (loaded ps r) t SYMBOL_WRITE"
proof -
  note sk = assms(1) [unfolded same_kconfig_def]
  have al: "allocated r t = allocated a t" for t using sk by (simp add: allocated_def)
  have f: "syms (forgotten r) t = (if allocated a t then forget S_DEF_USER (syms r t) else syms r t)" for t
    by (simp add: forgotten_def all_symbols_syms al)
  have "s_name (syms (forgotten r) t) = s_name (syms a t) \<and> s_type (syms (forgotten r) t) = s_type (syms a t) \<and>
    s_prop (syms (forgotten r) t) = s_prop (syms a t) \<and> s_rev_expr (syms (forgotten r) t) = s_rev_expr (syms a t) \<and>
    (x \<in> {SYMBOL_CONST, SYMBOL_CHOICE, SYMBOL_CHOICEVAL, SYMBOL_AUTO} \<longrightarrow> (x \<in> s_flags (syms (forgotten r) t) \<longleftrightarrow> x \<in> s_flags (syms a t))) \<and>
    (allocated a t \<longrightarrow> \<not> valid (forgotten r) t) \<and> s_curr (syms (forgotten r) t) = s_curr (syms r t) \<and>
    (\<not> typed (syms a t) \<longrightarrow> \<not> has_flag (forgotten r) t SYMBOL_WRITE)" for t x
    using sk by (auto simp: f forget_user Let_def valid_def has_flag_def)
  note F = this
  have "\<exists>k. syms (loaded ps r) t = k \<and> (k = syms (forgotten r) t \<or> (\<exists>u. k = (syms (forgotten r) t)\<lparr>s_user := u,
      s_flags := insert SYMBOL_DEF_USER (s_flags (syms (forgotten r) t))\<rparr>))"
  proof (cases "t \<in> set (saved_symbols ps)")
    case False
    then show ?thesis using loaded_syms(1) [OF assms(2)] by simp
  next
    case True
    then obtain u x where "Saved t u x \<in> set ps" using saved_in by blast
    then show ?thesis using loaded_syms(2) [OF assms(2)] store_user by metis
  qed
  then have "syms (loaded ps r) t = syms (forgotten r) t \<or> (\<exists>u. syms (loaded ps r) t = (syms (forgotten r) t)\<lparr>s_user := u,
      s_flags := insert SYMBOL_DEF_USER (s_flags (syms (forgotten r) t))\<rparr>)" by blast
  then have G: "s_name (syms (loaded ps r) t) = s_name (syms (forgotten r) t) \<and> s_type (syms (loaded ps r) t) = s_type (syms (forgotten r) t)
    \<and> s_prop (syms (loaded ps r) t) = s_prop (syms (forgotten r) t) \<and> s_rev_expr (syms (loaded ps r) t) = s_rev_expr (syms (forgotten r) t)
    \<and> s_curr (syms (loaded ps r) t) = s_curr (syms (forgotten r) t)
    \<and> (\<forall>y. y \<noteq> SYMBOL_DEF_USER \<longrightarrow> (y \<in> s_flags (syms (loaded ps r) t) \<longleftrightarrow> y \<in> s_flags (syms (forgotten r) t)))"
    by (elim disjE exE) simp_all
  then show "s_name (syms (loaded ps r) t) = s_name (syms a t)" "s_type (syms (loaded ps r) t) = s_type (syms a t)"
    "s_prop (syms (loaded ps r) t) = s_prop (syms a t)" "s_rev_expr (syms (loaded ps r) t) = s_rev_expr (syms a t)"
    "x \<in> {SYMBOL_CONST, SYMBOL_CHOICE, SYMBOL_CHOICEVAL, SYMBOL_AUTO} \<Longrightarrow> x \<in> s_flags (syms (loaded ps r) t) \<longleftrightarrow> x \<in> s_flags (syms a t)"
    "allocated a t \<Longrightarrow> \<not> valid (loaded ps r) t" "s_curr (syms (loaded ps r) t) = s_curr (syms r t)"
    "\<not> typed (syms a t) \<Longrightarrow> \<not> has_flag (loaded ps r) t SYMBOL_WRITE"
    using F [of t x] by (simp_all add: valid_def has_flag_def) (elim disjE, simp_all)
qed

lemma loaded_input:
  assumes "same_kconfig a r" "distinct (saved_symbols ps)" "\<forall>s \<in> set (saved_symbols ps). allocated a s" "\<not> allocated a t"
  shows "syms (loaded ps r) t = syms a t"
proof -
  have "t \<notin> set (saved_symbols ps)" using assms(3,4) by blast
  moreover have "allocated r t = allocated a t" using assms(1) by (simp add: same_kconfig_def allocated_def)
  ultimately show ?thesis using loaded_syms(1) [OF assms(2)] assms(1,4) by (simp add: forgotten_def all_symbols_syms same_kconfig_def)
qed

lemma loaded_user:
  assumes "same_kconfig a r" "distinct (saved_symbols ps)" "Saved s t x \<in> set ps"
  shows "SYMBOL_DEF_USER \<in> s_flags (syms (loaded ps r) s)" "is_logical (s_type (syms a s)) \<Longrightarrow> u_tri (s_user (syms (loaded ps r) s)) = t"
    "\<not> is_logical (s_type (syms a s)) \<Longrightarrow> u_val (s_user (syms (loaded ps r) s)) = Some x"
proof -
  have "s_type (syms (forgotten r) s) = s_type (syms a s)"
    using assms(1) by (simp add: forgotten_def all_symbols_syms same_kconfig_def forget_user)
  then show "SYMBOL_DEF_USER \<in> s_flags (syms (loaded ps r) s)" "is_logical (s_type (syms a s)) \<Longrightarrow> u_tri (s_user (syms (loaded ps r) s)) = t"
    "\<not> is_logical (s_type (syms a s)) \<Longrightarrow> u_val (s_user (syms (loaded ps r) s)) = Some x"
    using loaded_syms(2) [OF assms(2,3)] by (simp_all add: store_user)
qed

lemma loaded_not_user:
  assumes "same_kconfig a r" "distinct (saved_symbols ps)" "s \<notin> set (saved_symbols ps)" "allocated a s" "plain a"
  shows "SYMBOL_DEF_USER \<notin> s_flags (syms (loaded ps r) s)"
proof -
  have "allocated r s" "SYMBOL_CHOICE \<notin> s_flags (syms r s)" using assms(1,4,5) by (simp_all add: same_kconfig_def allocated_def plain_def)
  then show ?thesis using loaded_syms(1) [OF assms(2,3)] by (simp add: forgotten_def all_symbols_syms forget_user Let_def)
qed

section \<open>What has to be so\<close>

text \<open>A symbol whose value survives: it is in a menu (if it has a type and its value does not come from the environment), a value from the
  environment is not asked for, a number is in its range, and the default of a tristate symbol is not above its visibility.\<close>

definition reloadable :: "menu list \<Rightarrow> (symbol \<Rightarrow> nat) \<Rightarrow> ktab \<Rightarrow> symbol \<Rightarrow> bool" where
  "reloadable xs f a t \<longleftrightarrow> default_fits (tab_of a) (meaning a f) (modules_val a) (syms a t)
     \<and> in_range (tab_of a) (meaning a f) (syms a t) (val (meaning a f t))
     \<and> (if SYMBOL_AUTO \<in> s_flags (syms a t) then \<forall>p \<in> set (s_prop (syms a t)). p_text p = None
        else typed (syms a t) \<longrightarrow> Some t \<in> m_sym ` set xs)"

lemma no_prompt: "\<forall>p \<in> set ps. p_text p = None \<Longrightarrow> prompts_of T v ps t = t"
  by (induction ps arbitrary: t) auto

text \<open>The pieces that save the values of \<open>a\<close>.\<close>

definition saves :: "menu list \<Rightarrow> (symbol \<Rightarrow> nat) \<Rightarrow> ktab \<Rightarrow> piece list \<Rightarrow> bool" where
  "saves xs f a ps \<longleftrightarrow> distinct (saved_symbols ps) \<and> (\<forall>p \<in> set ps. good_piece a p)
     \<and> set (saved_symbols ps) = {s. Some s \<in> m_sym ` set xs \<and> typed (syms a s) \<and> wanted a f s}
     \<and> (\<forall>s \<in> set (saved_symbols ps). allocated a s)
     \<and> (\<forall>s t x. Saved s t x \<in> set ps \<longrightarrow> t = tri (meaning a f s) \<and> x = val (meaning a f s))"

lemma saves_pieces:
  assumes "session U f a st" "\<forall>x \<in> set xs. savable U f a x" "plain_date date"
  shows "saves xs f a (header_pieces getenv date @ saved_pieces a f {} xs)"
proof -
  let ?h = "header_pieces getenv date" and ?p = "saved_pieces a f {} xs"
  have h: "saved_symbols ?h = []" by (simp only: header_pieces_def saved_plain)
  then have nh: "Saved s t x \<notin> set ?h" for s t x by (force simp: saved_symbols_def)
  note s = saved_pieces_symbols [of a f "{}" xs]
  have "m_sym x = Some s \<Longrightarrow> x \<in> set xs \<Longrightarrow> allocated a s" for s x using assms(2) by (auto simp: savable_def)
  moreover have "(\<exists>x \<in> set xs. m_sym x = Some s) \<longleftrightarrow> Some s \<in> m_sym ` set xs" for s by (metis (no_types, lifting) image_iff)
  ultimately show ?thesis
    using s h nh saved_pieces_values header_good [OF assms(3)] saved_pieces_good [OF assms(1,2)] by (auto simp: saves_def saved_Cons)
qed

lemma wanted_visible:
  assumes "reloadable xs f a t" "visible_of (tab_of a) (meaning a f) (modules_val a) (syms a t) \<noteq> No" "typed (syms a t)"
  shows "wanted a f t" "Some t \<in> m_sym ` set xs"
proof -
  have n: "SYMBOL_AUTO \<notin> s_flags (syms a t)"
  proof
    assume "SYMBOL_AUTO \<in> s_flags (syms a t)"
    then have "prompts_of T v (s_prop (syms a t)) No = No" for T v using assms(1) by (simp add: reloadable_def no_prompt)
    then show False using assms(2) by (simp add: visible_of_def round_up_def)
  qed
  then show "wanted a f t" "Some t \<in> m_sym ` set xs" using assms by (simp_all add: wanted_def write_of_def reloadable_def)
qed

section \<open>The session after reading\<close>

lemma loaded_frame: "next_sym (loaded ps r) = next_sym r" "symbol_hash (loaded ps r) = symbol_hash r" "modules_sym (loaded ps r) = modules_sym r"
  "modules_val (loaded ps r) = modules_val r" "change_count (loaded ps r) = change_count r"
  by (simp_all add: loaded_def restore_frame forgotten_def all_symbols_def)

lemma loaded_layered:
  assumes "session U f a st" "same_kconfig a r" "saves xs f a ps"
  shows "layered U f (loaded ps r)"
proof -
  have l: "layerable U f a" and pl: "plain a" using assms(1) by (simp_all add: session_def layered_def layerable_def rankable_def)
  have d: "distinct (saved_symbols ps)" and al: "\<forall>s \<in> set (saved_symbols ps). allocated a s" using assms(3) by (simp_all add: saves_def)
  note e = loaded_same [OF assms(2) d]
  have pb: "plain (loaded ps r)" using pl by (simp add: plain_def e(5))
  have "valid (loaded ps r) t" if "valid a t" "\<not> allocated a t" for t
    using that loaded_input [OF assms(2) d al that(2)] by (simp add: valid_def has_flag_def)
  then have "layerable U f (loaded ps r)"
    using assms(2) by (intro layerable_static [OF l]) (auto simp: e(2-4) pb loaded_frame same_kconfig_def)
  moreover have "allocated (loaded ps r) t = allocated a t" for t
    using assms(2) by (simp add: allocated_def e(2) loaded_frame same_kconfig_def)
  ultimately show ?thesis using e(6) by (simp add: layered_def)
qed

lemma loaded_equations:
  assumes "session U f a st" "same_kconfig a r" "saves xs f a ps" "\<forall>t \<in> U. allocated a t \<longrightarrow> reloadable xs f a t"
  shows "same_equations U f a ((loaded ps r)\<lparr>modules_val := modules_val a\<rparr>)"
proof -
  have l: "layerable U f a" and rk: "rankable a U f" using assms(1) by (simp_all add: session_def layered_def layerable_def)
  have d: "distinct (saved_symbols ps)" and al: "\<forall>s \<in> set (saved_symbols ps). allocated a s" using assms(3) by (simp_all add: saves_def)
  note e = loaded_same [OF assms(2) d] and inp = loaded_input [OF assms(2) d al]
  let ?b = "loaded ps r"
  have t: "tab_of (?b\<lparr>modules_val := modules_val a\<rparr>) = tab_of a" using e(1,2,5) by (simp add: tab_of_def)
  have val: "valid a z \<longleftrightarrow> \<not> allocated a z" if "z \<in> U" for z using l that session_input(1) [OF assms(1)] by (auto simp: layerable_def)
  have "value_of (tab_of a) (meaning a f) (modules_val a) (syms ?b z) = meaning a f z" if z: "z \<in> U" "\<not> valid a z" for z
  proof -
    have az: "allocated a z" using val z by simp
    then have rl: "reloadable xs f a z" using assms(4) z by simp
    have "SYMBOL_DEF_USER \<in> s_flags (syms ?b z) \<and> (is_logical (s_type (syms a z)) \<longrightarrow> u_tri (s_user (syms ?b z)) = tri (meaning a f z))
      \<and> (is_textual (s_type (syms a z)) \<longrightarrow> u_val (s_user (syms ?b z)) = Some (val (meaning a f z)))"
      if ty: "typed (syms a z)" and vis: "visible_of (tab_of a) (meaning a f) (modules_val a) (syms a z) \<noteq> No"
    proof -
      have "z \<in> set (saved_symbols ps)" using wanted_visible [OF rl vis ty] ty assms(3) by (simp add: saves_def)
      then obtain u x where s: "Saved z u x \<in> set ps" using saved_in by blast
      then have "u = tri (meaning a f z)" "x = val (meaning a f z)" using assms(3) by (auto simp: saves_def)
      then show ?thesis using loaded_user [OF assms(2) d s] textual_not_logical by simp
    qed
    then show ?thesis using rl meaning_solves [OF rk z]
      by (intro restored_value [OF e(1-4)]) (simp_all add: reloadable_def)
  qed
  moreover have "valid ?b z = valid a z" if "z \<in> U" for z
    using val [OF that] e(6) [of z] inp [of z] by (cases "allocated a z") (simp_all add: valid_def has_flag_def)
  moreover have "s_curr (syms ?b z) = s_curr (syms a z)" if "z \<in> U" "valid a z" for z using val that inp [of z] by simp
  ultimately show ?thesis unfolding same_equations_def using t meaning_solves [OF rk] e(3,4) by auto
qed

lemma reload_session:
  assumes "session U f a st" "same_kconfig a r" "saves xs f a ps" "\<forall>t \<in> U. allocated a t \<longrightarrow> reloadable xs f a t" "\<And>t. t \<in> U \<Longrightarrow> f t < n"
  shows "\<exists>b st1. (case modules_sym (loaded ps r) of None \<Rightarrow> Some (loaded ps r) | Some m \<Rightarrow> sym_calc_value n m (loaded ps r)) = Some st1
    \<and> b = (loaded ps r)\<lparr>modules_val := modules_val a\<rparr> \<and> session U f b st1 \<and> all_marked b f st1 \<and> same_equations U f a b"
proof -
  let ?b = "loaded ps r"
  have l: "layerable U f a" and rk: "rankable a U f" and rd: "ready a U f {} st" and ag: "modules_agree st"
    using assms(1) by (simp_all add: session_def layered_def layerable_def)
  have d: "distinct (saved_symbols ps)" using assms(3) by (simp add: saves_def)
  note lb = loaded_layered [OF assms(1-3)] and eq = loaded_equations [OF assms(1-4)] and e = loaded_same [OF assms(2) d]
  have "modules_agree ?b" using assms(2) by (simp add: modules_agree_def loaded_frame same_kconfig_def e(7))
  from begin_session [OF lb this assms(5)] obtain st1 where
    1: "(case modules_sym ?b of None \<Rightarrow> Some ?b | Some m \<Rightarrow> sym_calc_value n m ?b) = Some st1"
    "session U f (?b\<lparr>modules_val := modules_val st1\<rparr>) st1"
    "modules_val st1 = (case modules_sym ?b of None \<Rightarrow> modules_val ?b | Some m \<Rightarrow> tri (meaning ?b f m))"
    "all_marked (?b\<lparr>modules_val := modules_val st1\<rparr>) f st1" by blast
  have "modules_val st1 = modules_val a"
  proof (cases "modules_sym a")
    case None
    then show ?thesis using 1(3) assms(2) by (simp add: loaded_frame same_kconfig_def)
  next
    case (Some m)
    have ms: "modules_sym ?b = Some m" using Some assms(2) by (simp add: loaded_frame same_kconfig_def)
    have m: "m \<in> U" "\<And>t. t \<in> U \<Longrightarrow> f t \<le> f m \<Longrightarrow> s_type (syms ?b t) \<noteq> S_TRISTATE" "valid st m" "modules_sym st = Some m"
      using l rd Some e(2) by (auto simp: layerable_def ready_def same_static_def modules_done_def)
    have "rankable ?b U f" using lb by (simp add: layered_def layerable_def)
    then have "meaning ?b f m = meaning (?b\<lparr>modules_val := modules_val a\<rparr>) f m"
      using approx_modules [OF _ m(2) m(1) order.refl, where n = "Suc (f m)" and x = "modules_val a"] by (simp add: meaning_def del: approx.simps)
    also have "\<dots> = meaning a f m" by (rule same_meaning [OF eq rk m(1)])
    also have "tri \<dots> = modules_val a" using ag m(3,4) ready_value [OF rd m(3)] ready_fields(2) [OF rd] by (simp add: modules_agree_def)
    finally show ?thesis using 1(3) ms by simp
  qed
  then show ?thesis using 1 eq by auto
qed

end
