(* ===== verification/KConfRead.thy ===== *)
theory KConfRead
  imports KConfReload
begin

text \<open>
  \<^verbatim>\<open>conf_read\<close> on what \<^verbatim>\<open>conf_write\<close> has written: the loops after the file has been read find every value saved and in its range, and
  forgetting the values of invisible symbols changes no value.
\<close>

section \<open>Loading\<close>

lemma load_saved:
  assumes "session U f a st" "same_kconfig a (tab c)" "saves xs f a ps" "\<forall>t \<in> U. allocated a t \<longrightarrow> reloadable xs f a t" "\<And>t. t \<in> U \<Longrightarrow> f t < n"
  shows "\<exists>b c'. conf_load n S_DEF_USER (pieces_text a ps) c = Some c' \<and> conf_warnings c' = 0 \<and> conf_unsaved c' = 0
    \<and> b = (loaded ps (tab c))\<lparr>modules_val := modules_val a\<rparr> \<and> session U f b (tab c') \<and> all_marked b f (tab c') \<and> same_equations U f a b
    \<and> steady (loaded ps (tab c)) (tab c')"
proof -
  let ?r = "tab c"
  define c0 :: conf where "c0 = \<lparr>tab = forgotten ?r, conf_warnings = 0, conf_unsaved = 0\<rparr>"
  have t0: "tab c0 = forgotten ?r" by (simp add: c0_def)
  have d: "distinct (saved_symbols ps)" and al: "\<forall>s \<in> set (saved_symbols ps). allocated a s" and g: "\<forall>p \<in> set ps. good_piece a p"
    using assms(3) by (simp_all add: saves_def)
  have pl: "plain a" using assms(1) by (simp add: session_def layered_def layerable_def rankable_def)
  have e: "s_name (syms (forgotten ?r) t) = s_name (syms a t)" "s_type (syms (forgotten ?r) t) = s_type (syms a t)"
    "x \<in> {SYMBOL_CONST, SYMBOL_CHOICE, SYMBOL_CHOICEVAL} \<Longrightarrow> x \<in> s_flags (syms (forgotten ?r) t) \<longleftrightarrow> x \<in> s_flags (syms a t)" for t x
    using loaded_same(1,2,5) [OF assms(2), of "[]"] by (auto simp: loaded_def saved_symbols_def)
  have lk: "alike a (tab c0)" using assms(2) e by (simp add: alike_def t0 forgotten_def all_symbols_def same_kconfig_def)
  have bodies: "piece_body (tab c0) = piece_body a" using alike_body [OF lk] by (intro ext)
  have nf: "\<not> has_flag (tab c0) s (def_flag S_DEF_USER)" if "s \<in> set (saved_symbols ps)" for s
  proof -
    have "allocated a s" using al that by blast
    from loaded_not_user [OF assms(2) _ _ this pl, of "[]"] show ?thesis by (simp add: loaded_def saved_symbols_def t0 has_flag_def def_flag_def)
  qed
  have rd: "read_lines S_DEF_USER (file_lines (pieces_text a ps)) c0 = Some (on_tab (restore S_DEF_USER ps) c0)"
    using read_text [of ps c0 S_DEF_USER] g alike_good [OF lk] d nf by (simp add: bodies pieces_text_def)
  have tl: "tab (on_tab (restore S_DEF_USER ps) c0) = loaded ps ?r" by (simp add: on_tab_def t0 loaded_def)
  from reload_session [OF assms] obtain b st1 where
    1: "(case modules_sym (loaded ps ?r) of None \<Rightarrow> Some (loaded ps ?r) | Some m \<Rightarrow> sym_calc_value n m (loaded ps ?r)) = Some st1"
    "b = (loaded ps ?r)\<lparr>modules_val := modules_val a\<rparr>" "session U f b st1" "all_marked b f st1" "same_equations U f a b" by blast
  have st: "steady (loaded ps ?r) st1" using 1(1) sym_calc_value_steady by (auto simp: steady_refl split: option.splits)
  have "conf_load n S_DEF_USER (pieces_text a ps) c = Some ((on_tab (restore S_DEF_USER ps) c0)\<lparr>tab := st1\<rparr>)"
    unfolding conf_load_def forgotten_def [symmetric] c0_def [symmetric] rd bind.bind_lunit tl 1(1) ..
  then show ?thesis using 1(2-5) st by (intro exI [of _ b] exI [of _ "(on_tab (restore S_DEF_USER ps) c0)\<lparr>tab := st1\<rparr>"]) (simp add: on_tab_def c0_def)
qed

section \<open>Every value is the saved one\<close>

lemma value_is_saved:
  assumes "session U f a st" "same_kconfig a r" "saves xs f a ps" "reloadable xs f a s" "s \<in> U" "allocated a s"
    and b: "b = (loaded ps r)\<lparr>modules_val := modules_val a\<rparr>" "same_equations U f a b"
    and st: "session U f b st'" "all_marked b f st'" "steady (loaded ps r) st'" "valid st' s"
  shows "value_saved st' s"
proof -
  have rk: "rankable a U f" and pl: "plain a" using assms(1) by (simp_all add: session_def layered_def layerable_def rankable_def)
  have d: "distinct (saved_symbols ps)" using assms(3) by (simp add: saves_def)
  note e = loaded_same [OF assms(2) d]
  have rd: "ready b U f {} st'" using st(1) by (simp add: session_def)
  have nva: "\<not> valid a s" using session_input(1) [OF assms(1)] assms(6) by blast
  have nv: "\<not> valid b s" using e(6) [OF assms(6)] b(1) by (simp add: valid_def has_flag_def)
  have ty: "s_type (syms st' s) = s_type (syms a s)" using ready_fields(3) [OF rd] b(1) e(2) by simp
  have cur: "s_curr (syms st' s) = meaning a f s" using ready_value [OF rd st(4)] same_meaning [OF b(2) rk assms(5)] by simp
  have au: "SYMBOL_AUTO \<in> s_flags (syms b s) \<longleftrightarrow> SYMBOL_AUTO \<in> s_flags (syms a s)" using e(5) b(1) by simp
  have w: "wanted b f s = wanted a f s" by (rule same_wanted [OF b(2) rk assms(5) nva au])
  have us: "s_user (syms st' s) = s_user (syms (loaded ps r) s)" using ready_fields(4) [OF rd] b(1) by simp
  have hv: "sym_has_value st' s \<longleftrightarrow> SYMBOL_DEF_USER \<in> s_flags (syms (loaded ps r) s)" using ready_fields(8) [OF rd] b(1) by simp
  have aut: "has_flag st' s SYMBOL_AUTO \<longleftrightarrow> SYMBOL_AUTO \<in> s_flags (syms a s)"
    using steady_facts(7) [OF st(3), of SYMBOL_AUTO s] e(5) by (simp add: has_flag_def)
  show ?thesis
  proof (cases "SYMBOL_AUTO \<in> s_flags (syms a s)")
    case True
    then show ?thesis by (simp add: value_saved_def aut Let_def)
  next
    case na: False
    show ?thesis
    proof (cases "typed (syms a s)")
      case True
      have m: "has_flag st' s SYMBOL_WRITE \<longleftrightarrow> wanted a f s"
      proof -
        have "marked (wanted b f) s (syms st' s)" using st(2,4) nv by (simp add: all_marked_def)
        then show ?thesis using True by (auto simp: marked_def typed_def has_flag_def ty w)
      qed
      have im: "Some s \<in> m_sym ` set xs" using assms(4) na True by (simp add: reloadable_def)
      show ?thesis
      proof (cases "wanted a f s")
        case w: True
        then have "s \<in> set (saved_symbols ps)" using assms(3) True im by (simp add: saves_def)
        then obtain u x where p: "Saved s u x \<in> set ps" using saved_in by blast
        then have ux: "u = tri (meaning a f s)" "x = val (meaning a f s)" using assms(3) by (auto simp: saves_def)
        note l = loaded_user [OF assms(2) d p]
        have "sym_has_value st' s" using hv l(1) by simp
        then show ?thesis using m w l(2,3) ux cur us ty by (simp add: value_saved_def Let_def)
      next
        case False
        then have "s \<notin> set (saved_symbols ps)" using assms(3) by (simp add: saves_def)
        then have "\<not> sym_has_value st' s" using hv loaded_not_user [OF assms(2) d _ assms(6) pl] by simp
        then show ?thesis using m False by (simp add: value_saved_def Let_def)
      qed
    next
      case False
      then have "s \<notin> set (saved_symbols ps)" using assms(3) by (simp add: saves_def)
      then have "\<not> sym_has_value st' s" using hv loaded_not_user [OF assms(2) d _ assms(6) pl] by simp
      moreover have "\<not> sym_is_choice (loaded ps r) t" for t using e(5) pl by (simp add: sym_is_choice_def has_flag_def plain_def)
      then have "\<not> has_flag st' s SYMBOL_WRITE" using st(3) e(2,8) False by (simp add: steady_def typed_def)
      ultimately show ?thesis by (simp add: value_saved_def Let_def)
    qed
  qed
qed

lemma check_saved_ok:
  assumes "session U f a st" "same_kconfig a r" "saves xs f a ps" "\<forall>t \<in> U. allocated a t \<longrightarrow> reloadable xs f a t" "\<And>t. t \<in> U \<Longrightarrow> f t < n"
    and b: "b = (loaded ps r)\<lparr>modules_val := modules_val a\<rparr>" "same_equations U f a b"
  shows "\<forall>s \<in> set ss. s \<in> U \<and> allocated a s \<Longrightarrow> session U f b (tab c) \<Longrightarrow> all_marked b f (tab c) \<Longrightarrow> steady (loaded ps r) (tab c) \<Longrightarrow>
    \<exists>c'. check_saved n ss c = Some c' \<and> session U f b (tab c') \<and> all_marked b f (tab c') \<and> steady (loaded ps r) (tab c')
      \<and> conf_unsaved c' = conf_unsaved c \<and> conf_warnings c' = conf_warnings c \<and> keeps (wanted b f) (tab c) (tab c') \<and> (\<forall>s \<in> set ss. valid (tab c') s)"
proof (induction ss arbitrary: c)
  case Nil
  then show ?case by (simp add: keeps_refl)
next
  case (Cons s ss)
  have s: "s \<in> U" "allocated a s" using Cons(2) by simp_all
  obtain st1 where 1: "sym_calc_value n s (tab c) = Some st1" "session U f b st1" "keeps (wanted b f) (tab c) st1" "valid st1 s"
    using session_calc [OF Cons(3) s(1) assms(5) [OF s(1)]] by blast
  have m1: "all_marked b f st1" by (rule all_marked_keeps [OF Cons(4) 1(3)])
  have s1: "steady (loaded ps r) st1" by (rule steady_trans [OF Cons(5) sym_calc_value_steady [OF 1(1)]])
  have v: "value_saved st1 s" by (rule value_is_saved [OF assms(1-3) _ s b 1(2) m1 s1 1(4)]) (use assms(4) s in blast)
  have "ready b U f {} st1" using 1(2) by (simp add: session_def)
  then have "choice_has_value s st1 = st1" using ready_fields(9) by (simp add: choice_has_value_def)
  with v 1(1) have e: "check_saved n (s # ss) c = check_saved n ss (c\<lparr>tab := st1\<rparr>)" by simp
  obtain c' where c': "check_saved n ss (c\<lparr>tab := st1\<rparr>) = Some c'" "session U f b (tab c')" "all_marked b f (tab c')" "steady (loaded ps r) (tab c')"
      "conf_unsaved c' = conf_unsaved c" "conf_warnings c' = conf_warnings c" "keeps (wanted b f) st1 (tab c')" "\<forall>s \<in> set ss. valid (tab c') s"
    using Cons(1) [of "c\<lparr>tab := st1\<rparr>"] Cons(2) 1(2) m1 s1 by auto
  have "valid (tab c') s" by (rule keeps_valid [OF c'(7) 1(4)])
  then show ?case unfolding e using c' keeps_trans [OF 1(3) c'(7)] by auto
qed

section \<open>Forgetting the values of invisible symbols\<close>

lemma same_equations_trans:
  assumes "same_equations U f a b" "same_equations U f b c" "rankable a U f"
  shows "same_equations U f a c"
proof -
  note ab = assms(1) [unfolded same_equations_def] and bc = assms(2) [unfolded same_equations_def]
  have "value_of (tab_of a) (meaning a f) (modules_val a) (syms c t) = value_of (tab_of a) (meaning a f) (modules_val a) (syms a t)"
    if t: "t \<in> U" "\<not> valid a t" for t
  proof -
    have p: "s_prop (syms c t) = s_prop (syms a t)" "s_rev_expr (syms c t) = s_rev_expr (syms a t)" "\<not> valid b t" using ab bc t by auto
    then have rd: "read_symbols (syms c t) = read_symbols (syms a t)" "read_symbols (syms b t) = read_symbols (syms a t)"
      using ab t by (simp_all add: read_symbols_def dep_symbols_def)
    have "meaning b f z = meaning a f z" if "z \<in> set (read_symbols (syms a t))" for z
      using assms(3) t that by (intro same_meaning [OF assms(1,3)]) (auto simp: rankable_def)
    moreover have "wf_prop q" if "q \<in> set (s_prop (syms a t))" for q using assms(3) t that by (auto simp: rankable_def)
    ultimately have v: "value_of T (meaning b f) mv (syms c t) = value_of T (meaning a f) mv (syms c t)"
      "value_of T (meaning b f) mv (syms b t) = value_of T (meaning a f) mv (syms b t)" for T mv
      using value_of_agree(3) [of "syms c t" "meaning b f" "meaning a f"] value_of_agree(3) [of "syms b t" "meaning b f" "meaning a f"] p rd ab t
      by auto
    have "value_of (tab_of b) (meaning b f) (modules_val b) (syms c t) = value_of (tab_of b) (meaning b f) (modules_val b) (syms b t)"
      using bc t p(3) by simp
    then show ?thesis using ab t by (simp add: v)
  qed
  then show ?thesis using ab bc by (simp add: same_equations_def)
qed

lemma static_unset: "static k = static k' \<Longrightarrow>
    static (k\<lparr>s_flags := s_flags k - {SYMBOL_DEF_USER}\<rparr>) = static (k'\<lparr>s_flags := s_flags k' - {SYMBOL_DEF_USER}\<rparr>)"
proof -
  assume a: "static k = static k'"
  have "static (j\<lparr>s_flags := s_flags j - {SYMBOL_DEF_USER}\<rparr>) = (static j)\<lparr>s_flags := s_flags (static j) - {SYMBOL_DEF_USER}\<rparr>" for j
  proof -
    have "A - {SYMBOL_DEF_USER} - {SYMBOL_VALID, SYMBOL_WRITE, SYMBOL_CHANGED} = A - {SYMBOL_VALID, SYMBOL_WRITE, SYMBOL_CHANGED} - {SYMBOL_DEF_USER}" for A
      by auto
    then show ?thesis by (simp add: static_def)
  qed
  then show ?thesis by (simp add: a)
qed

text \<open>Clearing the mark of a symbol that is not visible leads to a session with the same meanings.\<close>

definition unset :: "symbol \<Rightarrow> ktab \<Rightarrow> ktab" where
  "unset s st = clear_flag SYMBOL_DEF_USER s st"

lemma unset_syms: "syms (unset s st) t = (if t = s then (syms st s)\<lparr>s_flags := s_flags (syms st s) - {SYMBOL_DEF_USER}\<rparr> else syms st t)"
  "modules_sym (unset s st) = modules_sym st" "modules_val (unset s st) = modules_val st" "next_sym (unset s st) = next_sym st"
  "globals (unset s st) = globals st"
  by (simp_all add: unset_def clear_flag_def globals_def)

lemma unset_same:
  "s_name (syms (unset s st) t) = s_name (syms st t)" "s_type (syms (unset s st) t) = s_type (syms st t)" "s_prop (syms (unset s st) t) = s_prop (syms st t)"
  "s_rev_expr (syms (unset s st) t) = s_rev_expr (syms st t)" "s_user (syms (unset s st) t) = s_user (syms st t)"
  "s_curr (syms (unset s st) t) = s_curr (syms st t)" "s_visible (syms (unset s st) t) = s_visible (syms st t)"
  "s_rev_tri (syms (unset s st) t) = s_rev_tri (syms st t)"
  "x \<noteq> SYMBOL_DEF_USER \<Longrightarrow> x \<in> s_flags (syms (unset s st) t) \<longleftrightarrow> x \<in> s_flags (syms st t)" "valid (unset s st) t = valid st t"
  by (simp_all add: unset_syms valid_def has_flag_def)

lemma unset_session:
  assumes "session U f b st" "s \<in> U" "allocated b s" "valid st s" "typed (syms b s)" "s_visible (syms st s) = No"
  shows "session U f (unset s b) (unset s st)" "same_equations U f b (unset s b)"
proof -
  let ?b = "unset s b" and ?st = "unset s st"
  have rd: "ready b U f {} st" and rk: "rankable b U f" and l: "layered U f b" and ag: "modules_agree st"
    using assms(1) by (simp_all add: session_def layered_def layerable_def)
  have nv: "\<not> valid b s" using session_input(1) [OF assms(1)] assms(3) by blast
  have "settled b f s (syms st s)" using rd assms(4) nv by (simp add: ready_def)
  then have vis: "visible_of (tab_of b) (meaning b f) (modules_val b) (syms b s) = No"
    using assms(5,6) ready_fields(3) [OF rd] by (auto simp: settled_def typed_def)
  have t: "tab_of ?b = tab_of b" by (simp add: tab_of_def unset_same)
  have "value_of (tab_of b) (meaning b f) (modules_val b) (syms ?b s) = value_of (tab_of b) (meaning b f) (modules_val b) (syms b s)"
  proof -
    let ?k = "(syms b s)\<lparr>s_flags := s_flags (syms b s) - {SYMBOL_DEF_USER}\<rparr>"
    have same: "s_type ?k = s_type (syms b s)" "s_prop ?k = s_prop (syms b s)" "s_rev_expr ?k = s_rev_expr (syms b s)" by simp_all
    have "visible_of T v mv ?k = visible_of T v mv (syms b s)" "rev_of T v mv ?k = rev_of T v mv (syms b s)" "default_of T v ?k = default_of T v (syms b s)"
      "clamp_of T v ?k x = clamp_of T v (syms b s) x" "type_in mv ?k = type_in mv (syms b s)" for T v mv x
      unfolding visible_of_def rev_of_def default_of_def clamp_of_def type_in_def by (simp_all only: same)
    then show ?thesis by (simp add: unset_syms value_of_def tristate_of_def string_of_def vis Let_def)
  qed
  then have eq: "same_equations U f b ?b" by (auto simp: same_equations_def t unset_same unset_syms)
  then show "same_equations U f b ?b" .
  have pl: "plain ?b" using rk by (simp add: rankable_def plain_def unset_same)
  have "layerable U f ?b" by (rule layerable_static [OF l [unfolded layered_def, THEN conjunct1]]) (simp_all add: unset_same unset_syms(2,4) pl)
  then have lb: "layered U f ?b" using l by (simp add: layered_def allocated_def unset_same unset_syms(4))
  have "settled ?b f z (syms ?st z)" if z: "valid st z" "\<not> valid b z" for z
  proof -
    have zU: "z \<in> U" using rd z by (auto simp: ready_def)
    have s: "settled b f z (syms st z)" using rd z by (simp add: ready_def)
    have m: "meaning ?b f y = meaning b f y" if "y \<in> U" for y by (rule same_meaning [OF eq rk that])
    have ry: "meaning ?b f y = meaning b f y" if "y \<in> set (read_symbols (syms b z))" for y using rk zU that by (intro m) (auto simp: rankable_def)
    have wf: "wf_prop q" if "q \<in> set (s_prop (syms b z))" for q using rk zU that by (auto simp: rankable_def)
    note va = value_of_agree [of "syms b z" "meaning ?b f" "meaning b f", OF ry wf]
    have "visible_of T (meaning ?b f) mv (syms b z) = visible_of T (meaning b f) mv (syms b z)"
      "rev_of T (meaning ?b f) mv (syms b z) = rev_of T (meaning b f) mv (syms b z)" for T mv
      by (rule va(1), assumption+) (rule va(2), assumption+)
    moreover have "visible_of T v mv (syms ?b z) = visible_of T v mv (syms b z)" "rev_of T v mv (syms ?b z) = rev_of T v mv (syms b z)" for T v mv
      unfolding visible_of_def rev_of_def type_in_def by (simp_all only: unset_same)
    ultimately show ?thesis using s m [OF zU] unfolding settled_def unset_same t unset_syms(3) by simp
  qed
  moreover have "static (syms ?st z) = static (syms ?b z)" for z
    using rd static_unset [of "syms st s" "syms b s"] by (simp add: ready_def same_static_def unset_syms)
  moreover have "syms ?st z = syms ?b z" if "valid b z" for z
    using rd that nv by (auto simp: ready_def unset_syms)
  ultimately have "ready ?b U f {} ?st"
    using rd lb by (simp add: ready_def layered_def layerable_def same_static_def unset_syms(2-4) unset_same modules_done_def)
  moreover have "modules_agree ?st" using ag by (simp add: modules_agree_def unset_syms(2,3) unset_same)
  ultimately show "session U f ?b ?st" using lb by (simp add: session_def)
qed

text \<open>A saved string is in its range.\<close>

lemma in_range_agree:
  assumes "\<And>s. s \<in> set (read_symbols k) \<Longrightarrow> v s = w s" "in_range T w k x"
  shows "in_range T v k x"
proof (cases "first_of T w P_RANGE (s_prop k)")
  case None
  then have "first_of T v P_RANGE (s_prop k) = None" using first_agree [of "s_prop k" P_RANGE v w T] assms(1) read_visible by auto
  then show ?thesis by (simp add: in_range_def)
next
  case (Some pv)
  obtain p vis where pv: "pv = (p, vis)" by (cases pv)
  have f: "first_of T v P_RANGE (s_prop k) = Some (p, vis)" using first_agree [of "s_prop k" P_RANGE v w T] assms(1) read_visible Some pv by auto
  note m = first_of_mem [OF f]
  show ?thesis
  proof (cases "range_ends p")
    case None
    then show ?thesis using f by (simp add: in_range_def)
  next
    case (Some lr)
    then obtain l r where lr: "range_ends p = Some (l, r)" by (cases lr) auto
    have "v l = w l" "v r = w r" using read_range [OF _ _ lr] m assms(1) by auto
    then show ?thesis using assms(2) f \<open>first_of T w P_RANGE (s_prop k) = Some pv\<close> pv lr by (simp add: in_range_def bound_of_def Let_def)
  qed
qed

lemma within_range_value:
  assumes "session U f b st" "s \<in> U" "\<And>t. t \<in> U \<Longrightarrow> f t < n" "is_textual (s_type (syms b s))"
  shows "\<exists>st'. sym_string_within_range n s x st = Some (sym_string_valid b s x \<and> in_range (tab_of b) (meaning b f) (syms b s) x, st') \<and> session U f b st' \<and> keeps (wanted b f) st st'"
proof -
  have rd: "ready b U f {} st" and rk: "rankable b U f" using assms(1) by (simp_all add: session_def layered_def layerable_def)
  have ty: "s_type (syms st s) = s_type (syms b s)" and pr: "s_prop (syms st s) = s_prop (syms b s)" using ready_fields(3,5) [OF rd] by simp_all
  have va: "sym_string_valid st s x = sym_string_valid b s x" by (simp add: sym_string_valid_def ty)
  have rd_U: "z \<in> U" if "z \<in> set (read_symbols (syms b s))" for z using rk assms(2) that by (auto simp: rankable_def)
  have wf: "wf_prop p" if "p \<in> set (s_prop (syms b s))" for p using rk assms(2) that by (auto simp: rankable_def)
  show ?thesis
  proof (cases "s_type (syms b s) = S_STRING")
    case True
    then show ?thesis using va assms(1) by (intro exI [of _ st]) (simp add: sym_string_within_range_def ty keeps_refl in_range_def)
  next
    case False
    then have num: "s_type (syms b s) = S_INT \<or> s_type (syms b s) = S_HEX" using assms(4) by (auto simp: is_textual_def)
    show ?thesis
    proof (cases "sym_string_valid b s x")
      case False
      then show ?thesis using va num assms(1) by (intro exI [of _ st]) (auto simp: sym_string_within_range_def ty keeps_refl Let_def)
    next
      case ok: True
    let ?d = "first_of (tab_of b) (meaning b f) P_RANGE (s_prop (syms b s))"
    have "yields b U f {} st ?d (first_visible (sym_calc_value n) P_RANGE (s_prop (syms b s)) st)"
    proof (rule sym_calc_value_eval.first_yields [OF rd])
      fix p z assume p: "p \<in> set (s_prop (syms b s))" "p_type p = P_RANGE" "z \<in> set (opt_symbols (p_visible p))"
      then have "z \<in> set (read_symbols (syms b s))" using read_visible [OF p(1) _ _ p(3)] by simp
      then show "below U f n {} z" using rd_U assms(3) by (simp add: below_def)
    qed
    then obtain st1 where 1: "sym_get_range_prop (sym_calc_value n) s st = Some (?d, st1)" "ready b U f {} st1" "keeps (wanted b f) st st1"
      by (auto simp: yields_def sym_get_range_prop_def pr)
    show ?thesis
    proof (cases ?d)
      case None
      then have "sym_string_within_range n s x st = Some (True, st1)" using 1(1) va ok num ty False by (simp add: sym_string_within_range_def Let_def)
      then show ?thesis using ok None session_keeps [OF assms(1) 1(2,3)] 1(3) by (auto simp: in_range_def)
    next
      case (Some pv)
      obtain p vis where pv: "?d = Some (p, vis)" using Some by (cases pv) auto
      note m = first_of_mem [OF pv]
      have "range_ends p \<noteq> None" using wf m by (simp add: wf_prop_def)
      then obtain l r where lr: "range_ends p = Some (l, r)" by auto
      have lu: "l \<in> U" "r \<in> U" using read_range [OF _ _ lr] m rd_U by auto
      then have bl: "below U f n {} l" "below U f n {} r" using assms(3) by (simp_all add: below_def)
      let ?base = "range_base (s_type (syms b s)) 0"
      obtain st2 where 2: "sym_get_range_val (sym_calc_value n) l ?base st1 = Some (bound_of (tab_of b) (meaning b f) ?base l, st2)"
        "ready b U f {} st2" "keeps (wanted b f) st1 st2" using sym_calc_value_eval.range_val_yields [OF 1(2) bl(1)] by (auto simp: yields_def)
      obtain st3 where 3: "sym_get_range_val (sym_calc_value n) r ?base st2 = Some (bound_of (tab_of b) (meaning b f) ?base r, st3)"
        "ready b U f {} st3" "keeps (wanted b f) st2 st3" using sym_calc_value_eval.range_val_yields [OF 2(2) bl(2)] by (auto simp: yields_def)
      let ?v = "to_int (c_strtol ?base x)" and ?l = "bound_of (tab_of b) (meaning b f) ?base l" and ?r = "bound_of (tab_of b) (meaning b f) ?base r"
      have "in_range (tab_of b) (meaning b f) (syms b s) x \<longleftrightarrow> ?l \<le> ?v \<and> ?v \<le> ?r"
        using num pv lr by (auto simp: in_range_def Let_def)
      then have "sym_string_within_range n s x st
          = Some (sym_string_valid b s x \<and> in_range (tab_of b) (meaning b f) (syms b s) x, if ?l \<le> ?v then st3 else st2)"
        using num False va ok 1(1) pv lr 2(1) 3(1) by (simp add: sym_string_within_range_def ty Let_def)
      moreover have k: "keeps (wanted b f) st st2" "keeps (wanted b f) st st3"
        using keeps_trans [OF 1(3) 2(3)] keeps_trans [OF keeps_trans [OF 1(3) 2(3)] 3(3)] .
      ultimately show ?thesis using session_keeps [OF assms(1) 2(2) k(1)] session_keeps [OF assms(1) 3(2) k(2)]
        by (cases "?l \<le> ?v") auto
    qed
    qed
  qed
qed

lemma within_range_ok:
  assumes "session U f b st" "s \<in> U" "\<And>t. t \<in> U \<Longrightarrow> f t < n" "is_textual (s_type (syms b s))" "sym_string_valid b s x"
    "in_range (tab_of b) (meaning b f) (syms b s) x"
  shows "\<exists>st'. sym_string_within_range n s x st = Some (True, st') \<and> session U f b st' \<and> keeps (wanted b f) st st'"
  using within_range_value [OF assms(1-4), of x] assms(5,6) by simp

lemma within_range_steady: "sym_string_within_range n s x st = Some (b, st') \<Longrightarrow> steady st st'"
proof -
  have "gives st (sym_string_within_range n s x st)"
    unfolding sym_string_within_range_def sym_get_range_prop_def Let_def
    by (intro eval_steady.steps eval_steady.first_visible steady_pure eval_steady.range_val steady_refl)
  then show "sym_string_within_range n s x st = Some (b, st') \<Longrightarrow> steady st st'" by (simp add: gives_def)
qed

section \<open>The last loop\<close>

text \<open>A session that only differs in the marks that were cleared.\<close>

definition fewer_users :: "ktab \<Rightarrow> ktab \<Rightarrow> bool" where
  "fewer_users b b' \<longleftrightarrow> (\<forall>t. s_type (syms b' t) = s_type (syms b t) \<and> s_prop (syms b' t) = s_prop (syms b t) \<and> s_user (syms b' t) = s_user (syms b t)
     \<and> (SYMBOL_DEF_USER \<in> s_flags (syms b' t) \<longrightarrow> SYMBOL_DEF_USER \<in> s_flags (syms b t)) \<and> allocated b' t = allocated b t)"

lemma fewer_refl: "fewer_users b b"
  by (simp add: fewer_users_def)

lemma allocated_unset: "allocated (unset s st) t = allocated st t"
  by (simp add: allocated_def unset_same unset_syms(4))

lemma fewer_unset: "fewer_users b b' \<Longrightarrow> fewer_users b (unset s b')"
  by (auto simp: fewer_users_def unset_same(2,3,5) unset_syms(1) allocated_unset)

text \<open>What is visible in one table is visible in another one with the same equations.\<close>

lemma same_visible:
  assumes "same_equations U f a b" "rankable a U f" "t \<in> U" "\<not> valid a t"
  shows "visible_of (tab_of b) (meaning b f) (modules_val b) (syms b t) = visible_of (tab_of a) (meaning a f) (modules_val a) (syms a t)"
    "rev_of (tab_of b) (meaning b f) (modules_val b) (syms b t) = rev_of (tab_of a) (meaning a f) (modules_val a) (syms a t)"
proof -
  note e = assms(1) [unfolded same_equations_def]
  have ty: "s_type (syms b t) = s_type (syms a t)" using e unfolding tab_of_def by (metis symtab.ext_inject)
  have p: "s_prop (syms b t) = s_prop (syms a t)" "s_rev_expr (syms b t) = s_rev_expr (syms a t)" using e assms(3,4) by simp_all
  have m: "meaning b f z = meaning a f z" if "z \<in> set (read_symbols (syms a t))" for z
    using assms(2,3) that by (intro same_meaning [OF assms(1,2)]) (auto simp: rankable_def)
  have w: "wf_prop q" if "q \<in> set (s_prop (syms a t))" for q using assms(2,3) that by (auto simp: rankable_def)
  have "visible_of T (meaning b f) mv (syms a t) = visible_of T (meaning a f) mv (syms a t)" "rev_of T (meaning b f) mv (syms a t) = rev_of T (meaning a f) mv (syms a t)"
    for T mv by (rule value_of_agree(1) [OF m w], assumption+) (rule value_of_agree(2) [OF m w], assumption+)
  moreover have "visible_of T v mv (syms b t) = visible_of T v mv (syms a t)" "rev_of T v mv (syms b t) = rev_of T v mv (syms a t)" for T v mv
    by (simp_all add: visible_of_def rev_of_def type_in_def ty p)
  ultimately show "visible_of (tab_of b) (meaning b f) (modules_val b) (syms b t) = visible_of (tab_of a) (meaning a f) (modules_val a) (syms a t)"
    "rev_of (tab_of b) (meaning b f) (modules_val b) (syms b t) = rev_of (tab_of a) (meaning a f) (modules_val a) (syms a t)" using e by simp_all
qed

text \<open>Every symbol that is visible has a value of the user.\<close>

definition complete :: "symbol set \<Rightarrow> (symbol \<Rightarrow> nat) \<Rightarrow> ktab \<Rightarrow> ktab \<Rightarrow> bool" where
  "complete U f a b \<longleftrightarrow> (\<forall>t \<in> U. allocated a t \<and> typed (syms a t) \<and> visible_of (tab_of a) (meaning a f) (modules_val a) (syms a t) \<noteq> No
     \<longrightarrow> SYMBOL_DEF_USER \<in> s_flags (syms b t))"

lemma loaded_complete:
  assumes "same_kconfig a r" "saves xs f a ps" "\<forall>t \<in> U. allocated a t \<longrightarrow> reloadable xs f a t"
  shows "complete U f a (loaded ps r)"
proof -
  have d: "distinct (saved_symbols ps)" using assms(2) by (simp add: saves_def)
  have "SYMBOL_DEF_USER \<in> s_flags (syms (loaded ps r) t)"
    if t: "t \<in> U" "allocated a t" "typed (syms a t)" "visible_of (tab_of a) (meaning a f) (modules_val a) (syms a t) \<noteq> No" for t
  proof -
    have "reloadable xs f a t" using assms(3) t by blast
    from wanted_visible [OF this t(4,3)] have "t \<in> set (saved_symbols ps)" using t(3) assms(2) by (simp add: saves_def)
    then obtain u x where "Saved t u x \<in> set ps" using saved_in by blast
    then show ?thesis by (rule loaded_user(1) [OF assms(1) d])
  qed
  then show ?thesis by (simp add: complete_def)
qed

definition resetting :: "symbol set \<Rightarrow> (symbol \<Rightarrow> nat) \<Rightarrow> ktab \<Rightarrow> ktab \<Rightarrow> ktab \<Rightarrow> conf \<Rightarrow> bool" where
  "resetting U f a b b' c \<longleftrightarrow> session U f b' (tab c) \<and> same_equations U f a b' \<and> fewer_users b b' \<and> conf_unsaved c = 0 \<and> complete U f a b'"

lemma in_range_same: "s_type k' = s_type k \<Longrightarrow> s_prop k' = s_prop k \<Longrightarrow> in_range T v k' x = in_range T v k x"
  unfolding in_range_def by (simp only:)

lemma saved_text_fits:
  assumes "session U f a st" "same_kconfig a r" "saves xs f a ps" "reloadable xs f a s" "s \<in> U" "allocated a s"
    and b: "b = (loaded ps r)\<lparr>modules_val := modules_val a\<rparr>" "same_equations U f a b'" "fewer_users b b'"
    and u: "SYMBOL_DEF_USER \<in> s_flags (syms b' s)" "is_textual (s_type (syms b' s))"
  shows "u_val (s_user (syms b' s)) = Some (val (meaning a f s))" "sym_string_valid b' s (val (meaning a f s))"
    "in_range (tab_of b') (meaning b' f) (syms b' s) (val (meaning a f s))"
proof -
  have rk: "rankable a U f" and pl: "plain a" using assms(1) by (simp_all add: session_def layered_def layerable_def rankable_def)
  have d: "distinct (saved_symbols ps)" using assms(3) by (simp add: saves_def)
  note e = loaded_same [OF assms(2) d]
  have ty: "s_type (syms b' s) = s_type (syms a s)" and pr: "s_prop (syms b' s) = s_prop (syms a s)"
    using b(1,3) by (simp_all add: fewer_users_def e(2,3))
  have "SYMBOL_DEF_USER \<in> s_flags (syms (loaded ps r) s)" using u(1) b(1,3) by (simp add: fewer_users_def)
  then have "s \<in> set (saved_symbols ps)" using loaded_not_user [OF assms(2) d _ assms(6) pl] by blast
  then obtain t x where p: "Saved s t x \<in> set ps" using saved_in by blast
  then have x: "x = val (meaning a f s)" and g: "storable (s_type (syms a s)) t x" using assms(3) by (auto simp: saves_def good_piece_def)
  have tx: "\<not> is_logical (s_type (syms a s))" using u(2) ty by (simp add: is_textual_def is_logical_def) auto
  show "u_val (s_user (syms b' s)) = Some (val (meaning a f s))" using loaded_user(3) [OF assms(2) d p tx] x b(1,3) by (simp add: fewer_users_def)
  show "sym_string_valid b' s (val (meaning a f s))" using g x u(2) by (auto simp: sym_string_valid_def storable_def ty is_textual_def)
  have "in_range (tab_of a) (meaning a f) (syms b' s) (val (meaning a f s))"
    using assms(4) in_range_same [OF ty pr] by (simp add: reloadable_def)
  moreover have "meaning b' f y = meaning a f y" if "y \<in> set (read_symbols (syms b' s))" for y
  proof (rule same_meaning [OF b(2) rk])
    have "\<not> valid a s" using session_input(1) [OF assms(1)] assms(6) by blast
    then have "read_symbols (syms b' s) = read_symbols (syms a s)"
      using b(2) assms(5) by (simp add: same_equations_def read_symbols_def dep_symbols_def)
    then show "y \<in> U" using rk assms(5) that by (auto simp: rankable_def)
  qed
  moreover have "tab_of b' = tab_of a" using b(2) by (simp add: same_equations_def)
  ultimately show "in_range (tab_of b') (meaning b' f) (syms b' s) (val (meaning a f s))"
    using in_range_agree [of "syms b' s" "meaning b' f" "meaning a f"] by simp
qed

lemma reset_skip: "\<not> sym_has_value (tab c) s \<Longrightarrow> reset_values n (s # ss) c = reset_values n ss c"
  by simp

declare reset_values.simps(2) [simp del]

lemma reset_values_ok:
  assumes "session U f a st" "same_kconfig a r" "saves xs f a ps" "\<forall>t \<in> U. allocated a t \<longrightarrow> reloadable xs f a t" "\<And>t. t \<in> U \<Longrightarrow> f t < n"
    and b: "b = (loaded ps r)\<lparr>modules_val := modules_val a\<rparr>"
  shows "\<forall>s \<in> set ss. s \<in> U \<and> allocated a s \<and> valid (tab c) s \<Longrightarrow> resetting U f a b b' c \<Longrightarrow>
    \<exists>c' b''. reset_values n ss c = Some c' \<and> resetting U f a b b'' c' \<and> globals (tab c') = globals (tab c) \<and> conf_warnings c' = conf_warnings c
      \<and> (\<forall>t. valid (tab c) t \<longrightarrow> valid (tab c') t \<and> s_curr (syms (tab c') t) = s_curr (syms (tab c) t))"
proof (induction ss arbitrary: c b')
  case Nil
  then show ?case by auto
next
  case (Cons s ss)
  have s: "s \<in> U" "allocated a s" "valid (tab c) s" and ss: "\<forall>s \<in> set ss. s \<in> U \<and> allocated a s \<and> valid (tab c) s" using Cons(2) by simp_all
  have R: "session U f b' (tab c)" "same_equations U f a b'" "fewer_users b b'" "conf_unsaved c = 0" "complete U f a b'" using Cons(3) by (simp_all add: resetting_def)
  have rd: "ready b' U f {} (tab c)" using R(1) by (simp add: session_def)
  have pl: "plain a" using assms(1) by (simp add: session_def layered_def layerable_def rankable_def)
  have d: "distinct (saved_symbols ps)" using assms(3) by (simp add: saves_def)
  show ?case
  proof (cases "sym_has_value (tab c) s")
    case False
    note e = reset_skip [OF False]
    with Cons(1) [OF ss Cons(3)] show ?thesis unfolding e by blast
  next
    case True
    then have u: "SYMBOL_DEF_USER \<in> s_flags (syms b' s)" using ready_fields(8) [OF rd] by simp
    note nc = ready_fields(10) [OF rd, of s]
    define c1 where "c1 = (if s_visible (syms (tab c) s) = No then on_tab (unset s) c else c)"
    define b1 where "b1 = (if s_visible (syms (tab c) s) = No then unset s b' else b')"
    have "allocated b s = allocated a s" using loaded_same(2) [OF assms(2) d] assms(2) b by (simp add: allocated_def loaded_frame same_kconfig_def)
    then have al: "allocated b' s" using R(3) s(2) by (simp add: fewer_users_def)
    have ub: "SYMBOL_DEF_USER \<in> s_flags (syms (loaded ps r) s)" using u R(3) b by (simp add: fewer_users_def)
    then have "s \<in> set (saved_symbols ps)" using loaded_not_user [OF assms(2) d _ s(2) pl] by blast
    then have ty: "typed (syms b' s)"
      using assms(3) R(3) b loaded_same(2) [OF assms(2) d] by (auto simp: saves_def fewer_users_def typed_def)
    have rk: "rankable a U f" using assms(1) by (simp add: session_def layered_def layerable_def)
    have R1: "resetting U f a b b1 c1"
    proof (cases "s_visible (syms (tab c) s) = No")
      case True
      note us = unset_session [OF R(1) s(1) al s(3) ty True]
      have "tab (on_tab (unset s) c) = unset s (tab c)" "conf_unsaved (on_tab (unset s) c) = conf_unsaved c" by (simp_all add: on_tab_def)
      moreover have "complete U f a (unset s b')"
      proof -
        have nv: "\<not> valid a s" "\<not> valid b' s" using session_input(1) assms(1) R(1) s(2) al by blast+
        then have "settled b' f s (syms (tab c) s)" using rd s(3) by (simp add: ready_def)
        then have "visible_of (tab_of b') (meaning b' f) (modules_val b') (syms b' s) = No"
          using True ty ready_fields(3) [OF rd] by (auto simp: settled_def typed_def)
        then have "visible_of (tab_of a) (meaning a f) (modules_val a) (syms a s) = No" using same_visible(1) [OF R(2) rk s(1) nv(1)] by simp
        then show ?thesis using R(5) by (auto simp: complete_def unset_syms)
      qed
      ultimately show ?thesis using us(1) same_equations_trans [OF R(2) us(2) rk] fewer_unset [OF R(3)] R(4) True
        by (simp add: resetting_def b1_def c1_def)
    qed (use Cons(3) in \<open>simp add: b1_def c1_def\<close>)
    have g1: "globals (tab c1) = globals (tab c)" "conf_warnings c1 = conf_warnings c" "s_curr (syms (tab c1) t) = s_curr (syms (tab c) t)"
      "valid (tab c1) t = valid (tab c) t" for t
      by (simp_all add: c1_def on_tab_def unset_syms(5) unset_same)
    have ss1: "\<forall>s \<in> set ss. s \<in> U \<and> allocated a s \<and> valid (tab c1) s" using ss g1(4) by simp
    have e: "reset_values n (s # ss) c = (if \<not> is_textual (s_type (syms (tab c1) s)) then reset_values n ss c1
        else do {
          x \<leftarrow> u_val (s_user (syms (tab c1) s));
          (ok, st) \<leftarrow> sym_string_within_range n s x (tab c1);
          reset_values n ss (if ok then c1\<lparr>tab := st\<rparr>
            else c1\<lparr>tab := clear_flag SYMBOL_VALID s (clear_flag SYMBOL_DEF_USER s st), conf_unsaved := conf_unsaved c1 + 1\<rparr>) })"
    proof -
      have c1e: "(if s_visible (syms (tab c) s) = No \<and> conf_unsaved c = 0 then on_tab (clear_flag SYMBOL_DEF_USER s) c else c) = c1"
        using R(4) by (simp add: c1_def on_tab_def unset_def)
      have hv: "(\<not> (sym_has_value (tab c) s \<and> \<not> sym_is_choice_value (tab c) s)) = False" using True nc by simp
      show ?thesis by (simp only: reset_values.simps(2) Let_def c1e hv if_False)
    qed
    show ?thesis
    proof (cases "is_textual (s_type (syms (tab c1) s))")
      case False
      from Cons(1) [OF ss1 R1] obtain c' b'' where "reset_values n ss c1 = Some c'" "resetting U f a b b'' c'" "globals (tab c') = globals (tab c1)"
        "conf_warnings c' = conf_warnings c1" "\<forall>t. valid (tab c1) t \<longrightarrow> valid (tab c') t \<and> s_curr (syms (tab c') t) = s_curr (syms (tab c1) t)" by blast
      then show ?thesis using False g1 by (intro exI [of _ c'] exI [of _ b'']) (simp add: e)
    next
      case tx: True
      let ?x = "val (meaning a f s)"
      have R1s: "session U f b1 (tab c1)" "same_equations U f a b1" "fewer_users b b1" "conf_unsaved c1 = 0" "complete U f a b1" using R1 by (simp_all add: resetting_def)
      have rd1: "ready b1 U f {} (tab c1)" using R1s(1) by (simp add: session_def)
      have tb: "s_type (syms b' s) = s_type (syms (tab c1) s)" "s_user (syms b' s) = s_user (syms (tab c1) s)" "s_type (syms b1 s) = s_type (syms b' s)"
        "s_prop (syms b1 s) = s_prop (syms b' s)"
        using ready_fields(3,4) [OF rd1, of s] by (simp_all add: b1_def unset_same)
      have rl: "reloadable xs f a s" using assms(4) s by blast
      have txb: "is_textual (s_type (syms b' s))" using tx tb by simp
      note fits = saved_text_fits [OF assms(1-3) rl s(1,2) b R(2,3) u txb]
      have m: "meaning b1 f y = meaning b' f y" if "y \<in> U" for y
        using same_meaning [OF R1s(2) rk that] same_meaning [OF R(2) rk that] by simp
      have "in_range (tab_of b1) (meaning b1 f) (syms b1 s) ?x"
      proof -
        have rb: "rankable b1 U f" using R1s(1) by (simp add: session_def layered_def layerable_def)
        have "read_symbols (syms b1 s) = read_symbols (syms b' s)" by (simp add: b1_def unset_same read_symbols_def dep_symbols_def)
        moreover have "allocated b1 s" by (simp add: b1_def allocated_unset al)
        then have nv: "\<not> valid b1 s" using session_input(1) [OF R1s(1)] by blast
        ultimately have "meaning b1 f y = meaning b' f y" if "y \<in> set (read_symbols (syms b' s))" for y
          using rb s(1) that by (intro m) (auto simp: rankable_def)
        then have "in_range (tab_of b') (meaning b1 f) (syms b' s) ?x" by (rule in_range_agree [OF _ fits(3)])
        moreover have "tab_of b1 = tab_of b'" using R1s(2) R(2) by (simp add: same_equations_def)
        ultimately show ?thesis using in_range_same [OF tb(3,4)] by simp
      qed
      moreover have "sym_string_valid b1 s ?x" using fits(2) tb(3) by (simp add: sym_string_valid_def)
      ultimately obtain st' where st': "sym_string_within_range n s ?x (tab c1) = Some (True, st')" "session U f b1 st'" "keeps (wanted b1 f) (tab c1) st'"
        using within_range_ok [OF R1s(1) s(1) assms(5)] txb tb(3) by auto
      have R2: "resetting U f a b b1 (c1\<lparr>tab := st'\<rparr>)" using R1s st'(2) by (simp add: resetting_def)
      have k: "valid (tab c1) t \<Longrightarrow> valid st' t \<and> s_curr (syms st' t) = s_curr (syms (tab c1) t)" for t
        using keeps_valid [OF st'(3)] st'(3) by (simp add: keeps_def)
      then have ss2: "\<forall>s \<in> set ss. s \<in> U \<and> allocated a s \<and> valid (tab (c1\<lparr>tab := st'\<rparr>)) s" using ss1 by simp
      have "globals st' = globals (tab c1)" using within_range_steady [OF st'(1)] by (simp add: steady_def)
      moreover from Cons(1) [OF ss2 R2] obtain c' b'' where "reset_values n ss (c1\<lparr>tab := st'\<rparr>) = Some c'" "resetting U f a b b'' c'"
        "globals (tab c') = globals st'" "conf_warnings c' = conf_warnings c1" "\<forall>t. valid st' t \<longrightarrow> valid (tab c') t \<and> s_curr (syms (tab c') t) = s_curr (syms st' t)" by auto
      moreover have "reset_values n (s # ss) c = reset_values n ss (c1\<lparr>tab := st'\<rparr>)"
        unfolding e using tx fits(1) tb(2) st'(1) by simp
      ultimately show ?thesis using g1 k by (intro exI [of _ c'] exI [of _ b'']) simp
    qed
  qed
qed

section \<open>Reading what was written\<close>

lemma same_kconfig_count: "same_kconfig a r \<Longrightarrow> same_kconfig a (r\<lparr>change_count := x\<rparr>)"
  by (simp add: same_kconfig_def modules_agree_def has_flag_def)

lemma steady_list: "steady st st' \<Longrightarrow> symbol_list st' = symbol_list st"
  using steady_facts(2) [of st st'] by (simp add: symbol_list_def steady_def globals_def)

lemma read_saved:
  assumes "session U f a st" "same_kconfig a (tab c)" "saves xs f a ps" "\<forall>t \<in> U. allocated a t \<longrightarrow> reloadable xs f a t" "\<And>t. t \<in> U \<Longrightarrow> f t < n"
    and "set (symbol_list (tab c)) \<subseteq> {s \<in> U. allocated a s}" "files nm = Some (pieces_text a ps)"
  shows "\<exists>c'. conf_read n getenv files dl (Some nm) c = Some (False, c') \<and> conf_warnings c' = 0 \<and> conf_unsaved c' = 0 \<and> change_count (tab c') = 0
    \<and> (\<forall>s \<in> set (symbol_list (tab c)). valid (tab c') s \<and> s_curr (syms (tab c') s) = meaning a f s)
    \<and> (\<exists>b. session U f b (tab c') \<and> same_equations U f a b \<and> complete U f a b)"
proof -
  let ?c0 = "on_tab (\<lambda>st. st\<lparr>change_count := 0\<rparr>) c" and ?ss = "symbol_list (tab c)"
  have t0: "tab ?c0 = (tab c)\<lparr>change_count := 0\<rparr>" by (simp add: on_tab_def)
  have sk: "same_kconfig a (tab ?c0)" unfolding t0 by (rule same_kconfig_count [OF assms(2)])
  have rk: "rankable a U f" using assms(1) by (simp add: session_def layered_def layerable_def)
  obtain b c1 where 1: "conf_load n S_DEF_USER (pieces_text a ps) ?c0 = Some c1" "conf_warnings c1 = 0" "conf_unsaved c1 = 0"
      "b = (loaded ps (tab ?c0))\<lparr>modules_val := modules_val a\<rparr>" "session U f b (tab c1)" "all_marked b f (tab c1)" "same_equations U f a b"
      "steady (loaded ps (tab ?c0)) (tab c1)" using load_saved [OF assms(1) sk assms(3,4,5)] by blast
  have d: "distinct (saved_symbols ps)" using assms(3) by (simp add: saves_def)
  have sl: "symbol_list (tab c1) = ?ss"
    using steady_list [OF 1(8)] loaded_same(2) [OF sk d] assms(2) by (simp add: symbol_list_def loaded_frame t0 same_kconfig_def)
  have ss: "\<forall>s \<in> set ?ss. s \<in> U \<and> allocated a s" using assms(6) by auto
  obtain c2 where 2: "check_saved n ?ss c1 = Some c2" "session U f b (tab c2)" "steady (loaded ps (tab ?c0)) (tab c2)" "conf_unsaved c2 = 0"
      "conf_warnings c2 = 0" "\<forall>s \<in> set ?ss. valid (tab c2) s"
    using check_saved_ok [OF assms(1) sk assms(3,4,5) 1(4,7) ss 1(5,6,8)] 1(2,3) by auto
  have sl2: "symbol_list (tab c2) = ?ss" using steady_list [OF 2(3)] steady_list [OF 1(8)] sl by simp
  have "complete U f a b" using loaded_complete [OF sk assms(3,4)] 1(4) by (simp add: complete_def)
  then have R: "resetting U f a b b c2" using 1(7) 2(2,4) by (simp add: resetting_def fewer_refl)
  have ss2: "\<forall>s \<in> set ?ss. s \<in> U \<and> allocated a s \<and> valid (tab c2) s" using ss 2(6) by blast
  obtain c3 b' where 3: "reset_values n ?ss c2 = Some c3" "resetting U f a b b' c3" "globals (tab c3) = globals (tab c2)" "conf_warnings c3 = 0"
      "\<forall>t. valid (tab c2) t \<longrightarrow> valid (tab c3) t \<and> s_curr (syms (tab c3) t) = s_curr (syms (tab c2) t)"
    using reset_values_ok [OF assms(1) sk assms(3,4,5) 1(4) ss2 R] 2(5) by auto
  have u: "conf_unsaved c3 = 0" using 3(2) by (simp add: resetting_def)
  have cc: "change_count (tab c3) = 0" using 3(3) 2(3) by (simp add: steady_def globals_def loaded_frame t0)
  have rd: "ready b U f {} (tab c2)" using 2(2) by (simp add: session_def)
  have "valid (tab c3) s \<and> s_curr (syms (tab c3) s) = meaning a f s" if "s \<in> set ?ss" for s
    using 3(5) 2(6) that ready_value [OF rd, of s] same_meaning [OF 1(7) rk, of s] ss by auto
  moreover have "on_tab (sym_add_change_count 0) c3 = c3" by (simp add: on_tab_def sym_add_change_count_def)
  moreover have "\<exists>b. session U f b (tab c3) \<and> same_equations U f a b \<and> complete U f a b" using 3(2) by (auto simp: resetting_def)
  ultimately show ?thesis using 1(1) 2(1) 3(1,4) u cc sl sl2 assms(7) by (simp add: conf_read_def conf_read_simple_def)
qed

text \<open>What holds after reading it.\<close>

definition reread :: "symbol set \<Rightarrow> (symbol \<Rightarrow> nat) \<Rightarrow> ktab \<Rightarrow> conf \<Rightarrow> conf \<Rightarrow> bool" where
  "reread U f st0 c c' \<longleftrightarrow> conf_warnings c' = 0 \<and> conf_unsaved c' = 0 \<and> change_count (tab c') = 0
     \<and> (\<forall>s \<in> set (symbol_list (tab c)). valid (tab c') s \<and> s_curr (syms (tab c') s) = meaning st0 f s)
     \<and> (\<exists>b. session U f b (tab c') \<and> same_equations U f st0 b \<and> complete U f st0 b)"

lemma write_then_read:
  assumes "session U f st0 st" "all_marked st0 f st" "\<And>t. t \<in> U \<Longrightarrow> f t < n" "known st v ''BR2_VERSION''" "v \<in> U" "symbol_hash st0 = symbol_hash st"
    "walk ms (m_list (node ms 0)) = Some l" "\<forall>x \<in> set l. savable U f st0 (node ms x)" "plain_date date"
    "\<forall>t \<in> U. allocated st0 t \<longrightarrow> reloadable (map (node ms) l) f st0 t"
    "same_kconfig st0 (tab c)" "set (symbol_list (tab c)) \<subseteq> {s \<in> U. allocated st0 s}"
  shows "\<exists>text st'. config_text n getenv (date @ newline) ms st = Some (text, st') \<and> (\<forall>files dl nm. files nm = Some text \<longrightarrow>
    (\<exists>c'. conf_read n getenv files dl (Some nm) c = Some (False, c') \<and> reread U f st0 c c'))"
proof -
  let ?ps = "header_pieces getenv date @ saved_pieces st0 f {} (map (node ms) l)"
  have sv: "\<forall>x \<in> set (map (node ms) l). savable U f st0 x" using assms(8) by simp
  have ps: "saves (map (node ms) l) f st0 ?ps" by (rule saves_pieces [OF assms(1) sv assms(9)])
  note w = config_text_in_session [OF assms(1,2,3,4,5,7,8,6)]
  then obtain st' where st': "config_text n getenv (date @ newline) ms st = Some (pieces_text st0 ?ps, st')" by blast
  have "\<exists>c'. conf_read n getenv files dl (Some nm) c = Some (False, c') \<and> reread U f st0 c c'" if "files nm = Some (pieces_text st0 ?ps)" for files dl nm
    unfolding reread_def by (rule read_saved [OF assms(1,11) ps assms(10,3,12)], assumption) (rule that)
  then show ?thesis using st' by blast
qed

text \<open>Claim C12. Writing the configuration and reading the text back, into any table for the same configuration language files and
  whatever the user's values there, gives every symbol of the table the value it had, without a warning, and \<^verbatim>\<open>conf_read\<close> finds nothing that
  would have to be saved again. So no value is lost by leaving out the symbols that are not to be saved, nor by forgetting the
  values of the symbols that are not visible.\<close>

theorem conf_read_after_write:
  assumes "session U f st0 st" "all_marked st0 f st" "\<And>t. t \<in> U \<Longrightarrow> f t < n" "known st v ''BR2_VERSION''" "v \<in> U" "symbol_hash st0 = symbol_hash st"
    "walk ms (m_list (node ms 0)) = Some l" "\<forall>x \<in> set l. savable U f st0 (node ms x)" "plain_date date"
    "\<forall>t \<in> U. allocated st0 t \<longrightarrow> reloadable (map (node ms) l) f st0 t"
    "same_kconfig st0 (tab c)" "set (symbol_list (tab c)) \<subseteq> {s \<in> U. allocated st0 s}"
  shows "\<exists>text st'. config_text n getenv (date @ newline) ms st = Some (text, st') \<and> (\<forall>files dl nm. files nm = Some text \<longrightarrow>
    (\<exists>c'. conf_read n getenv files dl (Some nm) c = Some (False, c') \<and> conf_warnings c' = 0 \<and> conf_unsaved c' = 0 \<and> change_count (tab c') = 0
      \<and> (\<forall>s \<in> set (symbol_list (tab c)). s_curr (syms (tab c') s) = meaning st0 f s)))"
proof -
  obtain new st' where t: "config_text n getenv (date @ newline) ms st = Some (new, st')"
    and r: "\<forall>files dl nm. files nm = Some new \<longrightarrow> (\<exists>c'. conf_read n getenv files dl (Some nm) c = Some (False, c') \<and> reread U f st0 c c')"
    using write_then_read [OF assms] by blast
  have "reread U f st0 c c' \<Longrightarrow> conf_warnings c' = 0 \<and> conf_unsaved c' = 0 \<and> change_count (tab c') = 0
      \<and> (\<forall>s \<in> set (symbol_list (tab c)). s_curr (syms (tab c') s) = meaning st0 f s)" for c' by (simp add: reread_def)
  with t r show ?thesis by meson
qed

end
