(* ===== verification/KAskProps.thy ===== *)
theory KAskProps
  imports KAsk KConfRead
begin

text \<open>
  Questions end. A loop of questions ends because every round that asks again has read a line, and at the end of the input the answer
  is the current value (locale \<open>question\<close>). For truth values this is always accepted; for strings and numbers exactly if the value is in
  its range.
\<close>

section \<open>Computations\<close>

named_theorems run_simps "equations of the computations"

lemma ret_simps [run_simps]: "ret x a = Some (Returns (x, a))" "followed_by (ret x) g a = g x a" "look h a = Some (Returns (h a, a))"
  "followed_by (look h) g a = g (h a) a"
  by (simp_all add: ret_def look_def followed_by_def)

lemma followed_by_Some [run_simps]: "m a = Some (Returns (x, b)) \<Longrightarrow> followed_by m g a = g x b"
  "m a = Some (Exits c) \<Longrightarrow> followed_by m g a = Some (Exits c)"
  by (simp_all add: followed_by_def)

lemma on_table_Some [run_simps]: "g (a_tab a) = Some (x, st) \<Longrightarrow> on_table g a = Some (Returns (x, a\<lparr>a_tab := st\<rparr>))"
  by (simp add: on_table_def)

lemma followed_by_table: "g (a_tab a) = Some (x, st) \<Longrightarrow> followed_by (on_table g) h a = h x (a\<lparr>a_tab := st\<rparr>)"
  by (simp add: run_simps)

section \<open>Loops of questions\<close>

text \<open>How a round ends the loop.\<close>

definition last_round :: "'a option run \<Rightarrow> ask \<Rightarrow> ('a \<times> ask) ran \<Rightarrow> bool" where
  "last_round qn a r \<longleftrightarrow> qn a = Some (case r of Exits c \<Rightarrow> Exits c | Returns (x, b) \<Rightarrow> Returns (Some x, b))"

lemma asking_unfold: "asking qn a = (case qn a of None \<Rightarrow> None
    | Some (Exits c) \<Rightarrow> Some (Exits c)
    | Some (Returns (Some x, b)) \<Rightarrow> Some (Returns (x, b))
    | Some (Returns (None, b)) \<Rightarrow> asking qn b)"
  unfolding asking_def by (subst while_true.simps) (auto split: option.splits ran.splits)

lemma asking_last: "last_round qn a r \<Longrightarrow> asking qn a = Some r"
  by (subst asking_unfold) (simp add: last_round_def split: ran.splits prod.splits)

lemma asking_again: "qn a = Some (Returns (None, b)) \<Longrightarrow> asking qn a = asking qn b"
  by (subst asking_unfold) simp

lemma round_cases:
  assumes "qn a \<noteq> None"
  obtains (again) b where "qn a = Some (Returns (None, b))" | (ends) r where "last_round qn a r"
proof -
  obtain z where z: "qn a = Some z" using assms by auto
  show thesis
  proof (cases z)
    case (Exits c)
    then show thesis using ends [of "Exits c"] z by (simp add: last_round_def)
  next
    case (Returns p)
    obtain x b where p: "p = (x, b)" by (cases p)
    show thesis
      by (cases x) (use again [of b] ends [of "Returns (the x, b)"] z Returns p in \<open>simp_all add: last_round_def\<close>)
  qed
qed

text \<open>A round is defined, and one that asks again has read something.\<close>

locale question =
  fixes inv :: "ask \<Rightarrow> bool" and qn :: "'a option run"
  assumes defined: "inv a \<Longrightarrow> qn a \<noteq> None"
    and progress: "inv a \<Longrightarrow> qn a = Some (Returns (None, b)) \<Longrightarrow> inv b \<and> length (stdin b) < length (stdin a)"
begin

lemma loop_ends: "inv a \<Longrightarrow> \<exists>b r. inv b \<and> last_round qn b r \<and> asking qn a = Some r"
proof (induction "length (stdin a)" arbitrary: a rule: less_induct)
  case less
  from defined [OF less(2)] show ?case
  proof (cases rule: round_cases)
    case (again b)
    with less(1) [of b] progress [OF less(2)] show ?thesis by (simp add: asking_again)
  next
    case (ends r)
    with less(2) asking_last show ?thesis by blast
  qed
qed

end

text \<open>A round that asks again and leaves the state in a set of such states never ends.\<close>

lemma asking_forever:
  assumes "\<And>a. S a \<Longrightarrow> \<exists>b. qn a = Some (Returns (None, b)) \<and> S b" "S a"
  shows "asking qn a = None"
proof (rule ccontr)
  define g where "g = (\<lambda>a. case qn a of None \<Rightarrow> None | Some (Exits c) \<Rightarrow> Some (Inr (Exits c))
     | Some (Returns (Some x, b)) \<Rightarrow> Some (Inr (Returns (x, b))) | Some (Returns (None, b)) \<Rightarrow> Some (Inl b))"
  have g: "\<exists>b. g a = Some (Inl b) \<and> S b" if "S a" for a using assms(1) [OF that] by (auto simp: g_def)
  assume "asking qn a \<noteq> None"
  then obtain r where "while_true g a = Some r" unfolding asking_def g_def by blast
  moreover have "h = g \<longrightarrow> \<not> S c" if z: "while_true h c = Some z" for h c z
  proof (rule while_true.raw_induct [OF _ z, of "\<lambda>k a y. k = g \<longrightarrow> \<not> S a"])
    fix w :: "(ask \<Rightarrow> (ask + ('a \<times> ask) ran) option) \<Rightarrow> ask \<Rightarrow> ('a \<times> ask) ran option"
    fix k a y
    assume w: "\<And>k a y. w k a = Some y \<Longrightarrow> k = g \<longrightarrow> \<not> S a"
      and y: "(case k a of None \<Rightarrow> None | Some (Inl b) \<Rightarrow> w k b | Some (Inr r) \<Rightarrow> Some r) = Some y"
    show "k = g \<longrightarrow> \<not> S a"
    proof (intro impI notI)
      assume k: "k = g" and "S a"
      then obtain b where "g a = Some (Inl b)" "S b" using g by blast
      then show False using w [of k b y] y k by simp
    qed
  qed
  ultimately show False using assms(2) by blast
qed

section \<open>Reading a line\<close>

lemma newline_simps [simp]: "newline \<noteq> []" "hd newline = CHR 0x0A" "strip newline = []"
  by (simp_all add: newline_def strip_def c_isspace_def)

text \<open>What a line of input leaves: nothing at its end, else a line, which may be cut by a null byte.\<close>

definition line_read :: "string \<Rightarrow> string \<Rightarrow> string \<Rightarrow> bool" where
  "line_read inp ln rest \<longleftrightarrow> ln = newline \<and> rest = inp
     \<or> (\<exists>l. inp = l @ rest \<and> l \<noteq> [] \<and> ln = takeWhile (\<lambda>c. c \<noteq> CHR 0x00) l)"

lemma get_line_result:
  assumes "line a = newline"
  obtains ln rest where "get_line a = Some (Returns ((), a\<lparr>line := ln, stdin := rest\<rparr>))" "line_read (stdin a) ln rest"
    "stdin a = [] \<Longrightarrow> ln = newline"
proof -
  obtain l r where l: "take_line 127 (stdin a) = (l, r)" by fastforce
  have ap: "stdin a = l @ r" by (rule take_line_append [OF l])
  show thesis
  proof (cases "l = []")
    case True
    have "a\<lparr>line := newline, stdin := stdin a\<rparr> = a" using assms by simp
    then show thesis using that [where ln = newline and rest = "stdin a"] l True by (simp add: get_line_def ret_def line_read_def)
  next
    case False
    then show thesis using that [where ln = "takeWhile (\<lambda>c. c \<noteq> CHR 0x00) l" and rest = r] l ap by (auto simp: get_line_def ret_def line_read_def)
  qed
qed

text \<open>Whether the value is asked for; the modes that read no line take the current value.\<close>

definition asks :: "symbol \<Rightarrow> ask \<Rightarrow> bool" where
  "asks s a \<longleftrightarrow> sym_is_changable (a_tab a) s \<and> (input_mode a \<in> {ask_new, ask_silent} \<longrightarrow> \<not> sym_has_value (a_tab a) s)"

lemma askvalue_not: "\<not> asks s a \<Longrightarrow> conf_askvalue s a = Some (Returns (False, a\<lparr>line := newline\<rparr>))"
  by (auto simp: conf_askvalue_def asks_def Let_def run_simps)

lemma askvalue_result:
  assumes "asks s a"
  obtains (aborted) "conf_askvalue s a = Some (Exits 1)" "\<not> valid_stdin a" "input_mode a \<in> {ask_new, ask_silent}"
  | (read) ln rest where "conf_askvalue s a = Some (Returns (True, a\<lparr>line := ln, stdin := rest\<rparr>))" "line_read (stdin a) ln rest"
      "stdin a = [] \<Longrightarrow> ln = newline" "input_mode a \<in> {ask_new, ask_silent} \<longrightarrow> valid_stdin a"
proof -
  let ?a = "a\<lparr>line := newline\<rparr>"
  obtain ln rest where l: "get_line ?a = Some (Returns ((), ?a\<lparr>line := ln, stdin := rest\<rparr>))" "line_read (stdin a) ln rest"
      "stdin a = [] \<Longrightarrow> ln = newline" by (rule get_line_result [of ?a]) simp_all
  show thesis
  proof (cases "input_mode a \<in> {ask_new, ask_silent} \<and> \<not> valid_stdin a")
    case True
    then show thesis using aborted assms by (auto simp: conf_askvalue_def asks_def Let_def check_stdin_def run_simps followed_by_def)
  next
    case False
    show thesis
    proof (cases "input_mode a \<in> {ask_new, ask_silent, ask_all}")
      case True
      then have "conf_askvalue s a = Some (Returns (True, a\<lparr>line := ln, stdin := rest\<rparr>))"
        using False assms l(1) by (auto simp: conf_askvalue_def asks_def Let_def check_stdin_def run_simps followed_by_def)
      then show thesis using read l(2,3) False by blast
    next
      case no: False
      then have "conf_askvalue s a = Some (Returns (True, a\<lparr>line := newline, stdin := stdin a\<rparr>))"
        using assms by (simp add: conf_askvalue_def asks_def Let_def run_simps)
      then show thesis using read [where ln = newline and rest = "stdin a"] no by (simp add: line_read_def)
    qed
  qed
qed

section \<open>Truth values\<close>

lemma set_tristate_result:
  "sym_set_tristate_value n s v st = Some (ok, st') \<Longrightarrow> ok \<longleftrightarrow> sym_get_tristate_value st s = v \<or> sym_tristate_within_range st s v"
  "sym_set_tristate_value n s v st = Some (False, st') \<Longrightarrow> st' = st"
  by (auto simp: sym_set_tristate_value_def Let_def split: if_splits option.splits bind_splits)

text \<open>What stays while a symbol is asked for.\<close>

definition sym_asked :: "nat \<Rightarrow> symbol \<Rightarrow> ask \<Rightarrow> ask \<Rightarrow> bool" where
  "sym_asked n s a0 a \<longleftrightarrow> (\<exists>ln inp. a = a0\<lparr>line := ln, stdin := inp\<rparr> \<and> (\<exists>l. stdin a0 = l @ inp)) \<and> (\<forall>v. sym_set_tristate_value n s v (a_tab a0) \<noteq> None)"

lemma sym_round_read:
  assumes "conf_askvalue s a = Some (Returns (True, a\<lparr>line := ln, stdin := rest\<rparr>))"
  shows "sym_round n s a = (case tri_answer (sym_get_tristate_value (a_tab a) s) (strip ln) of
      None \<Rightarrow> Some (Returns (None, a\<lparr>line := strip ln, stdin := rest\<rparr>))
    | Some v \<Rightarrow> (case sym_set_tristate_value n s v (a_tab a) of None \<Rightarrow> None
      | Some (ok, st) \<Rightarrow> Some (Returns (if ok then Some () else None, a\<lparr>a_tab := st, line := strip ln, stdin := rest\<rparr>))))"
  using assms by (auto simp: sym_round_def Let_def run_simps strip_line_def followed_by_def on_table_def split: option.splits)

lemma sym_round_skip: "\<not> asks s a \<Longrightarrow> sym_round n s a = Some (Returns (Some (), a\<lparr>line := newline\<rparr>))"
  by (simp add: sym_round_def Let_def followed_by_def askvalue_not ret_def)

lemma sym_round_exit: "conf_askvalue s a = Some (Exits 1) \<Longrightarrow> sym_round n s a = Some (Exits 1)"
  by (simp add: sym_round_def Let_def followed_by_def)

lemma tri_answer_empty [simp]: "tri_answer old [] = Some old"
  by (simp add: tri_answer_def)

lemma line_read_shorter: "line_read inp ln rest \<Longrightarrow> ln \<noteq> newline \<Longrightarrow> length rest < length inp"
  by (auto simp: line_read_def)

lemma sym_asked_read: "sym_asked n s a0 a \<Longrightarrow> line_read (stdin a) ln rest \<Longrightarrow> sym_asked n s a0 (a\<lparr>line := ln', stdin := rest\<rparr>)"
  by (fastforce simp: sym_asked_def line_read_def)

lemma sym_round_spec:
  assumes "sym_asked n s a0 a"
  shows "sym_round n s a \<noteq> None" and "sym_round n s a = Some (Returns (None, b)) \<Longrightarrow> sym_asked n s a0 b \<and> length (stdin b) < length (stdin a)"
proof -
  have set: "sym_set_tristate_value n s v (a_tab a) \<noteq> None" for v using assms by (auto simp: sym_asked_def)
  have "sym_round n s a \<noteq> None \<and> (sym_round n s a = Some (Returns (None, b)) \<longrightarrow> sym_asked n s a0 b \<and> length (stdin b) < length (stdin a))"
  proof (cases "asks s a")
    case True
    then show ?thesis
    proof (cases rule: askvalue_result)
      case aborted
      then show ?thesis by (simp add: sym_round_exit)
    next
      case (read ln rest)
      let ?old = "sym_get_tristate_value (a_tab a) s"
      obtain ok st where old: "sym_set_tristate_value n s ?old (a_tab a) = Some (ok, st)" using set [of ?old] by auto
      then have ok using set_tristate_result(1) [OF old] by simp
      have dn: "strip ln \<noteq> []" if "sym_round n s a = Some (Returns (None, c))" for c
        using that old \<open>ok\<close> unfolding sym_round_read [OF read(1)] by auto
      have b: "b = a\<lparr>line := strip ln, stdin := rest\<rparr>" if "sym_round n s a = Some (Returns (None, b))"
        using that set_tristate_result(2) [of n s _ "a_tab a"] unfolding sym_round_read [OF read(1)]
        by (fastforce split: option.splits if_splits prod.splits)
      have "sym_round n s a \<noteq> None"
      proof (cases "tri_answer ?old (strip ln)")
        case (Some v)
        then show ?thesis using set [of v] by (auto simp: sym_round_read [OF read(1)])
      qed (simp add: sym_round_read [OF read(1)])
      moreover have "length rest < length (stdin a)" if "sym_round n s a = Some (Returns (None, b))"
        using dn [OF that] line_read_shorter [OF read(2)] by fastforce
      ultimately show ?thesis using b sym_asked_read [OF assms read(2)] by auto
    qed
  qed (simp add: sym_round_skip)
  then show "sym_round n s a \<noteq> None" "sym_round n s a = Some (Returns (None, b)) \<Longrightarrow> sym_asked n s a0 b \<and> length (stdin b) < length (stdin a)" by blast+
qed

interpretation sym_question: question "sym_asked n s a0" "sym_round n s" for n s a0
  by unfold_locales (use sym_round_spec in blast)+

lemma set_tristate_total:
  assumes "session U f st0 st" "\<And>t. t \<in> U \<Longrightarrow> f t < n"
  shows "sym_set_tristate_value n s v st \<noteq> None"
proof -
  have "modules_agree (chosen_tri s v st)" using assms(1) by (simp add: session_def modules_agree_def chosen_facts)
  from clear_session [OF chosen_layerable [OF session_layerable [OF assms(1)]] this assms(2)]
  obtain st1 where c: "sym_clear_all_valid n (chosen_tri s v st) = Some st1" by blast
  have "ready st0 U f {} st" using assms(1) by (simp add: session_def)
  then have nc: "\<not> sym_is_choice_value st s" by (rule ready_fields(10))
  then have "\<not> sym_is_choice_value (mark_user s st) s"
    using mark_user_syms(6) [of SYMBOL_CHOICEVAL s st] by (simp add: sym_is_choice_value_def has_flag_def)
  then show ?thesis using c by (simp add: sym_set_tristate_value_def Let_def chosen_tri_def ex_bool_eq)
qed

lemma sym_asked_start:
  assumes "session U f st0 (a_tab a)" "\<And>t. t \<in> U \<Longrightarrow> f t < n"
  shows "sym_asked n s a a"
proof -
  have "a = a\<lparr>line := line a, stdin := stdin a\<rparr>" "\<exists>l. stdin a = l @ stdin a" by simp_all
  then show ?thesis using set_tristate_total [OF assms] unfolding sym_asked_def by blast
qed

text \<open>A value that was accepted is what evaluating the symbol gives.\<close>

lemma set_tristate_answer:
  assumes "session U f st0 st" "settable U f st s" "\<And>t. t \<in> U \<Longrightarrow> f t < n" "sym_set_tristate_value n s v st = Some (True, st1)"
  shows "sym_has_value st1 s \<and> (\<exists>st2. sym_calc_value n s st1 = Some st2 \<and> sym_get_tristate_value st2 s = v)"
proof (cases "sym_get_tristate_value st s = v")
  case True
  have r: "ready st0 U f {} st" using assms(1) by (simp add: session_def)
  have "\<not> sym_is_choice_value (mark_user s st) s"
    using ready_fields(10) [OF r, of s] mark_user_syms(6) [of SYMBOL_CHOICEVAL s st] by (simp add: sym_is_choice_value_def has_flag_def)
  then have e: "st1 = chosen_tri s v st" using assms(4) True by (simp add: sym_set_tristate_value_def Let_def chosen_tri_def)
  obtain n' where "n = Suc n'" using assms(2,3) by (cases n) (auto simp: settable_def)
  moreover have "has_flag st1 s SYMBOL_VALID" using assms(2) by (simp add: e has_flag_def chosen_facts settable_def valid_def)
  ultimately have "sym_calc_value n s st1 = Some st1" by simp
  then show ?thesis using True by (simp add: e sym_has_value_def has_flag_def chosen_facts sym_get_tristate_value_def)
next
  case False
  then have w: "sym_tristate_within_range st s v" using set_tristate_result(1) [OF assms(4)] by simp
  obtain st2 where 2: "session U f (cleared (chosen_tri s v st)) st1" "sym_calc_value n s st1 = Some st2" "sym_get_tristate_value st2 s = v"
    using set_effect [OF assms(1-3) False w] assms(4) by auto
  have "ready (cleared (chosen_tri s v st)) U f {} st1" using 2(1) by (simp add: session_def)
  then have "sym_has_value st1 s" by (simp add: ready_fields(8) cleared_syms chosen_facts)
  then show ?thesis using 2(2,3) by blast
qed

text \<open>Claim C33. Asking for a truth value ends on any input: a line that is no answer, or a value out of range, asks again, but only
  after it has been read, and at the end of the input the answer is the current value, which is never refused. If the symbol is asked
  for, it ends with a value of the user that is in its range or the one it had, and evaluating the symbol gives that value; else nothing is
  read. The program exits only if a new symbol would have to be asked for and input or output is no terminal.\<close>

theorem conf_sym_ends:
  assumes "session U f st0 (a_tab a)" "settable U f (a_tab a) s" "\<And>t. t \<in> U \<Longrightarrow> f t < n"
  shows "\<exists>r. conf_sym n s a = Some r \<and> (case r of
      Exits c \<Rightarrow> c = 1 \<and> asks s a \<and> \<not> valid_stdin a \<and> input_mode a \<in> {ask_new, ask_silent}
    | Returns (_, b) \<Rightarrow> if \<not> asks s a then b = a\<lparr>line := newline\<rparr>
        else (\<exists>l. stdin a = l @ stdin b) \<and> sym_has_value (a_tab b) s
          \<and> (\<exists>v st. (v = sym_get_tristate_value (a_tab a) s \<or> sym_tristate_within_range (a_tab a) s v)
              \<and> sym_calc_value n s (a_tab b) = Some st \<and> sym_get_tristate_value st s = v))"
proof (cases "asks s a")
  case False
  then have "last_round (sym_round n s) a (Returns ((), a\<lparr>line := newline\<rparr>))" by (simp add: last_round_def sym_round_skip)
  then show ?thesis using False asking_last [of "sym_round n s" a] by (auto simp: conf_sym_def)
next
  case True
  let ?old = "sym_get_tristate_value (a_tab a) s"
  have "sym_asked n s a a" by (rule sym_asked_start [OF assms(1,3)])
  then obtain b r where b: "sym_asked n s a b" "last_round (sym_round n s) b r" "conf_sym n s a = Some r"
    using sym_question.loop_ends by (fastforce simp: conf_sym_def)
  obtain ln inp l where ab: "b = a\<lparr>line := ln, stdin := inp\<rparr>" "stdin a = l @ inp" using b(1) by (auto simp: sym_asked_def)
  have "asks s b" using True by (simp add: asks_def ab(1))
  then show ?thesis
  proof (cases rule: askvalue_result)
    case aborted
    then have "r = Exits 1" using b(2) sym_round_exit by (auto simp: last_round_def split: ran.splits)
    then show ?thesis using b(3) aborted(2,3) True by (simp add: ab(1))
  next
    case (read ln' rest)
    obtain v st where v: "r = Returns ((), b\<lparr>a_tab := st, line := strip ln', stdin := rest\<rparr>)" "sym_set_tristate_value n s v (a_tab a) = Some (True, st)"
      using b(2) unfolding last_round_def sym_round_read [OF read(1)] by (auto simp: ab(1) split: option.splits ran.splits if_splits)
    have "\<exists>l. stdin a = l @ rest" using ab read(2) by (auto simp: line_read_def)
    moreover have "v = ?old \<or> sym_tristate_within_range (a_tab a) s v" using set_tristate_result(1) [OF v(2)] by auto
    moreover note set_tristate_answer [OF assms v(2)]
    ultimately show ?thesis using b(3) True by (auto simp: v(1))
  qed
qed

section \<open>Strings and numbers\<close>

text \<open>A string as the value of a symbol is accepted exactly if it is valid and in the range, and refusing it only evaluates symbols.\<close>

definition fits_range :: "(symbol \<Rightarrow> nat) \<Rightarrow> ktab \<Rightarrow> symbol \<Rightarrow> string \<Rightarrow> bool" where
  "fits_range f st0 s x \<longleftrightarrow> sym_string_valid st0 s x \<and> in_range (tab_of st0) (meaning st0 f) (syms st0 s) x"

lemma given_layerable:
  assumes "session U f st0 st"
  shows "layerable U f (upd s (set_user g) (mark_user s st)) \<and> modules_agree (upd s (set_user g) (mark_user s st))"
proof -
  define c where "c = upd s (set_user g) (mark_user s st)"
  have l: "layerable U f st" by (rule session_layerable [OF assms])
  have k: "s_type (syms c t) = s_type (syms st t)" "s_prop (syms c t) = s_prop (syms st t)" "s_rev_expr (syms c t) = s_rev_expr (syms st t)"
    "s_curr (syms c t) = s_curr (syms st t)" "modules_sym c = modules_sym st" "next_sym c = next_sym st" "modules_val c = modules_val st" for t
    by (cases "t = s"; simp add: c_def mark_user_def set_user_def sym_set_changed_def set_flag_def)+
  have fl: "x \<in> s_flags (syms c t) \<longleftrightarrow> x \<in> s_flags (syms st t)" if "x \<noteq> SYMBOL_DEF_USER" "x \<noteq> SYMBOL_CHANGED" for x t
    using that by (cases "t = s") (simp_all add: c_def mark_user_def set_user_def sym_set_changed_def set_flag_def)
  have "plain st" using l by (simp add: layerable_def rankable_def)
  then have "plain c" using fl by (simp add: plain_def)
  moreover have "valid c t = valid st t" for t using fl by (simp add: valid_def has_flag_def)
  ultimately have "layerable U f c" by (intro layerable_static [OF l]) (simp_all add: k)
  moreover have "modules_agree c" using assms by (simp add: session_def modules_agree_def k)
  ultimately show ?thesis unfolding c_def by blast
qed

lemma set_string_result:
  assumes "session U f st0 st" "s \<in> U" "\<And>t. t \<in> U \<Longrightarrow> f t < n" "is_textual (s_type (syms st0 s))"
  shows "\<exists>st'. sym_set_string_value n s x st = Some (fits_range f st0 s x, st')
    \<and> (\<not> fits_range f st0 s x \<longrightarrow> session U f st0 st' \<and> keeps (wanted st0 f) st st')"
proof -
  obtain st1 where 1: "sym_string_within_range n s x st = Some (fits_range f st0 s x, st1)" "session U f st0 st1" "keeps (wanted st0 f) st st1"
    using within_range_value [OF assms] by (auto simp: fits_range_def)
  have "ready st0 U f {} st" using assms(1) by (simp add: session_def)
  then have ty: "\<not> is_logical (s_type (syms st s))" using assms(4) textual_not_logical by (simp add: ready_fields(3))
  have total: "\<exists>st2. sym_clear_all_valid n (upd s (set_user g) (mark_user s st1)) = Some st2" for g
    using clear_session [OF conjunct1 conjunct2, OF given_layerable [OF 1(2)] given_layerable [OF 1(2)] assms(3)] by blast
  show ?thesis
  proof (cases "fits_range f st0 s x")
    case True
    obtain st2 st3 where "sym_clear_all_valid n (upd s (set_user (\<lambda>u. u\<lparr>u_val := Some (''0x'' @ x)\<rparr>)) (mark_user s st1)) = Some st2"
      "sym_clear_all_valid n (upd s (set_user (\<lambda>u. u\<lparr>u_val := Some x\<rparr>)) (mark_user s st1)) = Some st3" using total by blast
    then show ?thesis using 1(1) ty True by (simp add: sym_set_string_value_def Let_def)
  next
    case False
    then show ?thesis using 1 ty by (simp add: sym_set_string_value_def Let_def)
  qed
qed

definition only_reads :: "ask \<Rightarrow> ask \<Rightarrow> bool" where
  "only_reads a0 a \<longleftrightarrow> (\<exists>st ln inp. a = a0\<lparr>a_tab := st, line := ln, stdin := inp\<rparr>)"

lemma only_reads_simps: "only_reads a0 a \<Longrightarrow> only_reads a0 (a\<lparr>a_tab := st, line := ln, stdin := rest\<rparr>)" "only_reads a a"
  "only_reads a0 a \<Longrightarrow> input_mode a = input_mode a0 \<and> valid_stdin a = valid_stdin a0"
proof -
  assume "only_reads a0 a"
  then obtain st1 ln1 inp1 where a: "a = a0\<lparr>a_tab := st1, line := ln1, stdin := inp1\<rparr>" by (auto simp: only_reads_def)
  then show "only_reads a0 (a\<lparr>a_tab := st, line := ln, stdin := rest\<rparr>)" "input_mode a = input_mode a0 \<and> valid_stdin a = valid_stdin a0"
    unfolding only_reads_def by (intro exI [of _ st] exI [of _ ln] exI [of _ rest], simp_all)
next
  have "a = a\<lparr>a_tab := a_tab a, line := line a, stdin := stdin a\<rparr>" by simp
  then show "only_reads a a" unfolding only_reads_def by blast
qed

definition string_asked :: "symbol set \<Rightarrow> (symbol \<Rightarrow> nat) \<Rightarrow> nat \<Rightarrow> ktab \<Rightarrow> symbol \<Rightarrow> ask \<Rightarrow> ask \<Rightarrow> bool" where
  "string_asked U f n st0 s a0 a \<longleftrightarrow> only_reads a0 a \<and> session U f st0 (a_tab a)
     \<and> syms (a_tab a) s = syms (a_tab a0) s \<and> valid (a_tab a) s \<and> CHR 0x00 \<notin> set (stdin a)
     \<and> s \<in> U \<and> is_textual (s_type (syms st0 s)) \<and> (\<forall>t \<in> U. f t < n)"

lemma string_asked_asks: "string_asked U f n st0 s a0 a \<Longrightarrow> asks s a = asks s a0 \<and> input_mode a = input_mode a0 \<and> valid_stdin a = valid_stdin a0"
  using only_reads_simps(3) [of a0 a] by (simp add: string_asked_def asks_def sym_is_changable_def sym_has_value_def has_flag_def)

lemma string_round_skip: "\<not> asks s a \<Longrightarrow> string_round n s a = Some (Returns (Some (), a\<lparr>line := newline\<rparr>))"
  by (simp add: string_round_def Let_def followed_by_def askvalue_not ret_def)

lemma string_round_exit: "conf_askvalue s a = Some (Exits 1) \<Longrightarrow> string_round n s a = Some (Exits 1)"
  by (simp add: string_round_def Let_def followed_by_def)

lemma string_round_read:
  assumes "conf_askvalue s a = Some (Returns (True, a\<lparr>line := ln, stdin := rest\<rparr>))"
  shows "string_round n s a = (case string_answer (sym_get_string_value (tab_of (a_tab a)) (values_of (a_tab a)) s) ln of
      None \<Rightarrow> None
    | Some None \<Rightarrow> Some (Returns (None, a\<lparr>line := ln, stdin := rest\<rparr>))
    | Some (Some x) \<Rightarrow> (case sym_set_string_value n s x (a_tab a) of None \<Rightarrow> None
      | Some (ok, st) \<Rightarrow> Some (Returns (if ok then Some () else None, a\<lparr>a_tab := st, line := ln, stdin := rest\<rparr>))))"
  using assms by (auto simp: string_round_def Let_def run_simps followed_by_def on_table_def split: option.splits)

text \<open>The value that the question offers.\<close>

lemma string_asked_value:
  assumes "string_asked U f n st0 s a0 a"
  shows "sym_get_string_value (tab_of (a_tab a)) (values_of (a_tab a)) s = val (meaning st0 f s)"
proof -
  have r: "ready st0 U f {} (a_tab a)" and v: "valid (a_tab a) s" and tx: "is_textual (s_type (syms st0 s))"
    using assms by (auto simp: string_asked_def session_def)
  have "\<not> is_logical (s_type (syms (a_tab a) s))" using tx textual_not_logical ready_fields(3) [OF r] by simp
  then show ?thesis using ready_value [OF r v] by (auto simp: sym_get_string_value_def tab_of_def values_of_def is_logical_def)
qed

lemma string_asked_read:
  assumes "string_asked U f n st0 s a0 a" "line_read (stdin a) ln rest" "session U f st0 st" "keeps (wanted st0 f) (a_tab a) st"
  shows "string_asked U f n st0 s a0 (a\<lparr>a_tab := st, line := ln', stdin := rest\<rparr>)"
proof -
  have v: "valid (a_tab a) s" using assms(1) by (simp add: string_asked_def)
  have "valid st s" "syms st s = syms (a_tab a) s" using keeps_valid [OF assms(4) v] assms(4) v by (simp_all add: keeps_def)
  moreover have "set rest \<subseteq> set (stdin a)" using assms(2) by (auto simp: line_read_def)
  ultimately show ?thesis using assms(1,3) only_reads_simps(1) [of a0 a] by (auto simp: string_asked_def)
qed

lemma string_asked_same:
  "string_asked U f n st0 s a0 a \<Longrightarrow> line_read (stdin a) ln rest \<Longrightarrow> string_asked U f n st0 s a0 (a\<lparr>line := ln', stdin := rest\<rparr>)"
  using string_asked_read [of U f n st0 s a0 a ln rest "a_tab a" ln'] by (simp add: string_asked_def keeps_refl)

text \<open>A line without null bytes is an answer; the empty line and the end of the input take the value that is offered.\<close>

lemma line_read_answer:
  assumes "line_read inp ln rest" "CHR 0x00 \<notin> set inp"
  shows "ln \<noteq> []" "string_answer x newline = Some (Some x)" "string_answer x ln \<noteq> None"
proof -
  have "takeWhile (\<lambda>c. c \<noteq> CHR 0x00) l = l" if "inp = l @ rest" for l
  proof -
    have "\<forall>c \<in> set l. c \<noteq> CHR 0x00" using assms(2) that by auto
    then show ?thesis by (rule takeWhile_eq_all_conv [THEN iffD2])
  qed
  then show ln: "ln \<noteq> []" using assms(1) newline_simps(1) unfolding line_read_def by metis
  show "string_answer x newline = Some (Some x)" by (simp add: string_answer_def)
  show "string_answer x ln \<noteq> None" using ln by (simp add: string_answer_def)
qed

text \<open>One round.\<close>

lemma string_round_spec:
  assumes "string_asked U f n st0 s a0 a" "asks s a" "input_mode a \<in> {ask_new, ask_silent} \<longrightarrow> valid_stdin a"
  obtains (accepted) b where "string_round n s a = Some (Returns (Some (), b))"
  | (again) b where "string_round n s a = Some (Returns (None, b))" "string_asked U f n st0 s a0 b"
      "length (stdin b) < length (stdin a) \<or> stdin b = stdin a \<and> \<not> fits_range f st0 s (val (meaning st0 f s))"
proof -
  note sa = assms(1) [unfolded string_asked_def]
  from assms(2) show thesis
  proof (cases rule: askvalue_result)
    case aborted
    then show thesis using assms(3) by simp
  next
    case (read ln rest)
    note rd = string_round_read [OF read(1), unfolded string_asked_value [OF assms(1)]]
    let ?def = "val (meaning st0 f s)"
    have nn: "CHR 0x00 \<notin> set (stdin a)" using sa by blast
    note la = line_read_answer(2,3) [OF read(2) nn, of ?def]
    obtain z where z: "string_answer ?def ln = Some z" using la(2) by blast
    have shorter: "length rest < length (stdin a) \<or> ln = newline \<and> rest = stdin a" using read(2) by (auto simp: line_read_def)
    show thesis
    proof (cases z)
      case None
      then have "ln \<noteq> newline" using z la(1) by auto
      then have "length rest < length (stdin a)" using shorter by simp
      then show thesis using again [of "a\<lparr>line := ln, stdin := rest\<rparr>"] string_asked_same [OF assms(1) read(2)] z None by (simp add: rd)
    next
      case (Some x)
      have ses: "session U f st0 (a_tab a)" and s: "s \<in> U" and tx: "is_textual (s_type (syms st0 s))" and dp: "\<And>t. t \<in> U \<Longrightarrow> f t < n"
        using sa by blast+
      obtain st where st: "sym_set_string_value n s x (a_tab a) = Some (fits_range f st0 s x, st)"
        "\<not> fits_range f st0 s x \<Longrightarrow> session U f st0 st \<and> keeps (wanted st0 f) (a_tab a) st"
        using set_string_result [OF ses s dp tx, of x] by blast
      let ?b = "a\<lparr>a_tab := st, line := ln, stdin := rest\<rparr>"
      have e: "string_round n s a = Some (Returns (if fits_range f st0 s x then Some () else None, ?b))" using z Some st(1) by (simp add: rd)
      show thesis
      proof (cases "fits_range f st0 s x")
        case True
        then show thesis using accepted e by simp
      next
        case False
        have "length rest < length (stdin a) \<or> rest = stdin a \<and> \<not> fits_range f st0 s ?def" using shorter z Some la(1) False by auto
        then show thesis using again [of ?b] e False string_asked_read [OF assms(1) read(2)] st(2) by simp
      qed
    qed
  qed
qed

text \<open>At the end of the input the offered value is the answer.\<close>

lemma string_round_at_end:
  assumes "string_asked U f n st0 s a0 a" "asks s a" "input_mode a \<in> {ask_new, ask_silent} \<longrightarrow> valid_stdin a" "stdin a = []"
    "\<not> fits_range f st0 s (val (meaning st0 f s))"
  shows "\<exists>b. string_round n s a = Some (Returns (None, b)) \<and> string_asked U f n st0 s a0 b \<and> stdin b = []"
proof -
  note sa = assms(1) [unfolded string_asked_def]
  let ?def = "val (meaning st0 f s)"
  from assms(2) show ?thesis
  proof (cases rule: askvalue_result)
    case aborted
    then show ?thesis using assms(3) by simp
  next
    case (read ln rest)
    have ln: "ln = newline" "rest = []" using read(2,3) assms(4) by (auto simp: line_read_def)
    obtain st where st: "sym_set_string_value n s ?def (a_tab a) = Some (False, st)" "session U f st0 st" "keeps (wanted st0 f) (a_tab a) st"
      using set_string_result [of U f st0 "a_tab a" s n ?def] sa assms(5) by auto
    have "string_answer ?def newline = Some (Some ?def)" by (simp add: string_answer_def)
    then have "string_round n s a = Some (Returns (None, a\<lparr>a_tab := st, line := ln, stdin := rest\<rparr>))"
      using st(1) string_round_read [OF read(1)] by (simp add: string_asked_value [OF assms(1)] ln)
    then show ?thesis using string_asked_read [OF assms(1) read(2) st(2,3)] ln by fastforce
  qed
qed

text \<open>The states of a question about a string that ends.\<close>

definition string_ends :: "symbol set \<Rightarrow> (symbol \<Rightarrow> nat) \<Rightarrow> nat \<Rightarrow> ktab \<Rightarrow> symbol \<Rightarrow> ask \<Rightarrow> ask \<Rightarrow> bool" where
  "string_ends U f n st0 s a0 a \<longleftrightarrow> string_asked U f n st0 s a0 a
     \<and> (asks s a0 \<longrightarrow> input_mode a0 \<in> {ask_new, ask_silent} \<and> \<not> valid_stdin a0 \<or> fits_range f st0 s (val (meaning st0 f s)))"

lemma string_ends_spec:
  assumes "string_ends U f n st0 s a0 a"
  shows "string_round n s a \<noteq> None"
    "string_round n s a = Some (Returns (None, b)) \<Longrightarrow> string_ends U f n st0 s a0 b \<and> length (stdin b) < length (stdin a)"
proof -
  have sa: "string_asked U f n st0 s a0 a" using assms by (simp add: string_ends_def)
  have "string_round n s a \<noteq> None
    \<and> (string_round n s a = Some (Returns (None, b)) \<longrightarrow> string_ends U f n st0 s a0 b \<and> length (stdin b) < length (stdin a))"
  proof (cases "asks s a \<and> (input_mode a \<in> {ask_new, ask_silent} \<longrightarrow> valid_stdin a)")
    case True
    then have fits: "fits_range f st0 s (val (meaning st0 f s))" using assms string_asked_asks [OF sa] by (auto simp: string_ends_def)
    from True have "asks s a" "input_mode a \<in> {ask_new, ask_silent} \<longrightarrow> valid_stdin a" by simp_all
    from string_round_spec [OF sa this] show ?thesis
      by cases (use assms fits in \<open>auto simp: string_ends_def\<close>)
  next
    case False
    then consider "\<not> asks s a" | "asks s a" "input_mode a \<in> {ask_new, ask_silent}" "\<not> valid_stdin a" by blast
    then show ?thesis
    proof cases
      case 2
      from 2(1) have "conf_askvalue s a = Some (Exits 1)" by (cases rule: askvalue_result) (use 2 in auto)
      then show ?thesis by (simp add: string_round_exit)
    qed (simp add: string_round_skip)
  qed
  then show "string_round n s a \<noteq> None"
    "string_round n s a = Some (Returns (None, b)) \<Longrightarrow> string_ends U f n st0 s a0 b \<and> length (stdin b) < length (stdin a)" by blast+
qed

interpretation string_question: question "string_ends U f n st0 s a0" "string_round n s" for U f n st0 s a0
  by unfold_locales (use string_ends_spec in blast)+

text \<open>Claim C34. Asking for a string or a number ends on every input without null bytes exactly if the symbol is not asked for, the program
  is aborted for lack of a terminal, or the current value is one that would be accepted. Otherwise it hangs at the end of the
  input: \<^verbatim>\<open>fgets\<close> leaves the empty line there, the current value is taken, refused, and asked for again. A number without a
  default is such a symbol, as its current value is the empty string.\<close>

theorem conf_string_ends:
  assumes "session U f st0 (a_tab a)" "s \<in> U" "valid (a_tab a) s" "is_textual (s_type (syms st0 s))" "\<And>t. t \<in> U \<Longrightarrow> f t < n"
  shows "(\<forall>inp. CHR 0x00 \<notin> set inp \<longrightarrow> conf_string n s (a\<lparr>stdin := inp\<rparr>) \<noteq> None)
    \<longleftrightarrow> (asks s a \<longrightarrow> input_mode a \<in> {ask_new, ask_silent} \<and> \<not> valid_stdin a \<or> fits_range f st0 s (val (meaning st0 f s)))"
proof -
  have start: "string_asked U f n st0 s (a\<lparr>stdin := inp\<rparr>) (a\<lparr>stdin := inp\<rparr>)" if "CHR 0x00 \<notin> set inp" for inp
    using assms that by (simp add: string_asked_def only_reads_simps(2))
  have same: "asks s (a\<lparr>stdin := inp\<rparr>) = asks s a" for inp by (simp add: asks_def)
  show ?thesis (is "?L \<longleftrightarrow> ?R")
  proof
    assume ?R
    then have "string_ends U f n st0 s (a\<lparr>stdin := inp\<rparr>) (a\<lparr>stdin := inp\<rparr>)" if "CHR 0x00 \<notin> set inp" for inp
      using start [OF that] same by (auto simp: string_ends_def)
    then show ?L using string_question.loop_ends by (fastforce simp: conf_string_def)
  next
    assume L: ?L
    show ?R
    proof (rule ccontr)
      assume nR: "\<not> ?R"
      let ?a = "a\<lparr>stdin := []\<rparr>"
      define S where "S b \<longleftrightarrow> string_asked U f n st0 s ?a b \<and> stdin b = []" for b
      have "\<exists>c. string_round n s b = Some (Returns (None, c)) \<and> S c" if "S b" for b
      proof -
        have sa: "string_asked U f n st0 s ?a b" and e: "stdin b = []" using that by (simp_all add: S_def)
        have as: "asks s b" "input_mode b \<in> {ask_new, ask_silent} \<longrightarrow> valid_stdin b" using string_asked_asks [OF sa] nR same by auto
        from string_round_at_end [OF sa as e] nR show ?thesis by (auto simp: S_def)
      qed
      moreover have "S ?a" using start [of "[]"] by (simp add: S_def)
      ultimately have "conf_string n s ?a = None" unfolding conf_string_def by (rule asking_forever)
      then show False using L by auto
    qed
  qed
qed

section \<open>Examples\<close>

definition asking_for :: "input_mode \<Rightarrow> string \<Rightarrow> ktab \<Rightarrow> ask" where
  "asking_for md inp st = \<lparr>a_tab = st, input_mode = md, valid_stdin = True, conf_cnt = 0, line = [], rootEntry = 0, stdin = inp\<rparr>"

lemma asking_for_simps [simp]: "a_tab (asking_for md inp st) = st" "input_mode (asking_for md inp st) = md" "valid_stdin (asking_for md inp st)"
  "(asking_for md inp st)\<lparr>stdin := inp'\<rparr> = asking_for md inp' st"
  by (simp_all add: asking_for_def)

text \<open>A line that is no answer, and then the end of the input.\<close>

lemma conf_sym_ends_witness:
  "\<exists>st b. calc_each 4 [Sym 0] (the (sym_clear_all_valid 4 demo_conf)) = Some st
    \<and> conf_sym 4 (Sym 0) (asking_for ask_all (''maybe'' @ newline) st) = Some (Returns ((), b)) \<and> sym_has_value (a_tab b) (Sym 0)"
proof -
  obtain st where st: "calc_each 4 [Sym 0] (the (sym_clear_all_valid 4 demo_conf)) = Some st" "session demo_set demo_layer (cleared demo_conf) st"
    "settable demo_set demo_layer st (Sym 0)" "sym_tristate_within_range st (Sym 0) No" using demo_session by blast
  let ?a = "asking_for ask_all (''maybe'' @ newline) st"
  have "sym_is_changable st (Sym 0)"
    using st(4) by (auto simp: sym_tristate_within_range_def sym_is_changable_def Let_def split: if_splits)
  then have as: "asks (Sym 0) ?a" by (simp add: asks_def)
  have h: "session demo_set demo_layer (cleared demo_conf) (a_tab ?a)" "settable demo_set demo_layer (a_tab ?a) (Sym 0)" using st(2,3) by simp_all
  from conf_sym_ends [OF h demo_depth] obtain r where r: "conf_sym 4 (Sym 0) ?a = Some r"
    "case r of Exits c \<Rightarrow> False | Returns (_, b) \<Rightarrow> sym_has_value (a_tab b) (Sym 0)"
    using as by (fastforce split: ran.splits)
  then show ?thesis using st(1) by (cases r) auto
qed

text \<open>A number without a default.\<close>

definition demo_number :: ktab where
  "demo_number = init_ktab\<lparr>next_sym := 1, syms := (syms init_ktab)
     (Sym 0 := (new_ksym (Some ''BR2_N'') {})\<lparr>s_type := S_INT,
        s_prop := [\<lparr>p_type = P_PROMPT, p_text = Some ''number'', p_visible = None, p_expr = No_Expr, p_menu = None, p_file = False\<rparr>]\<rparr>)\<rparr>"

lemma conf_string_ends_witness:
  "\<exists>st inp. sym_calc_value 1 (Sym 0) demo_number = Some st \<and> conf_string 1 (Sym 0) (asking_for ask_all inp st) = None \<and> CHR 0x00 \<notin> set inp"
proof -
  let ?U = "{Sym 0}" and ?f = "\<lambda>_. 0 :: nat" and ?d = demo_number
  have k: "syms ?d (Sym 0) = (new_ksym (Some ''BR2_N'') {})\<lparr>s_type := S_INT,
      s_prop := [\<lparr>p_type = P_PROMPT, p_text = Some ''number'', p_visible = None, p_expr = No_Expr, p_menu = None, p_file = False\<rparr>]\<rparr>"
    by (simp add: demo_number_def)
  have m: "modules_sym ?d = None" by (simp add: demo_number_def init_ktab_def)
  have al: "allocated ?d t \<longleftrightarrow> t = Sym 0" for t by (auto simp: allocated_def demo_number_def new_ksym_def)
  have pl: "plain ?d" by (simp add: plain_def demo_number_def init_ktab_def new_ksym_def const_ksym_def split: symbol.split)
  have nv: "\<not> valid ?d (Sym 0)" by (simp add: valid_def has_flag_def k new_ksym_def)
  have rk: "rankable ?d ?U ?f"
    using pl by (simp add: rankable_def k new_ksym_def read_symbols_def dep_symbols_def prop_symbols_def opt_symbols_def range_symbols_def wf_prop_def dep_of_def)
  then have l: "layered ?U ?f ?d" by (simp add: layered_def layerable_def al m nv)
  have "ready ?d ?U ?f {} ?d" by (rule ready_start [OF rk]) (simp add: modules_done_def m)
  then have "session ?U ?f ?d ?d" using l by (simp add: session_def modules_agree_def m)
  then obtain st where st: "sym_calc_value 1 (Sym 0) ?d = Some st" "session ?U ?f ?d st" "valid st (Sym 0)"
    using session_calc [of ?U ?f ?d ?d "Sym 0" 1] by auto
  let ?a = "asking_for ask_all [] st"
  have tx: "is_textual (s_type (syms ?d (Sym 0)))" by (simp add: k is_textual_def)
  have rd: "ready ?d ?U ?f {} st" using st(2) by (simp add: session_def)
  have "settled ?d ?f (Sym 0) (syms st (Sym 0))" using rd st(3) nv by (simp add: ready_def)
  then have "s_visible (syms st (Sym 0)) = Yes" "s_rev_tri (syms st (Sym 0)) = No"
    using ready_fields(3) [OF rd, of "Sym 0"]
    by (simp_all add: settled_def k is_textual_def visible_of_def rev_of_def round_up_def expr_calc_value_def new_ksym_def EXPR_OR_def less_tristate_def tri_num_def)
  then have as: "asks (Sym 0) ?a" by (simp add: asks_def sym_is_changable_def less_tristate_def tri_num_def)
  have "val (meaning ?d ?f (Sym 0)) = []"
    using meaning_solves [OF rk _ nv]
    by (simp add: k value_of_def string_of_def clamp_of_def new_ksym_def is_logical_def is_textual_def empty_value_def)
  then have nf: "\<not> fits_range ?f ?d (Sym 0) (val (meaning ?d ?f (Sym 0)))" by (simp add: fits_range_def sym_string_valid_def k int_valid_def)
  have h: "session ?U ?f ?d (a_tab ?a)" "Sym 0 \<in> ?U" "valid (a_tab ?a) (Sym 0)" using st(2,3) by simp_all
  from conf_string_ends [OF h tx, of 1] show ?thesis using as nf st(1) by auto
qed

end
