(* ===== verification/KConfDemo.thy ===== *)
theory KConfDemo
  imports KConfRead
begin

text \<open>
  A small configuration, a string with quotes in it and a boolean symbol, each in a menu of its own: what was shown of configuration files,
  at work.
\<close>

declare One_nat_def [simp del]

definition ask :: property where
  "ask = \<lparr>p_type = P_PROMPT, p_text = Some ''prompt'', p_visible = None, p_expr = No_Expr, p_menu = None, p_file = False\<rparr>"

definition hello :: string where
  "hello = ''say '' @ [CHR 0x22] @ ''hi'' @ [CHR 0x22]"

text \<open>With and without the user's values.\<close>

definition demo_file :: "bool \<Rightarrow> ktab" where
  "demo_file b = (let F = (if b then {SYMBOL_DEF_USER} else {}) in
     init_ktab\<lparr>next_sym := 2, symbol_hash := (\<lambda>h. if h = name_hash ''BR2_VERSION'' then [Sym 0] else if h = name_hash ''BR2_A'' then [Sym 1] else []),
       syms := (syms init_ktab)
         (Sym 0 := (new_ksym (Some ''BR2_VERSION'') F)\<lparr>s_type := S_STRING, s_prop := [ask],
            s_user := if b then \<lparr>u_val = Some hello, u_chosen = None, u_tri = No\<rparr> else no_user\<rparr>,
          Sym 1 := (new_ksym (Some ''BR2_A'') F)\<lparr>s_type := S_BOOLEAN, s_prop := [ask],
            s_user := if b then \<lparr>u_val = None, u_chosen = None, u_tri = Yes\<rparr> else no_user\<rparr>)\<rparr>)"

lemmas demo_file_defs = demo_file_def init_ktab_def new_ksym_def no_user_def const_ksym_def ask_def Let_def

definition demo_menus :: menus where
  "demo_menus = \<lparr>node = (\<lambda>_. new_menu None None)(0 := (new_menu None None)\<lparr>m_list := Some 1\<rparr>,
     1 := (new_menu (Some 0) (Some (Sym 0)))\<lparr>m_next := Some 2\<rparr>, 2 := new_menu (Some 0) (Some (Sym 1))),
     next_menu = 3, current_entry = 2, current_menu = 0, last_entry_ptr = Next_of 2\<rparr>"

lemma demo_names: "name_hash ''BR2_VERSION'' \<noteq> name_hash ''BR2_A''" "name_hash ''BR2_VERSION'' < 257" "name_hash ''BR2_A'' < 257"
  by code_simp+

lemma demo_known: "known (demo_file b) (Sym 0) ''BR2_VERSION''" "known (demo_file b) (Sym 1) ''BR2_A''"
  using demo_names
  by (simp_all add: known_def demo_file_defs good_name_def c_isupper_def clean_def sym_find_def const_named_def sym_is_choice_def sym_is_choice_value_def has_flag_def)

lemma demo_types: "s_type (syms (demo_file b) (Sym 0)) = S_STRING" "s_type (syms (demo_file b) (Sym 1)) = S_BOOLEAN"
  by (simp_all add: demo_file_defs)

lemma demo_fields:
  "s_prop (syms (demo_file b) (Sym 0)) = [ask]" "s_prop (syms (demo_file b) (Sym 1)) = [ask]"
  "s_rev_expr (syms (demo_file b) (Sym 0)) = None" "s_rev_expr (syms (demo_file b) (Sym 1)) = None"
  "s_flags (syms (demo_file True) (Sym 0)) = {SYMBOL_DEF_USER}" "s_flags (syms (demo_file True) (Sym 1)) = {SYMBOL_DEF_USER}"
  "u_val (s_user (syms (demo_file True) (Sym 0))) = Some hello" "u_tri (s_user (syms (demo_file True) (Sym 1))) = Yes"
  by (simp_all add: demo_file_defs)

lemma ask_fields: "p_type ask = P_PROMPT" "p_visible ask = None" "p_text ask = Some ''prompt''"
  by (simp_all add: ask_def)

section \<open>Lines\<close>

lemma config_lines_roundtrip_witness:
  "\<exists>c'. read_lines S_DEF_USER (file_lines (''#'' @ newline @ ''BR2_VERSION='' @ quoted hello @ newline @ ''BR2_A=y'' @ newline))
      \<lparr>tab = demo_file False, conf_warnings = 0, conf_unsaved = 0\<rparr> = Some c' \<and> conf_warnings c' = 0
    \<and> u_val (s_user (syms (tab c') (Sym 0))) = Some hello \<and> u_tri (s_user (syms (tab c') (Sym 1))) = Yes"
proof -
  let ?ps = "[Plain ''#'', Saved (Sym 0) No hello, Saved (Sym 1) Yes []]" and ?c = "\<lparr>tab = demo_file False, conf_warnings = 0, conf_unsaved = 0\<rparr>"
  have t: "concat (map (\<lambda>p. piece_body (tab ?c) p @ newline) ?ps) = ''#'' @ newline @ ''BR2_VERSION='' @ quoted hello @ newline @ ''BR2_A=y'' @ newline"
    by (simp add: piece_body_def symbol_body_def demo_file_defs is_logical_def tri_string_def)
  have "body (''BR2_VERSION='' @ quoted hello)" by code_simp
  then have g: "\<forall>p \<in> set ?ps. good_piece (tab ?c) p"
    using demo_known [of False] by (auto simp: good_piece_def piece_body_def symbol_body_def demo_file_defs is_logical_def tri_string_def body_def clean_def
        plain_body_def storable_def hello_def)
  have d: "distinct (saved_symbols ?ps)" "\<forall>s \<in> set (saved_symbols ?ps). \<not> has_flag (tab ?c) s (def_flag S_DEF_USER)"
    by (simp_all add: saved_symbols_def has_flag_def demo_file_defs)
  obtain c' where c': "read_lines S_DEF_USER (file_lines (''#'' @ newline @ ''BR2_VERSION='' @ quoted hello @ newline @ ''BR2_A=y'' @ newline)) ?c = Some c'"
      "conf_warnings c' = 0" "\<forall>s t x. Saved s t x \<in> set ?ps \<longrightarrow> syms (tab c') s = syms (store S_DEF_USER s t x (tab ?c)) s"
    using config_lines_roundtrip [OF g d] unfolding t by auto
  have "syms (tab c') (Sym 0) = syms (store S_DEF_USER (Sym 0) No hello (demo_file False)) (Sym 0)"
    "syms (tab c') (Sym 1) = syms (store S_DEF_USER (Sym 1) Yes [] (demo_file False)) (Sym 1)" using c'(3) by auto
  then show ?thesis using c'(1,2) unfolding store_user demo_types by (simp add: is_logical_def)
qed

section \<open>Writing and reading\<close>

abbreviation written :: ktab where
  "written \<equiv> cleared (demo_file True)"

definition demo_all :: "symbol set" where
  "demo_all = {Sym 0, Sym 1}"

lemma demo_written:
  "syms written t = syms (demo_file True) t" "modules_sym written = None" "modules_val written = No" "next_sym written = 2"
  "allocated written t \<longleftrightarrow> t \<in> demo_all" "symbol_hash written = symbol_hash (demo_file True)"
proof -
  have al: "allocated (demo_file True) t \<longleftrightarrow> t \<in> demo_all"
    by (auto simp: allocated_def demo_all_def demo_file_defs less_2_cases_iff)
  then show "allocated written t \<longleftrightarrow> t \<in> demo_all" by (simp add: cleared_facts)
  show "syms written t = syms (demo_file True) t"
  proof (cases "t \<in> demo_all")
    case True
    then have "SYMBOL_VALID \<notin> s_flags (syms (demo_file True) t)" by (auto simp: demo_all_def demo_fields)
    then show ?thesis by (simp add: cleared_syms)
  qed (use al in \<open>simp add: cleared_syms\<close>)
  show "modules_sym written = None" "modules_val written = No" "next_sym written = 2" by (simp_all add: cleared_syms demo_file_defs)
  show "symbol_hash written = symbol_hash (demo_file True)" by (simp add: cleared_def all_symbols_def)
qed

lemma demo_file_layerable: "layerable demo_all (\<lambda>_. 0) (demo_file True)"
  by (auto simp: layerable_def rankable_def plain_def demo_file_defs demo_all_def read_symbols_def dep_symbols_def prop_symbols_def
      opt_symbols_def range_symbols_def wf_prop_def dep_of_def allocated_def split: symbol.split)

lemma demo_file_session: "sym_clear_all_valid 1 (demo_file True) = Some written" "session demo_all (\<lambda>_. 0) written written"
  "all_marked written (\<lambda>_. 0) written"
proof -
  have m: "modules_sym (demo_file True) = None" "modules_val (demo_file True) = No" by (simp_all add: demo_file_defs)
  have "modules_agree (demo_file True)" using m by (simp add: modules_agree_def)
  from clear_session [OF demo_file_layerable this, of 1] obtain st1 where
    1: "sym_clear_all_valid 1 (demo_file True) = Some st1" "session demo_all (\<lambda>_. 0) (written\<lparr>modules_val := modules_val st1\<rparr>) st1"
      "modules_val st1 = No" "all_marked (written\<lparr>modules_val := modules_val st1\<rparr>) (\<lambda>_. 0) st1" using m by auto
  show c: "sym_clear_all_valid 1 (demo_file True) = Some written" using m by (simp add: sym_clear_all_valid_def cleared_def Let_def)
  have e: "written\<lparr>modules_val := modules_val st1\<rparr> = written" "st1 = written" using 1(1,3) c demo_written(3) by simp_all
  show "session demo_all (\<lambda>_. 0) written written" "all_marked written (\<lambda>_. 0) written" using 1(2,4) unfolding e by simp_all
qed

lemma demo_visible: "visible_of T v mv (syms (demo_file b) (Sym 0)) = Yes" "visible_of T v mv (syms (demo_file b) (Sym 1)) = Yes"
  "rev_of T v mv (syms (demo_file b) (Sym 1)) = No"
  by (simp_all add: visible_of_def rev_of_def demo_fields ask_fields round_up_def expr_calc_value_def EXPR_OR_def tristate_simps)

lemma demo_values: "val (meaning written (\<lambda>_. 0) (Sym 0)) = hello" "tri (meaning written (\<lambda>_. 0) (Sym 1)) = Yes"
proof -
  have rk: "rankable written demo_all (\<lambda>_. 0)" using demo_file_session(2) by (simp add: session_def layered_def layerable_def)
  have "meaning written (\<lambda>_. 0) s = value_of (tab_of written) (meaning written (\<lambda>_. 0)) No (syms (demo_file True) s)" if "s \<in> demo_all" for s
    using meaning_solves [OF rk that] demo_written(1,3,5) that session_input(1) [OF demo_file_session(2)] by auto
  then have v: "meaning written (\<lambda>_. 0) (Sym 0) = value_of (tab_of written) (meaning written (\<lambda>_. 0)) No (syms (demo_file True) (Sym 0))"
    "meaning written (\<lambda>_. 0) (Sym 1) = value_of (tab_of written) (meaning written (\<lambda>_. 0)) No (syms (demo_file True) (Sym 1))"
    by (simp_all add: demo_all_def)
  show "val (meaning written (\<lambda>_. 0) (Sym 0)) = hello" "tri (meaning written (\<lambda>_. 0) (Sym 1)) = Yes"
    by (subst v(1), simp add: value_of_def demo_types is_logical_def is_textual_def string_of_def clamp_of_def demo_visible demo_fields)
      (subst v(2), simp add: value_of_def demo_types is_logical_def tristate_of_def demo_visible demo_fields type_in_def round_up_def)
qed

lemma demo_walk: "walk demo_menus (m_list (node demo_menus 0)) = Some [1, 2]"
proof -
  have n: "m_parent (node demo_menus 2) = Some 0" "m_next (node demo_menus 2) = None" "m_list (node demo_menus 2) = None" "m_parent (node demo_menus 0) = None"
    "m_next (node demo_menus 0) = None" by code_simp+
  have "climb demo_menus 0 = Some None" by (subst climb.simps) (simp add: n)
  then have "climb demo_menus 2 = Some None" by (subst climb.simps) (simp add: n)
  then have s: "m_list (node demo_menus 0) = Some 1" "succ_menu demo_menus 1 = Some (Some 2)" "succ_menu demo_menus 2 = Some None"
    by (simp_all add: succ_menu_def n) code_simp+
  have "walk demo_menus None = Some []" by (subst walk.simps) simp
  then have "walk demo_menus (Some 2) = Some [2]" by (subst walk.simps) (simp add: s)
  then show ?thesis unfolding s(1) by (subst walk.simps) (simp add: s)
qed

lemma demo_savable: "\<forall>x \<in> set [1, 2]. savable demo_all (\<lambda>_. 0) written (node demo_menus x)"
proof -
  have k: "known written (Sym 0) ''BR2_VERSION''" "known written (Sym 1) ''BR2_A''"
    using demo_known [of True] alike_known [of "demo_file True" written] by (simp_all add: alike_def demo_written)
  have l: "clean hello" "length (symbol_body S_STRING ''BR2_VERSION'' t hello) \<le> 1022" for t
    by (simp_all add: clean_def hello_def symbol_body_def is_logical_def quoted_def)
  have l': "length (symbol_body S_BOOLEAN ''BR2_A'' t x) \<le> 1022" for t x
    by (cases t) (simp_all add: symbol_body_def is_logical_def tri_string_def)
  have a: "allocated written (Sym 0)" "allocated written (Sym 1)" "Sym 0 \<in> demo_all" "Sym 1 \<in> demo_all"
    by (simp_all add: demo_written demo_all_def)
  have "savable demo_all (\<lambda>_. 0) written (node demo_menus 1)"
    using k(1) l a by (auto simp: savable_def demo_menus_def new_menu_def demo_written(1) demo_types Let_def demo_values storable_def)
  moreover have "savable demo_all (\<lambda>_. 0) written (node demo_menus 2)"
    using k(2) l' a by (auto simp: savable_def demo_menus_def new_menu_def demo_written(1) demo_types Let_def is_textual_def)
  ultimately show ?thesis by simp
qed

lemma demo_reloadable: "\<forall>t \<in> demo_all. reloadable (map (node demo_menus) [1, 2]) (\<lambda>_. 0) written t"
  by (auto simp: demo_all_def reloadable_def default_fits_def in_range_def demo_written(1) demo_types demo_fields demo_menus_def new_menu_def)

lemma demo_date: "plain_date ''today''"
  by code_simp

lemma config_text_saves_witness:
  "\<exists>st. config_text 1 (\<lambda>_. Some ''1'') (''today'' @ newline) demo_menus written
    = Some (''#'' @ newline @ ''# Automatically generated make config: don'' @ [CHR 0x27] @ ''t edit'' @ newline @ ''#'' @ newline
        @ ''BR2_VERSION='' @ quoted hello @ newline @ ''BR2_A=y'' @ newline, st)"
proof -
  have w: "wanted written (\<lambda>_. 0) s" if "s \<in> demo_all" for s
    using that by (auto simp: demo_all_def wanted_def write_of_def demo_written(1) demo_fields demo_visible)
  have "pieces_text written (header_pieces (\<lambda>_. Some ''1'') ''today'' @ saved_pieces written (\<lambda>_. 0) {} (map (node demo_menus) [1, 2]))
    = ''#'' @ newline @ ''# Automatically generated make config: don'' @ [CHR 0x27] @ ''t edit'' @ newline @ ''#'' @ newline
        @ ''BR2_VERSION='' @ quoted hello @ newline @ ''BR2_A=y'' @ newline"
    using w by (simp add: pieces_text_def header_pieces_def piece_body_def demo_menus_def new_menu_def typed_def demo_written(1) demo_types
        is_logical_def is_textual_def demo_values symbol_body_def demo_known [unfolded known_def, THEN conjunct1] tri_string_def demo_all_def)
  moreover have "known written (Sym 0) ''BR2_VERSION''"
    using demo_known [of True] alike_known [of "demo_file True" written] by (simp add: alike_def demo_written)
  ultimately show ?thesis
    using config_text_saves [OF demo_file_session(2,3) _ _ _ demo_walk demo_savable, of 1 "Sym 0" "\<lambda>_. Some ''1''" "''today''"]
    by (simp add: demo_all_def)
qed

lemma demo_fresh: "same_kconfig written (demo_file False)"
proof -
  have o: "t \<notin> demo_all \<Longrightarrow> syms (demo_file b) t = syms init_ktab t" for t b
    by (simp add: demo_file_def Let_def demo_all_def)
  have w: "SYMBOL_WRITE \<notin> s_flags (syms init_ktab t)" for t
    by (simp add: init_ktab_def const_ksym_def new_ksym_def split: symbol.split)
  have g: "symbol_hash (demo_file False) = symbol_hash (demo_file True)" "modules_sym (demo_file False) = None" "next_sym (demo_file False) = 2"
    "modules_val (demo_file False) = No" by (simp_all add: demo_file_defs)
  have "s_name (syms (demo_file False) t) = s_name (syms (demo_file True) t) \<and> s_type (syms (demo_file False) t) = s_type (syms (demo_file True) t)
      \<and> s_prop (syms (demo_file False) t) = s_prop (syms (demo_file True) t) \<and> s_rev_expr (syms (demo_file False) t) = s_rev_expr (syms (demo_file True) t)
      \<and> (\<forall>x \<in> {SYMBOL_CONST, SYMBOL_CHOICE, SYMBOL_CHOICEVAL, SYMBOL_AUTO}.
          x \<in> s_flags (syms (demo_file False) t) \<longleftrightarrow> x \<in> s_flags (syms (demo_file True) t))
      \<and> (t \<notin> demo_all \<longrightarrow> syms (demo_file False) t = syms (demo_file True) t) \<and> \<not> has_flag (demo_file False) t SYMBOL_WRITE" for t
  proof (cases "t \<in> demo_all")
    case True
    then show ?thesis by (auto simp: demo_all_def demo_file_defs has_flag_def)
  next
    case False
    then show ?thesis using o [OF False] w by (simp add: has_flag_def)
  qed
  then show ?thesis by (simp add: same_kconfig_def g demo_written modules_agree_def)
qed

lemma conf_read_after_write_witness:
  "\<exists>st text st' c'. sym_clear_all_valid 1 (demo_file True) = Some st \<and> config_text 1 (\<lambda>_. None) (''today'' @ newline) demo_menus st = Some (text, st')
    \<and> conf_read 1 (\<lambda>_. None) (\<lambda>_. Some text) None (Some ''.config'') \<lparr>tab = demo_file False, conf_warnings = 0, conf_unsaved = 0\<rparr> = Some (False, c')
    \<and> val (s_curr (syms (tab c') (Sym 0))) = hello \<and> tri (s_curr (syms (tab c') (Sym 1))) = Yes \<and> change_count (tab c') = 0"
proof -
  let ?c = "\<lparr>tab = demo_file False, conf_warnings = 0, conf_unsaved = 0\<rparr>"
  have k: "known written (Sym 0) ''BR2_VERSION''"
    using demo_known [of True] alike_known [of "demo_file True" written] by (simp add: alike_def demo_written)
  have same: "same_kconfig written (tab ?c)" using demo_fresh by simp
  have sl: "set (symbol_list (tab ?c)) = demo_all"
    using demo_names by (auto simp: symbol_list_def demo_all_def demo_file_defs split: if_splits)
  have r: "\<forall>t \<in> demo_all. allocated written t \<longrightarrow> reloadable (map (node demo_menus) [1, 2]) (\<lambda>_. 0) written t" using demo_reloadable by blast
  have sub: "set (symbol_list (tab ?c)) \<subseteq> {s \<in> demo_all. allocated written s}" "Sym 0 \<in> demo_all"
    unfolding sl by (auto simp: demo_written(5)) (simp add: demo_all_def)
  from conf_read_after_write [OF demo_file_session(2,3) _ k sub(2) refl demo_walk demo_savable demo_date r same sub(1), of 1 "\<lambda>_. None"]
  obtain x st' where t: "config_text 1 (\<lambda>_. None) (''today'' @ newline) demo_menus written = Some (x, st')"
    "\<And>files dl nm. files nm = Some x \<Longrightarrow> \<exists>c'. conf_read 1 (\<lambda>_. None) files dl (Some nm) ?c = Some (False, c') \<and> conf_warnings c' = 0
      \<and> conf_unsaved c' = 0 \<and> change_count (tab c') = 0 \<and> (\<forall>s \<in> set (symbol_list (tab ?c)). s_curr (syms (tab c') s) = meaning written (\<lambda>_. 0) s)"
    by auto
  from t(2) [of "\<lambda>_. Some x" "''.config''" None] obtain c' where
    "conf_read 1 (\<lambda>_. None) (\<lambda>_. Some x) None (Some ''.config'') ?c = Some (False, c')" "change_count (tab c') = 0"
    "\<forall>s \<in> demo_all. s_curr (syms (tab c') s) = meaning written (\<lambda>_. 0) s" using sl by auto
  then show ?thesis using t(1) demo_file_session(1) demo_values by (auto simp: demo_all_def)
qed

end
