(* ===== verification/KOldConfig.thy ===== *)
theory KOldConfig
  imports KAskProps KFinalizeProps KConfDemo
begin

text \<open>
  Asking for new symbols (\<^verbatim>\<open>check_conf\<close>) when there are none: a configuration that was written and is read again leaves no question open,
  so that \<^verbatim>\<open>make silentoldconfig\<close> reads no line, changes no value and has nothing to write.
\<close>

section \<open>Evaluation along the menus\<close>

definition evaluated :: "symbol set \<Rightarrow> (symbol \<Rightarrow> nat) \<Rightarrow> ktab \<Rightarrow> ktab \<Rightarrow> ktab \<Rightarrow> bool" where
  "evaluated U f b st st' \<longleftrightarrow> session U f b st' \<and> keeps (wanted b f) st st' \<and> steady st st'"

lemma evaluated_refl: "session U f b st \<Longrightarrow> evaluated U f b st st"
  by (simp add: evaluated_def keeps_refl steady_refl)

lemma evaluated_trans: "evaluated U f b st st' \<Longrightarrow> evaluated U f b st' st'' \<Longrightarrow> evaluated U f b st st''"
  unfolding evaluated_def using keeps_trans steady_trans by blast

lemma evaluated_session: "evaluated U f b st st' \<Longrightarrow> session U f b st'"
  by (simp add: evaluated_def)

text \<open>An entry whose prompt and symbol can be evaluated.\<close>

definition menu_ok :: "symbol set \<Rightarrow> ktab \<Rightarrow> menu \<Rightarrow> bool" where
  "menu_ok U b x \<longleftrightarrow> (\<forall>p. prompt_of b x = Some p \<longrightarrow> set (opt_symbols (p_visible p)) \<subseteq> U)
     \<and> (\<forall>s. m_sym x = Some s \<longrightarrow> s \<in> U \<and> allocated b s \<and> typed (syms b s))"

lemma prompt_of_session: "session U f b st \<Longrightarrow> prompt_of st x = prompt_of b x"
proof -
  assume "session U f b st"
  then have "ready b U f {} st" by (simp add: session_def)
  then have "s_prop (syms st s) = s_prop (syms b s)" for s by (rule ready_fields(5))
  then show ?thesis by (simp add: prompt_of_def split: option.split prompt.split)
qed

lemma comment_ok:
  assumes "session U f b st" "menu_ok U b x" "\<And>t. t \<in> U \<Longrightarrow> f t < n"
  shows "\<exists>v st'. comment_visible n x st = Some (v, st') \<and> evaluated U f b st st'"
proof (cases "prompt_of b x")
  case None
  then show ?thesis using assms(1) by (simp add: comment_visible_def prompt_of_session evaluated_refl ex_bool_eq)
next
  case (Some p)
  have rd: "ready b U f {} st" using assms(1) by (simp add: session_def)
  have "below U f n {} s" if "s \<in> set (opt_symbols (p_visible p))" for s using assms(2,3) Some that by (auto simp: menu_ok_def below_def)
  then have "yields b U f {} st (expr_calc_value (tab_of b) (meaning b f) (p_visible p)) (calc_opt (sym_calc_value n) (p_visible p) st)"
    by (rule sym_calc_value_eval.calc_opt_yields [OF rd])
  then obtain t st' where
    1: "calc_opt (sym_calc_value n) (p_visible p) st = Some (t, st')" "ready b U f {} st'" "keeps (wanted b f) st st'" by (auto simp: yields_def)
  have "gives st (calc_opt (sym_calc_value n) (p_visible p) st)" by (rule eval_steady.calc_opt [OF steady_refl])
  then have "steady st st'" using 1(1) by (simp add: gives_def)
  then have "evaluated U f b st st'" using session_keeps [OF assms(1) 1(2,3)] 1(3) by (simp add: evaluated_def)
  then show ?thesis using 1(1) Some assms(1) by (simp add: comment_visible_def prompt_of_session)
qed

lemma own_ok:
  assumes "session U f b st" "menu_ok U b x" "\<And>t. t \<in> U \<Longrightarrow> f t < n"
  shows "\<exists>r st'. own_visible n x st = Some (r, st') \<and> evaluated U f b st st' \<and> (\<forall>s. m_sym x = Some s \<and> r \<noteq> Hidden \<longrightarrow> valid st' s)"
proof (cases "m_sym x")
  case None
  obtain v st' where "comment_visible n x st = Some (v, st')" "evaluated U f b st st'" using comment_ok [OF assms] by blast
  then show ?thesis using None by (intro exI [of _ "if v then Shown else Hidden"] exI [of _ st']) (simp add: own_visible_def)
next
  case (Some s)
  show ?thesis
  proof (cases "prompt_of st x = None")
    case True
    then show ?thesis using Some evaluated_refl [OF assms(1)] by (simp add: own_visible_def)
  next
    case False
    then obtain p where p: "prompt_of st x = Some p" by auto
    have s: "s \<in> U" "f s < n" using assms(2,3) Some by (auto simp: menu_ok_def)
    obtain st1 where 1: "sym_calc_value n s st = Some st1" "session U f b st1" "keeps (wanted b f) st st1" "valid st1 s"
      using session_calc [OF assms(1) s] by blast
    have e1: "evaluated U f b st st1" using 1 sym_calc_value_steady [OF 1(1)] by (simp add: evaluated_def)
    obtain v st2 where 2: "comment_visible n x st1 = Some (v, st2)" "evaluated U f b st1 st2" using comment_ok [OF 1(2) assms(2,3)] by blast
    have "valid st2 s" using keeps_valid [OF _ 1(4)] 2(2) by (auto simp: evaluated_def)
    then show ?thesis using Some p 1(1) 2(1) evaluated_trans [OF e1 2(2)] by (simp add: own_visible_def)
  qed
qed

lemma any_ok:
  "forest ms q p ts \<Longrightarrow> \<forall>m \<in> set (preorders ts). menu_ok U b (node ms m) \<Longrightarrow> (\<And>t. t \<in> U \<Longrightarrow> f t < n) \<Longrightarrow> session U f b st \<Longrightarrow>
    \<exists>v st'. any_visible n ms p st = Some (v, st') \<and> evaluated U f b st st'"
proof (induction ts arbitrary: q p st rule: preorders.induct)
  case 1
  then show ?case by (subst any_visible.simps) (simp add: evaluated_refl ex_bool_eq)
next
  case (2 m cs ts)
  have p: "p = Some m" and cs: "forest ms m (m_list (node ms m)) cs" and ts: "forest ms q (m_next (node ms m)) ts" using 2(3) by simp_all
  have ok: "menu_ok U b (node ms m)" "\<forall>m \<in> set (preorders cs). menu_ok U b (node ms m)" "\<forall>m \<in> set (preorders ts). menu_ok U b (node ms m)"
    using 2(4) by simp_all
  obtain r st1 where 1: "own_visible n (node ms m) st = Some (r, st1)" "evaluated U f b st st1" using own_ok [OF 2(6) ok(1) 2(5)] by blast
  obtain v st2 where v: "(if r = Ask_Below then any_visible n ms (m_list (node ms m)) st1 else Some (r = Shown, st1)) = Some (v, st2)"
    "evaluated U f b st1 st2"
    using 2(1) [OF cs ok(2) 2(5) evaluated_session [OF 1(2)]] evaluated_refl [OF evaluated_session [OF 1(2)]] by (cases "r = Ask_Below") auto
  have e2: "evaluated U f b st st2" by (rule evaluated_trans [OF 1(2) v(2)])
  obtain w st3 where w: "any_visible n ms (m_next (node ms m)) st2 = Some (w, st3)" "evaluated U f b st2 st3"
    using 2(2) [OF ts ok(3) 2(5) evaluated_session [OF e2]] by blast
  have "any_visible n ms p st = (if v then Some (True, st2) else Some (w, st3))"
    by (subst any_visible.simps) (simp add: p 1(1) v(1) w(1))
  then show ?case using e2 evaluated_trans [OF e2 w(2)] by auto
qed

lemma visible_ok:
  assumes "session U f b st" "forest ms m (m_list (node ms m)) cs" "menu_ok U b (node ms m)" "\<forall>m \<in> set (preorders cs). menu_ok U b (node ms m)"
    "\<And>t. t \<in> U \<Longrightarrow> f t < n"
  shows "\<exists>v st'. menu_is_visible n ms m st = Some (v, st') \<and> evaluated U f b st st' \<and> (\<forall>s. m_sym (node ms m) = Some s \<and> v \<longrightarrow> valid st' s)"
proof -
  obtain r st1 where 1: "own_visible n (node ms m) st = Some (r, st1)" "evaluated U f b st st1"
    "\<forall>s. m_sym (node ms m) = Some s \<and> r \<noteq> Hidden \<longrightarrow> valid st1 s" using own_ok [OF assms(1,3,5)] by blast
  obtain v st2 where 2: "any_visible n ms (m_list (node ms m)) st1 = Some (v, st2)" "evaluated U f b st1 st2"
    using any_ok [OF assms(2,4,5) evaluated_session [OF 1(2)]] by blast
  have "valid st1 s \<Longrightarrow> valid st2 s" for s using 2(2) keeps_valid by (auto simp: evaluated_def)
  then show ?thesis using 1 2 evaluated_trans [OF 1(2) 2(2)] by (cases "r = Ask_Below") (auto simp: menu_is_visible_def)
qed

section \<open>Nothing to ask\<close>

text \<open>Every entry that is visible has a value of the user.\<close>

definition nothing_new :: "symbol set \<Rightarrow> (symbol \<Rightarrow> nat) \<Rightarrow> ktab \<Rightarrow> menu \<Rightarrow> bool" where
  "nothing_new U f b x \<longleftrightarrow> menu_ok U b x \<and> (\<forall>s. m_sym x = Some s \<longrightarrow>
     visible_of (tab_of b) (meaning b f) (modules_val b) (syms b s) = No \<or> SYMBOL_DEF_USER \<in> s_flags (syms b s))"

lemma answered:
  assumes "session U f b st" "nothing_new U f b x" "m_sym x = Some s" "valid st s"
  shows "\<not> unanswered st s"
proof -
  have rd: "ready b U f {} st" using assms(1) by (simp add: session_def)
  have s: "allocated b s" "typed (syms b s)" using assms(2,3) by (simp_all add: nothing_new_def menu_ok_def)
  have "\<not> valid b s" using session_input(1) [OF assms(1)] s(1) by blast
  then have "settled b f s (syms st s)" using rd assms(4) by (simp add: ready_def)
  then have "s_visible (syms st s) = visible_of (tab_of b) (meaning b f) (modules_val b) (syms b s)"
    using s(2) ready_fields(3) [OF rd] by (auto simp: settled_def typed_def)
  then have "sym_has_value st s \<or> s_visible (syms st s) = No" using assms(2,3) ready_fields(8) [OF rd] by (auto simp: nothing_new_def)
  moreover have "\<not> t < No" for t by (cases t) (simp_all add: less_tristate_def tri_num_def)
  ultimately show ?thesis using ready_fields(9) [OF rd] by (auto simp: unanswered_def sym_is_changable_def)
qed

lemma children_forest: "forest ms m (m_list (node ms m)) cs \<Longrightarrow> children ms m a = Some (Returns (map root cs, a))"
  by (simp add: children_def chain_forest)

text \<open>The search goes through all menus without asking.\<close>

lemma check_conf_silent:
  "forest ms m (m_list (node ms m)) cs \<Longrightarrow> nothing_new U f b (node ms m) \<Longrightarrow> \<forall>x \<in> set (preorders cs). nothing_new U f b (node ms x) \<Longrightarrow>
    (\<And>t. t \<in> U \<Longrightarrow> f t < n) \<Longrightarrow> length (preorders cs) < d \<Longrightarrow> session U f b (a_tab a) \<Longrightarrow>
    \<exists>st'. check_conf n ms before d m a = Some (Returns ((), a\<lparr>a_tab := st'\<rparr>)) \<and> evaluated U f b (a_tab a) st'"
proof (induction d arbitrary: m cs a)
  case (Suc d)
  have ok: "menu_ok U b (node ms m)" "\<forall>x \<in> set (preorders cs). menu_ok U b (node ms x)" using Suc(3,4) by (simp_all add: nothing_new_def)
  obtain v st1 where 1: "menu_is_visible n ms m (a_tab a) = Some (v, st1)" "evaluated U f b (a_tab a) st1"
    "\<forall>s. m_sym (node ms m) = Some s \<and> v \<longrightarrow> valid st1 s" using visible_ok [OF Suc(7,2) ok Suc(5)] by blast
  note s1 = evaluated_session [OF 1(2)]
  let ?a = "a\<lparr>a_tab := st1\<rparr>" and ?check = "check_conf n ms before d"
  have each: "part ms m p ts None \<Longrightarrow> set (preorders ts) \<subseteq> set (preorders cs) \<Longrightarrow> length (preorders ts) \<le> length (preorders cs) \<Longrightarrow>
      session U f b (a_tab c) \<Longrightarrow> \<exists>st'. for_each ?check (map root ts) c = Some (Returns ((), c\<lparr>a_tab := st'\<rparr>)) \<and> evaluated U f b (a_tab c) st'" for p ts c
  proof (induction ts arbitrary: p c rule: preorders.induct)
    case 1
    then show ?case by (intro exI [of _ "a_tab c"]) (simp add: ret_def evaluated_refl)
  next
    case (2 x ys ts)
    have "forest ms x (m_list (node ms x)) ys" "nothing_new U f b (node ms x)" "\<forall>z \<in> set (preorders ys). nothing_new U f b (node ms z)"
      "length (preorders ys) < d" using 2(3-5) Suc(4,6) by auto
    from Suc(1) [OF this(1-3) Suc(5) this(4) 2(6)] obtain st2 where
      x: "?check x c = Some (Returns ((), c\<lparr>a_tab := st2\<rparr>))" "evaluated U f b (a_tab c) st2" by blast
    have "part ms m (m_next (node ms x)) ts None" "set (preorders ts) \<subseteq> set (preorders cs)" "length (preorders ts) \<le> length (preorders cs)"
      "session U f b (a_tab (c\<lparr>a_tab := st2\<rparr>))" using 2(3-5) evaluated_session [OF x(2)] by auto
    from 2(2) [OF this] obtain st3 where
      "for_each ?check (map root ts) (c\<lparr>a_tab := st2\<rparr>) = Some (Returns ((), c\<lparr>a_tab := st3\<rparr>))" "evaluated U f b st2 st3" by auto
    then show ?case using x(1) evaluated_trans [OF x(2)] by (intro exI [of _ st3]) (simp add: followed_by_Some(1))
  qed
  show ?case
  proof (cases v)
    case False
    then show ?thesis using 1(1,2) by (intro exI [of _ st1]) (simp add: check_menu_def followed_by_table ret_def)
  next
    case True
    have "\<not> (case m_sym (node ms m) of None \<Rightarrow> False | Some s \<Rightarrow> unanswered st1 s)"
      using answered [OF s1 Suc(3)] 1(3) True by (simp split: option.split)
    then have "check_conf n ms before (Suc d) m a = for_each ?check (map root cs) ?a"
      using 1(1) True children_forest [OF Suc(2)] by (cases "m_sym (node ms m)") (simp_all add: check_menu_def followed_by_table run_simps)
    then show ?thesis using each [of "m_list (node ms m)" cs ?a] Suc(2) s1 evaluated_trans [OF 1(2)] by (auto simp: part_forest)
  qed
qed simp

text \<open>What was read leaves nothing new.\<close>

lemma nothing_new_read:
  assumes "session U f a st" "session U f b st'" "same_equations U f a b" "complete U f a b" "menu_ok U a x"
  shows "nothing_new U f b x"
proof -
  have rk: "rankable a U f" using assms(1) by (simp add: session_def layered_def layerable_def)
  note e = assms(3) [unfolded same_equations_def]
  have ty: "s_type (syms b t) = s_type (syms a t)" for t using e unfolding tab_of_def by (metis symtab.ext_inject)
  have lb: "layered U f b" using assms(2) by (simp add: session_def)
  have al: "\<not> valid a t" "\<not> valid b t" "allocated b t" "s_prop (syms b t) = s_prop (syms a t)" if "t \<in> U" "allocated a t" for t
  proof -
    show nv: "\<not> valid a t" using session_input(1) [OF assms(1)] that(2) by blast
    then show nb: "\<not> valid b t" using e that(1) by simp
    then show "allocated b t" using lb that(1) by (auto simp: layered_def layerable_def)
    show "s_prop (syms b t) = s_prop (syms a t)" using e that(1) nv by simp
  qed
  show ?thesis
  proof (cases "m_sym x")
    case None
    then have "prompt_of b x = prompt_of a x" by (simp add: prompt_of_def split: option.split prompt.split)
    then show ?thesis using assms(5) None by (simp add: nothing_new_def menu_ok_def)
  next
    case (Some s)
    have s: "s \<in> U" "allocated a s" "typed (syms a s)" using assms(5) Some by (simp_all add: menu_ok_def)
    have "prompt_of b x = prompt_of a x" using al(4) [OF s(1,2)] Some by (simp add: prompt_of_def split: option.split prompt.split)
    then have "menu_ok U b x" using assms(5) Some s al(3) ty by (simp add: menu_ok_def typed_def)
    moreover have "visible_of (tab_of b) (meaning b f) (modules_val b) (syms b s) = No \<or> SYMBOL_DEF_USER \<in> s_flags (syms b s)"
      using same_visible(1) [OF assms(3) rk s(1) al(1) [OF s(1,2)]] assms(4) s by (auto simp: complete_def)
    ultimately show ?thesis using Some by (simp add: nothing_new_def)
  qed
qed

lemma check_all_silent:
  assumes "forest ms 0 (m_list (node ms 0)) ts" "nothing_new U f b (node ms 0)" "\<forall>x \<in> set (preorders ts). nothing_new U f b (node ms x)"
    "\<And>t. t \<in> U \<Longrightarrow> f t < n" "length (preorders ts) < d" "session U f b (a_tab a)"
  shows "\<exists>st'. check_all n ms before d a = Some (Returns ((), a\<lparr>conf_cnt := 0, a_tab := st'\<rparr>)) \<and> evaluated U f b (a_tab a) st'"
proof -
  have "session U f b (a_tab (a\<lparr>conf_cnt := 0\<rparr>))" using assms(6) by simp
  from check_conf_silent [OF assms(1-5) this] obtain st' where
    1: "check_conf n ms before d 0 (a\<lparr>conf_cnt := 0\<rparr>) = Some (Returns ((), a\<lparr>conf_cnt := 0, a_tab := st'\<rparr>))" "evaluated U f b (a_tab a) st'" by auto
  then have "last_round (check_round n ms before d) a (Returns ((), a\<lparr>conf_cnt := 0, a_tab := st'\<rparr>))"
    by (simp add: last_round_def check_round_def run_simps)
  then show ?thesis using asking_last 1(2) by (auto simp: check_all_def)
qed

text \<open>Claim C15. After a configuration has been written, \<^verbatim>\<open>make oldconfig\<close> on that file (reading it into any table for the same configuration
  language files, then searching all menus for new symbols) asks nothing: whatever standard input is, no line of it is read, the program neither
  exits nor loops, every symbol has the value it had when it was written, and nothing has changed that would have to be written.\<close>

theorem oldconfig_asks_nothing:
  assumes "session U f st0 st" "all_marked st0 f st" "\<And>t. t \<in> U \<Longrightarrow> f t < n" "known st v ''BR2_VERSION''" "v \<in> U" "symbol_hash st0 = symbol_hash st"
    "forest ms 0 (m_list (node ms 0)) ts" "m_next (node ms 0) = None" "m_parent (node ms 0) = None" "length (preorders ts) < d"
    "\<forall>x \<in> set (preorders ts). savable U f st0 (node ms x)" "\<forall>x \<in> set (0 # preorders ts). menu_ok U st0 (node ms x)" "plain_date date"
    "\<forall>t \<in> U. allocated st0 t \<longrightarrow> reloadable (map (node ms) (preorders ts)) f st0 t"
    "same_kconfig st0 (tab c)" "set (symbol_list (tab c)) \<subseteq> {s \<in> U. allocated st0 s}" "input_mode a = ask_silent"
  shows "\<exists>text st'. config_text n getenv (date @ newline) ms st = Some (text, st') \<and> (\<forall>files dl nm. files nm = Some text \<longrightarrow>
    (\<exists>c' b. conf_read n getenv files dl (Some nm) c = Some (False, c')
      \<and> ask_symbols n ms before d (a\<lparr>a_tab := tab c'\<rparr>) = Some (Returns ((), b))
      \<and> stdin b = stdin a \<and> \<not> conf_get_changed (a_tab b) \<and> (\<forall>s \<in> set (symbol_list (tab c)). s_curr (syms (a_tab b) s) = meaning st0 f s)))"
proof -
  let ?l = "preorders ts"
  have w: "walk ms (m_list (node ms 0)) = Some ?l" by (rule walk_preorder [OF assms(7,8,9)])
  obtain new st' where t: "config_text n getenv (date @ newline) ms st = Some (new, st')"
    and r: "\<forall>files dl nm. files nm = Some new \<longrightarrow> (\<exists>c'. conf_read n getenv files dl (Some nm) c = Some (False, c') \<and> reread U f st0 c c')"
    using write_then_read [OF assms(1-6) w assms(11,13,14,15,16)] by blast
  have "\<exists>c' b. conf_read n getenv files dl (Some nm) c = Some (False, c') \<and> ask_symbols n ms before d (a\<lparr>a_tab := tab c'\<rparr>) = Some (Returns ((), b))
      \<and> stdin b = stdin a \<and> \<not> conf_get_changed (a_tab b) \<and> (\<forall>s \<in> set (symbol_list (tab c)). s_curr (syms (a_tab b) s) = meaning st0 f s)"
    if fl: "files nm = Some new" for files dl nm
  proof -
    obtain c' where c: "conf_read n getenv files dl (Some nm) c = Some (False, c')" and rr: "reread U f st0 c c'" using r fl by blast
    have cc: "change_count (tab c') = 0" "\<forall>s \<in> set (symbol_list (tab c)). valid (tab c') s \<and> s_curr (syms (tab c') s) = meaning st0 f s"
      using rr by (simp_all add: reread_def)
    obtain b where b: "session U f b (tab c')" "same_equations U f st0 b" "complete U f st0 b" using rr by (auto simp: reread_def)
    have nn: "nothing_new U f b (node ms x)" if "x \<in> set (0 # ?l)" for x
      by (rule nothing_new_read [OF assms(1) b]) (use assms(12) that in blast)
    have h0: "nothing_new U f b (node ms 0)" and h1: "\<forall>x \<in> set ?l. nothing_new U f b (node ms x)" using nn by simp_all
    have hs: "session U f b (a_tab (a\<lparr>a_tab := tab c'\<rparr>))" using b(1) by simp
    obtain st1 where s: "check_all n ms before d (a\<lparr>a_tab := tab c'\<rparr>) = Some (Returns ((), a\<lparr>conf_cnt := 0, a_tab := st1\<rparr>))" "evaluated U f b (tab c') st1"
      using check_all_silent [OF assms(7) h0 h1 assms(3,10) hs] by auto
    have "syms st1 s = syms (tab c') s" if "s \<in> set (symbol_list (tab c))" for s using s(2) cc(2) that by (simp add: evaluated_def keeps_def)
    moreover have "change_count st1 = 0" using s(2) cc(1) by (simp add: evaluated_def steady_def globals_def)
    ultimately show ?thesis using c cc(2) s(1) assms(17) by (auto simp: ask_symbols_def conf_get_changed_def)
  qed
  then show ?thesis using t by blast
qed

declare One_nat_def [simp del]

text \<open>The small configuration, its entries with their prompts.\<close>

definition demo_prompts :: menus where
  "demo_prompts = upd_menu 0 (\<lambda>x. x\<lparr>m_prompt := Some (Own (ask\<lparr>p_type := P_MENU\<rparr>))\<rparr>)
     (upd_menu 1 (\<lambda>x. x\<lparr>m_prompt := Some (Of_Symbol 0)\<rparr>) (upd_menu 2 (\<lambda>x. x\<lparr>m_prompt := Some (Of_Symbol 0)\<rparr>) demo_menus))"

lemma demo_prompts_nodes:
  "node demo_prompts 0 = (new_menu None None)\<lparr>m_list := Some 1, m_prompt := Some (Own (ask\<lparr>p_type := P_MENU\<rparr>))\<rparr>"
  "node demo_prompts 1 = (new_menu (Some 0) (Some (Sym 0)))\<lparr>m_next := Some 2, m_prompt := Some (Of_Symbol 0)\<rparr>"
  "node demo_prompts 2 = (new_menu (Some 0) (Some (Sym 1)))\<lparr>m_prompt := Some (Of_Symbol 0)\<rparr>"
  by (simp_all add: demo_prompts_def demo_menus_def)

lemma oldconfig_asks_nothing_witness:
  "\<exists>st new st' c' b. sym_clear_all_valid 1 (demo_file True) = Some st \<and> config_text 1 (\<lambda>_. None) (''today'' @ newline) demo_prompts st = Some (new, st')
    \<and> conf_read 1 (\<lambda>_. None) (\<lambda>_. Some new) None (Some ''.config'') \<lparr>tab = demo_file False, conf_warnings = 0, conf_unsaved = 0\<rparr> = Some (False, c')
    \<and> ask_symbols 1 demo_prompts CHR ''x'' 3 (asking_for ask_silent ''y'' (tab c')) = Some (Returns ((), b)) \<and> stdin b = ''y''
    \<and> val (s_curr (syms (a_tab b) (Sym 0))) = hello"
proof -
  let ?c = "\<lparr>tab = demo_file False, conf_warnings = 0, conf_unsaved = 0\<rparr>" and ?ts = "[Node 1 [], Node 2 []]" and ?a = "asking_for ask_silent ''y'' init_ktab"
  have k: "known written (Sym 0) ''BR2_VERSION''"
    using demo_known [of True] alike_known [of "demo_file True" written] by (simp add: alike_def demo_written)
  have same: "same_kconfig written (tab ?c)" using demo_fresh by simp
  have sl: "set (symbol_list (tab ?c)) = demo_all"
    using demo_names by (auto simp: symbol_list_def demo_all_def demo_file_defs split: if_splits)
  have sub: "set (symbol_list (tab ?c)) \<subseteq> {s \<in> demo_all. allocated written s}" "Sym 0 \<in> demo_all"
    unfolding sl by (auto simp: demo_written(5)) (simp add: demo_all_def)
  have f: "forest demo_prompts 0 (m_list (node demo_prompts 0)) ?ts" "m_next (node demo_prompts 0) = None" "m_parent (node demo_prompts 0) = None"
    by (simp_all add: demo_prompts_nodes new_menu_def)
  have s: "\<forall>x \<in> set (preorders ?ts). savable demo_all (\<lambda>_. 0) written (node demo_prompts x)"
    using demo_savable by (simp add: savable_def demo_prompts_nodes demo_menus_def new_menu_def)
  have o: "\<forall>x \<in> set (0 # preorders ?ts). menu_ok demo_all written (node demo_prompts x)"
    by (simp add: menu_ok_def demo_prompts_nodes prompt_of_def new_menu_def demo_written(1,5) demo_fields ask_fields opt_symbols_def demo_all_def
        typed_def demo_types is_textual_def is_logical_def)
  have r: "\<forall>t \<in> demo_all. allocated written t \<longrightarrow> reloadable (map (node demo_prompts) (preorders ?ts)) (\<lambda>_. 0) written t"
    using demo_reloadable by (auto simp: reloadable_def demo_prompts_nodes demo_menus_def new_menu_def demo_all_def)
  have n: "length (preorders ?ts) < 3" "input_mode ?a = ask_silent" by simp_all
  from oldconfig_asks_nothing [OF demo_file_session(2,3) _ k sub(2) refl f n(1) s o demo_date r same sub(1) n(2), of 1 "\<lambda>_. None" "CHR ''x''"]
  obtain x st' where t: "config_text 1 (\<lambda>_. None) (''today'' @ newline) demo_prompts written = Some (x, st')"
    "\<forall>files dl nm. files nm = Some x \<longrightarrow> (\<exists>c' b. conf_read 1 (\<lambda>_. None) files dl (Some nm) ?c = Some (False, c')
      \<and> ask_symbols 1 demo_prompts CHR ''x'' 3 (?a\<lparr>a_tab := tab c'\<rparr>) = Some (Returns ((), b)) \<and> stdin b = stdin ?a \<and> \<not> conf_get_changed (a_tab b)
      \<and> (\<forall>s \<in> set (symbol_list (tab ?c)). s_curr (syms (a_tab b) s) = meaning written (\<lambda>_. 0) s))" by auto
  from t(2) [rule_format, of "\<lambda>_. Some x" "''.config''" None] obtain c' b where
    c: "conf_read 1 (\<lambda>_. None) (\<lambda>_. Some x) None (Some ''.config'') ?c = Some (False, c')"
      "ask_symbols 1 demo_prompts CHR ''x'' 3 (?a\<lparr>a_tab := tab c'\<rparr>) = Some (Returns ((), b))" "stdin b = stdin ?a"
      "\<forall>s \<in> set (symbol_list (tab ?c)). s_curr (syms (a_tab b) s) = meaning written (\<lambda>_. 0) s" by auto
  have "?a\<lparr>a_tab := tab c'\<rparr> = asking_for ask_silent ''y'' (tab c')" "stdin ?a = ''y''" by (simp_all add: asking_for_def)
  moreover have "val (s_curr (syms (a_tab b) (Sym 0))) = hello" using c(4) sub(2) demo_values(1) unfolding sl by simp
  ultimately show ?thesis using t(1) c(1-3) demo_file_session(1) by auto
qed

end
