(* ===== verification/Spec2Isabelle.thy ===== *)
theory Spec2Isabelle
  imports FwTheorems SysConfigProps FanLoop SysInvariant KExprDupsProps KTable KSessionProps KPropagate KOldConfig
begin

text \<open>
  This library models the C programs that belong to the Alt-F distribution itself: the firmware tool and the two
  hardware daemons of \<^verbatim>\<open>package/alt-f-utils\<close>, and the configuration tool in \<^verbatim>\<open>package/config\<close>: its dependency
  expressions, symbols, menus and configuration files. Paths are relative to \<^verbatim>\<open>src/alt-f\<close>.

  The parts and how they interact. \<^verbatim>\<open>dns323-fw.c\<close> builds and takes apart vendor firmware images on the command line and
  stands alone. \<^verbatim>\<open>sysctrl.c\<close> runs on every box: it reads sensors and buttons, sets leds and the fan, stops idle disks and
  watches RAID arrays. On the DNS-320L and similar boxes these devices hang off a microcontroller (MCU), and
  \<^verbatim>\<open>dns320l-daemon.c\<close> speaks its serial protocol and mirrors its state in the files of \<^verbatim>\<open>/tmp/sys\<close>, which are what
  \<^verbatim>\<open>sysctrl.c\<close> reads and writes. The two daemons interact through these files only; the theory \<^verbatim>\<open>FanLoop\<close> puts them
  together. The configuration tool is independent of the others: the parser fills the table of symbols (\<^verbatim>\<open>symbol.c\<close>) and the tree of
  menus (\<^verbatim>\<open>menu.c\<close>) with expressions (\<^verbatim>\<open>expr.c\<close>) as dependencies; evaluating a symbol evaluates the expressions of its properties and,
  through them, other symbols; \<^verbatim>\<open>confdata.c\<close> reads the user's values from the configuration file, evaluates all symbols and writes
  them out again in the order of the menus.
\<close>

text \<open>
  Theories and what they correspond to.

  \<^item> \<^verbatim>\<open>Prelude\<close>: C integers and strings, byte files, the little-endian layout, the functions of the C library.
  \<^item> \<^verbatim>\<open>FwFormat\<close>, \<^verbatim>\<open>FwCopy\<close>, \<^verbatim>\<open>FwTool\<close>: \<^verbatim>\<open>dns323-fw.c\<close>. The headers are records with their memory images, \<^verbatim>\<open>readwrite\<close>
    is the copy engine, and \<^verbatim>\<open>merge\<close>, \<^verbatim>\<open>split\<close>, \<^verbatim>\<open>info\<close> and \<^verbatim>\<open>main\<close> are functions on the files (\<open>fwio\<close>) that return the reason of
    an \<^verbatim>\<open>exit\<close> as an error value. \<^verbatim>\<open>FwTheorems\<close>: what was merged is split again byte for byte; layout of an image; checksums;
    refusals; recognition of headers.
  \<^item> \<^verbatim>\<open>Sysfs\<close>: the four helpers for small files that both daemons contain.
  \<^item> \<^verbatim>\<open>McuProtocol\<close>, \<^verbatim>\<open>McuCommands\<close>, \<^verbatim>\<open>McuDaemon\<close> (with \<^verbatim>\<open>Calendar\<close>): packets, retries and answers over a parameter serial port
    (\<open>port\<close>); the commands and the dispatcher over the state \<open>mcu\<close>; the table of connections, the mirroring and the
    main loop over the state \<open>daemon\<close>. \<^verbatim>\<open>McuCommandProps\<close> and \<^verbatim>\<open>McuDaemonProps\<close>: the packet arrays stay packets, the connection
    table is never overrun, files and MCU agree after each round, the schedule survives its counter.
  \<^item> \<^verbatim>\<open>CFloat\<close>: IEEE rounding on rationals. \<^verbatim>\<open>SysState\<close>: the globals and static variables of \<^verbatim>\<open>sysctrl.c\<close> (\<open>sysctl\<close>) and the
    kernel as a parameter (\<open>kernel\<close>). \<^verbatim>\<open>SysConfig\<close>, \<^verbatim>\<open>SysDisks\<close>, \<^verbatim>\<open>SysFan\<close>, \<^verbatim>\<open>SysButtons\<close>: configuration, leds and disks, fan, buttons
    and the main loop, the whole program as the step relation \<open>sys_step\<close>. \<^verbatim>\<open>SysConfigProps\<close>, \<^verbatim>\<open>SysDiskProps\<close>, \<^verbatim>\<open>SysFanProps\<close>,
    \<^verbatim>\<open>SysButtonProps\<close>: one group of properties each. \<^verbatim>\<open>SysInvariant\<close>: an invariant of all reachable states. \<^verbatim>\<open>FanLoop\<close>: both
    daemons together refine a thermostat with two relays.
  \<^item> \<^verbatim>\<open>KExpr\<close>, \<^verbatim>\<open>KExprDups\<close>: \<^verbatim>\<open>expr.h\<close> and \<^verbatim>\<open>expr.c\<close>. \<^verbatim>\<open>KExprProps\<close>, \<^verbatim>\<open>KExprDupsProps\<close>: each rewriting of an expression keeps its
    three-valued meaning, or keeps it on the inputs named; comparison is sound; the simplification ends in a fixed point.
  \<^item> \<^verbatim>\<open>KSymbol\<close>, \<^verbatim>\<open>KCheck\<close>, \<^verbatim>\<open>KCalc\<close>: \<^verbatim>\<open>symbol.c\<close>. All its globals are the record \<open>ktab\<close>; a symbol is a number (or a constant) into its
    map \<open>syms\<close> of records \<open>ksym\<close>. \<^verbatim>\<open>KSymbol\<close> has the data and the functions on one symbol, \<^verbatim>\<open>KCheck\<close> the search for recursive
    dependencies, \<^verbatim>\<open>KCalc\<close> the evaluation (\<^verbatim>\<open>sym_calc_value\<close>) and the setting of values. \<^verbatim>\<open>KTable\<close>: the hash table interns names.
    \<^verbatim>\<open>KCheckProps\<close>: the search ends and reports exactly the reachable cycles, or follows the null pointer of a cycle without a place in a file. \<^verbatim>\<open>KCalcProps\<close> states what the values of the symbols
    mean, as the solution \<open>meaning\<close> of equations; \<^verbatim>\<open>KCalcEval\<close>: evaluation returns and leaves this meaning, and marks for saving what is
    to be saved; \<^verbatim>\<open>KCalcSet\<close>, \<^verbatim>\<open>KSession\<close>, \<^verbatim>\<open>KSessionProps\<close>: sessions, in which values are set, cleared and evaluated in any
    order, and what the search guarantees for them: each symbol has one value; \<^verbatim>\<open>KFrame\<close>: what evaluation never touches.
  \<^item> \<^verbatim>\<open>KMenu\<close>: \<^verbatim>\<open>menu.c\<close>, the menus as nodes of a record \<open>menus\<close> linked by numbers for pointers. \<^verbatim>\<open>KMenuProps\<close>: the loop over the menus
    visits what calls like the parser's have built once and in file order. \<^verbatim>\<open>KFinalize\<close>: \<^verbatim>\<open>menu_finalize\<close>, which rearranges the tree and propagates the
    dependencies after parsing; \<^verbatim>\<open>KFinalizeProps\<close>: it ends and keeps the order of the menus; \<^verbatim>\<open>KPropagate\<close>: what the propagated conditions
    mean.
  \<^item> \<^verbatim>\<open>KAsk\<close>: \<^verbatim>\<open>conf.c\<close>, the questions on lines of text, and its \<^verbatim>\<open>main\<close>, which reads, asks and writes. Standard input is a string in
    the record \<open>ask\<close>, which also has the table and the static variables; an \<^verbatim>\<open>exit\<close> is a value.
    \<^verbatim>\<open>KAskProps\<close>: which questions end, by a rule for loops of questions (locale \<open>question\<close>, interpreted on both kinds); \<^verbatim>\<open>KOldConfig\<close>: on a
    configuration that was written and read again nothing is asked.
  \<^item> \<^verbatim>\<open>KConf\<close>, \<^verbatim>\<open>KConfWrite\<close>: \<^verbatim>\<open>confdata.c\<close>, reading and writing, with the table and the counters of warnings and of unsaved values
    as the record \<open>conf\<close>. \<^verbatim>\<open>KConfLines\<close>: lines that were written are read back; \<^verbatim>\<open>KConfSave\<close>: what a session writes;
    \<^verbatim>\<open>KConfReload\<close>, \<^verbatim>\<open>KConfRead\<close>: what was written is read back with every value as it was; \<^verbatim>\<open>KConfDemo\<close>: a small configuration on which
    these theorems are applied.
\<close>

text \<open>
  Conventions. \<open>None\<close> is undefined behaviour (an overrun buffer, an uninitialised value, a null pointer), unless a theory
  says otherwise; errors and exits are values. System calls, sensors, clocks and other processes are fields of parameter
  records over a state of the outside world, so that every theorem holds for all their behaviours, or for those that a named
  hypothesis describes. Machine integers are words, or integers with the wrap-around written out.

  Bounds and fuel. The copy loop of the firmware tool is bounded by the length that is left; the retries of the MCU protocol
  by \<^verbatim>\<open>nRetries\<close>; \<^verbatim>\<open>debounce\<close> and \<^verbatim>\<open>back_button\<close> are partial functions, and when \<^verbatim>\<open>debounce\<close> returns is a theorem. The two passes
  of \<^verbatim>\<open>expr_eliminate_dups\<close> are given the size of their expression as depth, and more makes no difference; its loop is a
  terminating function. The comparison \<^verbatim>\<open>expr_eq\<close> and \<^verbatim>\<open>expr_eliminate_eq\<close> call each other; the second takes the first as an
  argument, and a congruence rule shows that it calls it on smaller pairs only. Evaluation and the search for cycles recurse through
  the table and get a depth: a depth above the rank of the symbols (or their number) is enough, which is part of the theorems; a
  depth that is used up is \<open>None\<close>. The questions loop with \<^verbatim>\<open>while (1)\<close>, a partial function, and when they end is a theorem. The loops over the menus are partial functions, and that they end on what the parser builds is a
  theorem; \<^verbatim>\<open>menu_finalize\<close> gets a depth, and the number of menus is enough.

  Not modelled. In the modelled files: output of messages and logs, daemonising, sockets and terminals being set up, the contents
  of mails and of the fan log, local time (a parameter). The int counters of \<^verbatim>\<open>sysctrl.c\<close> that count rounds are unbounded here;
  they overflow after decades. Files of \<^verbatim>\<open>/tmp/sys\<close> change between steps of a program, not within one. A successful \<^verbatim>\<open>execl\<close> ends the
  program. In \<^verbatim>\<open>expr.c\<close>: the memory management (\<^verbatim>\<open>expr_copy\<close>, \<^verbatim>\<open>expr_free\<close>), and the nodes \<^verbatim>\<open>E_LIST\<close> and \<^verbatim>\<open>E_RANGE\<close>, which belong to
  choices and ranges. In \<^verbatim>\<open>symbol.c\<close>, \<^verbatim>\<open>menu.c\<close> and \<^verbatim>\<open>confdata.c\<close>: the texts of warnings (in \<^verbatim>\<open>confdata.c\<close> they are counted), file names and
  line numbers (but not whether there is a file: a message can follow a null pointer), the flags that tell user interfaces what to redraw. Choices are modelled; the theorems about the evaluation and
  about configuration files are for tables without choices. What \<^verbatim>\<open>conf.c\<close> prints is left out. Other
  programs of the repository: the full-screen user interfaces of the configuration tool and its generated parser;
  \<^verbatim>\<open>elf2flt\<close>, \<^verbatim>\<open>sstrip\<close>, \<^verbatim>\<open>makedevs\<close>, \<^verbatim>\<open>mcookie\<close> and \<^verbatim>\<open>rpcinfo\<close>, which are third-party sources; the small helpers of the web interface.
\<close>

end
